(* ===== verification/Prelude.thy ===== *)
theory Prelude
  imports Complex_Main
begin

text \<open>
  The vocabulary every component shares: identifiers, the errors of
  \<^verbatim>\<open>packages/core/src/common/error/errors.ts\<close>, a result type for code that throws, the
  JavaScript idioms the code leans on (\<^verbatim>\<open>Map\<close> with insertion order, \<^verbatim>\<open>Array.find\<close>,
  \<^verbatim>\<open>unique\<close>, \<^verbatim>\<open>summate\<close>, \<^verbatim>\<open>filter\<close> of optional results) and the generic
  lemmas on them. An interface, \<open>keyed_store\<close>, states what a keyed container promises; the
  ordered map below is its first provider.
\<close>

named_theorems frame_simps \<open>fields an operation leaves alone\<close>
named_theorems total_simps \<open>sums over lists of entities\<close>

section \<open>Identifiers, time and results\<close>

text \<open>
  An id is a number or a string in the code, and \<^verbatim>\<open>idsAreEqual\<close> compares the printed
  forms. One database uses one id strategy, so a natural number stands for the printed form. An
  absent id is \<^term>\<open>None\<close>.
\<close>

type_synonym ID = nat

definition idsAreEqual :: "ID option \<Rightarrow> ID option \<Rightarrow> bool" where
  "idsAreEqual id1 id2 =
     (case id1 of None \<Rightarrow> False
      | Some i \<Rightarrow> (case id2 of None \<Rightarrow> False | Some j \<Rightarrow> i = j))"

lemma idsAreEqual_Some [simp]: "idsAreEqual (Some i) (Some j) = (i = j)"
  by (simp add: idsAreEqual_def)

lemma idsAreEqual_None [simp]: "\<not> idsAreEqual None x" "\<not> idsAreEqual x None"
  by (auto simp: idsAreEqual_def split: option.splits)

lemma idsAreEqual_iff: "idsAreEqual x y \<longleftrightarrow> (\<exists>i. x = Some i \<and> y = Some i)"
  by (auto simp: idsAreEqual_def split: option.splits)

text \<open>The operator \<^verbatim>\<open>??\<close>.\<close>

definition nullish :: "'a option \<Rightarrow> 'a \<Rightarrow> 'a" where
  "nullish v d = (case v of None \<Rightarrow> d | Some x \<Rightarrow> x)"

lemma nullish_simps [simp]: "nullish None d = d" "nullish (Some x) d = x"
  by (simp_all add: nullish_def)

datatype vendure_error =
    InternalServerError string
  | IllegalOperationError string
  | UserInputError string
  | EntityNotFoundError string ID
  | ForbiddenError
  | JsError string

type_synonym 'a result = "vendure_error + 'a"

fun bind_result :: "'e + 'a \<Rightarrow> ('a \<Rightarrow> 'e + 'b) \<Rightarrow> 'e + 'b" where
  "bind_result (Inl e) f = Inl e"
| "bind_result (Inr x) f = f x"

fun fold_result :: "('x \<Rightarrow> 's \<Rightarrow> 'e + 's) \<Rightarrow> 'x list \<Rightarrow> 's \<Rightarrow> 'e + 's" where
  "fold_result f [] s = Inr s"
| "fold_result f (x # xs) s = bind_result (f x s) (fold_result f xs)"

lemma case_sum_Inr:
  "(case r of Inl e \<Rightarrow> Inl e | Inr y \<Rightarrow> Inr (f y)) = Inr z \<longleftrightarrow> (\<exists>y. r = Inr y \<and> z = f y)"
  by (cases r) auto

lemma not_Inl_unit: "(\<forall>e. x \<noteq> Inl e) \<longleftrightarrow> x = Inr ()"
  by (cases x) auto

lemma not_Inl_iff: "(\<forall>e. x \<noteq> Inl e) \<longleftrightarrow> (\<exists>y. x = Inr y)"
  by (cases x) auto

lemma bind_result_Inr: "bind_result m f = Inr y \<longleftrightarrow> (\<exists>x. m = Inr x \<and> f x = Inr y)"
  by (cases m) auto

lemma bind_result_Inl: "bind_result m f = Inl e \<longleftrightarrow> m = Inl e \<or> (\<exists>x. m = Inr x \<and> f x = Inl e)"
  by (cases m) auto

lemma fold_result_invariant:
  assumes "fold_result f xs s = Inr t" and "P s"
    and "\<And>x s t. x \<in> set xs \<Longrightarrow> P s \<Longrightarrow> f x s = Inr t \<Longrightarrow> P t"
  shows "P t"
  using assms
proof (induction xs arbitrary: s)
  case Nil
  then show ?case by simp
next
  case (Cons x xs)
  then obtain u where u: "f x s = Inr u" "fold_result f xs u = Inr t"
    by (auto simp: bind_result_Inr)
  have "P u" using Cons.prems u by auto
  then show ?case using Cons.IH [OF u(2)] Cons.prems(3) by auto
qed

section \<open>Arrays: find, unique, summate\<close>

definition notNullOrUndefined :: "'a option \<Rightarrow> bool" where
  "notNullOrUndefined val = (val \<noteq> None)"

text \<open>\<open>xs.map(f).filter(notNullOrUndefined)\<close> keeps the results that are there.\<close>

definition map_present :: "('a \<Rightarrow> 'b option) \<Rightarrow> 'a list \<Rightarrow> 'b list" where
  "map_present f xs = map the (filter notNullOrUndefined (map f xs))"

lemma map_present_Nil [simp]: "map_present f [] = []"
  by (simp add: map_present_def)

lemma map_present_Cons [simp]:
  "map_present f (x # xs) = (case f x of None \<Rightarrow> map_present f xs | Some y \<Rightarrow> y # map_present f xs)"
  by (simp add: map_present_def notNullOrUndefined_def split: option.split)

lemma set_map_present: "set (map_present f xs) = {y. \<exists>x \<in> set xs. f x = Some y}"
  by (induction xs) (auto split: option.splits)

lemma find_Some_in: "List.find P xs = Some x \<Longrightarrow> x \<in> set xs \<and> P x"
  by (auto simp: find_Some_iff)

lemma find_None_all: "List.find P xs = None \<longleftrightarrow> (\<forall>x \<in> set xs. \<not> P x)"
  by (auto simp: find_None_iff)

lemma find_not_None: "List.find P xs \<noteq> None \<longleftrightarrow> (\<exists>x \<in> set xs. P x)"
  by (auto simp: find_None_iff)

lemma find_distinct_key:
  assumes "distinct (map k xs)" and "x \<in> set xs"
  shows "List.find (\<lambda>y. k y = k x) xs = Some x"
  using assms by (induction xs) (auto simp: image_iff)

fun unique_from :: "'a list \<Rightarrow> 'a list \<Rightarrow> 'a list" where
  "unique_from seen [] = []"
| "unique_from seen (x # xs) =
     (if x \<in> set seen then unique_from seen xs else x # unique_from (x # seen) xs)"

definition unique :: "'a list \<Rightarrow> 'a list" where
  "unique arr = unique_from [] arr"

lemma set_unique_from: "set (unique_from seen xs) = set xs - set seen"
  by (induction xs arbitrary: seen) auto

lemma distinct_unique_from: "distinct (unique_from seen xs)"
  by (induction xs arbitrary: seen) (auto simp: set_unique_from)

lemma set_unique [simp]: "set (unique xs) = set xs"
  by (simp add: unique_def set_unique_from)

lemma distinct_unique [simp]: "distinct (unique xs)"
  by (simp add: unique_def distinct_unique_from)

definition summate :: "'a list \<Rightarrow> ('a \<Rightarrow> 'n::comm_monoid_add) \<Rightarrow> 'n" where
  "summate items prop = foldl (\<lambda>sum i. sum + prop i) 0 items"

lemma foldl_plus_sum_list:
  "foldl (\<lambda>s i. s + f i) (a::'n::comm_monoid_add) xs = a + sum_list (map f xs)"
  by (induction xs arbitrary: a) (auto simp: add.assoc)

lemma summate_sum_list [total_simps]: "summate xs f = sum_list (map f xs)"
  by (simp add: summate_def foldl_plus_sum_list)

lemma summate_Nil [simp]: "summate [] f = 0"
  by (simp add: summate_def)

lemma sum_list_nonneg_map: "(\<And>x. x \<in> set xs \<Longrightarrow> (0::int) \<le> f x) \<Longrightarrow> 0 \<le> sum_list (map f xs)"
  by (induction xs) auto

lemma sum_list_update_int:
  "i < length xs \<Longrightarrow> sum_list (xs[i := x]) = sum_list xs - (xs ! i :: 'n::ab_group_add) + x"
  by (induction xs arbitrary: i) (auto split: nat.split simp: algebra_simps)

section \<open>Insertion-ordered maps\<close>

text \<open>
  A JavaScript \<^verbatim>\<open>Map\<close> (and an object used as one) keeps its keys in the order of their
  first insertion; setting a key again keeps its place.
\<close>

type_synonym ('k, 'v) js_map = "('k \<times> 'v) list"

definition map_get :: "('k, 'v) js_map \<Rightarrow> 'k \<Rightarrow> 'v option" where
  "map_get m k = map_of m k"

fun map_set :: "'k \<Rightarrow> 'v \<Rightarrow> ('k, 'v) js_map \<Rightarrow> ('k, 'v) js_map" where
  "map_set k v [] = [(k, v)]"
| "map_set k v ((k', v') # m) = (if k = k' then (k', v) # m else (k', v') # map_set k v m)"

definition map_delete :: "'k \<Rightarrow> ('k, 'v) js_map \<Rightarrow> ('k, 'v) js_map" where
  "map_delete k m = filter (\<lambda>e. fst e \<noteq> k) m"

definition map_wf :: "('k, 'v) js_map \<Rightarrow> bool" where
  "map_wf m = distinct (map fst m)"

lemma map_get_Nil [simp]: "map_get [] k = None"
  by (simp add: map_get_def)

lemma map_get_Cons [simp]: "map_get ((a, b) # m) k = (if k = a then Some b else map_get m k)"
  by (simp add: map_get_def)

lemma map_get_set: "map_get (map_set k v m) = (map_get m)(k \<mapsto> v)"
  by (induction m) (auto simp: fun_eq_iff)

lemma map_get_delete: "map_get (map_delete k m) = (map_get m)(k := None)"
  by (induction m) (auto simp: fun_eq_iff map_delete_def)

lemma keys_map_set: "fst ` set (map_set k v m) = insert k (fst ` set m)"
  by (induction m rule: map_set.induct [of "\<lambda>k v m. fst ` set (map_set k v m) = insert k (fst ` set m)"])
    (simp_all add: insert_commute insert_absorb)

lemma map_wf_set: "map_wf m \<Longrightarrow> map_wf (map_set k v m)"
  by (induction m) (auto simp: map_wf_def keys_map_set)

lemma map_wf_delete: "map_wf m \<Longrightarrow> map_wf (map_delete k m)"
  by (induction m) (auto simp: map_wf_def map_delete_def)

lemma map_get_Some_in: "map_wf m \<Longrightarrow> map_get m k = Some v \<longleftrightarrow> (k, v) \<in> set m"
  by (simp add: map_get_def map_wf_def map_of_eq_Some_iff)

lemma map_get_None_iff: "map_get m k = None \<longleftrightarrow> k \<notin> fst ` set m"
  by (simp add: map_get_def map_of_eq_None_iff)

text \<open>What a client of a keyed container may rely on.\<close>

locale keyed_store =
  fixes get :: "'m \<Rightarrow> 'k \<Rightarrow> 'v option"
    and put :: "'k \<Rightarrow> 'v \<Rightarrow> 'm \<Rightarrow> 'm"
    and del :: "'k \<Rightarrow> 'm \<Rightarrow> 'm"
    and invar :: "'m \<Rightarrow> bool"
  assumes get_put: "invar m \<Longrightarrow> get (put k v m) = (get m)(k \<mapsto> v)"
    and get_del: "invar m \<Longrightarrow> get (del k m) = (get m)(k := None)"
    and invar_put: "invar m \<Longrightarrow> invar (put k v m)"
    and invar_del: "invar m \<Longrightarrow> invar (del k m)"
begin

lemma get_put_same: "invar m \<Longrightarrow> get (put k v m) k = Some v"
  by (simp add: get_put)

lemma get_put_other: "invar m \<Longrightarrow> k \<noteq> k' \<Longrightarrow> get (put k v m) k' = get m k'"
  by (simp add: get_put)

lemma get_fold_del:
  "invar m \<Longrightarrow> get (fold del ks m) k = (if k \<in> set ks then None else get m k)"
  by (induction ks arbitrary: m) (auto simp: invar_del get_del)

lemma invar_fold_del: "invar m \<Longrightarrow> invar (fold del ks m)"
  by (induction ks arbitrary: m) (auto simp: invar_del)

lemma invar_fold_put: "invar m \<Longrightarrow> invar (fold (\<lambda>(k, v). put k v) kvs m)"
  by (induction kvs arbitrary: m) (auto simp: invar_put)

end

interpretation js: keyed_store map_get map_set map_delete map_wf
  by unfold_locales (simp_all add: map_get_set map_get_delete map_wf_set map_wf_delete)

section \<open>Stepping\<close>

text \<open>The reflexive transitive closure of a step relation, as runs of a machine.\<close>

inductive steps :: "('s \<Rightarrow> 's \<Rightarrow> bool) \<Rightarrow> 's \<Rightarrow> 's \<Rightarrow> bool" for r where
  steps_refl: "steps r s s"
| steps_step: "steps r s t \<Longrightarrow> r t u \<Longrightarrow> steps r s u"

lemma steps_invariant:
  assumes "steps r s t" and "P s" and "\<And>s t. P s \<Longrightarrow> r s t \<Longrightarrow> P t"
  shows "P t"
  using assms by (induction rule: steps.induct) auto

lemma steps_trans: "steps r t u \<Longrightarrow> steps r s t \<Longrightarrow> steps r s u"
  by (induction rule: steps.induct) (auto intro: steps.intros)

lemma steps_single: "r s t \<Longrightarrow> steps r s t"
  by (auto intro: steps.intros)

end
