(* ===== verification/Texts.thy ===== *)
theory Texts
  imports Prelude
begin

text \<open>
  Strings as the code treats them: lower case, trimming, and the normalisation of email addresses in
  \<^verbatim>\<open>common/utils.ts\<close>. A string is a list of 8-bit characters; case and white space are those
  of ASCII.
\<close>

definition lower_char :: "char \<Rightarrow> char" where
  "lower_char c = (let n = of_char c :: nat in if 65 \<le> n \<and> n \<le> 90 then char_of (n + 32) else c)"

definition toLowerCase :: "string \<Rightarrow> string" where
  "toLowerCase s = map lower_char s"

definition white :: "char \<Rightarrow> bool" where
  "white c = (let n = of_char c :: nat in n = 32 \<or> (9 \<le> n \<and> n \<le> 13))"

definition trim :: "string \<Rightarrow> string" where
  "trim s = rev (dropWhile white (rev (dropWhile white s)))"

text \<open>
  The pattern asks for no white space, one \<^verbatim>\<open>@\<close>, something before it, and a dot behind it with
  something on both sides.
\<close>

fun dot_inside :: "string \<Rightarrow> bool" where
  "dot_inside (a # b # c # s) \<longleftrightarrow> b = CHR ''.'' \<or> dot_inside (b # c # s)"
| "dot_inside s \<longleftrightarrow> False"

definition like_email :: "string \<Rightarrow> bool" where
  "like_email s \<longleftrightarrow>
     (let user = takeWhile (\<lambda>c. c \<noteq> CHR 0x40) s; rest = dropWhile (\<lambda>c. c \<noteq> CHR 0x40) s
      in (\<forall>c \<in> set s. \<not> white c) \<and> user \<noteq> [] \<and> rest \<noteq> [] \<and> CHR 0x40 \<notin> set (tl rest) \<and> dot_inside (tl rest))"

definition isEmailAddressLike :: "string \<Rightarrow> bool result" where
  "isEmailAddressLike s =
     (if 1000 < length s then Inl (JsError ''Input too long'') else Inr (like_email (trim s)))"

definition normalizeEmailAddress :: "string \<Rightarrow> string result" where
  "normalizeEmailAddress s = bind_result (isEmailAddressLike s) (\<lambda>email. Inr (if email then toLowerCase (trim s) else trim s))"

section \<open>Normalised addresses are left alone\<close>

lemma lower_char_idem [simp]: "lower_char (lower_char c) = lower_char c"
  by (simp add: lower_char_def Let_def)

lemma toLowerCase_idem [simp]: "toLowerCase (toLowerCase s) = toLowerCase s"
  by (simp add: toLowerCase_def comp_def)

lemma length_toLowerCase: "length (toLowerCase s) = length s"
  by (simp add: toLowerCase_def)

lemma white_lower [simp]: "white (lower_char c) = white c"
  by (auto simp: white_def lower_char_def Let_def)

lemma dropWhile_trimmed: "dropWhile P (rev (dropWhile P (rev (dropWhile P xs)))) = rev (dropWhile P (rev (dropWhile P xs)))"
proof -
  let ?ys = "dropWhile P xs"
  obtain us where us: "?ys = rev (dropWhile P (rev ?ys)) @ us"
    by (metis rev_append rev_rev_ident takeWhile_dropWhile_id)
  show ?thesis
  proof (cases "rev (dropWhile P (rev ?ys))")
    case (Cons z zs)
    then have "hd ?ys = z" "?ys \<noteq> []" using us by (metis append_Cons list.sel(1), force)
    then have "\<not> P z" by (metis hd_dropWhile)
    then show ?thesis using Cons by simp
  next
    case Nil
    then show ?thesis unfolding Nil by simp
  qed
qed

lemma trim_idem [simp]: "trim (trim s) = trim s"
  by (simp add: trim_def dropWhile_trimmed dropWhile_idem)

lemma trim_lower: "trim (toLowerCase s) = toLowerCase (trim s)"
  by (simp add: trim_def toLowerCase_def rev_map dropWhile_map comp_def)

lemma trim_length: "length (trim s) \<le> length s"
proof -
  have "length (trim s) \<le> length (dropWhile white s)"
    using length_dropWhile_le [of white "rev (dropWhile white s)"] by (simp add: trim_def)
  then show ?thesis using length_dropWhile_le [of white s] by linarith
qed

lemma lower_char_special [simp]:
  "lower_char c = CHR 0x40 \<longleftrightarrow> c = CHR 0x40" "lower_char c = CHR ''.'' \<longleftrightarrow> c = CHR ''.''"
proof -
  have c: "c = char_of (of_char c :: nat)" by simp
  have l: "lower_char c = d \<longleftrightarrow> c = d" if "of_char d < (97::nat) \<or> (122::nat) < of_char d" "of_char d < (65::nat) \<or> (90::nat) < of_char d"
    for d
  proof (cases "65 \<le> (of_char c :: nat) \<and> (of_char c :: nat) \<le> 90")
    case True
    then have "lower_char c = char_of (of_char c + 32 :: nat)" by (simp add: lower_char_def Let_def)
    then have "of_char (lower_char c) = (of_char c :: nat) + 32" using True by simp
    then have "lower_char c \<noteq> d" using that(1) True by auto
    moreover have "c \<noteq> d" using that(2) True by auto
    ultimately show ?thesis by blast
  next
    case False
    then show ?thesis by (auto simp: lower_char_def Let_def)
  qed
  show "lower_char c = CHR 0x40 \<longleftrightarrow> c = CHR 0x40" by (rule l) simp_all
  show "lower_char c = CHR ''.'' \<longleftrightarrow> c = CHR ''.''" by (rule l) simp_all
qed

lemma dot_inside_lower [simp]: "dot_inside (map lower_char s) = dot_inside s"
  by (induction s rule: dot_inside.induct) auto

lemma like_email_lower [simp]: "like_email (toLowerCase s) = like_email s"
proof -
  have "CHR 0x40 \<in> lower_char ` set xs \<longleftrightarrow> CHR 0x40 \<in> set xs" for xs
    by (metis (no_types, opaque_lifting) image_iff lower_char_special(1))
  then show ?thesis
    by (auto simp: like_email_def toLowerCase_def Let_def takeWhile_map dropWhile_map comp_def map_tl [symmetric])
qed

lemma normalizeEmailAddress_idem:
  assumes "normalizeEmailAddress s = Inr t"
  shows "normalizeEmailAddress t = Inr t"
  using assms trim_length [of s]
  by (auto simp: normalizeEmailAddress_def isEmailAddressLike_def trim_lower length_toLowerCase split: if_splits)

end
