(* ===== verification/Accounts.thy ===== *)
theory Accounts
  imports Texts
begin

text \<open>
  Customer accounts: the users and their credentials in \<^verbatim>\<open>user.service.ts\<close>, and what
  \<^verbatim>\<open>customer.service.ts\<close> makes of them: registration, verification of the email address, reset of
  the password and change of the address; with the native login and the gate of
  \<^verbatim>\<open>auth.service.ts\<close>. New tokens, the salt of a hash and the clock are arguments. Passwords are hashed,
  checked and validated and tokens verified by strategies, which are functions of the configuration. A call
  that throws leaves the tables as they were; one that answers with an error keeps what it saved before.
  Profile fields, history, the customer's groups and the sessions a deletion ends are left out.
\<close>

section \<open>Tables\<close>

record native_method =
  nm_identifier :: string
  nm_passwordHash :: string
  nm_verificationToken :: "string option"
  nm_passwordResetToken :: "string option"
  nm_identifierChangeToken :: "string option"
  nm_pendingIdentifier :: "string option"

datatype auth_method = Native native_method | External string

record account =
  acct_id :: ID
  acct_deletedAt :: "int option"
  acct_identifier :: string
  acct_verified :: bool
  acct_methods :: "auth_method list"

record customer_row =
  cust_id :: ID
  cust_email :: string
  cust_deletedAt :: "int option"
  cust_userId :: "ID option"
  cust_channels :: "ID list"

datatype account_event =
    AccountRegistrationEvent account
  | AccountVerifiedEvent ID
  | PasswordResetEvent account
  | PasswordResetVerifiedEvent account
  | IdentifierChangeRequestEvent account
  | IdentifierChangeEvent account string

record accounts_db =
  db_accounts :: "account list"
  db_customers :: "customer_row list"
  db_administrators :: "ID list"
  db_nextId :: ID
  db_events :: "account_event list"

datatype user_kind = administrator_kind | customer_kind

record auth_config =
  requireVerification :: bool
  cfg_validatePassword :: "string \<Rightarrow> string + unit"
  cfg_hash :: "string \<Rightarrow> string \<Rightarrow> string"
  cfg_check :: "string \<Rightarrow> string \<Rightarrow> bool"
  cfg_verifyToken :: "int \<Rightarrow> string \<Rightarrow> bool"
  cfg_dummyHash :: string

datatype account_error =
    MissingPasswordError
  | PasswordAlreadySetError
  | PasswordValidationError string
  | VerificationTokenInvalidError
  | VerificationTokenExpiredError
  | PasswordResetTokenInvalidError
  | PasswordResetTokenExpiredError
  | IdentifierChangeTokenInvalidError
  | IdentifierChangeTokenExpiredError
  | EmailAddressConflictError
  | InvalidCredentialsError
  | NotVerifiedError

type_synonym 'a answer = "((account_error + 'a) \<times> accounts_db) result"

abbreviation answers :: "accounts_db \<Rightarrow> account_error + 'a \<Rightarrow> 'a answer" where
  "answers db r \<equiv> Inr (r, db)"

definition find_account :: "ID \<Rightarrow> accounts_db \<Rightarrow> account option" where
  "find_account i db = List.find (\<lambda>a. acct_id a = i) (db_accounts db)"

definition save_account :: "account \<Rightarrow> accounts_db \<Rightarrow> accounts_db" where
  "save_account a db = db\<lparr>db_accounts := map (\<lambda>x. if acct_id x = acct_id a then a else x) (db_accounts db)\<rparr>"

definition publish :: "account_event \<Rightarrow> accounts_db \<Rightarrow> accounts_db" where
  "publish e db = db\<lparr>db_events := db_events db @ [e]\<rparr>"

section \<open>The native credential of a user\<close>

fun native_of :: "auth_method list \<Rightarrow> native_method option" where
  "native_of [] = None"
| "native_of (Native m # ms) = Some m"
| "native_of (External s # ms) = native_of ms"

abbreviation getNativeAuthenticationMethod :: "account \<Rightarrow> native_method option" where
  "getNativeAuthenticationMethod a \<equiv> native_of (acct_methods a)"

definition native_or_throw :: "account \<Rightarrow> native_method result" where
  "native_or_throw a =
     (case getNativeAuthenticationMethod a of
        None \<Rightarrow> Inl (InternalServerError ''error.native-authentication-methods-not-found'') | Some m \<Rightarrow> Inr m)"

fun set_native_of :: "native_method \<Rightarrow> auth_method list \<Rightarrow> auth_method list" where
  "set_native_of m [] = []"
| "set_native_of m (Native x # ms) = Native m # ms"
| "set_native_of m (External s # ms) = External s # set_native_of m ms"

definition set_native :: "native_method \<Rightarrow> account \<Rightarrow> account" where
  "set_native m a = a\<lparr>acct_methods := set_native_of m (acct_methods a)\<rparr>"

text \<open>The user one of whose native credentials satisfies a condition.\<close>

definition find_by_native :: "(native_method \<Rightarrow> bool) \<Rightarrow> accounts_db \<Rightarrow> account option" where
  "find_by_native P db = List.find (\<lambda>a. list_ex (\<lambda>m. case m of Native n \<Rightarrow> P n | External s \<Rightarrow> False) (acct_methods a)) (db_accounts db)"

section \<open>Finding users\<close>

definition of_kind :: "user_kind \<Rightarrow> accounts_db \<Rightarrow> account \<Rightarrow> bool" where
  "of_kind k db a =
     (case k of
        administrator_kind \<Rightarrow> acct_id a \<in> set (db_administrators db)
      | customer_kind \<Rightarrow> list_ex (\<lambda>c. cust_userId c = Some (acct_id a)) (db_customers db))"

definition getUserByEmailAddress :: "user_kind \<Rightarrow> string \<Rightarrow> accounts_db \<Rightarrow> account option result" where
  "getUserByEmailAddress k emailAddress db =
     bind_result (isEmailAddressLike emailAddress) (\<lambda>like.
     bind_result (if like then normalizeEmailAddress emailAddress else Inr emailAddress) (\<lambda>wanted.
       Inr (List.find (\<lambda>a. acct_deletedAt a = None \<and> of_kind k db a \<and>
              (if like then toLowerCase (acct_identifier a) = wanted else acct_identifier a = wanted)) (db_accounts db))))"

definition findOneByUserId :: "ID option \<Rightarrow> ID \<Rightarrow> accounts_db \<Rightarrow> customer_row option" where
  "findOneByUserId channel userId db =
     List.find (\<lambda>c. cust_userId c = Some userId \<and> cust_deletedAt c = None \<and>
       (case channel of None \<Rightarrow> True | Some ch \<Rightarrow> ch \<in> set (cust_channels c))) (db_customers db)"

definition findCustomerByEmail :: "string \<Rightarrow> accounts_db \<Rightarrow> customer_row option" where
  "findCustomerByEmail email db = List.find (\<lambda>c. cust_email c = email \<and> cust_deletedAt c = None) (db_customers db)"

definition save_customer :: "customer_row \<Rightarrow> accounts_db \<Rightarrow> accounts_db" where
  "save_customer c db = db\<lparr>db_customers := map (\<lambda>x. if cust_id x = cust_id c then c else x) (db_customers db)\<rparr>"

section \<open>Credentials\<close>

definition validatePassword :: "auth_config \<Rightarrow> string \<Rightarrow> account_error option" where
  "validatePassword cfg password =
     (case cfg_validatePassword cfg password of Inl message \<Rightarrow> Some (PasswordValidationError message) | Inr _ \<Rightarrow> None)"

text \<open>An absent password and an empty one are the same to the code.\<close>

definition given :: "string option \<Rightarrow> string option" where
  "given p = (if p = Some [] then None else p)"

definition new_native :: "string \<Rightarrow> string \<Rightarrow> string option \<Rightarrow> native_method" where
  "new_native identifier passwordHash token =
     \<lparr>nm_identifier = identifier, nm_passwordHash = passwordHash, nm_verificationToken = token, nm_passwordResetToken = None,
      nm_identifierChangeToken = None, nm_pendingIdentifier = None\<rparr>"

definition addNativeAuthenticationMethod ::
  "auth_config \<Rightarrow> string \<Rightarrow> string \<Rightarrow> account \<Rightarrow> string \<Rightarrow> string option \<Rightarrow> (account_error + account) result" where
  "addNativeAuthenticationMethod cfg token salt user identifier password =
     (if getNativeAuthenticationMethod user \<noteq> None then Inr (Inr user)
      else
        (case (case given password of None \<Rightarrow> None | Some p \<Rightarrow> validatePassword cfg p) of
           Some e \<Rightarrow> Inr (Inl e)
         | None \<Rightarrow>
             bind_result (normalizeEmailAddress identifier) (\<lambda>name.
               Inr (Inr (user\<lparr>acct_verified := \<not> requireVerification cfg,
                 acct_methods := acct_methods user @
                   [Native (new_native name (case given password of None \<Rightarrow> [] | Some p \<Rightarrow> cfg_hash cfg salt p)
                     (if requireVerification cfg then Some token else None))]\<rparr>)))))"

definition createCustomerUser ::
  "auth_config \<Rightarrow> string \<Rightarrow> string \<Rightarrow> string \<Rightarrow> string option \<Rightarrow> accounts_db \<Rightarrow> account answer" where
  "createCustomerUser cfg token salt identifier password db =
     bind_result (normalizeEmailAddress identifier) (\<lambda>name.
     bind_result (addNativeAuthenticationMethod cfg token salt
         \<lparr>acct_id = db_nextId db, acct_deletedAt = None, acct_identifier = name, acct_verified = False, acct_methods = []\<rparr> identifier password) (\<lambda>r.
       case r of
         Inl e \<Rightarrow> answers db (Inl e)
       | Inr user \<Rightarrow> answers (db\<lparr>db_accounts := db_accounts db @ [user], db_nextId := Suc (db_nextId db)\<rparr>) (Inr user)))"

definition addUnactivatedNativeAuthenticationMethod ::
  "auth_config \<Rightarrow> string \<Rightarrow> account \<Rightarrow> string \<Rightarrow> string option \<Rightarrow> accounts_db \<Rightarrow> account answer" where
  "addUnactivatedNativeAuthenticationMethod cfg token user identifier password db =
     (case (case given password of None \<Rightarrow> None | Some p \<Rightarrow> validatePassword cfg p) of
        Some e \<Rightarrow> answers db (Inl e)
      | None \<Rightarrow>
          (case getNativeAuthenticationMethod user of
             Some m \<Rightarrow>
               if nm_verificationToken m \<noteq> None
               then let user' = set_native (m\<lparr>nm_verificationToken := Some token\<rparr>) user in answers (save_account user' db) (Inr user')
               else answers db (Inr user)
           | None \<Rightarrow>
               bind_result (normalizeEmailAddress identifier) (\<lambda>name.
                 let user' = user\<lparr>acct_methods := acct_methods user @ [Native (new_native name [] (Some token))]\<rparr>
                 in answers (save_account user' db) (Inr user'))))"

definition nativeCredentialAwaitsActivation :: "ID \<Rightarrow> accounts_db \<Rightarrow> bool" where
  "nativeCredentialAwaitsActivation userId db =
     (case find_account userId db of
        None \<Rightarrow> False
      | Some a \<Rightarrow> (case getNativeAuthenticationMethod a of
          None \<Rightarrow> False | Some m \<Rightarrow> nm_verificationToken m \<noteq> None \<and> nm_passwordHash m = []))"

definition softDeleteUser :: "int \<Rightarrow> ID \<Rightarrow> accounts_db \<Rightarrow> unit answer" where
  "softDeleteUser now userId db =
     (case find_account userId db of
        None \<Rightarrow> Inl (EntityNotFoundError ''User'' userId)
      | Some a \<Rightarrow>
          if acct_deletedAt a \<noteq> None then Inl (EntityNotFoundError ''User'' userId)
          else answers (save_account (a\<lparr>acct_deletedAt := Some now\<rparr>) db) (Inr ()))"

section \<open>Verification\<close>

definition setVerificationToken :: "string \<Rightarrow> account \<Rightarrow> accounts_db \<Rightarrow> account answer" where
  "setVerificationToken token user db =
     bind_result (native_or_throw user) (\<lambda>m.
       let user' = (set_native (m\<lparr>nm_verificationToken := Some token\<rparr>) user)\<lparr>acct_verified := False\<rparr>
       in answers (save_account user' db) (Inr user'))"

definition applyVerificationPassword :: "auth_config \<Rightarrow> string \<Rightarrow> native_method \<Rightarrow> string option \<Rightarrow> account_error + native_method" where
  "applyVerificationPassword cfg salt m password =
     (case given password of
        None \<Rightarrow> if nm_passwordHash m \<noteq> [] then Inr m else Inl MissingPasswordError
      | Some p \<Rightarrow>
          if nm_passwordHash m \<noteq> [] then Inl PasswordAlreadySetError
          else (case validatePassword cfg p of Some e \<Rightarrow> Inl e | None \<Rightarrow> Inr (m\<lparr>nm_passwordHash := cfg_hash cfg salt p\<rparr>)))"

definition verifyUserByToken ::
  "auth_config \<Rightarrow> int \<Rightarrow> string \<Rightarrow> string \<Rightarrow> string option \<Rightarrow> accounts_db \<Rightarrow> account answer" where
  "verifyUserByToken cfg now salt verificationToken password db =
     (case find_by_native (\<lambda>m. nm_verificationToken m = Some verificationToken) db of
        None \<Rightarrow> answers db (Inl VerificationTokenInvalidError)
      | Some user \<Rightarrow>
          if \<not> cfg_verifyToken cfg now verificationToken then answers db (Inl VerificationTokenExpiredError)
          else bind_result (native_or_throw user) (\<lambda>m.
            case applyVerificationPassword cfg salt m password of
              Inl e \<Rightarrow> answers db (Inl e)
            | Inr m' \<Rightarrow>
                let user' = (set_native (m'\<lparr>nm_verificationToken := None\<rparr>) user)\<lparr>acct_verified := True\<rparr>
                in answers (save_account user' db) (Inr user')))"

definition verifyUserWithoutToken :: "auth_config \<Rightarrow> string \<Rightarrow> ID \<Rightarrow> string option \<Rightarrow> accounts_db \<Rightarrow> account answer" where
  "verifyUserWithoutToken cfg salt userId password db =
     (case find_account userId db of
        None \<Rightarrow> Inl (EntityNotFoundError ''User'' userId)
      | Some user \<Rightarrow>
          (case getNativeAuthenticationMethod user of
             Some m \<Rightarrow>
               (case applyVerificationPassword cfg salt m password of
                  Inl e \<Rightarrow> answers db (Inl e)
                | Inr m' \<Rightarrow>
                    let user' = (set_native (m'\<lparr>nm_verificationToken := None\<rparr>) user)\<lparr>acct_verified := True\<rparr>
                    in answers (save_account user' db) (Inr user'))
           | None \<Rightarrow>
               if given password \<noteq> None then Inl (UserInputError ''error.cannot-set-password-without-native-credential'')
               else let user' = user\<lparr>acct_verified := True\<rparr> in answers (save_account user' db) (Inr user')))"

section \<open>Passwords\<close>

definition setPasswordResetToken :: "user_kind \<Rightarrow> string \<Rightarrow> string \<Rightarrow> accounts_db \<Rightarrow> account option answer" where
  "setPasswordResetToken k token emailAddress db =
     bind_result (getUserByEmailAddress k emailAddress db) (\<lambda>found.
       case found of
         None \<Rightarrow> answers db (Inr None)
       | Some user \<Rightarrow>
           (case getNativeAuthenticationMethod user of
              None \<Rightarrow> answers db (Inr None)
            | Some m \<Rightarrow>
                let user' = set_native (m\<lparr>nm_passwordResetToken := Some token\<rparr>) user
                in answers (save_account user' db) (Inr (Some user'))))"

definition resetPasswordByToken :: "auth_config \<Rightarrow> int \<Rightarrow> string \<Rightarrow> string \<Rightarrow> string \<Rightarrow> accounts_db \<Rightarrow> account answer" where
  "resetPasswordByToken cfg now salt passwordResetToken password db =
     (case find_by_native (\<lambda>m. nm_passwordResetToken m = Some passwordResetToken) db of
        None \<Rightarrow> answers db (Inl PasswordResetTokenInvalidError)
      | Some user \<Rightarrow>
          (case validatePassword cfg password of
             Some e \<Rightarrow> answers db (Inl e)
           | None \<Rightarrow>
               if \<not> cfg_verifyToken cfg now passwordResetToken then answers db (Inl PasswordResetTokenExpiredError)
               else bind_result (native_or_throw user) (\<lambda>m.
                 let user' = (set_native (m\<lparr>nm_passwordHash := cfg_hash cfg salt password, nm_passwordResetToken := None,
                                            nm_verificationToken := None\<rparr>) user)
                       \<lparr>acct_verified := acct_verified user \<or> requireVerification cfg\<rparr>
                 in answers (save_account user' db) (Inr user'))))"

definition updatePassword :: "auth_config \<Rightarrow> string \<Rightarrow> ID \<Rightarrow> string \<Rightarrow> string \<Rightarrow> accounts_db \<Rightarrow> unit answer" where
  "updatePassword cfg salt userId currentPassword newPassword db =
     (case find_account userId db of
        None \<Rightarrow> Inl (EntityNotFoundError ''User'' userId)
      | Some user \<Rightarrow>
          (case validatePassword cfg newPassword of
             Some e \<Rightarrow> answers db (Inl e)
           | None \<Rightarrow>
               bind_result (native_or_throw user) (\<lambda>m.
                 if \<not> cfg_check cfg currentPassword (nm_passwordHash m) then answers db (Inl InvalidCredentialsError)
                 else answers (save_account (set_native (m\<lparr>nm_passwordHash := cfg_hash cfg salt newPassword\<rparr>) user) db) (Inr ()))))"

section \<open>Email addresses\<close>

definition changeUserAndNativeIdentifier :: "ID \<Rightarrow> string \<Rightarrow> accounts_db \<Rightarrow> unit answer" where
  "changeUserAndNativeIdentifier userId newIdentifier db =
     (case find_account userId db of
        None \<Rightarrow> answers db (Inr ())
      | Some user \<Rightarrow>
          (case getNativeAuthenticationMethod user of
             None \<Rightarrow> answers (save_account (user\<lparr>acct_identifier := newIdentifier\<rparr>) db) (Inr ())
           | Some m \<Rightarrow>
               bind_result (normalizeEmailAddress (nm_identifier m)) (\<lambda>old.
               bind_result (normalizeEmailAddress newIdentifier) (\<lambda>new.
                 let m1 = (if old \<noteq> new then m\<lparr>nm_identifierChangeToken := None, nm_pendingIdentifier := None\<rparr> else m)
                 in answers (save_account ((set_native (m1\<lparr>nm_identifier := newIdentifier\<rparr>) user)\<lparr>acct_identifier := newIdentifier\<rparr>) db)
                      (Inr ())))))"

definition setIdentifierChangeToken :: "string \<Rightarrow> account \<Rightarrow> accounts_db \<Rightarrow> account answer" where
  "setIdentifierChangeToken token user db =
     bind_result (native_or_throw user) (\<lambda>m.
       let user' = set_native (m\<lparr>nm_identifierChangeToken := Some token\<rparr>) user
       in answers (save_account user' db) (Inr user'))"

definition changeIdentifierByToken :: "auth_config \<Rightarrow> int \<Rightarrow> string \<Rightarrow> accounts_db \<Rightarrow> (account \<times> string) answer" where
  "changeIdentifierByToken cfg now token db =
     (case find_by_native (\<lambda>m. nm_identifierChangeToken m = Some token) db of
        None \<Rightarrow> answers db (Inl IdentifierChangeTokenInvalidError)
      | Some user \<Rightarrow>
          if \<not> cfg_verifyToken cfg now token then answers db (Inl IdentifierChangeTokenExpiredError)
          else bind_result (native_or_throw user) (\<lambda>m.
            case given (nm_pendingIdentifier m) of
              None \<Rightarrow> Inl (InternalServerError ''error.pending-identifier-missing'')
            | Some pendingIdentifier \<Rightarrow>
                let user' = (set_native (m\<lparr>nm_identifier := pendingIdentifier, nm_identifierChangeToken := None,
                                           nm_pendingIdentifier := None\<rparr>) user)\<lparr>acct_identifier := pendingIdentifier\<rparr>
                in answers (save_account user' db) (Inr (user', acct_identifier user))))"

end
