(* ===== verification/CustomerAccounts.thy ===== *)
theory CustomerAccounts
  imports Accounts
begin

text \<open>
  The flows of \<^verbatim>\<open>customer.service.ts\<close> over users and customers, the native login, and all of them as
  calls that follow one another.
\<close>

section \<open>Customers\<close>

record account_context =
  actx_kind :: user_kind
  actx_channelId :: ID
  actx_defaultChannelId :: ID

definition bind_answer :: "'a answer \<Rightarrow> ('a \<Rightarrow> accounts_db \<Rightarrow> 'b answer) \<Rightarrow> 'b answer" where
  "bind_answer m f = bind_result m (\<lambda>(r, db). case r of Inl e \<Rightarrow> answers db (Inl e) | Inr x \<Rightarrow> f x db)"

definition add_channel :: "ID \<Rightarrow> customer_row \<Rightarrow> customer_row" where
  "add_channel ch c = (if ch \<in> set (cust_channels c) then c else c\<lparr>cust_channels := cust_channels c @ [ch]\<rparr>)"

definition insert_customer :: "account_context \<Rightarrow> string \<Rightarrow> ID option \<Rightarrow> accounts_db \<Rightarrow> customer_row \<times> accounts_db" where
  "insert_customer ctx email userId db =
     (let c = \<lparr>cust_id = db_nextId db, cust_email = email, cust_deletedAt = None, cust_userId = userId,
               cust_channels = unique [actx_channelId ctx, actx_defaultChannelId ctx]\<rparr>
      in (c, db\<lparr>db_customers := db_customers db @ [c], db_nextId := Suc (db_nextId db)\<rparr>))"

definition createOrUpdate :: "account_context \<Rightarrow> string \<Rightarrow> bool \<Rightarrow> accounts_db \<Rightarrow> customer_row answer" where
  "createOrUpdate ctx emailAddress errorOnExistingUser db =
     bind_result (normalizeEmailAddress emailAddress) (\<lambda>email.
       case findCustomerByEmail email db of
         Some existing \<Rightarrow>
           if cust_userId existing \<noteq> None \<and> errorOnExistingUser then answers db (Inl EmailAddressConflictError)
           else let c = add_channel (actx_channelId ctx) existing in answers (save_customer c db) (Inr c)
       | None \<Rightarrow> (case insert_customer ctx email None db of (c, db') \<Rightarrow> answers db' (Inr c)))"

section \<open>Registration\<close>

definition complete_registration ::
  "auth_config \<Rightarrow> account_context \<Rightarrow> string \<Rightarrow> string \<Rightarrow> string \<Rightarrow> string \<Rightarrow> string option \<Rightarrow> account option \<Rightarrow> bool \<Rightarrow> accounts_db \<Rightarrow> unit answer" where
  "complete_registration cfg ctx token1 token2 salt emailAddress password found pendingNativeActivation db =
     bind_answer (createOrUpdate ctx emailAddress False db) (\<lambda>customer db1.
     bind_answer (case found of
         Some u \<Rightarrow> answers db1 (Inr u)
       | None \<Rightarrow> createCustomerUser cfg token1 salt emailAddress password db1) (\<lambda>user db2.
     bind_answer (if pendingNativeActivation
         then addUnactivatedNativeAuthenticationMethod cfg token1 user emailAddress password db2
         else if Option.bind found getNativeAuthenticationMethod = None
         then bind_result (addNativeAuthenticationMethod cfg token1 salt user emailAddress password) (answers db2)
         else answers db2 (Inr user)) (\<lambda>user2 db3.
     bind_answer (if \<not> acct_verified user2 \<and> \<not> pendingNativeActivation
         then setVerificationToken token2 user2 db3 else answers db3 (Inr user2)) (\<lambda>user3 db4.
       let db5 = save_customer (customer\<lparr>cust_userId := Some (acct_id user3)\<rparr>) (save_account user3 db4)
       in answers (if \<not> acct_verified user3 \<or> pendingNativeActivation
                   then publish (AccountRegistrationEvent user3) db5 else db5) (Inr ())))))"

definition registerCustomerAccount ::
  "auth_config \<Rightarrow> account_context \<Rightarrow> string \<Rightarrow> string \<Rightarrow> string \<Rightarrow> string \<Rightarrow> string option \<Rightarrow> accounts_db \<Rightarrow> unit answer" where
  "registerCustomerAccount cfg ctx token1 token2 salt emailAddress password db =
     (if \<not> requireVerification cfg \<and> given password = None then answers db (Inl MissingPasswordError)
      else bind_result (getUserByEmailAddress (actx_kind ctx) emailAddress db) (\<lambda>found.
        let native = Option.bind found getNativeAuthenticationMethod;
            addingUnactivated = (found \<noteq> None \<and> native = None);
            reissueUnactivated = (case (found, native) of
              (Some u, Some m) \<Rightarrow> acct_verified u \<and> nm_verificationToken m \<noteq> None \<and> nativeCredentialAwaitsActivation (acct_id u) db
            | _ \<Rightarrow> False)
        in if (case found of None \<Rightarrow> False | Some u \<Rightarrow> acct_verified u \<and> native \<noteq> None \<and> \<not> reissueUnactivated)
           then answers db (Inr ())
           else complete_registration cfg ctx token1 token2 salt emailAddress password found (addingUnactivated \<or> reissueUnactivated) db))"

definition refreshVerificationToken :: "account_context \<Rightarrow> string \<Rightarrow> string \<Rightarrow> accounts_db \<Rightarrow> unit answer" where
  "refreshVerificationToken ctx token emailAddress db =
     bind_result (getUserByEmailAddress (actx_kind ctx) emailAddress db) (\<lambda>found.
       case found of
         None \<Rightarrow> answers db (Inr ())
       | Some user \<Rightarrow>
           if acct_verified user then answers db (Inr ())
           else bind_answer (setVerificationToken token user db) (\<lambda>user' db'.
                  answers (publish (AccountRegistrationEvent user') db') (Inr ())))"

definition no_customer :: "'a answer" where
  "no_customer = Inl (InternalServerError ''error.cannot-locate-customer-for-user'')"

definition verifyCustomerEmailAddress ::
  "auth_config \<Rightarrow> account_context \<Rightarrow> int \<Rightarrow> string \<Rightarrow> string \<Rightarrow> string option \<Rightarrow> accounts_db \<Rightarrow> customer_row answer" where
  "verifyCustomerEmailAddress cfg ctx now salt verificationToken password db =
     bind_answer (verifyUserByToken cfg now salt verificationToken password db) (\<lambda>user db1.
       case findOneByUserId None (acct_id user) db1 of
         None \<Rightarrow> no_customer
       | Some c \<Rightarrow> let c' = add_channel (actx_channelId ctx) c
                  in answers (publish (AccountVerifiedEvent (cust_id c')) (save_customer c' db1)) (Inr c'))"

definition customer_in_channel :: "account_context \<Rightarrow> ID \<Rightarrow> accounts_db \<Rightarrow> customer_row result" where
  "customer_in_channel ctx customerId db =
     (case List.find (\<lambda>c. cust_id c = customerId \<and> cust_deletedAt c = None \<and> actx_channelId ctx \<in> set (cust_channels c)) (db_customers db) of
        None \<Rightarrow> Inl (EntityNotFoundError ''Customer'' customerId) | Some c \<Rightarrow> Inr c)"

definition verifyCustomerAccount ::
  "auth_config \<Rightarrow> account_context \<Rightarrow> string \<Rightarrow> ID \<Rightarrow> string option \<Rightarrow> accounts_db \<Rightarrow> customer_row answer" where
  "verifyCustomerAccount cfg ctx salt customerId password db =
     bind_result (customer_in_channel ctx customerId db) (\<lambda>c.
       case cust_userId c of
         None \<Rightarrow> Inl (UserInputError ''error.customer-has-no-user-account'')
       | Some userId \<Rightarrow>
           let wasVerified = (case find_account userId db of None \<Rightarrow> False | Some a \<Rightarrow> acct_verified a)
           in bind_answer (verifyUserWithoutToken cfg salt userId password db) (\<lambda>user db1.
                answers (if wasVerified then db1 else publish (AccountVerifiedEvent customerId) db1) (Inr c)))"

section \<open>Password reset\<close>

definition requestPasswordReset :: "account_context \<Rightarrow> string \<Rightarrow> string \<Rightarrow> accounts_db \<Rightarrow> unit answer" where
  "requestPasswordReset ctx token emailAddress db =
     bind_answer (setPasswordResetToken (actx_kind ctx) token emailAddress db) (\<lambda>found db1.
       case found of
         None \<Rightarrow> answers db1 (Inr ())
       | Some user \<Rightarrow>
           if findOneByUserId (Some (actx_channelId ctx)) (acct_id user) db1 = None then no_customer
           else answers (publish (PasswordResetEvent user) db1) (Inr ()))"

definition resetPassword ::
  "auth_config \<Rightarrow> account_context \<Rightarrow> int \<Rightarrow> string \<Rightarrow> string \<Rightarrow> string \<Rightarrow> accounts_db \<Rightarrow> account answer" where
  "resetPassword cfg ctx now salt passwordResetToken password db =
     bind_answer (resetPasswordByToken cfg now salt passwordResetToken password db) (\<lambda>user db1.
       if findOneByUserId (Some (actx_channelId ctx)) (acct_id user) db1 = None then no_customer
       else answers (publish (PasswordResetVerifiedEvent user) db1) (Inr user))"

section \<open>Changing the email address\<close>

definition requestUpdateEmailAddress ::
  "auth_config \<Rightarrow> account_context \<Rightarrow> string \<Rightarrow> ID \<Rightarrow> string \<Rightarrow> accounts_db \<Rightarrow> bool answer" where
  "requestUpdateEmailAddress cfg ctx token userId newEmailAddress db =
     bind_result (normalizeEmailAddress newEmailAddress) (\<lambda>email.
     bind_result (getUserByEmailAddress (actx_kind ctx) newEmailAddress db) (\<lambda>conflicting.
       if conflicting \<noteq> None then answers db (Inl EmailAddressConflictError)
       else
         (case find_account userId db of
            None \<Rightarrow> answers db (Inr False)
          | Some user \<Rightarrow>
              (case findOneByUserId (Some (actx_channelId ctx)) userId db of
                 None \<Rightarrow> answers db (Inr False)
               | Some c \<Rightarrow>
                   if list_ex (\<lambda>x. cust_email x = email \<and> cust_id x \<noteq> cust_id c \<and> cust_deletedAt x = None) (db_customers db)
                   then answers db (Inl EmailAddressConflictError)
                   else if requireVerification cfg
                   then bind_result (native_or_throw user) (\<lambda>m.
                        bind_answer (setIdentifierChangeToken token (set_native (m\<lparr>nm_pendingIdentifier := Some email\<rparr>) user) db) (\<lambda>user' db1.
                          answers (publish (IdentifierChangeRequestEvent user') db1) (Inr True)))
                   else let user' = user\<lparr>acct_identifier := email\<rparr>;
                            db1 = save_customer (c\<lparr>cust_email := email\<rparr>) (save_account user' db)
                        in answers (publish (IdentifierChangeEvent user' (acct_identifier user)) db1) (Inr True)))))"

definition updateEmailAddress :: "auth_config \<Rightarrow> account_context \<Rightarrow> int \<Rightarrow> string \<Rightarrow> accounts_db \<Rightarrow> bool answer" where
  "updateEmailAddress cfg ctx now token db =
     bind_answer (changeIdentifierByToken cfg now token db) (\<lambda>(user, oldIdentifier) db1.
       case findOneByUserId (Some (actx_channelId ctx)) (acct_id user) db1 of
         None \<Rightarrow> answers db1 (Inr False)
       | Some c \<Rightarrow> answers (save_customer (c\<lparr>cust_email := acct_identifier user\<rparr>)
                              (publish (IdentifierChangeEvent user oldIdentifier) db1)) (Inr True))"

section \<open>What administrators do\<close>

datatype admin_answer = EmailAddressConflictAdminError | AdminRefused account_error | CustomerSaved customer_row

text \<open>A customer created with a password is verified at once, with the token he was just given.\<close>

definition create_customer ::
  "auth_config \<Rightarrow> account_context \<Rightarrow> int \<Rightarrow> string \<Rightarrow> string \<Rightarrow> string \<Rightarrow> string option \<Rightarrow> accounts_db \<Rightarrow>
     (admin_answer \<times> accounts_db) result" where
  "create_customer cfg ctx now token salt emailAddress password db =
     bind_result (normalizeEmailAddress emailAddress) (\<lambda>email.
       if list_ex (\<lambda>c. actx_channelId ctx \<in> set (cust_channels c) \<and> cust_email c = email \<and> cust_deletedAt c = None) (db_customers db)
       then Inr (EmailAddressConflictAdminError, db)
       else bind_result (getUserByEmailAddress customer_kind email db) (\<lambda>existingUser.
         case findCustomerByEmail email db of
           Some existing \<Rightarrow>
             if existingUser \<noteq> None
             then let c = add_channel (actx_channelId ctx) existing in Inr (CustomerSaved c, save_customer c db)
             else Inr (EmailAddressConflictAdminError, db)
         | None \<Rightarrow>
             if existingUser \<noteq> None then Inr (EmailAddressConflictAdminError, db)
             else bind_result (createCustomerUser cfg token salt email password db) (\<lambda>(r, db1).
               case r of
                 Inl e \<Rightarrow> Inr (AdminRefused e, db1)
               | Inr user \<Rightarrow>
                   bind_result
                     (if given password = None then Inr (user, db1)
                      else bind_result (native_or_throw user) (\<lambda>m.
                        case given (nm_verificationToken m) of
                          None \<Rightarrow> Inr (user, db1)
                        | Some t \<Rightarrow>
                            bind_result (verifyUserByToken cfg now salt t None db1) (\<lambda>(v, db2).
                              case v of Inl e \<Rightarrow> Inl (JsError ''error result'') | Inr user' \<Rightarrow> Inr (user', db2))))
                     (\<lambda>(user2, db2).
                       case insert_customer ctx email (Some (acct_id user2)) (publish (AccountRegistrationEvent user2) db2) of
                         (c, db3) \<Rightarrow> Inr (CustomerSaved c, db3)))))"

text \<open>The email address in \<^verbatim>\<open>CustomerService.update\<close>.\<close>

definition save_email :: "customer_row \<Rightarrow> string \<Rightarrow> accounts_db \<Rightarrow> (admin_answer \<times> accounts_db) result" where
  "save_email c email db = (let c' = c\<lparr>cust_email := email\<rparr> in Inr (CustomerSaved c', save_customer c' db))"

definition rename_email :: "customer_row \<Rightarrow> ID \<Rightarrow> string \<Rightarrow> accounts_db \<Rightarrow> (admin_answer \<times> accounts_db) result" where
  "rename_email c userId email db =
     bind_result (changeUserAndNativeIdentifier userId email db) (\<lambda>(u, db'). save_email c email db')"

definition update_customer_email :: "account_context \<Rightarrow> ID \<Rightarrow> string \<Rightarrow> accounts_db \<Rightarrow> (admin_answer \<times> accounts_db) result" where
  "update_customer_email ctx customerId emailAddress db =
     bind_result (customer_in_channel ctx customerId db) (\<lambda>c.
     bind_result (normalizeEmailAddress emailAddress) (\<lambda>email.
     bind_result (normalizeEmailAddress (cust_email c)) (\<lambda>stored.
       let others = filter (\<lambda>x. cust_email x = email \<and> cust_id x \<noteq> customerId \<and> cust_deletedAt x = None) (db_customers db)
       in if email \<noteq> stored
          then if list_ex (\<lambda>x. actx_channelId ctx \<in> set (cust_channels x)) others then Inr (EmailAddressConflictAdminError, db)
               else (case cust_userId c of
                       None \<Rightarrow> save_email c email db
                     | Some userId \<Rightarrow>
                         bind_result (getUserByEmailAddress customer_kind email db) (\<lambda>existing.
                           if (case existing of None \<Rightarrow> False | Some u \<Rightarrow> acct_id u \<noteq> userId)
                           then Inr (EmailAddressConflictAdminError, db) else rename_email c userId email db))
          else if email \<noteq> cust_email c
          then if others \<noteq> [] then save_email c (cust_email c) db
               else (case cust_userId c of None \<Rightarrow> save_email c email db | Some userId \<Rightarrow> rename_email c userId email db)
          else save_email c email db)))"

definition softDeleteCustomer :: "account_context \<Rightarrow> int \<Rightarrow> ID \<Rightarrow> accounts_db \<Rightarrow> unit answer" where
  "softDeleteCustomer ctx now customerId db =
     bind_result (customer_in_channel ctx customerId db) (\<lambda>c.
       let db1 = save_customer (c\<lparr>cust_deletedAt := Some now\<rparr>) db
       in case cust_userId c of None \<Rightarrow> answers db1 (Inr ()) | Some userId \<Rightarrow> softDeleteUser now userId db1)"

section \<open>Logging in\<close>

text \<open>One comparison is always made, with the dummy hash when there is no password.\<close>

definition verifyUserPassword :: "auth_config \<Rightarrow> ID \<Rightarrow> string \<Rightarrow> accounts_db \<Rightarrow> bool" where
  "verifyUserPassword cfg userId password db =
     (let storedHash = (case Option.bind (find_account userId db) getNativeAuthenticationMethod of
            None \<Rightarrow> [] | Some m \<Rightarrow> nm_passwordHash m);
          hashToCheck = (if storedHash = [] then cfg_dummyHash cfg else storedHash)
      in cfg_check cfg password hashToCheck \<and> storedHash \<noteq> [])"

definition native_authenticate :: "auth_config \<Rightarrow> user_kind \<Rightarrow> string \<Rightarrow> string \<Rightarrow> accounts_db \<Rightarrow> account option result" where
  "native_authenticate cfg k username password db =
     bind_result (getUserByEmailAddress k username db) (\<lambda>found.
       Inr (case found of
         None \<Rightarrow> None
       | Some user \<Rightarrow> if verifyUserPassword cfg (acct_id user) password db then Some user else None))"

definition native_strategy :: string where
  "native_strategy = ''native''"

text \<open>The gate of \<^verbatim>\<open>createAuthenticatedSessionForUser\<close>.\<close>

definition login_refused :: "auth_config \<Rightarrow> string \<Rightarrow> account \<Rightarrow> bool" where
  "login_refused cfg strategyName user \<longleftrightarrow>
     (let isNativeLogin = (strategyName = native_strategy);
          extAuths = filter (\<lambda>m. case m of External s \<Rightarrow> True | Native n \<Rightarrow> False) (acct_methods user)
      in isNativeLogin \<and> \<not> acct_verified user \<and>
           (case getNativeAuthenticationMethod user of None \<Rightarrow> False | Some m \<Rightarrow> nm_verificationToken m \<noteq> None) \<or>
         (isNativeLogin \<or> extAuths = []) \<and> requireVerification cfg \<and> \<not> acct_verified user)"

definition authenticate_native ::
  "auth_config \<Rightarrow> user_kind \<Rightarrow> string \<Rightarrow> string \<Rightarrow> accounts_db \<Rightarrow> (account_error + account) result" where
  "authenticate_native cfg k username password db =
     bind_result (native_authenticate cfg k username password db) (\<lambda>found.
       Inr (case found of
         None \<Rightarrow> Inl InvalidCredentialsError
       | Some user \<Rightarrow> if login_refused cfg native_strategy user then Inl NotVerifiedError else Inr user))"

section \<open>Calls\<close>

datatype account_call =
    Register account_context string string string string "string option"
  | Refresh_token account_context string string
  | Verify_email account_context int string string "string option"
  | Verify_account account_context string ID "string option"
  | Request_reset account_context string string
  | Reset_password account_context int string string string
  | Update_password string ID string string
  | Request_email account_context string ID string
  | Change_email account_context int string
  | Create_customer account_context int string string string "string option"
  | Set_email account_context ID string
  | Delete_customer account_context int ID

text \<open>A call that throws is rolled back.\<close>

definition after :: "accounts_db \<Rightarrow> ('a \<times> accounts_db) result \<Rightarrow> accounts_db" where
  "after db r = (case r of Inl e \<Rightarrow> db | Inr (answer, db') \<Rightarrow> db')"

fun account_step :: "auth_config \<Rightarrow> account_call \<Rightarrow> accounts_db \<Rightarrow> accounts_db" where
  "account_step cfg (Register ctx t1 t2 salt email pw) db = after db (registerCustomerAccount cfg ctx t1 t2 salt email pw db)"
| "account_step cfg (Refresh_token ctx t email) db = after db (refreshVerificationToken ctx t email db)"
| "account_step cfg (Verify_email ctx now salt t pw) db = after db (verifyCustomerEmailAddress cfg ctx now salt t pw db)"
| "account_step cfg (Verify_account ctx salt c pw) db = after db (verifyCustomerAccount cfg ctx salt c pw db)"
| "account_step cfg (Request_reset ctx t email) db = after db (requestPasswordReset ctx t email db)"
| "account_step cfg (Reset_password ctx now salt t pw) db = after db (resetPassword cfg ctx now salt t pw db)"
| "account_step cfg (Update_password salt u old new) db = after db (updatePassword cfg salt u old new db)"
| "account_step cfg (Request_email ctx t u email) db = after db (requestUpdateEmailAddress cfg ctx t u email db)"
| "account_step cfg (Change_email ctx now t) db = after db (updateEmailAddress cfg ctx now t db)"
| "account_step cfg (Create_customer ctx now t salt email pw) db = after db (create_customer cfg ctx now t salt email pw db)"
| "account_step cfg (Set_email ctx c email) db = after db (update_customer_email ctx c email db)"
| "account_step cfg (Delete_customer ctx now c) db = after db (softDeleteCustomer ctx now c db)"

definition account_run :: "auth_config \<Rightarrow> account_call list \<Rightarrow> accounts_db \<Rightarrow> accounts_db" where
  "account_run cfg cs db = fold (account_step cfg) cs db"

end
