(* ===== verification/AccountSafety.thy ===== *)
theory AccountSafety
  imports CustomerAccounts
begin

text \<open>
  Who can change the password of an account: only who presents the token of a reset that was sent for it,
  or its present password, or, while it has none, the token it is verified with, or an administrator. It
  holds for any run of calls, registrations with the address of the account included: what each
  operation and each flow keeps, one lemma each.
\<close>

section \<open>Well-formed tables\<close>

definition is_native :: "auth_method \<Rightarrow> bool" where
  "is_native m \<longleftrightarrow> (case m of Native n \<Rightarrow> True | External s \<Rightarrow> False)"

definition accounts_ok :: "accounts_db \<Rightarrow> bool" where
  "accounts_ok db \<longleftrightarrow>
     distinct (map acct_id (db_accounts db)) \<and>
     list_all (\<lambda>a. acct_id a < db_nextId db \<and> length (filter is_native (acct_methods a)) \<le> 1) (db_accounts db)"

definition hash_of :: "account \<Rightarrow> string" where
  "hash_of a = (case getNativeAuthenticationMethod a of None \<Rightarrow> [] | Some m \<Rightarrow> nm_passwordHash m)"

definition password_of :: "ID \<Rightarrow> accounts_db \<Rightarrow> string" where
  "password_of i db = (case find_account i db of None \<Rightarrow> [] | Some a \<Rightarrow> hash_of a)"

definition native_in :: "ID \<Rightarrow> (native_method \<Rightarrow> bool) \<Rightarrow> accounts_db \<Rightarrow> bool" where
  "native_in i P db = (case Option.bind (find_account i db) getNativeAuthenticationMethod of None \<Rightarrow> False | Some m \<Rightarrow> P m)"

abbreviation account_ids :: "accounts_db \<Rightarrow> ID set" where
  "account_ids db \<equiv> acct_id ` set (db_accounts db)"

text \<open>The calls that may set or change the password of an account.\<close>

fun entitled :: "auth_config \<Rightarrow> ID \<Rightarrow> account_call \<Rightarrow> accounts_db \<Rightarrow> bool" where
  "entitled cfg i (Verify_email ctx now salt t pw) db \<longleftrightarrow>
     given pw \<noteq> None \<and> password_of i db = [] \<and> native_in i (\<lambda>m. nm_verificationToken m = Some t) db \<and> cfg_verifyToken cfg now t"
| "entitled cfg i (Verify_account ctx salt c pw) db \<longleftrightarrow>
     given pw \<noteq> None \<and> password_of i db = [] \<and> list_ex (\<lambda>x. cust_id x = c \<and> cust_userId x = Some i) (db_customers db)"
| "entitled cfg i (Reset_password ctx now salt t pw) db \<longleftrightarrow>
     native_in i (\<lambda>m. nm_passwordResetToken m = Some t) db \<and> cfg_verifyToken cfg now t"
| "entitled cfg i (Update_password salt u old new) db \<longleftrightarrow> u = i \<and> cfg_check cfg old (password_of i db)"
| "entitled cfg i c db \<longleftrightarrow> False"

fun never_entitled :: "auth_config \<Rightarrow> ID \<Rightarrow> account_call list \<Rightarrow> accounts_db \<Rightarrow> bool" where
  "never_entitled cfg i [] db \<longleftrightarrow> True"
| "never_entitled cfg i (c # cs) db \<longleftrightarrow> \<not> entitled cfg i c db \<and> never_entitled cfg i cs (account_step cfg c db)"

section \<open>Keeping passwords\<close>

definition keeps :: "ID set \<Rightarrow> accounts_db \<Rightarrow> accounts_db \<Rightarrow> bool" where
  "keeps S db db' \<longleftrightarrow> accounts_ok db' \<and> account_ids db \<subseteq> account_ids db' \<and>
     (\<forall>i \<in> account_ids db - S. password_of i db' = password_of i db)"

definition in_db :: "account \<Rightarrow> accounts_db \<Rightarrow> bool" where
  "in_db a db \<longleftrightarrow> find_account (acct_id a) db = Some a"

lemma keeps_refl: "accounts_ok db \<Longrightarrow> keeps S db db"
  by (simp add: keeps_def)

lemma keeps_trans:
  assumes "keeps S db db1" and "keeps T db1 db2"
  shows "keeps (S \<union> T) db db2"
proof -
  have "password_of i db2 = password_of i db" if "i \<in> account_ids db - (S \<union> T)" for i
  proof -
    have i: "i \<in> account_ids db - S" "i \<in> account_ids db1 - T" using that assms(1) by (auto simp: keeps_def)
    then have "password_of i db1 = password_of i db" using assms(1) by (simp only: keeps_def) 
    moreover have "password_of i db2 = password_of i db1" using i assms(2) by (simp only: keeps_def)
    ultimately show ?thesis by simp
  qed
  moreover have "account_ids db \<subseteq> account_ids db2" using assms by (meson keeps_def subset_trans)
  ultimately show ?thesis using assms(2) by (simp add: keeps_def)
qed

lemma keeps_mono: "keeps S db db' \<Longrightarrow> S \<subseteq> T \<Longrightarrow> keeps T db db'"
  unfolding keeps_def by blast

lemma keeps_ok: "keeps S db db' \<Longrightarrow> accounts_ok db'"
  by (simp add: keeps_def)

lemma password_same: "db_accounts db' = db_accounts db \<Longrightarrow> password_of i db' = password_of i db"
  by (simp add: password_of_def find_account_def)

lemma ok_same: "accounts_ok db \<Longrightarrow> db_accounts db' = db_accounts db \<Longrightarrow> db_nextId db \<le> db_nextId db' \<Longrightarrow> accounts_ok db'"
  by (auto simp: accounts_ok_def list_all_iff)

lemma keeps_same:
  "keeps S db db' \<Longrightarrow> db_accounts db'' = db_accounts db' \<Longrightarrow> db_nextId db' \<le> db_nextId db'' \<Longrightarrow> keeps S db db''"
  using ok_same [of db' db''] by (simp add: keeps_def password_same [of db'' db'])

lemma save_customer_accounts [simp]:
  "db_accounts (save_customer c db) = db_accounts db" "db_nextId (save_customer c db) = db_nextId db"
  "db_accounts (publish e db) = db_accounts db" "db_nextId (publish e db) = db_nextId db"
  by (simp_all add: save_customer_def publish_def)

lemma in_db_same: "db_accounts db' = db_accounts db \<Longrightarrow> in_db a db' = in_db a db"
  by (simp add: in_db_def find_account_def)

lemma find_account_iff:
  "accounts_ok db \<Longrightarrow> find_account i db = Some a \<longleftrightarrow> a \<in> set (db_accounts db) \<and> acct_id a = i"
  by (auto simp: find_account_def accounts_ok_def find_distinct_key dest: find_Some_in)

lemma saved_account:
  assumes "accounts_ok db" and "in_db a db" and "acct_id a' = acct_id a"
    and "length (filter is_native (acct_methods a')) \<le> 1" and "hash_of a' = hash_of a \<or> acct_id a \<in> S"
  shows "keeps S db (save_account a' db) \<and> in_db a' (save_account a' db)"
proof -
  let ?db = "save_account a' db"
  have ids: "map acct_id (db_accounts ?db) = map acct_id (db_accounts db)" by (auto simp: save_account_def)
  have ok: "accounts_ok ?db"
    unfolding accounts_ok_def ids using assms(1,4) by (auto simp: accounts_ok_def save_account_def list_all_iff assms(3) in_db_def)
  have a: "a \<in> set (db_accounts db)" using assms(1,2) by (simp add: in_db_def find_account_iff)
  have found: "find_account i ?db = (if i = acct_id a then Some a' else find_account i db)" if "i \<in> account_ids db" for i
  proof (cases "i = acct_id a")
    case True
    have "a' \<in> set (db_accounts ?db)" using a assms(3) by (force simp: save_account_def)
    then show ?thesis using True assms(3) by (simp add: find_account_iff [OF ok])
  next
    case False
    obtain b where b: "b \<in> set (db_accounts db)" "acct_id b = i" using \<open>i \<in> account_ids db\<close> by blast
    then have "b \<in> set (db_accounts ?db)" using False by (force simp: save_account_def assms(3))
    then show ?thesis using False b find_account_iff [OF ok] find_account_iff [OF assms(1)] by metis
  qed
  have "set (map acct_id (db_accounts ?db)) = set (map acct_id (db_accounts db))" by (simp only: ids)
  then have same: "account_ids ?db = account_ids db" by simp
  moreover have "password_of i ?db = password_of i db" if "i \<in> account_ids db - S" for i
    using that assms(2,5) found [of i] by (auto simp: password_of_def in_db_def)
  ultimately show ?thesis using ok found [of "acct_id a"] a assms(3) by (auto simp: keeps_def in_db_def)
qed

lemma native_of_set: "native_of ms = Some x \<Longrightarrow> native_of (set_native_of m ms) = Some m"
  by (induction m ms rule: set_native_of.induct) auto

lemma natives_of_set: "length (filter is_native (set_native_of m ms)) = length (filter is_native ms)"
  by (induction m ms rule: set_native_of.induct) (auto simp: is_native_def)

lemma native_of_none: "native_of ms = None \<Longrightarrow> filter is_native ms = []"
  by (induction ms rule: native_of.induct) (auto simp: is_native_def)

lemma native_of_append: "native_of ms = None \<Longrightarrow> native_of (ms @ [Native m]) = Some m"
  by (induction ms rule: native_of.induct) auto

lemma natives_in_db: "accounts_ok db \<Longrightarrow> in_db a db \<Longrightarrow> length (filter is_native (acct_methods a)) \<le> 1"
  by (auto simp: in_db_def find_account_iff accounts_ok_def list_all_iff)

text \<open>A change of the native credential, with or without the password.\<close>

lemma saved_native:
  assumes "accounts_ok db" and "in_db a db" and "getNativeAuthenticationMethod a = Some m"
    and "nm_passwordHash m' = nm_passwordHash m \<or> acct_id a \<in> S"
    and "acct_id a' = acct_id a" and "acct_methods a' = set_native_of m' (acct_methods a)"
  shows "keeps S db (save_account a' db) \<and> in_db a' (save_account a' db)"
  by (rule saved_account [OF assms(1,2,5)])
    (use natives_in_db [OF assms(1,2)] native_of_set [OF assms(3), of m'] assms in
      \<open>auto simp: natives_of_set hash_of_def\<close>)

lemma native_or_throw_Inr: "native_or_throw a = Inr m \<longleftrightarrow> getNativeAuthenticationMethod a = Some m"
  by (auto simp: native_or_throw_def split: option.splits)

lemma only_native:
  "length (filter is_native ms) \<le> 1 \<Longrightarrow> Native n \<in> set ms \<Longrightarrow> native_of ms = Some n"
proof (induction ms rule: native_of.induct)
  case (2 m ms)
  have "is_native (Native m)" by (simp add: is_native_def)
  then have "filter is_native ms = []" using 2(1) by simp
  then have "Native n \<notin> set ms" by (auto simp: filter_empty_conv is_native_def)
  then show ?case using 2 by simp
qed (auto simp: is_native_def)

lemma native_case: "(case m of Native n \<Rightarrow> P n | External s \<Rightarrow> False) \<longleftrightarrow> (\<exists>n. m = Native n \<and> P n)"
  by (cases m) auto

lemma found_by_native:
  assumes "accounts_ok db" and "find_by_native P db = Some a"
  shows "in_db a db \<and> (\<exists>m. getNativeAuthenticationMethod a = Some m \<and> P m)"
proof -
  have a: "a \<in> set (db_accounts db)" "list_ex (\<lambda>m. case m of Native n \<Rightarrow> P n | External s \<Rightarrow> False) (acct_methods a)"
    using assms(2) by (auto simp: find_by_native_def dest: find_Some_in)
  then obtain n where n: "Native n \<in> set (acct_methods a)" "P n" by (auto simp: list_ex_iff native_case)
  have db: "in_db a db" using a(1) assms(1) by (simp add: in_db_def find_account_iff)
  show ?thesis using db n only_native [OF natives_in_db [OF assms(1) db] n(1)] by auto
qed

lemma found_by_email: "accounts_ok db \<Longrightarrow> getUserByEmailAddress k email db = Inr (Some a) \<Longrightarrow> in_db a db"
  by (auto simp: getUserByEmailAddress_def bind_result_Inr in_db_def find_account_iff dest: find_Some_in)

lemma found_account: "accounts_ok db \<Longrightarrow> find_account i db = Some a \<Longrightarrow> in_db a db \<and> acct_id a = i"
  by (auto simp: in_db_def find_account_iff)

section \<open>The operations on users\<close>

text \<open>What a user operation that hands on a user promises, for the users whose password it may touch.\<close>

definition keeps_user :: "ID set \<Rightarrow> accounts_db \<Rightarrow> account answer \<Rightarrow> bool" where
  "keeps_user S db m \<longleftrightarrow>
     (\<forall>e db'. m = Inr (Inl e, db') \<longrightarrow> keeps S db db') \<and>
     (\<forall>a db'. m = Inr (Inr a, db') \<longrightarrow> keeps S db db' \<and> in_db a db')"

lemma keeps_userI:
  assumes "\<And>r db'. m = Inr (r, db') \<Longrightarrow> keeps S db db' \<and> (\<forall>a. r = Inr a \<longrightarrow> in_db a db')"
  shows "keeps_user S db m"
  using assms by (fastforce simp: keeps_user_def)

lemma keeps_userD:
  assumes "keeps_user S db m" and "m = Inr (r, db')"
  shows "keeps S db db'" and "r = Inr a \<Longrightarrow> in_db a db'"
  using assms by (cases r; auto simp: keeps_user_def)+

lemma created_user:
  assumes "accounts_ok db"
  shows "keeps_user {} db (createCustomerUser cfg token salt identifier password db)"
    and "createCustomerUser cfg token salt identifier password db = Inr (Inr a, db') \<Longrightarrow> getNativeAuthenticationMethod a \<noteq> None"
proof -
  let ?fresh = "\<lambda>name. \<lparr>acct_id = db_nextId db, acct_deletedAt = None, acct_identifier = name, acct_verified = False, acct_methods = []\<rparr>"
  have new: "acct_id u = db_nextId db \<and> length (filter is_native (acct_methods u)) = 1 \<and> getNativeAuthenticationMethod u \<noteq> None"
    if "addNativeAuthenticationMethod cfg token salt (?fresh name) identifier password = Inr (Inr u)" for u name
    using that by (auto simp: addNativeAuthenticationMethod_def bind_result_Inr is_native_def split: option.splits)
  have "keeps {} db r' \<and> (\<forall>u. r = Inr u \<longrightarrow> in_db u r')"
    if run: "createCustomerUser cfg token salt identifier password db = Inr (r, r')" for r r'
  proof -
    obtain name x where x: "addNativeAuthenticationMethod cfg token salt (?fresh name) identifier password = Inr x"
      and res: "(case x of Inl e \<Rightarrow> answers db (Inl e)
        | Inr user \<Rightarrow> answers (db\<lparr>db_accounts := db_accounts db @ [user], db_nextId := Suc (db_nextId db)\<rparr>) (Inr user)) = Inr (r, r')"
      using run unfolding createCustomerUser_def bind_result_Inr by blast
    show ?thesis
    proof (cases x)
      case (Inl e)
      then show ?thesis using res keeps_refl [OF assms] by auto
    next
      case (Inr u)
      note u = new [OF x [unfolded Inr]]
      have fresh: "db_nextId db \<notin> account_ids db" using assms by (auto simp: accounts_ok_def list_all_iff)
      have r': "r = Inr u" "r' = db\<lparr>db_accounts := db_accounts db @ [u], db_nextId := Suc (db_nextId db)\<rparr>" using res Inr by auto
      have ok: "accounts_ok r'" using assms u fresh by (auto simp: accounts_ok_def r' list_all_iff less_Suc_eq)
      have "find_account i r' = find_account i db" if i: "i \<in> account_ids db" for i
      proof -
        obtain b where "b \<in> set (db_accounts db)" "acct_id b = i" using i by blast
        then have "find_account i db = Some b" "find_account i r' = Some b"
          using find_account_iff [OF assms] find_account_iff [OF ok] by (auto simp: r')
        then show ?thesis by simp
      qed
      then show ?thesis using ok u find_account_iff [OF ok] by (auto simp: keeps_def r' password_of_def in_db_def)
    qed
  qed
  then show "keeps_user {} db (createCustomerUser cfg token salt identifier password db)" by (intro keeps_userI) blast
  show "getNativeAuthenticationMethod a \<noteq> None" if made: "createCustomerUser cfg token salt identifier password db = Inr (Inr a, db')"
  proof -
    obtain name x where x: "addNativeAuthenticationMethod cfg token salt (?fresh name) identifier password = Inr x"
      and res: "(case x of Inl e \<Rightarrow> answers db (Inl e)
        | Inr user \<Rightarrow> answers (db\<lparr>db_accounts := db_accounts db @ [user], db_nextId := Suc (db_nextId db)\<rparr>) (Inr user)) = Inr (Inr a, db')"
      using made unfolding createCustomerUser_def bind_result_Inr by blast
    then show ?thesis using new by (cases x) auto
  qed
qed

lemma unactivated_keeps:
  assumes "accounts_ok db" and "in_db user db"
  shows "keeps_user {} db (addUnactivatedNativeAuthenticationMethod cfg token user identifier password db)"
proof (rule keeps_userI)
  fix r db'
  assume run: "addUnactivatedNativeAuthenticationMethod cfg token user identifier password db = Inr (r, db')"
  show "keeps {} db db' \<and> (\<forall>a. r = Inr a \<longrightarrow> in_db a db')"
  proof (cases "getNativeAuthenticationMethod user")
    case None
    have "keeps {} db (save_account (user\<lparr>acct_methods := acct_methods user @ [Native (new_native name [] (Some token))]\<rparr>) db) \<and>
        in_db (user\<lparr>acct_methods := acct_methods user @ [Native (new_native name [] (Some token))]\<rparr>)
          (save_account (user\<lparr>acct_methods := acct_methods user @ [Native (new_native name [] (Some token))]\<rparr>) db)" for name
      using saved_account [OF assms, of "user\<lparr>acct_methods := acct_methods user @ [Native (new_native name [] (Some token))]\<rparr>" "{}"]
      by (simp add: native_of_none [OF None] native_of_append [OF None] hash_of_def None new_native_def is_native_def)
    then show ?thesis using run None keeps_refl [OF assms(1)]
      by (auto simp: addUnactivatedNativeAuthenticationMethod_def Let_def bind_result_Inr split: option.splits)
  next
    case (Some m)
    have "keeps {} db (save_account (set_native (m\<lparr>nm_verificationToken := Some token\<rparr>) user) db) \<and>
        in_db (set_native (m\<lparr>nm_verificationToken := Some token\<rparr>) user) (save_account (set_native (m\<lparr>nm_verificationToken := Some token\<rparr>) user) db)"
      by (rule saved_native [OF assms Some]) (simp_all add: set_native_def)
    then show ?thesis using run Some keeps_refl [OF assms(1)] assms(2)
      by (auto simp: addUnactivatedNativeAuthenticationMethod_def Let_def split: option.splits if_splits)
  qed
qed

lemma set_token_keeps:
  assumes "accounts_ok db" and "in_db user db"
  shows "keeps_user {} db (setVerificationToken token user db)"
proof (rule keeps_userI)
  fix r db'
  assume run: "setVerificationToken token user db = Inr (r, db')"
  then obtain m where m: "getNativeAuthenticationMethod user = Some m"
    and r: "r = Inr ((set_native (m\<lparr>nm_verificationToken := Some token\<rparr>) user)\<lparr>acct_verified := False\<rparr>)"
      "db' = save_account ((set_native (m\<lparr>nm_verificationToken := Some token\<rparr>) user)\<lparr>acct_verified := False\<rparr>) db"
    by (auto simp: setVerificationToken_def bind_result_Inr native_or_throw_Inr Let_def)
  have "keeps {} db db' \<and> in_db ((set_native (m\<lparr>nm_verificationToken := Some token\<rparr>) user)\<lparr>acct_verified := False\<rparr>) db'"
    unfolding r(2) by (rule saved_native [OF assms m]) (simp_all add: set_native_def)
  then show "keeps {} db db' \<and> (\<forall>a. r = Inr a \<longrightarrow> in_db a db')" by (simp add: r(1))
qed

lemma applied_password:
  "applyVerificationPassword cfg salt m password = Inr m' \<Longrightarrow> nm_passwordHash m \<noteq> [] \<or> given password = None \<Longrightarrow>
   nm_passwordHash m' = nm_passwordHash m"
  by (auto simp: applyVerificationPassword_def split: option.splits if_splits)

lemma hash_in_db: "accounts_ok db \<Longrightarrow> in_db a db \<Longrightarrow> password_of (acct_id a) db = hash_of a"
  by (simp add: password_of_def in_db_def)

lemma verified_keeps:
  assumes "accounts_ok db"
  shows "keeps_user {i. given password \<noteq> None \<and> password_of i db = [] \<and>
       native_in i (\<lambda>m. nm_verificationToken m = Some token) db \<and> cfg_verifyToken cfg now token} db
     (verifyUserByToken cfg now salt token password db)" (is "keeps_user ?S db ?run")
proof (rule keeps_userI)
  fix r db'
  assume run: "?run = Inr (r, db')"
  show "keeps ?S db db' \<and> (\<forall>a. r = Inr a \<longrightarrow> in_db a db')"
  proof (cases "find_by_native (\<lambda>m. nm_verificationToken m = Some token) db")
    case (Some user)
    from found_by_native [OF assms Some] obtain m where user: "in_db user db" and m: "getNativeAuthenticationMethod user = Some m"
      "nm_verificationToken m = Some token" by blast
    have "nm_passwordHash m' = nm_passwordHash m \<or> acct_id user \<in> ?S"
      if "applyVerificationPassword cfg salt m password = Inr m'" "cfg_verifyToken cfg now token" for m'
      using applied_password [OF that(1)] that(2) hash_in_db [OF assms user] user m
      by (cases "given password = None") (auto simp: hash_of_def native_in_def in_db_def)
    then have "keeps ?S db (save_account ((set_native (m'\<lparr>nm_verificationToken := None\<rparr>) user)\<lparr>acct_verified := True\<rparr>) db) \<and>
        in_db ((set_native (m'\<lparr>nm_verificationToken := None\<rparr>) user)\<lparr>acct_verified := True\<rparr>)
          (save_account ((set_native (m'\<lparr>nm_verificationToken := None\<rparr>) user)\<lparr>acct_verified := True\<rparr>) db)"
      if "applyVerificationPassword cfg salt m password = Inr m'" "cfg_verifyToken cfg now token" for m'
      using that by (intro saved_native [OF assms user m(1)]) (simp_all add: set_native_def)
    then show ?thesis using run Some m keeps_refl [OF assms]
      by (auto simp: verifyUserByToken_def native_or_throw_def Let_def split: if_splits sum.splits)
  qed (use run keeps_refl [OF assms] in \<open>auto simp: verifyUserByToken_def\<close>)
qed

lemma admin_verified_keeps:
  assumes "accounts_ok db"
  shows "keeps_user {i. given password \<noteq> None \<and> i = userId \<and> password_of i db = []} db (verifyUserWithoutToken cfg salt userId password db)"
    (is "keeps_user ?S db ?run")
proof (rule keeps_userI)
  fix r db'
  assume run: "?run = Inr (r, db')"
  then obtain user where user: "find_account userId db = Some user" by (auto simp: verifyUserWithoutToken_def split: option.splits)
  note db = found_account [OF assms user]
  show "keeps ?S db db' \<and> (\<forall>a. r = Inr a \<longrightarrow> in_db a db')"
  proof (cases "getNativeAuthenticationMethod user")
    case None
    have "keeps ?S db (save_account (user\<lparr>acct_verified := True\<rparr>) db) \<and> in_db (user\<lparr>acct_verified := True\<rparr>) (save_account (user\<lparr>acct_verified := True\<rparr>) db)"
      using natives_in_db [OF assms] db by (intro saved_account [OF assms]) (auto simp: hash_of_def)
    then show ?thesis using run user None by (auto simp: verifyUserWithoutToken_def Let_def split: if_splits)
  next
    case (Some m)
    have "keeps ?S db (save_account ((set_native (m'\<lparr>nm_verificationToken := None\<rparr>) user)\<lparr>acct_verified := True\<rparr>) db) \<and>
        in_db ((set_native (m'\<lparr>nm_verificationToken := None\<rparr>) user)\<lparr>acct_verified := True\<rparr>)
          (save_account ((set_native (m'\<lparr>nm_verificationToken := None\<rparr>) user)\<lparr>acct_verified := True\<rparr>) db)"
      if "applyVerificationPassword cfg salt m password = Inr m'" for m'
    proof (intro saved_native [OF assms conjunct1 [OF db] Some])
      show "nm_passwordHash (m'\<lparr>nm_verificationToken := None\<rparr>) = nm_passwordHash m \<or> acct_id user \<in> ?S"
        using applied_password [OF that] hash_in_db [OF assms conjunct1 [OF db]] db Some
        by (cases "given password = None") (auto simp: hash_of_def)
    qed (simp_all add: set_native_def)
    then show ?thesis using run user Some keeps_refl [OF assms]
      by (auto simp: verifyUserWithoutToken_def Let_def split: sum.splits)
  qed
qed

lemma reset_keeps:
  assumes "accounts_ok db"
  shows "keeps_user {i. native_in i (\<lambda>m. nm_passwordResetToken m = Some token) db \<and> cfg_verifyToken cfg now token} db
     (resetPasswordByToken cfg now salt token password db)" (is "keeps_user ?S db ?run")
proof (rule keeps_userI)
  fix r db'
  assume run: "?run = Inr (r, db')"
  show "keeps ?S db db' \<and> (\<forall>a. r = Inr a \<longrightarrow> in_db a db')"
  proof (cases "find_by_native (\<lambda>m. nm_passwordResetToken m = Some token) db")
    case (Some user)
    from found_by_native [OF assms Some] obtain m where user: "in_db user db" and m: "getNativeAuthenticationMethod user = Some m"
      "nm_passwordResetToken m = Some token" by blast
    define user' where "user' = (set_native (m\<lparr>nm_passwordHash := cfg_hash cfg salt password, nm_passwordResetToken := None,
        nm_verificationToken := None\<rparr>) user)\<lparr>acct_verified := acct_verified user \<or> requireVerification cfg\<rparr>"
    have "keeps ?S db (save_account user' db) \<and> in_db user' (save_account user' db)" if "cfg_verifyToken cfg now token"
      by (rule saved_native [OF assms user m(1)]) (use that user m in \<open>auto simp: set_native_def native_in_def in_db_def user'_def\<close>)
    then show ?thesis using run Some m keeps_refl [OF assms]
      by (auto simp: resetPasswordByToken_def native_or_throw_def Let_def user'_def split: if_splits option.splits)
  qed (use run keeps_refl [OF assms] in \<open>auto simp: resetPasswordByToken_def\<close>)
qed

lemma reset_requested_keeps:
  assumes "accounts_ok db" and "setPasswordResetToken k token email db = Inr (r, db')"
  shows "keeps {} db db'"
proof -
  have "keeps {} db (save_account (set_native (m\<lparr>nm_passwordResetToken := Some token\<rparr>) user) db)"
    if "in_db user db" "getNativeAuthenticationMethod user = Some m" for user m
    using saved_native [OF assms(1) that, of "m\<lparr>nm_passwordResetToken := Some token\<rparr>" "{}" "set_native (m\<lparr>nm_passwordResetToken := Some token\<rparr>) user"]
    by (simp add: set_native_def)
  moreover obtain found where "getUserByEmailAddress k email db = Inr found"
    and "(case found of None \<Rightarrow> answers db (Inr None) | Some user \<Rightarrow> (case getNativeAuthenticationMethod user of
        None \<Rightarrow> answers db (Inr None)
      | Some m \<Rightarrow> let user' = set_native (m\<lparr>nm_passwordResetToken := Some token\<rparr>) user
          in answers (save_account user' db) (Inr (Some user')))) = Inr (r, db')"
    using assms(2) unfolding setPasswordResetToken_def bind_result_Inr by blast
  ultimately show ?thesis using found_by_email [OF assms(1)] keeps_refl [OF assms(1)]
    by (cases found) (auto simp: Let_def split: option.split_asm)
qed

lemma password_updated_keeps:
  assumes "accounts_ok db" and "updatePassword cfg salt userId old new db = Inr (r, db')"
  shows "keeps {i. userId = i \<and> cfg_check cfg old (password_of i db)} db db'" (is "keeps ?S db db'")
proof -
  obtain user where user: "find_account userId db = Some user" using assms(2) by (auto simp: updatePassword_def split: option.splits)
  note db = found_account [OF assms(1) user]
  have "keeps ?S db (save_account (set_native (m\<lparr>nm_passwordHash := cfg_hash cfg salt new\<rparr>) user) db)"
    if "getNativeAuthenticationMethod user = Some m" "cfg_check cfg old (nm_passwordHash m)" for m
    using saved_native [OF assms(1) conjunct1 [OF db] that(1), of "m\<lparr>nm_passwordHash := cfg_hash cfg salt new\<rparr>" ?S
        "set_native (m\<lparr>nm_passwordHash := cfg_hash cfg salt new\<rparr>) user"] db hash_in_db [OF assms(1) conjunct1 [OF db]] that
    by (simp add: set_native_def hash_of_def)
  then show ?thesis using assms(2) user keeps_refl [OF assms(1)]
    by (auto simp: updatePassword_def bind_result_Inr native_or_throw_Inr split: option.split_asm if_split_asm)
qed

lemma renamed_keeps:
  assumes "accounts_ok db" and "changeUserAndNativeIdentifier userId new db = Inr (r, db')"
  shows "keeps {} db db'"
proof (cases "find_account userId db")
  case (Some user)
  note db = conjunct1 [OF found_account [OF assms(1) Some]]
  show ?thesis
  proof (cases "getNativeAuthenticationMethod user")
    case None
    have "keeps {} db (save_account (user\<lparr>acct_identifier := new\<rparr>) db)"
      using saved_account [OF assms(1) db, of "user\<lparr>acct_identifier := new\<rparr>" "{}"] natives_in_db [OF assms(1) db] by (simp add: hash_of_def)
    then show ?thesis using assms(2) Some None by (simp add: changeUserAndNativeIdentifier_def)
  next
    case m: (Some m)
    obtain moved where moved: "db' = save_account ((set_native ((if moved
        then m\<lparr>nm_identifierChangeToken := None, nm_pendingIdentifier := None\<rparr> else m)\<lparr>nm_identifier := new\<rparr>) user)\<lparr>acct_identifier := new\<rparr>) db"
      using assms(2) unfolding changeUserAndNativeIdentifier_def Some m option.case bind_result_Inr Let_def by blast
    define m' where "m' = (if moved then m\<lparr>nm_identifierChangeToken := None, nm_pendingIdentifier := None\<rparr> else m)\<lparr>nm_identifier := new\<rparr>"
    have m': "nm_passwordHash m' = nm_passwordHash m" "db' = save_account ((set_native m' user)\<lparr>acct_identifier := new\<rparr>) db"
      by (simp_all add: m'_def moved)
    show ?thesis unfolding m'(2)
      using saved_native [OF assms(1) db m, of m' "{}" "(set_native m' user)\<lparr>acct_identifier := new\<rparr>"] m'(1) by (simp add: set_native_def)
  qed
qed (use assms keeps_refl [OF assms(1)] in \<open>auto simp: changeUserAndNativeIdentifier_def\<close>)

lemma change_confirmed_keeps:
  assumes "accounts_ok db" and "changeIdentifierByToken cfg now token db = Inr (r, db')"
  shows "keeps {} db db'"
proof (cases "find_by_native (\<lambda>m. nm_identifierChangeToken m = Some token) db")
  case (Some user)
  from found_by_native [OF assms(1) Some] obtain m where user: "in_db user db" and m: "getNativeAuthenticationMethod user = Some m" by blast
  define renamed where "renamed p = (set_native (m\<lparr>nm_identifier := p, nm_identifierChangeToken := None, nm_pendingIdentifier := None\<rparr>) user)
      \<lparr>acct_identifier := p\<rparr>" for p
  have "keeps {} db (save_account (renamed p) db)" for p
    using saved_native [OF assms(1) user m, of "m\<lparr>nm_identifier := p, nm_identifierChangeToken := None, nm_pendingIdentifier := None\<rparr>" "{}" "renamed p"]
    by (simp add: set_native_def renamed_def)
  then show ?thesis using assms(2) Some m keeps_refl [OF assms(1)]
    by (auto simp: changeIdentifierByToken_def bind_result_Inr native_or_throw_Inr Let_def renamed_def split: option.split_asm if_split_asm)
qed (use assms keeps_refl [OF assms(1)] in \<open>auto simp: changeIdentifierByToken_def\<close>)

lemma deleted_keeps:
  assumes "accounts_ok db" and "softDeleteUser now userId db = Inr (r, db')"
  shows "keeps {} db db'"
proof -
  obtain user where user: "find_account userId db = Some user" "db' = save_account (user\<lparr>acct_deletedAt := Some now\<rparr>) db"
    using assms(2) by (auto simp: softDeleteUser_def split: option.split_asm if_split_asm)
  note db = conjunct1 [OF found_account [OF assms(1) user(1)]]
  show ?thesis unfolding user(2)
    using saved_account [OF assms(1) db, of "user\<lparr>acct_deletedAt := Some now\<rparr>" "{}"] natives_in_db [OF assms(1) db] by (simp add: hash_of_def)
qed

section \<open>The flows\<close>

lemma bind_answer_Inr:
  "bind_answer m f = Inr (r, db') \<longleftrightarrow>
     (\<exists>e. m = Inr (Inl e, db') \<and> r = Inl e) \<or> (\<exists>x db1. m = Inr (Inr x, db1) \<and> f x db1 = Inr (r, db'))"
proof (cases m)
  case (Inr p)
  obtain x d where p: "p = (x, d)" by (cases p)
  show ?thesis unfolding Inr p bind_answer_def by (cases x) auto
qed (simp add: bind_answer_def)

lemma bound_keeps:
  assumes "keeps_user S db m" and "bind_answer m f = Inr (r, db')"
    and "\<And>a db1. keeps S db db1 \<Longrightarrow> in_db a db1 \<Longrightarrow> m = Inr (Inr a, db1) \<Longrightarrow> f a db1 = Inr (r, db') \<Longrightarrow> keeps T db db'" and "S \<subseteq> T"
  shows "keeps T db db'"
proof -
  have weaker: "keeps S db d \<Longrightarrow> keeps T db d" for d using assms(4) by (auto simp: keeps_def)
  from assms(2) consider (error) e where "m = Inr (Inl e, db')"
    | (user) a db1 where "m = Inr (Inr a, db1)" "f a db1 = Inr (r, db')"
    by (auto simp: bind_answer_Inr)
  then show ?thesis
    by cases (use assms(1,3) weaker in \<open>auto simp: keeps_user_def\<close>)
qed

lemma customer_saved_keeps: "keeps S db db' \<Longrightarrow> keeps S db (save_customer c db')" "keeps S db db' \<Longrightarrow> keeps S db (publish e db')"
  by (auto elim: keeps_same)

lemma inserted_customer:
  assumes "insert_customer ctx email u db' = (c, db'')"
  shows "keeps S db db' \<Longrightarrow> keeps S db db''" and "in_db a db'' = in_db a db'"
  using assms by (auto simp: insert_customer_def Let_def elim: keeps_same intro!: in_db_same)

lemma upserted_customer:
  assumes "accounts_ok db" and "createOrUpdate ctx email b db = Inr (r, db')"
  shows "keeps {} db db' \<and> (\<forall>a. in_db a db' = in_db a db)"
proof -
  have "in_db a (save_customer c db) = in_db a db" for a c by (rule in_db_same) simp
  then show ?thesis
    using assms(2) keeps_refl [OF assms(1)] customer_saved_keeps(1) inserted_customer
    by (fastforce simp: createOrUpdate_def bind_result_Inr Let_def split: option.split_asm if_split_asm prod.split_asm)
qed

lemma bound_user:
  assumes "keeps {} db0 db" and "keeps_user {} db m" and "bind_answer m f = Inr (r, db')"
    and "\<And>a db1. keeps {} db0 db1 \<Longrightarrow> in_db a db1 \<Longrightarrow> m = Inr (Inr a, db1) \<Longrightarrow> f a db1 = Inr (r, db') \<Longrightarrow> keeps {} db0 db'"
  shows "keeps {} db0 db'"
proof -
  have trans: "keeps {} db0 d" if "keeps {} db d" for d using keeps_trans [OF assms(1) that] by simp
  from assms(3) consider (error) e where "m = Inr (Inl e, db')"
    | (user) a db1 where "m = Inr (Inr a, db1)" "f a db1 = Inr (r, db')"
    by (auto simp: bind_answer_Inr)
  then show ?thesis
    by cases (use assms(2,4) trans in \<open>auto simp: keeps_user_def\<close>)
qed

lemma saved_again:
  assumes "keeps {} db db'" and "in_db a db'"
  shows "keeps {} db (save_account a db')"
proof -
  note ok = keeps_ok [OF assms(1)]
  have "keeps {} db' (save_account a db')"
    using saved_account [OF ok assms(2), of a "{}"] natives_in_db [OF ok assms(2)] by simp
  from keeps_trans [OF assms(1) this] show ?thesis by simp
qed

lemma registration_keeps:
  assumes ok: "accounts_ok db" and found: "\<And>u. found = Some u \<Longrightarrow> in_db u db"
    and native: "\<And>u. found = Some u \<Longrightarrow> getNativeAuthenticationMethod u = None \<Longrightarrow> pending"
    and run: "complete_registration cfg ctx token1 token2 salt email password found pending db = Inr (r, db')"
  shows "keeps {} db db'"
proof -
  define f4 where "f4 customer user3 db4 = (let db5 = save_customer (customer\<lparr>cust_userId := Some (acct_id user3)\<rparr>) (save_account user3 db4)
      in answers (if \<not> acct_verified user3 \<or> pending then publish (AccountRegistrationEvent user3) db5 else db5) (Inr ()) :: unit answer)"
    for customer user3 db4
  define m4 where "m4 user2 db3 = (if \<not> acct_verified user2 \<and> \<not> pending
      then setVerificationToken token2 user2 db3 else answers db3 (Inr user2))" for user2 db3
  define m3 where "m3 user db2 = (if pending then addUnactivatedNativeAuthenticationMethod cfg token1 user email password db2
      else if Option.bind found getNativeAuthenticationMethod = None
      then bind_result (addNativeAuthenticationMethod cfg token1 salt user email password) (answers db2)
      else answers db2 (Inr user))" for user db2
  define m2 where "m2 db1 = (case found of Some u \<Rightarrow> answers db1 (Inr u)
      | None \<Rightarrow> createCustomerUser cfg token1 salt email password db1)" for db1
  have run: "bind_answer (createOrUpdate ctx email False db) (\<lambda>customer db1. bind_answer (m2 db1) (\<lambda>user db2.
      bind_answer (m3 user db2) (\<lambda>user2 db3. bind_answer (m4 user2 db3) (f4 customer)))) = Inr (r, db')"
    using run unfolding complete_registration_def m2_def m3_def m4_def f4_def by simp
  from run consider (error) e where "createOrUpdate ctx email False db = Inr (Inl e, db')"
    | (customer) customer db1 where "createOrUpdate ctx email False db = Inr (Inr customer, db1)"
      "bind_answer (m2 db1) (\<lambda>user db2. bind_answer (m3 user db2) (\<lambda>user2 db3. bind_answer (m4 user2 db3) (f4 customer))) = Inr (r, db')"
    unfolding bind_answer_Inr [of "createOrUpdate ctx email False db"] by blast
  then show ?thesis
  proof cases
    case error
    then show ?thesis using upserted_customer [OF ok] by blast
  next
    case customer
    note db1 = upserted_customer [OF ok customer(1)]
    then have ok1: "accounts_ok db1" by (simp add: keeps_def)
    have k1: "keeps_user {} db1 (m2 db1)"
      using found db1 keeps_refl [OF ok1] created_user(1) [OF ok1] by (cases found) (auto simp: m2_def keeps_user_def)
    show ?thesis
    proof (rule bound_user [OF conjunct1 [OF db1] k1 customer(2)])
      fix user db2
      assume db2: "keeps {} db db2" "in_db user db2" and user: "m2 db1 = Inr (Inr user, db2)"
        and run2: "bind_answer (m3 user db2) (\<lambda>user2 db3. bind_answer (m4 user2 db3) (f4 customer)) = Inr (r, db')"
      note ok2 = keeps_ok [OF db2(1)]
      have "getNativeAuthenticationMethod user \<noteq> None" if "\<not> pending"
        using user native that created_user(2) [OF ok1] by (cases found) (auto simp: m2_def)
      then have k2: "keeps_user {} db2 (m3 user db2)"
        using unactivated_keeps [OF ok2 db2(2)] keeps_refl [OF ok2] db2(2)
        by (auto simp: m3_def addNativeAuthenticationMethod_def keeps_user_def)
      show "keeps {} db db'"
      proof (rule bound_user [OF db2(1) k2 run2])
        fix user2 db3
        assume db3: "keeps {} db db3" "in_db user2 db3" and run3: "bind_answer (m4 user2 db3) (f4 customer) = Inr (r, db')"
        note ok3 = keeps_ok [OF db3(1)]
        have k3: "keeps_user {} db3 (m4 user2 db3)"
          using set_token_keeps [OF ok3 db3(2)] keeps_refl [OF ok3] db3(2) by (auto simp: m4_def keeps_user_def)
        show "keeps {} db db'"
          by (rule bound_user [OF db3(1) k3 run3]) (auto simp: f4_def Let_def intro!: customer_saved_keeps saved_again split: if_split_asm)
      qed
    qed
  qed
qed

definition keeps_result :: "ID set \<Rightarrow> accounts_db \<Rightarrow> ('a \<times> accounts_db) result \<Rightarrow> bool" where
  "keeps_result S db m \<longleftrightarrow> (\<forall>r db'. m = Inr (r, db') \<longrightarrow> keeps S db db')"

lemma user_result: "keeps_user S db m \<Longrightarrow> keeps_result S db m"
  unfolding keeps_result_def
proof (intro allI impI)
  fix r db'
  assume "keeps_user S db m" and "m = Inr (r, db')"
  then show "keeps S db db'" by (cases r) (auto simp: keeps_user_def)
qed

lemma bound_result:
  assumes "keeps_result S db m"
    and "\<And>a db1 r db'. f a db1 = Inr (r, db') \<Longrightarrow> db_accounts db' = db_accounts db1 \<and> db_nextId db' = db_nextId db1"
  shows "keeps_result S db (bind_answer m f)"
  using assms(1) keeps_same [of S db] assms(2)
  by (fastforce simp: keeps_result_def bind_answer_Inr)

lemma after_keeps: "accounts_ok db \<Longrightarrow> keeps_result S db m \<Longrightarrow> keeps S db (after db m)"
  by (auto simp: after_def keeps_result_def keeps_refl split: sum.split)

lemma register_keeps: "accounts_ok db \<Longrightarrow> keeps_result {} db (registerCustomerAccount cfg ctx t1 t2 salt email pw db)"
  unfolding keeps_result_def
proof (intro allI impI)
  fix r db'
  assume ok: "accounts_ok db" and run: "registerCustomerAccount cfg ctx t1 t2 salt email pw db = Inr (r, db')"
  show "keeps {} db db'"
  proof (cases "\<not> requireVerification cfg \<and> given pw = None")
    case False
    then obtain found pending where found: "getUserByEmailAddress (actx_kind ctx) email db = Inr found"
      and rest: "db' = db \<or> complete_registration cfg ctx t1 t2 salt email pw found
        (found \<noteq> None \<and> Option.bind found getNativeAuthenticationMethod = None \<or> pending) db = Inr (r, db')"
      using run by (auto simp: registerCustomerAccount_def bind_result_Inr Let_def split: if_split_asm)
    from rest show ?thesis
    proof
      assume c: "complete_registration cfg ctx t1 t2 salt email pw found
        (found \<noteq> None \<and> Option.bind found getNativeAuthenticationMethod = None \<or> pending) db = Inr (r, db')"
      show ?thesis by (rule registration_keeps [OF ok _ _ c]) (use found_by_email [OF ok] found in auto)
    qed (simp add: keeps_refl ok)
  qed (use run keeps_refl [OF ok] in \<open>simp add: registerCustomerAccount_def\<close>)
qed

lemma refreshed_keeps: "accounts_ok db \<Longrightarrow> keeps_result {} db (refreshVerificationToken ctx t email db)"
  unfolding keeps_result_def
proof (intro allI impI)
  fix r db'
  assume ok: "accounts_ok db" and run: "refreshVerificationToken ctx t email db = Inr (r, db')"
  then obtain found where found: "getUserByEmailAddress (actx_kind ctx) email db = Inr found"
    and rest: "(case found of None \<Rightarrow> answers db (Inr ()) | Some user \<Rightarrow>
        if acct_verified user then answers db (Inr ())
        else bind_answer (setVerificationToken t user db) (\<lambda>user' db'. answers (publish (AccountRegistrationEvent user') db') (Inr ()))) =
      Inr (r, db')"
    unfolding refreshVerificationToken_def bind_result_Inr by blast
  show "keeps {} db db'"
  proof (cases found)
    case (Some user)
    have "keeps_result {} db (setVerificationToken t user db)"
      using user_result [OF set_token_keeps [OF ok]] found_by_email [OF ok] found Some by simp
    from bound_result [OF this, of "\<lambda>user' db'. answers (publish (AccountRegistrationEvent user') db') (Inr ())"]
    show ?thesis using rest Some keeps_refl [OF ok] by (auto simp: keeps_result_def split: if_split_asm)
  qed (use rest keeps_refl [OF ok] in simp)
qed

lemma verify_email_keeps:
  assumes "accounts_ok db"
  shows "keeps_result {i. entitled cfg i (Verify_email ctx now salt t pw) db} db (verifyCustomerEmailAddress cfg ctx now salt t pw db)"
  unfolding verifyCustomerEmailAddress_def entitled.simps
  by (rule bound_result [OF user_result [OF verified_keeps [OF assms]]]) (auto simp: no_customer_def Let_def split: option.split_asm)

lemma verify_account_keeps:
  assumes "accounts_ok db"
  shows "keeps_result {i. entitled cfg i (Verify_account ctx salt c pw) db} db (verifyCustomerAccount cfg ctx salt c pw db)"
  unfolding keeps_result_def
proof (intro allI impI)
  fix r db'
  assume run: "verifyCustomerAccount cfg ctx salt c pw db = Inr (r, db')"
  then obtain cust where c: "customer_in_channel ctx c db = Inr cust"
    and m: "(case cust_userId cust of None \<Rightarrow> Inl (UserInputError ''error.customer-has-no-user-account'')
      | Some userId \<Rightarrow>
          let wasVerified = (case find_account userId db of None \<Rightarrow> False | Some a \<Rightarrow> acct_verified a)
          in bind_answer (verifyUserWithoutToken cfg salt userId pw db) (\<lambda>user db1.
               answers (if wasVerified then db1 else publish (AccountVerifiedEvent c) db1) (Inr cust))) = Inr (r, db')"
    unfolding verifyCustomerAccount_def bind_result_Inr by blast
  then obtain userId was where cust: "customer_in_channel ctx c db = Inr cust" "cust_userId cust = Some userId"
    and rest: "bind_answer (verifyUserWithoutToken cfg salt userId pw db) (\<lambda>user db1.
      answers (if was then db1 else publish (AccountVerifiedEvent c) db1) (Inr cust)) = Inr (r, db')"
    by (cases "cust_userId cust") (auto simp: Let_def)
  have "cust \<in> set (db_customers db) \<and> cust_id cust = c"
    using cust(1) by (auto simp: customer_in_channel_def split: option.split_asm dest: find_Some_in)
  then have sub: "{i. given pw \<noteq> None \<and> i = userId \<and> password_of i db = []} \<subseteq> {i. entitled cfg i (Verify_account ctx salt c pw) db}"
    using cust(2) by (auto simp: list_ex_iff)
  have "keeps_result {i. given pw \<noteq> None \<and> i = userId \<and> password_of i db = []} db
      (bind_answer (verifyUserWithoutToken cfg salt userId pw db) (\<lambda>user db1.
        answers (if was then db1 else publish (AccountVerifiedEvent c) db1) (Inr cust)))"
    by (rule bound_result [OF user_result [OF admin_verified_keeps [OF assms]]]) (auto split: if_split_asm)
  then have "keeps {i. given pw \<noteq> None \<and> i = userId \<and> password_of i db = []} db db'" using rest by (simp add: keeps_result_def)
  then show "keeps {i. entitled cfg i (Verify_account ctx salt c pw) db} db db'" by (rule keeps_mono [OF _ sub])
qed

lemma request_reset_keeps: "accounts_ok db \<Longrightarrow> keeps_result {} db (requestPasswordReset ctx t email db)"
  unfolding requestPasswordReset_def
  by (rule bound_result) (auto simp: keeps_result_def no_customer_def reset_requested_keeps split: option.split_asm if_split_asm)

lemma reset_password_keeps:
  assumes "accounts_ok db"
  shows "keeps_result {i. entitled cfg i (Reset_password ctx now salt t pw) db} db (resetPassword cfg ctx now salt t pw db)"
  unfolding resetPassword_def entitled.simps
  by (rule bound_result [OF user_result [OF reset_keeps [OF assms]]]) (auto simp: no_customer_def split: if_split_asm)

lemma change_email_keeps: "accounts_ok db \<Longrightarrow> keeps_result {} db (updateEmailAddress cfg ctx now t db)"
  unfolding updateEmailAddress_def
  by (rule bound_result) (auto simp: keeps_result_def change_confirmed_keeps split: option.split_asm prod.split_asm)

lemma request_email_keeps: "accounts_ok db \<Longrightarrow> keeps_result {} db (requestUpdateEmailAddress cfg ctx t u email db)"
  unfolding keeps_result_def
proof (intro allI impI)
  fix r db'
  assume ok: "accounts_ok db" and run: "requestUpdateEmailAddress cfg ctx t u email db = Inr (r, db')"
  show "keeps {} db db'"
  proof (cases "find_account u db")
    case (Some user)
    note user = conjunct1 [OF found_account [OF ok Some]]
    have pending: "keeps_result {} db (bind_answer (setIdentifierChangeToken t (set_native (m\<lparr>nm_pendingIdentifier := Some e\<rparr>) user) db)
        (\<lambda>user' db1. answers (publish (IdentifierChangeRequestEvent user') db1) (Inr True)))"
      if m: "getNativeAuthenticationMethod user = Some m" for m e
    proof (rule bound_result)
      let ?u = "set_native (m\<lparr>nm_pendingIdentifier := Some e\<rparr>) user"
      have n: "getNativeAuthenticationMethod ?u = Some (m\<lparr>nm_pendingIdentifier := Some e\<rparr>)"
        using native_of_set [OF m] by (simp add: set_native_def)
      have "set_native_of x (set_native_of y ms) = set_native_of x ms" for x y ms
        by (induction y ms rule: set_native_of.induct) auto
      then have "set_native (m\<lparr>nm_pendingIdentifier := Some e, nm_identifierChangeToken := Some t\<rparr>) ?u =
          set_native (m\<lparr>nm_pendingIdentifier := Some e, nm_identifierChangeToken := Some t\<rparr>) user"
        by (simp add: set_native_def)
      moreover have "keeps {} db (save_account (set_native (m\<lparr>nm_pendingIdentifier := Some e, nm_identifierChangeToken := Some t\<rparr>) user) db)"
        using saved_native [OF ok user m, of "m\<lparr>nm_pendingIdentifier := Some e, nm_identifierChangeToken := Some t\<rparr>" "{}"
          "set_native (m\<lparr>nm_pendingIdentifier := Some e, nm_identifierChangeToken := Some t\<rparr>) user"] by (simp add: set_native_def)
      ultimately show "keeps_result {} db (setIdentifierChangeToken t ?u db)"
        using n by (auto simp: keeps_result_def setIdentifierChangeToken_def native_or_throw_def Let_def)
    qed auto
    have now: "keeps {} db (save_account (user\<lparr>acct_identifier := e\<rparr>) db)" for e
      using saved_account [OF ok user, of "user\<lparr>acct_identifier := e\<rparr>" "{}"] natives_in_db [OF ok user] by (simp add: hash_of_def)
    show ?thesis
      using run Some keeps_refl [OF ok] pending customer_saved_keeps now
      by (auto simp: requestUpdateEmailAddress_def bind_result_Inr native_or_throw_Inr Let_def keeps_result_def
          split: if_split_asm option.split_asm)
  qed (use run keeps_refl [OF ok] in \<open>auto simp: requestUpdateEmailAddress_def bind_result_Inr split: if_split_asm\<close>)
qed

lemma created_verified:
  assumes "accounts_ok db" and "given password = None"
  shows "keeps_user {} db (verifyUserByToken cfg now salt token password db)"
  using verified_keeps [OF assms(1), of password token cfg now salt] assms(2) by simp

text \<open>The last steps of \<^verbatim>\<open>create\<close>: the new user is verified when he has a password, and gets his customer.\<close>

lemma fresh_verified_keeps:
  assumes "keeps {} db db1"
    and "(if given pw = None then Inr (user, db1)
      else bind_result (native_or_throw user) (\<lambda>m. case given (nm_verificationToken m) of
          None \<Rightarrow> Inr (user, db1)
        | Some tk \<Rightarrow> bind_result (verifyUserByToken cfg now salt tk None db1) (\<lambda>(v, db2).
            case v of Inl e \<Rightarrow> Inl (JsError ''error result'') | Inr user' \<Rightarrow> Inr (user', db2)))) = Inr (u, d)"
  shows "keeps {} db d"
proof -
  have "keeps {} db d" if v: "verifyUserByToken cfg now salt tk None db1 = Inr (Inr u, d)" for tk
    using created_verified [OF keeps_ok [OF assms(1)], of None cfg now salt tk] v keeps_trans [OF assms(1), of "{}" d]
    by (simp add: keeps_user_def given_def)
  then show ?thesis
    using assms by (auto simp: bind_result_Inr split: if_split_asm option.split_asm sum.split_asm) (metis obj_sumE)
qed

lemma fresh_customer_keeps:
  assumes "accounts_ok db"
    and "bind_result (createCustomerUser cfg t salt name pw db) (\<lambda>(r, db1).
      case r of
        Inl e \<Rightarrow> Inr (AdminRefused e, db1)
      | Inr user \<Rightarrow> bind_result (f user db1) (\<lambda>(user2, db2).
          case insert_customer ctx name (Some (acct_id user2)) (publish (AccountRegistrationEvent user2) db2) of
            (c, db3) \<Rightarrow> Inr (CustomerSaved c, db3))) = Inr (r, db')"
    and f: "\<And>user db1 u d. keeps {} db db1 \<Longrightarrow> f user db1 = Inr (u, d) \<Longrightarrow> keeps {} db d"
  shows "keeps {} db db'"
proof -
  obtain x db1 where made: "createCustomerUser cfg t salt name pw db = Inr (x, db1)"
    and rest: "(case x of
        Inl e \<Rightarrow> Inr (AdminRefused e, db1)
      | Inr user \<Rightarrow> bind_result (f user db1) (\<lambda>(user2, db2).
          case insert_customer ctx name (Some (acct_id user2)) (publish (AccountRegistrationEvent user2) db2) of
            (c, db3) \<Rightarrow> Inr (CustomerSaved c, db3))) = Inr (r, db')"
    using assms(2) by (auto simp: bind_result_Inr)
  have k: "keeps {} db db1" using user_result [OF created_user(1) [OF assms(1)]] made by (simp add: keeps_result_def)
  have inserted: "keeps {} db d2" if "keeps {} db d" "insert_customer ctx name y (publish e d) = (c, d2)" for y e c d d2
    using that(1) inserted_customer(1) [OF that(2)] customer_saved_keeps(2) by blast
  show ?thesis using rest k f [OF k] inserted
    by (cases x) (auto simp: bind_result_Inr split: prod.split_asm, metis surj_pair)
qed

lemma create_customer_keeps: "accounts_ok db \<Longrightarrow> keeps_result {} db (create_customer cfg ctx now t salt email pw db)"
  unfolding keeps_result_def
proof (intro allI impI)
  fix r db'
  assume ok: "accounts_ok db" and run: "create_customer cfg ctx now t salt email pw db = Inr (r, db')"
  note saved = customer_saved_keeps(1) [OF keeps_refl [OF ok]]
  obtain name existing where rest: "(if list_ex (\<lambda>c. actx_channelId ctx \<in> set (cust_channels c) \<and> cust_email c = name \<and> cust_deletedAt c = None) (db_customers db)
      then Inr (EmailAddressConflictAdminError, db)
      else bind_result (getUserByEmailAddress customer_kind name db) existing) = Inr (r, db')"
    and "existing = (\<lambda>existingUser.
         case findCustomerByEmail name db of
           Some existing \<Rightarrow>
             if existingUser \<noteq> None
             then let c = add_channel (actx_channelId ctx) existing in Inr (CustomerSaved c, save_customer c db)
             else Inr (EmailAddressConflictAdminError, db)
         | None \<Rightarrow>
             if existingUser \<noteq> None then Inr (EmailAddressConflictAdminError, db)
             else bind_result (createCustomerUser cfg t salt name pw db) (\<lambda>(r, db1).
               case r of
                 Inl e \<Rightarrow> Inr (AdminRefused e, db1)
               | Inr user \<Rightarrow> bind_result
                     (if given pw = None then Inr (user, db1)
                      else bind_result (native_or_throw user) (\<lambda>m. case given (nm_verificationToken m) of
                          None \<Rightarrow> Inr (user, db1)
                        | Some tk \<Rightarrow> bind_result (verifyUserByToken cfg now salt tk None db1) (\<lambda>(v, db2).
                            case v of Inl e \<Rightarrow> Inl (JsError ''error result'') | Inr user' \<Rightarrow> Inr (user', db2))))
                     (\<lambda>(user2, db2).
                       case insert_customer ctx name (Some (acct_id user2)) (publish (AccountRegistrationEvent user2) db2) of
                         (c, db3) \<Rightarrow> Inr (CustomerSaved c, db3))))"
    using run unfolding create_customer_def bind_result_Inr by blast
  note existing = this(2)
  show "keeps {} db db'"
  proof (cases "list_ex (\<lambda>c. actx_channelId ctx \<in> set (cust_channels c) \<and> cust_email c = name \<and> cust_deletedAt c = None) (db_customers db)")
    case False
    then obtain found where found: "existing found = Inr (r, db')" using rest by (auto simp: bind_result_Inr)
    show ?thesis
    proof (cases "found = None \<and> findCustomerByEmail name db = None")
      case True
      show ?thesis
        by (rule fresh_customer_keeps [OF ok _ fresh_verified_keeps])
          (use found True in \<open>(simp only: existing option.simps if_False if_True simp_thms)?; assumption\<close>)+
    next
      case False
      then show ?thesis
        using found saved keeps_refl [OF ok] by (cases "findCustomerByEmail name db"; cases found) (auto simp: existing Let_def)
    qed
  qed (use rest keeps_refl [OF ok] in simp)
qed

lemma saved_email_keeps: "keeps {} db db1 \<Longrightarrow> save_email c e db1 = Inr (r, db') \<Longrightarrow> keeps {} db db'"
  by (auto simp: save_email_def Let_def customer_saved_keeps)

lemma renamed_email_keeps: "accounts_ok db \<Longrightarrow> rename_email c u e db = Inr (r, db') \<Longrightarrow> keeps {} db db'"
  by (auto simp: rename_email_def bind_result_Inr intro: saved_email_keeps renamed_keeps)

lemma set_email_keeps: "accounts_ok db \<Longrightarrow> keeps_result {} db (update_customer_email ctx c email db)"
  unfolding keeps_result_def
proof (intro allI impI)
  fix r db'
  assume ok: "accounts_ok db" and run: "update_customer_email ctx c email db = Inr (r, db')"
  have "db' = db \<or> (\<exists>x e. save_email x e db = Inr (r, db')) \<or> (\<exists>x u e. rename_email x u e db = Inr (r, db'))"
    using run unfolding update_customer_email_def bind_result_Inr Let_def
    by (elim exE conjE) (auto simp: bind_result_Inr split: if_split_asm option.split_asm)
  then show "keeps {} db db'"
    using keeps_refl [OF ok] saved_email_keeps [OF keeps_refl [OF ok]] renamed_email_keeps [OF ok] by blast
qed

lemma delete_keeps: "accounts_ok db \<Longrightarrow> keeps_result {} db (softDeleteCustomer ctx now c db)"
  unfolding keeps_result_def
proof (intro allI impI)
  fix r db'
  assume ok: "accounts_ok db" and run: "softDeleteCustomer ctx now c db = Inr (r, db')"
  then obtain x where x: "db' = save_customer x db \<or> (\<exists>u. softDeleteUser now u (save_customer x db) = Inr (r, db'))"
    by (auto simp: softDeleteCustomer_def bind_result_Inr Let_def split: option.split_asm)
  have k: "keeps {} db (save_customer x db)" by (rule customer_saved_keeps(1) [OF keeps_refl [OF ok]])
  show "keeps {} db db'"
    using x k deleted_keeps [OF keeps_ok [OF k], of now _ r db'] keeps_trans [OF k, of "{}" db'] by auto
qed

text \<open>Every call keeps the passwords of those it is not entitled to.\<close>

lemma step_keeps:
  assumes "accounts_ok db"
  shows "keeps {i. entitled cfg i c db} db (account_step cfg c db)"
proof (cases c)
  case (Update_password salt u old new)
  then show ?thesis using password_updated_keeps [OF assms]
    by (auto intro!: after_keeps [OF assms] simp: keeps_result_def)
qed (use assms in \<open>simp; intro after_keeps;
  simp add: register_keeps refreshed_keeps verify_email_keeps [simplified] verify_account_keeps [simplified] request_reset_keeps
    reset_password_keeps [simplified] request_email_keeps change_email_keeps create_customer_keeps set_email_keeps delete_keeps\<close>)+

end
