(* ===== verification/AccountUses.thy ===== *)
theory AccountUses
  imports AccountSafety
begin

text \<open>
  What the flows of the customer accounts come to: the claims, and a small shop in which they are used.
\<close>

section \<open>Runs of calls\<close>

lemma run_keeps: "accounts_ok db \<Longrightarrow> i \<in> account_ids db \<Longrightarrow> never_entitled cfg i cs db \<Longrightarrow>
    accounts_ok (account_run cfg cs db) \<and> i \<in> account_ids (account_run cfg cs db) \<and> password_of i (account_run cfg cs db) = password_of i db"
proof (induction cs arbitrary: db)
  case (Cons c cs)
  have k: "keeps {i. entitled cfg i c db} db (account_step cfg c db)" by (rule step_keeps [OF Cons.prems(1)])
  have "accounts_ok (account_step cfg c db)" "i \<in> account_ids (account_step cfg c db)"
    "password_of i (account_step cfg c db) = password_of i db"
    using k Cons.prems(2,3) by (auto simp: keeps_def)
  then show ?case using Cons.IH [of "account_step cfg c db"] Cons.prems(3) by (simp add: account_run_def)
qed (simp add: account_run_def)

section \<open>Saved accounts are found again\<close>

lemma find_map_same:
  assumes "List.find P xs = Some a" and "distinct (map k xs)" and "k a' = k a" and "Q a'"
    and "\<And>x. x \<in> set xs \<Longrightarrow> k x \<noteq> k a \<Longrightarrow> Q x = P x"
  shows "List.find Q (map (\<lambda>x. if k x = k a' then a' else x) xs) = Some a'"
  using assms
proof (induction xs)
  case (Cons x xs)
  show ?case
  proof (cases "k x = k a")
    case False
    then have "\<not> P x" using Cons.prems(1) by auto
    then show ?thesis using False Cons by (auto simp: Cons.prems(3))
  qed (use Cons.prems in auto)
qed simp

lemma of_kind_saved: "of_kind k (save_account a db) u = of_kind k db u"
  by (simp add: of_kind_def save_account_def cong: user_kind.case_cong)

lemma found_again:
  assumes "accounts_ok db" and "getUserByEmailAddress k name db = Inr (Some a)"
    and "acct_id a' = acct_id a" and "acct_identifier a' = acct_identifier a" and "acct_deletedAt a' = acct_deletedAt a"
  shows "getUserByEmailAddress k name (save_account a' db) = Inr (Some a')"
proof -
  obtain like wanted where l: "isEmailAddressLike name = Inr like"
      "(if like then normalizeEmailAddress name else Inr name) = Inr wanted"
    and f: "List.find (\<lambda>a. acct_deletedAt a = None \<and> of_kind k db a \<and>
        (if like then toLowerCase (acct_identifier a) = wanted else acct_identifier a = wanted)) (db_accounts db) = Some a"
    (is "List.find ?P _ = _")
    using assms(2) unfolding getUserByEmailAddress_def bind_result_Inr by blast
  have same: "of_kind k db a' = of_kind k db a" using assms(3) by (cases k) (simp_all add: of_kind_def)
  have "?P a" using find_Some_in [OF f] by blast
  then have "?P a'" using same assms(4,5) by simp
  from find_map_same [where P = ?P and Q = ?P and k = acct_id, OF f _ assms(3) this]
  have "List.find ?P (map (\<lambda>x. if acct_id x = acct_id a' then a' else x) (db_accounts db)) = Some a'"
    using assms(1) by (simp add: accounts_ok_def)
  then show ?thesis using l by (simp add: getUserByEmailAddress_def of_kind_saved save_account_def [of a'] of_kind_saved [unfolded save_account_def])
qed

lemma found_published: "getUserByEmailAddress k name (publish e db) = getUserByEmailAddress k name db"
  by (cases k) (simp_all add: getUserByEmailAddress_def of_kind_def publish_def)

section \<open>Logging in\<close>

lemma login_iff:
  "authenticate_native cfg k name pw db = Inr (Inr a) \<longleftrightarrow>
     getUserByEmailAddress k name db = Inr (Some a) \<and> verifyUserPassword cfg (acct_id a) pw db \<and> \<not> login_refused cfg native_strategy a"
  by (auto simp: authenticate_native_def native_authenticate_def bind_result_Inr split: option.splits if_splits)

lemma password_checked:
  "verifyUserPassword cfg i pw db \<longleftrightarrow> password_of i db \<noteq> [] \<and> cfg_check cfg pw (password_of i db)"
  by (auto simp: verifyUserPassword_def password_of_def hash_of_def Let_def split: option.splits Option.bind_splits)

lemma refused_native:
  "login_refused cfg native_strategy a \<longleftrightarrow>
     \<not> acct_verified a \<and> (requireVerification cfg \<or> (\<exists>m. getNativeAuthenticationMethod a = Some m \<and> nm_verificationToken m \<noteq> None))"
  by (auto simp: login_refused_def Let_def split: option.splits)

section \<open>Registering\<close>

definition customer_users :: "accounts_db \<Rightarrow> ID set" where
  "customer_users db = {i. \<exists>c \<in> set (db_customers db). cust_userId c = Some i}"

lemma customer_users_saved: "customer_users (save_customer c db) \<subseteq> customer_users db \<union> set_option (cust_userId c)"
  by (auto simp: customer_users_def save_customer_def split: if_split_asm)

lemma saved_customer_in: "x \<in> set (db_customers db) \<Longrightarrow> cust_id c = cust_id x \<Longrightarrow> c \<in> set (db_customers (save_customer c db))"
  by (force simp: save_customer_def)

lemma upserted_row:
  assumes "normalizeEmailAddress email = Inr name"
  obtains c d where "createOrUpdate ctx email False db = Inr (Inr c, d)" and "db_accounts d = db_accounts db"
    and "db_nextId db \<le> db_nextId d" and "db_administrators d = db_administrators db" and "c \<in> set (db_customers d)"
    and "cust_deletedAt c = None" and "customer_users d \<subseteq> customer_users db"
proof (cases "findCustomerByEmail name db")
  case None
  show thesis
    by (rule that [of "fst (insert_customer ctx name None db)" "snd (insert_customer ctx name None db)"])
      (auto simp: createOrUpdate_def assms None insert_customer_def Let_def customer_users_def)
next
  case (Some x)
  have x: "x \<in> set (db_customers db)" "cust_deletedAt x = None" using Some by (auto simp: findCustomerByEmail_def dest: find_Some_in)
  let ?c = "add_channel (actx_channelId ctx) x"
  have c: "cust_id ?c = cust_id x" "cust_userId ?c = cust_userId x" "cust_deletedAt ?c = cust_deletedAt x"
    by (simp_all add: add_channel_def)
  have "set_option (cust_userId ?c) \<subseteq> customer_users db" using x c by (auto simp: customer_users_def)
  then have "customer_users (save_customer ?c db) \<subseteq> customer_users db" using customer_users_saved [of ?c db] by blast
  then show thesis
    by (intro that [of ?c "save_customer ?c db"])
      (use x c saved_customer_in [OF x(1) c(1)] in \<open>simp_all add: createOrUpdate_def assms Some Let_def save_customer_def\<close>)
qed

lemma saved_last:
  assumes "db_accounts db = xs @ [b]" and "acct_id b = acct_id a" and "acct_id a \<notin> acct_id ` set xs"
  shows "save_account a db = db\<lparr>db_accounts := xs @ [a]\<rparr>"
proof -
  have "acct_id x \<noteq> acct_id a" if "x \<in> set xs" for x using assms(3) that by (metis image_eqI)
  then have "map (\<lambda>x. if acct_id x = acct_id a then a else x) xs = xs" by (intro map_idI) simp
  then show ?thesis by (simp add: save_account_def assms(1,2))
qed

text \<open>The user a registration leaves behind.\<close>

definition pending_user :: "ID \<Rightarrow> string \<Rightarrow> string \<Rightarrow> string option \<Rightarrow> bool \<Rightarrow> account" where
  "pending_user i name hash t v =
     \<lparr>acct_id = i, acct_deletedAt = None, acct_identifier = name, acct_verified = v, acct_methods = [Native (new_native name hash t)]\<rparr>"

lemma registered_row:
  assumes "accounts_ok db" and "requireVerification cfg" and "pw \<noteq> []" and "cfg_validatePassword cfg pw = Inr ()"
    and "getUserByEmailAddress (actx_kind ctx) email db = Inr None" and "normalizeEmailAddress email = Inr name"
  obtains i db1 c where "registerCustomerAccount cfg ctx t1 t2 salt email (Some pw) db = Inr (Inr (), db1)"
    and "db_accounts db1 = db_accounts db @ [pending_user i name (cfg_hash cfg salt pw) (Some t2) False]"
    and "i \<notin> account_ids db" and "accounts_ok db1" and "c \<in> set (db_customers db1)" and "cust_userId c = Some i"
    and "cust_deletedAt c = None" and "customer_users db1 \<subseteq> insert i (customer_users db)"
proof -
  obtain c d where c: "createOrUpdate ctx email False db = Inr (Inr c, d)" "db_accounts d = db_accounts db"
    "db_nextId db \<le> db_nextId d" "c \<in> set (db_customers d)" "cust_deletedAt c = None" "customer_users d \<subseteq> customer_users db"
    using upserted_row [OF assms(6)] by metis
  let ?i = "db_nextId d" and ?u = "\<lambda>t. pending_user (db_nextId d) name (cfg_hash cfg salt pw) (Some t) False"
  have new: "?i \<notin> account_ids db" using assms(1) c(3) by (auto simp: accounts_ok_def list_all_iff)
  let ?d = "\<lambda>t. d\<lparr>db_nextId := Suc ?i, db_accounts := db_accounts db @ [?u t]\<rparr>"
  have again: "save_account (?u t) (?d t') = ?d t" for t t'
    using saved_last [of "?d t'" "db_accounts db" "?u t'" "?u t"] new by (simp add: pending_user_def)
  have user: "createCustomerUser cfg t1 salt email (Some pw) d = Inr (Inr (?u t1), ?d t1)"
    using assms by (simp add: createCustomerUser_def addNativeAuthenticationMethod_def validatePassword_def given_def pending_user_def c(2))
  have token: "setVerificationToken t2 (?u t1) (?d t1) = Inr (Inr (?u t2), ?d t2)"
    using again [of t2 t1]
    by (simp add: setVerificationToken_def native_or_throw_def set_native_def pending_user_def new_native_def Let_def)
  let ?c = "c\<lparr>cust_userId := Some ?i\<rparr>" and ?db1 = "publish (AccountRegistrationEvent (?u t2)) (save_customer (c\<lparr>cust_userId := Some ?i\<rparr>) (?d t2))"
  have run: "registerCustomerAccount cfg ctx t1 t2 salt email (Some pw) db = Inr (Inr (), ?db1)"
    using assms(2-5) c(1) user token again [of t2 t2]
    by (simp add: registerCustomerAccount_def complete_registration_def bind_answer_def given_def addNativeAuthenticationMethod_def
        pending_user_def Let_def)
  have "customer_users (?d t2) = customer_users d" by (simp add: customer_users_def)
  then have users: "customer_users ?db1 \<subseteq> insert ?i (customer_users db)"
    using customer_users_saved [of ?c "?d t2"] c(6) by (auto simp: customer_users_def publish_def)
  have ok: "accounts_ok ?db1"
    using assms(1) new c(3) by (auto simp: accounts_ok_def list_all_iff pending_user_def is_native_def)
  show thesis
    by (rule that [where c = ?c, OF run _ new ok _ _ _ users])
      (use c saved_customer_in [of c "?d t2" ?c] in \<open>simp_all add: publish_def save_customer_def\<close>)
qed

section \<open>Verifying and logging in for the first time\<close>

lemma find_appended: "List.find P (xs @ ys) = (case List.find P xs of None \<Rightarrow> List.find P ys | Some x \<Rightarrow> Some x)"
  by (induction xs) auto

lemma verified_row:
  assumes "db_accounts db1 = accts @ [pending_user i name hash (Some t) False]" and "i \<notin> acct_id ` set accts" and "hash \<noteq> []"
    and "List.find (\<lambda>a. list_ex (\<lambda>m. case m of Native n \<Rightarrow> nm_verificationToken n = Some t | External s \<Rightarrow> False) (acct_methods a)) accts = None"
    and "cfg_verifyToken cfg now t" and "c \<in> set (db_customers db1)" and "cust_userId c = Some i" and "cust_deletedAt c = None"
  obtains db2 c' where "verifyCustomerEmailAddress cfg ctx now salt t None db1 = Inr (Inr c', db2)"
    and "db_accounts db2 = accts @ [pending_user i name hash None True]" and "i \<in> customer_users db2"
    and "customer_users db2 \<subseteq> customer_users db1"
proof -
  let ?u = "pending_user i name hash None True"
  let ?d = "db1\<lparr>db_accounts := accts @ [?u]\<rparr>"
  have saved: "save_account ?u db1 = ?d"
    by (rule saved_last [OF assms(1)]) (use assms(2) in \<open>simp_all add: pending_user_def\<close>)
  have user: "verifyUserByToken cfg now salt t None db1 = Inr (Inr ?u, ?d)"
    using assms(3-5) saved
    by (simp add: verifyUserByToken_def find_by_native_def assms(1) find_appended pending_user_def new_native_def native_or_throw_def
        applyVerificationPassword_def given_def set_native_def Let_def)
  have "findOneByUserId None i ?d \<noteq> None" using assms(6-8) by (auto simp: findOneByUserId_def find_None_iff)
  then obtain x where x: "findOneByUserId None i ?d = Some x" by auto
  have row: "x \<in> set (db_customers ?d)" "cust_userId x = Some i"
    using x by (auto simp: findOneByUserId_def dest: find_Some_in)
  let ?x = "add_channel (actx_channelId ctx) x"
  let ?db2 = "publish (AccountVerifiedEvent (cust_id ?x)) (save_customer ?x ?d)"
  have keys: "cust_id ?x = cust_id x" "cust_userId ?x = Some i" using row by (simp_all add: add_channel_def)
  have run: "verifyCustomerEmailAddress cfg ctx now salt t None db1 = Inr (Inr ?x, ?db2)"
    using x by (simp add: verifyCustomerEmailAddress_def bind_answer_def user) (simp add: pending_user_def Let_def)
  have same: "customer_users ?d = customer_users db1" by (simp add: customer_users_def)
  have "customer_users (publish e d) = customer_users d" for e d by (simp add: customer_users_def publish_def)
  moreover have "i \<in> customer_users db1" using assms(6,7) by (auto simp: customer_users_def)
  ultimately have "customer_users ?db2 \<subseteq> customer_users db1"
    using customer_users_saved [of ?x ?d] keys same by auto
  moreover have "i \<in> customer_users ?db2"
    using saved_customer_in [OF row(1) keys(1)] keys(2) by (auto simp: customer_users_def publish_def)
  ultimately show thesis by (intro that [OF run]) simp_all
qed

lemma first_login:
  assumes "getUserByEmailAddress customer_kind email db = Inr None"
    and "isEmailAddressLike email = Inr True" and "normalizeEmailAddress email = Inr name"
    and "db_accounts db2 = db_accounts db @ [pending_user i name hash None True]" and "i \<notin> account_ids db"
    and "i \<in> customer_users db2" and "customer_users db2 \<subseteq> insert i (customer_users db)"
  shows "getUserByEmailAddress customer_kind email db2 = Inr (Some (pending_user i name hash None True))"
proof -
  let ?u = "pending_user i name hash None True"
  let ?P = "\<lambda>d a. acct_deletedAt a = None \<and> of_kind customer_kind d a \<and> toLowerCase (acct_identifier a) = name"
  have name: "toLowerCase name = name" using assms(2,3) by (auto simp: normalizeEmailAddress_def)
  have kind: "of_kind customer_kind d a \<longleftrightarrow> acct_id a \<in> customer_users d" for d a
    by (auto simp: of_kind_def customer_users_def list_ex_iff)
  have "List.find (?P db) (db_accounts db) = None" using assms(1-3) by (simp add: getUserByEmailAddress_def)
  then have none: "\<not> ?P db a" if "a \<in> set (db_accounts db)" for a using that by (auto simp: find_None_iff)
  have "\<not> ?P db2 a" if "a \<in> set (db_accounts db)" for a using none [OF that] that assms(5,7) by (auto simp: kind)
  then have "List.find (?P db2) (db_accounts db) = None" by (auto simp: find_None_iff)
  moreover have "?P db2 ?u" using assms(6) name kind [of db2 ?u] by (simp add: pending_user_def)
  ultimately have "List.find (?P db2) (db_accounts db2) = Some ?u" by (simp add: assms(4) find_appended)
  then show ?thesis using assms(2,3) by (simp add: getUserByEmailAddress_def)
qed

section \<open>Claims\<close>

text \<open>
  C11: Over any run of the customer-account calls, whoever makes them (registrations with the address of the
  account, refreshed tokens, resets asked for, addresses changed and customers made or removed by
  administrators among them), the stored password of an existing account stays what it was, unless one of
  the calls is entitled: it presents a valid token of a reset that the account awaits, or the present password,
  or, while the account has no password, its valid verification token, or is an administrator's
  verification of the customer.
\<close>

theorem password_changes_entitled:
  assumes "accounts_ok db" and "i \<in> acct_id ` set (db_accounts db)" and "never_entitled cfg i cs db"
  shows "password_of i (account_run cfg cs db) = password_of i db"
  using run_keeps [OF assms] by blast

text \<open>
  C12: After any run of calls none of which is entitled to set the password of an account, a native login
  succeeds for that account only with a password that matches the hash stored before the run, which is not
  empty, and only if the account is not deleted and is verified, or verification is not required and
  no verification of its credential is pending. So registering with the address of an account made
  by another way of logging in does not give access to it.
\<close>

theorem login_after_run:
  assumes "accounts_ok db" and "i \<in> acct_id ` set (db_accounts db)" and "never_entitled cfg i cs db"
    and "authenticate_native cfg k name pw (account_run cfg cs db) = Inr (Inr a)" and "acct_id a = i"
  shows "password_of i db \<noteq> [] \<and> cfg_check cfg pw (password_of i db) \<and> acct_deletedAt a = None \<and>
    (acct_verified a \<or> \<not> requireVerification cfg \<and> \<not> native_in i (\<lambda>m. nm_verificationToken m \<noteq> None) (account_run cfg cs db))"
proof -
  let ?db = "account_run cfg cs db"
  have ok: "accounts_ok ?db" and same: "password_of i ?db = password_of i db" using run_keeps [OF assms(1-3)] by auto
  have found: "getUserByEmailAddress k name ?db = Inr (Some a)" and "verifyUserPassword cfg i pw ?db"
    and gate: "\<not> login_refused cfg native_strategy a"
    using assms(4,5) by (auto simp: login_iff)
  then have "password_of i db \<noteq> [] \<and> cfg_check cfg pw (password_of i db)" by (simp add: password_checked same)
  moreover have "acct_deletedAt a = None"
    using found by (auto simp: getUserByEmailAddress_def bind_result_Inr dest: find_Some_in)
  moreover have "find_account i ?db = Some a" using found_by_email [OF ok found] assms(5) by (simp add: in_db_def)
  ultimately show ?thesis using gate by (auto simp: refused_native native_in_def split: option.split_asm)
qed

text \<open>
  C21: A reset of the password serves its purpose: once it has succeeded, its user, who was found by
  the name before, logs in by that name with the new password, also when the account was not verified before;
  and the account no longer awaits the token, which cannot be used for it again.
\<close>

theorem reset_completes:
  assumes "accounts_ok db" and "resetPassword cfg ctx now salt token pw db = Inr (Inr u, db')"
    and "getUserByEmailAddress k name db = Inr (Some a)" and "acct_id a = acct_id u"
    and "cfg_check cfg pw (cfg_hash cfg salt pw)" and "cfg_hash cfg salt pw \<noteq> []"
  shows "authenticate_native cfg k name pw db' = Inr (Inr u) \<and> \<not> native_in (acct_id u) (\<lambda>m. nm_passwordResetToken m = Some token) db'"
proof -
  obtain db1 where run: "resetPasswordByToken cfg now salt token pw db = Inr (Inr u, db1)"
    and db': "db' = publish (PasswordResetVerifiedEvent u) db1"
    using assms(2) by (auto simp: resetPassword_def bind_answer_Inr no_customer_def split: if_split_asm)
  obtain x m where x: "find_by_native (\<lambda>m. nm_passwordResetToken m = Some token) db = Some x"
    and m: "getNativeAuthenticationMethod x = Some m"
    and u: "u = (set_native (m\<lparr>nm_passwordHash := cfg_hash cfg salt pw, nm_passwordResetToken := None, nm_verificationToken := None\<rparr>) x)
          \<lparr>acct_verified := acct_verified x \<or> requireVerification cfg\<rparr>" (is "_ = set_native ?m x\<lparr>acct_verified := _\<rparr>")
    and db1: "db1 = save_account u db"
    using run by (auto simp: resetPasswordByToken_def bind_result_Inr native_or_throw_Inr Let_def split: option.split_asm if_split_asm)
  have "in_db x db" "in_db a db" using found_by_native [OF assms(1) x] found_by_email [OF assms(1,3)] by auto
  then have "x = a" using assms(4) u by (simp add: in_db_def set_native_def)
  have native: "getNativeAuthenticationMethod u = Some ?m" using native_of_set [OF m] by (simp add: u set_native_def)
  have saved: "in_db u db1"
    using saved_native [OF assms(1) \<open>in_db x db\<close> m, of ?m "{acct_id x}" u] by (simp add: db1 u set_native_def)
  have "getUserByEmailAddress k name db1 = Inr (Some u)"
    unfolding db1 by (rule found_again [OF assms(1,3)]) (simp_all add: u set_native_def \<open>x = a\<close>)
  then have "getUserByEmailAddress k name db' = Inr (Some u)"
    by (simp add: db' found_published)
  moreover have "find_account (acct_id u) db' = Some u" using saved by (simp add: db' in_db_def find_account_def)
  moreover have "acct_verified u \<or> \<not> requireVerification cfg" by (auto simp: u)
  ultimately show ?thesis
    using native assms(5,6) by (simp add: login_iff password_checked password_of_def hash_of_def refused_native native_in_def)
qed

text \<open>
  C37: Confirming a change of the email address does not ask again whether the address is free: with a valid
  token the account takes the pending address, and every other account keeps its own, also one that has
  taken that address since the change was requested. Two accounts can so come to have the same identifier.
\<close>

theorem confirmed_change_not_rechecked:
  assumes "accounts_ok db" and "find_by_native (\<lambda>m. nm_identifierChangeToken m = Some token) db = Some a"
    and "getNativeAuthenticationMethod a = Some m" and "nm_pendingIdentifier m = Some email" and "email \<noteq> []"
    and "cfg_verifyToken cfg now token" and "b \<in> set (db_accounts db)" and "acct_identifier b = email" and "acct_id b \<noteq> acct_id a"
  shows "\<exists>db' a'. updateEmailAddress cfg ctx now token db =
      Inr (Inr (findOneByUserId (Some (actx_channelId ctx)) (acct_id a) db \<noteq> None), db') \<and>
    find_account (acct_id a) db' = Some a' \<and> find_account (acct_id b) db' = Some b \<and>
    acct_identifier a' = email \<and> acct_identifier b = email"
proof -
  define a' where "a' = (set_native (m\<lparr>nm_identifier := email, nm_identifierChangeToken := None, nm_pendingIdentifier := None\<rparr>) a)
    \<lparr>acct_identifier := email\<rparr>"
  let ?db = "save_account a' db"
  have a: "in_db a db" using found_by_native [OF assms(1,2)] by blast
  have id: "acct_id a' = acct_id a" by (simp add: a'_def set_native_def)
  have k: "keeps {acct_id a} db ?db" and a': "in_db a' ?db"
    using saved_native [OF assms(1) a assms(3), of "m\<lparr>nm_identifier := email, nm_identifierChangeToken := None, nm_pendingIdentifier := None\<rparr>"
        "{acct_id a}" a'] by (auto simp: a'_def set_native_def)
  have "b \<in> set (db_accounts ?db)" using assms(7,9) id by (force simp: save_account_def)
  then have b: "find_account (acct_id b) ?db = Some b" by (simp add: find_account_iff [OF keeps_ok [OF k]])
  have change: "changeIdentifierByToken cfg now token db = Inr (Inr (a', acct_identifier a), ?db)"
    using assms(2-6) by (simp add: changeIdentifierByToken_def native_or_throw_def given_def a'_def Let_def)
  have ident: "acct_identifier a' = email" by (simp add: a'_def)
  have customers: "findOneByUserId ch i ?db = findOneByUserId ch i db" for ch i
    by (simp add: findOneByUserId_def save_account_def)
  have same: "find_account i (save_customer c (publish e d)) = find_account i d" for i c e d by (simp add: find_account_def)
  show ?thesis
    using change b a' assms(8) id ident
    by (cases "findOneByUserId (Some (actx_channelId ctx)) (acct_id a) db")
      (auto simp: updateEmailAddress_def bind_answer_def customers same in_db_def)
qed

text \<open>
  C20: Registering leads to an account one can use. Where verification is required and no account has the
  address, the three steps of a new customer succeed one after the other: the registration with an accepted
  password, the verification of the address with the second of the generated tokens (the first is replaced), if it is
  valid and no other credential carries it, and the login with the address and the password, which
  is the login of the new, verified account.
\<close>

theorem registration_completes:
  assumes "accounts_ok db" and "requireVerification cfg" and "pw \<noteq> []" and "cfg_validatePassword cfg pw = Inr ()"
    and "actx_kind ctx = customer_kind" and "getUserByEmailAddress customer_kind email db = Inr None"
    and "isEmailAddressLike email = Inr True" and "cfg_verifyToken cfg now t2"
    and "find_by_native (\<lambda>m. nm_verificationToken m = Some t2) db = None"
    and "cfg_hash cfg salt pw \<noteq> []" and "cfg_check cfg pw (cfg_hash cfg salt pw)"
  shows "\<exists>db1 c db2 a. registerCustomerAccount cfg ctx t1 t2 salt email (Some pw) db = Inr (Inr (), db1) \<and>
    verifyCustomerEmailAddress cfg ctx now salt2 t2 None db1 = Inr (Inr c, db2) \<and>
    authenticate_native cfg customer_kind email pw db2 = Inr (Inr a) \<and> acct_verified a \<and>
    acct_id a \<notin> acct_id ` set (db_accounts db)"
proof -
  obtain name where name: "normalizeEmailAddress email = Inr name" using assms(7) by (simp add: normalizeEmailAddress_def)
  obtain i db1 c where r: "registerCustomerAccount cfg ctx t1 t2 salt email (Some pw) db = Inr (Inr (), db1)"
      "db_accounts db1 = db_accounts db @ [pending_user i name (cfg_hash cfg salt pw) (Some t2) False]"
      "i \<notin> account_ids db" "accounts_ok db1" "c \<in> set (db_customers db1)" "cust_userId c = Some i"
      "cust_deletedAt c = None" "customer_users db1 \<subseteq> insert i (customer_users db)"
    using registered_row [OF assms(1-4) _ name] assms(5,6) by metis
  obtain db2 c' where v: "verifyCustomerEmailAddress cfg ctx now salt2 t2 None db1 = Inr (Inr c', db2)"
      "db_accounts db2 = db_accounts db @ [pending_user i name (cfg_hash cfg salt pw) None True]" "i \<in> customer_users db2"
      "customer_users db2 \<subseteq> customer_users db1"
    using verified_row [OF r(2,3) assms(10) assms(9) [unfolded find_by_native_def] assms(8) r(5-7)] by metis
  let ?u = "pending_user i name (cfg_hash cfg salt pw) None True"
  have found: "getUserByEmailAddress customer_kind email db2 = Inr (Some ?u)"
    by (rule first_login [OF assms(6,7) name v(2) r(3) v(3)]) (use v(4) r(8) in blast)
  have "find_account i db2 = Some ?u"
    using r(3) by (auto simp: find_account_def v(2) find_appended pending_user_def find_None_iff split: option.split dest: find_Some_in)
  then have "verifyUserPassword cfg i pw db2"
    using assms(10,11) by (simp add: password_checked password_of_def hash_of_def pending_user_def new_native_def)
  then have "authenticate_native cfg customer_kind email pw db2 = Inr (Inr ?u)"
    using found by (simp add: login_iff refused_native) (simp add: pending_user_def)
  then show ?thesis using r(1,3) v(1) by (auto simp: pending_user_def)
qed

section \<open>A shop\<close>

definition shop_config :: auth_config where
  "shop_config =
     \<lparr>requireVerification = True, cfg_validatePassword = (\<lambda>p. if length p < 2 then Inl ''too short'' else Inr ()),
      cfg_hash = (\<lambda>salt p. CHR ''#'' # p), cfg_check = (\<lambda>p h. h = CHR ''#'' # p),
      cfg_verifyToken = (\<lambda>now t. now < 100), cfg_dummyHash = ''#dummy''\<rparr>"

definition shop_native :: "string \<Rightarrow> native_method" where
  "shop_native name = new_native name ''#pw'' None"

text \<open>Customer 1 logs in elsewhere, 2 has a password and waits to reset it, 3 and 4 do too, and 3 is about to take the address of 4.\<close>

definition shop_accounts :: accounts_db where
  "shop_accounts =
     \<lparr>db_accounts =
        [\<lparr>acct_id = 1, acct_deletedAt = None, acct_identifier = ''a@v.io'', acct_verified = True, acct_methods = [External ''ext'']\<rparr>,
         \<lparr>acct_id = 2, acct_deletedAt = None, acct_identifier = ''b@v.io'', acct_verified = True,
          acct_methods = [Native ((shop_native ''b@v.io'')\<lparr>nm_passwordResetToken := Some ''r''\<rparr>)]\<rparr>,
         \<lparr>acct_id = 3, acct_deletedAt = None, acct_identifier = ''c@v.io'', acct_verified = True,
          acct_methods = [Native ((shop_native ''c@v.io'')\<lparr>nm_identifierChangeToken := Some ''i'', nm_pendingIdentifier := Some ''d@v.io''\<rparr>)]\<rparr>,
         \<lparr>acct_id = 4, acct_deletedAt = None, acct_identifier = ''d@v.io'', acct_verified = True,
          acct_methods = [Native (shop_native ''d@v.io'')]\<rparr>],
      db_customers = map (\<lambda>(c, u, e). \<lparr>cust_id = c, cust_email = e, cust_deletedAt = None, cust_userId = Some u, cust_channels = [1]\<rparr>)
        [(11, 1, ''a@v.io''), (12, 2, ''b@v.io''), (13, 3, ''c@v.io''), (14, 4, ''d@v.io'')],
      db_administrators = [], db_nextId = 20, db_events = []\<rparr>"

definition accounts_context :: account_context where
  "accounts_context = \<lparr>actx_kind = customer_kind, actx_channelId = 1, actx_defaultChannelId = 1\<rparr>"

text \<open>What one can try from outside: register with the addresses, ask for tokens, guess them.\<close>

definition outside_calls :: "account_call list" where
  "outside_calls =
     [Register accounts_context ''t'' ''u'' ''s'' ''a@v.io'' (Some ''evil''), Register accounts_context ''t'' ''u'' ''s'' ''B@v.io'' (Some ''evil''),
      Refresh_token accounts_context ''w'' ''b@v.io'', Request_reset accounts_context ''x'' ''b@v.io'',
      Reset_password accounts_context 5 ''s'' ''guess'' ''evil'', Verify_email accounts_context 5 ''s'' ''guess'' (Some ''evil''),
      Update_password ''s'' 2 ''wrong'' ''evil'']"

lemma shop_ok: "accounts_ok shop_accounts" and shop_ids: "2 \<in> acct_id ` set (db_accounts shop_accounts)"
  by code_simp+

lemma outside_not_entitled: "never_entitled shop_config 2 outside_calls shop_accounts"
  by code_simp

lemma password_changes_entitled_witness:
  "password_of 2 (account_run shop_config outside_calls shop_accounts) = ''#pw''"
proof -
  have "password_of 2 shop_accounts = ''#pw''" by code_simp
  then show ?thesis using password_changes_entitled [OF shop_ok shop_ids outside_not_entitled] by simp
qed

lemma login_after_run_witness:
  "cfg_check shop_config ''pw'' (password_of 2 shop_accounts) \<and>
   (\<exists>a. authenticate_native shop_config customer_kind ''b@v.io'' ''pw'' (account_run shop_config outside_calls shop_accounts) = Inr (Inr a))"
proof -
  have "(case authenticate_native shop_config customer_kind ''b@v.io'' ''pw'' (account_run shop_config outside_calls shop_accounts) of
      Inr (Inr a) \<Rightarrow> acct_id a = 2 | _ \<Rightarrow> False)" by code_simp
  then obtain a where "authenticate_native shop_config customer_kind ''b@v.io'' ''pw'' (account_run shop_config outside_calls shop_accounts) = Inr (Inr a)"
    and "acct_id a = 2" by (auto split: sum.split_asm)
  from this(1) login_after_run [OF shop_ok shop_ids outside_not_entitled this] show ?thesis by blast
qed

definition reset_answer :: "account answer" where
  "reset_answer = resetPassword shop_config accounts_context 5 ''s'' ''r'' ''new pw'' shop_accounts"

lemma reset_completes_witness:
  "\<exists>u db'. reset_answer = Inr (Inr u, db') \<and>
     authenticate_native shop_config customer_kind ''B@v.io'' ''new pw'' db' = Inr (Inr u)"
proof -
  have "case reset_answer of Inr (Inr u, db') \<Rightarrow> acct_id u = 2 | _ \<Rightarrow> False" by code_simp
  then obtain u db' where run: "reset_answer = Inr (Inr u, db')" and u: "acct_id u = 2"
    by (auto split: sum.split_asm prod.split_asm)
  have "case getUserByEmailAddress customer_kind ''B@v.io'' shop_accounts of Inr (Some a) \<Rightarrow> acct_id a = 2 | _ \<Rightarrow> False" by code_simp
  then obtain a where a: "getUserByEmailAddress customer_kind ''B@v.io'' shop_accounts = Inr (Some a)" "acct_id a = acct_id u"
    using u by (auto split: sum.split_asm option.split_asm)
  show ?thesis
    using reset_completes [OF shop_ok run [unfolded reset_answer_def] a] run by (auto simp: shop_config_def)
qed

text \<open>Customer 3 takes the address that customer 4 has registered in the meantime.\<close>

lemma confirmed_change_not_rechecked_witness:
  "\<exists>db' a b. updateEmailAddress shop_config accounts_context 5 ''i'' shop_accounts = Inr (Inr True, db') \<and>
     find_account 3 db' = Some a \<and> find_account 4 db' = Some b \<and> acct_identifier a = ''d@v.io'' \<and> acct_identifier b = ''d@v.io''"
proof -
  define a where "a = db_accounts shop_accounts ! 2"
  define b where "b = db_accounts shop_accounts ! 3"
  have "find_by_native (\<lambda>m. nm_identifierChangeToken m = Some ''i'') shop_accounts = Some a" unfolding a_def by code_simp
  moreover have "getNativeAuthenticationMethod a = Some ((shop_native ''c@v.io'')
      \<lparr>nm_identifierChangeToken := Some ''i'', nm_pendingIdentifier := Some ''d@v.io''\<rparr>)" unfolding a_def by code_simp
  moreover have "b \<in> set (db_accounts shop_accounts)" "acct_identifier b = ''d@v.io''" "acct_id b = 4" "acct_id a = 3"
    unfolding a_def b_def by code_simp+
  moreover have "findOneByUserId (Some (actx_channelId accounts_context)) 3 shop_accounts \<noteq> None" by code_simp
  moreover have "cfg_verifyToken shop_config 5 ''i''" by code_simp
  ultimately show ?thesis
    using confirmed_change_not_rechecked [OF shop_ok, of "''i''" a _ "''d@v.io''" shop_config 5 b accounts_context] by auto
qed

lemma registration_completes_witness:
  "\<exists>db1 c db2 a. registerCustomerAccount shop_config accounts_context ''t'' ''u'' ''s'' ''New@v.io'' (Some ''pw'') shop_accounts = Inr (Inr (), db1) \<and>
     verifyCustomerEmailAddress shop_config accounts_context 5 ''s'' ''u'' None db1 = Inr (Inr c, db2) \<and>
     authenticate_native shop_config customer_kind ''New@v.io'' ''pw'' db2 = Inr (Inr a) \<and> acct_verified a"
proof -
  have "getUserByEmailAddress customer_kind ''New@v.io'' shop_accounts = Inr None" by code_simp
  moreover have "isEmailAddressLike ''New@v.io'' = Inr True" by code_simp
  moreover have "find_by_native (\<lambda>m. nm_verificationToken m = Some ''u'') shop_accounts = None" by code_simp
  moreover have "requireVerification shop_config" "actx_kind accounts_context = customer_kind" "cfg_validatePassword shop_config ''pw'' = Inr ()"
    "cfg_verifyToken shop_config 5 ''u''" "cfg_hash shop_config ''s'' ''pw'' \<noteq> []"
    "cfg_check shop_config ''pw'' (cfg_hash shop_config ''s'' ''pw'')" by (simp_all add: shop_config_def accounts_context_def)
  ultimately show ?thesis
    using registration_completes [OF shop_ok, of shop_config "''pw''" accounts_context "''New@v.io''" 5 "''u''" "''s''" "''t''" "''s''"] by auto
qed

end
