(* ===== verification/Money.thy ===== *)
theory Money
  imports Prelude
begin

text \<open>
  Money: \<^verbatim>\<open>common/round-money.ts\<close>, \<^verbatim>\<open>common/tax-utils.ts\<close>, the default money
  strategy and the proration of an amount over weights
  (\<^verbatim>\<open>service/helpers/order-calculator/prorate.ts\<close>). A stored amount is an integer number of
  minor units; an intermediate value is an exact rational, where the code has a double. The
  theorems are therefore about the arithmetic the code writes, not about binary rounding.
\<close>

section \<open>Rounding\<close>

definition math_round :: "rat \<Rightarrow> int" where
  "math_round x = \<lfloor>x + 1 / 2\<rfloor>"

definition defaultMoneyStrategy_round :: "rat \<Rightarrow> rat \<Rightarrow> int" where
  "defaultMoneyStrategy_round value quantity = math_round (value * quantity)"

definition roundMoney :: "rat \<Rightarrow> int" where
  "roundMoney value = defaultMoneyStrategy_round value 1"

definition roundMoney_qty :: "rat \<Rightarrow> int \<Rightarrow> int" where
  "roundMoney_qty value quantity = defaultMoneyStrategy_round value (of_int quantity)"

lemma math_round_of_int [simp]: "math_round (of_int n) = n"
  unfolding math_round_def by linarith

lemma math_round_error: "\<bar>of_int (math_round x) - x\<bar> \<le> 1 / 2"
  unfolding math_round_def by linarith

lemma math_round_mono: "x \<le> y \<Longrightarrow> math_round x \<le> math_round y"
  unfolding math_round_def by (simp add: floor_mono)

lemma math_round_ge_iff: "n \<le> math_round x \<longleftrightarrow> of_int n - 1 / 2 \<le> x"
  unfolding math_round_def by (auto simp: le_floor_iff algebra_simps)

lemma math_round_nonneg: "- 1 / 2 \<le> x \<Longrightarrow> 0 \<le> math_round x"
  by (simp add: math_round_ge_iff)

lemma math_round_add_int: "math_round (x + of_int n) = math_round x + n"
  unfolding math_round_def by (metis add.commute add.left_commute floor_add_int)

lemma roundMoney_eq: "roundMoney x = math_round x"
  by (simp add: roundMoney_def defaultMoneyStrategy_round_def)

lemma roundMoney_qty_eq: "roundMoney_qty x q = math_round (x * of_int q)"
  by (simp add: roundMoney_qty_def defaultMoneyStrategy_round_def)

lemmas round_defs = roundMoney_eq roundMoney_qty_eq

section \<open>Tax arithmetic\<close>

definition taxComponentOf :: "rat \<Rightarrow> rat \<Rightarrow> rat" where
  "taxComponentOf grossPrice taxRatePc = grossPrice - grossPrice / ((100 + taxRatePc) / 100)"

definition netPriceOf :: "rat \<Rightarrow> rat \<Rightarrow> rat" where
  "netPriceOf grossPrice taxRatePc = grossPrice - taxComponentOf grossPrice taxRatePc"

definition taxPayableOn :: "rat \<Rightarrow> rat \<Rightarrow> rat" where
  "taxPayableOn netPrice taxRatePc = netPrice * (taxRatePc / 100)"

definition grossPriceOf :: "rat \<Rightarrow> rat \<Rightarrow> rat" where
  "grossPriceOf netPrice taxRatePc = netPrice + taxPayableOn netPrice taxRatePc"

lemmas tax_defs = taxComponentOf_def netPriceOf_def taxPayableOn_def grossPriceOf_def

lemma netPriceOf_eq: "netPriceOf g r = g / ((100 + r) / 100)"
  by (simp add: tax_defs)

lemma grossPriceOf_eq: "grossPriceOf n r = n * ((100 + r) / 100)"
  by (simp add: tax_defs field_simps)

lemma net_gross_inverse: "r \<noteq> - 100 \<Longrightarrow> netPriceOf (grossPriceOf n r) r = n"
proof -
  assume "r \<noteq> - 100"
  then have "100 + r \<noteq> 0" by (simp add: add_eq_0_iff)
  then show ?thesis by (simp add: netPriceOf_eq grossPriceOf_eq)
qed

lemma gross_net_inverse: "r \<noteq> - 100 \<Longrightarrow> grossPriceOf (netPriceOf g r) r = g"
proof -
  assume "r \<noteq> - 100"
  then have "100 + r \<noteq> 0" by (simp add: add_eq_0_iff)
  then show ?thesis by (simp add: netPriceOf_eq grossPriceOf_eq)
qed

lemma netPriceOf_scale: "netPriceOf (g * q) r = netPriceOf g r * q"
  by (simp add: netPriceOf_eq)

lemma grossPriceOf_scale: "grossPriceOf (n * q) r = grossPriceOf n r * q"
  by (simp add: grossPriceOf_eq)

lemma netPriceOf_zero_rate [simp]: "netPriceOf g 0 = g"
  by (simp add: netPriceOf_eq)

lemma grossPriceOf_zero_rate [simp]: "grossPriceOf n 0 = n"
  by (simp add: grossPriceOf_eq)

lemma net_le_gross: "0 \<le> r \<Longrightarrow> 0 \<le> n \<Longrightarrow> n \<le> grossPriceOf n r"
  by (simp add: tax_defs)

lemma netPriceOf_lower: "0 \<le> r \<Longrightarrow> c \<le> 0 \<Longrightarrow> c \<le> g \<Longrightarrow> c \<le> netPriceOf g r"
proof -
  assume "0 \<le> r" "c \<le> 0" "c \<le> g"
  have k: "1 \<le> (100 + r) / 100" using \<open>0 \<le> r\<close> by simp
  have "c * ((100 + r) / 100) \<le> c * 1"
    using k \<open>c \<le> 0\<close> by (intro mult_left_mono_neg) auto
  then have "c * ((100 + r) / 100) \<le> g" using \<open>c \<le> g\<close> by linarith
  then show ?thesis using k by (simp add: netPriceOf_eq pos_le_divide_eq)
qed

end
