(* ===== verification/Prorate.thy ===== *)
theory Prorate
  imports Money
begin

text \<open>
  \<^verbatim>\<open>service/helpers/order-calculator/prorate.ts\<close>: an amount is distributed over weights;
  every share is rounded down, and the units that are missing go to the shares with the largest
  rounding error. The main results: the shares always add up to the amount, and each share is
  less than one unit away from its exact proportion.
\<close>

section \<open>The code\<close>

definition prorate_total :: "rat list \<Rightarrow> rat" where
  "prorate_total weights = foldl (\<lambda>total val. total + val) 0 weights"

definition prorate_actual :: "rat list \<Rightarrow> rat \<Rightarrow> rat list" where
  "prorate_actual weights amount =
     map (\<lambda>w. if prorate_total weights = 0 then amount / of_nat (length weights)
              else amount * (w / prorate_total weights)) weights"

text \<open>The inner loop: the index of the largest positive error, \<open>-1\<close> if there is none.\<close>

fun max_error_scan :: "nat \<Rightarrow> rat list \<Rightarrow> rat \<times> int \<Rightarrow> rat \<times> int" where
  "max_error_scan e [] acc = acc"
| "max_error_scan e (x # xs) (maxError, maxErrorIndex) =
     max_error_scan (Suc e) xs
       (if maxError < x then (x, int e) else (maxError, maxErrorIndex))"

definition maxErrorIndex :: "rat list \<Rightarrow> int" where
  "maxErrorIndex error = snd (max_error_scan 0 error (0, - 1))"

text \<open>Writing to the index \<open>-1\<close> of a JavaScript array leaves its elements alone.\<close>

definition bump_at :: "int \<Rightarrow> 'n::ab_group_add \<Rightarrow> 'n list \<Rightarrow> 'n list" where
  "bump_at i d xs = (if 0 \<le> i then xs[nat i := xs ! nat i + d] else xs)"

function prorate_loop :: "rat \<Rightarrow> int list \<Rightarrow> rat list \<Rightarrow> int \<Rightarrow> int list" where
  "prorate_loop amount rounded error added =
     (if of_int added < amount
      then prorate_loop amount (bump_at (maxErrorIndex error) 1 rounded)
             (bump_at (maxErrorIndex error) (- 1) error) (added + 1)
      else rounded)"
  by pat_completeness auto
termination
proof (relation "measure (\<lambda>(amount, rounded, error, added). nat (\<lceil>amount\<rceil> - added))", goal_cases)
  case 1
  show ?case by simp
next
  case (2 amount rounded error added)
  then have "added < \<lceil>amount\<rceil>" by (simp add: less_ceiling_iff)
  then show ?case by simp
qed

declare prorate_loop.simps [simp del]

definition prorate :: "rat list \<Rightarrow> rat \<Rightarrow> int list" where
  "prorate weights amount =
     (let actual = prorate_actual weights amount;
          rounded = map floor actual;
          error = map (\<lambda>a. a - of_int \<lfloor>a\<rfloor>) actual
      in prorate_loop amount rounded error (sum_list rounded))"

section \<open>The scan\<close>

lemma max_error_scan_cases:
  "max_error_scan k xs (m, i) = (m', i') \<Longrightarrow>
     (m' = m \<and> i' = i \<and> (\<forall>x \<in> set xs. x \<le> m)) \<or>
     (\<exists>j < length xs. i' = int (k + j) \<and> m' = xs ! j \<and> m < xs ! j)"
proof (induction xs arbitrary: k m i)
  case Nil
  then show ?case by simp
next
  case (Cons x xs)
  show ?case
  proof (cases "m < x")
    case True
    with Cons.prems have "max_error_scan (Suc k) xs (x, int k) = (m', i')" by simp
    from Cons.IH [OF this] show ?thesis
    proof
      assume "m' = x \<and> i' = int k \<and> (\<forall>y \<in> set xs. y \<le> x)"
      then have "i' = int (k + 0) \<and> m' = (x # xs) ! 0 \<and> m < (x # xs) ! 0" using True by simp
      then show ?thesis by (metis length_greater_0_conv list.distinct(1))
    next
      assume "\<exists>j < length xs. i' = int (Suc k + j) \<and> m' = xs ! j \<and> x < xs ! j"
      then obtain j where "j < length xs" "i' = int (Suc k + j)" "m' = xs ! j" "x < xs ! j" by blast
      then have "Suc j < length (x # xs) \<and> i' = int (k + Suc j) \<and> m' = (x # xs) ! Suc j \<and> m < (x # xs) ! Suc j"
        using True by simp
      then show ?thesis by blast
    qed
  next
    case False
    with Cons.prems have "max_error_scan (Suc k) xs (m, i) = (m', i')" by simp
    from Cons.IH [OF this] show ?thesis
    proof
      assume "m' = m \<and> i' = i \<and> (\<forall>y \<in> set xs. y \<le> m)"
      then show ?thesis using False by auto
    next
      assume "\<exists>j < length xs. i' = int (Suc k + j) \<and> m' = xs ! j \<and> m < xs ! j"
      then obtain j where "j < length xs" "i' = int (Suc k + j)" "m' = xs ! j" "m < xs ! j" by blast
      then have "Suc j < length (x # xs) \<and> i' = int (k + Suc j) \<and> m' = (x # xs) ! Suc j \<and> m < (x # xs) ! Suc j"
        by simp
      then show ?thesis by blast
    qed
  qed
qed

lemma sum_list_pos_ex: "(0::rat) < sum_list xs \<Longrightarrow> \<exists>x \<in> set xs. 0 < x"
  by (induction xs) (auto simp: not_less, fastforce)

lemma maxErrorIndex_positive:
  assumes "0 < sum_list error"
  obtains j where "j < length error" "maxErrorIndex error = int j" "0 < error ! j"
proof -
  obtain m i where mi: "max_error_scan 0 error (0, - 1) = (m, i)" by fastforce
  from assms obtain x where "x \<in> set error" "0 < x" using sum_list_pos_ex by blast
  with max_error_scan_cases [OF mi] show thesis
    by (auto simp: maxErrorIndex_def mi intro: that)
qed

section \<open>The loop\<close>

text \<open>
  The invariant of the loop, for the exact shares \<open>as\<close>: every error is the difference between
  the exact and the rounded share and stays strictly between \<open>-1\<close> and \<open>1\<close>, and the counter is
  the sum of the rounded shares.
\<close>

definition prorate_inv :: "rat list \<Rightarrow> int list \<Rightarrow> rat list \<Rightarrow> int \<Rightarrow> bool" where
  "prorate_inv as rounded error added \<longleftrightarrow>
     length rounded = length as \<and> length error = length as \<and> added = sum_list rounded \<and>
     (\<forall>i < length as. error ! i = as ! i - of_int (rounded ! i) \<and> \<bar>error ! i\<bar> < 1)"

lemma prorate_inv_error_sum:
  assumes "prorate_inv as rounded error added"
  shows "sum_list error = sum_list as - of_int added"
proof -
  have "error = map2 (\<lambda>a r. a - of_int r) as rounded"
    using assms by (intro nth_equalityI) (auto simp: prorate_inv_def)
  moreover have "length as = length rounded \<Longrightarrow>
      sum_list (map2 (\<lambda>a r. a - of_int r) as rounded) = sum_list as - of_int (sum_list rounded)"
    by (induction as rounded rule: list_induct2) simp_all
  ultimately show ?thesis using assms by (simp add: prorate_inv_def)
qed

lemma prorate_inv_step:
  assumes inv: "prorate_inv as rounded error added" and "of_int added < sum_list as"
  shows "prorate_inv as (bump_at (maxErrorIndex error) 1 rounded)
           (bump_at (maxErrorIndex error) (- 1) error) (added + 1)"
proof -
  have "0 < sum_list error" using prorate_inv_error_sum [OF inv] assms(2) by simp
  then obtain j where j: "j < length error" "maxErrorIndex error = int j" "0 < error ! j"
    by (rule maxErrorIndex_positive)
  have len: "j < length rounded" "j < length as" using inv j by (auto simp: prorate_inv_def)
  have "error ! j < 1" using inv len by (auto simp: prorate_inv_def abs_less_iff)
  then show ?thesis
    using inv j len
    by (auto simp: prorate_inv_def bump_at_def nth_list_update sum_list_update_int)
qed

lemma prorate_loop_result:
  assumes "prorate_inv as rounded error added" and "sum_list as = of_int n" and "added \<le> n"
  shows "\<exists>err. prorate_inv as (prorate_loop (of_int n) rounded error added) err n"
  using assms
proof (induction "of_int n :: rat" rounded error added rule: prorate_loop.induct)
  case (1 rounded error added)
  show ?case
  proof (cases "added < n")
    case True
    then have lt: "of_int added < (of_int n :: rat)" by simp
    have "prorate_inv as (bump_at (maxErrorIndex error) 1 rounded)
        (bump_at (maxErrorIndex error) (- 1) error) (added + 1)"
      using "1.prems" lt by (intro prorate_inv_step) auto
    from "1.hyps" [OF lt this "1.prems"(2)] True
    show ?thesis by (subst prorate_loop.simps) (simp add: lt)
  next
    case False
    with "1.prems"(3) have "added = n" by simp
    with "1.prems" show ?thesis by (subst prorate_loop.simps) auto
  qed
qed

section \<open>Results\<close>

lemma prorate_total_sum_list: "prorate_total ws = sum_list ws"
  using foldl_plus_sum_list [of "\<lambda>x. x" 0 ws] by (simp add: prorate_total_def)

lemma length_prorate_actual [simp]: "length (prorate_actual ws a) = length ws"
  by (simp add: prorate_actual_def)

lemma sum_prorate_actual:
  assumes "ws \<noteq> []"
  shows "sum_list (prorate_actual ws a) = a"
proof (cases "sum_list ws = 0")
  case True
  have "sum_list (map (\<lambda>w. a / of_nat (length ws)) ws) = of_nat (length ws) * (a / of_nat (length ws))"
    by (simp add: sum_list_triv)
  with True assms show ?thesis
    by (simp add: prorate_actual_def prorate_total_sum_list)
next
  case False
  have "sum_list (map (\<lambda>w. a * (w / s)) xs) = a * (sum_list xs / s)" for xs s :: "_"
    by (induction xs) (auto simp: field_simps add_divide_distrib)
  from this [of "sum_list ws" ws] False show ?thesis
    by (simp add: prorate_actual_def prorate_total_sum_list)
qed

lemma prorate_inv_init:
  "prorate_inv (prorate_actual ws a) (map floor (prorate_actual ws a))
     (map (\<lambda>x. x - of_int \<lfloor>x\<rfloor>) (prorate_actual ws a)) (sum_list (map floor (prorate_actual ws a)))"
  by (auto simp: prorate_inv_def) linarith

lemma sum_floor_le: "of_int (sum_list (map floor xs)) \<le> sum_list (xs :: rat list)"
  by (induction xs) (auto simp: add_mono)

lemma prorate_correct:
  assumes "ws \<noteq> []"
  shows "\<exists>err. prorate_inv (prorate_actual ws (of_int n)) (prorate ws (of_int n)) err n"
proof -
  have "of_int (sum_list (map floor (prorate_actual ws (of_int n)))) \<le> (of_int n :: rat)"
    using sum_floor_le [of "prorate_actual ws (of_int n)"] sum_prorate_actual [OF assms, of "of_int n"]
    by simp
  then show ?thesis
    unfolding prorate_def Let_def
    by (intro prorate_loop_result prorate_inv_init) (auto simp: sum_prorate_actual [OF assms])
qed

lemma prorate_empty: "prorate [] a = []"
proof -
  have "prorate_loop a [] [] k = []" for k
  proof (induction a "[] :: int list" "[] :: rat list" k rule: prorate_loop.induct)
    case (1 a k)
    then show ?case
      by (subst prorate_loop.simps) (simp add: bump_at_def maxErrorIndex_def)
  qed
  then show ?thesis by (simp add: prorate_def prorate_actual_def)
qed

lemma prorate_length [simp]: "length (prorate ws (of_int n)) = length ws"
  by (cases "ws = []") (auto simp: prorate_empty prorate_inv_def dest: prorate_correct [of ws n])

lemma prorate_sum: "ws \<noteq> [] \<Longrightarrow> sum_list (prorate ws (of_int n)) = n"
  by (auto simp: prorate_inv_def dest: prorate_correct [of ws n])

lemma prorate_close:
  assumes "i < length ws"
  shows "\<bar>prorate_actual ws (of_int n) ! i - of_int (prorate ws (of_int n) ! i)\<bar> < 1"
proof -
  have "ws \<noteq> []" using assms by auto
  from prorate_correct [OF this, of n] assms show ?thesis
    by (auto simp: prorate_inv_def)
qed

lemma prorate_zero_weight:
  assumes "i < length ws" "ws ! i = 0" "sum_list ws \<noteq> 0"
  shows "prorate ws (of_int n) ! i = 0"
proof -
  have "prorate_actual ws (of_int n) ! i = 0"
    using assms by (simp add: prorate_actual_def prorate_total_sum_list)
  with prorate_close [OF assms(1), of n] show ?thesis by simp
qed

lemma prorate_sign:
  assumes "i < length ws" "\<forall>w \<in> set ws. 0 \<le> w"
  shows "n \<le> 0 \<Longrightarrow> prorate ws (of_int n) ! i \<le> 0"
    and "0 \<le> n \<Longrightarrow> 0 \<le> prorate ws (of_int n) ! i"
proof -
  have tot: "0 \<le> sum_list ws" using assms(2) by (intro sum_list_nonneg) auto
  have w: "0 \<le> ws ! i" using assms by auto
  have q: "0 \<le> ws ! i / sum_list ws" using tot w by simp
  {
    assume "n \<le> 0"
    then have "prorate_actual ws (of_int n) ! i \<le> 0"
      using assms(1) mult_nonpos_nonneg [OF _ q, of "of_int n"]
      by (auto simp: prorate_actual_def prorate_total_sum_list divide_nonpos_nonneg)
    with prorate_close [OF assms(1), of n] show "prorate ws (of_int n) ! i \<le> 0" by linarith
  next
    assume "0 \<le> n"
    then have "0 \<le> prorate_actual ws (of_int n) ! i"
      using assms(1) mult_nonneg_nonneg [OF _ q, of "of_int n"]
      by (auto simp: prorate_actual_def prorate_total_sum_list)
    with prorate_close [OF assms(1), of n] show "0 \<le> prorate ws (of_int n) ! i" by linarith
  }
qed

end
