(* ===== verification/Entities.thy ===== *)
theory Entities
  imports Prorate
begin

text \<open>
  The entities of the order engine as records: \<^verbatim>\<open>OrderLine\<close>, \<^verbatim>\<open>ShippingLine\<close>,
  \<^verbatim>\<open>Surcharge\<close>, \<^verbatim>\<open>Payment\<close>, \<^verbatim>\<open>Refund\<close>, \<^verbatim>\<open>Fulfillment\<close>,
  \<^verbatim>\<open>Promotion\<close>, \<^verbatim>\<open>OrderModification\<close> and \<^verbatim>\<open>Order\<close>
  (\<^verbatim>\<open>packages/core/src/entity/\<close>). Relations the engine follows are nested records, relations
  it only compares are ids, and a relation the code requires to be joined is a list that is there.
  The price fields three of the entities share are one record they extend.
\<close>

section \<open>Adjustments and tax lines\<close>

datatype adjustment_type = PROMOTION | DISTRIBUTED_ORDER_PROMOTION | OTHER

text \<open>
  \<^verbatim>\<open>AdjustmentSource.getSourceId()\<close> prints the type and the id with a colon between; the pair
  is that string.
\<close>

type_synonym source_id = "adjustment_type \<times> ID"

record adjustment =
  adj_amount :: int
  adj_type :: adjustment_type
  adjustmentSource :: source_id
  adj_description :: string
  itemDistribution :: "int list"

record discount =
  disc_amount :: rat
  disc_amountWithTax :: rat
  disc_type :: adjustment_type
  disc_source :: source_id
  disc_description :: string

record tax_line =
  tl_description :: string
  tl_taxRate :: rat

text \<open>Values of custom fields, as JSON.\<close>

datatype json = JNull | JBool bool | JNum rat | JStr string | JArr "json list" | JObj "(string \<times> json) list"

section \<open>Priced lines\<close>

record taxed =
  listPrice :: int
  listPriceIncludesTax :: bool
  taxLines :: "tax_line list"

record priced = taxed +
  adjustments :: "adjustment list"

record order_line = priced +
  line_id :: ID
  quantity :: int
  orderPlacedQuantity :: int
  initialListPrice :: "int option"
  productVariantId :: ID
  taxCategoryId :: ID
  shippingLineId :: "ID option"
  sellerChannelId :: "ID option"
  line_customFields :: "(string, json) js_map option"

record shipping_line = priced +
  shipping_line_id :: ID
  shippingMethodId :: "ID option"

record surcharge = taxed +
  surcharge_id :: ID
  surcharge_description :: string
  surcharge_sku :: string

section \<open>States\<close>

datatype order_state =
    Created | Draft | AddingItems | Cancelled
  | ArrangingPayment | PaymentAuthorized | PaymentSettled
  | PartiallyShipped | Shipped | PartiallyDelivered | Delivered
  | Modifying | ArrangingAdditionalPayment

datatype payment_state =
    Payment_Created | Payment_Error | Payment_Cancelled
  | Payment_Authorized | Payment_Settled | Payment_Declined

datatype refund_state = Refund_Pending | Refund_Settled | Refund_Failed

datatype fulfillment_state =
    Fulfillment_Created | Fulfillment_Pending | Fulfillment_Cancelled
  | Fulfillment_Shipped | Fulfillment_Delivered

section \<open>Payments, refunds, fulfillments\<close>

record order_line_input =
  orderLineId :: ID
  input_quantity :: int

record refund =
  refund_id :: ID
  refund_items :: int
  refund_shipping :: int
  refund_adjustment :: int
  refund_total :: int
  refund_method :: string
  refund_reason :: "string option"
  refund_state :: refund_state
  refund_transactionId :: "string option"
  refund_lines :: "order_line_input list"
  refund_paymentId :: ID

record payment =
  payment_id :: ID
  payment_method :: string
  payment_amount :: int
  payment_state :: payment_state
  payment_errorMessage :: "string option"
  payment_transactionId :: "string option"
  refunds :: "refund list"

record fulfillment =
  fulfillment_id :: ID
  fulfillment_state :: fulfillment_state
  handlerCode :: string
  fulfillment_lines :: "order_line_input list"

section \<open>Promotions\<close>

text \<open>
  A \<^verbatim>\<open>ConfigurableOperation\<close> is the code of a condition or action with its arguments; the
  arguments are given as the values \<^verbatim>\<open>argsArrayToHash\<close> produces.
\<close>

datatype arg_value = IntArg int | FloatArg rat | BoolArg bool | IdArg ID | IdListArg "ID list" | StringArg string

record configurable_operation =
  op_code :: string
  op_args :: "(string, arg_value) js_map"

record promotion =
  promotion_id :: ID
  promotion_name :: string
  startsAt :: "int option"
  endsAt :: "int option"
  couponCode :: "string option"
  perCustomerUsageLimit :: "int option"
  usageLimit :: "int option"
  promotion_enabled :: bool
  conditions :: "configurable_operation list"
  actions :: "configurable_operation list"
  priorityScore :: int

section \<open>Orders\<close>

record order_modification =
  modification_note :: string
  priceChange :: int
  modification_payment :: "ID option"
  modification_refund :: "ID option"
  modification_lines :: "order_line_input list"
  modification_surcharges :: "ID list"

datatype order_type = Aggregate | Regular | Seller

record order =
  order_id :: ID
  order_type :: order_type
  aggregateOrderId :: "ID option"
  order_code :: string
  order_state :: order_state
  active :: bool
  orderPlacedAt :: "int option"
  pricingUpdatedAt :: "int option"
  customerId :: "ID option"
  order_lines :: "order_line list"
  surcharges :: "surcharge list"
  couponCodes :: "string list"
  promotions :: "promotion list"
  shippingCountryCode :: "string option"
  payments :: "payment list"
  fulfillments :: "fulfillment list"
  currencyCode :: string
  taxZoneId :: "ID option"
  order_channels :: "ID list"
  modifications :: "order_modification list"
  subTotal :: int
  subTotalWithTax :: int
  shippingLines :: "shipping_line list"
  shipping :: int
  shippingWithTax :: int

text \<open>The part of the \<^verbatim>\<open>RequestContext\<close> and its \<^verbatim>\<open>Channel\<close> the engine reads.\<close>

record request_context =
  ctx_now :: int
  ctx_channelId :: ID
  pricesIncludeTax :: bool
  defaultTaxZoneId :: "ID option"
  ctx_currencyCode :: string

definition order_total :: "order \<Rightarrow> int" where
  "order_total ord = subTotal ord + shipping ord"

definition totalWithTax :: "order \<Rightarrow> int" where
  "totalWithTax ord = subTotalWithTax ord + shippingWithTax ord"

definition totalQuantity :: "order \<Rightarrow> int" where
  "totalQuantity ord = summate (order_lines ord) quantity"

definition isSettled :: "order_modification \<Rightarrow> bool" where
  "isSettled m =
     (if priceChange m = 0 then True
      else modification_payment m \<noteq> None \<or> modification_refund m \<noteq> None)"

section \<open>A sample order for witnesses\<close>

definition sample_tax :: tax_line where
  "sample_tax = \<lparr>tl_description = ''standard'', tl_taxRate = 20\<rparr>"

definition sample_line :: "ID \<Rightarrow> int \<Rightarrow> int \<Rightarrow> order_line" where
  "sample_line i p q =
     \<lparr>listPrice = p, listPriceIncludesTax = False, taxLines = [sample_tax], adjustments = [],
      line_id = i, quantity = q, orderPlacedQuantity = 0, initialListPrice = Some p,
      productVariantId = i, taxCategoryId = 1, shippingLineId = None, sellerChannelId = None,
      line_customFields = Some []\<rparr>"

definition sample_order :: "order_line list \<Rightarrow> order" where
  "sample_order ls =
     \<lparr>order_id = 1, order_type = Regular, aggregateOrderId = None, order_code = ''A1'',
      order_state = AddingItems, active = True, orderPlacedAt = None, pricingUpdatedAt = None,
      customerId = Some 7, order_lines = ls, surcharges = [], couponCodes = [], promotions = [],
      shippingCountryCode = None, payments = [], fulfillments = [], currencyCode = ''USD'',
      taxZoneId = Some 1, order_channels = [1], modifications = [],
      subTotal = 0, subTotalWithTax = 0, shippingLines = [], shipping = 0, shippingWithTax = 0\<rparr>"

definition sample_ctx :: request_context where
  "sample_ctx = \<lparr>ctx_now = 1000, ctx_channelId = 1, pricesIncludeTax = False, defaultTaxZoneId = Some 1,
     ctx_currencyCode = ''USD''\<rparr>"

end
