(* ===== verification/OrderLines.thy ===== *)
theory OrderLines
  imports Entities
begin

text \<open>
  The computed properties of priced lines: \<^verbatim>\<open>entity/order-line/order-line.entity.ts\<close>,
  \<^verbatim>\<open>entity/shipping-line/shipping-line.entity.ts\<close> and
  \<^verbatim>\<open>entity/surcharge/surcharge.entity.ts\<close>. A private getter that returns an unrounded price
  is a rational (suffix \<open>_raw\<close>); a public one is rounded. The lemmas show that no adjustment a
  line accepts makes its price negative, and what rescaling does to promotions.
\<close>

section \<open>Tax rate and list prices\<close>

definition taxRate :: "'a taxed_scheme \<Rightarrow> rat" where
  "taxRate l = summate (taxLines l) tl_taxRate"

definition unitPrice_raw :: "order_line \<Rightarrow> rat" where
  "unitPrice_raw l =
     (if listPriceIncludesTax l then netPriceOf (of_int (listPrice l)) (taxRate l)
      else of_int (listPrice l))"

definition unitPriceWithTax_raw :: "order_line \<Rightarrow> rat" where
  "unitPriceWithTax_raw l =
     (if listPriceIncludesTax l then of_int (listPrice l)
      else grossPriceOf (of_int (listPrice l)) (taxRate l))"

definition unitPrice :: "order_line \<Rightarrow> int" where
  "unitPrice l = roundMoney (unitPrice_raw l)"

definition unitPriceWithTax :: "order_line \<Rightarrow> int" where
  "unitPriceWithTax l = roundMoney (unitPriceWithTax_raw l)"

text \<open>A line read before it was first priced has \<^verbatim>\<open>null\<close> as its initial price, which arithmetic reads as zero.\<close>

definition unitPriceChangeSinceAdded :: "order_line \<Rightarrow> int" where
  "unitPriceChangeSinceAdded l =
     (let initialPrice = (if listPriceIncludesTax l
                          then netPriceOf (of_int (nullish (initialListPrice l) 0)) (taxRate l)
                          else of_int (nullish (initialListPrice l) 0))
      in roundMoney (unitPrice_raw l - initialPrice))"

definition unitPriceWithTaxChangeSinceAdded :: "order_line \<Rightarrow> int" where
  "unitPriceWithTaxChangeSinceAdded l =
     (let initialPriceWithTax = (if listPriceIncludesTax l then of_int (nullish (initialListPrice l) 0)
                                 else grossPriceOf (of_int (nullish (initialListPrice l) 0)) (taxRate l))
      in roundMoney (unitPriceWithTax_raw l - initialPriceWithTax))"

section \<open>Adjustments\<close>

definition quantityBasisFor :: "order_line \<Rightarrow> adjustment \<Rightarrow> int" where
  "quantityBasisFor l a =
     (let basis = (case adj_type a of
                     PROMOTION \<Rightarrow> quantity l
                   | DISTRIBUTED_ORDER_PROMOTION \<Rightarrow> max (orderPlacedQuantity l) (quantity l)
                   | OTHER \<Rightarrow> max (orderPlacedQuantity l) (quantity l))
      in if basis = 0 then 1 else basis)"

definition adjustments_of_type :: "adjustment_type option \<Rightarrow> order_line \<Rightarrow> adjustment list" where
  "adjustments_of_type type l =
     filter (\<lambda>a. case type of Some t \<Rightarrow> adj_type a = t | None \<Rightarrow> True) (adjustments l)"

definition getUnitAdjustmentsTotal :: "order_line \<Rightarrow> adjustment_type option \<Rightarrow> rat" where
  "getUnitAdjustmentsTotal l type =
     (if quantity l = 0 then 0
      else foldl (\<lambda>total a. total + a) 0
             (map (\<lambda>a. of_int (adj_amount a) / of_int (quantityBasisFor l a))
               (adjustments_of_type type l)))"

definition getLineAdjustmentsTotal :: "order_line \<Rightarrow> bool \<Rightarrow> adjustment_type option \<Rightarrow> rat" where
  "getLineAdjustmentsTotal l withTax type =
     (if quantity l = 0 then 0
      else
        let sum = foldl (\<lambda>total a. total + a) 0
              (map (\<lambda>a. of_int (adj_amount a) / of_int (quantityBasisFor l a) * of_int (quantity l))
                (adjustments_of_type type l))
        in if withTax
           then (if listPriceIncludesTax l then sum else grossPriceOf sum (taxRate l))
           else (if listPriceIncludesTax l then netPriceOf sum (taxRate l) else sum))"

definition net_of_list :: "'a taxed_scheme \<Rightarrow> rat \<Rightarrow> rat" where
  "net_of_list l x = (if listPriceIncludesTax l then netPriceOf x (taxRate l) else x)"

definition gross_of_list :: "'a taxed_scheme \<Rightarrow> rat \<Rightarrow> rat" where
  "gross_of_list l x = (if listPriceIncludesTax l then x else grossPriceOf x (taxRate l))"

definition discountedUnitPrice_raw :: "order_line \<Rightarrow> rat" where
  "discountedUnitPrice_raw l =
     (let result = of_int (listPrice l) + getUnitAdjustmentsTotal l (Some PROMOTION)
      in if listPriceIncludesTax l then netPriceOf result (taxRate l) else result)"

definition discountedUnitPriceWithTax_raw :: "order_line \<Rightarrow> rat" where
  "discountedUnitPriceWithTax_raw l =
     (let result = of_int (listPrice l) + getUnitAdjustmentsTotal l (Some PROMOTION)
      in if listPriceIncludesTax l then result else grossPriceOf result (taxRate l))"

definition proratedUnitPrice_raw :: "order_line \<Rightarrow> rat" where
  "proratedUnitPrice_raw l =
     (let result = of_int (listPrice l) + getUnitAdjustmentsTotal l None
      in if listPriceIncludesTax l then netPriceOf result (taxRate l) else result)"

definition proratedUnitPriceWithTax_raw :: "order_line \<Rightarrow> rat" where
  "proratedUnitPriceWithTax_raw l =
     (let result = of_int (listPrice l) + getUnitAdjustmentsTotal l None
      in if listPriceIncludesTax l then result else grossPriceOf result (taxRate l))"

section \<open>The calculated prices\<close>

definition discountedUnitPrice :: "order_line \<Rightarrow> int" where
  "discountedUnitPrice l = roundMoney (discountedUnitPrice_raw l)"

definition discountedUnitPriceWithTax :: "order_line \<Rightarrow> int" where
  "discountedUnitPriceWithTax l = roundMoney (discountedUnitPriceWithTax_raw l)"

definition proratedUnitPrice :: "order_line \<Rightarrow> int" where
  "proratedUnitPrice l = roundMoney (proratedUnitPrice_raw l)"

definition proratedUnitPriceWithTax :: "order_line \<Rightarrow> int" where
  "proratedUnitPriceWithTax l = roundMoney (proratedUnitPriceWithTax_raw l)"

definition unitTax :: "order_line \<Rightarrow> int" where
  "unitTax l = unitPriceWithTax l - unitPrice l"

definition proratedUnitTax :: "order_line \<Rightarrow> int" where
  "proratedUnitTax l = proratedUnitPriceWithTax l - proratedUnitPrice l"

definition linePrice :: "order_line \<Rightarrow> int" where
  "linePrice l = roundMoney_qty (unitPrice_raw l) (quantity l)"

definition linePriceWithTax :: "order_line \<Rightarrow> int" where
  "linePriceWithTax l = roundMoney_qty (unitPriceWithTax_raw l) (quantity l)"

definition discountedLinePrice :: "order_line \<Rightarrow> int" where
  "discountedLinePrice l = roundMoney_qty (discountedUnitPrice_raw l) (quantity l)"

definition discountedLinePriceWithTax :: "order_line \<Rightarrow> int" where
  "discountedLinePriceWithTax l = roundMoney_qty (discountedUnitPriceWithTax_raw l) (quantity l)"

definition lineTax :: "order_line \<Rightarrow> int" where
  "lineTax l = linePriceWithTax l - linePrice l"

definition proratedLinePrice :: "order_line \<Rightarrow> int" where
  "proratedLinePrice l = roundMoney_qty (proratedUnitPrice_raw l) (quantity l)"

definition proratedLinePriceWithTax :: "order_line \<Rightarrow> int" where
  "proratedLinePriceWithTax l = roundMoney_qty (proratedUnitPriceWithTax_raw l) (quantity l)"

definition proratedLineTax :: "order_line \<Rightarrow> int" where
  "proratedLineTax l = proratedLinePriceWithTax l - proratedLinePrice l"

text \<open>Discounts grouped by source, in the order the sources first occur.\<close>

definition add_line_discount :: "order_line \<Rightarrow> adjustment \<Rightarrow> (source_id, discount) js_map \<Rightarrow> (source_id, discount) js_map" where
  "add_line_discount l a grouped =
     (let lineAdjustmentAmount =
            (if quantity l = 0 then 0
             else of_int (adj_amount a) / of_int (quantityBasisFor l a) * of_int (quantity l));
          amount = (if listPriceIncludesTax l then netPriceOf lineAdjustmentAmount (taxRate l)
                    else lineAdjustmentAmount);
          amountWithTax = (if listPriceIncludesTax l then lineAdjustmentAmount
                           else grossPriceOf lineAdjustmentAmount (taxRate l))
      in case map_get grouped (adjustmentSource a) of
           Some g \<Rightarrow> map_set (adjustmentSource a)
                       (g\<lparr>disc_amount := disc_amount g + amount,
                          disc_amountWithTax := disc_amountWithTax g + amountWithTax\<rparr>) grouped
         | None \<Rightarrow> map_set (adjustmentSource a)
                     \<lparr>disc_amount = of_int (roundMoney amount),
                      disc_amountWithTax = of_int (roundMoney amountWithTax),
                      disc_type = adj_type a, disc_source = adjustmentSource a,
                      disc_description = adj_description a\<rparr> grouped)"

definition line_discounts :: "order_line \<Rightarrow> discount list" where
  "line_discounts l = map snd (fold (add_line_discount l) (adjustments l) [])"

section \<open>Changing the adjustments\<close>

definition addAdjustment :: "order_line \<Rightarrow> adjustment \<Rightarrow> order_line" where
  "addAdjustment l a =
     (let maxDiscount = (if listPriceIncludesTax l then proratedLinePriceWithTax l
                         else proratedLinePrice l) * (- 1);
          limitedAdjustment = a\<lparr>adj_amount := max maxDiscount (adj_amount a)\<rparr>
      in if adj_amount limitedAdjustment \<noteq> 0
         then l\<lparr>adjustments := adjustments l @ [limitedAdjustment]\<rparr> else l)"

definition setQuantityRescalingAdjustments :: "order_line \<Rightarrow> int \<Rightarrow> order_line" where
  "setQuantityRescalingAdjustments l newQuantity =
     (let l' = (if 0 < newQuantity then
                  let scaleFactor = of_int newQuantity / of_int (quantity l) :: rat
                  in l\<lparr>adjustments := map (\<lambda>a.
                       if adj_type a = PROMOTION
                       then a\<lparr>adj_amount := roundMoney (of_int (adj_amount a) * scaleFactor)\<rparr>
                       else a) (adjustments l)\<rparr>
                else l)
      in l'\<lparr>quantity := newQuantity\<rparr>)"

definition clearAdjustments :: "order_line \<Rightarrow> adjustment_type option \<Rightarrow> order_line" where
  "clearAdjustments l type =
     (case type of
        None \<Rightarrow> l\<lparr>adjustments := []\<rparr>
      | Some t \<Rightarrow> l\<lparr>adjustments := filter (\<lambda>a. adj_type a \<noteq> t) (adjustments l)\<rparr>)"

section \<open>Shipping lines and surcharges\<close>

definition shipping_price :: "shipping_line \<Rightarrow> rat" where
  "shipping_price l =
     (if listPriceIncludesTax l then netPriceOf (of_int (listPrice l)) (taxRate l)
      else of_int (listPrice l))"

definition shipping_priceWithTax :: "shipping_line \<Rightarrow> int" where
  "shipping_priceWithTax l =
     roundMoney (if listPriceIncludesTax l then of_int (listPrice l)
                 else grossPriceOf (of_int (listPrice l)) (taxRate l))"

definition getAdjustmentsTotal :: "shipping_line \<Rightarrow> int" where
  "getAdjustmentsTotal l = summate (adjustments l) adj_amount"

definition discountedPrice :: "shipping_line \<Rightarrow> int" where
  "discountedPrice l =
     (let result = of_int (listPrice l + getAdjustmentsTotal l)
      in roundMoney (if listPriceIncludesTax l then netPriceOf result (taxRate l) else result))"

definition discountedPriceWithTax :: "shipping_line \<Rightarrow> int" where
  "discountedPriceWithTax l =
     (let result = of_int (listPrice l + getAdjustmentsTotal l)
      in roundMoney (if listPriceIncludesTax l then result else grossPriceOf result (taxRate l)))"

definition shipping_discounts :: "shipping_line \<Rightarrow> discount list" where
  "shipping_discounts l = map (\<lambda>a.
     \<lparr>disc_amount = of_int (roundMoney (if listPriceIncludesTax l
        then netPriceOf (of_int (adj_amount a)) (taxRate l) else of_int (adj_amount a))),
      disc_amountWithTax = of_int (roundMoney (if listPriceIncludesTax l
        then of_int (adj_amount a) else grossPriceOf (of_int (adj_amount a)) (taxRate l))),
      disc_type = adj_type a, disc_source = adjustmentSource a,
      disc_description = adj_description a\<rparr>) (adjustments l)"

definition shipping_addAdjustment :: "shipping_line \<Rightarrow> adjustment \<Rightarrow> shipping_line" where
  "shipping_addAdjustment l a = l\<lparr>adjustments := adjustments l @ [a]\<rparr>"

definition shipping_clearAdjustments :: "shipping_line \<Rightarrow> shipping_line" where
  "shipping_clearAdjustments l = l\<lparr>adjustments := []\<rparr>"

definition surcharge_price :: "surcharge \<Rightarrow> int" where
  "surcharge_price s =
     roundMoney (if listPriceIncludesTax s then netPriceOf (of_int (listPrice s)) (taxRate s)
                 else of_int (listPrice s))"

definition surcharge_priceWithTax :: "surcharge \<Rightarrow> int" where
  "surcharge_priceWithTax s =
     roundMoney (if listPriceIncludesTax s then of_int (listPrice s)
                 else grossPriceOf (of_int (listPrice s)) (taxRate s))"

section \<open>Prices in the list price's own tax basis\<close>

text \<open>
  Every rounded line price is the rounding of one figure, the list price plus the adjustments per
  unit times the quantity, taken to the net or the gross side. \<open>line_exact\<close> is that figure.
\<close>

definition line_exact :: "order_line \<Rightarrow> rat" where
  "line_exact l = (of_int (listPrice l) + getUnitAdjustmentsTotal l None) * of_int (quantity l)"

definition proratedLineListPrice :: "order_line \<Rightarrow> int" where
  "proratedLineListPrice l =
     (if listPriceIncludesTax l then proratedLinePriceWithTax l else proratedLinePrice l)"

lemma proratedLinePrice_exact: "proratedLinePrice l = math_round (net_of_list l (line_exact l))"
  by (simp add: proratedLinePrice_def proratedUnitPrice_raw_def Let_def round_defs
      net_of_list_def line_exact_def netPriceOf_scale)

lemma proratedLinePriceWithTax_exact:
  "proratedLinePriceWithTax l = math_round (gross_of_list l (line_exact l))"
  by (simp add: proratedLinePriceWithTax_def proratedUnitPriceWithTax_raw_def Let_def round_defs
      gross_of_list_def line_exact_def grossPriceOf_scale)

lemma proratedLineListPrice_exact: "proratedLineListPrice l = math_round (line_exact l)"
  by (simp add: proratedLineListPrice_def proratedLinePrice_exact proratedLinePriceWithTax_exact
      net_of_list_def gross_of_list_def)

lemma getUnitAdjustmentsTotal_sum:
  "getUnitAdjustmentsTotal l t =
     (if quantity l = 0 then 0
      else sum_list (map (\<lambda>a. of_int (adj_amount a) / of_int (quantityBasisFor l a))
             (adjustments_of_type t l)))"
  using foldl_plus_sum_list [of "\<lambda>x. x :: rat" 0]
  by (simp add: getUnitAdjustmentsTotal_def)

lemma adjustments_of_type_None [simp]: "adjustments_of_type None l = adjustments l"
  by (simp add: adjustments_of_type_def)

lemma quantityBasisFor_adjustments [frame_simps]:
  "quantityBasisFor (l\<lparr>adjustments := as\<rparr>) a = quantityBasisFor l a"
  by (simp add: quantityBasisFor_def split: adjustment_type.split)

lemma quantityBasisFor_amount [frame_simps]:
  "quantityBasisFor l (a\<lparr>adj_amount := n\<rparr>) = quantityBasisFor l a"
  by (simp add: quantityBasisFor_def)

lemma quantityBasisFor_ge: "quantity l \<noteq> 0 \<Longrightarrow> 0 \<le> quantity l \<Longrightarrow> quantity l \<le> quantityBasisFor l a"
  by (auto simp: quantityBasisFor_def Let_def split: adjustment_type.splits)

lemma taxRate_adjustments [frame_simps]:
  "taxRate (l\<lparr>adjustments := as\<rparr>) = taxRate (l :: order_line)"
  by (simp add: taxRate_def)

lemma line_exact_snoc:
  assumes "quantity l \<noteq> 0"
  shows "line_exact (l\<lparr>adjustments := adjustments l @ [a]\<rparr>) =
    line_exact l + of_int (adj_amount a) / of_int (quantityBasisFor l a) * of_int (quantity l)"
  using assms
  by (simp add: line_exact_def getUnitAdjustmentsTotal_sum frame_simps algebra_simps)

text \<open>
  The share of a limited adjustment that a line counts never exceeds the limit: the basis is at
  least the quantity.
\<close>

lemma limited_share:
  assumes "0 < q" and "q \<le> b" and "0 \<le> R" and "- R \<le> A"
  shows "- (of_int R :: rat) \<le> of_int A / of_int b * of_int q"
proof -
  have b: "(0::rat) < of_int b" using assms by simp
  have "- (R * b) \<le> A * q"
  proof (cases "0 \<le> A")
    case True
    then have "0 \<le> A * q" "0 \<le> R * b" using assms by auto
    then show ?thesis by linarith
  next
    case False
    have "- R * b \<le> - R * q" using assms by (intro mult_left_mono_neg) auto
    also have "- R * q \<le> A * q" using assms by (intro mult_right_mono) auto
    finally show ?thesis by simp
  qed
  then have "(of_int (- (R * b)) :: rat) \<le> of_int (A * q)" by (simp only: of_int_le_iff)
  then show ?thesis using b by (simp add: pos_le_divide_eq field_simps)
qed

lemma addAdjustment_line_exact:
  assumes "0 \<le> quantity l" and "0 \<le> proratedLineListPrice l"
  shows "- 1 / 2 \<le> line_exact (addAdjustment l a)"
proof -
  define R where "R = proratedLineListPrice l"
  define A where "A = max (- R) (adj_amount a)"
  have R: "R = math_round (line_exact l)" by (simp add: R_def proratedLineListPrice_exact)
  have low: "of_int R - 1 / 2 \<le> line_exact l"
    using R math_round_error [of "line_exact l"] by linarith
  have add: "addAdjustment l a =
      (if A \<noteq> 0 then l\<lparr>adjustments := adjustments l @ [a\<lparr>adj_amount := A\<rparr>]\<rparr> else l)"
    by (auto simp: addAdjustment_def Let_def A_def R_def proratedLineListPrice_def)
  show ?thesis
  proof (cases "A = 0 \<or> quantity l = 0")
    case True
    then show ?thesis using low assms(2) R_def by (auto simp: add line_exact_def)
  next
    case False
    then have q: "0 < quantity l" using assms(1) by simp
    have "- (of_int R :: rat) \<le> of_int A / of_int (quantityBasisFor l a) * of_int (quantity l)"
      using q assms(2) quantityBasisFor_ge [of l a] by (intro limited_share) (auto simp: A_def R_def)
    then show ?thesis using False low
      by (simp add: add line_exact_snoc quantityBasisFor_amount)
  qed
qed

lemma addAdjustment_nonneg:
  assumes "0 \<le> quantity l" and "0 \<le> proratedLineListPrice l"
  shows "0 \<le> proratedLineListPrice (addAdjustment l a)"
  using addAdjustment_line_exact [OF assms, of a]
  by (simp add: proratedLineListPrice_exact math_round_nonneg)

lemma proratedLinePrice_nonneg:
  assumes "- 1 / 2 \<le> line_exact l" and "0 \<le> taxRate l"
  shows "0 \<le> proratedLinePrice l"
proof -
  have "- 1 / 2 \<le> net_of_list l (line_exact l)"
    using assms netPriceOf_lower [of "taxRate l" "- 1 / 2" "line_exact l"] by (simp add: net_of_list_def)
  then show ?thesis by (simp add: proratedLinePrice_exact math_round_nonneg)
qed

lemma addAdjustment_frame [frame_simps]:
  "quantity (addAdjustment l a) = quantity l"
  "line_id (addAdjustment l a) = line_id l"
  "listPrice (addAdjustment l a) = listPrice l"
  "listPriceIncludesTax (addAdjustment l a) = listPriceIncludesTax l"
  "taxLines (addAdjustment l a) = taxLines l"
  "orderPlacedQuantity (addAdjustment l a) = orderPlacedQuantity l"
  "productVariantId (addAdjustment l a) = productVariantId l"
  "shippingLineId (addAdjustment l a) = shippingLineId l"
  "taxCategoryId (addAdjustment l a) = taxCategoryId l"
  by (simp_all add: addAdjustment_def Let_def)

lemma clearAdjustments_frame [frame_simps]:
  "quantity (clearAdjustments l t) = quantity l"
  "line_id (clearAdjustments l t) = line_id l"
  "listPrice (clearAdjustments l t) = listPrice l"
  "listPriceIncludesTax (clearAdjustments l t) = listPriceIncludesTax l"
  "taxLines (clearAdjustments l t) = taxLines l"
  "productVariantId (clearAdjustments l t) = productVariantId l"
  by (simp_all add: clearAdjustments_def split: option.splits)

lemma clearAdjustments_all: "line_exact (clearAdjustments l None) = of_int (listPrice l) * of_int (quantity l)"
  by (simp add: clearAdjustments_def line_exact_def getUnitAdjustmentsTotal_sum)

lemma adjustments_addAdjustment:
  "set (adjustments (addAdjustment l a)) \<subseteq>
     insert (a\<lparr>adj_amount := max (- proratedLineListPrice l) (adj_amount a)\<rparr>) (set (adjustments l))"
  by (auto simp: addAdjustment_def Let_def proratedLineListPrice_def)

section \<open>Rescaling\<close>

text \<open>
  Rescaling rounds each promotion's amount once, so the discounted unit price drifts by at most half
  a unit per promotion, divided over the new quantity.
\<close>

lemma rescale_share:
  assumes "0 < n" and "0 < q"
  shows "\<bar>of_int (math_round (x * (of_int n / of_int q))) / of_int n - x / of_int q\<bar> \<le> 1 / (2 * of_int n :: rat)"
proof -
  let ?y = "x * (of_int n / of_int q)"
  have n: "(0::rat) < of_int n" and q: "(0::rat) < of_int q" using assms by auto
  have "of_int (math_round ?y) / of_int n - x / of_int q = (of_int (math_round ?y) - ?y) / of_int n"
    using n q by (simp add: diff_divide_distrib)
  then have "\<bar>of_int (math_round ?y) / of_int n - x / of_int q\<bar> = \<bar>of_int (math_round ?y) - ?y\<bar> / of_int n"
    using n by simp
  also have "\<dots> \<le> (1 / 2) / of_int n"
    using n math_round_error [of ?y] by (intro divide_right_mono) auto
  finally show ?thesis by simp
qed

lemma rescale_sum:
  fixes n q :: int
  assumes "0 < n" and "0 < q"
  shows "\<bar>sum_list (map (\<lambda>a. of_int (math_round (of_int (f a) * (of_int n / of_int q))) / of_int n) as) -
          sum_list (map (\<lambda>a. of_int (f a) / of_int q) as)\<bar> \<le> of_nat (length as) / (2 * of_int n :: rat)"
proof (induction as)
  case Nil
  then show ?case by simp
next
  case (Cons a as)
  then show ?case
    using rescale_share [OF assms, of "of_int (f a)"] by (auto simp: add_divide_distrib abs_le_iff)
qed

lemma filter_map_rescale:
  "filter (\<lambda>a. adj_type a = t) (map (\<lambda>a. if adj_type a = PROMOTION then a\<lparr>adj_amount := g a\<rparr> else a) as) =
   map (\<lambda>a. if adj_type a = PROMOTION then a\<lparr>adj_amount := g a\<rparr> else a) (filter (\<lambda>a. adj_type a = t) as)"
  by (induction as) auto

lemma rescaled_promotions:
  assumes "0 < n" and "0 < quantity l"
  shows "\<bar>getUnitAdjustmentsTotal (setQuantityRescalingAdjustments l n) (Some PROMOTION) -
          getUnitAdjustmentsTotal l (Some PROMOTION)\<bar>
         \<le> of_nat (length (adjustments_of_type (Some PROMOTION) l)) / (2 * of_int n)"
proof -
  let ?P = "adjustments_of_type (Some PROMOTION) l"
  let ?l' = "setQuantityRescalingAdjustments l n"
  have P: "adjustments_of_type (Some PROMOTION) ?l' =
      map (\<lambda>a. a\<lparr>adj_amount := roundMoney (of_int (adj_amount a) * (of_int n / of_int (quantity l)))\<rparr>) ?P"
    using assms(1)
    by (auto simp: setQuantityRescalingAdjustments_def Let_def adjustments_of_type_def filter_map_rescale)
  have "getUnitAdjustmentsTotal ?l' (Some PROMOTION) =
      sum_list (map (\<lambda>a. of_int (math_round (of_int (adj_amount a) * (of_int n / of_int (quantity l)))) / of_int n) ?P)"
    using assms P
    by (auto simp: getUnitAdjustmentsTotal_sum o_def round_defs quantityBasisFor_def adjustments_of_type_def
        setQuantityRescalingAdjustments_def Let_def intro!: arg_cong [where f = sum_list] map_cong)
  moreover have "getUnitAdjustmentsTotal l (Some PROMOTION) =
      sum_list (map (\<lambda>a. of_int (adj_amount a) / of_int (quantity l)) ?P)"
    using assms
    by (auto simp: getUnitAdjustmentsTotal_sum quantityBasisFor_def adjustments_of_type_def
        intro!: arg_cong [where f = sum_list] map_cong)
  ultimately show ?thesis
    using rescale_sum [OF assms, of adj_amount ?P] by simp
qed

end
