(* ===== verification/OrderTaxes.thy ===== *)
theory OrderTaxes
  imports OrderLines
begin

text \<open>
  Totals and tax summaries of an order: the two shipped tax calculation strategies
  (\<^verbatim>\<open>config/tax/default-order-tax-calculation-strategy.ts\<close> and
  \<^verbatim>\<open>config/tax/order-level-tax-calculation-strategy.ts\<close>), the discounts of an order
  (\<^verbatim>\<open>Order.discounts\<close>), tax rates and tax zones. What the calculator may rely on is the
  locale \<open>order_tax_strategy\<close>, interpreted for both strategies.
\<close>

section \<open>Discounts of an order\<close>

definition group_discount :: "discount \<Rightarrow> (source_id, discount) js_map \<Rightarrow> (source_id, discount) js_map" where
  "group_discount d grouped =
     (case map_get grouped (disc_source d) of
        Some g \<Rightarrow> map_set (disc_source d)
          (g\<lparr>disc_amount := disc_amount g + disc_amount d,
             disc_amountWithTax := disc_amountWithTax g + disc_amountWithTax d\<rparr>) grouped
      | None \<Rightarrow> map_set (disc_source d) d grouped)"

definition order_discounts :: "order \<Rightarrow> discount list" where
  "order_discounts ord =
     map snd
       (fold group_discount (concat (map shipping_discounts (shippingLines ord)))
         (fold group_discount (concat (map line_discounts (order_lines ord))) []))"

section \<open>The default strategy\<close>

record order_totals =
  tot_subTotal :: int
  tot_subTotalWithTax :: int
  tot_shipping :: int
  tot_shippingWithTax :: int

record order_tax_summary =
  sum_taxRate :: rat
  sum_description :: string
  sum_taxBase :: int
  sum_taxTotal :: int

definition default_calculateOrderTotals :: "order \<Rightarrow> order_totals" where
  "default_calculateOrderTotals ord =
     (let (subTotal0, subTotalWithTax0) =
            foldl (\<lambda>(s, t) line. (s + proratedLinePrice line, t + proratedLinePriceWithTax line))
              (0, 0) (order_lines ord);
          (subTotal1, subTotalWithTax1) =
            foldl (\<lambda>(s, t) sc. (s + surcharge_price sc, t + surcharge_priceWithTax sc))
              (subTotal0, subTotalWithTax0) (surcharges ord);
          (shipping1, shippingWithTax1) =
            foldl (\<lambda>(s, t) sl. (s + discountedPrice sl, t + discountedPriceWithTax sl))
              (0, 0) (shippingLines ord)
      in \<lparr>tot_subTotal = subTotal1, tot_subTotalWithTax = subTotalWithTax1,
          tot_shipping = shipping1, tot_shippingWithTax = shippingWithTax1\<rparr>)"

text \<open>
  The three kinds of taxable line, each with its tax lines, its net base and its price with tax.
\<close>

definition taxableLines :: "order \<Rightarrow> (tax_line list \<times> int \<times> int) list" where
  "taxableLines ord =
     map (\<lambda>l. (taxLines l, proratedLinePrice l, proratedLinePriceWithTax l)) (order_lines ord) @
     map (\<lambda>l. (taxLines l, discountedPrice l, discountedPriceWithTax l)) (shippingLines ord) @
     map (\<lambda>s. (taxLines s, surcharge_price s, surcharge_priceWithTax s)) (surcharges ord)"

type_synonym tax_key = "string \<times> rat"

definition taxId :: "tax_line \<Rightarrow> tax_key" where
  "taxId tx = (tl_description tx, tl_taxRate tx)"

definition add_tax_row ::
  "rat \<Rightarrow> int \<Rightarrow> int \<Rightarrow> tax_line \<Rightarrow> (tax_key, order_tax_summary) js_map \<Rightarrow> (tax_key, order_tax_summary) js_map" where
  "add_tax_row taxRateTotal lineBase lineWithTax tx rows =
     (let proportionOfTotalRate = (if 0 < tl_taxRate tx then tl_taxRate tx / taxRateTotal else 0);
          amount = math_round (of_int (lineWithTax - lineBase) * proportionOfTotalRate)
      in case map_get rows (taxId tx) of
           Some row \<Rightarrow> map_set (taxId tx)
             (row\<lparr>sum_taxTotal := sum_taxTotal row + amount, sum_taxBase := sum_taxBase row + lineBase\<rparr>) rows
         | None \<Rightarrow> map_set (taxId tx)
             \<lparr>sum_taxRate = tl_taxRate tx, sum_description = tl_description tx,
              sum_taxBase = lineBase, sum_taxTotal = amount\<rparr> rows)"

definition default_calculateTaxSummary :: "order \<Rightarrow> order_tax_summary list" where
  "default_calculateTaxSummary ord =
     map snd (fold (\<lambda>(tls, lineBase, lineWithTax) rows.
       if tls = [] then rows
       else fold (add_tax_row (summate tls tl_taxRate) lineBase lineWithTax) tls rows)
       (taxableLines ord) [])"

section \<open>The order-level strategy\<close>

record tax_group =
  group_rate :: rat
  group_description :: string
  group_netBase :: int

type_synonym tax_groups = "(tax_key, tax_group) js_map"

definition accumulateIntoGroups :: "tax_line list \<Rightarrow> int \<Rightarrow> tax_groups \<Rightarrow> tax_groups" where
  "accumulateIntoGroups tls lineNetBase groups =
     fold (\<lambda>tx gs. case map_get gs (taxId tx) of
             Some g \<Rightarrow> map_set (taxId tx) (g\<lparr>group_netBase := group_netBase g + lineNetBase\<rparr>) gs
           | None \<Rightarrow> map_set (taxId tx)
               \<lparr>group_rate = tl_taxRate tx, group_description = tl_description tx,
                group_netBase = lineNetBase\<rparr> gs) tls groups"

definition groupOrder :: "order \<Rightarrow> int \<times> tax_groups \<times> int \<times> tax_groups" where
  "groupOrder ord =
     (let (s0, g0) = foldl (\<lambda>(s, gs) l.
            (s + proratedLinePrice l, accumulateIntoGroups (taxLines l) (proratedLinePrice l) gs))
            (0, []) (order_lines ord);
          (s1, g1) = foldl (\<lambda>(s, gs) sc.
            (s + surcharge_price sc, accumulateIntoGroups (taxLines sc) (surcharge_price sc) gs))
            (s0, g0) (surcharges ord);
          (s2, g2) = foldl (\<lambda>(s, gs) sl.
            (s + discountedPrice sl, accumulateIntoGroups (taxLines sl) (discountedPrice sl) gs))
            (0, []) (shippingLines ord)
      in (s1, g1, s2, g2))"

definition group_tax :: "tax_group \<Rightarrow> int" where
  "group_tax g = math_round (taxPayableOn (of_int (group_netBase g)) (group_rate g))"

definition level_calculateOrderTotals :: "order \<Rightarrow> order_totals" where
  "level_calculateOrderTotals ord =
     (let (sub, subGroups, ship, shipGroups) = groupOrder ord;
          subTotalTax = foldl (\<lambda>t g. t + group_tax (snd g)) 0 subGroups;
          shippingTax = foldl (\<lambda>t g. t + group_tax (snd g)) 0 shipGroups
      in \<lparr>tot_subTotal = sub, tot_subTotalWithTax = sub + subTotalTax,
          tot_shipping = ship, tot_shippingWithTax = ship + shippingTax\<rparr>)"

definition merge_group :: "tax_key \<times> tax_group \<Rightarrow> (tax_key, tax_group \<times> int) js_map \<Rightarrow> (tax_key, tax_group \<times> int) js_map" where
  "merge_group kg merged =
     (let roundedTax = group_tax (snd kg)
      in case map_get merged (fst kg) of
           Some (g, tax) \<Rightarrow> map_set (fst kg)
             (g\<lparr>group_netBase := group_netBase g + group_netBase (snd kg)\<rparr>, tax + roundedTax) merged
         | None \<Rightarrow> map_set (fst kg) (snd kg, roundedTax) merged)"

definition level_calculateTaxSummary :: "order \<Rightarrow> order_tax_summary list" where
  "level_calculateTaxSummary ord =
     (let (sub, subGroups, ship, shipGroups) = groupOrder ord;
          merged = fold merge_group shipGroups (fold merge_group subGroups [])
      in map (\<lambda>(k, g, tax). \<lparr>sum_taxRate = group_rate g, sum_description = group_description g,
                sum_taxBase = group_netBase g, sum_taxTotal = tax\<rparr>) merged)"

section \<open>Tax rates and zones\<close>

record tax_rate =
  tax_rate_name :: string
  tax_rate_value :: rat
  categoryId :: ID
  zoneId :: ID

definition tax_rate_apply :: "tax_rate \<Rightarrow> int \<Rightarrow> tax_line" where
  "tax_rate_apply r price = \<lparr>tl_description = tax_rate_name r, tl_taxRate = tax_rate_value r\<rparr>"

definition tax_rate_test :: "tax_rate \<Rightarrow> ID \<Rightarrow> ID \<Rightarrow> bool" where
  "tax_rate_test r zone taxCategory =
     (idsAreEqual (Some taxCategory) (Some (categoryId r)) \<and> idsAreEqual (Some zone) (Some (zoneId r)))"

definition default_taxLine_calculate :: "order_line \<Rightarrow> tax_rate \<Rightarrow> tax_line list" where
  "default_taxLine_calculate line applicableTaxRate = [tax_rate_apply applicableTaxRate (proratedUnitPrice line)]"

record zone =
  zone_id :: ID
  zone_members :: "string list"

definition address_determineTaxZone :: "request_context \<Rightarrow> zone list \<Rightarrow> order option \<Rightarrow> ID option" where
  "address_determineTaxZone ctx zones ord =
     (case ord of
        None \<Rightarrow> defaultTaxZoneId ctx
      | Some r \<Rightarrow>
          (case shippingCountryCode r of
             None \<Rightarrow> defaultTaxZoneId ctx
           | Some countryCode \<Rightarrow>
               if countryCode = [] then defaultTaxZoneId ctx
               else (case List.find (\<lambda>z. countryCode \<in> set (zone_members z)) zones of
                       Some z \<Rightarrow> Some (zone_id z)
                     | None \<Rightarrow> defaultTaxZoneId ctx)))"

definition default_determineTaxZone :: "request_context \<Rightarrow> zone list \<Rightarrow> order option \<Rightarrow> ID option" where
  "default_determineTaxZone ctx zones ord = defaultTaxZoneId ctx"

section \<open>What both strategies promise\<close>

definition netSubTotal :: "order \<Rightarrow> int" where
  "netSubTotal ord = summate (order_lines ord) proratedLinePrice + summate (surcharges ord) surcharge_price"

definition netShipping :: "order \<Rightarrow> int" where
  "netShipping ord = summate (shippingLines ord) discountedPrice"

definition same_lines :: "order \<Rightarrow> order \<Rightarrow> bool" where
  "same_lines a b \<longleftrightarrow>
     order_lines a = order_lines b \<and> surcharges a = surcharges b \<and> shippingLines a = shippingLines b"

text \<open>
  The contract: net totals are the plain sums of the net line prices, and the result depends on the
  lines of the order alone.
\<close>

locale order_tax_strategy =
  fixes totals :: "order \<Rightarrow> order_totals"
    and summary :: "order \<Rightarrow> order_tax_summary list"
  assumes totals_net: "tot_subTotal (totals ord) = netSubTotal ord"
    and totals_shipping: "tot_shipping (totals ord) = netShipping ord"
    and totals_lines_only: "same_lines a b \<Longrightarrow> totals a = totals b"
    and summary_lines_only: "same_lines a b \<Longrightarrow> summary a = summary b"

lemma foldl_pair_sum:
  "foldl (\<lambda>(s, t) x. (s + f x, t + g x)) (a, b) xs =
     (a + sum_list (map f xs), b + sum_list (map g xs) :: 'n::comm_monoid_add)"
  by (induction xs arbitrary: a b) (auto simp: add.assoc)

lemma foldl_sum_acc:
  "foldl (\<lambda>(s, gs) x. (s + f x, h x gs)) (a, c) xs =
     (a + sum_list (map f xs) :: 'n::comm_monoid_add, foldl (\<lambda>gs x. h x gs) c xs)"
  by (induction xs arbitrary: a c) (auto simp: add.assoc)

lemma default_totals_sums [total_simps]:
  "default_calculateOrderTotals ord =
     \<lparr>tot_subTotal = netSubTotal ord,
      tot_subTotalWithTax = summate (order_lines ord) proratedLinePriceWithTax
        + summate (surcharges ord) surcharge_priceWithTax,
      tot_shipping = netShipping ord,
      tot_shippingWithTax = summate (shippingLines ord) discountedPriceWithTax\<rparr>"
  by (simp add: default_calculateOrderTotals_def foldl_pair_sum summate_sum_list netSubTotal_def netShipping_def)

lemma groupOrder_sums:
  "groupOrder ord =
     (netSubTotal ord,
      foldl (\<lambda>gs sc. accumulateIntoGroups (taxLines sc) (surcharge_price sc) gs)
        (foldl (\<lambda>gs l. accumulateIntoGroups (taxLines l) (proratedLinePrice l) gs) [] (order_lines ord))
        (surcharges ord),
      netShipping ord,
      foldl (\<lambda>gs sl. accumulateIntoGroups (taxLines sl) (discountedPrice sl) gs) [] (shippingLines ord))"
  by (simp add: groupOrder_def foldl_sum_acc summate_sum_list netSubTotal_def netShipping_def)

interpretation default_tax: order_tax_strategy default_calculateOrderTotals default_calculateTaxSummary
  by unfold_locales
    (simp_all add: total_simps default_calculateTaxSummary_def taxableLines_def same_lines_def
      netSubTotal_def netShipping_def)

interpretation level_tax: order_tax_strategy level_calculateOrderTotals level_calculateTaxSummary
  by unfold_locales
    (simp_all add: level_calculateOrderTotals_def level_calculateTaxSummary_def groupOrder_sums
      same_lines_def netSubTotal_def netShipping_def)

section \<open>Summaries reconcile with totals\<close>

abbreviation map_sum :: "('v \<Rightarrow> 'n) \<Rightarrow> ('k, 'v) js_map \<Rightarrow> 'n::ab_group_add" where
  "map_sum f m \<equiv> sum_list (map (\<lambda>e. f (snd e)) m)"

lemma map_sum_set_new:
  "map_get m k = None \<Longrightarrow> map_sum f (map_set k v m) = map_sum f m + f v"
  by (induction m) (auto simp: algebra_simps split: if_splits)

lemma map_sum_set_old:
  "map_get m k = Some u \<Longrightarrow> map_sum f (map_set k v m) = map_sum f m - f u + f v"
  by (induction m) (auto simp: algebra_simps split: if_splits)

lemma merge_group_sum:
  "map_sum snd (merge_group kg m) = map_sum snd m + group_tax (snd kg)"
  by (auto simp: merge_group_def Let_def map_sum_set_new map_sum_set_old split: option.splits)

lemma fold_merge_group_sum:
  "map_sum snd (fold merge_group gs m) = map_sum snd m + map_sum group_tax gs"
  by (induction gs arbitrary: m) (simp_all add: merge_group_sum algebra_simps)

lemma level_summary_total:
  "summate (level_calculateTaxSummary ord) sum_taxTotal =
     (tot_subTotalWithTax (level_calculateOrderTotals ord) + tot_shippingWithTax (level_calculateOrderTotals ord))
     - (tot_subTotal (level_calculateOrderTotals ord) + tot_shipping (level_calculateOrderTotals ord))"
proof -
  obtain s gs t hs where g: "groupOrder ord = (s, gs, t, hs)" by (metis prod_cases4)
  have "summate (level_calculateTaxSummary ord) sum_taxTotal
      = map_sum snd (fold merge_group hs (fold merge_group gs []))"
    by (simp add: level_calculateTaxSummary_def g summate_sum_list o_def case_prod_unfold)
  also have "\<dots> = map_sum group_tax gs + map_sum group_tax hs"
    by (simp add: fold_merge_group_sum)
  finally show ?thesis
    by (simp add: level_calculateOrderTotals_def g foldl_plus_sum_list)
qed

lemma add_tax_row_sum:
  assumes "0 \<le> tl_taxRate tx" and "tl_taxRate tx = 0 \<Longrightarrow> w = b"
  shows "map_sum sum_taxTotal (add_tax_row (summate [tx] tl_taxRate) b w tx m) = map_sum sum_taxTotal m + (w - b)"
proof -
  have "math_round (of_int (w - b) * (if 0 < tl_taxRate tx then tl_taxRate tx / summate [tx] tl_taxRate else 0)) = w - b"
  proof (cases "0 < tl_taxRate tx")
    case True
    then show ?thesis by (simp add: summate_sum_list flip: of_int_diff)
  next
    case False
    then show ?thesis using assms math_round_of_int [of 0] by simp
  qed
  then show ?thesis
    by (auto simp: add_tax_row_def Let_def map_sum_set_new map_sum_set_old split: option.splits)
qed

definition single_taxed :: "'a taxed_scheme \<Rightarrow> bool" where
  "single_taxed l \<longleftrightarrow> (\<exists>tx. taxLines l = [tx] \<and> 0 \<le> tl_taxRate tx)"

lemma fold_tax_rows_sum:
  assumes "\<And>tls b w. (tls, b, w) \<in> set xs \<Longrightarrow>
      \<exists>tx. tls = [tx] \<and> 0 \<le> tl_taxRate tx \<and> (tl_taxRate tx = 0 \<longrightarrow> w = b)"
  shows "map_sum sum_taxTotal (fold (\<lambda>(tls, b, w) rows. if tls = [] then rows
           else fold (add_tax_row (summate tls tl_taxRate) b w) tls rows) xs m)
         = map_sum sum_taxTotal m + sum_list (map (\<lambda>(tls, b, w). w - b) xs)"
  using assms
proof (induction xs arbitrary: m)
  case Nil
  then show ?case by simp
next
  case (Cons x xs)
  obtain tls b w where x: "x = (tls, b, w)" by (metis prod_cases3)
  from Cons.prems [of tls b w] x obtain tx where
    tx: "tls = [tx]" "0 \<le> tl_taxRate tx" "tl_taxRate tx = 0 \<longrightarrow> w = b" by auto
  have "\<And>tls b w. (tls, b, w) \<in> set xs \<Longrightarrow>
      \<exists>tx. tls = [tx] \<and> 0 \<le> tl_taxRate tx \<and> (tl_taxRate tx = 0 \<longrightarrow> w = b)"
    using Cons.prems by auto
  from Cons.IH [OF this] show ?case
    using tx by (simp add: x add_tax_row_sum)
qed

lemma taxRate_zero_prices:
  assumes "taxRate l = 0"
  shows "proratedLinePriceWithTax l = proratedLinePrice l"
  using assms by (simp add: proratedLinePrice_exact proratedLinePriceWithTax_exact net_of_list_def gross_of_list_def)

lemma taxRate_zero_shipping: "taxRate l = 0 \<Longrightarrow> discountedPriceWithTax l = discountedPrice l"
  by (simp add: discountedPrice_def discountedPriceWithTax_def Let_def)

lemma taxRate_zero_surcharge: "taxRate s = 0 \<Longrightarrow> surcharge_priceWithTax s = surcharge_price s"
  by (simp add: surcharge_price_def surcharge_priceWithTax_def)

lemma taxRate_single: "taxLines l = [tx] \<Longrightarrow> taxRate l = tl_taxRate tx"
  by (simp add: taxRate_def summate_sum_list)

lemma single_taxed_rows:
  "single_taxed l \<Longrightarrow> \<exists>tx. taxLines l = [tx] \<and> 0 \<le> tl_taxRate tx \<and>
     (tl_taxRate tx = 0 \<longrightarrow> proratedLinePriceWithTax l = proratedLinePrice l)"
  "single_taxed sl \<Longrightarrow> \<exists>tx. taxLines sl = [tx] \<and> 0 \<le> tl_taxRate tx \<and>
     (tl_taxRate tx = 0 \<longrightarrow> discountedPriceWithTax sl = discountedPrice sl)"
  "single_taxed sc \<Longrightarrow> \<exists>tx. taxLines sc = [tx] \<and> 0 \<le> tl_taxRate tx \<and>
     (tl_taxRate tx = 0 \<longrightarrow> surcharge_priceWithTax sc = surcharge_price sc)"
  unfolding single_taxed_def
  by (metis taxRate_single taxRate_zero_prices taxRate_zero_shipping taxRate_zero_surcharge)+

lemma default_summary_total:
  assumes "\<forall>l \<in> set (order_lines ord). single_taxed l" and "\<forall>l \<in> set (shippingLines ord). single_taxed l"
    and "\<forall>s \<in> set (surcharges ord). single_taxed s"
  shows "summate (default_calculateTaxSummary ord) sum_taxTotal =
     (tot_subTotalWithTax (default_calculateOrderTotals ord) + tot_shippingWithTax (default_calculateOrderTotals ord))
     - (tot_subTotal (default_calculateOrderTotals ord) + tot_shipping (default_calculateOrderTotals ord))"
proof -
  have "\<exists>tx. tls = [tx] \<and> 0 \<le> tl_taxRate tx \<and> (tl_taxRate tx = 0 \<longrightarrow> w = b)"
    if "(tls, b, w) \<in> set (taxableLines ord)" for tls b w
    using that assms single_taxed_rows by (fastforce simp: taxableLines_def)
  from fold_tax_rows_sum [where m = "[]", OF this]
  have "map_sum sum_taxTotal (fold (\<lambda>(tls, b, w) rows. if tls = [] then rows
          else fold (add_tax_row (summate tls tl_taxRate) b w) tls rows) (taxableLines ord) [])
        = sum_list (map (\<lambda>(tls, b, w). w - b) (taxableLines ord))"
    by simp
  then show ?thesis
    by (simp add: default_calculateTaxSummary_def total_simps netSubTotal_def netShipping_def taxableLines_def
        o_def sum_list_subtractf)
qed

end
