(* ===== verification/Promotions.thy ===== *)
theory Promotions
  imports OrderTaxes Texts
begin

text \<open>
  Promotions: \<^verbatim>\<open>entity/promotion/promotion.entity.ts\<close>, the base classes of conditions and
  actions, and every condition and action shipped under \<^verbatim>\<open>config/promotion/\<close>. A condition or
  action is a record whose check or execute function is a HOL function, so a plugin's own are
  arguments of the model just as they are for the code; the shipped ones are definitions. Facet
  values and customer groups come from the database and are functions of the ids.
\<close>

section \<open>Coupon codes\<close>

definition couponCodesMatch :: "string \<Rightarrow> string \<Rightarrow> bool" where
  "couponCodesMatch a b = (toLowerCase a = toLowerCase b)"

section \<open>Conditions and actions\<close>

type_synonym op_arguments = "(string, arg_value) js_map"

text \<open>The state a condition hands to the actions: a number for each order line id.\<close>

type_synonym condition_state = "(ID, int) js_map"

type_synonym promotion_state = "(string, condition_state) js_map"

datatype condition_result = Cond_False | Cond_True | Cond_State condition_state

record promotion_condition =
  pc_code :: string
  pc_check :: "request_context \<Rightarrow> order \<Rightarrow> op_arguments \<Rightarrow> promotion \<Rightarrow> condition_result"
  pc_priorityValue :: int

datatype promotion_execute =
    PromotionItemAction "request_context \<Rightarrow> order_line \<Rightarrow> op_arguments \<Rightarrow> promotion_state \<Rightarrow> promotion \<Rightarrow> rat"
  | PromotionLineAction "request_context \<Rightarrow> order_line \<Rightarrow> op_arguments \<Rightarrow> promotion_state \<Rightarrow> promotion \<Rightarrow> rat"
  | PromotionOrderAction "request_context \<Rightarrow> order \<Rightarrow> op_arguments \<Rightarrow> promotion_state \<Rightarrow> promotion \<Rightarrow> rat"
  | PromotionShippingAction
      "request_context \<Rightarrow> shipping_line \<Rightarrow> order \<Rightarrow> op_arguments \<Rightarrow> promotion_state \<Rightarrow> promotion \<Rightarrow> rat"

record promotion_action =
  pa_code :: string
  pa_conditions :: "string list option"
  pa_hasSideEffects :: bool
  pa_execute :: promotion_execute
  pa_priorityValue :: int

definition actionState :: "promotion_action \<Rightarrow> promotion_state \<Rightarrow> promotion_state" where
  "actionState act st =
     (case pa_conditions act of
        None \<Rightarrow> []
      | Some codes \<Rightarrow> filter (\<lambda>e. fst e \<in> set codes) st)"

text \<open>Reading an argument by name, as the value its definition declares.\<close>

definition arg_int :: "op_arguments \<Rightarrow> string \<Rightarrow> int" where
  "arg_int args name = (case map_get args name of Some (IntArg n) \<Rightarrow> n | _ \<Rightarrow> 0)"

definition arg_float :: "op_arguments \<Rightarrow> string \<Rightarrow> rat" where
  "arg_float args name =
     (case map_get args name of Some (FloatArg r) \<Rightarrow> r | Some (IntArg n) \<Rightarrow> of_int n | _ \<Rightarrow> 0)"

definition arg_bool :: "op_arguments \<Rightarrow> string \<Rightarrow> bool" where
  "arg_bool args name = (case map_get args name of Some (BoolArg b) \<Rightarrow> b | _ \<Rightarrow> False)"

definition arg_ids :: "op_arguments \<Rightarrow> string \<Rightarrow> ID list" where
  "arg_ids args name = (case map_get args name of Some (IdListArg ids) \<Rightarrow> ids | _ \<Rightarrow> [])"

definition arg_id :: "op_arguments \<Rightarrow> string \<Rightarrow> ID option" where
  "arg_id args name = (case map_get args name of Some (IdArg i) \<Rightarrow> Some i | _ \<Rightarrow> None)"

definition cond_of_bool :: "bool \<Rightarrow> condition_result" where
  "cond_of_bool b = (if b then Cond_True else Cond_False)"

section \<open>The shipped conditions\<close>

definition minimumOrderAmount_check ::
  "request_context \<Rightarrow> order \<Rightarrow> op_arguments \<Rightarrow> promotion \<Rightarrow> condition_result" where
  "minimumOrderAmount_check ctx ord args p =
     (if arg_bool args ''taxInclusive''
      then cond_of_bool (arg_int args ''amount'' \<le> subTotalWithTax ord)
      else cond_of_bool (arg_int args ''amount'' \<le> subTotal ord))"

definition lineContainsIds :: "ID list \<Rightarrow> order_line \<Rightarrow> bool" where
  "lineContainsIds ids line =
     (List.find (\<lambda>i. idsAreEqual (Some i) (Some (productVariantId line))) ids \<noteq> None)"

definition containsProducts_check ::
  "request_context \<Rightarrow> order \<Rightarrow> op_arguments \<Rightarrow> promotion \<Rightarrow> condition_result" where
  "containsProducts_check ctx ord args p =
     (let ids = arg_ids args ''productVariantIds''
      in if arg_int args ''minimum'' < 1 then Cond_False
         else let matches = foldl (\<lambda>m line. if lineContainsIds ids line then m + quantity line else m)
                              0 (order_lines ord)
              in cond_of_bool (arg_int args ''minimum'' \<le> matches))"

definition hasFacetValues :: "(ID \<Rightarrow> ID list) \<Rightarrow> order_line \<Rightarrow> ID list \<Rightarrow> bool" where
  "hasFacetValues variantFacetValueIds line facetValueIds =
     foldl (\<lambda>result i. result \<and>
         List.find (\<lambda>j. idsAreEqual (Some j) (Some i)) (variantFacetValueIds (productVariantId line)) \<noteq> None)
       True facetValueIds"

definition hasFacetValues_check ::
  "(ID \<Rightarrow> ID list) \<Rightarrow> request_context \<Rightarrow> order \<Rightarrow> op_arguments \<Rightarrow> promotion \<Rightarrow> condition_result" where
  "hasFacetValues_check facetIds ctx ord args p =
     (if arg_int args ''minimum'' < 1 then Cond_False
      else let matches = foldl (\<lambda>m line. if hasFacetValues facetIds line (arg_ids args ''facets'')
                                           then m + quantity line else m) 0 (order_lines ord)
           in cond_of_bool (arg_int args ''minimum'' \<le> matches))"

definition customerGroup_check ::
  "(ID \<Rightarrow> ID list) \<Rightarrow> request_context \<Rightarrow> order \<Rightarrow> op_arguments \<Rightarrow> promotion \<Rightarrow> condition_result" where
  "customerGroup_check groupIds ctx ord args p =
     (case customerId ord of
        None \<Rightarrow> Cond_False
      | Some customer \<Rightarrow> cond_of_bool
          (List.find (\<lambda>g. idsAreEqual (Some g) (arg_id args ''customerGroupId'')) (groupIds customer) \<noteq> None))"

definition ctx_unitPrice :: "request_context \<Rightarrow> order_line \<Rightarrow> int" where
  "ctx_unitPrice ctx line = (if pricesIncludeTax ctx then unitPriceWithTax line else unitPrice line)"

fun allocate_free :: "order_line list \<Rightarrow> int \<Rightarrow> (ID, int) js_map \<Rightarrow> (ID, int) js_map" where
  "allocate_free [] placesToAllocate freeItemsPerLine = freeItemsPerLine"
| "allocate_free (freeLine # freeLines) placesToAllocate freeItemsPerLine =
     (if placesToAllocate = 0 then freeItemsPerLine
      else let freeQuantity = min (quantity freeLine) placesToAllocate
           in allocate_free freeLines (placesToAllocate - freeQuantity)
                (map_set (line_id freeLine) freeQuantity freeItemsPerLine))"

definition buyXGetYFree_check ::
  "request_context \<Rightarrow> order \<Rightarrow> op_arguments \<Rightarrow> promotion \<Rightarrow> condition_result" where
  "buyXGetYFree_check ctx ord args p =
     (let xIds = arg_ids args ''variantIdsX''; yIds = arg_ids args ''variantIdsY'';
          amountX = arg_int args ''amountX''
      in if amountX < 1 then Cond_False
         else
           let matches = foldl (\<lambda>m line. if productVariantId line \<in> set xIds then m + quantity line else m)
                           0 (order_lines ord);
               freeItemCandidates = filter (\<lambda>line. productVariantId line \<in> set yIds) (order_lines ord);
               amount = matches div amountX
           in if amount = 0 \<or> freeItemCandidates = [] then Cond_False
              else Cond_State (allocate_free (sort_key (ctx_unitPrice ctx) freeItemCandidates)
                     (arg_int args ''amountY'') []))"

section \<open>The shipped actions\<close>

definition buyXGetYFree_execute ::
  "request_context \<Rightarrow> order_line \<Rightarrow> op_arguments \<Rightarrow> promotion_state \<Rightarrow> promotion \<Rightarrow> rat" where
  "buyXGetYFree_execute ctx line args st p =
     (case map_get st ''buy_x_get_y_free'' of
        None \<Rightarrow> 0
      | Some freeItemsPerLine \<Rightarrow>
          (case map_get freeItemsPerLine (line_id line) of
             None \<Rightarrow> 0
           | Some freeQuantity \<Rightarrow>
               if freeQuantity = 0 then 0
               else - of_int (ctx_unitPrice ctx line) * (of_int freeQuantity / of_int (quantity line))))"

definition discountOnItemWithFacets_execute ::
  "(ID \<Rightarrow> ID list) \<Rightarrow> request_context \<Rightarrow> order_line \<Rightarrow> op_arguments \<Rightarrow> promotion_state \<Rightarrow> promotion \<Rightarrow> rat" where
  "discountOnItemWithFacets_execute facetIds ctx line args st p =
     (if hasFacetValues facetIds line (arg_ids args ''facets'')
      then - of_int (ctx_unitPrice ctx line) * (arg_float args ''discount'' / 100)
      else 0)"

definition productsPercentageDiscount_execute ::
  "request_context \<Rightarrow> order_line \<Rightarrow> op_arguments \<Rightarrow> promotion_state \<Rightarrow> promotion \<Rightarrow> rat" where
  "productsPercentageDiscount_execute ctx line args st p =
     (if lineContainsIds (arg_ids args ''productVariantIds'') line
      then - of_int (ctx_unitPrice ctx line) * (arg_float args ''discount'' / 100)
      else 0)"

definition freeShipping_execute ::
  "request_context \<Rightarrow> shipping_line \<Rightarrow> order \<Rightarrow> op_arguments \<Rightarrow> promotion_state \<Rightarrow> promotion \<Rightarrow> rat" where
  "freeShipping_execute ctx sl ord args st p =
     (if listPriceIncludesTax sl then - of_int (shipping_priceWithTax sl) else - shipping_price sl)"

definition orderFixedDiscount_execute ::
  "request_context \<Rightarrow> order \<Rightarrow> op_arguments \<Rightarrow> promotion_state \<Rightarrow> promotion \<Rightarrow> rat" where
  "orderFixedDiscount_execute ctx ord args st p =
     (let upperBound = (if pricesIncludeTax ctx then subTotalWithTax ord else subTotal ord)
      in - of_int (min (arg_int args ''discount'') upperBound))"

definition orderLineFixedDiscount_execute ::
  "request_context \<Rightarrow> order_line \<Rightarrow> op_arguments \<Rightarrow> promotion_state \<Rightarrow> promotion \<Rightarrow> rat" where
  "orderLineFixedDiscount_execute ctx line args st p = - of_int (arg_int args ''discount'')"

definition orderPercentageDiscount_execute ::
  "request_context \<Rightarrow> order \<Rightarrow> op_arguments \<Rightarrow> promotion_state \<Rightarrow> promotion \<Rightarrow> rat" where
  "orderPercentageDiscount_execute ctx ord args st p =
     (let orderTotal = (if pricesIncludeTax ctx then subTotalWithTax ord else subTotal ord)
      in - of_int orderTotal * (arg_float args ''discount'' / 100))"

section \<open>The configured registry\<close>

record promotion_options =
  promotionConditions :: "promotion_condition list"
  promotionActions :: "promotion_action list"

text \<open>
  The constructor of \<^verbatim>\<open>Promotion\<close> hashes both lists by code, a later entry replacing an
  earlier one.
\<close>

definition allConditions :: "promotion_options \<Rightarrow> string \<Rightarrow> promotion_condition option" where
  "allConditions opts code = List.find (\<lambda>c. pc_code c = code) (rev (promotionConditions opts))"

definition allActions :: "promotion_options \<Rightarrow> string \<Rightarrow> promotion_action option" where
  "allActions opts code = List.find (\<lambda>a. pa_code a = code) (rev (promotionActions opts))"

definition minimumOrderAmount :: promotion_condition where
  "minimumOrderAmount = \<lparr>pc_code = ''minimum_order_amount'', pc_check = minimumOrderAmount_check, pc_priorityValue = 10\<rparr>"

definition containsProducts :: promotion_condition where
  "containsProducts = \<lparr>pc_code = ''contains_products'', pc_check = containsProducts_check, pc_priorityValue = 0\<rparr>"

definition hasFacetValues_condition :: "(ID \<Rightarrow> ID list) \<Rightarrow> promotion_condition" where
  "hasFacetValues_condition facetIds =
     \<lparr>pc_code = ''at_least_n_with_facets'', pc_check = hasFacetValues_check facetIds, pc_priorityValue = 0\<rparr>"

definition customerGroup :: "(ID \<Rightarrow> ID list) \<Rightarrow> promotion_condition" where
  "customerGroup groupIds =
     \<lparr>pc_code = ''customer_group'', pc_check = customerGroup_check groupIds, pc_priorityValue = 0\<rparr>"

definition buyXGetYFreeCondition :: promotion_condition where
  "buyXGetYFreeCondition = \<lparr>pc_code = ''buy_x_get_y_free'', pc_check = buyXGetYFree_check, pc_priorityValue = 0\<rparr>"

definition buyXGetYFreeAction :: promotion_action where
  "buyXGetYFreeAction =
     \<lparr>pa_code = ''buy_x_get_y_free'', pa_conditions = Some [''buy_x_get_y_free''], pa_hasSideEffects = False,
      pa_execute = PromotionItemAction buyXGetYFree_execute, pa_priorityValue = 0\<rparr>"

definition plain_action :: "string \<Rightarrow> promotion_execute \<Rightarrow> promotion_action" where
  "plain_action code exec =
     \<lparr>pa_code = code, pa_conditions = None, pa_hasSideEffects = False, pa_execute = exec, pa_priorityValue = 0\<rparr>"

definition default_promotion_options :: "(ID \<Rightarrow> ID list) \<Rightarrow> (ID \<Rightarrow> ID list) \<Rightarrow> promotion_options" where
  "default_promotion_options facetIds groupIds =
     \<lparr>promotionConditions = [minimumOrderAmount, hasFacetValues_condition facetIds, containsProducts,
        customerGroup groupIds, buyXGetYFreeCondition],
      promotionActions = [
        plain_action ''order_fixed_discount'' (PromotionOrderAction orderFixedDiscount_execute),
        plain_action ''order_line_fixed_discount'' (PromotionLineAction orderLineFixedDiscount_execute),
        plain_action ''order_percentage_discount'' (PromotionOrderAction orderPercentageDiscount_execute),
        plain_action ''facet_based_discount'' (PromotionItemAction (discountOnItemWithFacets_execute facetIds)),
        plain_action ''products_percentage_discount'' (PromotionItemAction productsPercentageDiscount_execute),
        plain_action ''free_shipping'' (PromotionShippingAction freeShipping_execute),
        buyXGetYFreeAction]\<rparr>"

section \<open>Promotion.test and Promotion.apply\<close>

fun test_conditions ::
  "promotion_options \<Rightarrow> request_context \<Rightarrow> order \<Rightarrow> promotion \<Rightarrow> configurable_operation list \<Rightarrow>
   promotion_state \<Rightarrow> promotion_state option" where
  "test_conditions opts ctx ord p [] promotionState = Some promotionState"
| "test_conditions opts ctx ord p (c # cs) promotionState =
     (case allConditions opts (op_code c) of
        None \<Rightarrow> None
      | Some promotionCondition \<Rightarrow>
          (case pc_check promotionCondition ctx ord (op_args c) p of
             Cond_False \<Rightarrow> None
           | Cond_True \<Rightarrow> test_conditions opts ctx ord p cs promotionState
           | Cond_State st \<Rightarrow> test_conditions opts ctx ord p cs (map_set (op_code c) st promotionState)))"

definition coupon_ok :: "promotion \<Rightarrow> order \<Rightarrow> bool" where
  "coupon_ok p ord \<longleftrightarrow>
     (case couponCode p of None \<Rightarrow> True
      | Some code \<Rightarrow> code = [] \<or> (\<exists>cc \<in> set (couponCodes ord). couponCodesMatch cc code))"

text \<open>\<^verbatim>\<open>false\<close> is \<^term>\<open>None\<close>; otherwise the state the conditions built.\<close>

definition promotion_test ::
  "promotion_options \<Rightarrow> request_context \<Rightarrow> promotion \<Rightarrow> order \<Rightarrow> promotion_state option" where
  "promotion_test opts ctx p ord =
     (if (case endsAt p of Some t \<Rightarrow> t < ctx_now ctx | None \<Rightarrow> False) then None
      else if (case startsAt p of Some t \<Rightarrow> ctx_now ctx < t | None \<Rightarrow> False) then None
      else if \<not> coupon_ok p ord then None
      else test_conditions opts ctx ord p (conditions p) [])"

datatype apply_args = OrderArgs order | OrderLineArgs order_line | ShippingArgs shipping_line order

definition action_amount ::
  "promotion_options \<Rightarrow> request_context \<Rightarrow> promotion \<Rightarrow> promotion_state \<Rightarrow> apply_args \<Rightarrow>
   configurable_operation \<Rightarrow> int" where
  "action_amount opts ctx p st args op =
     (case allActions opts (op_code op) of
        None \<Rightarrow> 0
      | Some act \<Rightarrow>
          (case pa_execute act of
             PromotionItemAction f \<Rightarrow>
               (case args of OrderLineArgs line \<Rightarrow>
                  roundMoney_qty (f ctx line (op_args op) (actionState act st) p) (quantity line) | _ \<Rightarrow> 0)
           | PromotionLineAction f \<Rightarrow>
               (case args of OrderLineArgs line \<Rightarrow>
                  roundMoney (f ctx line (op_args op) (actionState act st) p) | _ \<Rightarrow> 0)
           | PromotionOrderAction f \<Rightarrow>
               (case args of OrderArgs ord \<Rightarrow>
                  roundMoney (f ctx ord (op_args op) (actionState act st) p) | _ \<Rightarrow> 0)
           | PromotionShippingAction f \<Rightarrow>
               (case args of ShippingArgs sl ord \<Rightarrow>
                  roundMoney (f ctx sl ord (op_args op) (actionState act st) p) | _ \<Rightarrow> 0)))"

definition getSourceId :: "promotion \<Rightarrow> source_id" where
  "getSourceId p = (PROMOTION, promotion_id p)"

definition promotion_apply ::
  "promotion_options \<Rightarrow> request_context \<Rightarrow> promotion \<Rightarrow> apply_args \<Rightarrow> promotion_state \<Rightarrow> adjustment option" where
  "promotion_apply opts ctx p args st =
     (let amount = foldl (\<lambda>amount op. amount + action_amount opts ctx p st args op) 0 (actions p)
      in if amount \<noteq> 0
         then Some \<lparr>adj_amount = amount, adj_type = PROMOTION, adjustmentSource = getSourceId p,
                adj_description = promotion_name p, itemDistribution = []\<rparr>
         else None)"

definition hasSideEffects :: "promotion_options \<Rightarrow> promotion \<Rightarrow> bool" where
  "hasSideEffects opts p =
     (\<exists>op \<in> set (actions p). case allActions opts (op_code op) of None \<Rightarrow> False | Some act \<Rightarrow> pa_hasSideEffects act)"

section \<open>Lemmas\<close>

lemma couponCodesMatch_refl [simp]: "couponCodesMatch a a"
  by (simp add: couponCodesMatch_def)

lemma couponCodesMatch_sym: "couponCodesMatch a b = couponCodesMatch b a"
  by (auto simp: couponCodesMatch_def)

lemma couponCodesMatch_trans: "couponCodesMatch a b \<Longrightarrow> couponCodesMatch b c \<Longrightarrow> couponCodesMatch a c"
  by (simp add: couponCodesMatch_def)

definition condition_holds ::
  "promotion_options \<Rightarrow> request_context \<Rightarrow> order \<Rightarrow> promotion \<Rightarrow> configurable_operation \<Rightarrow> bool" where
  "condition_holds opts ctx ord p c \<longleftrightarrow>
     (case allConditions opts (op_code c) of None \<Rightarrow> False
      | Some pc \<Rightarrow> pc_check pc ctx ord (op_args c) p \<noteq> Cond_False)"

lemma test_conditions_Some_iff:
  "test_conditions opts ctx ord p cs st \<noteq> None \<longleftrightarrow> (\<forall>c \<in> set cs. condition_holds opts ctx ord p c)"
  by (induction cs arbitrary: st)
    (auto simp: condition_holds_def split: option.splits condition_result.splits)

lemma test_conditions_eq_Some:
  "(\<exists>y. test_conditions opts ctx ord p cs st = Some y) \<longleftrightarrow> (\<forall>c \<in> set cs. condition_holds opts ctx ord p c)"
  using test_conditions_Some_iff [of opts ctx ord p cs st] by auto

lemma promotion_test_iff:
  "promotion_test opts ctx p ord \<noteq> None \<longleftrightarrow>
     (\<forall>t. endsAt p = Some t \<longrightarrow> ctx_now ctx \<le> t) \<and> (\<forall>t. startsAt p = Some t \<longrightarrow> t \<le> ctx_now ctx) \<and>
     coupon_ok p ord \<and> (\<forall>c \<in> set (conditions p). condition_holds opts ctx ord p c)"
  by (auto simp: promotion_test_def test_conditions_Some_iff test_conditions_eq_Some not_le not_less split: option.splits)

lemma promotion_apply_Some:
  "promotion_apply opts ctx p args st = Some a \<Longrightarrow>
     adj_amount a \<noteq> 0 \<and> adj_type a = PROMOTION \<and> adjustmentSource a = getSourceId p"
  by (auto simp: promotion_apply_def Let_def split: if_splits)

subsection \<open>Buy X get Y free\<close>

text \<open>
  The free units go to the cheapest candidates first: at most the quantity of a line, in total as
  many as there are, up to the amount promised.
\<close>

definition free_of :: "(ID, int) js_map \<Rightarrow> order_line \<Rightarrow> int" where
  "free_of m l = (case map_get m (line_id l) of None \<Rightarrow> 0 | Some n \<Rightarrow> n)"

lemma free_of_None: "map_get m (line_id l) = None \<Longrightarrow> free_of m l = 0"
  by (simp add: free_of_def)

lemma free_of_map_set:
  "free_of (map_set i k m) l = (if line_id l = i then k else free_of m l)"
  by (simp add: free_of_def map_get_set)

lemma allocate_free_keeps:
  "line_id l \<notin> line_id ` set ls \<Longrightarrow> free_of (allocate_free ls n m) l = free_of m l"
  by (induction ls arbitrary: n m) (auto simp: Let_def free_of_def map_get_set)

lemma allocate_free_spec:
  assumes "distinct (map line_id ls)" and "\<forall>l \<in> set ls. 0 \<le> quantity l \<and> map_get m (line_id l) = None" and "0 \<le> n"
  shows "(\<forall>l \<in> set ls. 0 \<le> free_of (allocate_free ls n m) l \<and> free_of (allocate_free ls n m) l \<le> quantity l)
    \<and> sum_list (map (free_of (allocate_free ls n m)) ls) = min n (sum_list (map quantity ls))"
  using assms
proof (induction ls arbitrary: n m)
  case Nil
  then show ?case by simp
next
  case (Cons l ls)
  have nonneg: "0 \<le> sum_list (map quantity ls)" using Cons.prems by (intro sum_list_nonneg_map) auto
  show ?case
  proof (cases "n = 0")
    case True
    have zero: "\<forall>x \<in> set (l # ls). free_of m x = 0" using Cons.prems by (simp add: free_of_None)
    have "map (free_of m) (l # ls) = map (\<lambda>_. 0) (l # ls)" using zero by (intro map_cong) auto
    then have "sum_list (map (free_of m) (l # ls)) = 0" by (simp only: sum_list_0)
    moreover have "allocate_free (l # ls) n m = m" using True by simp
    moreover have "0 \<le> sum_list (map quantity (l # ls))" using nonneg Cons.prems by simp
    ultimately show ?thesis using True zero Cons.prems(2) by (metis min_def order_refl)
  next
    case False
    define k where "k = min (quantity l) n"
    define m' where "m' = map_set (line_id l) k m"
    have k: "0 \<le> k" "k \<le> n" "k \<le> quantity l" using Cons.prems by (auto simp: k_def)
    have ne: "line_id x \<noteq> line_id l" if "x \<in> set ls" for x
      using Cons.prems(1) that by (metis distinct.simps(2) list.simps(9) imageI list.set_map)
    have pre: "distinct (map line_id ls)" "0 \<le> n - k"
      "\<forall>x \<in> set ls. 0 \<le> quantity x \<and> map_get m' (line_id x) = None"
      using Cons.prems k ne by (simp_all add: m'_def map_get_set)
    have l: "free_of (allocate_free ls (n - k) m') l = k"
      using Cons.prems(1) by (simp add: allocate_free_keeps) (simp add: free_of_def m'_def map_get_set)
    have eq: "allocate_free (l # ls) n m = allocate_free ls (n - k) m'"
      using False by (simp add: Let_def k_def m'_def)
    have ih: "\<forall>x \<in> set ls. 0 \<le> free_of (allocate_free ls (n - k) m') x \<and> free_of (allocate_free ls (n - k) m') x \<le> quantity x"
      "sum_list (map (free_of (allocate_free ls (n - k) m')) ls) = min (n - k) (sum_list (map quantity ls))"
      using Cons.IH [OF pre(1,3,2)] by auto
    have "k + min (n - k) (sum_list (map quantity ls)) = min n (sum_list (map quantity (l # ls)))"
      using nonneg by (auto simp: k_def)
    then show ?thesis unfolding eq using ih k l by simp
  qed
qed

lemma allocate_free_cheapest:
  assumes "distinct (map line_id (l # ls))" and "\<forall>x \<in> set (l # ls). 0 \<le> quantity x" and "0 \<le> n"
    and "free_of (allocate_free (l # ls) n m) l < quantity l" and "map_get m (line_id l) = None"
    and "x \<in> set ls" and "map_get m (line_id x) = None"
  shows "free_of (allocate_free (l # ls) n m) x = 0"
proof (cases "n = 0")
  case True
  then show ?thesis using assms by (simp add: free_of_def)
next
  case False
  let ?k = "min (quantity l) n"
  have eq: "allocate_free (l # ls) n m = allocate_free ls (n - ?k) (map_set (line_id l) ?k m)"
    using False by (simp add: Let_def)
  have "free_of (allocate_free (l # ls) n m) l = ?k"
    using assms(1) unfolding eq by (simp add: allocate_free_keeps free_of_map_set)
  with assms(4) have "n - ?k = 0" by linarith
  then have "allocate_free (l # ls) n m = map_set (line_id l) ?k m"
    unfolding eq using assms(6) by (cases ls) auto
  moreover have "line_id x \<noteq> line_id l" using assms(1,6) by (metis distinct.simps(2) list.simps(9) imageI list.set_map)
  ultimately show ?thesis using assms(7) by (simp add: free_of_map_set free_of_None)
qed

subsection \<open>Bounds on the shipped discounts\<close>

lemma orderFixedDiscount_bound:
  "- of_int (if pricesIncludeTax ctx then subTotalWithTax ord else subTotal ord)
     \<le> orderFixedDiscount_execute ctx ord args st p"
  by (simp add: orderFixedDiscount_execute_def Let_def)

lemma percentage_bound:
  assumes "0 \<le> (t :: rat)" and "0 \<le> d" and "d \<le> 100"
  shows "- t \<le> - t * (d / 100)" and "- t * (d / 100) \<le> 0"
proof -
  have "t * (d / 100) \<le> t * 1" using assms by (intro mult_left_mono) auto
  then show "- t \<le> - t * (d / 100)" by simp
  show "- t * (d / 100) \<le> 0" using assms by (simp add: zero_le_mult_iff zero_le_divide_iff)
qed

end
