(* ===== verification/Shipping.thy ===== *)
theory Shipping
  imports Promotions
begin

text \<open>
  Shipping methods: \<^verbatim>\<open>entity/shipping-method/shipping-method.entity.ts\<close>, the default
  calculator, eligibility checker and line assignment under
  \<^verbatim>\<open>config/shipping-method/\<close>, and
  \<^verbatim>\<open>service/helpers/shipping-calculator/shipping-calculator.ts\<close>. The checkers and
  calculators a method refers to by code are looked up in the configured lists; a plugin's own are
  functions in those lists. The cache behind \<^verbatim>\<open>shouldRunCheck\<close> is modelled on its own.
\<close>

section \<open>Calculators and checkers\<close>

record shipping_result =
  res_price :: rat
  res_priceIncludesTax :: bool
  res_taxRate :: rat

record shipping_checker =
  checker_code :: string
  checker_fn :: "request_context \<Rightarrow> order \<Rightarrow> op_arguments \<Rightarrow> bool"

record shipping_calculator =
  calculator_code :: string
  calculator_fn :: "request_context \<Rightarrow> order \<Rightarrow> op_arguments \<Rightarrow> shipping_result option"

record shipping_options =
  shippingEligibilityCheckers :: "shipping_checker list"
  shippingCalculators :: "shipping_calculator list"

record shipping_method =
  method_id :: ID
  method_code :: string
  method_checker :: configurable_operation
  method_calculator :: configurable_operation

datatype tax_setting = TaxSetting_include | TaxSetting_exclude | TaxSetting_auto

definition getPriceIncludesTax :: "request_context \<Rightarrow> tax_setting \<Rightarrow> bool" where
  "getPriceIncludesTax ctx setting =
     (case setting of
        TaxSetting_auto \<Rightarrow> pricesIncludeTax ctx
      | TaxSetting_exclude \<Rightarrow> False
      | TaxSetting_include \<Rightarrow> True)"

text \<open>The argument is a string; \<^verbatim>\<open>auto\<close> is its default value.\<close>

definition arg_tax_setting :: "op_arguments \<Rightarrow> tax_setting" where
  "arg_tax_setting args =
     (case map_get args ''includesTax'' of
        Some (StringArg s) \<Rightarrow>
          if s = ''include'' then TaxSetting_include
          else if s = ''exclude'' then TaxSetting_exclude else TaxSetting_auto
      | _ \<Rightarrow> TaxSetting_auto)"

definition defaultShippingCalculator_calculate ::
  "request_context \<Rightarrow> order \<Rightarrow> op_arguments \<Rightarrow> shipping_result option" where
  "defaultShippingCalculator_calculate ctx ord args =
     Some \<lparr>res_price = of_int (arg_int args ''rate''),
           res_priceIncludesTax = getPriceIncludesTax ctx (arg_tax_setting args),
           res_taxRate = arg_float args ''taxRate''\<rparr>"

definition defaultShippingEligibilityChecker_check ::
  "request_context \<Rightarrow> order \<Rightarrow> op_arguments \<Rightarrow> bool" where
  "defaultShippingEligibilityChecker_check ctx ord args \<longleftrightarrow>
     arg_int args ''orderMinimum'' \<le> subTotalWithTax ord"

definition default_shipping_options :: shipping_options where
  "default_shipping_options =
     \<lparr>shippingEligibilityCheckers =
        [\<lparr>checker_code = ''default-shipping-eligibility-checker'',
          checker_fn = defaultShippingEligibilityChecker_check\<rparr>],
      shippingCalculators =
        [\<lparr>calculator_code = ''default-shipping-calculator'',
          calculator_fn = defaultShippingCalculator_calculate\<rparr>]\<rparr>"

section \<open>ShippingMethod.apply and ShippingMethod.test\<close>

record priced_shipping =
  ps_price :: int
  ps_priceIncludesTax :: bool
  ps_taxRate :: rat

definition method_apply ::
  "shipping_options \<Rightarrow> request_context \<Rightarrow> shipping_method \<Rightarrow> order \<Rightarrow> priced_shipping option" where
  "method_apply opts ctx m ord =
     (case List.find (\<lambda>c. calculator_code c = op_code (method_calculator m)) (rev (shippingCalculators opts)) of
        None \<Rightarrow> None
      | Some calculator \<Rightarrow>
          (case calculator_fn calculator ctx ord (op_args (method_calculator m)) of
             None \<Rightarrow> None
           | Some response \<Rightarrow>
               Some \<lparr>ps_price = roundMoney (res_price response),
                     ps_priceIncludesTax = res_priceIncludesTax response,
                     ps_taxRate = res_taxRate response\<rparr>))"

definition method_test ::
  "shipping_options \<Rightarrow> request_context \<Rightarrow> shipping_method \<Rightarrow> order \<Rightarrow> bool" where
  "method_test opts ctx m ord =
     (case List.find (\<lambda>c. checker_code c = op_code (method_checker m)) (rev (shippingEligibilityCheckers opts)) of
        None \<Rightarrow> False
      | Some checker \<Rightarrow> checker_fn checker ctx ord (op_args (method_checker m)))"

section \<open>The cached eligibility check\<close>

text \<open>
  \<^verbatim>\<open>ShippingEligibilityChecker.check\<close>: the check function runs again only when the value
  of \<^verbatim>\<open>shouldRunCheck\<close> differs from the one cached for the session. The digest is a
  function of the value, the cache a map from its keys.
\<close>

definition shouldRunCheck ::
  "('v \<Rightarrow> string) \<Rightarrow> ('k, string) js_map \<Rightarrow> 'k option \<Rightarrow> 'v option \<Rightarrow> bool \<times> ('k, string) js_map" where
  "shouldRunCheck hash_of cache cacheKey checkResult =
     (case checkResult of
        None \<Rightarrow> (True, cache)
      | Some value \<Rightarrow>
          (case cacheKey of
             None \<Rightarrow> (True, cache)
           | Some key \<Rightarrow>
               let lastResultHash = map_get cache key; cache' = map_set key (hash_of value) cache
               in (lastResultHash \<noteq> Some (hash_of value), cache')))"

definition eligibility_check ::
  "('v \<Rightarrow> string) \<Rightarrow> ('k, string) js_map \<Rightarrow> 'k option \<Rightarrow> 'v option \<Rightarrow> bool \<Rightarrow> bool \<times> ('k, string) js_map" where
  "eligibility_check hash_of cache cacheKey checkResult check_value =
     (let (run, cache') = shouldRunCheck hash_of cache cacheKey checkResult
      in (if run then check_value else True, cache'))"

section \<open>ShippingCalculator\<close>

definition checkEligibilityByShippingMethod ::
  "shipping_options \<Rightarrow> request_context \<Rightarrow> order \<Rightarrow> shipping_method \<Rightarrow> (shipping_method \<times> priced_shipping) option" where
  "checkEligibilityByShippingMethod opts ctx ord m =
     (if method_test opts ctx m ord
      then (case method_apply opts ctx m ord of None \<Rightarrow> None | Some result \<Rightarrow> Some (m, result))
      else None)"

definition getEligibleShippingMethods ::
  "shipping_options \<Rightarrow> request_context \<Rightarrow> shipping_method list \<Rightarrow> order \<Rightarrow> ID list \<Rightarrow>
   (shipping_method \<times> priced_shipping) list" where
  "getEligibleShippingMethods opts ctx activeMethods ord skipIds =
     sort_key (\<lambda>e. ps_price (snd e))
       (map_present (checkEligibilityByShippingMethod opts ctx ord)
         (filter (\<lambda>m. method_id m \<notin> set skipIds) activeMethods))"

definition getMethodIfEligible ::
  "shipping_options \<Rightarrow> request_context \<Rightarrow> shipping_method list \<Rightarrow> order \<Rightarrow> ID \<Rightarrow> shipping_method option" where
  "getMethodIfEligible opts ctx methods ord wantedId =
     (case List.find (\<lambda>m. method_id m = wantedId) methods of
        None \<Rightarrow> None
      | Some m \<Rightarrow> if method_test opts ctx m ord then Some m else None)"

definition assignShippingLineToOrderLines :: "shipping_line \<Rightarrow> order \<Rightarrow> order_line list" where
  "assignShippingLineToOrderLines sl ord = order_lines ord"

section \<open>Lemmas\<close>

lemma set_getEligibleShippingMethods:
  "(m, r) \<in> set (getEligibleShippingMethods opts ctx ms ord skip) \<longleftrightarrow>
     m \<in> set ms \<and> method_id m \<notin> set skip \<and> method_test opts ctx m ord \<and> method_apply opts ctx m ord = Some r"
  by (auto simp: getEligibleShippingMethods_def set_map_present checkEligibilityByShippingMethod_def
      split: if_splits option.splits)

lemma sorted_head_le: "sorted (map f (x # xs)) \<Longrightarrow> y \<in> set (x # xs) \<Longrightarrow> f x \<le> f y"
  by auto

lemma getEligibleShippingMethods_cheapest:
  assumes "getEligibleShippingMethods opts ctx ms ord skip = c # cs"
    and "(m, r) \<in> set (getEligibleShippingMethods opts ctx ms ord skip)"
  shows "ps_price (snd c) \<le> ps_price r"
proof -
  have "sorted (map (\<lambda>e. ps_price (snd e)) (c # cs))"
    unfolding assms(1) [symmetric] getEligibleShippingMethods_def by (rule sorted_sort_key)
  from sorted_head_le [OF this] assms(2) show ?thesis
    unfolding assms(1) by (metis snd_conv)
qed

lemma getMethodIfEligible_Some:
  "getMethodIfEligible opts ctx ms ord i = Some m \<Longrightarrow> m \<in> set ms \<and> method_id m = i \<and> method_test opts ctx m ord"
  by (auto simp: getMethodIfEligible_def split: option.splits if_splits dest: find_Some_in)

section \<open>Properties\<close>

text \<open>
  A second eligibility check under the same cache key, with an unchanged
  \<^verbatim>\<open>shouldRunCheck\<close> value, does not run the check function and answers yes, whatever the
  function answered the first time or would answer now.
\<close>

theorem eligibility_check_twice:
  "eligibility_check hash_of (snd (eligibility_check hash_of cache (Some key) (Some v) b)) (Some key) (Some v) b' =
     (True, snd (eligibility_check hash_of cache (Some key) (Some v) b))"
proof -
  have "map_set key x (map_set key x c) = map_set key x c" for x :: string and c
    by (induction c) auto
  then show ?thesis by (simp add: eligibility_check_def shouldRunCheck_def Let_def map_get_set)
qed

text \<open>
  The methods offered for an order are exactly the active, not skipped ones whose checker accepts
  the order and whose calculator prices it, and the first of them is a cheapest one.
\<close>

theorem eligible_methods_cheapest_first:
  "((m, r) \<in> set (getEligibleShippingMethods opts ctx ms ord skip) \<longleftrightarrow>
      m \<in> set ms \<and> method_id m \<notin> set skip \<and> method_test opts ctx m ord \<and> method_apply opts ctx m ord = Some r) \<and>
   sorted (map (\<lambda>e. ps_price (snd e)) (getEligibleShippingMethods opts ctx ms ord skip))"
  using set_getEligibleShippingMethods [of m r opts ctx ms ord skip]
  by (simp add: getEligibleShippingMethods_def)

end
