(* ===== verification/OrderCalculator.thy ===== *)
theory OrderCalculator
  imports Shipping
begin

text \<open>
  \<^verbatim>\<open>service/helpers/order-calculator/order-calculator.ts\<close>: taxes, promotions, shipping
  and totals of an order. The strategies the calculator takes from the configuration are the fields
  of \<open>calculator_config\<close>. A loop that mutates a line of the order is a fold over positions;
  every call of \<^verbatim>\<open>calculateOrderTotals\<close> is written out.
\<close>

section \<open>Configuration\<close>

record calculator_config =
  cfg_zones :: "zone list"
  cfg_determineTaxZone :: "request_context \<Rightarrow> zone list \<Rightarrow> order option \<Rightarrow> ID option"
  cfg_activeTaxRates :: "tax_rate list"
  cfg_taxLine_calculate :: "request_context \<Rightarrow> tax_rate \<Rightarrow> order \<Rightarrow> order_line \<Rightarrow> tax_line list"
  cfg_calculateOrderTotals :: "order \<Rightarrow> order_totals"
  cfg_getWeight :: "request_context \<Rightarrow> order_line \<Rightarrow> order \<Rightarrow> rat"
  cfg_promotions :: promotion_options
  cfg_shipping :: shipping_options
  cfg_activeShippingMethods :: "shipping_method list"
  cfg_shippingMethods :: "shipping_method list"

definition default_getWeight :: "request_context \<Rightarrow> order_line \<Rightarrow> order \<Rightarrow> rat" where
  "default_getWeight ctx line ord =
     (if quantity line \<noteq> 0 then of_int (proratedLinePriceWithTax line) else 0)"

definition defaultTaxRate :: tax_rate where
  "defaultTaxRate = \<lparr>tax_rate_name = ''No configured tax rate'', tax_rate_value = 0, categoryId = 0, zoneId = 0\<rparr>"

definition getApplicableTaxRate :: "tax_rate list \<Rightarrow> ID \<Rightarrow> ID \<Rightarrow> tax_rate" where
  "getApplicableTaxRate rates zone taxCategory =
     (case List.find (\<lambda>r. tax_rate_test r zone taxCategory) rates of Some r \<Rightarrow> r | None \<Rightarrow> defaultTaxRate)"

section \<open>Totals\<close>

definition calculateOrderTotals :: "calculator_config \<Rightarrow> order \<Rightarrow> order" where
  "calculateOrderTotals cfg ord =
     (let result = cfg_calculateOrderTotals cfg ord
      in ord\<lparr>subTotal := tot_subTotal result, subTotalWithTax := tot_subTotalWithTax result,
             shipping := tot_shipping result, shippingWithTax := tot_shippingWithTax result\<rparr>)"

definition addPromotion :: "order \<Rightarrow> promotion \<Rightarrow> order" where
  "addPromotion ord p =
     (if List.find (\<lambda>q. idsAreEqual (Some (promotion_id q)) (Some (promotion_id p))) (promotions ord) = None
      then ord\<lparr>promotions := promotions ord @ [p]\<rparr> else ord)"

definition adjustmentSources :: "order \<Rightarrow> source_id set" where
  "adjustmentSources ord =
     (\<Union>l \<in> set (order_lines ord). adjustmentSource ` set (adjustments l)) \<union>
     (\<Union>l \<in> set (shippingLines ord). adjustmentSource ` set (adjustments l))"

definition removeIneffectivePromotions :: "calculator_config \<Rightarrow> order \<Rightarrow> order" where
  "removeIneffectivePromotions cfg ord =
     (if promotions ord = [] then ord
      else ord\<lparr>promotions := filter
             (\<lambda>p. getSourceId p \<in> adjustmentSources ord \<or> hasSideEffects (cfg_promotions cfg) p)
             (promotions ord)\<rparr>)"

section \<open>Taxes\<close>

definition applyTaxesToOrderLine :: "calculator_config \<Rightarrow> request_context \<Rightarrow> ID \<Rightarrow> order \<Rightarrow> order_line \<Rightarrow> order_line" where
  "applyTaxesToOrderLine cfg ctx zone ord line =
     (let applicableTaxRate = getApplicableTaxRate (cfg_activeTaxRates cfg) zone (taxCategoryId line)
      in line\<lparr>taxLines := cfg_taxLine_calculate cfg ctx applicableTaxRate ord line\<rparr>)"

definition update_line :: "nat \<Rightarrow> (order_line \<Rightarrow> order_line) \<Rightarrow> order \<Rightarrow> order" where
  "update_line i f ord = ord\<lparr>order_lines := (order_lines ord)[i := f (order_lines ord ! i)]\<rparr>"

text \<open>
  The lines passed as updated are objects of the order: those of its lines that carry one of the
  ids.
\<close>

definition applyTaxesToUpdated ::
  "calculator_config \<Rightarrow> request_context \<Rightarrow> ID \<Rightarrow> ID list \<Rightarrow> order \<Rightarrow> order" where
  "applyTaxesToUpdated cfg ctx zone updatedIds ord =
     fold (\<lambda>lineId r. fold (\<lambda>i r.
             if line_id (order_lines r ! i) = lineId
             then update_line i (applyTaxesToOrderLine cfg ctx zone r) r else r)
           [0..<length (order_lines r)] r) updatedIds ord"

definition applyTaxes :: "calculator_config \<Rightarrow> request_context \<Rightarrow> ID \<Rightarrow> order \<Rightarrow> order" where
  "applyTaxes cfg ctx zone ord =
     calculateOrderTotals cfg
       (fold (\<lambda>i r. update_line i (applyTaxesToOrderLine cfg ctx zone r) r)
         [0..<length (order_lines ord)] ord)"

section \<open>Promotions on lines\<close>

definition applyItemPromotion ::
  "calculator_config \<Rightarrow> request_context \<Rightarrow> nat \<Rightarrow> promotion \<Rightarrow> order \<Rightarrow> order" where
  "applyItemPromotion cfg ctx i p ord =
     (case promotion_test (cfg_promotions cfg) ctx p ord of
        None \<Rightarrow> ord
      | Some st \<Rightarrow>
          let ord' = (case promotion_apply (cfg_promotions cfg) ctx p (OrderLineArgs (order_lines ord ! i)) st of
                        None \<Rightarrow> ord
                      | Some adj \<Rightarrow>
                          calculateOrderTotals cfg (update_line i (\<lambda>l. addAdjustment l adj) ord))
          in addPromotion ord' p)"

definition applyOrderItemPromotions ::
  "calculator_config \<Rightarrow> request_context \<Rightarrow> promotion list \<Rightarrow> order \<Rightarrow> order" where
  "applyOrderItemPromotions cfg ctx ps ord =
     (let cleared = calculateOrderTotals cfg
            (ord\<lparr>order_lines := map (\<lambda>l. clearAdjustments l None) (order_lines ord)\<rparr>)
      in fold (\<lambda>i r. calculateOrderTotals cfg (fold (applyItemPromotion cfg ctx i) ps r))
           [0..<length (order_lines cleared)] cleared)"

section \<open>Promotions on the order, distributed over its lines\<close>

definition distributed_adjustment :: "adjustment \<Rightarrow> order_line \<Rightarrow> int \<Rightarrow> adjustment" where
  "distributed_adjustment adj line shareOfAmount =
     (let itemWeights = replicate (nat (quantity line)) (of_int (unitPrice line) :: rat)
      in \<lparr>adj_amount = shareOfAmount, adj_type = DISTRIBUTED_ORDER_PROMOTION,
          adjustmentSource = adjustmentSource adj, adj_description = adj_description adj,
          itemDistribution = prorate itemWeights (of_int shareOfAmount)\<rparr>)"

definition distribute :: "calculator_config \<Rightarrow> request_context \<Rightarrow> adjustment \<Rightarrow> order \<Rightarrow> order" where
  "distribute cfg ctx adj ord =
     (let weights = map (\<lambda>line. cfg_getWeight cfg ctx line ord) (order_lines ord);
          distribution = prorate weights (of_int (adj_amount adj))
      in ord\<lparr>order_lines := map2 (\<lambda>line share. addAdjustment line (distributed_adjustment adj line share))
                              (order_lines ord) distribution\<rparr>)"

definition applyOrderPromotion ::
  "calculator_config \<Rightarrow> request_context \<Rightarrow> promotion \<Rightarrow> order \<Rightarrow> order" where
  "applyOrderPromotion cfg ctx p ord =
     (case promotion_test (cfg_promotions cfg) ctx p ord of
        None \<Rightarrow> ord
      | Some st \<Rightarrow>
          let ord' = (case promotion_apply (cfg_promotions cfg) ctx p (OrderArgs ord) st of
                        None \<Rightarrow> ord
                      | Some adj \<Rightarrow>
                          if adj_amount adj \<noteq> 0 then calculateOrderTotals cfg (distribute cfg ctx adj ord)
                          else ord)
          in addPromotion ord' p)"

definition applyOrderPromotions ::
  "calculator_config \<Rightarrow> request_context \<Rightarrow> promotion list \<Rightarrow> order \<Rightarrow> order" where
  "applyOrderPromotions cfg ctx ps ord =
     (let ord1 = (if List.find (\<lambda>d. disc_type d = DISTRIBUTED_ORDER_PROMOTION) (order_discounts ord) \<noteq> None
                  then ord\<lparr>order_lines :=
                         map (\<lambda>l. clearAdjustments l (Some DISTRIBUTED_ORDER_PROMOTION)) (order_lines ord)\<rparr>
                  else ord);
          ord2 = calculateOrderTotals cfg ord1;
          applicable = filter (\<lambda>p. promotion_test (cfg_promotions cfg) ctx p ord2 \<noteq> None) ps
      in if applicable = [] then ord2
         else calculateOrderTotals cfg (fold (applyOrderPromotion cfg ctx) applicable ord2))"

definition applyPromotions ::
  "calculator_config \<Rightarrow> request_context \<Rightarrow> promotion list \<Rightarrow> order \<Rightarrow> order" where
  "applyPromotions cfg ctx ps ord =
     applyOrderPromotions cfg ctx ps (applyOrderItemPromotions cfg ctx ps ord)"

section \<open>Shipping\<close>

definition update_shipping_line :: "nat \<Rightarrow> (shipping_line \<Rightarrow> shipping_line) \<Rightarrow> order \<Rightarrow> order" where
  "update_shipping_line i f ord = ord\<lparr>shippingLines := (shippingLines ord)[i := f (shippingLines ord ! i)]\<rparr>"

definition applyShippingPromotion ::
  "calculator_config \<Rightarrow> request_context \<Rightarrow> promotion \<Rightarrow> order \<Rightarrow> order" where
  "applyShippingPromotion cfg ctx p ord =
     (case promotion_test (cfg_promotions cfg) ctx p ord of
        None \<Rightarrow> ord
      | Some st \<Rightarrow>
          addPromotion
            (fold (\<lambda>i r.
               case promotion_apply (cfg_promotions cfg) ctx p (ShippingArgs (shippingLines r ! i) r) st of
                 None \<Rightarrow> r
               | Some adj \<Rightarrow>
                   if adj_amount adj \<noteq> 0 then update_shipping_line i (\<lambda>l. shipping_addAdjustment l adj) r else r)
             [0..<length (shippingLines ord)] ord) p)"

definition applyShippingPromotions ::
  "calculator_config \<Rightarrow> request_context \<Rightarrow> promotion list \<Rightarrow> order \<Rightarrow> order" where
  "applyShippingPromotions cfg ctx ps ord =
     (let applicable = filter (\<lambda>p. promotion_test (cfg_promotions cfg) ctx p ord \<noteq> None) ps;
          cleared = ord\<lparr>shippingLines := map shipping_clearAdjustments (shippingLines ord)\<rparr>
      in if applicable = [] then cleared else fold (applyShippingPromotion cfg ctx) applicable cleared)"

definition shipping_tax :: "rat \<Rightarrow> tax_line list" where
  "shipping_tax rate = [\<lparr>tl_description = ''shipping tax'', tl_taxRate = rate\<rparr>]"

definition priced_shipping_line :: "shipping_line \<Rightarrow> priced_shipping \<Rightarrow> shipping_line" where
  "priced_shipping_line sl r =
     sl\<lparr>listPrice := ps_price r, listPriceIncludesTax := ps_priceIncludesTax r,
        taxLines := shipping_tax (ps_taxRate r)\<rparr>"

text \<open>
  One shipping line against the order as it stands: the line to keep, or \<^term>\<open>None\<close> when
  it is dropped.
\<close>

definition reviseShippingLine ::
  "calculator_config \<Rightarrow> request_context \<Rightarrow> order \<Rightarrow> shipping_line \<Rightarrow> shipping_line option" where
  "reviseShippingLine cfg ctx ord sl =
     (case shippingMethodId sl of
        None \<Rightarrow> None
      | Some mid \<Rightarrow>
          (case List.find (\<lambda>m. method_id m = mid) (cfg_shippingMethods cfg) of
             None \<Rightarrow> None
           | Some currentShippingMethod \<Rightarrow>
               if method_test (cfg_shipping cfg) ctx currentShippingMethod ord
               then (case method_apply (cfg_shipping cfg) ctx currentShippingMethod ord of
                       None \<Rightarrow> Some sl
                     | Some result \<Rightarrow> Some (priced_shipping_line sl result))
               else (case getEligibleShippingMethods (cfg_shipping cfg) ctx (cfg_activeShippingMethods cfg) ord
                            [method_id currentShippingMethod] of
                       [] \<Rightarrow> None
                     | (cheapest, result) # _ \<Rightarrow>
                         Some ((priced_shipping_line sl result)\<lparr>shippingMethodId := Some (method_id cheapest)\<rparr>))))"

fun applyShipping_loop ::
  "calculator_config \<Rightarrow> request_context \<Rightarrow> shipping_line list \<Rightarrow> shipping_line list \<Rightarrow> order \<Rightarrow> order" where
  "applyShipping_loop cfg ctx kept [] ord = ord\<lparr>shippingLines := kept\<rparr>"
| "applyShipping_loop cfg ctx kept (sl # sls) ord =
     (case reviseShippingLine cfg ctx (ord\<lparr>shippingLines := kept @ sl # sls\<rparr>) sl of
        None \<Rightarrow> applyShipping_loop cfg ctx kept sls ord
      | Some sl' \<Rightarrow> applyShipping_loop cfg ctx (kept @ [sl']) sls ord)"

definition applyShipping :: "calculator_config \<Rightarrow> request_context \<Rightarrow> order \<Rightarrow> order" where
  "applyShipping cfg ctx ord =
     (let orderLineShippingLineIds = map shippingLineId (order_lines ord)
      in applyShipping_loop cfg ctx []
           (filter (\<lambda>sl. Some (shipping_line_id sl) \<in> set orderLineShippingLineIds) (shippingLines ord)) ord)"

section \<open>applyPriceAdjustments\<close>

record price_options =
  opt_recalculateShipping :: "bool option"
  opt_recalculateShippingPromotions :: "bool option"

definition default_price_options :: price_options where
  "default_price_options = \<lparr>opt_recalculateShipping = None, opt_recalculateShippingPromotions = None\<rparr>"

text \<open>
  \<open>cached\<close> is the tax zone the request context cache holds for the channel, if it holds one.
\<close>

definition activeTaxZone :: "calculator_config \<Rightarrow> request_context \<Rightarrow> ID option \<Rightarrow> order \<Rightarrow> ID option" where
  "activeTaxZone cfg ctx cached ord =
     (case cached of Some z \<Rightarrow> Some z | None \<Rightarrow> cfg_determineTaxZone cfg ctx (cfg_zones cfg) (Some ord))"

text \<open>The middle of the function: everything between the first and the last sums.\<close>

definition priceLines ::
  "calculator_config \<Rightarrow> request_context \<Rightarrow> ID \<Rightarrow> bool \<Rightarrow> promotion list \<Rightarrow> order \<Rightarrow> order" where
  "priceLines cfg ctx zone taxZoneChanged ps ord =
     (if order_lines ord = [] then ord
      else let prior = (if taxZoneChanged then applyTaxes cfg ctx zone ord else ord);
               after = applyPromotions cfg ctx ps prior
           in if subTotal after \<noteq> subTotal prior then applyTaxes cfg ctx zone after else after)"

definition priceShipping ::
  "calculator_config \<Rightarrow> request_context \<Rightarrow> promotion list \<Rightarrow> price_options \<Rightarrow> order \<Rightarrow> order" where
  "priceShipping cfg ctx ps opts ord =
     (let recalculateShipping = (opt_recalculateShipping opts \<noteq> Some False);
          recalculateShippingPromotions =
            (case opt_recalculateShippingPromotions opts of Some b \<Rightarrow> b | None \<Rightarrow> recalculateShipping);
          ord' = (if recalculateShipping then applyShipping cfg ctx ord else ord)
      in if recalculateShippingPromotions then applyShippingPromotions cfg ctx ps ord' else ord')"

definition applyPriceAdjustments ::
  "calculator_config \<Rightarrow> request_context \<Rightarrow> ID option \<Rightarrow> order \<Rightarrow> promotion list \<Rightarrow> ID list \<Rightarrow> price_options \<Rightarrow>
   order result" where
  "applyPriceAdjustments cfg ctx cached ord0 ps updatedIds opts =
     (let ord1 = ord0\<lparr>promotions := []\<rparr>
      in case activeTaxZone cfg ctx cached ord1 of
           None \<Rightarrow> Inl (InternalServerError ''error.no-active-tax-zone'')
         | Some zone \<Rightarrow>
             let taxZoneChanged = (taxZoneId ord1 = None \<or> \<not> idsAreEqual (taxZoneId ord1) (Some zone));
                 ord2 = (if taxZoneChanged then ord1\<lparr>taxZoneId := Some zone\<rparr> else ord1);
                 ord3 = calculateOrderTotals cfg (applyTaxesToUpdated cfg ctx zone updatedIds ord2);
                 ord4 = priceLines cfg ctx zone taxZoneChanged ps ord3;
                 ord5 = priceShipping cfg ctx ps opts ord4
             in Inr (removeIneffectivePromotions cfg (calculateOrderTotals cfg ord5)))"

section \<open>What every step of a calculation keeps\<close>

text \<open>
  A property of an order that every step of \<^verbatim>\<open>applyPromotions\<close> keeps holds after all of
  it. The first locale lists the steps of the line phase, the second adds those of the order phase;
  the properties of the calculator are their interpretations.
\<close>

locale item_invariant =
  fixes cfg :: calculator_config and ctx :: request_context and ps :: "promotion list" and I :: "order \<Rightarrow> bool"
  assumes I_totals: "I ord \<Longrightarrow> I (calculateOrderTotals cfg ord)"
    and I_taxes: "I ord \<Longrightarrow> i < length (order_lines ord) \<Longrightarrow> I (update_line i (\<lambda>l. l\<lparr>taxLines := tls\<rparr>) ord)"
    and I_promotion: "I ord \<Longrightarrow> p \<in> set ps \<Longrightarrow> coupon_ok p ord \<Longrightarrow> I (addPromotion ord p)"
    and I_line: "I ord \<Longrightarrow> p \<in> set ps \<Longrightarrow> i < length (order_lines ord) \<Longrightarrow>
        adjustmentSource a = getSourceId p \<Longrightarrow> adj_type a = PROMOTION \<Longrightarrow> coupon_ok p ord \<Longrightarrow>
        I (addPromotion (calculateOrderTotals cfg (update_line i (\<lambda>l. addAdjustment l a) ord)) p)"

locale calculation_invariant = item_invariant +
  assumes I_order: "I ord \<Longrightarrow> p \<in> set ps \<Longrightarrow> adjustmentSource a = getSourceId p \<Longrightarrow> coupon_ok p ord \<Longrightarrow>
        I (addPromotion (calculateOrderTotals cfg (distribute cfg ctx a ord)) p)"

lemma fold_invariant_ex:
  assumes "P s" and "\<And>x s. x \<in> set xs \<Longrightarrow> P s \<Longrightarrow> P (f x s)"
  shows "P (fold f xs s)"
  using assms by (induction xs arbitrary: s) auto

text \<open>The fields of an order that no calculation touches.\<close>

definition order_header :: "order \<Rightarrow> ID \<times> order_type \<times> order_state \<times> bool \<times> ID option \<times> string list \<times> payment list" where
  "order_header ord =
     (order_id ord, order_type ord, order_state ord, active ord, customerId ord, couponCodes ord, payments ord)"

lemma length_calculateOrderTotals [frame_simps]:
  "order_lines (calculateOrderTotals cfg ord) = order_lines ord"
  "shippingLines (calculateOrderTotals cfg ord) = shippingLines ord"
  "surcharges (calculateOrderTotals cfg ord) = surcharges ord"
  "promotions (calculateOrderTotals cfg ord) = promotions ord"
  "taxZoneId (calculateOrderTotals cfg ord) = taxZoneId ord"
  "order_header (calculateOrderTotals cfg ord) = order_header ord"
  by (simp_all add: calculateOrderTotals_def Let_def order_header_def)

lemma addPromotion_frame [frame_simps]:
  "order_lines (addPromotion ord p) = order_lines ord"
  "shippingLines (addPromotion ord p) = shippingLines ord"
  "surcharges (addPromotion ord p) = surcharges ord"
  "taxZoneId (addPromotion ord p) = taxZoneId ord"
  "order_header (addPromotion ord p) = order_header ord"
  by (simp_all add: addPromotion_def order_header_def)

lemma update_line_frame [frame_simps]:
  "order_lines (update_line i f ord) = (order_lines ord)[i := f (order_lines ord ! i)]"
  "shippingLines (update_line i f ord) = shippingLines ord"
  "surcharges (update_line i f ord) = surcharges ord"
  "promotions (update_line i f ord) = promotions ord"
  "taxZoneId (update_line i f ord) = taxZoneId ord"
  "order_header (update_line i f ord) = order_header ord"
  by (simp_all add: update_line_def order_header_def)

lemma distribute_frame [frame_simps]:
  "shippingLines (distribute cfg ctx a ord) = shippingLines ord"
  "surcharges (distribute cfg ctx a ord) = surcharges ord"
  "promotions (distribute cfg ctx a ord) = promotions ord"
  "taxZoneId (distribute cfg ctx a ord) = taxZoneId ord"
  "order_header (distribute cfg ctx a ord) = order_header ord"
  by (simp_all add: distribute_def Let_def order_header_def)

lemma length_distribute [frame_simps]:
  "length (order_lines (distribute cfg ctx a ord)) = length (order_lines ord)"
  by (simp add: distribute_def Let_def)

lemma nth_distribute:
  "i < length (order_lines ord) \<Longrightarrow>
     order_lines (distribute cfg ctx a ord) ! i =
       addAdjustment (order_lines ord ! i) (distributed_adjustment a (order_lines ord ! i)
         (prorate (map (\<lambda>l. cfg_getWeight cfg ctx l ord) (order_lines ord)) (of_int (adj_amount a)) ! i))"
  by (simp add: distribute_def Let_def)

lemma distributed_source [simp]: "adjustmentSource (distributed_adjustment a l s) = adjustmentSource a"
  by (simp add: distributed_adjustment_def Let_def)

text \<open>A promotion is listed only after its test, which looks for its coupon code on the order.\<close>

lemma promotion_test_coupon: "promotion_test opts ctx p ord = Some st \<Longrightarrow> coupon_ok p ord"
  by (simp add: promotion_test_def split: if_splits)

lemma promotion_apply_source:
  "promotion_apply opts ctx p args st = Some a \<Longrightarrow> adjustmentSource a = getSourceId p"
  "promotion_apply opts ctx p args st = Some a \<Longrightarrow> adj_type a = PROMOTION"
  by (simp_all add: promotion_apply_Some)

context item_invariant
begin

lemma keeps_applyTaxes:
  assumes "I ord"
  shows "I (applyTaxes cfg ctx zone ord)"
proof -
  have "I (fold (\<lambda>i r. update_line i (applyTaxesToOrderLine cfg ctx zone r) r) xs ord)
      \<and> length (order_lines (fold (\<lambda>i r. update_line i (applyTaxesToOrderLine cfg ctx zone r) r) xs ord))
        = length (order_lines ord)"
    if "set xs \<subseteq> {0..<length (order_lines ord)}" for xs
    using assms that
  proof (induction xs rule: rev_induct)
    case (snoc x xs)
    let ?r = "fold (\<lambda>i r. update_line i (applyTaxesToOrderLine cfg ctx zone r) r) xs ord"
    have r: "I ?r" "length (order_lines ?r) = length (order_lines ord)" "x < length (order_lines ord)"
      using snoc by auto
    have "update_line x (applyTaxesToOrderLine cfg ctx zone ?r) ?r =
        update_line x (\<lambda>l. l\<lparr>taxLines := taxLines (applyTaxesToOrderLine cfg ctx zone ?r (order_lines ?r ! x))\<rparr>) ?r"
      by (simp add: update_line_def applyTaxesToOrderLine_def Let_def)
    then show ?case using I_taxes [of ?r x] r by (simp add: frame_simps)
  qed simp
  then show ?thesis using I_totals unfolding applyTaxes_def by simp
qed

lemma keeps_applyTaxesToUpdated:
  assumes "I ord"
  shows "I (applyTaxesToUpdated cfg ctx zone updatedIds ord)"
proof -
  let ?one = "\<lambda>lineId i r. if line_id (order_lines r ! i) = lineId
             then update_line i (applyTaxesToOrderLine cfg ctx zone r) r else r"
  have step: "I (?one lineId i r) \<and> length (order_lines (?one lineId i r)) = length (order_lines r)"
    if "I r" "i < length (order_lines r)" for lineId i r
  proof -
    have "update_line i (applyTaxesToOrderLine cfg ctx zone r) r =
        update_line i (\<lambda>l. l\<lparr>taxLines := taxLines (applyTaxesToOrderLine cfg ctx zone r (order_lines r ! i))\<rparr>) r"
      by (simp add: update_line_def applyTaxesToOrderLine_def Let_def)
    then show ?thesis using I_taxes [OF that] that(1) by (simp add: frame_simps)
  qed
  have inner: "I (fold (?one lineId) xs r)" if "I r" "set xs \<subseteq> {0..<length (order_lines r)}" for lineId xs r
    using that
  proof (induction xs arbitrary: r)
    case (Cons x xs)
    then have x: "I (?one lineId x r)" "length (order_lines (?one lineId x r)) = length (order_lines r)"
      using step [of r x lineId] by auto
    then show ?case using Cons.IH [OF x(1)] Cons.prems(2) by simp
  qed simp
  show ?thesis unfolding applyTaxesToUpdated_def
    by (rule fold_invariant_ex [where P = I]) (use assms inner in auto)
qed

lemma keeps_applyItemPromotion:
  assumes "I ord" and "p \<in> set ps" and "i < length (order_lines ord)"
  shows "I (applyItemPromotion cfg ctx i p ord)"
  using assms I_promotion I_line promotion_apply_source promotion_test_coupon
  by (auto simp: applyItemPromotion_def Let_def split: option.split)

lemma length_applyItemPromotion:
  "length (order_lines (applyItemPromotion cfg ctx i p ord)) = length (order_lines ord)"
  by (auto simp: applyItemPromotion_def Let_def frame_simps split: option.split)

lemma keeps_item_loop:
  assumes "I ord" and "set qs \<subseteq> set ps" and "i < length (order_lines ord)"
  shows "I (fold (applyItemPromotion cfg ctx i) qs ord)
    \<and> length (order_lines (fold (applyItemPromotion cfg ctx i) qs ord)) = length (order_lines ord)"
  using assms
  by (induction qs arbitrary: ord) (auto simp: keeps_applyItemPromotion length_applyItemPromotion)

lemma keeps_applyOrderItemPromotions:
  assumes "I (calculateOrderTotals cfg (ord\<lparr>order_lines := map (\<lambda>l. clearAdjustments l None) (order_lines ord)\<rparr>))"
  shows "I (applyOrderItemPromotions cfg ctx ps ord)"
proof -
  define c where "c = calculateOrderTotals cfg (ord\<lparr>order_lines := map (\<lambda>l. clearAdjustments l None) (order_lines ord)\<rparr>)"
  have "I (fold (\<lambda>i r. calculateOrderTotals cfg (fold (applyItemPromotion cfg ctx i) ps r)) xs c)
      \<and> length (order_lines (fold (\<lambda>i r. calculateOrderTotals cfg (fold (applyItemPromotion cfg ctx i) ps r)) xs c))
        = length (order_lines c)"
    if "set xs \<subseteq> {0..<length (order_lines c)}" for xs
    using assms that unfolding c_def [symmetric]
    by (induction xs rule: rev_induct) (auto simp: keeps_item_loop I_totals frame_simps)
  then show ?thesis by (simp add: applyOrderItemPromotions_def Let_def c_def)
qed

end

text \<open>The line phase leaves only line discounts, so the order phase finds nothing to clear.\<close>

definition only_promotions :: "order \<Rightarrow> bool" where
  "only_promotions ord \<longleftrightarrow> (\<forall>l \<in> set (order_lines ord). \<forall>a \<in> set (adjustments l). adj_type a = PROMOTION)"

lemma set_list_update_cases: "x \<in> set (xs[i := y]) \<Longrightarrow> x = y \<or> x \<in> set xs"
  using set_update_subset_insert by fastforce

lemma only_promotions_update:
  assumes "only_promotions ord" and "i < length (order_lines ord)"
    and "\<And>a. a \<in> set (adjustments (f (order_lines ord ! i))) \<Longrightarrow>
            a \<in> set (adjustments (order_lines ord ! i)) \<or> adj_type a = PROMOTION"
  shows "only_promotions (update_line i f ord)"
  unfolding only_promotions_def
proof (intro ballI)
  fix l a
  assume "l \<in> set (order_lines (update_line i f ord))" and a: "a \<in> set (adjustments l)"
  then consider "l = f (order_lines ord ! i)" | "l \<in> set (order_lines ord)"
    by (auto simp: frame_simps dest: set_list_update_cases)
  then show "adj_type a = PROMOTION"
    using assms(1) assms(3) [of a] a nth_mem [OF assms(2)] unfolding only_promotions_def by cases metis+
qed

lemma only_promotions_frame [frame_simps]:
  "only_promotions (calculateOrderTotals cfg ord) = only_promotions ord"
  "only_promotions (addPromotion ord p) = only_promotions ord"
  by (simp_all add: only_promotions_def frame_simps)

interpretation promotion_typed: item_invariant cfg ctx ps only_promotions for cfg ctx ps
  by unfold_locales
    (auto simp: frame_simps intro!: only_promotions_update dest: subsetD [OF adjustments_addAdjustment])

lemma only_promotions_items: "only_promotions (applyOrderItemPromotions cfg ctx ps ord)"
  by (rule promotion_typed.keeps_applyOrderItemPromotions)
    (auto simp: only_promotions_def frame_simps clearAdjustments_def)

lemma clear_distributed_noop:
  assumes "only_promotions ord"
  shows "ord\<lparr>order_lines := map (\<lambda>l. clearAdjustments l (Some DISTRIBUTED_ORDER_PROMOTION)) (order_lines ord)\<rparr> = ord"
proof -
  have "map (\<lambda>l. clearAdjustments l (Some DISTRIBUTED_ORDER_PROMOTION)) (order_lines ord) = order_lines ord"
    using assms by (intro map_idI) (auto simp: only_promotions_def clearAdjustments_def intro!: filter_True)
  then show ?thesis by simp
qed

context calculation_invariant
begin

lemma keeps_applyOrderPromotion:
  "I ord \<Longrightarrow> p \<in> set ps \<Longrightarrow> I (applyOrderPromotion cfg ctx p ord)"
  using I_promotion I_order promotion_apply_source promotion_test_coupon
  by (auto simp: applyOrderPromotion_def Let_def split: option.split)

lemma keeps_applyOrderPromotions:
  assumes "I ord" and "only_promotions ord"
  shows "I (applyOrderPromotions cfg ctx ps ord)"
  unfolding applyOrderPromotions_def Let_def clear_distributed_noop [OF assms(2)]
  by (auto intro!: I_totals fold_invariant_ex [where P = I] keeps_applyOrderPromotion assms)

lemma keeps_applyPromotions:
  assumes "I (calculateOrderTotals cfg (ord\<lparr>order_lines := map (\<lambda>l. clearAdjustments l None) (order_lines ord)\<rparr>))"
  shows "I (applyPromotions cfg ctx ps ord)"
  unfolding applyPromotions_def
  by (intro keeps_applyOrderPromotions keeps_applyOrderItemPromotions only_promotions_items assms)

lemma keeps_priceLines:
  assumes "order_lines ord = [] \<Longrightarrow> I ord" and "J ord" and "\<And>r. J r \<Longrightarrow> J (applyTaxes cfg ctx zone r)"
    and "\<And>r. J r \<Longrightarrow> I (calculateOrderTotals cfg (r\<lparr>order_lines := map (\<lambda>l. clearAdjustments l None) (order_lines r)\<rparr>))"
  shows "I (priceLines cfg ctx zone changed ps ord)"
  unfolding priceLines_def Let_def
  by (auto intro!: keeps_applyTaxes keeps_applyPromotions I_totals assms)

end

end
