(* ===== verification/OrderPricing.thy ===== *)
theory OrderPricing
  imports OrderCalculator
begin

text \<open>
  What \<^verbatim>\<open>OrderCalculator.applyPriceAdjustments\<close> guarantees: the totals it leaves are
  those of the lines it leaves, it never changes what was ordered, no line's price falls below
  zero, and \<^verbatim>\<open>order.promotions\<close> is exactly the promotions the customer has a benefit from.
\<close>

section \<open>What was ordered stays\<close>

definition same_line :: "order_line \<Rightarrow> order_line \<Rightarrow> bool" where
  "same_line a l \<longleftrightarrow>
     line_id l = line_id a \<and> quantity l = quantity a \<and> listPrice l = listPrice a \<and>
     listPriceIncludesTax l = listPriceIncludesTax a \<and> orderPlacedQuantity l = orderPlacedQuantity a \<and>
     productVariantId l = productVariantId a \<and> taxCategoryId l = taxCategoryId a \<and>
     shippingLineId l = shippingLineId a"

lemma same_line_refl [simp]: "same_line l l"
  by (simp add: same_line_def)

lemma clearAdjustments_more [frame_simps]:
  "orderPlacedQuantity (clearAdjustments l t) = orderPlacedQuantity l"
  "taxCategoryId (clearAdjustments l t) = taxCategoryId l"
  "shippingLineId (clearAdjustments l t) = shippingLineId l"
  by (simp_all add: clearAdjustments_def split: option.splits)

lemma same_line_steps:
  "same_line a l \<Longrightarrow> same_line a (l\<lparr>taxLines := tls\<rparr>)"
  "same_line a l \<Longrightarrow> same_line a (addAdjustment l adj)"
  "same_line a l \<Longrightarrow> same_line a (clearAdjustments l t)"
  by (simp_all add: same_line_def frame_simps)

lemma list_all2_update:
  "list_all2 R ls xs \<Longrightarrow> i < length xs \<Longrightarrow> (\<And>a. R a (xs ! i) \<Longrightarrow> R a x) \<Longrightarrow> list_all2 R ls (xs[i := x])"
  by (auto simp: list_all2_conv_all_nth nth_list_update)

lemma list_all2_map_right:
  "list_all2 R ls xs \<Longrightarrow> (\<And>a x. R a x \<Longrightarrow> R a (f x)) \<Longrightarrow> list_all2 R ls (map f xs)"
  by (auto simp: list_all2_conv_all_nth)

lemma distribute_all2:
  assumes "list_all2 R ls (order_lines ord)" and "\<And>a l adj'. R a l \<Longrightarrow> adjustmentSource adj' = adjustmentSource adj \<Longrightarrow> R a (addAdjustment l adj')"
  shows "list_all2 R ls (order_lines (distribute cfg ctx adj ord))"
  using assms by (auto simp: list_all2_conv_all_nth frame_simps nth_distribute)

interpretation kept_lines: calculation_invariant cfg ctx ps "\<lambda>ord. list_all2 same_line ls (order_lines ord)"
  for cfg ctx ps ls
  by unfold_locales
    (auto simp: frame_simps intro!: list_all2_update distribute_all2 list_all2_map_right same_line_steps)

section \<open>No line below zero\<close>

definition line_nonneg :: "order_line \<Rightarrow> bool" where
  "line_nonneg l \<longleftrightarrow> 0 \<le> quantity l \<and> - 1 / 2 \<le> line_exact l"

lemma quantityBasisFor_taxLines [frame_simps]: "quantityBasisFor (l\<lparr>taxLines := tls\<rparr>) a = quantityBasisFor l a"
  by (simp add: quantityBasisFor_def split: adjustment_type.split)

lemma line_exact_taxLines [frame_simps]: "line_exact (l\<lparr>taxLines := tls\<rparr>) = line_exact l"
  by (simp add: line_exact_def getUnitAdjustmentsTotal_sum frame_simps)

lemma line_nonneg_steps:
  "line_nonneg l \<Longrightarrow> line_nonneg (l\<lparr>taxLines := tls\<rparr>)"
  "line_nonneg l \<Longrightarrow> line_nonneg (addAdjustment l adj)"
  using addAdjustment_line_exact [of l adj]
  by (simp_all add: line_nonneg_def frame_simps proratedLineListPrice_exact math_round_nonneg)

lemma line_nonneg_clear: "0 \<le> listPrice l \<Longrightarrow> 0 \<le> quantity l \<Longrightarrow> line_nonneg (clearAdjustments l None)"
proof -
  assume a: "0 \<le> listPrice l" "0 \<le> quantity l"
  then have "(0 :: rat) \<le> of_int (listPrice l) * of_int (quantity l)" by simp
  then have "- 1 / 2 \<le> (of_int (listPrice l) * of_int (quantity l) :: rat)" by linarith
  then show ?thesis using a by (simp add: line_nonneg_def clearAdjustments_all frame_simps)
qed

text \<open>The invariant: prices and quantities as listed are not negative, nor is any line's price.\<close>

definition sane_line :: "order_line \<Rightarrow> bool" where
  "sane_line l \<longleftrightarrow> 0 \<le> listPrice l \<and> line_nonneg l"

lemma sane_line_steps:
  "sane_line l \<Longrightarrow> sane_line (l\<lparr>taxLines := tls\<rparr>)"
  "sane_line l \<Longrightarrow> sane_line (addAdjustment l adj)"
  "sane_line l \<Longrightarrow> sane_line (clearAdjustments l None)"
  using line_nonneg_steps [of l] line_nonneg_clear [of l]
  by (simp_all add: sane_line_def frame_simps line_nonneg_def)

lemma ball_update:
  "\<forall>l \<in> set xs. Q l \<Longrightarrow> i < length xs \<Longrightarrow> (Q (xs ! i) \<Longrightarrow> Q x) \<Longrightarrow> \<forall>l \<in> set (xs[i := x]). Q l"
  by (auto dest!: set_list_update_cases)

lemma ball_distribute:
  assumes "\<forall>l \<in> set (order_lines ord). Q l" and "\<And>l a. Q l \<Longrightarrow> adjustmentSource a = adjustmentSource adj \<Longrightarrow> Q (addAdjustment l a)"
  shows "\<forall>l \<in> set (order_lines (distribute cfg ctx adj ord)). Q l"
proof -
  have "list_all2 (\<lambda>_. Q) (order_lines ord) (order_lines ord)"
    using assms(1) by (auto simp: list_all2_conv_all_nth)
  from distribute_all2 [where R = "\<lambda>_. Q", OF this] assms(2)
  have "list_all2 (\<lambda>_. Q) (order_lines ord) (order_lines (distribute cfg ctx adj ord))" by blast
  then show ?thesis by (auto simp: list_all2_conv_all_nth in_set_conv_nth)
qed

interpretation sane_lines: calculation_invariant cfg ctx ps "\<lambda>ord. \<forall>l \<in> set (order_lines ord). sane_line l"
  for cfg ctx ps
  by unfold_locales
    (simp_all only: frame_simps, (assumption | rule ball_update ball_distribute | erule sane_line_steps)+)

section \<open>Every discount belongs to a listed promotion\<close>

definition lineSources :: "order \<Rightarrow> source_id set" where
  "lineSources ord = (\<Union>l \<in> set (order_lines ord). adjustmentSource ` set (adjustments l))"

definition shippingSources :: "order \<Rightarrow> source_id set" where
  "shippingSources ord = (\<Union>l \<in> set (shippingLines ord). adjustmentSource ` set (adjustments l))"

lemma adjustmentSources_split: "adjustmentSources ord = lineSources ord \<union> shippingSources ord"
  by (simp add: adjustmentSources_def lineSources_def shippingSources_def)

definition sourced :: "promotion list \<Rightarrow> order \<Rightarrow> bool" where
  "sourced ps ord \<longleftrightarrow>
     lineSources ord \<subseteq> getSourceId ` set (promotions ord) \<and>
     set (promotions ord) \<subseteq> set ps \<and> distinct (map promotion_id (promotions ord))"

lemma getSourceId_eq: "getSourceId p = getSourceId q \<longleftrightarrow> promotion_id p = promotion_id q"
  by (simp add: getSourceId_def)

lemma addPromotion_sources:
  "getSourceId ` set (promotions (addPromotion ord p)) = insert (getSourceId p) (getSourceId ` set (promotions ord))"
proof (cases "List.find (\<lambda>q. idsAreEqual (Some (promotion_id q)) (Some (promotion_id p))) (promotions ord) = None")
  case False
  then obtain q where "q \<in> set (promotions ord)" "promotion_id q = promotion_id p"
    by (auto simp: find_None_all)
  then have "getSourceId p \<in> getSourceId ` set (promotions ord)"
    by (metis getSourceId_eq imageI)
  with False show ?thesis by (auto simp: addPromotion_def insert_absorb)
qed (simp add: addPromotion_def)

lemma addPromotion_distinct:
  "distinct (map promotion_id (promotions ord)) \<Longrightarrow> distinct (map promotion_id (promotions (addPromotion ord p)))"
  by (auto simp: addPromotion_def find_None_all)

lemma addPromotion_subset: "set (promotions (addPromotion ord p)) \<subseteq> insert p (set (promotions ord))"
  by (auto simp: addPromotion_def)

lemma lineSources_frame [frame_simps]:
  "lineSources (calculateOrderTotals cfg ord) = lineSources ord"
  "lineSources (addPromotion ord p) = lineSources ord"
  by (simp_all add: lineSources_def frame_simps)

lemma lineSources_update:
  assumes "i < length (order_lines ord)"
    and "adjustmentSource ` set (adjustments (f (order_lines ord ! i))) \<subseteq> insert s (lineSources ord)"
  shows "lineSources (update_line i f ord) \<subseteq> insert s (lineSources ord)"
  using assms(2) by (fastforce simp: lineSources_def frame_simps dest!: set_list_update_cases)

lemma addAdjustment_sources:
  "adjustmentSource ` set (adjustments (addAdjustment l a)) \<subseteq> insert (adjustmentSource a) (adjustmentSource ` set (adjustments l))"
  using adjustments_addAdjustment [of l a] by (auto dest!: subsetD)

lemma lineSources_distribute: "lineSources (distribute cfg ctx a ord) \<subseteq> insert (adjustmentSource a) (lineSources ord)"
proof -
  have "\<forall>l \<in> set (order_lines (distribute cfg ctx a ord)).
      adjustmentSource ` set (adjustments l) \<subseteq> insert (adjustmentSource a) (lineSources ord)"
  proof (rule ball_distribute)
    show "\<forall>l \<in> set (order_lines ord). adjustmentSource ` set (adjustments l) \<subseteq> insert (adjustmentSource a) (lineSources ord)"
      by (auto simp: lineSources_def)
  next
    fix l :: order_line and b :: adjustment
    assume "adjustmentSource ` set (adjustments l) \<subseteq> insert (adjustmentSource a) (lineSources ord)"
      and "adjustmentSource b = adjustmentSource a"
    then show "adjustmentSource ` set (adjustments (addAdjustment l b)) \<subseteq> insert (adjustmentSource a) (lineSources ord)"
      using addAdjustment_sources [of l b] by (metis insert_absorb2 insert_mono subset_trans)
  qed
  then show ?thesis by (auto simp: lineSources_def [of "distribute cfg ctx a ord"])
qed

lemma sourced_add:
  assumes "sourced ps ord" and "p \<in> set ps" and "promotions r = promotions ord"
    and "lineSources r \<subseteq> insert (getSourceId p) (lineSources ord)"
  shows "sourced ps (addPromotion r p)"
  unfolding sourced_def
proof (intro conjI)
  have "lineSources r \<subseteq> getSourceId ` set (promotions (addPromotion r p))"
    unfolding addPromotion_sources using assms(1,3,4) by (auto simp: sourced_def)
  then show "lineSources (addPromotion r p) \<subseteq> getSourceId ` set (promotions (addPromotion r p))"
    by (simp add: frame_simps)
  show "set (promotions (addPromotion r p)) \<subseteq> set ps"
    using addPromotion_subset [of r p] assms by (auto simp: sourced_def)
  show "distinct (map promotion_id (promotions (addPromotion r p)))"
    using assms by (intro addPromotion_distinct) (simp add: sourced_def)
qed

interpretation sourced_lines: calculation_invariant cfg ctx ps "sourced ps" for cfg ctx ps
proof unfold_locales
  show "sourced ps ord \<Longrightarrow> sourced ps (calculateOrderTotals cfg ord)" for ord
    by (simp add: sourced_def frame_simps)
  show "sourced ps (update_line i (\<lambda>l. l\<lparr>taxLines := tls\<rparr>) ord)"
    if "sourced ps ord" "i < length (order_lines ord)" for ord i tls
  proof -
    have "adjustmentSource ` set (adjustments (order_lines ord ! i)) \<subseteq> lineSources ord"
      using nth_mem [OF that(2)] by (auto simp: lineSources_def)
    then have "lineSources (update_line i (\<lambda>l. l\<lparr>taxLines := tls\<rparr>) ord) \<subseteq> lineSources ord"
      by (fastforce simp: lineSources_def frame_simps dest!: set_list_update_cases)
    then show ?thesis using that(1) by (auto simp: sourced_def frame_simps)
  qed
  show "sourced ps (addPromotion ord p)" if "sourced ps ord" "p \<in> set ps" for ord p
    using that by (intro sourced_add [where ord = ord]) auto
  show "sourced ps (addPromotion (calculateOrderTotals cfg (update_line i (\<lambda>l. addAdjustment l a) ord)) p)"
    if "sourced ps ord" "p \<in> set ps" "i < length (order_lines ord)" "adjustmentSource a = getSourceId p" for ord p i a
  proof (rule sourced_add [OF that(1,2)])
    have "adjustmentSource ` set (adjustments (order_lines ord ! i)) \<subseteq> lineSources ord"
      using nth_mem [OF that(3)] by (auto simp: lineSources_def)
    then have "lineSources (update_line i (\<lambda>l. addAdjustment l a) ord) \<subseteq> insert (getSourceId p) (lineSources ord)"
      using addAdjustment_sources [of "order_lines ord ! i" a] that(4)
      by (intro lineSources_update [OF that(3)]) (metis insert_mono subset_trans)
    then show "lineSources (calculateOrderTotals cfg (update_line i (\<lambda>l. addAdjustment l a) ord))
        \<subseteq> insert (getSourceId p) (lineSources ord)" by (simp add: frame_simps)
  qed (simp add: frame_simps)
  show "sourced ps (addPromotion (calculateOrderTotals cfg (distribute cfg ctx a ord)) p)"
    if "sourced ps ord" "p \<in> set ps" "adjustmentSource a = getSourceId p" for ord p a
    using lineSources_distribute [of cfg ctx a ord] that
    by (intro sourced_add [OF that(1,2)]) (simp_all add: frame_simps)
qed

section \<open>The shipping phase\<close>

lemma applyShipping_loop_frame [frame_simps]:
  "order_lines (applyShipping_loop cfg ctx kept sls ord) = order_lines ord"
  "promotions (applyShipping_loop cfg ctx kept sls ord) = promotions ord"
  "surcharges (applyShipping_loop cfg ctx kept sls ord) = surcharges ord"
  by (induction sls arbitrary: kept) (auto split: option.split)

lemma applyShipping_frame [frame_simps]:
  "order_lines (applyShipping cfg ctx ord) = order_lines ord"
  "promotions (applyShipping cfg ctx ord) = promotions ord"
  "surcharges (applyShipping cfg ctx ord) = surcharges ord"
  by (simp_all add: applyShipping_def Let_def frame_simps)

text \<open>A shipping line is kept only with a method that exists, and keeps its id.\<close>

lemma reviseShippingLine_Some:
  "reviseShippingLine cfg ctx ord sl = Some sl' \<Longrightarrow>
     shipping_line_id sl' = shipping_line_id sl \<and>
     (\<exists>m \<in> set (cfg_shippingMethods cfg) \<union> set (cfg_activeShippingMethods cfg). shippingMethodId sl' = Some (method_id m))"
proof -
  assume r: "reviseShippingLine cfg ctx ord sl = Some sl'"
  then obtain m where m: "List.find (\<lambda>m. Some (method_id m) = shippingMethodId sl) (cfg_shippingMethods cfg) = Some m"
    by (auto simp: reviseShippingLine_def split: option.splits)
  then have mem: "m \<in> set (cfg_shippingMethods cfg)" "shippingMethodId sl = Some (method_id m)"
    by (auto dest!: find_Some_in)
  show ?thesis
  proof (cases "method_test (cfg_shipping cfg) ctx m ord")
    case True
    then show ?thesis using r m mem
      by (auto simp: reviseShippingLine_def priced_shipping_line_def split: option.splits)
  next
    case False
    then show ?thesis using r m mem
      by (auto simp: reviseShippingLine_def priced_shipping_line_def split: option.splits list.splits
          dest!: arg_cong [where f = set] intro!: bexI)
        (metis insertI1 set_getEligibleShippingMethods UnI2)+
  qed
qed

lemma applyShipping_loop_lines:
  assumes "\<forall>sl \<in> set sls. Qin sl" and "\<forall>sl \<in> set kept. Q sl"
    and "\<And>r sl sl'. Qin sl \<Longrightarrow> reviseShippingLine cfg ctx r sl = Some sl' \<Longrightarrow> Q sl'"
  shows "\<forall>sl \<in> set (shippingLines (applyShipping_loop cfg ctx kept sls ord)). Q sl"
  using assms(1,2)
proof (induction sls arbitrary: kept)
  case (Cons sl sls)
  show ?case
  proof (cases "reviseShippingLine cfg ctx (ord\<lparr>shippingLines := kept @ sl # sls\<rparr>) sl")
    case None
    then show ?thesis using Cons by simp
  next
    case (Some sl')
    have "Q sl'" using Cons.prems(1) assms(3) [OF _ Some] by simp
    then have "\<forall>x \<in> set (kept @ [sl']). Q x" using Cons.prems(2) by simp
    from Cons.IH [OF _ this] Cons.prems(1) Some show ?thesis by simp
  qed
qed simp

definition shipping_line_assigned :: "calculator_config \<Rightarrow> order_line list \<Rightarrow> shipping_line \<Rightarrow> bool" where
  "shipping_line_assigned cfg ls sl \<longleftrightarrow>
     (\<exists>l \<in> set ls. shippingLineId l = Some (shipping_line_id sl)) \<and>
     (\<exists>m \<in> set (cfg_shippingMethods cfg) \<union> set (cfg_activeShippingMethods cfg). shippingMethodId sl = Some (method_id m))"

lemma applyShipping_assigned:
  "\<forall>sl \<in> set (shippingLines (applyShipping cfg ctx ord)). shipping_line_assigned cfg (order_lines ord) sl"
proof -
  let ?own = "\<lambda>sl. \<exists>l \<in> set (order_lines ord). shippingLineId l = Some (shipping_line_id sl)"
  have own: "\<forall>sl \<in> set (filter (\<lambda>sl. Some (shipping_line_id sl) \<in> set (map shippingLineId (order_lines ord))) (shippingLines ord)). ?own sl"
    by auto
  have kept: "shipping_line_assigned cfg (order_lines ord) sl'"
    if "?own sl" and "reviseShippingLine cfg ctx r sl = Some sl'" for r sl sl'
    using reviseShippingLine_Some [OF that(2)] that(1) by (simp add: shipping_line_assigned_def)
  show ?thesis unfolding applyShipping_def Let_def
    by (rule applyShipping_loop_lines [where Qin = ?own, OF own _ kept]) simp_all
qed

lemma applyShippingPromotion_frame [frame_simps]:
  "order_lines (applyShippingPromotion cfg ctx p ord) = order_lines ord"
  "surcharges (applyShippingPromotion cfg ctx p ord) = surcharges ord"
proof -
  have "order_lines (fold (\<lambda>i r.
      case promotion_apply (cfg_promotions cfg) ctx p (ShippingArgs (shippingLines r ! i) r) st of
        None \<Rightarrow> r
      | Some adj \<Rightarrow> if adj_amount adj \<noteq> 0 then update_shipping_line i (\<lambda>l. shipping_addAdjustment l adj) r else r)
      xs r) = order_lines r \<and> surcharges (fold (\<lambda>i r.
      case promotion_apply (cfg_promotions cfg) ctx p (ShippingArgs (shippingLines r ! i) r) st of
        None \<Rightarrow> r
      | Some adj \<Rightarrow> if adj_amount adj \<noteq> 0 then update_shipping_line i (\<lambda>l. shipping_addAdjustment l adj) r else r)
      xs r) = surcharges r" for st xs r
    by (induction xs arbitrary: r) (auto simp: update_shipping_line_def split: option.split)
  then show "order_lines (applyShippingPromotion cfg ctx p ord) = order_lines ord"
    "surcharges (applyShippingPromotion cfg ctx p ord) = surcharges ord"
    by (auto simp: applyShippingPromotion_def frame_simps split: option.split)
qed

lemma fold_frame: "(\<And>x s. f (g x s) = f s) \<Longrightarrow> f (fold g xs s) = f s"
  by (induction xs arbitrary: s) auto

lemma applyShippingPromotions_frame [frame_simps]:
  "order_lines (applyShippingPromotions cfg ctx ps ord) = order_lines ord"
  "surcharges (applyShippingPromotions cfg ctx ps ord) = surcharges ord"
  by (simp_all add: applyShippingPromotions_def Let_def fold_frame [where f = order_lines]
      fold_frame [where f = surcharges] frame_simps)

lemma priceShipping_frame [frame_simps]:
  "order_lines (priceShipping cfg ctx ps opts ord) = order_lines ord"
  "surcharges (priceShipping cfg ctx ps opts ord) = surcharges ord"
  by (simp_all add: priceShipping_def Let_def frame_simps split: option.split)

lemma removeIneffectivePromotions_frame [frame_simps]:
  "order_lines (removeIneffectivePromotions cfg ord) = order_lines ord"
  "shippingLines (removeIneffectivePromotions cfg ord) = shippingLines ord"
  "surcharges (removeIneffectivePromotions cfg ord) = surcharges ord"
  "subTotal (removeIneffectivePromotions cfg ord) = subTotal ord"
  "subTotalWithTax (removeIneffectivePromotions cfg ord) = subTotalWithTax ord"
  "shipping (removeIneffectivePromotions cfg ord) = shipping ord"
  "shippingWithTax (removeIneffectivePromotions cfg ord) = shippingWithTax ord"
  by (simp_all add: removeIneffectivePromotions_def)

text \<open>Shipping promotions: the discounts they leave come from promotions they list.\<close>

definition all_sourced :: "promotion list \<Rightarrow> order \<Rightarrow> bool" where
  "all_sourced ps ord \<longleftrightarrow> sourced ps ord \<and> shippingSources ord \<subseteq> getSourceId ` set (promotions ord)"

lemma shippingSources_loop:
  assumes "set is \<subseteq> {0..<length (shippingLines r)}"
    and "r' = fold (\<lambda>i r.
      case promotion_apply opts ctx p (ShippingArgs (shippingLines r ! i) r) st of
        None \<Rightarrow> r
      | Some adj \<Rightarrow> if adj_amount adj \<noteq> 0 then update_shipping_line i (\<lambda>l. shipping_addAdjustment l adj) r else r) is r"
  shows "shippingSources r' \<subseteq> insert (getSourceId p) (shippingSources r) \<and> promotions r' = promotions r
    \<and> order_lines r' = order_lines r"
  using assms
proof (induction "is" arbitrary: r)
  case (Cons i "is")
  define r1 where "r1 = (case promotion_apply opts ctx p (ShippingArgs (shippingLines r ! i) r) st of
        None \<Rightarrow> r
      | Some adj \<Rightarrow> if adj_amount adj \<noteq> 0 then update_shipping_line i (\<lambda>l. shipping_addAdjustment l adj) r else r)"
  have i: "i < length (shippingLines r)" using Cons.prems(1) by auto
  have "shippingSources r1 \<subseteq> insert (getSourceId p) (shippingSources r) \<and> promotions r1 = promotions r
      \<and> order_lines r1 = order_lines r \<and> length (shippingLines r1) = length (shippingLines r)"
  proof (cases "promotion_apply opts ctx p (ShippingArgs (shippingLines r ! i) r) st")
    case (Some adj)
    have "adjustmentSource adj = getSourceId p" using Some by (rule promotion_apply_source)
    moreover have "shippingLines r ! i \<in> set (shippingLines r)" using i by simp
    ultimately have "shippingSources (update_shipping_line i (\<lambda>l. shipping_addAdjustment l adj) r)
        \<subseteq> insert (getSourceId p) (shippingSources r)"
      by (fastforce simp: shippingSources_def update_shipping_line_def shipping_addAdjustment_def dest!: set_list_update_cases)
    then show ?thesis using Some by (auto simp: r1_def update_shipping_line_def)
  qed (simp add: r1_def, blast)
  moreover have "r' = fold (\<lambda>i r.
      case promotion_apply opts ctx p (ShippingArgs (shippingLines r ! i) r) st of
        None \<Rightarrow> r
      | Some adj \<Rightarrow> if adj_amount adj \<noteq> 0 then update_shipping_line i (\<lambda>l. shipping_addAdjustment l adj) r else r) is r1"
    using Cons.prems(2) by (simp add: r1_def)
  ultimately show ?case using Cons.IH [of r1] Cons.prems(1) by auto
qed auto

lemma filter_covers: "S \<subseteq> f ` set xs \<Longrightarrow> S \<subseteq> f ` set (filter (\<lambda>x. f x \<in> S \<or> Q x) xs)"
  by auto

lemma all_sourced_applyShippingPromotion:
  assumes "all_sourced ps ord" and "p \<in> set ps"
  shows "all_sourced ps (applyShippingPromotion cfg ctx p ord)"
proof (cases "promotion_test (cfg_promotions cfg) ctx p ord")
  case None
  then show ?thesis using assms by (simp add: applyShippingPromotion_def)
next
  case (Some st)
  define r where "r = fold (\<lambda>i r.
      case promotion_apply (cfg_promotions cfg) ctx p (ShippingArgs (shippingLines r ! i) r) st of
        None \<Rightarrow> r
      | Some adj \<Rightarrow> if adj_amount adj \<noteq> 0 then update_shipping_line i (\<lambda>l. shipping_addAdjustment l adj) r else r)
      [0..<length (shippingLines ord)] ord"
  have r: "shippingSources r \<subseteq> insert (getSourceId p) (shippingSources ord)" "promotions r = promotions ord"
      "order_lines r = order_lines ord"
    using shippingSources_loop [OF _ r_def] by auto
  have "sourced ps (addPromotion r p)"
    using assms r(2,3) by (intro sourced_add [of ps ord]) (auto simp: all_sourced_def lineSources_def)
  moreover have "shippingSources (addPromotion r p) \<subseteq> getSourceId ` set (promotions (addPromotion r p))"
  proof -
    have "shippingSources (addPromotion r p) = shippingSources r" by (simp add: shippingSources_def frame_simps)
    also have "\<dots> \<subseteq> insert (getSourceId p) (getSourceId ` set (promotions r))"
      using assms(1) r(1,2) unfolding all_sourced_def by (metis insert_mono subset_trans)
    finally show ?thesis by (simp add: addPromotion_sources)
  qed
  ultimately show ?thesis using Some by (simp add: applyShippingPromotion_def all_sourced_def r_def)
qed

lemma all_sourced_applyShippingPromotions:
  assumes "sourced ps ord"
  shows "all_sourced ps (applyShippingPromotions cfg ctx ps ord)"
proof -
  let ?c = "ord\<lparr>shippingLines := map shipping_clearAdjustments (shippingLines ord)\<rparr>"
  have "all_sourced ps ?c"
    using assms by (auto simp: all_sourced_def sourced_def lineSources_def shippingSources_def shipping_clearAdjustments_def)
  then show ?thesis unfolding applyShippingPromotions_def Let_def
    by (auto intro!: fold_invariant_ex [where P = "all_sourced ps"] all_sourced_applyShippingPromotion)
qed

section \<open>The result of applyPriceAdjustments\<close>

lemma applyPriceAdjustments_Inr:
  assumes "applyPriceAdjustments cfg ctx cached ord ps updatedIds opts = Inr r"
  obtains zone changed ord2 where
    "order_lines ord2 = order_lines ord" and "order_header ord2 = order_header ord" and "promotions ord2 = []" and
    "r = removeIneffectivePromotions cfg (calculateOrderTotals cfg (priceShipping cfg ctx ps opts
           (priceLines cfg ctx zone changed ps
             (calculateOrderTotals cfg (applyTaxesToUpdated cfg ctx zone updatedIds ord2)))))"
proof -
  obtain zone where z: "activeTaxZone cfg ctx cached (ord\<lparr>promotions := []\<rparr>) = Some zone"
    using assms by (auto simp: applyPriceAdjustments_def Let_def split: option.splits)
  define changed where "changed \<longleftrightarrow> taxZoneId ord = None \<or> \<not> idsAreEqual (taxZoneId ord) (Some zone)"
  define ord2 where "ord2 = (if changed then ord\<lparr>promotions := [], taxZoneId := Some zone\<rparr> else ord\<lparr>promotions := []\<rparr>)"
  have "r = removeIneffectivePromotions cfg (calculateOrderTotals cfg (priceShipping cfg ctx ps opts
           (priceLines cfg ctx zone changed ps
             (calculateOrderTotals cfg (applyTaxesToUpdated cfg ctx zone updatedIds ord2)))))"
    using assms by (simp add: applyPriceAdjustments_def Let_def z changed_def ord2_def)
  moreover have "order_lines ord2 = order_lines ord" "order_header ord2 = order_header ord" "promotions ord2 = []"
    by (simp_all add: ord2_def order_header_def)
  ultimately show thesis using that by blast
qed

lemma totals_of_result:
  assumes "applyPriceAdjustments cfg ctx cached ord ps updatedIds opts = Inr r"
    and "order_tax_strategy (cfg_calculateOrderTotals cfg) summary"
  shows "cfg_calculateOrderTotals cfg r =
     \<lparr>tot_subTotal = subTotal r, tot_subTotalWithTax = subTotalWithTax r,
      tot_shipping = shipping r, tot_shippingWithTax = shippingWithTax r\<rparr>"
proof -
  obtain u where r: "r = removeIneffectivePromotions cfg (calculateOrderTotals cfg u)"
    using assms(1) by (rule applyPriceAdjustments_Inr)
  have "same_lines r u" by (simp add: r same_lines_def frame_simps)
  then have "cfg_calculateOrderTotals cfg r = cfg_calculateOrderTotals cfg u"
    by (rule order_tax_strategy.totals_lines_only [OF assms(2)])
  then show ?thesis by (simp add: r frame_simps) (simp add: calculateOrderTotals_def Let_def)
qed

lemma lines_of_result:
  assumes "applyPriceAdjustments cfg ctx cached ord ps updatedIds opts = Inr r"
    and item: "item_invariant cfg ps (\<lambda>ord. J (order_lines ord))"
    and calc: "calculation_invariant cfg ctx ps (\<lambda>ord. P (order_lines ord))"
    and "J (order_lines ord)" and "\<And>ls. J ls \<Longrightarrow> P (map (\<lambda>l. clearAdjustments l None) ls)"
  shows "P (order_lines r)"
  using assms(1)
proof (rule applyPriceAdjustments_Inr)
  fix zone changed ord2
  let ?t = "calculateOrderTotals cfg (applyTaxesToUpdated cfg ctx zone updatedIds ord2)"
  assume ls: "order_lines ord2 = order_lines ord" and r: "r = removeIneffectivePromotions cfg
      (calculateOrderTotals cfg (priceShipping cfg ctx ps opts (priceLines cfg ctx zone changed ps ?t)))"
  have t: "J (order_lines ?t)"
    using item_invariant.keeps_applyTaxesToUpdated [OF item, of ord2] assms(4) ls by (simp add: frame_simps)
  then have "P (order_lines (priceLines cfg ctx zone changed ps ?t))"
    using assms(5) [of "order_lines ?t"]
    by (intro calculation_invariant.keeps_priceLines [OF calc, where J = "\<lambda>ord. J (order_lines ord)"])
      (auto simp: frame_simps intro: assms(5) item_invariant.keeps_applyTaxes [OF item])
  then show ?thesis by (simp add: r frame_simps)
qed

lemma promotions_applyTaxes: "promotions (applyTaxes cfg ctx zone ord) = promotions ord"
  by (simp add: applyTaxes_def frame_simps fold_frame [where f = promotions])

lemma promotions_applyTaxesToUpdated: "promotions (applyTaxesToUpdated cfg ctx zone ids ord) = promotions ord"
  unfolding applyTaxesToUpdated_def
  by (rule fold_frame [where f = promotions])+ (simp add: frame_simps)

lemma all_sourced_of_result:
  assumes "applyPriceAdjustments cfg ctx cached ord ps updatedIds opts = Inr r"
  obtains u where "sourced ps u" and
    "r = removeIneffectivePromotions cfg (calculateOrderTotals cfg (priceShipping cfg ctx ps opts u))"
  using assms
proof (rule applyPriceAdjustments_Inr)
  fix zone changed ord2
  let ?t = "calculateOrderTotals cfg (applyTaxesToUpdated cfg ctx zone updatedIds ord2)"
  assume p: "promotions ord2 = []" and r: "r = removeIneffectivePromotions cfg
      (calculateOrderTotals cfg (priceShipping cfg ctx ps opts (priceLines cfg ctx zone changed ps ?t)))"
  have none: "promotions ?t = []" by (simp add: frame_simps promotions_applyTaxesToUpdated p)
  have clear: "sourced ps (calculateOrderTotals cfg (q\<lparr>order_lines := map (\<lambda>l. clearAdjustments l None) (order_lines q)\<rparr>))"
    if "promotions q = []" for q
    using that by (simp add: sourced_def lineSources_def frame_simps clearAdjustments_def)
  have "sourced ps (priceLines cfg ctx zone changed ps ?t)"
    by (rule sourced_lines.keeps_priceLines [where J = "\<lambda>q. promotions q = []"])
      (use none clear in \<open>auto simp: promotions_applyTaxes sourced_def lineSources_def\<close>)
  then show thesis using r that by blast
qed

section \<open>Promotions and coupon codes\<close>

text \<open>Every listed promotion is one of those given and found its code, if it has one, on the order; the
  header stays.\<close>

definition coupons_found :: "promotion list \<Rightarrow> ID \<times> order_type \<times> order_state \<times> bool \<times> ID option \<times> string list \<times> payment list \<Rightarrow> order \<Rightarrow> bool" where
  "coupons_found ps header ord \<longleftrightarrow> order_header ord = header \<and> set (promotions ord) \<subseteq> set ps \<and>
     (\<forall>p \<in> set (promotions ord). coupon_ok p ord)"

lemma coupon_ok_codes: "order_header r = order_header ord \<Longrightarrow> coupon_ok p r = coupon_ok p ord"
  by (simp add: coupon_ok_def order_header_def cong: option.case_cong)

lemma coupons_found_codes:
  "order_header r = order_header ord \<Longrightarrow> promotions r = promotions ord \<Longrightarrow> coupons_found ps header r = coupons_found ps header ord"
  by (simp add: coupons_found_def coupon_ok_codes [of r ord])

lemma coupons_found_add:
  assumes "coupons_found ps header ord" and "p \<in> set ps" and "coupon_ok p ord" and "order_header r = order_header ord" and "promotions r = promotions ord"
  shows "coupons_found ps header (addPromotion r p)"
  using assms addPromotion_subset [of r p] coupon_ok_codes [of "addPromotion r p" ord]
  by (auto simp: coupons_found_def frame_simps)

interpretation coupon_lines: calculation_invariant cfg ctx ps "coupons_found ps header" for cfg ctx ps header
proof unfold_locales
  show "coupons_found ps header (calculateOrderTotals cfg ord)" if "coupons_found ps header ord" for ord
    using that coupons_found_codes [of "calculateOrderTotals cfg ord" ord] by (simp add: frame_simps)
  show "coupons_found ps header (update_line i (\<lambda>l. l\<lparr>taxLines := tls\<rparr>) ord)" if "coupons_found ps header ord" for ord i tls
    using that coupons_found_codes [of "update_line i (\<lambda>l. l\<lparr>taxLines := tls\<rparr>) ord" ord] by (simp add: frame_simps)
qed (auto intro: coupons_found_add simp: frame_simps)

lemma header_applyShipping_loop [frame_simps]:
  "order_header (applyShipping_loop cfg ctx kept sls ord) = order_header ord"
  by (induction sls arbitrary: kept) (auto simp: order_header_def split: option.split)

lemma header_applyShipping [frame_simps]: "order_header (applyShipping cfg ctx ord) = order_header ord"
  by (simp add: applyShipping_def Let_def frame_simps)

lemma coupons_found_shipping_promotion:
  assumes "coupons_found ps header ord" and "p \<in> set ps"
  shows "coupons_found ps header (applyShippingPromotion cfg ctx p ord)"
proof (cases "promotion_test (cfg_promotions cfg) ctx p ord")
  case (Some st)
  let ?step = "\<lambda>i r. case promotion_apply (cfg_promotions cfg) ctx p (ShippingArgs (shippingLines r ! i) r) st of
      None \<Rightarrow> r
    | Some adj \<Rightarrow> if adj_amount adj \<noteq> 0 then update_shipping_line i (\<lambda>l. shipping_addAdjustment l adj) r else r"
  have keep: "order_header (fold ?step xs r) = order_header r \<and> promotions (fold ?step xs r) = promotions r" for xs r
    by (induction xs arbitrary: r) (auto simp: update_shipping_line_def order_header_def split: option.split)
  then show ?thesis using assms Some promotion_test_coupon [OF Some]
    by (simp add: applyShippingPromotion_def coupons_found_add)
qed (simp add: assms applyShippingPromotion_def)

lemma coupons_found_priceShipping:
  assumes "coupons_found ps header ord"
  shows "coupons_found ps header (priceShipping cfg ctx ps opts ord)"
proof -
  have shipping: "coupons_found ps header (applyShipping cfg ctx r)" if "coupons_found ps header r" for r
    using that coupons_found_codes [of "applyShipping cfg ctx r" r] by (simp add: frame_simps)
  have clear: "coupons_found ps header (r\<lparr>shippingLines := ls\<rparr>)" if "coupons_found ps header r" for r ls
    using that coupons_found_codes [of "r\<lparr>shippingLines := ls\<rparr>" r] by (simp add: order_header_def)
  have "coupons_found ps header (applyShippingPromotions cfg ctx ps r)" if "coupons_found ps header r" for r
    using that unfolding applyShippingPromotions_def Let_def
    by (auto intro!: fold_invariant_ex [where P = "coupons_found ps header"] coupons_found_shipping_promotion clear)
  then show ?thesis using assms shipping by (simp add: priceShipping_def Let_def)
qed

lemma coupons_found_ineffective:
  assumes "coupons_found ps header ord"
  shows "coupons_found ps header (removeIneffectivePromotions cfg ord)"
proof -
  have "order_header (removeIneffectivePromotions cfg ord) = order_header ord"
    by (simp add: removeIneffectivePromotions_def order_header_def)
  then show ?thesis
    using assms coupon_ok_codes [of "removeIneffectivePromotions cfg ord" ord]
    by (auto simp: coupons_found_def) (auto simp: removeIneffectivePromotions_def split: if_splits)
qed

lemma coupons_of_result:
  assumes "applyPriceAdjustments cfg ctx cached ord ps updatedIds opts = Inr r"
  shows "coupons_found ps (order_header ord) r"
proof -
  obtain zone changed ord2 where codes: "order_header ord2 = order_header ord" "promotions ord2 = []" and r:
    "r = removeIneffectivePromotions cfg (calculateOrderTotals cfg (priceShipping cfg ctx ps opts
           (priceLines cfg ctx zone changed ps
             (calculateOrderTotals cfg (applyTaxesToUpdated cfg ctx zone updatedIds ord2)))))"
    using assms by (rule applyPriceAdjustments_Inr)
  let ?J = "coupons_found ps (order_header ord)"
  have J: "?J ord2" using codes by (simp add: coupons_found_def)
  have clear: "?J (calculateOrderTotals cfg (q\<lparr>order_lines := map (\<lambda>l. clearAdjustments l None) (order_lines q)\<rparr>))"
    if "?J q" for q
    using that coupons_found_codes
      [of "calculateOrderTotals cfg (q\<lparr>order_lines := map (\<lambda>l. clearAdjustments l None) (order_lines q)\<rparr>)" q]
    by (simp add: frame_simps) (simp add: order_header_def)
  let ?t = "calculateOrderTotals cfg (applyTaxesToUpdated cfg ctx zone updatedIds ord2)"
  have t: "?J ?t" by (intro coupon_lines.I_totals coupon_lines.keeps_applyTaxesToUpdated J)
  have "?J (priceLines cfg ctx zone changed ps ?t)"
    by (rule coupon_lines.keeps_priceLines [where J = ?J]) (use t clear coupon_lines.keeps_applyTaxes in auto)
  then have "?J (calculateOrderTotals cfg (priceShipping cfg ctx ps opts (priceLines cfg ctx zone changed ps ?t)))"
    by (intro coupon_lines.I_totals coupons_found_priceShipping)
  then show ?thesis unfolding r by (rule coupons_found_ineffective)
qed

lemma kept_lines_of_result:
  assumes "applyPriceAdjustments cfg ctx cached ord ps updatedIds opts = Inr r"
  shows "list_all2 same_line (order_lines ord) (order_lines r)"
  by (rule lines_of_result [OF assms kept_lines.item_invariant_axioms kept_lines.calculation_invariant_axioms])
    (auto intro: list_all2_map_right same_line_steps list.rel_refl)

definition listed_line :: "order_line \<Rightarrow> bool" where
  "listed_line l \<longleftrightarrow> 0 \<le> listPrice l \<and> 0 \<le> quantity l"

lemma listed_line_steps:
  "listed_line l \<Longrightarrow> listed_line (l\<lparr>taxLines := tls\<rparr>)"
  "listed_line l \<Longrightarrow> listed_line (addAdjustment l adj)"
  by (simp_all add: listed_line_def frame_simps)

lemma sane_line_cleared: "listed_line l \<Longrightarrow> sane_line (clearAdjustments l None)"
  using line_nonneg_clear [of l] by (simp add: listed_line_def sane_line_def frame_simps)

interpretation listed_lines: item_invariant cfg ctx ps "\<lambda>ord. \<forall>l \<in> set (order_lines ord). listed_line l"
  for cfg ctx ps
  by unfold_locales
    (simp_all only: frame_simps, (assumption | rule ball_update | erule listed_line_steps)+)

lemma sane_line_price:
  assumes "sane_line l" and "0 \<le> taxRate l"
  shows "0 \<le> proratedLinePrice l"
  using assms proratedLinePrice_nonneg [of l] by (simp add: sane_line_def line_nonneg_def)

text \<open>Shipping promotions touch only the adjustments of the shipping lines.\<close>

lemma applyShippingPromotion_lines:
  assumes "\<forall>sl \<in> set (shippingLines ord). Q sl" and "\<And>sl as. Q sl \<Longrightarrow> Q (sl\<lparr>adjustments := as\<rparr>)"
  shows "\<forall>sl \<in> set (shippingLines (applyShippingPromotion cfg ctx p ord)). Q sl"
proof -
  have "\<forall>sl \<in> set (shippingLines (fold (\<lambda>i r.
      case promotion_apply (cfg_promotions cfg) ctx p (ShippingArgs (shippingLines r ! i) r) st of
        None \<Rightarrow> r
      | Some adj \<Rightarrow> if adj_amount adj \<noteq> 0 then update_shipping_line i (\<lambda>l. shipping_addAdjustment l adj) r else r)
      is r)). Q sl" if "\<forall>sl \<in> set (shippingLines r). Q sl" "r' = r" for st "is" r r'
    using that(1)
  proof (induction "is" arbitrary: r)
    case (Cons i "is")
    have "\<forall>sl \<in> set (shippingLines (update_shipping_line i (\<lambda>l. shipping_addAdjustment l adj) r)). Q sl" for adj
    proof (cases "i < length (shippingLines r)")
      case True
      then have "Q (shippingLines r ! i)" using Cons.prems by simp
      then have "Q (shipping_addAdjustment (shippingLines r ! i) adj)"
        by (simp add: shipping_addAdjustment_def assms(2))
      then show ?thesis using Cons.prems
        by (auto simp: update_shipping_line_def dest!: set_list_update_cases)
    qed (use Cons.prems in \<open>simp add: update_shipping_line_def list_update_beyond\<close>)
    then show ?case using Cons by (auto intro!: Cons.IH split: option.split)
  qed simp
  then show ?thesis using assms(1) by (auto simp: applyShippingPromotion_def frame_simps split: option.split)
qed

lemma applyShippingPromotions_lines:
  assumes "\<forall>sl \<in> set (shippingLines ord). Q sl" and "\<And>sl as. Q sl \<Longrightarrow> Q (sl\<lparr>adjustments := as\<rparr>)"
  shows "\<forall>sl \<in> set (shippingLines (applyShippingPromotions cfg ctx ps ord)). Q sl"
proof -
  have c: "\<forall>sl \<in> set (shippingLines (ord\<lparr>shippingLines := map shipping_clearAdjustments (shippingLines ord)\<rparr>)). Q sl"
    using assms by (auto simp: shipping_clearAdjustments_def)
  have "\<forall>sl \<in> set (shippingLines (fold (applyShippingPromotion cfg ctx) qs
      (ord\<lparr>shippingLines := map shipping_clearAdjustments (shippingLines ord)\<rparr>))). Q sl" for qs
    by (rule fold_invariant_ex [where P = "\<lambda>r. \<forall>sl \<in> set (shippingLines r). Q sl"])
      (use c assms(2) applyShippingPromotion_lines in blast)+
  then show ?thesis using c by (simp add: applyShippingPromotions_def Let_def)
qed

lemma priceShipping_assigned:
  assumes "opt_recalculateShipping opts \<noteq> Some False"
  shows "\<forall>sl \<in> set (shippingLines (priceShipping cfg ctx ps opts ord)). shipping_line_assigned cfg (order_lines ord) sl"
  using assms applyShipping_assigned [of cfg ctx ord]
    applyShippingPromotions_lines [of "applyShipping cfg ctx ord" "shipping_line_assigned cfg (order_lines ord)" cfg ctx ps]
  by (auto simp: priceShipping_def Let_def shipping_line_assigned_def split: option.split)

section \<open>A sample calculation\<close>

definition sample_method :: shipping_method where
  "sample_method =
     \<lparr>method_id = 4, method_code = ''standard'',
      method_checker = \<lparr>op_code = ''default-shipping-eligibility-checker'', op_args = [(''orderMinimum'', IntArg 0)]\<rparr>,
      method_calculator = \<lparr>op_code = ''default-shipping-calculator'',
        op_args = [(''rate'', IntArg 500), (''taxRate'', FloatArg 20)]\<rparr>\<rparr>"

definition sample_cfg :: "(order \<Rightarrow> order_totals) \<Rightarrow> calculator_config" where
  "sample_cfg totals =
     \<lparr>cfg_zones = [], cfg_determineTaxZone = default_determineTaxZone,
      cfg_activeTaxRates = [\<lparr>tax_rate_name = ''standard'', tax_rate_value = 20, categoryId = 1, zoneId = 1\<rparr>],
      cfg_taxLine_calculate = (\<lambda>_ r _ l. default_taxLine_calculate l r),
      cfg_calculateOrderTotals = totals, cfg_getWeight = default_getWeight,
      cfg_promotions = default_promotion_options (\<lambda>_. []) (\<lambda>_. []),
      cfg_shipping = default_shipping_options,
      cfg_activeShippingMethods = [sample_method], cfg_shippingMethods = [sample_method]\<rparr>"

definition sample_promotion :: promotion where
  "sample_promotion =
     \<lparr>promotion_id = 9, promotion_name = ''five off'', startsAt = None, endsAt = None, couponCode = None,
      perCustomerUsageLimit = None, usageLimit = None, promotion_enabled = True,
      conditions = [\<lparr>op_code = ''minimum_order_amount'', op_args = [(''amount'', IntArg 1000), (''taxInclusive'', BoolArg False)]\<rparr>],
      actions = [\<lparr>op_code = ''order_fixed_discount'', op_args = [(''discount'', IntArg 500)]\<rparr>],
      priorityScore = 0\<rparr>"

definition sample_basket :: order where
  "sample_basket = (sample_order [(sample_line 1 1000 2)\<lparr>shippingLineId := Some 3\<rparr>, (sample_line 2 333 1)\<lparr>shippingLineId := Some 3\<rparr>])
     \<lparr>shippingLines := [\<lparr>listPrice = 0, listPriceIncludesTax = False, taxLines = [], adjustments = [],
        shipping_line_id = 3, shippingMethodId = Some 4\<rparr>]\<rparr>"

definition sample_priced :: "(order \<Rightarrow> order_totals) \<Rightarrow> vendure_error + order" where
  "sample_priced totals =
     applyPriceAdjustments (sample_cfg totals) sample_ctx None sample_basket [sample_promotion] [] default_price_options"

definition sample_result :: "(order \<Rightarrow> order_totals) \<Rightarrow> order" where
  "sample_result totals = (case sample_priced totals of Inr r \<Rightarrow> r | Inl _ \<Rightarrow> sample_basket)"

lemma sample_runs:
  "sample_priced default_calculateOrderTotals = Inr (sample_result default_calculateOrderTotals)"
  "sample_priced level_calculateOrderTotals = Inr (sample_result level_calculateOrderTotals)"
proof -
  have "\<not> isl (sample_priced default_calculateOrderTotals)" by code_simp
  then show "sample_priced default_calculateOrderTotals = Inr (sample_result default_calculateOrderTotals)"
    by (cases "sample_priced default_calculateOrderTotals") (auto simp: sample_result_def)
  have "\<not> isl (sample_priced level_calculateOrderTotals)" by code_simp
  then show "sample_priced level_calculateOrderTotals = Inr (sample_result level_calculateOrderTotals)"
    by (cases "sample_priced level_calculateOrderTotals") (auto simp: sample_result_def)
qed

lemmas sample_run = sample_runs [unfolded sample_priced_def]

section \<open>Properties\<close>

text \<open>
  With the default tax strategy, the sub total and the shipping an order is left with, net and
  gross, are the sums over the lines, surcharges and shipping lines it is left with: no stale total
  survives the last adjustment.
\<close>

theorem final_totals_default:
  assumes "applyPriceAdjustments cfg ctx cached ord ps updatedIds opts = Inr r"
    and "cfg_calculateOrderTotals cfg = default_calculateOrderTotals"
  shows "subTotal r = summate (order_lines r) proratedLinePrice + summate (surcharges r) surcharge_price \<and>
     subTotalWithTax r = summate (order_lines r) proratedLinePriceWithTax + summate (surcharges r) surcharge_priceWithTax \<and>
     shipping r = summate (shippingLines r) discountedPrice \<and>
     shippingWithTax r = summate (shippingLines r) discountedPriceWithTax"
  using totals_of_result [OF assms(1)] default_tax.order_tax_strategy_axioms assms(2)
  by (simp add: default_totals_sums netSubTotal_def netShipping_def)

theorem final_totals_default_witness:
  "subTotal (sample_result default_calculateOrderTotals) =
     summate (order_lines (sample_result default_calculateOrderTotals)) proratedLinePrice + 0 \<and>
   subTotalWithTax (sample_result default_calculateOrderTotals) = 2199"
proof -
  have "surcharges (sample_result default_calculateOrderTotals) = []" by code_simp
  moreover have "subTotalWithTax (sample_result default_calculateOrderTotals) = 2199" by code_simp
  ultimately show ?thesis using final_totals_default [OF sample_run(1)] by (simp add: sample_cfg_def)
qed

text \<open>
  With the order-level tax strategy, the tax on an order, total with tax less total, is exactly
  the sum of the rows of its tax summary, and the net totals are the sums of the net line prices.
\<close>

theorem final_totals_level:
  assumes "applyPriceAdjustments cfg ctx cached ord ps updatedIds opts = Inr r"
    and "cfg_calculateOrderTotals cfg = level_calculateOrderTotals"
  shows "totalWithTax r - order_total r = summate (level_calculateTaxSummary r) sum_taxTotal \<and>
     subTotal r = summate (order_lines r) proratedLinePrice + summate (surcharges r) surcharge_price \<and>
     shipping r = summate (shippingLines r) discountedPrice"
proof -
  have t: "level_calculateOrderTotals r =
     \<lparr>tot_subTotal = subTotal r, tot_subTotalWithTax = subTotalWithTax r,
      tot_shipping = shipping r, tot_shippingWithTax = shippingWithTax r\<rparr>"
    using totals_of_result [OF assms(1)] level_tax.order_tax_strategy_axioms assms(2) by simp
  show ?thesis
    using level_summary_total [of r] level_tax.totals_net [of r] level_tax.totals_shipping [of r]
    by (simp add: t totalWithTax_def order_total_def netSubTotal_def netShipping_def)
qed

theorem final_totals_level_witness:
  "totalWithTax (sample_result level_calculateOrderTotals) - order_total (sample_result level_calculateOrderTotals) =
     summate (level_calculateTaxSummary (sample_result level_calculateOrderTotals)) sum_taxTotal \<and>
   totalWithTax (sample_result level_calculateOrderTotals) = 2800"
proof -
  have "totalWithTax (sample_result level_calculateOrderTotals) = 2800" by code_simp
  then show ?thesis using final_totals_level [OF sample_run(2)] by (simp add: sample_cfg_def)
qed

text \<open>
  Repricing never changes what was ordered. The lines stay in place and in order, each with its
  id, variant, quantity, list price, tax category and shipping line.
\<close>

theorem repricing_keeps_lines:
  assumes "applyPriceAdjustments cfg ctx cached ord ps updatedIds opts = Inr r"
  shows "list_all2 same_line (order_lines ord) (order_lines r)"
  by (rule kept_lines_of_result [OF assms])

theorem repricing_keeps_lines_witness:
  "list_all2 same_line (order_lines sample_basket) (order_lines (sample_result default_calculateOrderTotals))"
  by (rule repricing_keeps_lines [OF sample_run(1)])

text \<open>
  C2: Whatever the promotions do, and whatever discounts the lines carried before, no line is priced
  below zero: if list prices and quantities are not negative, the net price of every line with a
  tax rate that is not negative is at least zero after repricing.
\<close>

theorem repriced_lines_nonneg:
  assumes "applyPriceAdjustments cfg ctx cached ord ps updatedIds opts = Inr r"
    and "\<forall>l \<in> set (order_lines ord). 0 \<le> listPrice l \<and> 0 \<le> quantity l"
  shows "\<forall>l \<in> set (order_lines r). 0 \<le> proratedLineListPrice l \<and> (0 \<le> taxRate l \<longrightarrow> 0 \<le> proratedLinePrice l)"
proof -
  have "\<forall>l \<in> set (order_lines r). sane_line l"
    by (rule lines_of_result [OF assms(1) listed_lines.item_invariant_axioms sane_lines.calculation_invariant_axioms])
      (use assms(2) in \<open>auto simp: listed_line_def sane_line_cleared\<close>)
  then show ?thesis
    by (auto simp: sane_line_price proratedLineListPrice_exact sane_line_def line_nonneg_def math_round_nonneg)
qed

theorem repriced_lines_nonneg_witness:
  "list_all (\<lambda>l. 0 \<le> proratedLineListPrice l) (order_lines (sample_result default_calculateOrderTotals)) \<and>
   map proratedLineListPrice (order_lines (sample_result default_calculateOrderTotals)) = [1571, 262]"
proof -
  have "map proratedLineListPrice (order_lines (sample_result default_calculateOrderTotals)) = [1571, 262]" by code_simp
  moreover have "\<forall>l \<in> set (order_lines sample_basket). 0 \<le> listPrice l \<and> 0 \<le> quantity l"
    by (simp add: sample_basket_def sample_order_def sample_line_def)
  ultimately show ?thesis using repriced_lines_nonneg [OF sample_run(1)] by (simp add: list_all_iff)
qed



text \<open>
  When shipping is recalculated, every shipping line left on the order is assigned to one of its
  order lines and names a shipping method that exists: a line whose method was removed or is no
  longer eligible is replaced or dropped.
\<close>

theorem shipping_lines_assigned:
  assumes "applyPriceAdjustments cfg ctx cached ord ps updatedIds opts = Inr r"
    and "opt_recalculateShipping opts \<noteq> Some False"
  shows "\<forall>sl \<in> set (shippingLines r).
     (\<exists>l \<in> set (order_lines r). shippingLineId l = Some (shipping_line_id sl)) \<and>
     (\<exists>m \<in> set (cfg_shippingMethods cfg) \<union> set (cfg_activeShippingMethods cfg). shippingMethodId sl = Some (method_id m))"
  using assms(1)
proof (rule applyPriceAdjustments_Inr)
  fix zone changed ord2
  let ?u = "priceLines cfg ctx zone changed ps (calculateOrderTotals cfg (applyTaxesToUpdated cfg ctx zone updatedIds ord2))"
  assume r: "r = removeIneffectivePromotions cfg (calculateOrderTotals cfg (priceShipping cfg ctx ps opts ?u))"
  show ?thesis
    using priceShipping_assigned [OF assms(2), of cfg ctx ps ?u]
    by (simp add: r frame_simps shipping_line_assigned_def)
qed

theorem shipping_lines_assigned_witness:
  "map shippingMethodId (shippingLines (sample_result default_calculateOrderTotals)) = [Some 4] \<and>
   list_all (\<lambda>sl. list_ex (\<lambda>l. shippingLineId l = Some (shipping_line_id sl)) (order_lines (sample_result default_calculateOrderTotals)))
     (shippingLines (sample_result default_calculateOrderTotals))"
proof -
  have "map shippingMethodId (shippingLines (sample_result default_calculateOrderTotals)) = [Some 4]" by code_simp
  then show ?thesis using shipping_lines_assigned [OF sample_run(1)]
    by (simp add: default_price_options_def list_all_iff list_ex_iff)
qed

text \<open>
  Repricing fails exactly when no tax zone is active, with the error the code throws; otherwise it
  returns an order that carries the active zone.
\<close>

theorem repricing_error:
  "applyPriceAdjustments cfg ctx cached ord ps updatedIds opts = Inl e \<longleftrightarrow>
     activeTaxZone cfg ctx cached (ord\<lparr>promotions := []\<rparr>) = None \<and>
     e = InternalServerError ''error.no-active-tax-zone''"
  by (auto simp: applyPriceAdjustments_def Let_def split: option.splits)

end
