(* ===== verification/OrderUtils.thy ===== *)
theory OrderUtils
  imports Entities
begin

text \<open>
  \<^verbatim>\<open>service/helpers/utils/order-utils.ts\<close>: what payments cover, and how far an order is
  fulfilled. The database lookup of order lines with their orders is an argument.
\<close>

section \<open>Payments\<close>

definition counts_as_payment :: "payment_state list option \<Rightarrow> payment \<Rightarrow> bool" where
  "counts_as_payment state p =
     (case state of
        Some states \<Rightarrow> payment_state p \<in> set states
      | None \<Rightarrow> payment_state p \<noteq> Payment_Error \<and> payment_state p \<noteq> Payment_Declined \<and>
                payment_state p \<noteq> Payment_Cancelled)"

definition settledRefundTotal :: "payment \<Rightarrow> int" where
  "settledRefundTotal p = summate (filter (\<lambda>r. refund_state r = Refund_Settled) (refunds p)) refund_total"

definition totalCoveredByPayments :: "order \<Rightarrow> payment_state list option \<Rightarrow> int" where
  "totalCoveredByPayments ord state =
     foldl (\<lambda>total p. total + (payment_amount p - \<bar>settledRefundTotal p\<bar>)) 0
       (filter (counts_as_payment state) (payments ord))"

definition orderTotalIsCovered :: "order \<Rightarrow> payment_state list \<Rightarrow> bool" where
  "orderTotalIsCovered ord states \<longleftrightarrow> totalWithTax ord \<le> totalCoveredByPayments ord (Some states)"

section \<open>Fulfillment\<close>

text \<open>A fulfillment line refers to its fulfillment; the pair carries that fulfillment's state.\<close>

definition getOrderFulfillmentLines :: "order \<Rightarrow> (fulfillment_state \<times> order_line_input) list" where
  "getOrderFulfillmentLines ord =
     concat (map (\<lambda>f. map (\<lambda>l. (fulfillment_state f, l)) (fulfillment_lines f))
       (filter (\<lambda>f. fulfillment_state f \<noteq> Fulfillment_Cancelled) (fulfillments ord)))"

definition lineFulfillmentStates :: "order \<Rightarrow> order_line \<Rightarrow> fulfillment_state option list" where
  "lineFulfillmentStates ord line =
     (let matching = filter (\<lambda>fl. idsAreEqual (Some (orderLineId (snd fl))) (Some (line_id line)))
                       (getOrderFulfillmentLines ord);
          totalFulfilled = summate matching (\<lambda>fl. input_quantity (snd fl))
      in if 0 < totalFulfilled then map (\<lambda>fl. Some (fst fl)) matching else [None])"

definition getOrderLinesFulfillmentStates :: "order \<Rightarrow> fulfillment_state option list" where
  "getOrderLinesFulfillmentStates ord =
     unique (concat (map (lineFulfillmentStates ord) (filter (\<lambda>l. quantity l \<noteq> 0) (order_lines ord))))"

definition add_fulfilled :: "fulfillment_state \<times> order_line_input \<Rightarrow> (ID, int) js_map \<Rightarrow> (ID, int) js_map" where
  "add_fulfilled fl acc =
     map_set (orderLineId (snd fl))
       ((case map_get acc (orderLineId (snd fl)) of None \<Rightarrow> 0 | Some n \<Rightarrow> n) + input_quantity (snd fl)) acc"

definition isOrderPartiallyFulfilled :: "order \<Rightarrow> bool" where
  "isOrderPartiallyFulfilled ord =
     (let lines = fold add_fulfilled (getOrderFulfillmentLines ord) []
      in \<exists>line \<in> set (order_lines ord).
           case map_get lines (line_id line) of None \<Rightarrow> False | Some n \<Rightarrow> n < quantity line)"

definition orderItemsAreDelivered :: "order \<Rightarrow> bool" where
  "orderItemsAreDelivered ord \<longleftrightarrow>
     list_all (\<lambda>s. s = Some Fulfillment_Delivered) (getOrderLinesFulfillmentStates ord) \<and>
     \<not> isOrderPartiallyFulfilled ord"

definition orderItemsArePartiallyDelivered :: "order \<Rightarrow> bool" where
  "orderItemsArePartiallyDelivered ord \<longleftrightarrow>
     (let states = getOrderLinesFulfillmentStates ord
      in list_ex (\<lambda>s. s = Some Fulfillment_Delivered) states \<and>
         (\<not> list_all (\<lambda>s. s = Some Fulfillment_Delivered) states \<or> isOrderPartiallyFulfilled ord))"

definition orderItemsAreShipped :: "order \<Rightarrow> bool" where
  "orderItemsAreShipped ord \<longleftrightarrow>
     list_all (\<lambda>s. s = Some Fulfillment_Shipped) (getOrderLinesFulfillmentStates ord) \<and>
     \<not> isOrderPartiallyFulfilled ord"

definition orderItemsArePartiallyShipped :: "order \<Rightarrow> bool" where
  "orderItemsArePartiallyShipped ord \<longleftrightarrow>
     (let states = getOrderLinesFulfillmentStates ord
      in list_ex (\<lambda>s. s = Some Fulfillment_Shipped) states \<and>
         (\<not> list_all (\<lambda>s. s = Some Fulfillment_Shipped) states \<or> isOrderPartiallyFulfilled ord))"

definition orderLinesAreAllCancelled :: "order \<Rightarrow> bool" where
  "orderLinesAreAllCancelled ord \<longleftrightarrow> list_all (\<lambda>l. quantity l = 0) (order_lines ord)"

section \<open>The orders behind a list of lines\<close>

text \<open>
  \<open>found\<close> is what the repository returns for the ids of the input: each line with its order.
  An order outside the active channel is an error that names the line.
\<close>

fun getOrdersFromLines_loop ::
  "ID \<Rightarrow> order_line_input list \<Rightarrow> (order_line \<times> order) list \<Rightarrow> (ID, order) js_map \<Rightarrow> (ID, order) js_map result" where
  "getOrdersFromLines_loop channelId inputs [] orders = Inr orders"
| "getOrdersFromLines_loop channelId inputs ((line, ord) # found) orders =
     (if List.find (\<lambda>i. idsAreEqual (Some (orderLineId i)) (Some (line_id line))) inputs = None
      then getOrdersFromLines_loop channelId inputs found orders
      else if \<not> (\<exists>c \<in> set (order_channels ord). idsAreEqual (Some c) (Some channelId))
      then Inl (EntityNotFoundError ''OrderLine'' (line_id line))
      else getOrdersFromLines_loop channelId inputs found
             (if map_get orders (order_id ord) = None then map_set (order_id ord) ord orders else orders))"

definition getOrdersFromLines ::
  "ID \<Rightarrow> order_line_input list \<Rightarrow> (order_line \<times> order) list \<Rightarrow> order list result" where
  "getOrdersFromLines channelId inputs found =
     bind_result (getOrdersFromLines_loop channelId inputs found []) (\<lambda>orders. Inr (map snd orders))"

definition assertOrderIsInChannel :: "ID \<Rightarrow> order option \<Rightarrow> string \<Rightarrow> ID \<Rightarrow> unit result" where
  "assertOrderIsInChannel channelId ord childEntityName childEntityId =
     (case ord of
        Some r \<Rightarrow> if channelId \<in> set (order_channels r) then Inr () else Inl (EntityNotFoundError childEntityName childEntityId)
      | None \<Rightarrow> Inl (EntityNotFoundError childEntityName childEntityId))"

section \<open>Lemmas\<close>

lemma totalCovered_sum [total_simps]:
  "totalCoveredByPayments ord state =
     sum_list (map (\<lambda>p. payment_amount p - \<bar>settledRefundTotal p\<bar>) (filter (counts_as_payment state) (payments ord)))"
  by (simp add: totalCoveredByPayments_def foldl_plus_sum_list)

text \<open>The quantity of a line that is in some fulfillment that was not cancelled.\<close>

definition fulfilledQuantity :: "order \<Rightarrow> ID \<Rightarrow> int" where
  "fulfilledQuantity ord i =
     summate (filter (\<lambda>fl. orderLineId (snd fl) = i) (getOrderFulfillmentLines ord)) (\<lambda>fl. input_quantity (snd fl))"

definition fulfillment_quantities_ok :: "order \<Rightarrow> bool" where
  "fulfillment_quantities_ok ord \<longleftrightarrow>
     (\<forall>l \<in> set (order_lines ord). 0 \<le> quantity l) \<and> (\<forall>fl \<in> set (getOrderFulfillmentLines ord). 0 < input_quantity (snd fl))"

lemma map_get_add_fulfilled:
  "map_get (add_fulfilled fl m) i =
     (if i = orderLineId (snd fl) then Some ((case map_get m i of None \<Rightarrow> 0 | Some n \<Rightarrow> n) + input_quantity (snd fl))
      else map_get m i)"
  by (simp add: add_fulfilled_def map_get_set)

lemma fulfilled_map_get:
  "map_get (fold add_fulfilled fls m) i =
   (if \<exists>fl \<in> set fls. orderLineId (snd fl) = i
    then Some ((case map_get m i of None \<Rightarrow> 0 | Some n \<Rightarrow> n) +
               sum_list (map (\<lambda>fl. input_quantity (snd fl)) (filter (\<lambda>fl. orderLineId (snd fl) = i) fls)))
    else map_get m i)"
proof (induction fls arbitrary: m)
  case (Cons fl fls)
  have "filter (\<lambda>fl. orderLineId (snd fl) = i) fls = []" if "\<not> (\<exists>fl \<in> set fls. orderLineId (snd fl) = i)"
    using that by (simp add: filter_empty_conv)
  then show ?case by (auto simp: Cons.IH map_get_add_fulfilled)
qed simp

lemma isOrderPartiallyFulfilled_iff:
  "isOrderPartiallyFulfilled ord \<longleftrightarrow>
     (\<exists>l \<in> set (order_lines ord). (\<exists>fl \<in> set (getOrderFulfillmentLines ord). orderLineId (snd fl) = line_id l) \<and>
        fulfilledQuantity ord (line_id l) < quantity l)"
  by (auto simp: isOrderPartiallyFulfilled_def Let_def fulfilled_map_get fulfilledQuantity_def summate_sum_list
      split: option.splits if_splits)

lemma fulfilled_pos:
  assumes "fulfillment_quantities_ok ord" and "fl \<in> set (getOrderFulfillmentLines ord)" and "orderLineId (snd fl) = i"
  shows "0 < fulfilledQuantity ord i"
proof -
  let ?ms = "filter (\<lambda>fl. orderLineId (snd fl) = i) (getOrderFulfillmentLines ord)"
  have "input_quantity (snd fl) \<le> sum_list (map (\<lambda>fl. input_quantity (snd fl)) ?ms)"
    using assms by (intro member_le_sum_list) (auto simp: fulfillment_quantities_ok_def)
  moreover have "0 < input_quantity (snd fl)" using assms by (simp add: fulfillment_quantities_ok_def)
  ultimately show ?thesis by (simp add: fulfilledQuantity_def summate_sum_list)
qed

text \<open>Every counted line is in state \<open>s\<close> alone, and completely.\<close>

lemma all_fulfilled_iff:
  assumes "fulfillment_quantities_ok ord"
  shows "list_all (\<lambda>x. x = Some s) (getOrderLinesFulfillmentStates ord) \<and> \<not> isOrderPartiallyFulfilled ord \<longleftrightarrow>
     (\<forall>l \<in> set (order_lines ord). quantity l \<noteq> 0 \<longrightarrow>
        quantity l \<le> fulfilledQuantity ord (line_id l) \<and>
        (\<forall>(st, fl) \<in> set (getOrderFulfillmentLines ord). orderLineId fl = line_id l \<longrightarrow> st = s))"
    (is "?L \<longleftrightarrow> ?R")
proof -
  let ?F = "getOrderFulfillmentLines ord"
  have "(\<forall>x \<in> set (lineFulfillmentStates ord l). x = Some s) \<longleftrightarrow>
      0 < fulfilledQuantity ord (line_id l) \<and> (\<forall>(st, fl) \<in> set ?F. orderLineId fl = line_id l \<longrightarrow> st = s)" for l
    unfolding lineFulfillmentStates_def Let_def fulfilledQuantity_def idsAreEqual_Some
    by (cases "0 < summate (filter (\<lambda>fl. orderLineId (snd fl) = line_id l) ?F) (\<lambda>fl. input_quantity (snd fl))") fastforce+
  then have states: "list_all (\<lambda>x. x = Some s) (getOrderLinesFulfillmentStates ord) \<longleftrightarrow>
     (\<forall>l \<in> set (order_lines ord). quantity l \<noteq> 0 \<longrightarrow>
        0 < fulfilledQuantity ord (line_id l) \<and> (\<forall>(st, fl) \<in> set ?F. orderLineId fl = line_id l \<longrightarrow> st = s))"
    unfolding list_all_iff getOrderLinesFulfillmentStates_def set_unique set_concat set_map set_filter
    by blast
  have zero: "0 \<le> fulfilledQuantity ord i" for i
    using assms unfolding fulfilledQuantity_def summate_sum_list fulfillment_quantities_ok_def
    by (intro sum_list_nonneg_map) (auto intro: order.strict_implies_order)
  have none: "fulfilledQuantity ord i = 0" if "\<forall>fl \<in> set ?F. orderLineId (snd fl) \<noteq> i" for i
    using that by (simp add: fulfilledQuantity_def summate_sum_list filter_empty_conv [THEN iffD2])
  show ?thesis
  proof
    assume L: ?L
    show ?R
    proof (intro ballI impI)
      fix l assume l: "l \<in> set (order_lines ord)" "quantity l \<noteq> 0"
      then have pos: "0 < fulfilledQuantity ord (line_id l)" using states [THEN iffD1, OF conjunct1 [OF L]] by blast
      then have "\<exists>fl \<in> set ?F. orderLineId (snd fl) = line_id l" using none [of "line_id l"] by (metis less_irrefl)
      then have "quantity l \<le> fulfilledQuantity ord (line_id l)"
        using L l(1) unfolding isOrderPartiallyFulfilled_iff by (meson linorder_not_less)
      then show "quantity l \<le> fulfilledQuantity ord (line_id l) \<and>
          (\<forall>(st, fl) \<in> set ?F. orderLineId fl = line_id l \<longrightarrow> st = s)"
        using states [THEN iffD1, OF conjunct1 [OF L]] l by blast
    qed
  next
    assume R: ?R
    have "0 < fulfilledQuantity ord (line_id l)" if "l \<in> set (order_lines ord)" "quantity l \<noteq> 0" for l
    proof -
      have "0 \<le> quantity l" using assms that(1) by (simp add: fulfillment_quantities_ok_def)
      then have "0 < quantity l" using that(2) by simp
      also have "quantity l \<le> fulfilledQuantity ord (line_id l)" using R that by blast
      finally show ?thesis .
    qed
    then have "list_all (\<lambda>x. x = Some s) (getOrderLinesFulfillmentStates ord)" using R states by blast
    moreover have "\<not> isOrderPartiallyFulfilled ord"
      unfolding isOrderPartiallyFulfilled_iff using R zero by (metis linorder_not_less)
    ultimately show ?L by simp
  qed
qed

lemma values_map_set: "(a, b) \<in> set (map_set k v m) \<Longrightarrow> b = v \<or> (a, b) \<in> set m"
  by (induction m) (auto split: if_splits)

lemma getOrdersFromLines_loop_channel:
  assumes "getOrdersFromLines_loop ch inputs found m = Inr m'" and "\<forall>(i, r) \<in> set m. ch \<in> set (order_channels r)"
  shows "\<forall>(i, r) \<in> set m'. ch \<in> set (order_channels r)"
  using assms
proof (induction ch inputs found m rule: getOrdersFromLines_loop.induct)
  case (2 ch inputs line ord found m)
  have "\<forall>(i, r) \<in> set (if map_get m (order_id ord) = None then map_set (order_id ord) ord m else m). ch \<in> set (order_channels r)"
    if "ch \<in> set (order_channels ord)"
  proof -
    have "\<forall>(i, r) \<in> set (map_set (order_id ord) ord m). ch \<in> set (order_channels r)"
    proof (intro ballI)
      fix e assume "e \<in> set (map_set (order_id ord) ord m)"
      then have "snd e = ord \<or> e \<in> set m" using values_map_set [of "fst e" "snd e"] by simp
      then show "case e of (i, r) \<Rightarrow> ch \<in> set (order_channels r)" using that 2(4) by (auto simp: case_prod_beta)
    qed
    then show ?thesis using 2(4) by simp
  qed
  then show ?case using 2 by (simp split: if_splits)
qed simp

lemma getOrdersFromLines_loop_error:
  "getOrdersFromLines_loop ch inputs found m = Inl e \<Longrightarrow>
     \<exists>line r. (line, r) \<in> set found \<and> ch \<notin> set (order_channels r) \<and> e = EntityNotFoundError ''OrderLine'' (line_id line)"
  by (induction ch inputs found m rule: getOrdersFromLines_loop.induct) (auto split: if_splits)

section \<open>Properties\<close>

text \<open>
  With positive fulfilled quantities, an order counts as delivered exactly when every line that
  still has a quantity is delivered in full: the quantities of its fulfillments that were not
  cancelled reach its own, and all of those fulfillments are delivered.
\<close>

theorem delivered_exact:
  assumes "fulfillment_quantities_ok ord"
  shows "orderItemsAreDelivered ord \<longleftrightarrow>
     (\<forall>l \<in> set (order_lines ord). quantity l \<noteq> 0 \<longrightarrow>
        quantity l \<le> fulfilledQuantity ord (line_id l) \<and>
        (\<forall>(st, fl) \<in> set (getOrderFulfillmentLines ord). orderLineId fl = line_id l \<longrightarrow> st = Fulfillment_Delivered))"
  using all_fulfilled_iff [OF assms, of Fulfillment_Delivered] by (simp add: orderItemsAreDelivered_def)

definition sample_fulfilled :: "fulfillment_state \<Rightarrow> order" where
  "sample_fulfilled st = (sample_order [sample_line 1 1000 2])
     \<lparr>fulfillments := [\<lparr>fulfillment_id = 1, fulfillment_state = st, handlerCode = ''m'',
        fulfillment_lines = [\<lparr>orderLineId = 1, input_quantity = 2\<rparr>]\<rparr>]\<rparr>"

theorem delivered_exact_witness:
  "orderItemsAreDelivered (sample_fulfilled Fulfillment_Delivered) \<and>
   \<not> orderItemsAreDelivered (sample_fulfilled Fulfillment_Shipped)"
proof -
  have d: "fulfillment_quantities_ok (sample_fulfilled Fulfillment_Delivered)" by code_simp
  have "fulfilledQuantity (sample_fulfilled Fulfillment_Delivered) 1 = 2" by code_simp
  then have "orderItemsAreDelivered (sample_fulfilled Fulfillment_Delivered)"
    unfolding delivered_exact [OF d]
    by (simp add: sample_fulfilled_def sample_order_def sample_line_def getOrderFulfillmentLines_def)
  moreover have "\<not> orderItemsAreDelivered (sample_fulfilled Fulfillment_Shipped)" by code_simp
  ultimately show ?thesis by simp
qed

text \<open>
  Looking up the orders behind a list of lines never leaves the active channel: either every
  order returned belongs to it, or the call fails with an error that names a line.
\<close>

theorem orders_from_lines_channel:
  "case getOrdersFromLines channelId inputs found of
     Inr ords \<Rightarrow> list_all (\<lambda>r. channelId \<in> set (order_channels r)) ords
   | Inl e \<Rightarrow> (\<exists>line r. (line, r) \<in> set found \<and> channelId \<notin> set (order_channels r) \<and>
                e = EntityNotFoundError ''OrderLine'' (line_id line))"
proof (cases "getOrdersFromLines_loop channelId inputs found []")
  case (Inl e)
  then show ?thesis using getOrdersFromLines_loop_error [OF Inl] by (simp add: getOrdersFromLines_def)
next
  case (Inr m)
  then show ?thesis using getOrdersFromLines_loop_channel [OF Inr] by (auto simp: getOrdersFromLines_def list_all_iff)
qed

end
