(* ===== verification/FSM.thy ===== *)
theory FSM
  imports Prelude
begin

text \<open>
  The finite state machine every process runs on (\<^verbatim>\<open>common/finite-state-machine/\<close>):
  the transition table, the merge of several processes' tables, the validation of a table, and
  \<^verbatim>\<open>FSM.transitionTo\<close>. A table is an ordered map from states to what may follow them; the
  callbacks may change the data they are handed, so the data is passed through.
\<close>

section \<open>Transition tables\<close>

datatype merge_strategy = Merge | Replace

record 's transition_entry =
  to_states :: "'s list"
  mergeStrategy :: "merge_strategy option"

type_synonym 's transitions = "('s, 's transition_entry) js_map"

definition to_only :: "'s list \<Rightarrow> 's transition_entry" where
  "to_only ss = \<lparr>to_states = ss, mergeStrategy = None\<rparr>"

definition merge_entry :: "'s \<Rightarrow> 's transition_entry \<Rightarrow> 's transitions \<Rightarrow> 's transitions" where
  "merge_entry key e merged =
     (case map_get merged key of
        Some old \<Rightarrow>
          if mergeStrategy e = Some Replace
          then map_set key (old\<lparr>to_states := to_states e\<rparr>) merged
          else map_set key (old\<lparr>to_states := to_states old @ to_states e\<rparr>) merged
      | None \<Rightarrow> map_set key e merged)"

definition mergeTransitionDefinitions :: "'s transitions \<Rightarrow> 's transitions option \<Rightarrow> 's transitions" where
  "mergeTransitionDefinitions a b =
     (case b of None \<Rightarrow> a | Some t \<Rightarrow> fold (\<lambda>(k, e) merged. merge_entry k e merged) t a)"

section \<open>The machine\<close>

text \<open>What \<^verbatim>\<open>onTransitionStart\<close> may answer.\<close>

datatype start_result = Start_void | Start_true | Start_false | Start_message string

record ('s, 'd) fsm_config =
  fsm_transitions :: "'s transitions"
  fsm_onTransitionStart :: "('s \<Rightarrow> 's \<Rightarrow> 'd \<Rightarrow> (start_result \<times> 'd) result) option"
  fsm_onTransitionEnd :: "('s \<Rightarrow> 's \<Rightarrow> 'd \<Rightarrow> 'd result) option"
  fsm_onError :: "('s \<Rightarrow> 's \<Rightarrow> string option \<Rightarrow> vendure_error option) option"

text \<open>Reading the table at a state it does not have is a \<^verbatim>\<open>TypeError\<close>.\<close>

definition canTransitionTo :: "'s transitions \<Rightarrow> 's \<Rightarrow> 's \<Rightarrow> bool result" where
  "canTransitionTo transitions current target =
     (case map_get transitions current of
        None \<Rightarrow> Inl (JsError ''TypeError'')
      | Some e \<Rightarrow> Inr (target \<in> set (to_states e)))"

definition fsm_getNextStates :: "'s transitions \<Rightarrow> 's \<Rightarrow> 's list" where
  "fsm_getNextStates transitions current =
     (case map_get transitions current of None \<Rightarrow> [] | Some e \<Rightarrow> to_states e)"

datatype 's finalize = Finalize_noop | Finalize_end 's 's

definition fsm_error :: "('s, 'd) fsm_config \<Rightarrow> 's \<Rightarrow> 's \<Rightarrow> string option \<Rightarrow> 'd \<Rightarrow> ('s \<times> 'd \<times> 's finalize) result" where
  "fsm_error cfg current target message data =
     (case fsm_onError cfg of
        None \<Rightarrow> Inr (current, data, Finalize_noop)
      | Some f \<Rightarrow> (case f current target message of
            Some e \<Rightarrow> Inl e
          | None \<Rightarrow> Inr (current, data, Finalize_noop)))"

definition transitionTo :: "('s, 'd) fsm_config \<Rightarrow> 's \<Rightarrow> 's \<Rightarrow> 'd \<Rightarrow> ('s \<times> 'd \<times> 's finalize) result" where
  "transitionTo cfg current target data =
     bind_result (canTransitionTo (fsm_transitions cfg) current target) (\<lambda>allowed.
       if \<not> allowed then fsm_error cfg current target None data
       else case fsm_onTransitionStart cfg of
              None \<Rightarrow> Inr (target, data, Finalize_end current target)
            | Some start \<Rightarrow>
                bind_result (start current target data) (\<lambda>(canTransition, data').
                  case canTransition of
                    Start_false \<Rightarrow> Inr (current, data', Finalize_noop)
                  | Start_message m \<Rightarrow> fsm_error cfg current target (Some m) data'
                  | _ \<Rightarrow> Inr (target, data', Finalize_end current target)))"

definition finalize :: "('s, 'd) fsm_config \<Rightarrow> 's finalize \<Rightarrow> 'd \<Rightarrow> 'd result" where
  "finalize cfg f data =
     (case f of
        Finalize_noop \<Rightarrow> Inr data
      | Finalize_end fromState toState \<Rightarrow>
          (case fsm_onTransitionEnd cfg of None \<Rightarrow> Inr data | Some g \<Rightarrow> g fromState toState data))"

section \<open>Processes, and the configuration a state machine builds from them\<close>

record ('s, 'd) fsm_process =
  proc_transitions :: "'s transitions option"
  proc_onTransitionStart :: "('s \<Rightarrow> 's \<Rightarrow> 'd \<Rightarrow> (start_result \<times> 'd) result) option"
  proc_onTransitionEnd :: "('s \<Rightarrow> 's \<Rightarrow> 'd \<Rightarrow> 'd result) option"

definition allTransitions :: "('s, 'd) fsm_process list \<Rightarrow> 's transitions" where
  "allTransitions processes = fold (\<lambda>p t. mergeTransitionDefinitions t (proc_transitions p)) processes []"

fun run_starts :: "('s, 'd) fsm_process list \<Rightarrow> 's \<Rightarrow> 's \<Rightarrow> 'd \<Rightarrow> (start_result \<times> 'd) result" where
  "run_starts [] fromState toState data = Inr (Start_void, data)"
| "run_starts (p # ps) fromState toState data =
     (case proc_onTransitionStart p of
        None \<Rightarrow> run_starts ps fromState toState data
      | Some start \<Rightarrow>
          bind_result (start fromState toState data) (\<lambda>(r, data').
            case r of
              Start_false \<Rightarrow> Inr (Start_false, data')
            | Start_message m \<Rightarrow> Inr (Start_message m, data')
            | _ \<Rightarrow> run_starts ps fromState toState data'))"

fun run_ends :: "('s, 'd) fsm_process list \<Rightarrow> 's \<Rightarrow> 's \<Rightarrow> 'd \<Rightarrow> 'd result" where
  "run_ends [] fromState toState data = Inr data"
| "run_ends (p # ps) fromState toState data =
     (case proc_onTransitionEnd p of
        None \<Rightarrow> run_ends ps fromState toState data
      | Some f \<Rightarrow> bind_result (f fromState toState data) (run_ends ps fromState toState))"

text \<open>
  The configuration the four state machines share: every callback of the processes in order, and an
  error callback that throws.
\<close>

definition process_config :: "('s, 'd) fsm_process list \<Rightarrow> string \<Rightarrow> ('s, 'd) fsm_config" where
  "process_config processes defaultMessage =
     \<lparr>fsm_transitions = allTransitions processes,
      fsm_onTransitionStart = Some (run_starts processes),
      fsm_onTransitionEnd = Some (run_ends processes),
      fsm_onError = Some (\<lambda>fromState toState message.
        Some (IllegalOperationError (case message of None \<Rightarrow> defaultMessage
                                     | Some m \<Rightarrow> if m = [] then defaultMessage else m)))\<rparr>"

section \<open>Validating a transition table\<close>

definition allStatesReached :: "'s transitions \<Rightarrow> 's list \<Rightarrow> bool" where
  "allStatesReached t reached = list_all (\<lambda>e. fst e \<in> set reached) t"

text \<open>
  \<^verbatim>\<open>walkGraph\<close> with its call stack written out: a frame is a state with the candidates its loop
  still has to look at. A call that returns early leaves no frame. An unknown candidate throws, which
  is \<^term>\<open>Inl\<close> of the state and the candidate.
\<close>

function walkGraph :: "'s transitions \<Rightarrow> ('s \<times> 's list) list \<Rightarrow> 's list \<Rightarrow> ('s \<times> 's) + 's list" where
  "walkGraph t [] reached = Inr reached"
| "walkGraph t ((s, []) # frames) reached = walkGraph t frames reached"
| "walkGraph t ((s, c # cs) # frames) reached =
     (case map_get t c of
        None \<Rightarrow> Inl (s, c)
      | Some e \<Rightarrow>
          if c \<in> set reached then walkGraph t ((s, cs) # frames) reached
          else if allStatesReached t (c # reached) then walkGraph t ((s, cs) # frames) (c # reached)
          else walkGraph t ((c, to_states e) # (s, cs) # frames) (c # reached))"
  by pat_completeness auto

definition unreached :: "'s transitions \<Rightarrow> 's list \<Rightarrow> 's set" where
  "unreached t reached = fst ` set t - set reached"

lemma unreached_step: "map_get t c = Some e \<Longrightarrow> c \<notin> set r \<Longrightarrow> card (unreached t (c # r)) < card (unreached t r)"
proof -
  assume "map_get t c = Some e" "c \<notin> set r"
  then have "c \<in> unreached t r"
    by (auto simp: unreached_def map_get_def dest!: map_of_SomeD intro: rev_image_eqI)
  moreover have "unreached t (c # r) = unreached t r - {c}" by (auto simp: unreached_def)
  moreover have "finite (unreached t r)" by (simp add: unreached_def)
  ultimately show ?thesis by (metis card_Diff1_less)
qed

termination walkGraph
  by (relation "measures [\<lambda>(t, frames, reached). card (unreached t reached),
                          \<lambda>(t, frames, reached). length frames + sum_list (map (\<lambda>f. length (snd f)) frames)]")
    (auto simp: unreached_step)

record 's validation =
  val_valid :: bool
  val_unknown :: "('s option \<times> 's) option"
  val_unreachable :: "'s list"

text \<open>
  The error text is printed from what it names: the unknown candidate (with the state it was reached
  from, none for the initial state itself) or the unreachable states.
\<close>

definition validateTransitionDefinition :: "'s transitions \<Rightarrow> 's \<Rightarrow> 's validation" where
  "validateTransitionDefinition t initialState =
     (case map_get t initialState of
        None \<Rightarrow> \<lparr>val_valid = False, val_unknown = Some (None, initialState), val_unreachable = []\<rparr>
      | Some e \<Rightarrow>
          (case (if allStatesReached t [initialState] then Inr [initialState]
                 else walkGraph t [(initialState, to_states e)] [initialState]) of
             Inl (s, c) \<Rightarrow> \<lparr>val_valid = False, val_unknown = Some (Some s, c), val_unreachable = []\<rparr>
           | Inr reached \<Rightarrow>
               \<lparr>val_valid = True, val_unknown = None,
                val_unreachable = filter (\<lambda>s. s \<notin> set reached) (map fst t)\<rparr>))"

definition validation_error :: "'s validation \<Rightarrow> bool" where
  "validation_error v \<longleftrightarrow> val_unknown v \<noteq> None \<or> val_unreachable v \<noteq> []"

text \<open>The constructor of a state machine: an invalid table throws, an unreachable state is a warning.\<close>

definition initConfig :: "('s, 'd) fsm_process list \<Rightarrow> 's \<Rightarrow> string \<Rightarrow> ('s, 'd) fsm_config result" where
  "initConfig processes initialState defaultMessage =
     (let v = validateTransitionDefinition (allTransitions processes) initialState
      in if \<not> val_valid v then Inl (JsError ''invalid configuration'')
         else Inr (process_config processes defaultMessage))"

section \<open>Reachability\<close>

definition edge :: "'s transitions \<Rightarrow> 's \<Rightarrow> 's \<Rightarrow> bool" where
  "edge t a b \<longleftrightarrow> b \<in> set (fsm_getNextStates t a)"

definition reachable :: "'s transitions \<Rightarrow> 's \<Rightarrow> 's \<Rightarrow> bool" where
  "reachable t a b \<longleftrightarrow> steps (edge t) a b"

lemma edge_Some: "edge t a b \<longleftrightarrow> (\<exists>e. map_get t a = Some e \<and> b \<in> set (to_states e))"
  by (cases "map_get t a") (auto simp: edge_def fsm_getNextStates_def)

lemma canTransitionTo_edge: "canTransitionTo t a b = Inr True \<longleftrightarrow> edge t a b"
  by (auto simp: canTransitionTo_def edge_Some split: option.splits)

lemma reachable_trans_edge: "reachable t a b \<Longrightarrow> edge t b c \<Longrightarrow> reachable t a c"
  by (auto simp: reachable_def intro: steps.intros)

text \<open>
  Soundness and completeness of the walk: what it marks is reachable, and unless everything is
  marked, every successor of a marked state is marked or waits in a frame.
\<close>

definition walk_sound :: "'s transitions \<Rightarrow> 's \<Rightarrow> ('s \<times> 's list) list \<Rightarrow> 's list \<Rightarrow> bool" where
  "walk_sound t init frames reached \<longleftrightarrow>
     (\<forall>s \<in> set reached. reachable t init s) \<and>
     (\<forall>(s, cs) \<in> set frames. reachable t init s \<and> (\<forall>c \<in> set cs. edge t s c))"

definition pending :: "('s \<times> 's list) list \<Rightarrow> 's set" where
  "pending frames = (\<Union>f \<in> set frames. set (snd f))"

lemma pending_simps [simp]: "pending [] = {}" "pending ((s, cs) # fs) = set cs \<union> pending fs"
  by (simp_all add: pending_def)

definition walk_complete :: "'s transitions \<Rightarrow> ('s \<times> 's list) list \<Rightarrow> 's list \<Rightarrow> bool" where
  "walk_complete t frames reached \<longleftrightarrow>
     allStatesReached t reached \<or> (\<forall>s \<in> set reached. \<forall>c. edge t s c \<longrightarrow> c \<in> set reached \<union> pending frames)"

lemma walkGraph_steps:
  "map_get t c = Some e \<Longrightarrow> c \<in> set r \<Longrightarrow> walkGraph t ((s, c # cs) # fs) r = walkGraph t ((s, cs) # fs) r"
  "map_get t c = Some e \<Longrightarrow> c \<notin> set r \<Longrightarrow> allStatesReached t (c # r) \<Longrightarrow>
     walkGraph t ((s, c # cs) # fs) r = walkGraph t ((s, cs) # fs) (c # r)"
  "map_get t c = Some e \<Longrightarrow> c \<notin> set r \<Longrightarrow> \<not> allStatesReached t (c # r) \<Longrightarrow>
     walkGraph t ((s, c # cs) # fs) r = walkGraph t ((c, to_states e) # (s, cs) # fs) (c # r)"
  "map_get t c = None \<Longrightarrow> walkGraph t ((s, c # cs) # fs) r = Inl (s, c)"
  by simp_all

lemma walkGraph_cases:
  assumes "walkGraph t ((s, c # cs) # fs) r = Inr z"
  obtains e where "map_get t c = Some e" and "c \<in> set r" and "walkGraph t ((s, cs) # fs) r = Inr z"
  | e where "map_get t c = Some e" and "c \<notin> set r" and "allStatesReached t (c # r)"
      and "walkGraph t ((s, cs) # fs) (c # r) = Inr z"
  | e where "map_get t c = Some e" and "c \<notin> set r" and "\<not> allStatesReached t (c # r)"
      and "walkGraph t ((c, to_states e) # (s, cs) # fs) (c # r) = Inr z"
  using assms walkGraph_steps(1-3) [of t c _ r s cs fs] walkGraph_steps(4) [of t c s cs fs r]
  by (cases "map_get t c") (auto simp del: walkGraph.simps)

lemma walk_sound_steps:
  "walk_sound t init ((s, []) # fs) r \<Longrightarrow> walk_sound t init fs r"
  "walk_sound t init ((s, c # cs) # fs) r \<Longrightarrow> walk_sound t init ((s, cs) # fs) r"
  "walk_sound t init ((s, c # cs) # fs) r \<Longrightarrow> walk_sound t init ((s, cs) # fs) (c # r)"
  "walk_sound t init ((s, c # cs) # fs) r \<Longrightarrow> map_get t c = Some e \<Longrightarrow>
     walk_sound t init ((c, to_states e) # (s, cs) # fs) (c # r)"
  by (auto simp: walk_sound_def edge_Some intro: reachable_trans_edge)

lemma walk_complete_pop: "walk_complete t ((s, []) # fs) r \<Longrightarrow> walk_complete t fs r"
  by (simp add: walk_complete_def)

lemma walk_complete_skip:
  assumes "walk_complete t ((s, c # cs) # fs) r" and "c \<in> set r"
  shows "walk_complete t ((s, cs) # fs) r"
proof -
  have eq: "set r \<union> pending ((s, c # cs) # fs) = set r \<union> pending ((s, cs) # fs)" using assms(2) by auto
  show ?thesis using assms(1) unfolding walk_complete_def eq .
qed

lemma walk_complete_all: "allStatesReached t r \<Longrightarrow> walk_complete t fs r"
  by (simp add: walk_complete_def)

lemma allStatesReached_mono: "allStatesReached t r \<Longrightarrow> allStatesReached t (c # r)"
  by (auto simp: allStatesReached_def list_all_iff)

lemma walk_complete_push:
  assumes "walk_complete t ((s, c # cs) # fs) r" and "map_get t c = Some e" and "\<not> allStatesReached t (c # r)"
  shows "walk_complete t ((c, to_states e) # (s, cs) # fs) (c # r)"
proof -
  have "\<not> allStatesReached t r" using assms(3) allStatesReached_mono [of t r c] by metis
  then have old: "\<forall>u \<in> set r. \<forall>d. edge t u d \<longrightarrow> d \<in> set r \<union> pending ((s, c # cs) # fs)"
    using assms(1) unfolding walk_complete_def by blast
  have new: "\<forall>d. edge t c d \<longrightarrow> d \<in> set (to_states e)" using assms(2) by (simp add: edge_Some)
  show ?thesis unfolding walk_complete_def pending_simps
    using old new by auto
qed

lemma walkGraph_sound:
  assumes "walkGraph t frames reached = Inr r" and "walk_sound t init frames reached"
  shows "\<forall>s \<in> set r. reachable t init s"
  using assms
proof (induction t frames reached rule: walkGraph.induct)
  case (1 t reached)
  then show ?case by (simp add: walk_sound_def)
next
  case (2 t s frames reached)
  then show ?case using walk_sound_steps(1) [OF 2(3)] by simp
next
  case (3 t s c cs frames reached)
  from "3.prems"(1) show ?case
  proof (cases rule: walkGraph_cases)
    case (1 e)
    then show ?thesis using "3.IH"(1) [OF 1 walk_sound_steps(2) [OF "3.prems"(2)]] by blast
  next
    case (2 e)
    then show ?thesis using "3.IH"(2) [OF 2 walk_sound_steps(3) [OF "3.prems"(2)]] by blast
  next
    case (3 e)
    then show ?thesis using "3.IH"(3) [OF 3 walk_sound_steps(4) [OF "3.prems"(2) 3(1)]] by blast
  qed
qed

lemma walkGraph_complete:
  assumes "walkGraph t frames reached = Inr r" and "walk_complete t frames reached"
  shows "walk_complete t [] r \<and> set reached \<subseteq> set r"
  using assms
proof (induction t frames reached rule: walkGraph.induct)
  case (1 t reached)
  then show ?case by simp
next
  case (2 t s frames reached)
  then show ?case using walk_complete_pop [OF 2(3)] by simp
next
  case (3 t s c cs frames reached)
  from "3.prems"(1) show ?case
  proof (cases rule: walkGraph_cases)
    case (1 e)
    then show ?thesis using "3.IH"(1) [OF 1 walk_complete_skip [OF "3.prems"(2) 1(2)]] by blast
  next
    case (2 e)
    then have "walk_complete t [] r \<and> set (c # reached) \<subseteq> set r"
      using "3.IH"(2) [OF 2 walk_complete_all [OF 2(3)]] by blast
    then show ?thesis by simp
  next
    case (3 e)
    then have "walk_complete t [] r \<and> set (c # reached) \<subseteq> set r"
      using "3.IH"(3) [OF 3 walk_complete_push [OF "3.prems"(2) 3(1,3)]] by blast
    then show ?thesis by simp
  qed
qed

lemma walk_complete_closed:
  assumes "walk_complete t [] r" and "reachable t init s" and "init \<in> set r" and "s \<in> fst ` set t"
  shows "s \<in> set r"
proof (cases "allStatesReached t r")
  case True
  then show ?thesis using assms(4) by (auto simp: allStatesReached_def list_all_iff)
next
  case False
  then have "\<forall>s \<in> set r. \<forall>c. edge t s c \<longrightarrow> c \<in> set r" using assms(1) by (simp add: walk_complete_def)
  then show ?thesis
    using steps_invariant [of "edge t" init s "\<lambda>x. x \<in> set r"] assms(2,3) by (auto simp: reachable_def)
qed

lemma validate_valid:
  assumes "val_valid (validateTransitionDefinition t init)"
  obtains e r where "map_get t init = Some e" and "init \<in> set r" and "walk_complete t [] r"
    and "\<forall>s \<in> set r. reachable t init s"
    and "validateTransitionDefinition t init =
      \<lparr>val_valid = True, val_unknown = None, val_unreachable = filter (\<lambda>s. s \<notin> set r) (map fst t)\<rparr>"
proof -
  obtain e where e: "map_get t init = Some e"
    using assms by (cases "map_get t init") (auto simp: validateTransitionDefinition_def)
  have init: "reachable t init init" by (simp add: reachable_def steps_refl)
  show thesis
  proof (cases "allStatesReached t [init]")
    case True
    then show thesis using that [OF e, of "[init]"] e init
      by (simp add: validateTransitionDefinition_def walk_complete_def)
  next
    case False
    then obtain r where r: "walkGraph t [(init, to_states e)] [init] = Inr r"
      using assms e by (cases "walkGraph t [(init, to_states e)] [init]")
        (auto simp: validateTransitionDefinition_def simp del: walkGraph.simps split: prod.splits)
    have "walk_sound t init [(init, to_states e)] [init]"
      using e init by (auto simp: walk_sound_def edge_Some)
    moreover have "walk_complete t [(init, to_states e)] [init]"
      using e by (auto simp: walk_complete_def edge_Some)
    ultimately show thesis
      using that [OF e, of r] walkGraph_sound [OF r] walkGraph_complete [OF r] r e False
      by (simp add: validateTransitionDefinition_def del: walkGraph.simps)
  qed
qed

lemma map_get_merge_entry:
  "map_get (merge_entry k e m) = (map_get m)(k \<mapsto>
     (case map_get m k of
        Some old \<Rightarrow> old\<lparr>to_states := (if mergeStrategy e = Some Replace then to_states e else to_states old @ to_states e)\<rparr>
      | None \<Rightarrow> e))"
  by (auto simp: merge_entry_def map_get_set fun_eq_iff split: option.splits)

lemma map_get_fold_merge:
  assumes "map_wf b"
  shows "map_get (fold (\<lambda>(k, e) m. merge_entry k e m) b a) k =
    (case map_get b k of
       None \<Rightarrow> map_get a k
     | Some e \<Rightarrow> Some (case map_get a k of
         Some old \<Rightarrow> old\<lparr>to_states := (if mergeStrategy e = Some Replace then to_states e else to_states old @ to_states e)\<rparr>
       | None \<Rightarrow> e))"
  using assms
proof (induction b arbitrary: a)
  case (Cons x b)
  obtain k' e where x: "x = (k', e)" by fastforce
  have "map_get b k' = None" "map_wf b" using Cons.prems by (auto simp: x map_wf_def map_get_None_iff)
  then show ?case using Cons.IH by (auto simp: x map_get_merge_entry split: option.splits)
qed simp

definition sample_table :: "nat transitions" where
  "sample_table = [(1, to_only [2]), (2, to_only [1]), (3, to_only [1])]"

lemma fsm_error_Inr: "fsm_error cfg current target m data = Inr (s, d, f) \<Longrightarrow> s = current \<and> d = data \<and> f = Finalize_noop"
  by (auto simp: fsm_error_def split: option.splits)

section \<open>Properties\<close>

text \<open>
  C32: The validation of a transition table is exact: when it calls a table valid, the states it
  reports as unreachable are precisely the states of the table that no sequence of allowed
  transitions reaches from the initial state.
\<close>

theorem validate_exact:
  assumes "val_valid (validateTransitionDefinition t init)"
  shows "set (val_unreachable (validateTransitionDefinition t init)) = {s \<in> fst ` set t. \<not> reachable t init s}"
  using assms
proof (rule validate_valid)
  fix e r
  assume r: "init \<in> set r" "walk_complete t [] r" "\<forall>s \<in> set r. reachable t init s"
    and v: "validateTransitionDefinition t init =
      \<lparr>val_valid = True, val_unknown = None, val_unreachable = filter (\<lambda>s. s \<notin> set r) (map fst t)\<rparr>"
  have "s \<in> set r \<longleftrightarrow> reachable t init s" if "s \<in> fst ` set t" for s
    using walk_complete_closed [OF r(2) _ r(1) that] r(3) by blast
  then show ?thesis by (auto simp: v)
qed

theorem validate_exact_witness:
  "set (val_unreachable (validateTransitionDefinition sample_table 1)) =
     {s \<in> fst ` set sample_table. \<not> reachable sample_table 1 s} \<and>
   val_unreachable (validateTransitionDefinition sample_table 1) = [3]"
proof -
  have v: "val_valid (validateTransitionDefinition sample_table 1)" by code_simp
  have u: "val_unreachable (validateTransitionDefinition sample_table 1) = [3]" by code_simp
  show ?thesis by (rule conjI [OF validate_exact [OF v] u])
qed

text \<open>
  A machine moves only along its table. Whatever the callbacks answer, a call of
  \<^verbatim>\<open>transitionTo\<close> that returns either leaves the state and schedules nothing, or enters
  the requested state along an allowed transition and schedules the end callback for that step.
\<close>

theorem transition_only_allowed:
  assumes "transitionTo cfg current target data = Inr (s, d, f)"
  shows "s = current \<and> f = Finalize_noop \<or>
     s = target \<and> f = Finalize_end current target \<and> edge (fsm_transitions cfg) current target"
proof -
  obtain b where b: "canTransitionTo (fsm_transitions cfg) current target = Inr b"
    using assms by (cases "canTransitionTo (fsm_transitions cfg) current target") (auto simp: transitionTo_def)
  show ?thesis
  proof (cases b)
    case True
    then have "edge (fsm_transitions cfg) current target" using b canTransitionTo_edge by metis
    moreover have "s = current \<and> f = Finalize_noop \<or> s = target \<and> f = Finalize_end current target"
    proof (cases "fsm_onTransitionStart cfg")
      case None
      then show ?thesis using assms b True by (auto simp: transitionTo_def)
    next
      case (Some start)
      then obtain r d' where "start current target data = Inr (r, d')"
        using assms b True by (cases "start current target data") (auto simp: transitionTo_def)
      then show ?thesis using assms b True Some
        by (cases r) (auto simp: transitionTo_def dest: fsm_error_Inr)
    qed
    ultimately show ?thesis by blast
  next
    case False
    then show ?thesis using assms b by (auto simp: transitionTo_def dest: fsm_error_Inr)
  qed
qed

theorem transition_only_allowed_witness:
  "transitionTo (process_config [\<lparr>proc_transitions = Some [(1 :: nat, to_only [2]), (2, to_only [])],
       proc_onTransitionStart = None, proc_onTransitionEnd = None\<rparr>] ''no'') 1 2 () = Inr (2, (), Finalize_end 1 2) \<and>
   edge (fsm_transitions (process_config [\<lparr>proc_transitions = Some [(1 :: nat, to_only [2]), (2, to_only [])],
       proc_onTransitionStart = None, proc_onTransitionEnd = None\<rparr>] ''no'' :: (nat, unit) fsm_config)) 1 2"
proof -
  let ?cfg = "process_config [\<lparr>proc_transitions = Some [(1 :: nat, to_only [2]), (2, to_only [])],
       proc_onTransitionStart = None, proc_onTransitionEnd = None\<rparr>] ''no'' :: (nat, unit) fsm_config"
  have r: "transitionTo ?cfg 1 2 () = Inr (2, (), Finalize_end 1 2)" by code_simp
  show ?thesis using transition_only_allowed [OF r] r by simp
qed

text \<open>
  Merging a second process into a table adds its targets after the existing ones, or replaces
  them when the entry asks for it, and touches no other state.
\<close>

theorem merge_next_states:
  assumes "map_wf b"
  shows "fsm_getNextStates (mergeTransitionDefinitions a (Some b)) s =
    (case map_get b s of
       None \<Rightarrow> fsm_getNextStates a s
     | Some e \<Rightarrow> if mergeStrategy e = Some Replace then to_states e
                 else fsm_getNextStates a s @ to_states e)"
  by (auto simp: mergeTransitionDefinitions_def fsm_getNextStates_def map_get_fold_merge [OF assms] split: option.splits)

theorem merge_next_states_witness:
  "fsm_getNextStates (mergeTransitionDefinitions [(1 :: nat, to_only [2 :: nat]), (2, to_only [])] (Some [(2, to_only [1])])) 2 = [1]"
  using merge_next_states [of "[(2, to_only [1])]" "[(1 :: nat, to_only [2 :: nat]), (2, to_only [])]" 2]
  by (simp add: map_wf_def fsm_getNextStates_def to_only_def)

text \<open>
  A table whose last state to be marked leads to an undefined state passes the validation without
  an error, although the machine can then enter a state from which every further transition is a
  \<^verbatim>\<open>TypeError\<close>: the walk returns before it looks at the last state's targets.
\<close>

theorem validation_misses_unknown_target:
  "let t = [(1 :: nat, to_only [2]), (2, to_only [3])] in
     \<not> validation_error (validateTransitionDefinition t 1) \<and> val_valid (validateTransitionDefinition t 1) \<and>
     reachable t 1 3 \<and> canTransitionTo t 3 1 = Inl (JsError ''TypeError'')"
proof -
  let ?t = "[(1 :: nat, to_only [2]), (2, to_only [3])]"
  have "reachable ?t 1 3"
    unfolding reachable_def
    by (rule steps_step [OF steps_step [OF steps_refl, of _ _ 2]]) (simp_all add: edge_Some to_only_def)
  moreover have "\<not> validation_error (validateTransitionDefinition ?t 1) \<and> val_valid (validateTransitionDefinition ?t 1)
      \<and> canTransitionTo ?t 3 1 = Inl (JsError ''TypeError'')" by code_simp
  ultimately show ?thesis by (simp add: Let_def)
qed

end
