(* ===== verification/OrderProcess.thy ===== *)
theory OrderProcess
  imports OrderUtils OrderCalculator FSM
begin

text \<open>
  The four state machines and their default processes: \<^verbatim>\<open>config/order/default-order-process.ts\<close>,
  \<^verbatim>\<open>config/payment/default-payment-process.ts\<close>,
  \<^verbatim>\<open>config/fulfillment/default-fulfillment-process.ts\<close>,
  \<^verbatim>\<open>config/refund/default-refund-process.ts\<close>, the wrappers under
  \<^verbatim>\<open>service/helpers/*-state-machine/\<close> and \<^verbatim>\<open>OrderService.transitionToState\<close>.
  What a callback asks other services is a field of \<open>order_env\<close>; what it makes them do is an
  effect appended to the data, in order.
\<close>

section \<open>The transition tables\<close>

definition defaultOrderTransitions :: "order_state transitions" where
  "defaultOrderTransitions =
     [(Created, to_only [AddingItems, Draft]),
      (Draft, to_only [Cancelled, ArrangingPayment]),
      (AddingItems, to_only [ArrangingPayment, Cancelled]),
      (ArrangingPayment, to_only [PaymentAuthorized, PaymentSettled, AddingItems, Cancelled]),
      (PaymentAuthorized, to_only [PaymentSettled, Cancelled, Modifying, ArrangingAdditionalPayment]),
      (PaymentSettled, to_only [PartiallyDelivered, Delivered, PartiallyShipped, Shipped, Cancelled,
         Modifying, ArrangingAdditionalPayment]),
      (PartiallyShipped, to_only [Shipped, PartiallyDelivered, Cancelled, Modifying]),
      (Shipped, to_only [PartiallyDelivered, Delivered, Cancelled, Modifying]),
      (PartiallyDelivered, to_only [Delivered, Cancelled, Modifying]),
      (Delivered, to_only [Cancelled]),
      (Modifying, to_only [PaymentAuthorized, PaymentSettled, PartiallyShipped, Shipped,
         PartiallyDelivered, ArrangingAdditionalPayment]),
      (ArrangingAdditionalPayment, to_only [PaymentAuthorized, PaymentSettled, PartiallyShipped,
         Shipped, PartiallyDelivered, Cancelled]),
      (Cancelled, to_only [])]"

definition defaultPaymentTransitions :: "payment_state transitions" where
  "defaultPaymentTransitions =
     [(Payment_Created, to_only [Payment_Authorized, Payment_Settled, Payment_Declined, Payment_Error, Payment_Cancelled]),
      (Payment_Authorized, to_only [Payment_Settled, Payment_Error, Payment_Cancelled]),
      (Payment_Settled, to_only [Payment_Cancelled]),
      (Payment_Declined, to_only [Payment_Cancelled]),
      (Payment_Error, to_only [Payment_Cancelled]),
      (Payment_Cancelled, to_only [])]"

definition defaultFulfillmentTransitions :: "fulfillment_state transitions" where
  "defaultFulfillmentTransitions =
     [(Fulfillment_Created, to_only [Fulfillment_Pending]),
      (Fulfillment_Pending, to_only [Fulfillment_Shipped, Fulfillment_Delivered, Fulfillment_Cancelled]),
      (Fulfillment_Shipped, to_only [Fulfillment_Delivered, Fulfillment_Cancelled]),
      (Fulfillment_Delivered, to_only [Fulfillment_Cancelled]),
      (Fulfillment_Cancelled, to_only [])]"

definition defaultRefundTransitions :: "refund_state transitions" where
  "defaultRefundTransitions =
     [(Refund_Pending, to_only [Refund_Settled, Refund_Failed]),
      (Refund_Settled, to_only []),
      (Refund_Failed, to_only [])]"

section \<open>The default order process\<close>

record order_process_options =
  checkModificationPayments :: bool
  checkAdditionalPaymentsAmount :: bool
  checkAllVariantsExist :: bool
  arrangingPaymentRequiresContents :: bool
  arrangingPaymentRequiresCustomer :: bool
  arrangingPaymentRequiresShipping :: bool
  arrangingPaymentRequiresStock :: bool
  checkPaymentsCoverTotal :: bool
  checkAllItemsBeforeCancel :: bool
  checkFulfillmentStates :: bool

definition all_checks :: order_process_options where
  "all_checks =
     \<lparr>checkModificationPayments = True, checkAdditionalPaymentsAmount = True, checkAllVariantsExist = True,
      arrangingPaymentRequiresContents = True, arrangingPaymentRequiresCustomer = True,
      arrangingPaymentRequiresShipping = True, arrangingPaymentRequiresStock = True,
      checkPaymentsCoverTotal = True, checkAllItemsBeforeCancel = True, checkFulfillmentStates = True\<rparr>"

record order_env =
  env_ctx :: request_context
  env_variantExists :: "ID \<Rightarrow> bool"
  env_recalculate :: "price_options \<Rightarrow> order \<Rightarrow> order result"
  env_eligibleMethodIds :: "order \<Rightarrow> ID list"
  env_saleableStock :: "ID \<Rightarrow> int"
  env_shouldSetAsPlaced :: "order_state \<Rightarrow> order_state \<Rightarrow> order \<Rightarrow> bool"
  env_shouldAllocateStock :: "order_state \<Rightarrow> order_state \<Rightarrow> order \<Rightarrow> bool"

datatype order_effect =
    OrderPlacedEvent order_state order_state
  | SellerOrdersCreated
  | AllocationsCreated
  | StockLevelsLocked "ID list"
  | StateHistoryEntry order_state order_state
  | OrderStateTransitionEvent order_state order_state

record order_data =
  data_order :: order
  data_effects :: "order_effect list"

definition default_shouldSetAsPlaced :: "order_state \<Rightarrow> order_state \<Rightarrow> order \<Rightarrow> bool" where
  "default_shouldSetAsPlaced fromState toState ord =
     (if fromState = ArrangingPayment \<and> (toState = PaymentAuthorized \<or> toState = PaymentSettled) then True else False)"

definition default_shouldAllocateStock :: "order_state \<Rightarrow> order_state \<Rightarrow> order \<Rightarrow> bool" where
  "default_shouldAllocateStock fromState toState ord \<longleftrightarrow>
     fromState = ArrangingPayment \<and> (toState = PaymentAuthorized \<or> toState = PaymentSettled)"

text \<open>
  The guards, in the order the code runs them. Each answers with the message it refuses with.
\<close>

definition check_modifications :: "order_process_options \<Rightarrow> order_state \<Rightarrow> order_state \<Rightarrow> order \<Rightarrow> string option" where
  "check_modifications opts fromState toState ord =
     (if checkModificationPayments opts \<and> fromState = Modifying
      then if toState = ArrangingAdditionalPayment
           then if 0 < length (modifications ord) \<and> list_all isSettled (modifications ord)
                then Some ''message.cannot-transition-no-additional-payments-needed'' else None
           else if list_ex (\<lambda>m. \<not> isSettled m) (modifications ord)
                then Some ''message.cannot-transition-without-modification-payment'' else None
      else None)"

definition check_additional_payment :: "order_process_options \<Rightarrow> order_state \<Rightarrow> order \<Rightarrow> string option" where
  "check_additional_payment opts fromState ord =
     (if checkAdditionalPaymentsAmount opts \<and> fromState = ArrangingAdditionalPayment \<and>
         0 < totalWithTax ord - totalCoveredByPayments ord None
      then Some ''message.cannot-transition-from-arranging-additional-payment'' else None)"

definition check_variants ::
  "order_process_options \<Rightarrow> order_env \<Rightarrow> order_state \<Rightarrow> order_state \<Rightarrow> order \<Rightarrow> string option" where
  "check_variants opts env fromState toState ord =
     (if checkAllVariantsExist opts \<and> fromState = AddingItems \<and> toState \<noteq> Cancelled \<and> order_lines ord \<noteq> []
      then let variantIds = unique (map productVariantId (order_lines ord));
               availableVariants = filter (env_variantExists env) variantIds
           in if length availableVariants \<noteq> length variantIds
              then Some ''message.cannot-transition-order-contains-products-which-are-unavailable'' else None
      else None)"

definition check_arranging_contents :: "order_process_options \<Rightarrow> order \<Rightarrow> string option" where
  "check_arranging_contents opts ord =
     (if arrangingPaymentRequiresContents opts \<and> order_lines ord = []
      then Some ''message.cannot-transition-to-payment-when-order-is-empty''
      else if arrangingPaymentRequiresCustomer opts \<and> customerId ord = None
      then Some ''message.cannot-transition-to-payment-without-customer''
      else if arrangingPaymentRequiresShipping opts \<and> shippingLines ord = []
      then Some ''message.cannot-transition-to-payment-without-shipping-method''
      else None)"

definition check_arranging_shipping :: "order_process_options \<Rightarrow> order_env \<Rightarrow> order \<Rightarrow> string option" where
  "check_arranging_shipping opts env ord =
     (if arrangingPaymentRequiresShipping opts \<and> shippingLines ord \<noteq> [] \<and>
         list_ex (\<lambda>sl. shippingMethodId sl \<noteq> None \<and>
            \<not> list_ex (\<lambda>i. idsAreEqual (Some i) (shippingMethodId sl)) (env_eligibleMethodIds env ord)) (shippingLines ord)
      then Some ''message.cannot-transition-to-payment-with-ineligible-shipping-method'' else None)"

definition check_arranging_stock :: "order_process_options \<Rightarrow> order_env \<Rightarrow> order \<Rightarrow> string option" where
  "check_arranging_stock opts env ord =
     (if arrangingPaymentRequiresStock opts \<and>
         list_ex (\<lambda>l. env_saleableStock env (productVariantId l) < quantity l) (order_lines ord)
      then Some ''message.cannot-transition-to-payment-due-to-insufficient-stock'' else None)"

definition check_payments :: "order_process_options \<Rightarrow> order_state \<Rightarrow> order \<Rightarrow> string option" where
  "check_payments opts toState ord =
     (if checkPaymentsCoverTotal opts
      then if toState = PaymentAuthorized \<and>
              (\<not> orderTotalIsCovered ord [Payment_Authorized, Payment_Settled] \<or>
               List.find (\<lambda>p. payment_state p = Payment_Authorized) (payments ord) = None)
           then Some ''message.cannot-transition-without-authorized-payments''
           else if toState = PaymentSettled \<and> \<not> orderTotalIsCovered ord [Payment_Settled]
           then Some ''message.cannot-transition-without-settled-payments''
           else None
      else None)"

definition check_cancel :: "order_process_options \<Rightarrow> order_state \<Rightarrow> order_state \<Rightarrow> order \<Rightarrow> string option" where
  "check_cancel opts fromState toState ord =
     (if checkAllItemsBeforeCancel opts \<and> toState = Cancelled \<and> fromState \<noteq> AddingItems \<and>
         fromState \<noteq> ArrangingPayment \<and> \<not> orderLinesAreAllCancelled ord
      then Some ''message.cannot-transition-unless-all-cancelled'' else None)"

definition check_fulfillment :: "order_process_options \<Rightarrow> order_state \<Rightarrow> order \<Rightarrow> string option" where
  "check_fulfillment opts toState ord =
     (if checkFulfillmentStates opts
      then if toState = PartiallyShipped \<and> \<not> orderItemsArePartiallyShipped ord
           then Some ''message.cannot-transition-unless-some-order-items-shipped''
           else if toState = Shipped \<and> \<not> orderItemsAreShipped ord
           then Some ''message.cannot-transition-unless-all-order-items-shipped''
           else if toState = PartiallyDelivered \<and> \<not> orderItemsArePartiallyDelivered ord
           then Some ''message.cannot-transition-unless-some-order-items-delivered''
           else if toState = Delivered \<and> \<not> orderItemsAreDelivered ord
           then Some ''message.cannot-transition-unless-all-order-items-delivered''
           else None
      else None)"

definition refuse_or ::
  "string option \<Rightarrow> order_data \<Rightarrow> (start_result \<times> order_data) result \<Rightarrow> (start_result \<times> order_data) result" where
  "refuse_or m d k = (case m of Some msg \<Rightarrow> Inr (Start_message msg, d) | None \<Rightarrow> k)"

definition add_effect :: "order_effect \<Rightarrow> order_data \<Rightarrow> order_data" where
  "add_effect e d = d\<lparr>data_effects := data_effects d @ [e]\<rparr>"

text \<open>
  The steps of the transition to \<^verbatim>\<open>ArrangingPayment\<close>: the order is repriced before the
  shipping check, and once more when nothing refused.
\<close>

definition arrange_payment ::
  "order_process_options \<Rightarrow> order_env \<Rightarrow> order_state \<Rightarrow> order_state \<Rightarrow> order_data \<Rightarrow>
   (start_result \<times> order_data) result" where
  "arrange_payment opts env fromState toState d =
     refuse_or (check_arranging_contents opts (data_order d)) d
       (bind_result (env_recalculate env
            \<lparr>opt_recalculateShipping = Some False, opt_recalculateShippingPromotions = Some True\<rparr> (data_order d))
          (\<lambda>ord. let d1 = d\<lparr>data_order := ord\<rparr> in
             refuse_or (check_arranging_shipping opts env ord) d1
               (let lock = env_shouldAllocateStock env fromState toState ord;
                    d2 = (if arrangingPaymentRequiresStock opts \<and> lock
                          then add_effect (StockLevelsLocked (map productVariantId (order_lines ord))) d1 else d1)
                in refuse_or (check_arranging_stock opts env ord) d2
                     (if arrangingPaymentRequiresShipping opts \<and> shippingLines ord \<noteq> []
                      then bind_result (env_recalculate env default_price_options ord)
                             (\<lambda>ord'. Inr (Start_void, d2\<lparr>data_order := ord'\<rparr>))
                      else Inr (Start_void, d2)))))"

definition final_checks ::
  "order_process_options \<Rightarrow> order_state \<Rightarrow> order_state \<Rightarrow> order_data \<Rightarrow> (start_result \<times> order_data) result" where
  "final_checks opts fromState toState d =
     refuse_or (check_payments opts toState (data_order d)) d
       (refuse_or (check_cancel opts fromState toState (data_order d)) d
         (refuse_or (check_fulfillment opts toState (data_order d)) d (Inr (Start_void, d))))"

definition order_onTransitionStart ::
  "order_process_options \<Rightarrow> order_env \<Rightarrow> order_state \<Rightarrow> order_state \<Rightarrow> order_data \<Rightarrow>
   (start_result \<times> order_data) result" where
  "order_onTransitionStart opts env fromState toState d =
     refuse_or (check_modifications opts fromState toState (data_order d)) d
       (if checkAdditionalPaymentsAmount opts \<and> fromState = ArrangingAdditionalPayment \<and> toState = Cancelled
        then Inr (Start_void, d)
        else refuse_or (check_additional_payment opts fromState (data_order d)) d
          (refuse_or (check_variants opts env fromState toState (data_order d)) d
            (if toState = ArrangingPayment
             then bind_result (arrange_payment opts env fromState toState d)
                    (\<lambda>(r, d'). case r of Start_message m \<Rightarrow> Inr (Start_message m, d')
                               | _ \<Rightarrow> final_checks opts fromState toState d')
             else final_checks opts fromState toState d)))"

definition set_as_placed :: "order_env \<Rightarrow> order_state \<Rightarrow> order_state \<Rightarrow> order_data \<Rightarrow> order_data" where
  "set_as_placed env fromState toState d =
     (let ord = data_order d
      in if active ord \<and> env_shouldSetAsPlaced env fromState toState ord
         then add_effect SellerOrdersCreated (add_effect (OrderPlacedEvent fromState toState)
                (d\<lparr>data_order := ord\<lparr>active := False, orderPlacedAt := Some (ctx_now (env_ctx env)),
                   order_lines := map (\<lambda>l. l\<lparr>orderPlacedQuantity := quantity l\<rparr>) (order_lines ord)\<rparr>\<rparr>))
         else d)"

definition order_onTransitionEnd ::
  "order_env \<Rightarrow> order_state \<Rightarrow> order_state \<Rightarrow> order_data \<Rightarrow> order_data result" where
  "order_onTransitionEnd env fromState toState d =
     (let d1 = set_as_placed env fromState toState d;
          d2 = (if env_shouldAllocateStock env fromState toState (data_order d1) then add_effect AllocationsCreated d1 else d1);
          d3 = (if toState = Cancelled then d2\<lparr>data_order := (data_order d2)\<lparr>active := False\<rparr>\<rparr> else d2);
          d4 = (if fromState = Draft \<and> toState = ArrangingPayment
                then d3\<lparr>data_order := (data_order d3)\<lparr>active := True\<rparr>\<rparr> else d3)
      in Inr (add_effect (StateHistoryEntry fromState toState) d4))"

definition defaultOrderProcess ::
  "order_process_options \<Rightarrow> order_env \<Rightarrow> (order_state, order_data) fsm_process" where
  "defaultOrderProcess opts env =
     \<lparr>proc_transitions = Some defaultOrderTransitions,
      proc_onTransitionStart = Some (order_onTransitionStart opts env),
      proc_onTransitionEnd = Some (order_onTransitionEnd env)\<rparr>"

section \<open>The state machines\<close>

definition orderStateMachine_config ::
  "(order_state, order_data) fsm_process list \<Rightarrow> (order_state, order_data) fsm_config" where
  "orderStateMachine_config processes = process_config processes ''message.cannot-transition-order-from-to''"

definition orderStateMachine_transition ::
  "(order_state, order_data) fsm_process list \<Rightarrow> order_data \<Rightarrow> order_state \<Rightarrow>
   (order_data \<times> order_state finalize) result" where
  "orderStateMachine_transition processes d state =
     bind_result (transitionTo (orderStateMachine_config processes) (order_state (data_order d)) state d)
       (\<lambda>(currentState, d', f). Inr (d'\<lparr>data_order := (data_order d')\<lparr>order_state := currentState\<rparr>\<rparr>, f))"

text \<open>
  The payment machine also asks the handler of the payment's method, whose answer counts unless it is
  \<^verbatim>\<open>true\<close>. It stores the requested state, not the state of the machine.
\<close>

record payment_handler =
  handler_code :: string
  handler_onStateTransitionStart :: "payment_state \<Rightarrow> payment_state \<Rightarrow> payment \<Rightarrow> start_result"

fun ask_handlers :: "payment_handler list \<Rightarrow> payment_state \<Rightarrow> payment_state \<Rightarrow> payment \<Rightarrow> start_result" where
  "ask_handlers [] fromState toState p = Start_void"
| "ask_handlers (h # hs) fromState toState p =
     (if payment_method p = handler_code h
      then (case handler_onStateTransitionStart h fromState toState p of
              Start_true \<Rightarrow> ask_handlers hs fromState toState p
            | r \<Rightarrow> r)
      else ask_handlers hs fromState toState p)"

definition paymentStateMachine_config ::
  "payment_handler list \<Rightarrow> (payment_state, payment) fsm_process list \<Rightarrow> (payment_state, payment) fsm_config" where
  "paymentStateMachine_config handlers processes =
     (process_config processes ''error.cannot-transition-payment-from-to'')
       \<lparr>fsm_onTransitionStart := Some (\<lambda>fromState toState p.
          bind_result (run_starts processes fromState toState p) (\<lambda>(r, p').
            case r of Start_false \<Rightarrow> Inr (r, p') | Start_message m \<Rightarrow> Inr (r, p')
            | _ \<Rightarrow> Inr (ask_handlers handlers fromState toState p', p')))\<rparr>"

definition paymentStateMachine_transition ::
  "payment_handler list \<Rightarrow> (payment_state, payment) fsm_process list \<Rightarrow> payment \<Rightarrow> payment_state \<Rightarrow>
   (payment \<times> payment_state finalize) result" where
  "paymentStateMachine_transition handlers processes p state =
     bind_result (transitionTo (paymentStateMachine_config handlers processes) (payment_state p) state p)
       (\<lambda>(currentState, p', f). Inr (p'\<lparr>payment_state := state\<rparr>, f))"

definition fulfillmentStateMachine_transition ::
  "(fulfillment_state, fulfillment) fsm_process list \<Rightarrow> fulfillment \<Rightarrow> fulfillment_state \<Rightarrow>
   (fulfillment \<times> fulfillment_state finalize) result" where
  "fulfillmentStateMachine_transition processes f state =
     bind_result (transitionTo (process_config processes ''error.cannot-transition-fulfillment-from-to'')
         (fulfillment_state f) state f)
       (\<lambda>(currentState, f', fin). Inr (f'\<lparr>fulfillment_state := currentState\<rparr>, fin))"

definition refundStateMachine_transition ::
  "(refund_state, refund) fsm_process list \<Rightarrow> refund \<Rightarrow> refund_state \<Rightarrow>
   (refund \<times> refund_state finalize) result" where
  "refundStateMachine_transition processes r state =
     bind_result (transitionTo (process_config processes ''error.cannot-transition-refund-from-to'')
         (refund_state r) state r)
       (\<lambda>(currentState, r', fin). Inr (r'\<lparr>refund_state := state\<rparr>, fin))"

definition defaultPaymentProcess :: "(payment_state, payment) fsm_process" where
  "defaultPaymentProcess =
     \<lparr>proc_transitions = Some defaultPaymentTransitions,
      proc_onTransitionStart = Some (\<lambda>_ _ p. Inr (Start_void, p)), proc_onTransitionEnd = None\<rparr>"

definition defaultRefundProcess :: "(refund_state, refund) fsm_process" where
  "defaultRefundProcess =
     \<lparr>proc_transitions = Some defaultRefundTransitions,
      proc_onTransitionStart = Some (\<lambda>_ _ r. Inr (Start_true, r)), proc_onTransitionEnd = None\<rparr>"

text \<open>
  What the default payment process does at the end of a transition: the state it moves the order to,
  if any, once the order's payments are read again.
\<close>

definition payment_onTransitionEnd :: "order \<Rightarrow> order_state option" where
  "payment_onTransitionEnd ord =
     (if orderTotalIsCovered ord [Payment_Settled] \<and> order_state ord \<noteq> PaymentSettled \<and>
         order_state ord \<noteq> ArrangingAdditionalPayment
      then Some PaymentSettled
      else if orderTotalIsCovered ord [Payment_Authorized, Payment_Settled] \<and> order_state ord \<noteq> PaymentAuthorized \<and>
         order_state ord \<noteq> ArrangingAdditionalPayment
      then Some PaymentAuthorized
      else None)"

text \<open>
  The fulfillment process: the handler with the fulfillment's code may refuse, and at the end the
  stock movements and the order state it asks for.
\<close>

datatype stock_request =
    CreateCancellations "order_line_input list"
  | CreateAllocations "order_line_input list"
  | CreateSales "order_line_input list"

definition fulfillment_onTransitionStart ::
  "(string \<times> (fulfillment_state \<Rightarrow> fulfillment_state \<Rightarrow> fulfillment \<Rightarrow> start_result)) list \<Rightarrow>
   fulfillment_state \<Rightarrow> fulfillment_state \<Rightarrow> fulfillment \<Rightarrow> (start_result \<times> fulfillment) result" where
  "fulfillment_onTransitionStart handlers fromState toState f =
     (case List.find (\<lambda>h. fst h = handlerCode f) handlers of
        None \<Rightarrow> Inr (Start_void, f)
      | Some h \<Rightarrow>
          (case snd h fromState toState f of
             Start_false \<Rightarrow> Inr (Start_false, f)
           | Start_message m \<Rightarrow> Inr (Start_message m, f)
           | _ \<Rightarrow> Inr (Start_void, f)))"

definition fulfillment_stock :: "fulfillment_state \<Rightarrow> fulfillment_state \<Rightarrow> fulfillment \<Rightarrow> stock_request list" where
  "fulfillment_stock fromState toState f =
     (if toState = Fulfillment_Cancelled
      then [CreateCancellations (fulfillment_lines f), CreateAllocations (fulfillment_lines f)] else []) @
     (if fromState = Fulfillment_Created \<and> toState = Fulfillment_Pending
      then [CreateSales (fulfillment_lines f)] else [])"

definition handleFulfillmentStateTransitByOrder ::
  "order_state list \<Rightarrow> order \<Rightarrow> fulfillment_state \<Rightarrow> order_state option" where
  "handleFulfillmentStateTransitByOrder nextOrderStates ord toState =
     (let target = (if toState = Fulfillment_Shipped
                    then Some (if orderItemsAreShipped ord then Shipped else PartiallyShipped)
                    else if toState = Fulfillment_Delivered
                    then Some (if orderItemsAreDelivered ord then Delivered else PartiallyDelivered)
                    else None)
      in case target of Some s \<Rightarrow> if s \<in> set nextOrderStates then Some s else None | None \<Rightarrow> None)"

section \<open>OrderService.transitionToState\<close>

datatype transition_outcome =
    Transitioned order_data
  | OrderStateTransitionError vendure_error order_state order_state order_data

text \<open>
  The refusal of a guard, and any error thrown before the state changes, is returned as an error with
  the data the call was given; what a guard had repriced before it refused is not part of it. An error
  of the end callbacks rolls the transaction back and is thrown.
\<close>

definition transitionToState ::
  "(order_state, order_data) fsm_process list \<Rightarrow> order_data \<Rightarrow> order_state \<Rightarrow> transition_outcome result" where
  "transitionToState processes d state =
     (let fromState = order_state (data_order d)
      in case orderStateMachine_transition processes d state of
           Inl e \<Rightarrow> Inr (OrderStateTransitionError e fromState state d)
         | Inr (d', f) \<Rightarrow>
             bind_result (finalize (orderStateMachine_config processes) f
                 (add_effect (OrderStateTransitionEvent fromState state) d'))
               (\<lambda>d''. Inr (Transitioned d'')))"

end
