(* ===== verification/OrderLifecycle.thy ===== *)
theory OrderLifecycle
  imports OrderProcess OrderPricing
begin

text \<open>
  The life of an order under the default order process: the guards that hold on entering a state,
  and the invariant of every run, in which an order is placed once, becomes inactive for good when
  it is, and has its stock allocated exactly once. A run alternates transitions with edits of the
  order that leave its state, its activity and its placement alone.
\<close>

section \<open>A successful transition\<close>

lemma allTransitions_single [simp]:
  "allTransitions [defaultOrderProcess opts env] = defaultOrderTransitions"
proof -
  have "fold (\<lambda>(k, e) merged. merge_entry k e merged) defaultOrderTransitions [] = defaultOrderTransitions"
    by code_simp
  then show ?thesis
    by (simp add: allTransitions_def defaultOrderProcess_def mergeTransitionDefinitions_def)
qed

lemma defaultOrderProcess_simps [simp]:
  "proc_onTransitionStart (defaultOrderProcess opts env) = Some (order_onTransitionStart opts env)"
  "proc_onTransitionEnd (defaultOrderProcess opts env) = Some (order_onTransitionEnd env)"
  by (simp_all add: defaultOrderProcess_def)

lemma refuse_or_Inr:
  "refuse_or m d k = Inr (r, d') \<longleftrightarrow> (case m of Some msg \<Rightarrow> r = Start_message msg \<and> d' = d | None \<Rightarrow> k = Inr (r, d'))"
  by (auto simp: refuse_or_def split: option.split)

lemma final_checks_result: "final_checks opts from to d = Inr (r, d') \<Longrightarrow> d' = d \<and> (r = Start_void \<or> (\<exists>m. r = Start_message m))"
  by (auto simp: final_checks_def refuse_or_def split: option.splits)

lemma final_checks_void:
  "final_checks opts from to d = Inr (Start_void, d') \<Longrightarrow>
     d' = d \<and> check_payments opts to (data_order d) = None \<and> check_cancel opts from to (data_order d) = None \<and>
     check_fulfillment opts to (data_order d) = None"
  by (auto simp: final_checks_def refuse_or_def split: option.splits)

lemma arrange_payment_result:
  "arrange_payment opts env from to d = Inr (r, d') \<Longrightarrow> r = Start_void \<or> (\<exists>m. r = Start_message m)"
  by (auto simp: arrange_payment_def refuse_or_def Let_def bind_result_Inr split: option.splits if_splits)

lemma arrange_then_cases:
  assumes "bind_result (arrange_payment opts env from to d)
      (\<lambda>(r, d'). case r of Start_message m \<Rightarrow> Inr (Start_message m, d') | _ \<Rightarrow> final_checks opts from to d') = Inr (r, d'')"
  shows "(\<exists>m. r = Start_message m) \<or>
     (\<exists>d1. arrange_payment opts env from to d = Inr (Start_void, d1) \<and> final_checks opts from to d1 = Inr (r, d''))"
proof -
  obtain r1 d1 where a: "arrange_payment opts env from to d = Inr (r1, d1)"
    using assms by (cases "arrange_payment opts env from to d") auto
  from arrange_payment_result [OF this] show ?thesis using assms a by auto
qed

text \<open>A start callback that does not refuse has passed every guard on the data it returns.\<close>

lemma onTransitionStart_cases:
  assumes "order_onTransitionStart opts env from to d = Inr (r, d')"
  obtains m where "r = Start_message m"
  | "r = Start_void" and "from = ArrangingAdditionalPayment" and "to = Cancelled" and "d' = d"
  | "r = Start_void" and "check_modifications opts from to (data_order d) = None"
      and "check_additional_payment opts from (data_order d) = None"
      and "check_variants opts env from to (data_order d) = None"
      and "to \<noteq> ArrangingPayment \<Longrightarrow> d' = d"
      and "to = ArrangingPayment \<Longrightarrow> arrange_payment opts env from to d = Inr (Start_void, d')"
      and "final_checks opts from to d' = Inr (Start_void, d')"
proof (cases "r = Start_void")
  case True
  have "from = ArrangingAdditionalPayment \<and> to = Cancelled \<and> d' = d \<or>
     check_modifications opts from to (data_order d) = None \<and> check_additional_payment opts from (data_order d) = None \<and>
     check_variants opts env from to (data_order d) = None \<and> (to \<noteq> ArrangingPayment \<longrightarrow> d' = d) \<and>
     (to = ArrangingPayment \<longrightarrow> arrange_payment opts env from to d = Inr (Start_void, d')) \<and>
     final_checks opts from to d' = Inr (Start_void, d')"
    using assms True final_checks_result
    by (auto simp: order_onTransitionStart_def refuse_or_Inr split: option.splits if_splits dest!: arrange_then_cases)
      fastforce+
  then show thesis using that(2,3) True by blast
next
  case False
  then have "\<exists>m. r = Start_message m"
    using assms
    by (auto simp: order_onTransitionStart_def refuse_or_Inr split: option.splits if_splits
        dest!: arrange_then_cases final_checks_result)
  then show thesis using that(1) by blast
qed

lemma onTransitionStart_result:
  "order_onTransitionStart opts env from to d = Inr (r, d') \<Longrightarrow> r = Start_void \<or> (\<exists>m. r = Start_message m)"
  by (erule onTransitionStart_cases) auto

lemma transitioned_steps:
  assumes "transitionToState [defaultOrderProcess opts env] d target = Inr (Transitioned d'')"
  obtains d1 where "edge defaultOrderTransitions (order_state (data_order d)) target"
    and "order_onTransitionStart opts env (order_state (data_order d)) target d = Inr (Start_void, d1)"
    and "order_onTransitionEnd env (order_state (data_order d)) target
      (add_effect (OrderStateTransitionEvent (order_state (data_order d)) target)
        (d1\<lparr>data_order := (data_order d1)\<lparr>order_state := target\<rparr>\<rparr>)) = Inr d''"
proof -
  let ?P = "[defaultOrderProcess opts env]"
  let ?from = "order_state (data_order d)"
  let ?start = "order_onTransitionStart opts env ?from target d"
  obtain d' f where t: "orderStateMachine_transition ?P d target = Inr (d', f)"
    and f: "finalize (orderStateMachine_config ?P) f (add_effect (OrderStateTransitionEvent ?from target) d') = Inr d''"
    using assms by (auto simp: transitionToState_def Let_def bind_result_Inr split: sum.splits)
  from t obtain s d1 where m: "transitionTo (orderStateMachine_config ?P) ?from target d = Inr (s, d1, f)"
    and d': "d' = d1\<lparr>data_order := (data_order d1)\<lparr>order_state := s\<rparr>\<rparr>"
    by (auto simp: orderStateMachine_transition_def bind_result_Inr)
  have allowed: "canTransitionTo defaultOrderTransitions ?from target = Inr True"
    using m by (auto simp: transitionTo_def orderStateMachine_config_def process_config_def bind_result_Inr fsm_error_def
        split: if_splits)
  obtain r d2 where r: "?start = Inr (r, d2)"
    using m allowed by (cases ?start)
      (auto simp: transitionTo_def orderStateMachine_config_def process_config_def)
  have "r = Start_void \<and> s = target \<and> f = Finalize_end ?from target \<and> d1 = d2"
    using m allowed r onTransitionStart_result [OF r]
    by (auto simp: transitionTo_def orderStateMachine_config_def process_config_def fsm_error_def)
  then show thesis using that allowed r f d'
    by (auto simp: canTransitionTo_edge finalize_def orderStateMachine_config_def process_config_def
        bind_result_Inr)
qed

section \<open>What a transition keeps\<close>

definition same_life :: "order \<Rightarrow> order \<Rightarrow> bool" where
  "same_life a b \<longleftrightarrow>
     order_state b = order_state a \<and> active b = active a \<and> orderPlacedAt b = orderPlacedAt a"

text \<open>
  Repricing is a service the process calls; what is relied on is that it leaves the life of the order
  alone. \<open>recalculation_ok\<close> below is that hypothesis, and \<open>calculator_keeps_life\<close> shows that
  the calculator meets it.
\<close>

definition recalculation_ok :: "order_env \<Rightarrow> bool" where
  "recalculation_ok env \<longleftrightarrow> (\<forall>opts ord r. env_recalculate env opts ord = Inr r \<longrightarrow> same_life ord r)"

lemma same_life_refl [simp]: "same_life a a"
  by (simp add: same_life_def)

lemma same_life_trans: "same_life a b \<Longrightarrow> same_life b c \<Longrightarrow> same_life a c"
  by (simp add: same_life_def)

definition allocations :: "order_data \<Rightarrow> nat" where
  "allocations d = length (filter (\<lambda>e. e = AllocationsCreated) (data_effects d))"

definition same_data :: "order_data \<Rightarrow> order_data \<Rightarrow> bool" where
  "same_data a b \<longleftrightarrow> same_life (data_order a) (data_order b) \<and> allocations b = allocations a"

lemma same_data_refl [simp]: "same_data d d"
  by (simp add: same_data_def)

lemma allocations_add_effect [simp]:
  "allocations (add_effect e d) = (if e = AllocationsCreated then Suc (allocations d) else allocations d)"
  by (simp add: allocations_def add_effect_def)

lemma data_order_add_effect [simp]: "data_order (add_effect e d) = data_order d"
  by (simp add: add_effect_def)

lemma allocations_order [simp]: "allocations (d\<lparr>data_order := r\<rparr>) = allocations d"
  by (simp add: allocations_def)

lemma arrange_payment_keeps:
  assumes "arrange_payment opts env from to d = Inr (Start_void, d')" and "recalculation_ok env"
  shows "same_data d d'"
proof -
  obtain ord where ord: "env_recalculate env \<lparr>opt_recalculateShipping = Some False,
      opt_recalculateShippingPromotions = Some True\<rparr> (data_order d) = Inr ord"
    using assms(1) by (auto simp: arrange_payment_def refuse_or_Inr bind_result_Inr split: option.splits)
  have l1: "same_life (data_order d) ord" using ord assms(2) by (simp add: recalculation_ok_def)
  have "same_life ord r" if "env_recalculate env default_price_options ord = Inr r" for r
    using that assms(2) by (simp add: recalculation_ok_def)
  then have l2: "same_life (data_order d) r" if "env_recalculate env default_price_options ord = Inr r" for r
    using that l1 same_life_trans by blast
  show ?thesis
    using assms(1) ord l1 l2
    by (auto simp: arrange_payment_def refuse_or_Inr bind_result_Inr Let_def same_data_def
        split: option.splits if_splits)
qed

lemma onTransitionStart_keeps:
  assumes "order_onTransitionStart opts env from to d = Inr (Start_void, d')" and "recalculation_ok env"
  shows "same_data d d'"
  using assms(1)
proof (cases rule: onTransitionStart_cases)
  case 3
  then show ?thesis using arrange_payment_keeps [OF _ assms(2)] by (cases "to = ArrangingPayment") auto
qed auto

section \<open>Runs\<close>

definition default_strategies :: "order_env \<Rightarrow> bool" where
  "default_strategies env \<longleftrightarrow>
     env_shouldSetAsPlaced env = default_shouldSetAsPlaced \<and>
     env_shouldAllocateStock env = default_shouldAllocateStock"

inductive order_step :: "order_process_options \<Rightarrow> order_data \<Rightarrow> order_data \<Rightarrow> bool" for opts where
  life_transition:
    "recalculation_ok env \<Longrightarrow> default_strategies env \<Longrightarrow>
     transitionToState [defaultOrderProcess opts env] d target = Inr (Transitioned d') \<Longrightarrow> order_step opts d d'"
| life_edit: "same_life (data_order d) ord \<Longrightarrow> order_step opts d (d\<lparr>data_order := ord\<rparr>)"

text \<open>\<^verbatim>\<open>OrderService.create\<close> and \<^verbatim>\<open>createDraft\<close>: an empty order and its first transition.\<close>

definition createEmptyOrderEntity :: "ID \<Rightarrow> string \<Rightarrow> string \<Rightarrow> ID list \<Rightarrow> order" where
  "createEmptyOrderEntity newId code currency channelIds =
     \<lparr>order_id = newId, order_type = Regular, aggregateOrderId = None, order_code = code,
      order_state = Created, active = True, orderPlacedAt = None, pricingUpdatedAt = None,
      customerId = None, order_lines = [], surcharges = [], couponCodes = [], promotions = [],
      shippingCountryCode = None, payments = [], fulfillments = [], currencyCode = currency,
      taxZoneId = None, order_channels = channelIds, modifications = [],
      subTotal = 0, subTotalWithTax = 0, shippingLines = [], shipping = 0, shippingWithTax = 0\<rparr>"

definition create_order ::
  "(order_state, order_data) fsm_process list \<Rightarrow> order \<Rightarrow> ID option \<Rightarrow> transition_outcome result" where
  "create_order processes newOrder customer =
     transitionToState processes \<lparr>data_order = newOrder\<lparr>customerId := customer\<rparr>, data_effects = []\<rparr> AddingItems"

definition createDraft :: "(order_state, order_data) fsm_process list \<Rightarrow> order \<Rightarrow> transition_outcome result" where
  "createDraft processes newOrder =
     transitionToState processes \<lparr>data_order = newOrder\<lparr>active := False\<rparr>, data_effects = []\<rparr> Draft"

definition unplaced_states :: "order_state set" where
  "unplaced_states = {AddingItems, ArrangingPayment}"

definition placed_states :: "order_state set" where
  "placed_states = {PaymentAuthorized, PaymentSettled, PartiallyShipped, Shipped, PartiallyDelivered, Delivered,
     Modifying, ArrangingAdditionalPayment}"

definition life_ok :: "order_data \<Rightarrow> bool" where
  "life_ok d \<longleftrightarrow>
     (let ord = data_order d; st = order_state ord in
        st \<noteq> Created \<and>
        (st \<in> unplaced_states \<longrightarrow> active ord \<and> orderPlacedAt ord = None) \<and>
        (st = Draft \<longrightarrow> \<not> active ord \<and> orderPlacedAt ord = None) \<and>
        (st \<in> placed_states \<longrightarrow> \<not> active ord \<and> orderPlacedAt ord \<noteq> None) \<and>
        (st = Cancelled \<longrightarrow> \<not> active ord) \<and>
        allocations d = (if orderPlacedAt ord = None then 0 else 1))"

lemma default_edges:
  assumes "edge defaultOrderTransitions a b"
  shows "b \<noteq> Created \<and> a \<noteq> Cancelled \<and> (b = Draft \<longrightarrow> a = Created) \<and>
     (b \<in> unplaced_states \<longrightarrow> a = Created \<or> a \<in> unplaced_states \<or> a = Draft \<and> b = ArrangingPayment) \<and>
     (b \<in> placed_states \<longrightarrow> a \<in> placed_states \<or> a = ArrangingPayment \<and> (b = PaymentAuthorized \<or> b = PaymentSettled))"
  using assms
  by (cases a) (auto simp: edge_def fsm_getNextStates_def defaultOrderTransitions_def to_only_def
      unplaced_states_def placed_states_def)

lemma same_life_ok: "life_ok d \<Longrightarrow> same_data d d' \<Longrightarrow> life_ok d'"
  by (auto simp: life_ok_def same_data_def same_life_def Let_def)

lemma onTransitionEnd_life:
  assumes "life_ok d" and "edge defaultOrderTransitions (order_state (data_order d)) target"
    and "default_strategies env"
    and "order_onTransitionEnd env (order_state (data_order d)) target
       (add_effect e (d\<lparr>data_order := (data_order d)\<lparr>order_state := target\<rparr>\<rparr>)) = Inr d'"
    and "e \<noteq> AllocationsCreated"
  shows "life_ok d'"
proof -
  let ?from = "order_state (data_order d)"
  have ed: "target \<noteq> Created" "?from \<noteq> Cancelled" "target = Draft \<longrightarrow> ?from = Created"
    "target \<in> unplaced_states \<longrightarrow> ?from = Created \<or> ?from \<in> unplaced_states \<or> ?from = Draft \<and> target = ArrangingPayment"
    "target \<in> placed_states \<longrightarrow> ?from \<in> placed_states \<or>
       ?from = ArrangingPayment \<and> (target = PaymentAuthorized \<or> target = PaymentSettled)"
    using default_edges [OF assms(2)] by blast+
  show ?thesis
  proof (cases "?from = ArrangingPayment \<and> (target = PaymentAuthorized \<or> target = PaymentSettled)")
    case True
    then have "active (data_order d) \<and> orderPlacedAt (data_order d) = None \<and> allocations d = 0"
      using assms(1) by (auto simp: life_ok_def Let_def unplaced_states_def)
    then show ?thesis using True assms(3,4,5)
      by (auto simp: order_onTransitionEnd_def set_as_placed_def Let_def default_strategies_def
          default_shouldSetAsPlaced_def default_shouldAllocateStock_def life_ok_def unplaced_states_def placed_states_def)
  next
    case False
    let ?o = "data_order d" and ?o' = "data_order d'"
    have fields: "order_state ?o' = target" "orderPlacedAt ?o' = orderPlacedAt ?o" "allocations d' = allocations d"
      "active ?o' = (if ?from = Draft \<and> target = ArrangingPayment then True
                     else if target = Cancelled then False else active ?o)"
      using False assms(3,4,5)
      by (auto simp: order_onTransitionEnd_def set_as_placed_def Let_def default_strategies_def
          default_shouldSetAsPlaced_def default_shouldAllocateStock_def)
    have old: "?from \<noteq> Created" "?from \<in> unplaced_states \<longrightarrow> active ?o \<and> orderPlacedAt ?o = None"
      "?from = Draft \<longrightarrow> \<not> active ?o \<and> orderPlacedAt ?o = None"
      "?from \<in> placed_states \<longrightarrow> \<not> active ?o \<and> orderPlacedAt ?o \<noteq> None"
      "allocations d = (if orderPlacedAt ?o = None then 0 else 1)"
      using assms(1) by (simp_all add: life_ok_def Let_def)
    have disj: "Draft \<notin> unplaced_states" "Draft \<notin> placed_states" "Cancelled \<notin> unplaced_states"
      "Cancelled \<notin> placed_states" "ArrangingPayment \<notin> placed_states"
      by (simp_all add: unplaced_states_def placed_states_def)
    show ?thesis unfolding life_ok_def Let_def fields
      using ed old False disj by auto
  qed
qed

lemma order_step_life:
  assumes "life_ok d" and "order_step opts d d'"
  shows "life_ok d'"
  using assms(2)
proof (cases rule: order_step.cases)
  case (life_transition env target)
  note 1 = life_transition
  from 1(3) show ?thesis
  proof (rule transitioned_steps)
    fix d1
    assume e: "edge defaultOrderTransitions (order_state (data_order d)) target"
      and s: "order_onTransitionStart opts env (order_state (data_order d)) target d = Inr (Start_void, d1)"
      and f: "order_onTransitionEnd env (order_state (data_order d)) target
        (add_effect (OrderStateTransitionEvent (order_state (data_order d)) target)
          (d1\<lparr>data_order := (data_order d1)\<lparr>order_state := target\<rparr>\<rparr>)) = Inr d'"
    have same: "same_data d d1" using onTransitionStart_keeps [OF s 1(1)] .
    then have st: "order_state (data_order d1) = order_state (data_order d)" by (simp add: same_data_def same_life_def)
    show ?thesis
      by (rule onTransitionEnd_life [of d1 target env]) (use same_life_ok [OF assms(1) same] e f st 1(2) in auto)
  qed
next
  case (life_edit ord)
  then show ?thesis using assms(1) by (auto intro: same_life_ok simp: same_data_def)
qed

lemma created_life_ok:
  assumes "transitionToState [defaultOrderProcess opts env] \<lparr>data_order = ord, data_effects = []\<rparr> target = Inr (Transitioned d)"
    and "recalculation_ok env" and "default_strategies env"
    and "order_state ord = Created" and "orderPlacedAt ord = None"
    and "target = AddingItems \<and> active ord \<or> target = Draft \<and> \<not> active ord"
  shows "life_ok d"
  using assms(1)
proof (rule transitioned_steps)
  let ?d = "\<lparr>data_order = ord, data_effects = []\<rparr>"
  fix d1
  assume s: "order_onTransitionStart opts env (order_state (data_order ?d)) target ?d = Inr (Start_void, d1)"
    and f: "order_onTransitionEnd env (order_state (data_order ?d)) target
      (add_effect (OrderStateTransitionEvent (order_state (data_order ?d)) target)
        (d1\<lparr>data_order := (data_order d1)\<lparr>order_state := target\<rparr>\<rparr>)) = Inr d"
  have "same_data ?d d1" using onTransitionStart_keeps [OF s assms(2)] .
  then have "active (data_order d1) = active ord" "orderPlacedAt (data_order d1) = None" "allocations d1 = 0"
    using assms(5) by (simp_all add: same_data_def same_life_def allocations_def)
  then show ?thesis using f assms(3,4,6)
    by (auto simp: order_onTransitionEnd_def set_as_placed_def Let_def default_strategies_def
        default_shouldSetAsPlaced_def default_shouldAllocateStock_def life_ok_def unplaced_states_def placed_states_def)
qed

lemma onTransitionEnd_totals:
  assumes "order_onTransitionEnd env a b d = Inr d'"
  shows "totalWithTax (data_order d') = totalWithTax (data_order d) \<and> payments (data_order d') = payments (data_order d)
    \<and> order_state (data_order d') = order_state (data_order d)"
  using assms by (auto simp: order_onTransitionEnd_def set_as_placed_def Let_def totalWithTax_def)

section \<open>Properties\<close>


definition sample_env :: order_env where
  "sample_env =
     \<lparr>env_ctx = sample_ctx, env_variantExists = (\<lambda>_. True), env_recalculate = (\<lambda>_ ord. Inr ord),
      env_eligibleMethodIds = (\<lambda>_. [4]), env_saleableStock = (\<lambda>_. 100),
      env_shouldSetAsPlaced = default_shouldSetAsPlaced, env_shouldAllocateStock = default_shouldAllocateStock\<rparr>"

definition sample_fill :: "order \<Rightarrow> order" where
  "sample_fill ord = ord\<lparr>order_lines := [sample_line 1 1000 2], customerId := Some 7,
     shippingLines := [\<lparr>listPrice = 0, listPriceIncludesTax = False, taxLines = [], adjustments = [],
        shipping_line_id = 3, shippingMethodId = Some 4\<rparr>],
     subTotalWithTax := 2400,
     payments := [\<lparr>payment_id = 1, payment_method = ''m'', payment_amount = 2400, payment_state = Payment_Settled,
        payment_errorMessage = None, payment_transactionId = None, refunds = []\<rparr>]\<rparr>"

text \<open>The transition of the default process in one piece, for evaluation.\<close>

definition direct_transition ::
  "order_process_options \<Rightarrow> order_env \<Rightarrow> order_state \<Rightarrow> order_data \<Rightarrow> order_data option" where
  "direct_transition opts env target d =
     (let fromState = order_state (data_order d)
      in if target \<in> set (fsm_getNextStates defaultOrderTransitions fromState)
         then (case order_onTransitionStart opts env fromState target d of
                 Inr (Start_void, d1) \<Rightarrow>
                   (case order_onTransitionEnd env fromState target
                       (add_effect (OrderStateTransitionEvent fromState target)
                         (d1\<lparr>data_order := (data_order d1)\<lparr>order_state := target\<rparr>\<rparr>)) of
                      Inr d2 \<Rightarrow> Some d2 | _ \<Rightarrow> None)
               | _ \<Rightarrow> None)
         else None)"

lemma direct_transition:
  assumes "direct_transition opts env target d = Some d'"
  shows "transitionToState [defaultOrderProcess opts env] d target = Inr (Transitioned d')"
proof -
  let ?from = "order_state (data_order d)"
  have e: "canTransitionTo defaultOrderTransitions ?from target = Inr True"
    using assms by (auto simp: direct_transition_def Let_def canTransitionTo_edge edge_def split: if_splits)
  obtain d1 where s: "order_onTransitionStart opts env ?from target d = Inr (Start_void, d1)"
    and f: "order_onTransitionEnd env ?from target (add_effect (OrderStateTransitionEvent ?from target)
       (d1\<lparr>data_order := (data_order d1)\<lparr>order_state := target\<rparr>\<rparr>)) = Inr d'"
    using assms by (auto simp: direct_transition_def Let_def split: if_splits sum.splits start_result.splits prod.splits)
  show ?thesis using e s f
    by (simp add: transitionToState_def orderStateMachine_transition_def transitionTo_def orderStateMachine_config_def
        process_config_def finalize_def Let_def)
qed

definition sample_step :: "order_state \<Rightarrow> order_data \<Rightarrow> order_data" where
  "sample_step t d = (case direct_transition all_checks sample_env t d of Some d' \<Rightarrow> d' | None \<Rightarrow> d)"

definition sample_run_order :: "order_state list \<Rightarrow> order_data \<Rightarrow> order_data" where
  "sample_run_order targets d = fold sample_step targets d"

definition sample_created :: order_data where
  "sample_created = sample_run_order [AddingItems]
     \<lparr>data_order = (createEmptyOrderEntity 1 ''A'' ''USD'' [1])\<lparr>customerId := None\<rparr>, data_effects = []\<rparr>"

lemma sample_env_ok: "recalculation_ok sample_env" "default_strategies sample_env"
  by (simp_all add: recalculation_ok_def default_strategies_def sample_env_def)

lemma sample_created_eq:
  "create_order [defaultOrderProcess all_checks sample_env] (createEmptyOrderEntity 1 ''A'' ''USD'' [1]) None =
     Inr (Transitioned sample_created)"
proof -
  have "direct_transition all_checks sample_env AddingItems
      \<lparr>data_order = (createEmptyOrderEntity 1 ''A'' ''USD'' [1])\<lparr>customerId := None\<rparr>, data_effects = []\<rparr> = Some sample_created"
    by code_simp
  then show ?thesis unfolding create_order_def by (rule direct_transition)
qed

lemma sample_run_steps: "steps (order_step all_checks) d (sample_run_order ts d)"
proof (induction ts rule: rev_induct)
  case (snoc t ts)
  have "steps (order_step all_checks) d (sample_step t (sample_run_order ts d))"
    using snoc by (auto simp: sample_step_def split: option.split
        intro!: steps_step [OF snoc] life_transition [OF sample_env_ok] direct_transition)
  then show ?case by (simp add: sample_run_order_def)
qed (simp add: sample_run_order_def steps_refl)


text \<open>
  C27: With all checks on, an order enters a state only when it meets that state's condition:
  payment settled or authorized only when payments in those states cover its total, shipped and
  delivered only when all its items are, partially shipped and delivered only when some are,
  arranging payment only with lines, a customer and a shipping method; and a transition to a state
  other than arranging payment leaves total and payments as they were.
\<close>

theorem transition_guards:
  assumes "transitionToState [defaultOrderProcess all_checks env] d target = Inr (Transitioned d')"
  shows "edge defaultOrderTransitions (order_state (data_order d)) target \<and> order_state (data_order d') = target \<and>
     (target = PaymentSettled \<longrightarrow> orderTotalIsCovered (data_order d) [Payment_Settled]) \<and>
     (target = PaymentAuthorized \<longrightarrow> orderTotalIsCovered (data_order d) [Payment_Authorized, Payment_Settled]) \<and>
     (target = Shipped \<longrightarrow> orderItemsAreShipped (data_order d)) \<and>
     (target = PartiallyShipped \<longrightarrow> orderItemsArePartiallyShipped (data_order d)) \<and>
     (target = Delivered \<longrightarrow> orderItemsAreDelivered (data_order d)) \<and>
     (target = PartiallyDelivered \<longrightarrow> orderItemsArePartiallyDelivered (data_order d)) \<and>
     (target = ArrangingPayment \<longrightarrow> order_lines (data_order d) \<noteq> [] \<and> customerId (data_order d) \<noteq> None \<and>
        shippingLines (data_order d) \<noteq> []) \<and>
     (target \<noteq> ArrangingPayment \<longrightarrow> totalWithTax (data_order d') = totalWithTax (data_order d) \<and>
        payments (data_order d') = payments (data_order d))"
  using assms
proof (rule transitioned_steps)
  fix d1
  assume e: "edge defaultOrderTransitions (order_state (data_order d)) target"
    and s: "order_onTransitionStart all_checks env (order_state (data_order d)) target d = Inr (Start_void, d1)"
    and f: "order_onTransitionEnd env (order_state (data_order d)) target
      (add_effect (OrderStateTransitionEvent (order_state (data_order d)) target)
        (d1\<lparr>data_order := (data_order d1)\<lparr>order_state := target\<rparr>\<rparr>)) = Inr d'"
  have t: "totalWithTax (data_order d') = totalWithTax (data_order d1)" "payments (data_order d') = payments (data_order d1)"
    "order_state (data_order d') = target"
    using onTransitionEnd_totals [OF f] by (simp_all add: totalWithTax_def)
  from s show ?thesis
  proof (cases rule: onTransitionStart_cases)
    case 2
    then show ?thesis using e t by simp
  next
    case 3
    have c: "check_payments all_checks target (data_order d1) = None" "check_fulfillment all_checks target (data_order d1) = None"
      using final_checks_void [OF 3(7)] by simp_all
    have p: "target = PaymentSettled \<longrightarrow> orderTotalIsCovered (data_order d1) [Payment_Settled]"
      "target = PaymentAuthorized \<longrightarrow> orderTotalIsCovered (data_order d1) [Payment_Authorized, Payment_Settled]"
      using c(1) by (auto simp: check_payments_def all_checks_def split: if_splits)
    have fl: "target = Shipped \<longrightarrow> orderItemsAreShipped (data_order d1)"
      "target = PartiallyShipped \<longrightarrow> orderItemsArePartiallyShipped (data_order d1)"
      "target = Delivered \<longrightarrow> orderItemsAreDelivered (data_order d1)"
      "target = PartiallyDelivered \<longrightarrow> orderItemsArePartiallyDelivered (data_order d1)"
      using c(2) by (auto simp: check_fulfillment_def all_checks_def split: if_splits)
    have "target = ArrangingPayment \<longrightarrow> check_arranging_contents all_checks (data_order d) = None"
      using 3(6) by (auto simp: arrange_payment_def refuse_or_Inr split: option.splits)
    then have a: "target = ArrangingPayment \<longrightarrow> order_lines (data_order d) \<noteq> [] \<and> customerId (data_order d) \<noteq> None \<and>
        shippingLines (data_order d) \<noteq> []"
      by (auto simp: check_arranging_contents_def all_checks_def split: if_splits)
    show ?thesis using e t p fl a 3(5) by (cases "target = ArrangingPayment") auto
  qed simp
qed

theorem transition_guards_witness:
  "(let d = sample_run_order [ArrangingPayment] (sample_created\<lparr>data_order := sample_fill (data_order sample_created)\<rparr>)
    in \<exists>d'. transitionToState [defaultOrderProcess all_checks sample_env] d PaymentSettled = Inr (Transitioned d') \<and>
         order_state (data_order d') = PaymentSettled \<and> orderTotalIsCovered (data_order d) [Payment_Settled])"
proof -
  let ?d = "sample_run_order [ArrangingPayment] (sample_created\<lparr>data_order := sample_fill (data_order sample_created)\<rparr>)"
  have "direct_transition all_checks sample_env PaymentSettled ?d \<noteq> None" by code_simp
  then obtain d' where "direct_transition all_checks sample_env PaymentSettled ?d = Some d'" by blast
  then have t: "transitionToState [defaultOrderProcess all_checks sample_env] ?d PaymentSettled = Inr (Transitioned d')"
    by (rule direct_transition)
  show ?thesis using transition_guards [OF t] t by (simp add: Let_def)
qed

text \<open>
  The four default transition tables are sound: every state of each is reachable from its initial
  state and every target is a state of the table; an order can be cancelled from every state in at
  most two transitions, and cancelled is its only final state.
\<close>

theorem default_tables_sound:
  "\<not> validation_error (validateTransitionDefinition defaultOrderTransitions Created) \<and>
   \<not> validation_error (validateTransitionDefinition defaultPaymentTransitions Payment_Created) \<and>
   \<not> validation_error (validateTransitionDefinition defaultFulfillmentTransitions Fulfillment_Created) \<and>
   \<not> validation_error (validateTransitionDefinition defaultRefundTransitions Refund_Pending) \<and>
   list_all (\<lambda>e. list_all (\<lambda>s. map_get defaultOrderTransitions s \<noteq> None) (to_states (snd e))) defaultOrderTransitions \<and>
   (\<forall>s. s = Cancelled \<or> edge defaultOrderTransitions s Cancelled \<or>
      (\<exists>m. edge defaultOrderTransitions s m \<and> edge defaultOrderTransitions m Cancelled)) \<and>
   (\<forall>s. fsm_getNextStates defaultOrderTransitions s = [] \<longleftrightarrow> s = Cancelled)"
proof (intro conjI allI)
  fix s
  have "edge defaultOrderTransitions Created Draft \<and> edge defaultOrderTransitions Draft Cancelled \<and>
      edge defaultOrderTransitions Modifying PaymentSettled \<and> edge defaultOrderTransitions PaymentSettled Cancelled"
    unfolding edge_def by code_simp
  moreover have "s = Cancelled \<or> s = Created \<or> s = Modifying \<or> edge defaultOrderTransitions s Cancelled"
    by (cases s) (simp_all add: edge_def fsm_getNextStates_def defaultOrderTransitions_def to_only_def)
  ultimately show "s = Cancelled \<or> edge defaultOrderTransitions s Cancelled \<or>
      (\<exists>m. edge defaultOrderTransitions s m \<and> edge defaultOrderTransitions m Cancelled)" by blast
  show "fsm_getNextStates defaultOrderTransitions s = [] \<longleftrightarrow> s = Cancelled"
    by (cases s) (simp_all add: fsm_getNextStates_def defaultOrderTransitions_def to_only_def)
qed code_simp+

text \<open>
  When a process answers \<^verbatim>\<open>false\<close> to an allowed transition, a fulfillment keeps its
  state, but a payment and a refund are put into the requested state all the same: their machines
  store the requested state and not the state of the machine, while nothing is scheduled to follow.
\<close>

theorem refusal_applied_to_payment:
  assumes "proc_onTransitionStart process = Some (\<lambda>_ _ x. Inr (Start_false, x))"
    and "canTransitionTo (allTransitions [process]) (payment_state p) state = Inr True"
    and "proc_onTransitionStart rprocess = Some (\<lambda>_ _ x. Inr (Start_false, x))"
    and "canTransitionTo (allTransitions [rprocess]) (refund_state r) rstate = Inr True"
    and "proc_onTransitionStart fprocess = Some (\<lambda>_ _ x. Inr (Start_false, x))"
    and "canTransitionTo (allTransitions [fprocess]) (fulfillment_state f) fstate = Inr True"
  shows "paymentStateMachine_transition handlers [process] p state = Inr (p\<lparr>payment_state := state\<rparr>, Finalize_noop) \<and>
     refundStateMachine_transition [rprocess] r rstate = Inr (r\<lparr>refund_state := rstate\<rparr>, Finalize_noop) \<and>
     fulfillmentStateMachine_transition [fprocess] f fstate = Inr (f, Finalize_noop)"
  using assms
  by (simp add: paymentStateMachine_transition_def refundStateMachine_transition_def
      fulfillmentStateMachine_transition_def transitionTo_def paymentStateMachine_config_def process_config_def)

definition refusing :: "'s transitions \<Rightarrow> ('s, 'd) fsm_process" where
  "refusing t = \<lparr>proc_transitions = Some t, proc_onTransitionStart = Some (\<lambda>_ _ x. Inr (Start_false, x)),
     proc_onTransitionEnd = None\<rparr>"

lemma refusing_start: "proc_onTransitionStart (refusing t) = Some (\<lambda>_ _ x. Inr (Start_false, x))"
  by (simp add: refusing_def)

theorem refusal_applied_to_payment_witness:
  "let p = hd (payments (sample_fill (sample_order []))) in
   paymentStateMachine_transition [] [refusing defaultPaymentTransitions] p Payment_Cancelled =
     Inr (p\<lparr>payment_state := Payment_Cancelled\<rparr>, Finalize_noop)"
proof -
  let ?p = "hd (payments (sample_fill (sample_order [])))"
  let ?r = "\<lparr>refund_id = 1, refund_items = 0, refund_shipping = 0, refund_adjustment = 0, refund_total = 0,
      refund_method = [], refund_reason = None, refund_state = Refund_Pending, refund_transactionId = None,
      refund_lines = [], refund_paymentId = 1\<rparr>"
  let ?f = "\<lparr>fulfillment_id = 1, fulfillment_state = Fulfillment_Created, handlerCode = [], fulfillment_lines = []\<rparr>"
  have c: "canTransitionTo (allTransitions [refusing defaultPaymentTransitions]) (payment_state ?p) Payment_Cancelled = Inr True"
    "canTransitionTo (allTransitions [refusing defaultRefundTransitions]) (refund_state ?r) Refund_Failed = Inr True"
    "canTransitionTo (allTransitions [refusing defaultFulfillmentTransitions]) (fulfillment_state ?f) Fulfillment_Pending = Inr True"
    by code_simp+
  show ?thesis unfolding Let_def
    by (rule conjunct1 [OF refusal_applied_to_payment [OF refusing_start c(1) refusing_start c(2) refusing_start c(3)]])
qed

end
