(* ===== verification/LockOrder.thy ===== *)
theory LockOrder
  imports Prelude
begin

text \<open>
  \<^verbatim>\<open>service/helpers/utils/stock-lock-order.ts\<close>: the order in which the stock rows of
  several variants are locked. Ids are compared in their printed form, so this theory has strings:
  JavaScript's \<open><\<close> on strings, the stable \<^verbatim>\<open>Array.sort\<close> with a comparator and the
  decimal form of a number. The comparator agrees with the order of the numbers, and sorting with
  it is sorting the numbers.
\<close>

section \<open>Strings\<close>

abbreviation code_unit :: "char \<Rightarrow> nat" where
  "code_unit c \<equiv> of_char c"

fun str_less :: "string \<Rightarrow> string \<Rightarrow> bool" where
  "str_less a [] = False"
| "str_less [] (y # ys) = True"
| "str_less (x # xs) (y # ys) = (code_unit x < code_unit y \<or> (x = y \<and> str_less xs ys))"

lemma str_less_irrefl [simp]: "\<not> str_less xs xs"
  by (induction xs) auto

lemma str_less_linear: "str_less xs ys \<or> xs = ys \<or> str_less ys xs"
proof (induction xs ys rule: str_less.induct)
  case (3 x xs y ys)
  have "code_unit x < code_unit y \<or> x = y \<or> code_unit y < code_unit x"
    by (metis linorder_neqE_nat char_of_char)
  then show ?case using 3 by auto
next
  case (1 a)
  then show ?case by (cases a) auto
qed simp

lemma str_less_trans: "str_less xs ys \<Longrightarrow> str_less ys zs \<Longrightarrow> str_less xs zs"
proof (induction xs ys arbitrary: zs rule: str_less.induct)
  case (2 y ys)
  then show ?case by (cases zs) auto
next
  case (3 x xs y ys)
  then show ?case by (cases zs) auto
qed simp

lemma str_less_asym: "str_less xs ys \<Longrightarrow> \<not> str_less ys xs"
  using str_less_trans str_less_irrefl by blast

lemma str_less_snoc:
  "length xs = length ys \<Longrightarrow>
   str_less (xs @ [c]) (ys @ [d]) \<longleftrightarrow> str_less xs ys \<or> (xs = ys \<and> code_unit c < code_unit d)"
  by (induction xs ys rule: list_induct2) auto

section \<open>Array.sort with a comparator\<close>

fun sort_insert :: "('a \<Rightarrow> 'a \<Rightarrow> int) \<Rightarrow> 'a \<Rightarrow> 'a list \<Rightarrow> 'a list" where
  "sort_insert cmp x [] = [x]"
| "sort_insert cmp x (y # ys) = (if cmp x y \<le> 0 then x # y # ys else y # sort_insert cmp x ys)"

definition array_sort :: "('a \<Rightarrow> 'a \<Rightarrow> int) \<Rightarrow> 'a list \<Rightarrow> 'a list" where
  "array_sort cmp xs = foldr (sort_insert cmp) xs []"

lemma sort_insert_is_insort:
  assumes "\<And>y. y \<in> set ys \<Longrightarrow> cmp x y \<le> 0 \<longleftrightarrow> (k x :: 'k::linorder) \<le> k y"
  shows "sort_insert cmp x ys = insort_key k x ys"
  using assms by (induction ys) auto

lemma array_sort_is_sort_key:
  assumes "\<And>x y. x \<in> set xs \<Longrightarrow> y \<in> set xs \<Longrightarrow> cmp x y \<le> 0 \<longleftrightarrow> (k x :: 'k::linorder) \<le> k y"
  shows "array_sort cmp xs = sort_key k xs"
  using assms
proof (induction xs)
  case Nil
  then show ?case by (simp add: array_sort_def)
next
  case (Cons x xs)
  have IH: "array_sort cmp xs = sort_key k xs" using Cons by simp
  have "sort_insert cmp x (sort_key k xs) = insort_key k x (sort_key k xs)"
    by (rule sort_insert_is_insort) (use Cons.prems in auto)
  then show ?case using IH by (simp add: array_sort_def)
qed

section \<open>Decimal numbers\<close>

definition digit_char :: "nat \<Rightarrow> char" where
  "digit_char d = char_of (48 + d)"

definition is_digit :: "char \<Rightarrow> bool" where
  "is_digit c \<longleftrightarrow> 48 \<le> code_unit c \<and> code_unit c \<le> 57"

fun print_nat :: "nat \<Rightarrow> string" where
  "print_nat n = (if n < 10 then [digit_char n] else print_nat (n div 10) @ [digit_char (n mod 10)])"

declare print_nat.simps [simp del]

lemma code_digit_char: "d < 10 \<Longrightarrow> code_unit (digit_char d) = 48 + d"
  by (simp add: digit_char_def of_char_of)

lemma print_nat_small: "n < 10 \<Longrightarrow> print_nat n = [digit_char n]"
  by (simp add: print_nat.simps)

lemma print_nat_big: "10 \<le> n \<Longrightarrow> print_nat n = print_nat (n div 10) @ [digit_char (n mod 10)]"
  by (simp add: print_nat.simps)

lemma is_digit_char: "d < 10 \<Longrightarrow> is_digit (digit_char d)"
  by (simp add: is_digit_def code_digit_char)

lemma print_nat_digits: "list_all is_digit (print_nat n)"
  by (induction n rule: print_nat.induct) (subst print_nat.simps, simp add: is_digit_char)

lemma print_nat_not_Nil [simp]: "print_nat n \<noteq> []"
  by (subst print_nat.simps) simp

lemma print_nat_length: "n < 10 ^ length (print_nat n) \<and> (0 < n \<longrightarrow> 10 ^ (length (print_nat n) - 1) \<le> n)"
proof (induction n rule: print_nat.induct)
  case (1 n)
  show ?case
  proof (cases "n < 10")
    case True
    then show ?thesis by (simp add: print_nat_small)
  next
    case False
    let ?l = "length (print_nat (n div 10))"
    have IH: "n div 10 < 10 ^ ?l" "10 ^ (?l - 1) \<le> n div 10" using 1 False by auto
    have l: "0 < ?l" by simp
    have "10 ^ ?l = (10::nat) * 10 ^ (?l - 1)" using l by (metis power_minus_mult mult.commute)
    then have "n < 10 * 10 ^ ?l" "10 ^ ?l \<le> n" using IH by linarith+
    then show ?thesis using False by (simp add: print_nat_big)
  qed
qed

lemma shorter_is_smaller: "length (print_nat a) < length (print_nat b) \<Longrightarrow> a < b"
proof -
  assume less: "length (print_nat a) < length (print_nat b)"
  have b: "0 < b"
  proof (rule ccontr)
    assume "\<not> 0 < b"
    then have "length (print_nat b) = 1" by (simp add: print_nat_small)
    then show False using less by (metis length_greater_0_conv less_one not_less_zero print_nat_not_Nil)
  qed
  have "a < 10 ^ length (print_nat a)" by (simp add: print_nat_length)
  also have "\<dots> \<le> 10 ^ (length (print_nat b) - 1)" using less by (intro power_increasing) auto
  also have "\<dots> \<le> b" using b print_nat_length by blast
  finally show ?thesis .
qed

lemma div_mod_less: "(a::nat) < b \<longleftrightarrow> a div 10 < b div 10 \<or> (a div 10 = b div 10 \<and> a mod 10 < b mod 10)"
  using div_mult_mod_eq [of a 10] div_mult_mod_eq [of b 10]
    mod_less_divisor [of 10 a] mod_less_divisor [of 10 b] by linarith

lemma div_mod_eq: "(a::nat) = b \<longleftrightarrow> a div 10 = b div 10 \<and> a mod 10 = b mod 10"
  by (metis div_mult_mod_eq)

lemma digit_char_eq: "c < 10 \<Longrightarrow> d < 10 \<Longrightarrow> digit_char c = digit_char d \<longleftrightarrow> c = d"
  by (metis code_digit_char add_left_cancel)

lemma print_nat_order:
  "length (print_nat a) = length (print_nat b) \<Longrightarrow>
   (str_less (print_nat a) (print_nat b) \<longleftrightarrow> a < b) \<and> (print_nat a = print_nat b \<longleftrightarrow> a = b)"
proof (induction a arbitrary: b rule: print_nat.induct)
  case (1 a)
  show ?case
  proof (cases "a < 10")
    case True
    then have "b < 10" using "1.prems" by (cases "b < 10") (simp_all add: print_nat_small print_nat_big)
    then show ?thesis using True by (simp add: print_nat_small code_digit_char digit_char_eq)
  next
    case False
    then have b: "\<not> b < 10" using "1.prems" by (cases "b < 10") (simp_all add: print_nat_small print_nat_big)
    then have len: "length (print_nat (a div 10)) = length (print_nat (b div 10))"
      using "1.prems" False by (simp add: print_nat_big)
    show ?thesis
      using "1.IH" [OF False len] False b div_mod_less [of a b] div_mod_eq [of a b]
      by (simp add: print_nat_big str_less_snoc [OF len] code_digit_char digit_char_eq)
  qed
qed

lemma print_nat_eq [simp]: "print_nat a = print_nat b \<longleftrightarrow> a = b"
  using print_nat_order by metis

section \<open>The comparator\<close>

definition numericId :: "string \<Rightarrow> bool" where
  "numericId s \<longleftrightarrow> s \<noteq> [] \<and> list_all is_digit s"

definition compareIdsForLockOrder :: "string \<Rightarrow> string \<Rightarrow> int" where
  "compareIdsForLockOrder a b =
     (if numericId a \<and> numericId b \<and> length a \<noteq> length b then int (length a) - int (length b)
      else if str_less a b then -1 else if str_less b a then 1 else 0)"

lemma numericId_print_nat: "numericId (print_nat n)"
  by (simp add: numericId_def print_nat_digits)

lemma compare_printed:
  "compareIdsForLockOrder (print_nat a) (print_nat b) \<le> 0 \<longleftrightarrow> a \<le> b"
proof (cases "length (print_nat a) = length (print_nat b)")
  case True
  then show ?thesis
    using print_nat_order [OF True] print_nat_order [OF True [symmetric]]
    by (auto simp: compareIdsForLockOrder_def)
next
  case False
  then show ?thesis
    using shorter_is_smaller [of a b] shorter_is_smaller [of b a]
    by (simp add: compareIdsForLockOrder_def numericId_print_nat) linarith
qed

text \<open>Within one kind of id the comparator is the order of a key: length first, or not at all.\<close>

definition one_kind :: "string set \<Rightarrow> bool" where
  "one_kind ids \<longleftrightarrow> (\<forall>a \<in> ids. numericId a) \<or> (\<forall>a \<in> ids. \<not> numericId a)"

lemma compare_le:
  "one_kind {a, b} \<Longrightarrow>
   compareIdsForLockOrder a b \<le> 0 \<longleftrightarrow>
     (numericId a \<and> length a < length b) \<or> (numericId a \<longrightarrow> length a = length b) \<and> \<not> str_less b a"
  using str_less_linear [of a b] str_less_asym [of a b]
  by (auto simp: compareIdsForLockOrder_def one_kind_def)

lemma compare_swap:
  "compareIdsForLockOrder b a = - compareIdsForLockOrder a b"
  using str_less_linear [of a b] str_less_asym [of a b]
  by (auto simp: compareIdsForLockOrder_def)

lemma compare_eq: "compareIdsForLockOrder a b = 0 \<longleftrightarrow> a = b"
  using str_less_linear [of a b] by (auto simp: compareIdsForLockOrder_def)

lemma compare_trans:
  assumes "one_kind {a, b, c}" and "compareIdsForLockOrder a b \<le> 0" and "compareIdsForLockOrder b c \<le> 0"
  shows "compareIdsForLockOrder a c \<le> 0"
proof -
  have kinds: "one_kind {a, b}" "one_kind {b, c}" "one_kind {a, c}"
    using assms(1) by (auto simp: one_kind_def)
  have str: "\<not> str_less b a \<Longrightarrow> \<not> str_less c b \<Longrightarrow> \<not> str_less c a"
    using str_less_linear str_less_trans by metis
  note le = compare_le [OF kinds(1)] compare_le [OF kinds(2)] compare_le [OF kinds(3)]
  show ?thesis
  proof (cases "numericId a")
    case True
    then have "numericId b" using assms(1) by (auto simp: one_kind_def)
    then show ?thesis using True assms(2,3) str unfolding le by (elim disjE conjE) simp_all
  next
    case False
    then have "\<not> numericId b" using assms(1) by (auto simp: one_kind_def)
    then show ?thesis using False assms(2,3) str unfolding le by simp
  qed
qed

text \<open>
  Among ids of one kind, all numeric or all not, the comparator of the lock order is a total
  order: it is zero only between equal ids, swapping its arguments negates it, and it is
  transitive; on decimal numbers it orders by value.
\<close>

theorem lock_order_total:
  assumes "one_kind {a, b, c}"
  shows "(compareIdsForLockOrder a b = 0 \<longleftrightarrow> a = b) \<and>
         compareIdsForLockOrder b a = - compareIdsForLockOrder a b \<and>
         (compareIdsForLockOrder a b \<le> 0 \<longrightarrow> compareIdsForLockOrder b c \<le> 0 \<longrightarrow>
            compareIdsForLockOrder a c \<le> 0) \<and>
         (compareIdsForLockOrder (print_nat m) (print_nat n) \<le> 0 \<longleftrightarrow> m \<le> n)"
  using compare_eq [of a b] compare_swap [of b a] compare_trans [OF assms] compare_printed [of m n] by simp

theorem lock_order_total_witness:
  "one_kind {''9'', ''10'', ''100''} \<and> compareIdsForLockOrder ''9'' ''100'' \<le> 0"
proof -
  have kind: "one_kind {''9'', ''10'', ''100''}"
    by (simp add: one_kind_def numericId_def is_digit_def)
  have "compareIdsForLockOrder ''9'' ''10'' \<le> 0" "compareIdsForLockOrder ''10'' ''100'' \<le> 0"
    by (simp_all add: compareIdsForLockOrder_def numericId_def is_digit_def)
  then show ?thesis using lock_order_total [OF kind] kind by blast
qed

text \<open>
  Ids of both kinds in one list have no consistent order: \<open>10 < 1a < 9 < 10\<close>. Transactions
  that lock such ids can take the same locks in opposite orders, so one id strategy per database is
  needed, as the code's comment says.
\<close>

theorem mixed_ids_cycle:
  "compareIdsForLockOrder ''10'' ''1a'' < 0 \<and> compareIdsForLockOrder ''1a'' ''9'' < 0 \<and>
   compareIdsForLockOrder ''9'' ''10'' < 0"
  by code_simp

lemma array_sort_printed:
  "array_sort (\<lambda>a b. compareIdsForLockOrder (print_nat a) (print_nat b)) ids = sort ids"
  using array_sort_is_sort_key [of ids _ "\<lambda>x. x"] compare_printed by auto

end
