(* ===== verification/Stock.thy ===== *)
theory Stock
  imports Entities LockOrder
begin

text \<open>
  Stock levels and the strategies that choose stock locations:
  \<^verbatim>\<open>service/services/stock-level.service.ts\<close>, the default and the multi-channel
  \<^verbatim>\<open>StockLocationStrategy\<close> under \<^verbatim>\<open>config/catalog/\<close>, the saleable and
  fulfillable figures of \<^verbatim>\<open>product-variant.service.ts\<close>, and the order in which locks
  are taken. The tables are one record, threaded through every operation; a write to a table is an
  update of the record, and a locking read leaves the variant in \<open>lock_log\<close>. The cache of a
  location's channels is left out: its channels are read from the table.
\<close>

section \<open>The tables\<close>

record stock_level =
  stock_level_id :: ID
  level_variantId :: ID
  level_locationId :: ID
  stockOnHand :: int
  stockAllocated :: int

datatype global_flag = Flag_TRUE | Flag_FALSE | Flag_INHERIT

record product_variant_price =
  price_channelId :: ID
  price_currencyCode :: string
  price_value :: int

record product_variant =
  variant_id :: ID
  trackInventory :: global_flag
  useGlobalOutOfStockThreshold :: bool
  outOfStockThreshold :: int
  variant_deletedAt :: "int option"
  variant_enabled :: bool
  product_enabled :: bool
  variant_taxCategoryId :: ID
  variant_channels :: "ID list"
  productVariantPrices :: "product_variant_price list"

record global_settings =
  global_trackInventory :: bool
  global_outOfStockThreshold :: int

datatype movement_type = ADJUSTMENT | ALLOCATION | SALE | CANCELLATION | RELEASE

record stock_movement =
  mv_type :: movement_type
  mv_productVariantId :: ID
  mv_locationId :: "ID option"
  mv_quantity :: int
  mv_orderLineId :: "ID option"

record stock_shortfall =
  shortfall_variantId :: ID
  shortfall_orderLineId :: ID
  requested :: int
  allocated :: int

datatype stock_event =
    StockMovementEvent "stock_movement list"
  | StockShortfallEvent ID "stock_shortfall list"

text \<open>
  Order lines are stored with the id of their order, stock locations with the ids of their
  channels.
\<close>

record stock_db =
  stock_levels :: "stock_level list"
  stock_movements :: "stock_movement list"
  stock_locations :: "(ID, ID list) js_map"
  variants :: "product_variant list"
  settings :: global_settings
  placed_lines :: "(ID \<times> order_line) list"
  next_level_id :: ID
  lock_log :: "ID list"
  stock_events :: "stock_event list"

definition variantOrThrow :: "bool \<Rightarrow> ID \<Rightarrow> stock_db \<Rightarrow> product_variant result" where
  "variantOrThrow includeSoftDeleted i db =
     (case List.find (\<lambda>v. variant_id v = i) (variants db) of
        None \<Rightarrow> Inl (EntityNotFoundError ''ProductVariant'' i)
      | Some v \<Rightarrow>
          if variant_deletedAt v \<noteq> None \<and> \<not> includeSoftDeleted
          then Inl (EntityNotFoundError ''ProductVariant'' i) else Inr v)"

section \<open>Stock levels\<close>

definition find_level :: "ID \<Rightarrow> ID \<Rightarrow> stock_db \<Rightarrow> stock_level option" where
  "find_level variantId locationId db =
     List.find (\<lambda>l. level_variantId l = variantId \<and> level_locationId l = locationId) (stock_levels db)"

definition create_level :: "ID \<Rightarrow> ID \<Rightarrow> int \<Rightarrow> stock_db \<Rightarrow> stock_level \<times> stock_db" where
  "create_level variantId locationId onHand db =
     (let l = \<lparr>stock_level_id = next_level_id db, level_variantId = variantId,
               level_locationId = locationId, stockOnHand = onHand, stockAllocated = 0\<rparr>
      in (l, db\<lparr>stock_levels := stock_levels db @ [l], next_level_id := Suc (next_level_id db)\<rparr>))"

definition getStockLevel :: "ID \<Rightarrow> ID \<Rightarrow> stock_db \<Rightarrow> stock_level \<times> stock_db" where
  "getStockLevel variantId locationId db =
     (case find_level variantId locationId db of
        Some l \<Rightarrow> (l, db)
      | None \<Rightarrow> create_level variantId locationId 0 db)"

definition update_rows :: "(stock_level \<Rightarrow> bool) \<Rightarrow> (stock_level \<Rightarrow> stock_level) \<Rightarrow> stock_db \<Rightarrow> stock_db" where
  "update_rows P f db = db\<lparr>stock_levels := map (\<lambda>l. if P l then f l else l) (stock_levels db)\<rparr>"

datatype level_property = StockOnHand | StockAllocated

definition incrementStockLevel :: "ID \<Rightarrow> level_property \<Rightarrow> int \<Rightarrow> stock_db \<Rightarrow> stock_db" where
  "incrementStockLevel i property change =
     update_rows (\<lambda>l. stock_level_id l = i)
       (\<lambda>l. case property of
              StockOnHand \<Rightarrow> l\<lparr>stockOnHand := stockOnHand l + change\<rparr>
            | StockAllocated \<Rightarrow> l\<lparr>stockAllocated := stockAllocated l + change\<rparr>)"

definition clampStockAllocatedAtZero :: "ID \<Rightarrow> stock_db \<Rightarrow> stock_db" where
  "clampStockAllocatedAtZero i =
     update_rows (\<lambda>l. stock_level_id l = i \<and> stockAllocated l < 0) (\<lambda>l. l\<lparr>stockAllocated := 0\<rparr>)"

definition updateStockOnHandForLocation :: "ID \<Rightarrow> ID \<Rightarrow> int \<Rightarrow> stock_db \<Rightarrow> stock_db" where
  "updateStockOnHandForLocation variantId locationId change db =
     (case find_level variantId locationId db of
        Some l \<Rightarrow> incrementStockLevel (stock_level_id l) StockOnHand change db
      | None \<Rightarrow> snd (create_level variantId locationId change db))"

definition updateStockAllocatedForLocation :: "ID \<Rightarrow> ID \<Rightarrow> int \<Rightarrow> stock_db \<Rightarrow> stock_db" where
  "updateStockAllocatedForLocation variantId locationId change db =
     (case find_level variantId locationId db of
        None \<Rightarrow> db
      | Some l \<Rightarrow>
          (let db' = incrementStockLevel (stock_level_id l) StockAllocated change db
           in if change < 0 then clampStockAllocatedAtZero (stock_level_id l) db' else db'))"

definition levels_of :: "ID \<Rightarrow> stock_db \<Rightarrow> stock_level list" where
  "levels_of variantId db = filter (\<lambda>l. level_variantId l = variantId) (stock_levels db)"

definition getLockedStockLevelsForVariant :: "ID \<Rightarrow> stock_db \<Rightarrow> stock_level list \<times> stock_db" where
  "getLockedStockLevelsForVariant variantId db =
     (sort_key stock_level_id (levels_of variantId db), db\<lparr>lock_log := lock_log db @ [variantId]\<rparr>)"

definition group_step :: "stock_level \<Rightarrow> (ID, stock_level list) js_map \<Rightarrow> (ID, stock_level list) js_map" where
  "group_step l m =
     (case map_get m (level_variantId l) of
        Some existing \<Rightarrow> map_set (level_variantId l) (existing @ [l]) m
      | None \<Rightarrow> map_set (level_variantId l) [l] m)"

definition groupByVariantId :: "ID list \<Rightarrow> stock_level list \<Rightarrow> stock_level list list" where
  "groupByVariantId ids levels =
     (let byVariantId = fold group_step levels []
      in map (\<lambda>i. case map_get byVariantId i of None \<Rightarrow> [] | Some ls \<Rightarrow> ls) ids)"

definition batchLoadStockLevels :: "stock_db \<Rightarrow> ID list \<Rightarrow> stock_level list list" where
  "batchLoadStockLevels db ids =
     groupByVariantId ids (filter (\<lambda>l. level_variantId l \<in> set (unique ids)) (stock_levels db))"

section \<open>Tracking and thresholds\<close>

definition trackInventoryForVariant :: "product_variant \<Rightarrow> bool \<Rightarrow> bool" where
  "trackInventoryForVariant v globalTrackInventory \<longleftrightarrow>
     trackInventory v = Flag_TRUE \<or> (trackInventory v = Flag_INHERIT \<and> globalTrackInventory)"

definition getVariantStockSettings :: "stock_db \<Rightarrow> product_variant \<Rightarrow> bool \<times> int" where
  "getVariantStockSettings db v =
     (trackInventory v = Flag_FALSE \<or>
        (trackInventory v = Flag_INHERIT \<and> \<not> global_trackInventory (settings db)),
      if useGlobalOutOfStockThreshold v then global_outOfStockThreshold (settings db)
      else outOfStockThreshold v)"

abbreviation inventoryNotTracked :: "stock_db \<Rightarrow> product_variant \<Rightarrow> bool" where
  "inventoryNotTracked db v \<equiv> fst (getVariantStockSettings db v)"

abbreviation effectiveThreshold :: "stock_db \<Rightarrow> product_variant \<Rightarrow> int" where
  "effectiveThreshold db v \<equiv> snd (getVariantStockSettings db v)"

definition MAX_SAFE_INTEGER :: int where
  "MAX_SAFE_INTEGER = 9007199254740991"

lemma tracked_iff: "trackInventoryForVariant v (global_trackInventory (settings db)) \<longleftrightarrow> \<not> inventoryNotTracked db v"
  by (cases "trackInventory v") (auto simp: trackInventoryForVariant_def getVariantStockSettings_def)

text \<open>Locks: duplicates dropped, untracked variants skipped, ascending in the lock order.\<close>

definition filterToTrackedIds :: "stock_db \<Rightarrow> ID list \<Rightarrow> ID list" where
  "filterToTrackedIds db ids =
     map variant_id
       (filter (\<lambda>v. trackInventoryForVariant v (global_trackInventory (settings db)))
         (filter (\<lambda>v. variant_id v \<in> set ids) (variants db)))"

definition lockStockLevelsForVariants :: "bool \<Rightarrow> ID list \<Rightarrow> stock_db \<Rightarrow> stock_db" where
  "lockStockLevelsForVariants includeUntrackedVariants productVariantIds db =
     (let ids = unique productVariantIds
      in if ids = [] then db
         else let idsToLock = (if includeUntrackedVariants then ids else filterToTrackedIds db ids)
              in fold (\<lambda>i d. snd (getLockedStockLevelsForVariant i d))
                   (array_sort (\<lambda>a b. compareIdsForLockOrder (print_nat a) (print_nat b)) idsToLock) db)"

section \<open>Stock location strategies\<close>

text \<open>A chosen location may be \<^verbatim>\<open>undefined\<close>: an array read out of range, a failed find.\<close>

type_synonym loc_qty = "ID option \<times> int"

record stock_location_strategy =
  strategy_getAvailableStock :: "request_context \<Rightarrow> stock_db \<Rightarrow> stock_level list \<Rightarrow> (int \<times> int) result"
  strategy_forAllocation :: "request_context \<Rightarrow> ID list \<Rightarrow> order_line \<Rightarrow> int \<Rightarrow> stock_db \<Rightarrow> (loc_qty list \<times> stock_db) result"
  strategy_forRelease :: "ID list \<Rightarrow> order_line \<Rightarrow> int \<Rightarrow> stock_db \<Rightarrow> loc_qty list"
  strategy_forSale :: "ID list \<Rightarrow> order_line \<Rightarrow> int \<Rightarrow> stock_db \<Rightarrow> loc_qty list"
  strategy_forCancellation :: "ID list \<Rightarrow> order_line \<Rightarrow> int \<Rightarrow> stock_db \<Rightarrow> loc_qty list"

fun spread_allocations :: "int \<Rightarrow> (ID option, int) js_map \<Rightarrow> stock_movement list \<Rightarrow> (ID option, int) js_map" where
  "spread_allocations unallocated quantityByLocationId [] = quantityByLocationId"
| "spread_allocations unallocated quantityByLocationId (a # as) =
     (if unallocated \<le> 0 then quantityByLocationId
      else let qtyToAdd = min (mv_quantity a) unallocated
           in spread_allocations (unallocated - qtyToAdd)
                (case map_get quantityByLocationId (mv_locationId a) of
                   Some qtyAtLocation \<Rightarrow> map_set (mv_locationId a) (qtyAtLocation + qtyToAdd) quantityByLocationId
                 | None \<Rightarrow> map_set (mv_locationId a) qtyToAdd quantityByLocationId) as)"

definition allocations_of :: "ID \<Rightarrow> stock_db \<Rightarrow> stock_movement list" where
  "allocations_of lineId db =
     filter (\<lambda>m. mv_type m = ALLOCATION \<and> mv_orderLineId m = Some lineId) (stock_movements db)"

definition getLocationsBasedOnAllocations :: "ID list \<Rightarrow> order_line \<Rightarrow> int \<Rightarrow> stock_db \<Rightarrow> loc_qty list" where
  "getLocationsBasedOnAllocations stockLocations line q db =
     map (\<lambda>(locationId, qty). (List.find (\<lambda>l. idsAreEqual (Some l) locationId) stockLocations, qty))
       (spread_allocations q [] (allocations_of (line_id line) db))"

definition first_location :: "ID list \<Rightarrow> ID option" where
  "first_location stockLocations = (case stockLocations of [] \<Rightarrow> None | l # _ \<Rightarrow> Some l)"

definition default_getAvailableStock :: "stock_level list \<Rightarrow> int \<times> int" where
  "default_getAvailableStock levels =
     foldl (\<lambda>(onHand, alloc) l. (onHand + stockOnHand l, alloc + stockAllocated l)) (0, 0) levels"

definition default_forAllocation ::
  "request_context \<Rightarrow> ID list \<Rightarrow> order_line \<Rightarrow> int \<Rightarrow> stock_db \<Rightarrow> (loc_qty list \<times> stock_db) result" where
  "default_forAllocation ctx stockLocations line q db =
     bind_result (variantOrThrow False (productVariantId line) db) (\<lambda>v.
       if inventoryNotTracked db v then Inr ([(first_location stockLocations, q)], db)
       else
         (let (levels, db') = getLockedStockLevelsForVariant (productVariantId line) db;
              (onHand, alloc) = default_getAvailableStock levels;
              quantityAvailable = onHand - alloc - effectiveThreshold db v;
              quantityToAllocate = min q quantityAvailable
          in if quantityToAllocate \<le> 0 then Inr ([], db')
             else Inr ([(first_location stockLocations, quantityToAllocate)], db')))"

definition DefaultStockLocationStrategy :: stock_location_strategy where
  "DefaultStockLocationStrategy =
     \<lparr>strategy_getAvailableStock = (\<lambda>ctx db levels. Inr (default_getAvailableStock levels)),
      strategy_forAllocation = default_forAllocation,
      strategy_forRelease = getLocationsBasedOnAllocations,
      strategy_forSale = getLocationsBasedOnAllocations,
      strategy_forCancellation = getLocationsBasedOnAllocations\<rparr>"

text \<open>The multi-channel strategy counts only the locations of the active channel.\<close>

definition getChannelIdsForStockLocation :: "stock_db \<Rightarrow> ID \<Rightarrow> ID list result" where
  "getChannelIdsForStockLocation db locationId =
     (case map_get (stock_locations db) locationId of
        None \<Rightarrow> Inl (EntityNotFoundError ''StockLocation'' locationId)
      | Some channelIds \<Rightarrow> Inr channelIds)"

definition stockLevelAppliesToActiveChannel :: "request_context \<Rightarrow> stock_db \<Rightarrow> stock_level \<Rightarrow> bool result" where
  "stockLevelAppliesToActiveChannel ctx db l =
     bind_result (getChannelIdsForStockLocation db (level_locationId l))
       (\<lambda>channelIds. Inr (ctx_channelId ctx \<in> set channelIds))"

definition multi_getAvailableStock :: "request_context \<Rightarrow> stock_db \<Rightarrow> stock_level list \<Rightarrow> (int \<times> int) result" where
  "multi_getAvailableStock ctx db levels =
     fold_result (\<lambda>l (onHand, alloc).
         bind_result (stockLevelAppliesToActiveChannel ctx db l) (\<lambda>applies.
           Inr (if applies then (onHand + stockOnHand l, alloc + stockAllocated l) else (onHand, alloc))))
       levels (0, 0)"

definition multi_quantity_at ::
  "request_context \<Rightarrow> stock_db \<Rightarrow> bool \<Rightarrow> int \<Rightarrow> int \<Rightarrow> stock_level list \<Rightarrow> ID \<Rightarrow> int option result" where
  "multi_quantity_at ctx db notTracked threshold q levels loc =
     (case List.find (\<lambda>sl. level_locationId sl = loc) levels of
        None \<Rightarrow> Inr None
      | Some sl \<Rightarrow>
          bind_result (stockLevelAppliesToActiveChannel ctx db sl) (\<lambda>applies.
            let quantityAvailable = (if notTracked then MAX_SAFE_INTEGER
                                     else stockOnHand sl - stockAllocated sl - threshold)
            in Inr (if applies \<and> 0 < quantityAvailable then Some (min q quantityAvailable) else None)))"

fun multi_allocate ::
  "request_context \<Rightarrow> stock_db \<Rightarrow> bool \<Rightarrow> int \<Rightarrow> int \<Rightarrow> stock_level list \<Rightarrow> int \<Rightarrow> ID list \<Rightarrow> loc_qty list result" where
  "multi_allocate ctx db notTracked threshold q levels totalAllocated [] = Inr []"
| "multi_allocate ctx db notTracked threshold q levels totalAllocated (loc # locs) =
     bind_result (multi_quantity_at ctx db notTracked threshold q levels loc) (\<lambda>entry.
       let total' = totalAllocated + (case entry of None \<Rightarrow> 0 | Some n \<Rightarrow> n);
           here = (case entry of None \<Rightarrow> [] | Some n \<Rightarrow> [(Some loc, n)])
       in if q \<le> total' then Inr here
          else bind_result (multi_allocate ctx db notTracked threshold q levels total' locs)
                 (\<lambda>rest. Inr (here @ rest)))"

definition multi_forAllocation ::
  "request_context \<Rightarrow> ID list \<Rightarrow> order_line \<Rightarrow> int \<Rightarrow> stock_db \<Rightarrow> (loc_qty list \<times> stock_db) result" where
  "multi_forAllocation ctx stockLocations line q db =
     bind_result (variantOrThrow False (productVariantId line) db) (\<lambda>v.
       let (levels, db') =
             (if inventoryNotTracked db v then (levels_of (productVariantId line) db, db)
              else getLockedStockLevelsForVariant (productVariantId line) db)
       in bind_result (multi_allocate ctx db' (inventoryNotTracked db v) (effectiveThreshold db v) q
                         levels 0 stockLocations)
            (\<lambda>locations. Inr (locations, db')))"

definition MultiChannelStockLocationStrategy :: stock_location_strategy where
  "MultiChannelStockLocationStrategy =
     \<lparr>strategy_getAvailableStock = multi_getAvailableStock,
      strategy_forAllocation = multi_forAllocation,
      strategy_forRelease = getLocationsBasedOnAllocations,
      strategy_forSale = getLocationsBasedOnAllocations,
      strategy_forCancellation = getLocationsBasedOnAllocations\<rparr>"

section \<open>Saleable, fulfillable and displayed stock\<close>

definition getAvailableStock ::
  "stock_location_strategy \<Rightarrow> request_context \<Rightarrow> ID \<Rightarrow> bool \<Rightarrow> stock_db \<Rightarrow> ((int \<times> int) \<times> stock_db) result" where
  "getAvailableStock strategy ctx variantId lockStockLevels db =
     (let (levels, db') =
            (if lockStockLevels then getLockedStockLevelsForVariant variantId db
             else (hd (batchLoadStockLevels db [variantId]), db))
      in bind_result (strategy_getAvailableStock strategy ctx db' levels) (\<lambda>r. Inr (r, db')))"

definition getSaleableStockLevel ::
  "stock_location_strategy \<Rightarrow> request_context \<Rightarrow> product_variant \<Rightarrow> bool \<Rightarrow> stock_db \<Rightarrow> (int \<times> stock_db) result" where
  "getSaleableStockLevel strategy ctx v lockStockLevels db =
     (if inventoryNotTracked db v then Inr (MAX_SAFE_INTEGER, db)
      else bind_result (getAvailableStock strategy ctx (variant_id v) lockStockLevels db)
             (\<lambda>((onHand, alloc), db'). Inr (onHand - alloc - effectiveThreshold db v, db')))"

definition getFulfillableStockLevel ::
  "stock_location_strategy \<Rightarrow> request_context \<Rightarrow> product_variant \<Rightarrow> stock_db \<Rightarrow> int result" where
  "getFulfillableStockLevel strategy ctx v db =
     (if inventoryNotTracked db v then Inr MAX_SAFE_INTEGER
      else bind_result (getAvailableStock strategy ctx (variant_id v) False db)
             (\<lambda>((onHand, alloc), db'). Inr onHand))"

definition getOutOfStockThreshold :: "stock_db \<Rightarrow> product_variant \<Rightarrow> int" where
  "getOutOfStockThreshold db v = (if inventoryNotTracked db v then 0 else effectiveThreshold db v)"

definition default_display_getStockLevel :: "int \<Rightarrow> int \<Rightarrow> string" where
  "default_display_getStockLevel lowStockLevel saleable =
     (if saleable < 1 then ''OUT_OF_STOCK''
      else if saleable \<le> lowStockLevel then ''LOW_STOCK'' else ''IN_STOCK'')"

definition getDisplayStockLevel ::
  "stock_location_strategy \<Rightarrow> request_context \<Rightarrow> int \<Rightarrow> product_variant \<Rightarrow> stock_db \<Rightarrow> string result" where
  "getDisplayStockLevel strategy ctx lowStockLevel v db =
     bind_result (getSaleableStockLevel strategy ctx v False db)
       (\<lambda>(saleable, db'). Inr (default_display_getStockLevel lowStockLevel saleable))"

section \<open>Well-formed tables\<close>

text \<open>
  The primary keys and the unique index on variant and location hold, ids still to be given out are
  fresh, and nothing has been released that was not allocated.
\<close>

definition level_key :: "stock_level \<Rightarrow> ID \<times> ID" where
  "level_key l = (level_variantId l, level_locationId l)"

definition wf_levels :: "ID \<Rightarrow> stock_level list \<Rightarrow> bool" where
  "wf_levels fresh ls \<longleftrightarrow>
     distinct (map stock_level_id ls) \<and> distinct (map level_key ls) \<and>
     (\<forall>l \<in> set ls. stock_level_id l < fresh \<and> 0 \<le> stockAllocated l)"

definition wf_stock :: "stock_db \<Rightarrow> bool" where
  "wf_stock db \<longleftrightarrow>
     wf_levels (next_level_id db) (stock_levels db) \<and>
     distinct (map variant_id (variants db)) \<and> map_wf (stock_locations db)"

text \<open>What the client of a row update may rely on.\<close>

lemma find_level_key: "find_level v loc db = List.find (\<lambda>l. level_key l = (v, loc)) (stock_levels db)"
  by (simp add: find_level_def level_key_def)

lemma find_level_Some: "find_level v loc db = Some l \<Longrightarrow> l \<in> set (stock_levels db) \<and> level_key l = (v, loc)"
  by (auto simp: find_level_key dest: find_Some_in)

lemma find_level_frame [frame_simps]:
  "stock_levels db = stock_levels db' \<Longrightarrow> find_level v loc db = find_level v loc db'"
  by (simp add: find_level_def)

text \<open>
  The abstract contents of the table: the figures of a variant at a location. Updates of rows by id
  refine pointwise updates of this map.
\<close>

definition stock_at :: "stock_db \<Rightarrow> ID \<times> ID \<Rightarrow> (int \<times> int) option" where
  "stock_at db k = map_option (\<lambda>l. (stockOnHand l, stockAllocated l)) (find_level (fst k) (snd k) db)"

lemma find_map_update:
  assumes "distinct (map stock_level_id ls)" and "l \<in> set ls" and "distinct (map level_key ls)"
    and "\<And>l. level_key (f l) = level_key l"
  shows "List.find (\<lambda>x. level_key x = k) (map (\<lambda>x. if stock_level_id x = stock_level_id l then f x else x) ls)
         = (if k = level_key l then Some (f l) else List.find (\<lambda>x. level_key x = k) ls)"
  using assms(1-3)
proof (induction ls)
  case Nil
  then show ?case by simp
next
  case (Cons x ls)
  show ?case
  proof (cases "x = l")
    case True
    have "map (\<lambda>x. if stock_level_id x = stock_level_id l then f x else x) ls = ls"
      using Cons.prems True by (intro map_idI) (auto simp: image_iff)
    then show ?thesis using True by (auto simp: assms(4))
  next
    case False
    then have "l \<in> set ls" "stock_level_id x \<noteq> stock_level_id l" "level_key x \<noteq> level_key l"
      using Cons.prems by (auto simp: image_iff)
    then show ?thesis using Cons by (cases "k = level_key l") auto
  qed
qed

lemma wf_levels_map:
  assumes "wf_levels n ls" and "\<And>l. level_key (f l) = level_key l" and "\<And>l. stock_level_id (f l) = stock_level_id l"
    and "\<And>l. l \<in> set ls \<Longrightarrow> 0 \<le> stockAllocated (f l)"
  shows "wf_levels n (map f ls)"
  using assms by (auto simp: wf_levels_def comp_def)

definition clamped :: "int \<Rightarrow> int \<Rightarrow> int" where
  "clamped change a = (if change < 0 \<and> a + change < 0 then 0 else a + change)"

text \<open>The two updates, as one map over the rows.\<close>

lemma onHand_update:
  assumes "wf_stock db" and "find_level v loc db = Some l"
  shows "updateStockOnHandForLocation v loc change db =
           db\<lparr>stock_levels := map (\<lambda>x. if stock_level_id x = stock_level_id l
                                  then x\<lparr>stockOnHand := stockOnHand x + change\<rparr> else x) (stock_levels db)\<rparr>"
  using assms by (simp add: updateStockOnHandForLocation_def incrementStockLevel_def update_rows_def)

lemma allocated_update:
  assumes "wf_stock db" and "find_level v loc db = Some l"
  shows "updateStockAllocatedForLocation v loc change db =
           db\<lparr>stock_levels := map (\<lambda>x. if stock_level_id x = stock_level_id l
                                  then x\<lparr>stockAllocated := clamped change (stockAllocated x)\<rparr> else x) (stock_levels db)\<rparr>"
  using assms
  by (auto simp: updateStockAllocatedForLocation_def incrementStockLevel_def update_rows_def
      clampStockAllocatedAtZero_def clamped_def Let_def)

lemma allocated_update_missing:
  "find_level v loc db = None \<Longrightarrow> updateStockAllocatedForLocation v loc change db = db"
  by (simp add: updateStockAllocatedForLocation_def)

lemma onHand_update_missing:
  "find_level v loc db = None \<Longrightarrow>
   updateStockOnHandForLocation v loc change db =
     db\<lparr>stock_levels := stock_levels db @
          [\<lparr>stock_level_id = next_level_id db, level_variantId = v, level_locationId = loc,
            stockOnHand = change, stockAllocated = 0\<rparr>],
        next_level_id := Suc (next_level_id db)\<rparr>"
  by (simp add: updateStockOnHandForLocation_def create_level_def Let_def)

lemma find_append: "List.find P (xs @ ys) = (case List.find P xs of None \<Rightarrow> List.find P ys | r \<Rightarrow> r)"
  by (induction xs) auto

lemma clamped_nonneg: "0 \<le> a \<Longrightarrow> 0 \<le> clamped change a"
  by (auto simp: clamped_def)

lemma wf_onHand: "wf_stock db \<Longrightarrow> wf_stock (updateStockOnHandForLocation v loc change db)"
proof (cases "find_level v loc db")
  case None
  assume wf: "wf_stock db"
  have "\<forall>l \<in> set (stock_levels db). level_key l \<noteq> (v, loc)"
    using None by (auto simp: find_level_key find_None_all)
  then show ?thesis
    using wf by (auto simp: None onHand_update_missing wf_stock_def wf_levels_def level_key_def less_Suc_eq image_iff)
next
  case (Some l)
  assume wf: "wf_stock db"
  show ?thesis
    using wf unfolding onHand_update [OF wf Some] wf_stock_def
    by (auto intro!: wf_levels_map simp: level_key_def) (auto simp: wf_levels_def)
qed

lemma wf_allocated: "wf_stock db \<Longrightarrow> wf_stock (updateStockAllocatedForLocation v loc change db)"
proof (cases "find_level v loc db")
  case (Some l)
  assume wf: "wf_stock db"
  show ?thesis
    using wf unfolding allocated_update [OF wf Some] wf_stock_def
    by (auto intro!: wf_levels_map simp: level_key_def clamped_nonneg) (auto simp: wf_levels_def clamped_nonneg)
qed (simp add: allocated_update_missing)

lemma stock_at_rows:
  assumes "wf_stock db" and "find_level v loc db = Some l" and "\<And>l. level_key (f l) = level_key l"
  shows "stock_at (db\<lparr>stock_levels := map (\<lambda>x. if stock_level_id x = stock_level_id l then f x else x) (stock_levels db)\<rparr>)
         = (stock_at db)((v, loc) \<mapsto> (stockOnHand (f l), stockAllocated (f l)))"
proof -
  have l: "l \<in> set (stock_levels db)" "level_key l = (v, loc)" using find_level_Some [OF assms(2)] by auto
  have "List.find (\<lambda>x. level_key x = k) (map (\<lambda>x. if stock_level_id x = stock_level_id l then f x else x) (stock_levels db))
        = (if k = (v, loc) then Some (f l) else List.find (\<lambda>x. level_key x = k) (stock_levels db))" for k
    using assms(1) find_map_update [OF _ l(1) _ assms(3)] l(2) by (auto simp: wf_stock_def wf_levels_def)
  then show ?thesis by (auto simp: fun_eq_iff stock_at_def find_level_key)
qed

lemma stock_at_onHand:
  assumes "wf_stock db"
  shows "stock_at (updateStockOnHandForLocation v loc change db) =
           (stock_at db)((v, loc) \<mapsto> (case stock_at db (v, loc) of None \<Rightarrow> (change, 0) | Some (h, a) \<Rightarrow> (h + change, a)))"
proof (cases "find_level v loc db")
  case None
  then show ?thesis
    by (auto simp: fun_eq_iff stock_at_def onHand_update_missing find_level_key find_append level_key_def
        split: option.split)
next
  case (Some l)
  show ?thesis
    unfolding onHand_update [OF assms Some]
    by (subst stock_at_rows [OF assms Some]) (simp_all add: level_key_def stock_at_def Some)
qed

lemma stock_at_allocated:
  assumes "wf_stock db"
  shows "stock_at (updateStockAllocatedForLocation v loc change db) =
           (stock_at db)((v, loc) := map_option (\<lambda>(h, a). (h, clamped change a)) (stock_at db (v, loc)))"
proof (cases "find_level v loc db")
  case None
  then show ?thesis by (auto simp: fun_eq_iff stock_at_def allocated_update_missing)
next
  case (Some l)
  show ?thesis
    unfolding allocated_update [OF assms Some]
    by (subst stock_at_rows [OF assms Some]) (simp_all add: level_key_def stock_at_def Some)
qed

text \<open>The rows of one variant, and what an update adds to a sum over them.\<close>

lemma sum_rows_update:
  assumes "distinct (map stock_level_id ls)" and "l \<in> set ls" and "P l" and "\<And>x. P (f x) = P x"
  shows "sum_list (map g (filter P (map (\<lambda>x. if stock_level_id x = stock_level_id l then f x else x) ls)))
         = sum_list (map g (filter P ls)) - (g l :: int) + g (f l)"
  using assms(1,2)
proof (induction ls)
  case (Cons x ls)
  show ?case
  proof (cases "x = l")
    case True
    then have "map (\<lambda>x. if stock_level_id x = stock_level_id l then f x else x) ls = ls"
      using Cons.prems by (intro map_idI) (auto simp: image_iff)
    then show ?thesis using True assms(3,4) by simp
  next
    case False
    then show ?thesis using Cons by (auto simp: image_iff)
  qed
qed simp

lemma filter_rows_update:
  assumes "\<not> P l" and "distinct (map stock_level_id ls)" and "l \<in> set ls" and "\<And>x. P (f x) = P x"
  shows "filter P (map (\<lambda>x. if stock_level_id x = stock_level_id l then f x else x) ls) = filter P ls"
  using assms(2,3)
proof (induction ls)
  case (Cons x ls)
  show ?case
  proof (cases "x = l")
    case True
    then have "map (\<lambda>x. if stock_level_id x = stock_level_id l then f x else x) ls = ls"
      using Cons.prems by (intro map_idI) (auto simp: image_iff)
    then show ?thesis using True assms(1,4) by simp
  next
    case False
    then show ?thesis using Cons by (auto simp: image_iff)
  qed
qed simp

lemma levels_of_allocated_other:
  assumes "wf_stock db" and "v \<noteq> w"
  shows "levels_of w (updateStockAllocatedForLocation v loc change db) = levels_of w db"
proof (cases "find_level v loc db")
  case (Some l)
  then have "l \<in> set (stock_levels db)" "level_variantId l = v"
    using find_level_Some by (auto simp: level_key_def)
  then show ?thesis
    using assms filter_rows_update [of "\<lambda>l. level_variantId l = w" l "stock_levels db"
        "\<lambda>x. x\<lparr>stockAllocated := clamped change (stockAllocated x)\<rparr>"]
    by (simp add: levels_of_def allocated_update [OF assms(1) Some] wf_stock_def wf_levels_def)
qed (simp add: allocated_update_missing)

text \<open>The units of a variant that are on hand and not allocated, over all locations.\<close>

definition free_units :: "ID \<Rightarrow> stock_db \<Rightarrow> int" where
  "free_units v db = sum_list (map (\<lambda>l. stockOnHand l - stockAllocated l) (levels_of v db))"

lemma free_units_allocated:
  assumes "wf_stock db"
  shows "free_units v (updateStockAllocatedForLocation v loc change db) =
           free_units v db -
             (case stock_at db (v, loc) of None \<Rightarrow> 0 | Some (h, a) \<Rightarrow> clamped change a - a)"
proof (cases "find_level v loc db")
  case None
  then show ?thesis by (simp add: allocated_update_missing stock_at_def)
next
  case (Some l)
  then have l: "l \<in> set (stock_levels db)" "level_variantId l = v"
    using find_level_Some by (auto simp: level_key_def)
  show ?thesis
    using assms l sum_rows_update [of "stock_levels db" l "\<lambda>l. level_variantId l = v"
        "\<lambda>x. x\<lparr>stockAllocated := clamped change (stockAllocated x)\<rparr>" "\<lambda>l. stockOnHand l - stockAllocated l"]
    by (simp add: free_units_def levels_of_def allocated_update [OF assms Some] wf_stock_def wf_levels_def
        stock_at_def Some)
qed

lemma default_available: "default_getAvailableStock ls = (sum_list (map stockOnHand ls), sum_list (map stockAllocated ls))"
proof -
  have "foldl (\<lambda>(h, a) l. (h + stockOnHand l, a + stockAllocated l)) (h, a) ls =
          (h + sum_list (map stockOnHand ls), a + sum_list (map stockAllocated ls))" for h a
    by (induction ls arbitrary: h a) auto
  then show ?thesis by (simp add: default_getAvailableStock_def)
qed

lemma sum_list_sort_key: "sum_list (map g (sort_key k xs)) = sum_list (map (g :: 'a \<Rightarrow> int) xs)"
proof (induction xs)
  case (Cons x xs)
  have "sum_list (map g (insort_key k x ys)) = g x + sum_list (map g ys)" for ys
    by (induction ys) auto
  then show ?case using Cons by simp
qed simp

lemma free_units_available:
  "default_getAvailableStock (sort_key stock_level_id (levels_of v db)) = (h, a) \<Longrightarrow> h - a = free_units v db"
  by (auto simp: default_available free_units_def sum_list_sort_key sum_list_subtractf)

section \<open>Properties of the level service\<close>

lemma map_get_group_steps:
  "map_get (fold group_step ls m) v =
     (let own = filter (\<lambda>l. level_variantId l = v) ls
      in if own = [] then map_get m v
         else Some ((case map_get m v of None \<Rightarrow> [] | Some xs \<Rightarrow> xs) @ own))"
  by (induction ls arbitrary: m)
    (auto simp: group_step_def map_get_set Let_def split: option.split)

lemma batch_levels: "batchLoadStockLevels db ids = map (\<lambda>i. levels_of i db) ids"
proof -
  have "filter (\<lambda>l. level_variantId l = i) (filter (\<lambda>l. level_variantId l \<in> set ids) (stock_levels db))
        = levels_of i db" if "i \<in> set ids" for i
    using that by (auto simp: levels_of_def intro!: filter_cong)
  then show ?thesis
    by (auto simp: batchLoadStockLevels_def groupByVariantId_def map_get_group_steps Let_def)
qed

text \<open>
  The batch function of the loader keeps a data loader's contract: one entry for each requested
  id, in the order requested and for repeated ids too, holding exactly the rows of that variant in
  the order the query returned them, and the empty list for a variant without rows.
\<close>

theorem batch_load_contract:
  "length (batchLoadStockLevels db ids) = length ids \<and>
   batchLoadStockLevels db ids = map (\<lambda>i. filter (\<lambda>l. level_variantId l = i) (stock_levels db)) ids"
  by (simp add: batch_levels levels_of_def)

lemma lock_log_fold:
  "fold (\<lambda>i d. snd (getLockedStockLevelsForVariant i d)) ids db = db\<lparr>lock_log := lock_log db @ ids\<rparr>"
  by (induction ids arbitrary: db) (simp_all add: getLockedStockLevelsForVariant_def)


text \<open>
  C33: A batch takes its locks in one global order: whatever the order and the repetitions of the
  variants it is given, the locks it adds are distinct and ascending, and each is the lock of a
  requested variant that is tracked, or of any requested variant when untracked ones are included.
  Two batches therefore never take two locks in opposite orders.
\<close>

theorem locks_ascending:
  assumes "distinct (map variant_id (variants db))"
  shows "\<exists>ids. lock_log (lockStockLevelsForVariants untracked vs db) = lock_log db @ ids \<and>
           sorted ids \<and> distinct ids \<and>
           set ids = (if untracked then set vs
                      else {variant_id v |v. v \<in> set (variants db) \<and> variant_id v \<in> set vs \<and>
                              trackInventoryForVariant v (global_trackInventory (settings db))})"
proof (cases "unique vs = []")
  case True
  then have "vs = []" by (metis set_unique set_empty)
  then show ?thesis by (auto simp: lockStockLevelsForVariants_def unique_def)
next
  case False
  let ?ids = "if untracked then unique vs else filterToTrackedIds db (unique vs)"
  have "distinct ?ids"
    using assms by (auto simp: filterToTrackedIds_def filter_filter intro: distinct_map_filter)
  then show ?thesis
    using False
    by (intro exI [of _ "sort ?ids"])
      (auto simp: lockStockLevelsForVariants_def Let_def lock_log_fold array_sort_printed filterToTrackedIds_def)
qed

end
