(* ===== verification/StockMovements.thy ===== *)
theory StockMovements
  imports Stock
begin

text \<open>
  \<^verbatim>\<open>service/services/stock-movement.service.ts\<close>: adjustments, allocations, sales,
  cancellations and releases, each a function of the tables that writes the movements, the levels
  and the events. A batch writes its movements once, at its end. The strategy that chooses the
  locations is an argument.
\<close>

section \<open>Adjustments\<close>

text \<open>An adjustment sets \<^verbatim>\<open>stockOnHand\<close>; the write is the difference to the locked value.\<close>

type_synonym adjust_state = "(ID, int) js_map \<times> stock_movement list \<times> stock_db"

definition adjust_location :: "ID \<Rightarrow> ID \<times> int \<Rightarrow> adjust_state \<Rightarrow> adjust_state" where
  "adjust_location variantId input state =
     (let (stockLocationId, newStockLevel) = input;
          (stockOnHandByLocation, adjustments, db) = state;
          (byLocation, db1) =
            (case map_get stockOnHandByLocation stockLocationId of
               Some n \<Rightarrow> (stockOnHandByLocation, db)
             | None \<Rightarrow>
                 let (created, db') = getStockLevel variantId stockLocationId db
                 in (map_set stockLocationId (stockOnHand created) stockOnHandByLocation, db'));
          oldStockLevel = the (map_get byLocation stockLocationId)
      in if oldStockLevel = newStockLevel then (byLocation, adjustments, db1)
         else
           let delta = newStockLevel - oldStockLevel;
               adjustment = \<lparr>mv_type = ADJUSTMENT, mv_productVariantId = variantId,
                             mv_locationId = Some stockLocationId, mv_quantity = delta, mv_orderLineId = None\<rparr>;
               db2 = updateStockOnHandForLocation variantId stockLocationId delta
                       (db1\<lparr>stock_movements := stock_movements db1 @ [adjustment]\<rparr>)
           in (map_set stockLocationId newStockLevel byLocation, adjustments @ [adjustment],
               db2\<lparr>stock_events := stock_events db2 @ [StockMovementEvent [adjustment]]\<rparr>))"

definition levels_by_location :: "stock_level list \<Rightarrow> (ID, int) js_map" where
  "levels_by_location levels = fold (\<lambda>l. map_set (level_locationId l) (stockOnHand l)) levels []"

definition adjustProductVariantStock ::
  "ID \<Rightarrow> int + (ID \<times> int) list \<Rightarrow> ID \<Rightarrow> stock_db \<Rightarrow> stock_movement list \<times> stock_db" where
  "adjustProductVariantStock variantId stockOnHandNumberOrInput defaultStockLocation db =
     (let stockOnHandInputs = (case stockOnHandNumberOrInput of
                                 Inl n \<Rightarrow> [(defaultStockLocation, n)] | Inr inputs \<Rightarrow> inputs);
          (lockedStockLevels, db1) = getLockedStockLevelsForVariant variantId db;
          (byLocation, adjustments, db2) =
            fold (adjust_location variantId) stockOnHandInputs (levels_by_location lockedStockLevels, [], db1)
      in (adjustments, db2))"

section \<open>Movements of order lines\<close>

text \<open>
  One line's movements: for each chosen location a movement is collected and, when the variant is
  tracked, its level changed. A location that is \<^verbatim>\<open>undefined\<close> fails on the read of its id.
\<close>

fun move_line ::
  "movement_type \<Rightarrow> (int \<Rightarrow> int) \<Rightarrow> bool \<Rightarrow> (ID \<Rightarrow> ID \<Rightarrow> int \<Rightarrow> stock_db \<Rightarrow> stock_db) \<Rightarrow> order_line \<Rightarrow>
     loc_qty list \<Rightarrow> stock_movement list \<times> stock_db \<Rightarrow> (stock_movement list \<times> stock_db) result" where
  "move_line kind recorded track update line [] s = Inr s"
| "move_line kind recorded track update line ((loc, n) # locs) (ms, db) =
     (let ms' = ms @ [\<lparr>mv_type = kind, mv_productVariantId = productVariantId line, mv_locationId = loc,
                        mv_quantity = recorded n, mv_orderLineId = Some (line_id line)\<rparr>]
      in if track then
           (case loc of
              None \<Rightarrow> Inl (JsError ''Cannot read properties of undefined (reading id)'')
            | Some l \<Rightarrow> move_line kind recorded track update line locs
                          (ms', update (productVariantId line) l n db))
         else move_line kind recorded track update line locs (ms', db))"

definition save_movements :: "stock_movement list \<times> stock_db \<Rightarrow> stock_db" where
  "save_movements s =
     (let (ms, db) = s
      in if ms = [] then db
         else db\<lparr>stock_movements := stock_movements db @ ms,
                 stock_events := stock_events db @ [StockMovementEvent ms]\<rparr>)"

definition getAllStockLocations :: "stock_db \<Rightarrow> ID list" where
  "getAllStockLocations db = map fst (stock_locations db)"

subsection \<open>Allocations\<close>

type_synonym shortfall_map = "(ID, stock_shortfall list) js_map"

definition line_shortfall :: "bool \<Rightarrow> ID \<times> order_line \<Rightarrow> int \<Rightarrow> int \<Rightarrow> shortfall_map \<Rightarrow> shortfall_map" where
  "line_shortfall track ol q allocatedForLine shortfallsByOrder =
     (if track \<and> allocatedForLine < q then
        (let shortfall = \<lparr>shortfall_variantId = productVariantId (snd ol),
                          shortfall_orderLineId = line_id (snd ol),
                          requested = q, allocated = allocatedForLine\<rparr>
         in case map_get shortfallsByOrder (fst ol) of
              Some entries \<Rightarrow> map_set (fst ol) (entries @ [shortfall]) shortfallsByOrder
            | None \<Rightarrow> map_set (fst ol) [shortfall] shortfallsByOrder)
      else shortfallsByOrder)"

definition allocate_line ::
  "stock_location_strategy \<Rightarrow> request_context \<Rightarrow> bool \<Rightarrow> (ID \<times> order_line) \<times> int \<Rightarrow>
     shortfall_map \<times> stock_movement list \<times> stock_db \<Rightarrow>
     (shortfall_map \<times> stock_movement list \<times> stock_db) result" where
  "allocate_line strategy ctx globalTrackInventory input state =
     (let (ol, q) = input; line = snd ol; (short, ms, db) = state
      in bind_result (variantOrThrow True (productVariantId line) db) (\<lambda>v.
           bind_result (strategy_forAllocation strategy ctx (getAllStockLocations db) line q db)
             (\<lambda>(locations, db1).
               let track = trackInventoryForVariant v globalTrackInventory;
                   short' = line_shortfall track ol q (summate locations snd) short
               in bind_result
                    (move_line ALLOCATION (\<lambda>n. n) track updateStockAllocatedForLocation line locations (ms, db1))
                    (\<lambda>s. Inr (short', s)))))"

definition lineOrThrow :: "ID \<Rightarrow> stock_db \<Rightarrow> (ID \<times> order_line) result" where
  "lineOrThrow i db =
     (case List.find (\<lambda>ol. line_id (snd ol) = i) (placed_lines db) of
        None \<Rightarrow> Inl (EntityNotFoundError ''OrderLine'' i)
      | Some ol \<Rightarrow> Inr ol)"

fun lines_to_allocate :: "stock_db \<Rightarrow> order_line_input list \<Rightarrow> ((ID \<times> order_line) \<times> int) list result" where
  "lines_to_allocate db [] = Inr []"
| "lines_to_allocate db (i # is) =
     bind_result (lineOrThrow (orderLineId i) db) (\<lambda>ol.
       bind_result (lines_to_allocate db is) (\<lambda>ols. Inr ((ol, input_quantity i) # ols)))"

definition publish_shortfalls :: "shortfall_map \<Rightarrow> stock_db \<Rightarrow> stock_db" where
  "publish_shortfalls short db =
     db\<lparr>stock_events := stock_events db @ map (\<lambda>(orderId, s). StockShortfallEvent orderId s) short\<rparr>"

definition createAllocationsForOrderLines ::
  "stock_location_strategy \<Rightarrow> request_context \<Rightarrow> order_line_input list \<Rightarrow> stock_db \<Rightarrow>
     (stock_movement list \<times> stock_db) result" where
  "createAllocationsForOrderLines strategy ctx ls db =
     bind_result (lines_to_allocate db ls) (\<lambda>orderLinesToAllocate.
       let db1 = lockStockLevelsForVariants False (map (\<lambda>(ol, q). productVariantId (snd ol)) orderLinesToAllocate) db
       in bind_result
            (fold_result (allocate_line strategy ctx (global_trackInventory (settings db)))
               orderLinesToAllocate ([], [], db1))
            (\<lambda>(short, allocations, db2).
              Inr (allocations, publish_shortfalls short (save_movements (allocations, db2)))))"

definition createAllocationsForOrder ::
  "stock_location_strategy \<Rightarrow> request_context \<Rightarrow> order \<Rightarrow> stock_db \<Rightarrow> (stock_movement list \<times> stock_db) result" where
  "createAllocationsForOrder strategy ctx ord db =
     createAllocationsForOrderLines strategy ctx
       (map (\<lambda>l. \<lparr>orderLineId = line_id l, input_quantity = quantity l\<rparr>) (order_lines ord)) db"

subsection \<open>Sales, cancellations and releases\<close>

definition find_lines :: "ID list \<Rightarrow> stock_db \<Rightarrow> order_line list" where
  "find_lines ids db = filter (\<lambda>l. line_id l \<in> set ids) (map snd (placed_lines db))"

definition sell :: "ID \<Rightarrow> ID \<Rightarrow> int \<Rightarrow> stock_db \<Rightarrow> stock_db" where
  "sell variantId locationId n db =
     updateStockOnHandForLocation variantId locationId (- n)
       (updateStockAllocatedForLocation variantId locationId (- n) db)"

definition sell_line ::
  "stock_location_strategy \<Rightarrow> bool \<Rightarrow> order_line list \<Rightarrow> order_line_input \<Rightarrow> stock_movement list \<times> stock_db \<Rightarrow>
     (stock_movement list \<times> stock_db) result" where
  "sell_line strategy globalTrackInventory orderLines lineRow state =
     (let (ms, db) = state
      in case List.find (\<lambda>l. idsAreEqual (Some (line_id l)) (Some (orderLineId lineRow))) orderLines of
           None \<Rightarrow> Inr (ms, db)
         | Some line \<Rightarrow>
             bind_result (variantOrThrow True (productVariantId line) db) (\<lambda>v.
               move_line SALE (\<lambda>n. input_quantity lineRow * -1) (trackInventoryForVariant v globalTrackInventory)
                 sell line
                 (strategy_forSale strategy (getAllStockLocations db) line (input_quantity lineRow) db)
                 (ms, db)))"

definition createSalesForOrder ::
  "stock_location_strategy \<Rightarrow> order_line_input list \<Rightarrow> stock_db \<Rightarrow> (stock_movement list \<times> stock_db) result" where
  "createSalesForOrder strategy ls db =
     (let orderLines = find_lines (map orderLineId ls) db;
          db1 = lockStockLevelsForVariants False (map productVariantId orderLines) db
      in bind_result
           (fold_result (sell_line strategy (global_trackInventory (settings db)) orderLines) ls ([], db1))
           (\<lambda>s. Inr (fst s, save_movements s)))"

text \<open>
  Cancellations and releases differ in the kind of movement, the locations asked for and the level
  they change; the joined variant of a line is read from the table.
\<close>

definition restore_line ::
  "movement_type \<Rightarrow> (ID list \<Rightarrow> order_line \<Rightarrow> int \<Rightarrow> stock_db \<Rightarrow> loc_qty list) \<Rightarrow>
     (ID \<Rightarrow> ID \<Rightarrow> int \<Rightarrow> stock_db \<Rightarrow> stock_db) \<Rightarrow> bool \<Rightarrow> order_line_input list \<Rightarrow> order_line \<Rightarrow>
     stock_movement list \<times> stock_db \<Rightarrow> (stock_movement list \<times> stock_db) result" where
  "restore_line kind locations update globalTrackInventory lineInputs line state =
     (let (ms, db) = state
      in case List.find (\<lambda>i. idsAreEqual (Some (orderLineId i)) (Some (line_id line))) lineInputs of
           None \<Rightarrow> Inr (ms, db)
         | Some lineInput \<Rightarrow>
             bind_result (variantOrThrow True (productVariantId line) db) (\<lambda>v.
               move_line kind (\<lambda>n. input_quantity lineInput) (trackInventoryForVariant v globalTrackInventory)
                 update line (locations (getAllStockLocations db) line (input_quantity lineInput) db) (ms, db)))"

definition createCancellationsForOrderLines ::
  "stock_location_strategy \<Rightarrow> order_line_input list \<Rightarrow> stock_db \<Rightarrow> (stock_movement list \<times> stock_db) result" where
  "createCancellationsForOrderLines strategy lineInputs db =
     (let orderLines = find_lines (map orderLineId lineInputs) db;
          db1 = lockStockLevelsForVariants False (map productVariantId orderLines) db
      in bind_result
           (fold_result
              (restore_line CANCELLATION (strategy_forCancellation strategy) updateStockOnHandForLocation
                 (global_trackInventory (settings db)) lineInputs) orderLines ([], db1))
           (\<lambda>s. Inr (fst s, save_movements s)))"

definition release :: "ID \<Rightarrow> ID \<Rightarrow> int \<Rightarrow> stock_db \<Rightarrow> stock_db" where
  "release variantId locationId n = updateStockAllocatedForLocation variantId locationId (- n)"

definition createReleasesForOrderLines ::
  "stock_location_strategy \<Rightarrow> order_line_input list \<Rightarrow> stock_db \<Rightarrow> (stock_movement list \<times> stock_db) result" where
  "createReleasesForOrderLines strategy lineInputs db =
     (let orderLines = find_lines (map orderLineId lineInputs) db;
          db1 = lockStockLevelsForVariants False (map productVariantId orderLines) db
      in bind_result
           (fold_result
              (restore_line RELEASE (strategy_forRelease strategy) release
                 (global_trackInventory (settings db)) lineInputs) orderLines ([], db1))
           (\<lambda>s. Inr (fst s, save_movements s)))"

section \<open>What a batch does to the tables\<close>

text \<open>The level changes of one line, without its movements.\<close>

fun apply_locations ::
  "(ID \<Rightarrow> ID \<Rightarrow> int \<Rightarrow> stock_db \<Rightarrow> stock_db) \<Rightarrow> ID \<Rightarrow> loc_qty list \<Rightarrow> stock_db \<Rightarrow> stock_db" where
  "apply_locations update v [] db = db"
| "apply_locations update v ((None, n) # ls) db = apply_locations update v ls db"
| "apply_locations update v ((Some l, n) # ls) db = apply_locations update v ls (update v l n db)"

lemma move_line_Inr:
  "move_line kind recorded track update line ls (ms, db) = Inr (ms', db') \<Longrightarrow>
   ms' = ms @ map (\<lambda>(loc, n). \<lparr>mv_type = kind, mv_productVariantId = productVariantId line, mv_locationId = loc,
                              mv_quantity = recorded n, mv_orderLineId = Some (line_id line)\<rparr>) ls \<and>
   db' = (if track then apply_locations update (productVariantId line) ls db else db)"
proof (induction kind recorded track update line ls "(ms, db)" arbitrary: ms db
    rule: move_line.induct)
  case (2 kind recorded track update line loc n locs ms db)
  then show ?case
    by (cases track; cases loc) (auto simp: Let_def)
qed auto

lemma apply_locations_invariant:
  assumes "\<And>v l n d. P d \<Longrightarrow> P (update v l n d)" and "P db"
  shows "P (apply_locations update v ls db)"
  using assms(2)
proof (induction ls arbitrary: db)
  case (Cons a ls)
  obtain loc n where a: "a = (loc, n)" by (cases a)
  show ?case using Cons assms(1) by (cases loc) (simp_all add: a)
qed simp

lemma move_line_invariant:
  assumes "move_line kind recorded track update line ls (ms, db) = Inr (ms', db')"
    and "\<And>v l n d. P d \<Longrightarrow> P (update v l n d)" and "P db"
  shows "P db'"
  using move_line_Inr [OF assms(1)] apply_locations_invariant [of P update, OF assms(2,3)] assms(3) by auto

lemma wf_stock_frame [frame_simps]:
  "wf_stock (db\<lparr>lock_log := a\<rparr>) = wf_stock db"
  "wf_stock (db\<lparr>stock_movements := b\<rparr>) = wf_stock db"
  "wf_stock (db\<lparr>stock_events := c\<rparr>) = wf_stock db"
  by (simp_all add: wf_stock_def)

lemma wf_save_movements [simp]: "wf_stock (save_movements s) = wf_stock (snd s)"
  by (cases s) (auto simp: save_movements_def frame_simps wf_stock_def Let_def)

lemma lock_levels_frame: "\<exists>log. lockStockLevelsForVariants u vs db = db\<lparr>lock_log := log\<rparr>"
proof (cases "unique vs = []")
  case True
  then have "lockStockLevelsForVariants u vs db = db\<lparr>lock_log := lock_log db\<rparr>"
    by (simp add: lockStockLevelsForVariants_def)
  then show ?thesis by blast
next
  case False
  then show ?thesis by (auto simp: lockStockLevelsForVariants_def Let_def lock_log_fold)
qed

lemma wf_lock_levels [simp]: "wf_stock (lockStockLevelsForVariants u vs db) = wf_stock db"
  using lock_levels_frame [of u vs db] by (auto simp: frame_simps)

lemma wf_sell: "wf_stock db \<Longrightarrow> wf_stock (sell v l n db)"
  by (simp add: sell_def wf_onHand wf_allocated)

lemma wf_release: "wf_stock db \<Longrightarrow> wf_stock (release v l n db)"
  by (simp add: release_def wf_allocated)

lemma wf_restore_line:
  assumes "restore_line kind locations update g inputs line s = Inr t"
    and "\<And>v l n d. wf_stock d \<Longrightarrow> wf_stock (update v l n d)" and "wf_stock (snd s)"
  shows "wf_stock (snd t)"
  using assms(1,3)
  by (cases s; cases t)
    (auto simp: restore_line_def bind_result_Inr split: option.splits
      elim!: move_line_invariant [where P = wf_stock] intro: assms(2))

lemma wf_restore_lines:
  assumes "fold_result (restore_line kind locations update g inputs) ols s = Inr t"
    and "\<And>v l n d. wf_stock d \<Longrightarrow> wf_stock (update v l n d)" and "wf_stock (snd s)"
  shows "wf_stock (snd t)"
  by (rule fold_result_invariant [OF assms(1), where P = "\<lambda>s. wf_stock (snd s)"])
    (use assms wf_restore_line in blast)+

lemma wf_sell_line: "sell_line strategy g ols row s = Inr t \<Longrightarrow> wf_stock (snd s) \<Longrightarrow> wf_stock (snd t)"
  by (cases s; cases t)
    (auto simp: sell_line_def bind_result_Inr split: option.splits
      elim!: move_line_invariant [where P = wf_stock] intro: wf_sell)

lemma wf_adjust_location: "wf_stock (snd (snd s)) \<Longrightarrow> wf_stock (snd (snd (adjust_location v i s)))"
proof -
  assume wf: "wf_stock (snd (snd s))"
  obtain m as db where s: "s = (m, as, db)" by (cases s)
  obtain loc n where i: "i = (loc, n)" by (cases i)
  have created: "wf_stock (snd (getStockLevel v loc db))" if "find_level v loc db = None"
    using wf_onHand [of db v loc 0] wf that s
    by (simp add: getStockLevel_def updateStockOnHandForLocation_def)
  have get: "wf_stock (snd (getStockLevel v loc db))"
    using created wf s by (cases "find_level v loc db") (auto simp: getStockLevel_def)
  show ?thesis
    using wf get unfolding s i
    by (auto simp: adjust_location_def Let_def split_beta frame_simps split: option.split intro!: wf_onHand)
qed

section \<open>Strategies as interfaces\<close>

text \<open>A strategy reads the tables and takes locks; it writes nothing else.\<close>

locale reading_strategy =
  fixes strategy :: stock_location_strategy and ctx :: request_context
  assumes only_locks:
    "strategy_forAllocation strategy ctx locs line q db = Inr (ls, db') \<Longrightarrow> \<exists>log. db' = db\<lparr>lock_log := log\<rparr>"
begin

lemma allocate_line_step:
  assumes "allocate_line strategy ctx g input (short, ms, db) = Inr (short', ms', db')"
  obtains v ls log where "variantOrThrow True (productVariantId (snd (fst input))) db = Inr v"
    and "strategy_forAllocation strategy ctx (getAllStockLocations db) (snd (fst input)) (snd input) db
           = Inr (ls, db\<lparr>lock_log := log\<rparr>)"
    and "move_line ALLOCATION (\<lambda>n. n) (trackInventoryForVariant v g) updateStockAllocatedForLocation
           (snd (fst input)) ls (ms, db\<lparr>lock_log := log\<rparr>) = Inr (ms', db')"
    and "short' = line_shortfall (trackInventoryForVariant v g) (fst input) (snd input) (summate ls snd) short"
  using assms only_locks
  by (fastforce simp: allocate_line_def Let_def split_beta bind_result_Inr)

lemma wf_allocate_line:
  "allocate_line strategy ctx g input s = Inr t \<Longrightarrow> wf_stock (snd (snd s)) \<Longrightarrow> wf_stock (snd (snd t))"
  by (cases s; cases t)
    (auto simp: frame_simps elim!: allocate_line_step move_line_invariant [where P = wf_stock] intro: wf_allocated)

lemma wf_allocations:
  assumes "createAllocationsForOrderLines strategy ctx ls db = Inr (ms, db')" and "wf_stock db"
  shows "wf_stock db'"
proof -
  obtain ols short as db2 where
    run: "fold_result (allocate_line strategy ctx (global_trackInventory (settings db))) ols
       ([], [], lockStockLevelsForVariants False (map (\<lambda>(ol, q). productVariantId (snd ol)) ols) db) = Inr (short, as, db2)"
    and db': "db' = publish_shortfalls short (save_movements (as, db2))"
    using assms(1) by (auto simp: createAllocationsForOrderLines_def bind_result_Inr Let_def)
  have "wf_stock (snd (snd (short, as, db2)))"
    by (rule fold_result_invariant [OF run, where P = "\<lambda>s. wf_stock (snd (snd s))"])
      (use assms(2) wf_allocate_line in auto)
  then show ?thesis by (simp add: db' publish_shortfalls_def frame_simps)
qed

end

lemma default_forAllocation_cases:
  "default_forAllocation ctx locs line q db = Inr (ls, db') \<longleftrightarrow>
     (\<exists>v. variantOrThrow False (productVariantId line) db = Inr v \<and>
        (if inventoryNotTracked db v then ls = [(first_location locs, q)] \<and> db' = db
         else db' = db\<lparr>lock_log := lock_log db @ [productVariantId line]\<rparr> \<and>
           (let n = min q (free_units (productVariantId line) db - effectiveThreshold db v)
            in ls = (if n \<le> 0 then [] else [(first_location locs, n)]))))"
proof -
  obtain h a where available:
    "default_getAvailableStock (sort_key stock_level_id (levels_of (productVariantId line) db)) = (h, a)"
    by fastforce
  have free: "h - a = free_units (productVariantId line) db" by (rule free_units_available [OF available])
  show ?thesis
    by (cases "variantOrThrow False (productVariantId line) db")
      (auto simp: default_forAllocation_def Let_def getLockedStockLevelsForVariant_def available free)
qed

lemma default_only_locks:
  "default_forAllocation ctx locs line q db = Inr (ls, db') \<Longrightarrow> \<exists>log. db' = db\<lparr>lock_log := log\<rparr>"
  unfolding default_forAllocation_cases
  by (auto simp: Let_def split: if_splits intro: exI [of _ "lock_log db"])

lemma multi_only_locks:
  "multi_forAllocation ctx locs line q db = Inr (ls, db') \<Longrightarrow> \<exists>log. db' = db\<lparr>lock_log := log\<rparr>"
  by (auto simp: multi_forAllocation_def bind_result_Inr Let_def getLockedStockLevelsForVariant_def
      split: if_splits intro: exI [of _ "lock_log db"])

interpretation default_reads: reading_strategy DefaultStockLocationStrategy ctx for ctx
  by unfold_locales (simp add: DefaultStockLocationStrategy_def default_only_locks)

interpretation multi_reads: reading_strategy MultiChannelStockLocationStrategy ctx for ctx
  by unfold_locales (simp add: MultiChannelStockLocationStrategy_def multi_only_locks)

text \<open>
  C15: Every operation of the stock movement service keeps the tables well formed under both shipped
  strategies: ids and the pairs of variant and location stay unique and no allocated figure
  ever becomes negative, whatever quantities the inputs hold.
\<close>

theorem stock_tables_stay_well_formed:
  assumes "wf_stock db"
    and "strategy \<in> {DefaultStockLocationStrategy, MultiChannelStockLocationStrategy}"
  shows "wf_stock (snd (adjustProductVariantStock v input loc db)) \<and>
         (\<forall>r. createAllocationsForOrderLines strategy ctx ls db = Inr r \<longrightarrow> wf_stock (snd r)) \<and>
         (\<forall>r. createSalesForOrder strategy ls db = Inr r \<longrightarrow> wf_stock (snd r)) \<and>
         (\<forall>r. createCancellationsForOrderLines strategy ls db = Inr r \<longrightarrow> wf_stock (snd r)) \<and>
         (\<forall>r. createReleasesForOrderLines strategy ls db = Inr r \<longrightarrow> wf_stock (snd r))"
proof (intro conjI allI impI)
  have "wf_stock (snd (snd (fold (adjust_location v) is s)))" if "wf_stock (snd (snd s))" for "is" s
    using that by (induction "is" arbitrary: s) (auto simp: wf_adjust_location)
  then show "wf_stock (snd (adjustProductVariantStock v input loc db))"
    using assms(1)
    by (auto simp: adjustProductVariantStock_def getLockedStockLevelsForVariant_def Let_def split_beta frame_simps)
next
  fix r assume "createAllocationsForOrderLines strategy ctx ls db = Inr r"
  then show "wf_stock (snd r)"
    using assms default_reads.wf_allocations multi_reads.wf_allocations by (cases r) auto
next
  fix r assume "createSalesForOrder strategy ls db = Inr r"
  then show "wf_stock (snd r)"
    using assms(1)
    by (auto simp: createSalesForOrder_def Let_def bind_result_Inr
        dest!: fold_result_invariant [where P = "\<lambda>s. wf_stock (snd s)", OF _ _ wf_sell_line])
next
  fix r assume "createCancellationsForOrderLines strategy ls db = Inr r"
  then show "wf_stock (snd r)"
    using assms(1)
    by (auto simp: createCancellationsForOrderLines_def Let_def bind_result_Inr
        dest!: wf_restore_lines [OF _ wf_onHand])
next
  fix r assume "createReleasesForOrderLines strategy ls db = Inr r"
  then show "wf_stock (snd r)"
    using assms(1)
    by (auto simp: createReleasesForOrderLines_def Let_def bind_result_Inr
        dest!: wf_restore_lines [OF _ wf_release])
qed

end
