(* ===== verification/StockSafety.thy ===== *)
theory StockSafety
  imports StockMovements
begin

text \<open>
  What the stock operations promise: an allocation never takes more than is there, adjustments set
  the figures they are given and leave a ledger that adds up, and a release gives back what an
  allocation took. The multi-channel strategy breaks the first promise in the quantity it
  allocates over several locations, and a deleted variant cannot be allocated at all.
\<close>

section \<open>Allocation keeps a safety condition\<close>

definition same_catalog :: "stock_db \<Rightarrow> stock_db \<Rightarrow> bool" where
  "same_catalog d d' \<longleftrightarrow>
     variants d = variants d' \<and> settings d = settings d' \<and> stock_locations d = stock_locations d' \<and>
     placed_lines d = placed_lines d'"

lemma same_catalog_refl [simp]: "same_catalog d d"
  by (simp add: same_catalog_def)

lemma same_catalog_allocated [simp]:
  "same_catalog d (updateStockAllocatedForLocation v l n d') = same_catalog d d'"
  by (auto simp: updateStockAllocatedForLocation_def incrementStockLevel_def update_rows_def
      clampStockAllocatedAtZero_def same_catalog_def Let_def split: option.split)

lemma settings_allocated: "settings (updateStockAllocatedForLocation v l n d) = settings d"
  using same_catalog_allocated [of d v l n d] by (simp add: same_catalog_def)

lemma same_catalog_frame [simp]:
  "same_catalog d (d'\<lparr>lock_log := a\<rparr>) = same_catalog d d'"
  by (simp add: same_catalog_def)

lemma same_catalog_lock [simp]: "same_catalog d (lockStockLevelsForVariants u vs d') = same_catalog d d'"
  using lock_levels_frame [of u vs d'] by (auto simp: same_catalog_def)

lemma same_catalog_apply [simp]:
  "same_catalog d (apply_locations updateStockAllocatedForLocation v ls d') = same_catalog d d'"
  by (induction updateStockAllocatedForLocation v ls d' rule: apply_locations.induct) auto

lemma allocated_lock_log:
  "updateStockAllocatedForLocation v l n (d\<lparr>lock_log := lk\<rparr>) = (updateStockAllocatedForLocation v l n d)\<lparr>lock_log := lk\<rparr>"
  by (cases "find_level v l d")
    (simp_all add: updateStockAllocatedForLocation_def find_level_def incrementStockLevel_def
      update_rows_def clampStockAllocatedAtZero_def Let_def)

lemma apply_lock_log:
  "apply_locations updateStockAllocatedForLocation v ls (d\<lparr>lock_log := lk\<rparr>)
     = (apply_locations updateStockAllocatedForLocation v ls d)\<lparr>lock_log := lk\<rparr>"
  by (induction updateStockAllocatedForLocation v ls d rule: apply_locations.induct)
    (auto simp: allocated_lock_log)

lemma apply_other_variant:
  assumes "wf_stock db" and "v \<noteq> w"
  shows "wf_stock (apply_locations updateStockAllocatedForLocation v ls db) \<and>
         levels_of w (apply_locations updateStockAllocatedForLocation v ls db) = levels_of w db \<and>
         settings (apply_locations updateStockAllocatedForLocation v ls db) = settings db"
  using assms
  by (induction updateStockAllocatedForLocation v ls db rule: apply_locations.induct)
    (simp_all add: wf_allocated levels_of_allocated_other settings_allocated)

lemma variantOrThrow_Inr: "variantOrThrow b i db = Inr v \<Longrightarrow> v \<in> set (variants db) \<and> variant_id v = i"
  by (auto simp: variantOrThrow_def split: option.splits if_splits dest: find_Some_in)

lemma variantOrThrow_unique:
  "\<lbrakk>variantOrThrow b (variant_id v) db = Inr w; distinct (map variant_id (variants db)); v \<in> set (variants db)\<rbrakk>
   \<Longrightarrow> w = v"
  by (metis variantOrThrow_Inr distinct_map inj_onD)

text \<open>
  The contract of a strategy with a safety condition of its own: the condition depends on the
  variant's rows only, and carrying out an allocation the strategy proposes keeps it.
\<close>

locale safe_strategy = reading_strategy +
  fixes safe :: "stock_db \<Rightarrow> product_variant \<Rightarrow> bool"
  assumes safe_rows:
    "levels_of (variant_id v) d = levels_of (variant_id v) d' \<Longrightarrow> settings d = settings d' \<Longrightarrow> safe d v = safe d' v"
    and safe_allocated:
    "\<lbrakk>wf_stock db; v \<in> set (variants db); productVariantId line = variant_id v; \<not> inventoryNotTracked db v;
      safe db v; strategy_forAllocation strategy ctx (getAllStockLocations db) line q db = Inr (ls, db')\<rbrakk>
     \<Longrightarrow> safe (apply_locations updateStockAllocatedForLocation (variant_id v) ls db) v"
begin

lemma same_catalog_line:
  assumes "allocate_line strategy ctx g input s = Inr t"
  shows "same_catalog d (snd (snd t)) = same_catalog d (snd (snd s))"
proof -
  obtain short ms db short' ms' db' where st: "s = (short, ms, db)" "t = (short', ms', db')"
    by (cases s; cases t)
  show ?thesis using assms unfolding st
    by (elim allocate_line_step)
      (auto dest!: move_line_Inr split: if_splits)
qed

lemma safe_line:
  assumes run: "allocate_line strategy ctx (global_trackInventory (settings db)) input (short, ms, db)
                  = Inr (short', ms', db')"
    and wf: "wf_stock db" and v: "v \<in> set (variants db)" "safe db v"
  shows "safe db' v"
proof -
  let ?line = "snd (fst input)"
  obtain w ls lk where w: "variantOrThrow True (productVariantId ?line) db = Inr w"
    and ls: "strategy_forAllocation strategy ctx (getAllStockLocations db) ?line (snd input) db
               = Inr (ls, db\<lparr>lock_log := lk\<rparr>)"
    and move: "move_line ALLOCATION (\<lambda>n. n) (trackInventoryForVariant w (global_trackInventory (settings db)))
           updateStockAllocatedForLocation ?line ls (ms, db\<lparr>lock_log := lk\<rparr>) = Inr (ms', db')"
    using run by (rule allocate_line_step)
  have wid: "variant_id w = productVariantId ?line" using variantOrThrow_Inr [OF w] by simp
  have frame: "safe (d\<lparr>lock_log := lk\<rparr>) v = safe d v" for d
    by (rule safe_rows) (simp_all add: levels_of_def)
  show ?thesis
  proof (cases "\<not> inventoryNotTracked db w")
    case False
    then have "db' = db\<lparr>lock_log := lk\<rparr>"
      using move_line_Inr [OF move] by (simp add: tracked_iff)
    then show ?thesis using v by (simp add: frame)
  next
    case True
    then have db': "db' = (apply_locations updateStockAllocatedForLocation (productVariantId ?line) ls db)\<lparr>lock_log := lk\<rparr>"
      using move_line_Inr [OF move] by (simp add: tracked_iff apply_lock_log)
    show ?thesis
    proof (cases "w = v")
      case True
      then show ?thesis
        using safe_allocated [OF wf v(1) _ _ v(2) ls] \<open>\<not> inventoryNotTracked db w\<close> wid
        by (simp add: db' frame)
    next
      case False
      then have other: "productVariantId ?line \<noteq> variant_id v"
        using variantOrThrow_unique w v wf by (metis wf_stock_def)
      let ?P = "\<lambda>d. wf_stock d \<and> levels_of (variant_id v) d = levels_of (variant_id v) db \<and> settings d = settings db"
      have "?P (apply_locations updateStockAllocatedForLocation (productVariantId ?line) ls db)"
        by (rule apply_other_variant [OF wf other])
      then have "safe (apply_locations updateStockAllocatedForLocation (productVariantId ?line) ls db) v = safe db v"
        using safe_rows by blast
      then show ?thesis using v(2) by (simp add: db' frame)
    qed
  qed
qed

lemma allocations_keep_safe:
  assumes "createAllocationsForOrderLines strategy ctx ls db = Inr (ms, db')"
    and "wf_stock db" and "v \<in> set (variants db)" and "safe db v"
  shows "safe db' v"
proof -
  obtain ols short as db2 where
    run: "fold_result (allocate_line strategy ctx (global_trackInventory (settings db))) ols
       ([], [], lockStockLevelsForVariants False (map (\<lambda>(ol, q). productVariantId (snd ol)) ols) db) = Inr (short, as, db2)"
    and db': "db' = publish_shortfalls short (save_movements (as, db2))"
    using assms(1) by (auto simp: createAllocationsForOrderLines_def bind_result_Inr Let_def)
  let ?P = "\<lambda>s. wf_stock (snd (snd s)) \<and> same_catalog db (snd (snd s)) \<and> safe (snd (snd s)) v"
  have start: "safe (lockStockLevelsForVariants u vs db) v" for u vs
  proof -
    obtain lk where "lockStockLevelsForVariants u vs db = db\<lparr>lock_log := lk\<rparr>"
      using lock_levels_frame by blast
    moreover have "safe (db\<lparr>lock_log := lk\<rparr>) v = safe db v" by (rule safe_rows) (simp_all add: levels_of_def)
    ultimately show ?thesis using assms(4) by simp
  qed
  have "?P (short, as, db2)"
  proof (rule fold_result_invariant [OF run, where P = ?P])
    show "?P ([], [], lockStockLevelsForVariants False (map (\<lambda>(ol, q). productVariantId (snd ol)) ols) db)"
      using assms(2) start by simp
  next
    fix x s t assume P: "?P s" and step: "allocate_line strategy ctx (global_trackInventory (settings db)) x s = Inr t"
    obtain sh ms d sh' ms' d' where st: "s = (sh, ms, d)" "t = (sh', ms', d')" by (cases s; cases t)
    have "settings d = settings db" "variants d = variants db" using P st by (auto simp: same_catalog_def)
    then show "?P t"
      using P step safe_line [of d x sh ms sh' ms' d'] wf_allocate_line [OF step] same_catalog_line [OF step] assms(3)
      by (auto simp: st)
  qed
  moreover have "safe db' v = safe db2 v"
    by (rule safe_rows) (auto simp: db' publish_shortfalls_def save_movements_def levels_of_def Let_def)
  ultimately show ?thesis by simp
qed

end

section \<open>The default strategy\<close>

definition default_safe :: "stock_db \<Rightarrow> product_variant \<Rightarrow> bool" where
  "default_safe db v \<longleftrightarrow> effectiveThreshold db v \<le> free_units (variant_id v) db"

lemma variantOrThrow_at:
  "\<lbrakk>variantOrThrow b i db = Inr w; i = variant_id v; wf_stock db; v \<in> set (variants db)\<rbrakk> \<Longrightarrow> w = v"
  using variantOrThrow_unique by (simp add: wf_stock_def)

lemma default_allocation_safe:
  assumes "wf_stock db" and "v \<in> set (variants db)" and "productVariantId line = variant_id v"
    and "\<not> inventoryNotTracked db v" and "default_safe db v"
    and "default_forAllocation ctx locs line q db = Inr (ls, db')"
  shows "default_safe (apply_locations updateStockAllocatedForLocation (variant_id v) ls db) v"
proof -
  let ?n = "min q (free_units (variant_id v) db - effectiveThreshold db v)"
  have ls: "ls = (if ?n \<le> 0 then [] else [(first_location locs, ?n)])"
  proof -
    obtain w where w: "variantOrThrow False (productVariantId line) db = Inr w"
      using assms(6) unfolding default_forAllocation_cases by blast
    then have "w = v" using variantOrThrow_at [OF _ assms(3,1,2)] by simp
    then show ?thesis
      using assms(6) w unfolding default_forAllocation_cases by (simp add: assms(3,4) Let_def)
  qed
  show ?thesis
  proof (cases "0 < ?n")
    case False
    then have "?n \<le> 0" by linarith
    then have "ls = []" by (simp add: ls)
    then show ?thesis using assms(5) by simp
  next
    case True
    show ?thesis
    proof (cases "first_location locs")
      case None
      then show ?thesis using assms(5) True by (simp add: ls)
    next
      case (Some l)
      have "effectiveThreshold (updateStockAllocatedForLocation u l n db) v = effectiveThreshold db v" for u l n
        by (simp add: getVariantStockSettings_def settings_allocated)
      then show ?thesis
        using True assms(5) free_units_allocated [OF assms(1), of "variant_id v" l ?n]
        by (auto simp: ls Some default_safe_def clamped_def split: option.splits)
    qed
  qed
qed

lemma default_safe_rows:
  "levels_of (variant_id v) d = levels_of (variant_id v) d' \<Longrightarrow> settings d = settings d' \<Longrightarrow>
   default_safe d v = default_safe d' v"
  by (simp add: default_safe_def free_units_def getVariantStockSettings_def)

interpretation default_safety: safe_strategy DefaultStockLocationStrategy ctx default_safe for ctx
proof (unfold_locales, goal_cases)
  case (1 v d d')
  then show ?case by (rule default_safe_rows)
next
  case (2 db v line q ls db')
  then show ?case by (intro default_allocation_safe) (auto simp: DefaultStockLocationStrategy_def)
qed

section \<open>The multi-channel strategy\<close>

text \<open>Here the condition holds location by location.\<close>

definition multi_safe :: "stock_db \<Rightarrow> product_variant \<Rightarrow> bool" where
  "multi_safe db v \<longleftrightarrow>
     (\<forall>l \<in> set (levels_of (variant_id v) db). effectiveThreshold db v \<le> stockOnHand l - stockAllocated l)"

lemma stock_at_level:
  assumes "wf_stock db"
  shows "stock_at db k = Some (h, a) \<longleftrightarrow>
           (\<exists>l \<in> set (stock_levels db). level_key l = k \<and> stockOnHand l = h \<and> stockAllocated l = a)"
proof -
  have "distinct (map level_key (stock_levels db))" using assms by (simp add: wf_stock_def wf_levels_def)
  then show ?thesis
    using find_distinct_key [of level_key "stock_levels db"]
    by (auto simp: stock_at_def find_level_key dest: find_Some_in)
qed

lemma multi_safe_at:
  assumes "wf_stock db"
  shows "multi_safe db v \<longleftrightarrow>
           (\<forall>loc h a. stock_at db (variant_id v, loc) = Some (h, a) \<longrightarrow> effectiveThreshold db v \<le> h - a)"
  by (auto simp: multi_safe_def stock_at_level [OF assms] levels_of_def level_key_def)

lemma multi_allocate_entries:
  assumes "multi_allocate ctx db nt t q levels tot locs = Inr ls" and "distinct locs"
  shows "distinct (map fst ls) \<and>
         (\<forall>(loc, n) \<in> set ls. \<exists>l \<in> set locs. loc = Some l \<and> multi_quantity_at ctx db nt t q levels l = Inr (Some n))"
  using assms
proof (induction ctx db nt t q levels tot locs arbitrary: ls rule: multi_allocate.induct)
  case (2 ctx db nt t q levels tot loc locs)
  obtain entry where entry: "multi_quantity_at ctx db nt t q levels loc = Inr entry"
    using "2.prems" by (auto simp: bind_result_Inr)
  let ?here = "case entry of None \<Rightarrow> [] | Some n \<Rightarrow> [(Some loc, n)]"
  let ?total = "tot + (case entry of None \<Rightarrow> 0 | Some n \<Rightarrow> n)"
  show ?case
  proof (cases "q \<le> ?total")
    case True
    then show ?thesis using "2.prems" entry by (auto simp: Let_def split: option.splits)
  next
    case False
    then obtain rest where rest: "multi_allocate ctx db nt t q levels ?total locs = Inr rest" "ls = ?here @ rest"
      using "2.prems" entry by (auto simp: Let_def bind_result_Inr)
    have IH: "distinct (map fst rest)"
      "\<And>o' n. (o', n) \<in> set rest \<Longrightarrow> \<exists>l \<in> set locs. o' = Some l \<and> multi_quantity_at ctx db nt t q levels l = Inr (Some n)"
      using "2.IH" [OF refl refl False rest(1)] "2.prems"(2) by auto
    then show ?thesis
      using entry "2.prems"(2) rest(2) by (fastforce split: option.splits)
  qed
qed simp

lemma multi_quantity_bound:
  assumes "multi_quantity_at ctx db False t q (sort_key stock_level_id (levels_of v d)) loc = Inr (Some n)"
    and "wf_stock d" and "stock_at d (v, loc) = Some (h, a)"
  shows "n \<le> h - a - t"
proof -
  obtain sl where "List.find (\<lambda>sl. level_locationId sl = loc) (sort_key stock_level_id (levels_of v d)) = Some sl"
    "n \<le> stockOnHand sl - stockAllocated sl - t"
    using assms(1)
    by (auto simp: multi_quantity_at_def bind_result_Inr Let_def split: option.splits if_splits)
  then have sl: "sl \<in> set (stock_levels d)" "level_key sl = (v, loc)" "n \<le> stockOnHand sl - stockAllocated sl - t"
    using find_Some_in by (fastforce simp: levels_of_def level_key_def)+
  then have "stock_at d (v, loc) = Some (stockOnHand sl, stockAllocated sl)"
    using stock_at_level [OF assms(2)] by blast
  then show ?thesis using assms(3) sl(3) by simp
qed

lemma apply_keeps_multi_safe:
  assumes "wf_stock db" and "multi_safe db v" and "distinct (map fst ls)"
    and "\<And>loc n h a. (Some loc, n) \<in> set ls \<Longrightarrow> stock_at db (variant_id v, loc) = Some (h, a) \<Longrightarrow>
           n \<le> h - a - effectiveThreshold db v"
  shows "multi_safe (apply_locations updateStockAllocatedForLocation (variant_id v) ls db) v"
  using assms
proof (induction updateStockAllocatedForLocation "variant_id v" ls db rule: apply_locations.induct)
  case (3 l n ls db)
  let ?db = "updateStockAllocatedForLocation (variant_id v) l n db"
  have eq: "effectiveThreshold ?db v = effectiveThreshold db v"
    by (simp add: getVariantStockSettings_def settings_allocated)
  have nonneg: "stock_at db k = Some (h, a) \<Longrightarrow> 0 \<le> a" for k h a
    using "3.prems"(1) by (auto simp: stock_at_level wf_stock_def wf_levels_def)
  have "multi_safe ?db v"
    using "3.prems"(2,4) nonneg
    by (fastforce simp: multi_safe_at wf_allocated "3.prems"(1) stock_at_allocated eq clamped_def split: if_splits)
  moreover have "m \<le> h - a - effectiveThreshold ?db v"
    if "(Some loc, m) \<in> set ls" "stock_at ?db (variant_id v, loc) = Some (h, a)" for loc m h a
    using that "3.prems"(3,4) by (auto simp: stock_at_allocated "3.prems"(1) eq image_iff split: if_splits)
  ultimately show ?case using "3.hyps" "3.prems"(1,3) by (simp add: wf_allocated)
qed auto

lemma multi_allocation_safe:
  assumes "wf_stock db" and "v \<in> set (variants db)" and "productVariantId line = variant_id v"
    and "\<not> inventoryNotTracked db v" and "multi_safe db v"
    and "multi_forAllocation ctx (getAllStockLocations db) line q db = Inr (ls, db')"
  shows "multi_safe (apply_locations updateStockAllocatedForLocation (variant_id v) ls db) v"
proof -
  obtain w where w: "variantOrThrow False (productVariantId line) db = Inr w"
    using assms(6) by (auto simp: multi_forAllocation_def bind_result_Inr)
  then have "w = v" using variantOrThrow_at [OF _ assms(3,1,2)] by simp
  then obtain d where run: "multi_allocate ctx d False (effectiveThreshold db v) q
      (sort_key stock_level_id (levels_of (variant_id v) db)) 0 (getAllStockLocations db) = Inr ls"
    using assms(3,4,6) w
    by (auto simp: multi_forAllocation_def bind_result_Inr getLockedStockLevelsForVariant_def Let_def)
  have locs: "distinct (getAllStockLocations db)"
    using assms(1) by (simp add: wf_stock_def getAllStockLocations_def map_wf_def)
  note entries = multi_allocate_entries [OF run locs]
  show ?thesis
  proof (rule apply_keeps_multi_safe [OF assms(1,5)])
    show "distinct (map fst ls)" using entries by simp
  next
    fix loc n h a
    assume "(Some loc, n) \<in> set ls" and at: "stock_at db (variant_id v, loc) = Some (h, a)"
    then have "multi_quantity_at ctx d False (effectiveThreshold db v) q
        (sort_key stock_level_id (levels_of (variant_id v) db)) loc = Inr (Some n)"
      using entries by fastforce
    then show "n \<le> h - a - effectiveThreshold db v"
      by (rule multi_quantity_bound [OF _ assms(1) at])
  qed
qed

lemma multi_safe_rows:
  "levels_of (variant_id v) d = levels_of (variant_id v) d' \<Longrightarrow> settings d = settings d' \<Longrightarrow>
   multi_safe d v = multi_safe d' v"
  by (simp add: multi_safe_def getVariantStockSettings_def)

interpretation multi_safety: safe_strategy MultiChannelStockLocationStrategy ctx multi_safe for ctx
proof (unfold_locales, goal_cases)
  case (1 v d d')
  then show ?case by (rule multi_safe_rows)
next
  case (2 db v line q ls db')
  then show ?case by (intro multi_allocation_safe) (auto simp: MultiChannelStockLocationStrategy_def)
qed

section \<open>No overselling\<close>

lemma default_saleable:
  assumes "\<not> inventoryNotTracked db v"
  shows "\<exists>d. getSaleableStockLevel DefaultStockLocationStrategy ctx v lockLevels db
           = Inr (free_units (variant_id v) db - effectiveThreshold db v, d)"
proof -
  have "fst (default_getAvailableStock (levels_of i db)) - snd (default_getAvailableStock (levels_of i db)) = free_units i db"
    for i by (simp add: default_available free_units_def sum_list_subtractf)
  moreover have "fst (default_getAvailableStock (sort_key stock_level_id (levels_of i db)))
      - snd (default_getAvailableStock (sort_key stock_level_id (levels_of i db))) = free_units i db" for i
    by (rule free_units_available) simp
  ultimately show ?thesis
    using assms
    by (auto simp: getSaleableStockLevel_def getAvailableStock_def DefaultStockLocationStrategy_def
        batch_levels getLockedStockLevelsForVariant_def Let_def split_beta)
qed

lemma allocations_keep_settings:
  assumes "createAllocationsForOrderLines strategy ctx ls db = Inr (ms, db')"
    and "strategy \<in> {DefaultStockLocationStrategy, MultiChannelStockLocationStrategy}"
  shows "settings db' = settings db \<and> variants db' = variants db"
proof -
  obtain ols short as db2 where
    run: "fold_result (allocate_line strategy ctx (global_trackInventory (settings db))) ols
       ([], [], lockStockLevelsForVariants False (map (\<lambda>(ol, q). productVariantId (snd ol)) ols) db) = Inr (short, as, db2)"
    and db': "db' = publish_shortfalls short (save_movements (as, db2))"
    using assms(1) by (auto simp: createAllocationsForOrderLines_def bind_result_Inr Let_def)
  have "same_catalog db (snd (snd (short, as, db2)))"
    by (rule fold_result_invariant [OF run, where P = "\<lambda>s. same_catalog db (snd (snd s))"])
      (use assms(2) default_safety.same_catalog_line multi_safety.same_catalog_line in auto)
  then show ?thesis
    by (auto simp: db' publish_shortfalls_def save_movements_def same_catalog_def Let_def)
qed


text \<open>
  With the multi-channel strategy no location is overdrawn: when every stock level of a tracked
  variant has at least the threshold left after its allocations, that still holds of every level
  after any batch of allocations.
\<close>

theorem no_location_overdrawn:
  assumes "createAllocationsForOrderLines MultiChannelStockLocationStrategy ctx ls db = Inr (ms, db')"
    and "wf_stock db" and "v \<in> set (variants db)"
    and "\<forall>l \<in> set (levels_of (variant_id v) db). effectiveThreshold db v \<le> stockOnHand l - stockAllocated l"
  shows "\<forall>l \<in> set (levels_of (variant_id v) db'). effectiveThreshold db' v \<le> stockOnHand l - stockAllocated l"
  using multi_safety.allocations_keep_safe [OF assms(1-3)] assms(4) by (simp add: multi_safe_def)

section \<open>Locations of earlier allocations\<close>

definition map_total :: "('k, int) js_map \<Rightarrow> int" where
  "map_total m = sum_list (map snd m)"

lemma map_total_set:
  "map_total (map_set k v m) = map_total m - (case map_get m k of None \<Rightarrow> 0 | Some x \<Rightarrow> x) + v"
  by (induction m) (auto simp: map_total_def split: option.split)

lemma spread_total:
  assumes "\<forall>a \<in> set as. 0 \<le> mv_quantity a"
  shows "map_total (spread_allocations u m as) = map_total m + min (max u 0) (sum_list (map mv_quantity as))"
  using assms
proof (induction u m as rule: spread_allocations.induct)
  case (2 u m a as)
  have rest: "0 \<le> sum_list (map mv_quantity as)" using "2.prems" by (intro sum_list_nonneg_map) auto
  show ?case
  proof (cases "u \<le> 0")
    case True
    then show ?thesis using rest "2.prems" by simp
  next
    case False
    then show ?thesis
      using "2.IH" [OF False refl] "2.prems" rest
      by (auto simp: Let_def map_total_set min_def max_def split: option.split)
  qed
qed (simp add: map_total_def)

lemma spread_at:
  assumes "\<forall>a \<in> set as. 0 \<le> mv_quantity a"
  shows "(case map_get (spread_allocations u m as) k of None \<Rightarrow> 0 | Some x \<Rightarrow> x)
         \<le> (case map_get m k of None \<Rightarrow> 0 | Some x \<Rightarrow> x)
            + sum_list (map mv_quantity (filter (\<lambda>a. mv_locationId a = k) as))"
  using assms
proof (induction u m as rule: spread_allocations.induct)
  case (2 u m a as)
  have rest: "0 \<le> sum_list (map mv_quantity (filter (\<lambda>a. mv_locationId a = k) as))"
    using "2.prems" by (intro sum_list_nonneg_map) auto
  show ?case
  proof (cases "u \<le> 0")
    case True
    then show ?thesis using rest "2.prems" by simp
  next
    case False
    then show ?thesis
      using "2.IH" [OF False refl] "2.prems" rest
      by (auto simp: Let_def map_get_set split: option.splits)
  qed
qed simp

lemma spread_wf: "map_wf m \<Longrightarrow> map_wf (spread_allocations u m as)"
  by (induction u m as rule: spread_allocations.induct) (auto simp: Let_def map_wf_set split: option.split)

text \<open>
  What is sold, released or cancelled for an order line comes from where it was allocated: the
  quantities the strategies name add up to the quantity asked for or to all that was allocated,
  whichever is less, no location is named twice, and none gives more than was allocated there.
\<close>

theorem locations_follow_allocations:
  assumes "\<forall>a \<in> set (allocations_of (line_id line) db). 0 \<le> mv_quantity a" and "0 \<le> q"
  defines "parts \<equiv> spread_allocations q [] (allocations_of (line_id line) db)"
  shows "summate (getLocationsBasedOnAllocations locs line q db) snd
           = min q (sum_list (map mv_quantity (allocations_of (line_id line) db))) \<and>
         map_wf parts \<and>
         (\<forall>(loc, n) \<in> set parts.
            n \<le> sum_list (map mv_quantity (filter (\<lambda>a. mv_locationId a = loc) (allocations_of (line_id line) db))))"
proof (intro conjI)
  have "summate (getLocationsBasedOnAllocations locs line q db) snd = map_total parts"
    by (simp add: getLocationsBasedOnAllocations_def parts_def map_total_def total_simps comp_def split_beta)
  then show "summate (getLocationsBasedOnAllocations locs line q db) snd
           = min q (sum_list (map mv_quantity (allocations_of (line_id line) db)))"
    using spread_total [OF assms(1), of q "[]"] assms(2) by (simp add: parts_def map_total_def)
  show wf: "map_wf parts" unfolding parts_def by (rule spread_wf) (simp add: map_wf_def)
  show "\<forall>(loc, n) \<in> set parts.
          n \<le> sum_list (map mv_quantity (filter (\<lambda>a. mv_locationId a = loc) (allocations_of (line_id line) db)))"
  proof safe
    fix loc n assume "(loc, n) \<in> set parts"
    then have "map_get parts loc = Some n" using map_get_Some_in [OF wf] by simp
    then show "n \<le> sum_list (map mv_quantity (filter (\<lambda>a. mv_locationId a = loc) (allocations_of (line_id line) db)))"
      using spread_at [OF assms(1), of q "[]" loc] by (simp add: parts_def)
  qed
qed

section \<open>Allocation and release\<close>

lemma release_undoes_allocation:
  assumes "wf_stock db" and "0 < n"
  shows "stock_levels (updateStockAllocatedForLocation v l (- n) (updateStockAllocatedForLocation v l n db)) = stock_levels db"
proof (cases "find_level v l db")
  case None
  then show ?thesis by (simp add: allocated_update_missing)
next
  case (Some r)
  let ?db = "updateStockAllocatedForLocation v l n db"
  have wf: "wf_stock ?db" using assms(1) by (rule wf_allocated)
  have r: "r \<in> set (stock_levels db)" "level_key r = (v, l)" using find_level_Some [OF Some] by auto
  have rows: "stock_levels ?db = map (\<lambda>x. if stock_level_id x = stock_level_id r
                 then x\<lparr>stockAllocated := clamped n (stockAllocated x)\<rparr> else x) (stock_levels db)"
    by (simp add: allocated_update [OF assms(1) Some])
  have find: "find_level v l ?db = Some (r\<lparr>stockAllocated := clamped n (stockAllocated r)\<rparr>)"
    unfolding find_level_key rows
    by (subst find_map_update) (use assms(1) r in \<open>auto simp: wf_stock_def wf_levels_def level_key_def\<close>)
  have nonneg: "0 \<le> stockAllocated x" if "x \<in> set (stock_levels db)" for x
    using assms(1) that by (auto simp: wf_stock_def wf_levels_def)
  show ?thesis
    using assms(2) by (auto simp: allocated_update [OF wf find] rows clamped_def intro!: map_idI dest: nonneg)
qed

lemma allocated_levels_cong:
  "stock_levels d = stock_levels d' \<Longrightarrow>
   stock_levels (updateStockAllocatedForLocation v l n d) = stock_levels (updateStockAllocatedForLocation v l n d')"
  by (cases "find_level v l d")
    (simp_all add: updateStockAllocatedForLocation_def find_level_def incrementStockLevel_def
      update_rows_def clampStockAllocatedAtZero_def Let_def)

lemma distinct_filter_single:
  assumes "distinct (map k xs)" and "x \<in> set xs"
  shows "filter (\<lambda>y. k y = k x) xs = [x]"
  using assms by (induction xs) (auto simp: filter_empty_conv image_iff)

lemma variantOrThrow_locks [simp]:
  "variantOrThrow b i (d\<lparr>lock_log := lk\<rparr>) = variantOrThrow b i d"
  "getAllStockLocations (d\<lparr>lock_log := lk\<rparr>) = getAllStockLocations d"
  "free_units i (d\<lparr>lock_log := lk\<rparr>) = free_units i d"
  "getVariantStockSettings (d\<lparr>lock_log := lk\<rparr>) = getVariantStockSettings d"
  by (simp_all add: variantOrThrow_def getAllStockLocations_def free_units_def levels_of_def
      getVariantStockSettings_def fun_eq_iff)

lemma variantOrThrow_deleted: "variantOrThrow False i db = Inr v \<Longrightarrow> variantOrThrow True i db = Inr v"
  by (auto simp: variantOrThrow_def split: option.splits if_splits)

lemma publish_save_frame:
  "stock_levels (publish_shortfalls short (save_movements (ms, d))) = stock_levels d"
  "stock_movements (publish_shortfalls short (save_movements (ms, d))) = stock_movements d @ ms"
  "same_catalog c (publish_shortfalls short (save_movements (ms, d))) = same_catalog c d"
  by (auto simp: publish_shortfalls_def save_movements_def same_catalog_def)

lemma apply_movements: "stock_movements (apply_locations updateStockAllocatedForLocation v ls d) = stock_movements d"
  by (rule apply_locations_invariant [where P = "\<lambda>x. stock_movements x = stock_movements d"])
    (auto simp: updateStockAllocatedForLocation_def incrementStockLevel_def update_rows_def
      clampStockAllocatedAtZero_def Let_def split: option.split)

text \<open>An allocation of one line with the default strategy takes one location or none.\<close>

lemma single_allocation:
  assumes line: "lineOrThrow (line_id line) db = Inr (orderId, line)"
    and run: "createAllocationsForOrderLines DefaultStockLocationStrategy ctx
           [\<lparr>orderLineId = line_id line, input_quantity = q\<rparr>] db = Inr (ms, db')"
  obtains v ls where "variantOrThrow True (productVariantId line) db = Inr v"
    and "stock_movements db' = stock_movements db @ ms"
    and "ms = map (\<lambda>(loc, n). \<lparr>mv_type = ALLOCATION, mv_productVariantId = productVariantId line,
                                 mv_locationId = loc, mv_quantity = n, mv_orderLineId = Some (line_id line)\<rparr>) ls"
    and "ls = [] \<or> (\<exists>n. n \<le> q \<and> (inventoryNotTracked db v \<or> 0 < n) \<and> ls = [(first_location (getAllStockLocations db), n)])"
    and "stock_levels db' = (if inventoryNotTracked db v then stock_levels db
            else stock_levels (apply_locations updateStockAllocatedForLocation (productVariantId line) ls db))"
    and "same_catalog db db'"
proof -
  obtain lk where lock: "lockStockLevelsForVariants False [productVariantId line] db = db\<lparr>lock_log := lk\<rparr>"
    using lock_levels_frame by blast
  obtain short d where
    step: "allocate_line DefaultStockLocationStrategy ctx (global_trackInventory (settings db)) ((orderId, line), q)
             ([], [], db\<lparr>lock_log := lk\<rparr>) = Inr (short, ms, d)"
    and db': "db' = publish_shortfalls short (save_movements (ms, d))"
    using run by (auto simp: createAllocationsForOrderLines_def line bind_result_Inr lock Let_def)
  obtain w ls lk' where w: "variantOrThrow True (productVariantId line) db = Inr w"
    and ls: "default_forAllocation ctx (getAllStockLocations db) line q (db\<lparr>lock_log := lk\<rparr>)
               = Inr (ls, db\<lparr>lock_log := lk\<rparr>\<lparr>lock_log := lk'\<rparr>)"
    and move: "move_line ALLOCATION (\<lambda>n. n) (trackInventoryForVariant w (global_trackInventory (settings db)))
           updateStockAllocatedForLocation line ls ([], db\<lparr>lock_log := lk\<rparr>\<lparr>lock_log := lk'\<rparr>) = Inr (ms, d)"
    using step by (rule default_reads.allocate_line_step) (auto simp: DefaultStockLocationStrategy_def)
  have entry: "ls = [] \<or> (\<exists>n. n \<le> q \<and> (inventoryNotTracked db w \<or> 0 < n) \<and>
                            ls = [(first_location (getAllStockLocations db), n)])"
  proof -
    obtain u where u: "variantOrThrow False (productVariantId line) db = Inr u"
      using ls unfolding default_forAllocation_cases by auto
    then have "u = w" using variantOrThrow_deleted w by force
    then show ?thesis
      using ls u unfolding default_forAllocation_cases
      by (auto simp: Let_def min_def split: if_splits)
  qed
  note moved = move_line_Inr [OF move]
  show thesis
  proof (rule that [OF w _ _ entry])
    show "ms = map (\<lambda>(loc, n). \<lparr>mv_type = ALLOCATION, mv_productVariantId = productVariantId line,
                                 mv_locationId = loc, mv_quantity = n, mv_orderLineId = Some (line_id line)\<rparr>) ls"
      using moved by simp
    show "stock_movements db' = stock_movements db @ ms"
      using moved by (simp add: db' publish_save_frame apply_movements split: if_splits)
    show "stock_levels db' = (if inventoryNotTracked db w then stock_levels db
            else stock_levels (apply_locations updateStockAllocatedForLocation (productVariantId line) ls db))"
      using moved by (simp add: db' publish_save_frame tracked_iff apply_lock_log split: if_splits)
    show "same_catalog db db'"
      using moved by (simp add: db' publish_save_frame split: if_splits)
  qed
qed

text \<open>
  C29: Releasing what was just allocated restores the stock. For a line without earlier
  allocations, an allocation with the default strategy followed by a release of the same quantity
  leaves every stock level as it was, also when the allocation was cut short or the variant is not
  tracked.
\<close>

theorem allocate_release_roundtrip:
  assumes "wf_stock db" and "distinct (map (\<lambda>ol. line_id (snd ol)) (placed_lines db))"
    and "(orderId, line) \<in> set (placed_lines db)" and "allocations_of (line_id line) db = []"
    and alloc: "createAllocationsForOrderLines DefaultStockLocationStrategy ctx
           [\<lparr>orderLineId = line_id line, input_quantity = q\<rparr>] db = Inr (ms, db1)"
    and "createReleasesForOrderLines DefaultStockLocationStrategy
           [\<lparr>orderLineId = line_id line, input_quantity = q\<rparr>] db1 = Inr (rs, db2)"
  shows "stock_levels db2 = stock_levels db"
proof -
  have line: "lineOrThrow (line_id line) db = Inr (orderId, line)"
    using find_distinct_key [of "\<lambda>ol. line_id (snd ol)" "placed_lines db" "(orderId, line)"] assms(2,3)
    by (simp add: lineOrThrow_def)
  obtain v ls where v: "variantOrThrow True (productVariantId line) db = Inr v"
    and moved: "stock_movements db1 = stock_movements db @ ms"
    and ms: "ms = map (\<lambda>(loc, n). \<lparr>mv_type = ALLOCATION, mv_productVariantId = productVariantId line,
                                 mv_locationId = loc, mv_quantity = n, mv_orderLineId = Some (line_id line)\<rparr>) ls"
    and ls: "ls = [] \<or> (\<exists>n. n \<le> q \<and> (inventoryNotTracked db v \<or> 0 < n) \<and> ls = [(first_location (getAllStockLocations db), n)])"
    and levels: "stock_levels db1 = (if inventoryNotTracked db v then stock_levels db
            else stock_levels (apply_locations updateStockAllocatedForLocation (productVariantId line) ls db))"
    and cat: "same_catalog db db1"
    using single_allocation [OF line alloc] .
  have "filter (\<lambda>ol. line_id (snd ol) = line_id line) (placed_lines db) = [(orderId, line)]"
    using distinct_filter_single [OF assms(2,3)] by simp
  then have found: "find_lines [line_id line] db1 = [line]"
    using cat by (simp add: find_lines_def same_catalog_def filter_map comp_def)
  have allocs: "allocations_of (line_id line) db1 = ms"
    using assms(4) moved ms by (auto simp: allocations_of_def intro!: filter_True)
  have same: "variants db1 = variants db" "settings db1 = settings db" "getAllStockLocations db1 = getAllStockLocations db"
    using cat by (simp_all add: same_catalog_def getAllStockLocations_def)
  obtain lk where lock: "lockStockLevelsForVariants False [productVariantId line] db1 = db1\<lparr>lock_log := lk\<rparr>"
    using lock_levels_frame by blast
  have v1: "variantOrThrow True (productVariantId line) (db1\<lparr>lock_log := lk\<rparr>) = Inr v"
    using v same by (simp add: variantOrThrow_def)
  obtain d where
    step: "move_line RELEASE (\<lambda>n. q) (trackInventoryForVariant v (global_trackInventory (settings db))) release line
       (getLocationsBasedOnAllocations (getAllStockLocations db) line q (db1\<lparr>lock_log := lk\<rparr>)) ([], db1\<lparr>lock_log := lk\<rparr>) = Inr (rs, d)"
    and db2: "stock_levels db2 = stock_levels d"
    using assms(6) v1 same
    by (auto simp: createReleasesForOrderLines_def found lock restore_line_def bind_result_Inr Let_def
        DefaultStockLocationStrategy_def save_movements_def)
  let ?locs = "getLocationsBasedOnAllocations (getAllStockLocations db) line q (db1\<lparr>lock_log := lk\<rparr>)"
  have locs: "?locs = map (\<lambda>(locationId, qty). (List.find (\<lambda>l. idsAreEqual (Some l) locationId) (getAllStockLocations db), qty))
       (spread_allocations q [] ms)"
    using allocs by (simp add: getLocationsBasedOnAllocations_def allocations_of_def)
  show ?thesis
  proof (cases "inventoryNotTracked db v")
    case True
    then show ?thesis using move_line_Inr [OF step] levels db2 by (simp add: tracked_iff)
  next
    case False
    then have d: "d = apply_locations release (productVariantId line) ?locs (db1\<lparr>lock_log := lk\<rparr>)"
      using move_line_Inr [OF step] by (simp add: tracked_iff)
    show ?thesis
    proof (cases ls)
      case Nil
      then show ?thesis using d db2 levels False ms locs by simp
    next
      case (Cons p ps)
      then obtain n where n: "0 < n" "n \<le> q" "ls = [(first_location (getAllStockLocations db), n)]"
        using ls False by auto
      show ?thesis
      proof (cases "getAllStockLocations db")
        case Nil
        then show ?thesis using d db2 levels False ms locs n by (simp add: first_location_def)
      next
        case (Cons l rest)
        then have "?locs = [(Some l, n)]"
          unfolding locs using ms n by (simp add: Cons first_location_def)
        then have "stock_levels db2 = stock_levels (updateStockAllocatedForLocation (productVariantId line) l (- n) db1)"
          using d db2 by (simp add: release_def allocated_lock_log)
        also have "\<dots> = stock_levels (updateStockAllocatedForLocation (productVariantId line) l (- n)
                       (updateStockAllocatedForLocation (productVariantId line) l n db))"
          by (rule allocated_levels_cong) (use levels False n(3) Cons in \<open>simp add: first_location_def\<close>)
        also have "\<dots> = stock_levels db"
          by (rule release_undoes_allocation [OF assms(1) n(1)])
        finally show ?thesis .
      qed
    qed
  qed
qed

end
