(* ===== verification/StockLedger.thy ===== *)
theory StockLedger
  imports StockSafety
begin

text \<open>
  Adjustments refine an update of the abstract stock map and leave a ledger that adds up; concrete
  tables on which the stock properties are evaluated; and two behaviours of the shipped strategies
  that the comments beside them do not promise: the multi-channel strategy allocates more than was
  ordered when it needs several locations, and no strategy allocates a soft-deleted variant.
\<close>

section \<open>Adjustments\<close>

definition set_stock :: "ID \<Rightarrow> ID \<times> int \<Rightarrow> (ID \<times> ID \<Rightarrow> (int \<times> int) option) \<Rightarrow> ID \<times> ID \<Rightarrow> (int \<times> int) option" where
  "set_stock v input m =
     m((v, fst input) \<mapsto> (snd input, case m (v, fst input) of None \<Rightarrow> 0 | Some (h, a) \<Rightarrow> a))"

definition onHand_at :: "stock_db \<Rightarrow> ID \<Rightarrow> ID \<Rightarrow> int" where
  "onHand_at db v loc = (case stock_at db (v, loc) of None \<Rightarrow> 0 | Some (h, a) \<Rightarrow> h)"

definition ledger :: "ID \<Rightarrow> stock_movement list \<Rightarrow> int" where
  "ledger loc ms = sum_list (map mv_quantity (filter (\<lambda>m. mv_locationId m = Some loc) ms))"

lemma ledger_append [simp]: "ledger loc (ms @ ms') = ledger loc ms + ledger loc ms'"
  by (simp add: ledger_def)

lemma stock_at_frame [frame_simps]:
  "stock_at (db\<lparr>lock_log := a\<rparr>) = stock_at db"
  "stock_at (db\<lparr>stock_movements := b\<rparr>) = stock_at db"
  "stock_at (db\<lparr>stock_events := c\<rparr>) = stock_at db"
  by (simp_all add: stock_at_def find_level_def fun_eq_iff)

lemma onHand_movements:
  "stock_movements (updateStockOnHandForLocation v l n d) = stock_movements d"
  by (auto simp: updateStockOnHandForLocation_def incrementStockLevel_def update_rows_def create_level_def
      Let_def split: option.split)

lemma getStockLevel_missing:
  "find_level v loc d = None \<Longrightarrow>
   snd (getStockLevel v loc d) = updateStockOnHandForLocation v loc 0 d \<and> stockOnHand (fst (getStockLevel v loc d)) = 0"
  by (simp add: getStockLevel_def updateStockOnHandForLocation_def create_level_def Let_def)

text \<open>The state of the loop over the inputs: the remembered figures are those of the table.\<close>

definition adjust_inv :: "ID \<Rightarrow> adjust_state \<Rightarrow> bool" where
  "adjust_inv v s \<longleftrightarrow>
     wf_stock (snd (snd s)) \<and>
     (\<forall>loc. map_get (fst s) loc = map_option fst (stock_at (snd (snd s)) (v, loc)))"

lemma adjust_location_step:
  assumes "adjust_inv v (m, as, d)" and step: "adjust_location v (loc, n) (m, as, d) = (m', as', d')"
  shows "adjust_inv v (m', as', d') \<and>
         stock_at d' = set_stock v (loc, n) (stock_at d) \<and>
         (\<exists>new. as' = as @ new \<and> stock_movements d' = stock_movements d @ new \<and>
            (\<forall>l. ledger l new = (if l = loc then n - onHand_at d v loc else 0)))"
proof -
  have wf: "wf_stock d" and get: "\<And>l. map_get m l = map_option fst (stock_at d (v, l))"
    using assms(1) by (auto simp: adjust_inv_def)
  define base where
    "base = (case map_get m loc of Some h \<Rightarrow> (m, d)
             | None \<Rightarrow> (map_set loc 0 m, updateStockOnHandForLocation v loc 0 d))"
  have missing: "find_level v loc d = None" if "map_get m loc = None"
    using that get [of loc] by (simp add: stock_at_def)
  have base: "wf_stock (snd base)" "stock_movements (snd base) = stock_movements d"
    "\<And>l. map_get (fst base) l = map_option fst (stock_at (snd base) (v, l))"
    "map_get (fst base) loc = Some (onHand_at d v loc)"
    "set_stock v (loc, n) (stock_at (snd base)) = set_stock v (loc, n) (stock_at d)"
    "onHand_at d v loc = n \<Longrightarrow> set_stock v (loc, n) (stock_at d) = stock_at (snd base)"
    using wf get missing
    by (auto simp: base_def wf_onHand onHand_movements stock_at_onHand map_get_set onHand_at_def set_stock_def
        fun_eq_iff split: option.splits)
  have unfolded: "adjust_location v (loc, n) (m, as, d) =
      (if onHand_at d v loc = n then (fst base, as, snd base)
       else let adj = \<lparr>mv_type = ADJUSTMENT, mv_productVariantId = v, mv_locationId = Some loc,
                       mv_quantity = n - onHand_at d v loc, mv_orderLineId = None\<rparr>;
                d2 = updateStockOnHandForLocation v loc (n - onHand_at d v loc)
                       ((snd base)\<lparr>stock_movements := stock_movements (snd base) @ [adj]\<rparr>)
            in (map_set loc n (fst base), as @ [adj], d2\<lparr>stock_events := stock_events d2 @ [StockMovementEvent [adj]]\<rparr>))"
    using base(4) getStockLevel_missing [OF missing]
    by (auto simp: adjust_location_def base_def Let_def split_beta split: option.splits)
  show ?thesis
  proof (cases "onHand_at d v loc = n")
    case True
    then have "m' = fst base" "as' = as" "d' = snd base" using step unfolded by auto
    then show ?thesis using base True by (auto simp: adjust_inv_def ledger_def)
  next
    case False
    define adj where "adj = \<lparr>mv_type = ADJUSTMENT, mv_productVariantId = v, mv_locationId = Some loc,
                       mv_quantity = n - onHand_at d v loc, mv_orderLineId = None\<rparr>"
    have wfa: "wf_stock ((snd base)\<lparr>stock_movements := stock_movements (snd base) @ [adj]\<rparr>)"
      using base(1) by (simp add: frame_simps)
    have m': "m' = map_set loc n (fst base)" and as': "as' = as @ [adj]"
      and d': "stock_at d' = stock_at (updateStockOnHandForLocation v loc (n - onHand_at d v loc)
                       ((snd base)\<lparr>stock_movements := stock_movements (snd base) @ [adj]\<rparr>))"
        "wf_stock d'" "stock_movements d' = stock_movements d @ [adj]"
      using step unfolded False base(2) wf_onHand [OF wfa]
      by (auto simp: Let_def adj_def frame_simps onHand_movements)
    obtain a where a: "stock_at (snd base) (v, loc) = Some (onHand_at d v loc, a)"
      using base(3) [of loc] base(4) by (cases "stock_at (snd base) (v, loc)") auto
    have at: "stock_at d' = set_stock v (loc, n) (stock_at (snd base))"
      unfolding d'(1) stock_at_onHand [OF wfa] by (simp add: frame_simps a set_stock_def)
    have "adjust_inv v (m', as', d')"
      using base(3) d'(2) by (auto simp: adjust_inv_def m' map_get_set at set_stock_def)
    moreover have "\<forall>l. ledger l [adj] = (if l = loc then n - onHand_at d v loc else 0)"
      by (simp add: ledger_def adj_def)
    ultimately show ?thesis
      using base(5) d'(3) at by (auto simp: as')
  qed
qed

lemma adjust_locations:
  assumes "adjust_inv v (m, as, d)" and "fold (adjust_location v) inputs (m, as, d) = (m', as', d')"
  shows "stock_at d' = fold (set_stock v) inputs (stock_at d) \<and>
         (\<exists>new. as' = as @ new \<and> stock_movements d' = stock_movements d @ new \<and>
            (\<forall>l. ledger l new = onHand_at d' v l - onHand_at d v l))"
  using assms
proof (induction inputs arbitrary: m as d)
  case (Cons i inputs)
  obtain loc n where i: "i = (loc, n)" by (cases i)
  obtain m1 as1 d1 where s1: "adjust_location v (loc, n) (m, as, d) = (m1, as1, d1)"
    by (cases "adjust_location v (loc, n) (m, as, d)")
  note step = adjust_location_step [OF Cons.prems(1) s1]
  have IH: "stock_at d' = fold (set_stock v) inputs (stock_at d1)"
    "\<exists>new. as' = as1 @ new \<and> stock_movements d' = stock_movements d1 @ new \<and>
            (\<forall>l. ledger l new = onHand_at d' v l - onHand_at d1 v l)"
    using Cons.IH [of m1 as1 d1] step Cons.prems(2) by (auto simp: i s1)
  obtain new where new: "as1 = as @ new" "stock_movements d1 = stock_movements d @ new"
    "\<forall>l. ledger l new = (if l = loc then n - onHand_at d v loc else 0)"
    using step by blast
  have "onHand_at d1 v l = (if l = loc then n else onHand_at d v l)" for l
    using step by (auto simp: onHand_at_def set_stock_def)
  then show ?case using IH new step by (fastforce simp: i)
qed (auto simp: ledger_def)

lemma map_get_levels_by_location:
  assumes "distinct (map level_locationId ls)"
  shows "map_get (fold (\<lambda>l. map_set (level_locationId l) (stockOnHand l)) ls m) loc =
           (case List.find (\<lambda>l. level_locationId l = loc) ls of None \<Rightarrow> map_get m loc | Some l \<Rightarrow> Some (stockOnHand l))"
  using assms
proof (induction ls arbitrary: m)
  case (Cons l ls)
  then show ?case
    by (auto simp: map_get_set find_None_all split: option.split dest!: find_Some_in)
qed simp

lemma locked_levels_start:
  assumes "wf_stock db"
  shows "adjust_inv v (levels_by_location (sort_key stock_level_id (levels_of v db)), [], db\<lparr>lock_log := lk\<rparr>)"
proof -
  let ?ls = "sort_key stock_level_id (levels_of v db)"
  have keys: "distinct (map level_key (stock_levels db))" using assms by (simp add: wf_stock_def wf_levels_def)
  have "inj_on level_locationId (set (levels_of v db))"
    using keys by (fastforce simp: inj_on_def levels_of_def level_key_def distinct_map)
  then have locs: "distinct (map level_locationId ?ls)"
    using keys by (auto simp: distinct_map levels_of_def)
  have "(case List.find (\<lambda>l. level_locationId l = loc) ?ls of None \<Rightarrow> None | Some l \<Rightarrow> Some (stockOnHand l))
        = map_option fst (stock_at db (v, loc)) \<and> map_get [] loc = (None :: int option)" for loc
  proof (cases "List.find (\<lambda>l. level_locationId l = loc) ?ls")
    case None
    then have "stock_at db (v, loc) = None"
      by (auto simp: stock_at_def find_level_def find_None_all find_None_iff levels_of_def)
    then show ?thesis using None by simp
  next
    case (Some l)
    then have "l \<in> set (stock_levels db)" "level_key l = (v, loc)"
      by (auto simp: levels_of_def level_key_def dest!: find_Some_in)
    then have "stock_at db (v, loc) = Some (stockOnHand l, stockAllocated l)"
      using stock_at_level [OF assms] by blast
    then show ?thesis using Some by simp
  qed
  then show ?thesis
    using assms
    by (simp add: adjust_inv_def frame_simps levels_by_location_def map_get_levels_by_location [OF locs]
        cong: option.case_cong)
qed

text \<open>
  C16: An adjustment sets what it is told to set. The table afterwards is the abstract stock map with
  \<^verbatim>\<open>stockOnHand\<close> set at each input location in turn (the last input for a location wins, a
  missing row counts as zero, nothing else changes), and the adjustments it records add up, at every
  location, to the difference between the new and the old figure.
\<close>

theorem adjustment_refines_stock_map:
  assumes "wf_stock db" and "adjustProductVariantStock v (Inr inputs) defaultLocation db = (adjs, db')"
  shows "stock_at db' = fold (set_stock v) inputs (stock_at db) \<and>
         stock_movements db' = stock_movements db @ adjs \<and>
         ledger loc adjs = onHand_at db' v loc - onHand_at db v loc"
proof -
  let ?start = "(levels_by_location (sort_key stock_level_id (levels_of v db)), [],
                 db\<lparr>lock_log := lock_log db @ [v]\<rparr>)"
  obtain m where "fold (adjust_location v) inputs ?start = (m, adjs, db')"
    using assms(2) by (auto simp: adjustProductVariantStock_def getLockedStockLevelsForVariant_def Let_def split: prod.splits)
  from adjust_locations [OF locked_levels_start [OF assms(1)] this]
  show ?thesis by (auto simp: frame_simps onHand_at_def)
qed

section \<open>Sample tables\<close>

text \<open>
  One channel with two locations; a tracked variant with three units at the first and ten at the
  second, and a deleted one; an order with a line of each.
\<close>

definition sample_level :: "ID \<Rightarrow> ID \<Rightarrow> ID \<Rightarrow> int \<Rightarrow> stock_level" where
  "sample_level i v loc n =
     \<lparr>stock_level_id = i, level_variantId = v, level_locationId = loc, stockOnHand = n, stockAllocated = 0\<rparr>"

definition sample_variant :: "ID \<Rightarrow> int option \<Rightarrow> product_variant" where
  "sample_variant i deleted =
     \<lparr>variant_id = i, trackInventory = Flag_INHERIT, useGlobalOutOfStockThreshold = True,
      outOfStockThreshold = 0, variant_deletedAt = deleted, variant_enabled = True, product_enabled = True,
      variant_taxCategoryId = 1, variant_channels = [1],
      productVariantPrices = [\<lparr>price_channelId = 1, price_currencyCode = ''USD'', price_value = 1000\<rparr>]\<rparr>"

definition sample_stock :: stock_db where
  "sample_stock =
     \<lparr>stock_levels = [sample_level 1 1 1 3, sample_level 2 1 2 10, sample_level 3 2 1 4],
      stock_movements = [], stock_locations = [(1, [1]), (2, [1])],
      variants = [sample_variant 1 None, sample_variant 2 (Some 9)],
      settings = \<lparr>global_trackInventory = True, global_outOfStockThreshold = 0\<rparr>,
      placed_lines = [(100, sample_line 1 1000 5), (100, sample_line 2 500 1)],
      next_level_id = 4, lock_log = [], stock_events = []\<rparr>"

definition input_of :: "ID \<Rightarrow> int \<Rightarrow> order_line_input" where
  "input_of i q = \<lparr>orderLineId = i, input_quantity = q\<rparr>"

lemma wf_sample_stock: "wf_stock sample_stock"
  by (simp add: sample_stock_def wf_stock_def wf_levels_def sample_level_def sample_variant_def level_key_def map_wf_def)

definition taken :: "(stock_movement list \<times> stock_db) result \<Rightarrow> (ID option \<times> int) list" where
  "taken r = (case r of Inl e \<Rightarrow> [] | Inr (ms, db) \<Rightarrow> map (\<lambda>m. (mv_locationId m, mv_quantity m)) ms)"

definition tables :: "stock_db \<Rightarrow> (stock_movement list \<times> stock_db) result \<Rightarrow> stock_db" where
  "tables db r = (case r of Inl e \<Rightarrow> db | Inr (ms, db') \<Rightarrow> db')"

section \<open>The stock properties on the sample tables\<close>

lemmas run_defs = sample_stock_def sample_level_def sample_variant_def input_of_def

lemma sample_variant_saleable:
  "getSaleableStockLevel DefaultStockLocationStrategy sample_ctx (sample_variant 1 None) False sample_stock = Inr (13, sample_stock)"
  by code_simp

theorem locks_ascending_witness:
  "\<exists>ids. lock_log (lockStockLevelsForVariants True [2, 1, 2] sample_stock) = ids \<and> sorted ids \<and> set ids = {1, 2}"
proof -
  have "distinct (map variant_id (variants sample_stock))" by code_simp
  from locks_ascending [OF this, of True "[2, 1, 2]"] show ?thesis by (auto simp: sample_stock_def)
qed

theorem stock_tables_stay_well_formed_witness:
  "wf_stock (tables sample_stock (createAllocationsForOrderLines DefaultStockLocationStrategy sample_ctx [input_of 1 5] sample_stock))"
  using stock_tables_stay_well_formed [OF wf_sample_stock, of DefaultStockLocationStrategy] wf_sample_stock
  by (auto simp: tables_def split: sum.split)

definition sample_allocated :: "stock_movement list \<times> stock_db" where
  "sample_allocated =
     (case createAllocationsForOrderLines DefaultStockLocationStrategy sample_ctx [input_of 1 50] sample_stock of
        Inr r \<Rightarrow> r | Inl e \<Rightarrow> ([], sample_stock))"

lemma sample_allocated_run:
  "createAllocationsForOrderLines DefaultStockLocationStrategy sample_ctx [input_of 1 50] sample_stock = Inr sample_allocated"
proof -
  have "case createAllocationsForOrderLines DefaultStockLocationStrategy sample_ctx [input_of 1 50] sample_stock of
          Inr r \<Rightarrow> True | Inl e \<Rightarrow> False"
    by code_simp
  then show ?thesis by (auto simp: sample_allocated_def split: sum.splits)
qed


definition sample_multi :: "stock_movement list \<times> stock_db" where
  "sample_multi =
     (case createAllocationsForOrderLines MultiChannelStockLocationStrategy sample_ctx [input_of 1 5] sample_stock of
        Inr r \<Rightarrow> r | Inl e \<Rightarrow> ([], sample_stock))"

lemma sample_multi_run:
  "createAllocationsForOrderLines MultiChannelStockLocationStrategy sample_ctx [input_of 1 5] sample_stock = Inr sample_multi"
proof -
  have "case createAllocationsForOrderLines MultiChannelStockLocationStrategy sample_ctx [input_of 1 5] sample_stock of
          Inr r \<Rightarrow> True | Inl e \<Rightarrow> False"
    by code_simp
  then show ?thesis by (auto simp: sample_multi_def split: sum.splits)
qed

theorem no_location_overdrawn_witness:
  "stock_at (snd sample_multi) (1, 1) = Some (3, 3) \<and>
   list_all (\<lambda>l. effectiveThreshold (snd sample_multi) (sample_variant 1 None) \<le> stockOnHand l - stockAllocated l)
     (levels_of 1 (snd sample_multi))"
proof
  show "stock_at (snd sample_multi) (1, 1) = Some (3, 3)" by code_simp
  have run: "createAllocationsForOrderLines MultiChannelStockLocationStrategy sample_ctx [input_of 1 5] sample_stock
               = Inr (fst sample_multi, snd sample_multi)"
    unfolding prod.collapse by (rule sample_multi_run)
  have v: "sample_variant 1 None \<in> set (variants sample_stock)" "variant_id (sample_variant 1 None) = 1"
    by (simp_all add: sample_stock_def sample_variant_def)
  have before_all: "list_all (\<lambda>l. effectiveThreshold sample_stock (sample_variant 1 None) \<le> stockOnHand l - stockAllocated l)
      (levels_of 1 sample_stock)"
    by code_simp
  show "list_all (\<lambda>l. effectiveThreshold (snd sample_multi) (sample_variant 1 None) \<le> stockOnHand l - stockAllocated l)
     (levels_of 1 (snd sample_multi))"
    using no_location_overdrawn [OF run wf_sample_stock v(1)] before_all by (simp add: list_all_iff v(2) del: One_nat_def)
qed

theorem allocate_release_roundtrip_witness:
  "\<exists>r. createReleasesForOrderLines DefaultStockLocationStrategy [input_of 1 50] (snd sample_allocated) = Inr r \<and>
       stock_levels (snd r) = stock_levels sample_stock"
proof -
  have "case createReleasesForOrderLines DefaultStockLocationStrategy [input_of 1 50] (snd sample_allocated) of
          Inr r \<Rightarrow> True | Inl e \<Rightarrow> False"
    by code_simp
  then obtain rs db2 where release:
    "createReleasesForOrderLines DefaultStockLocationStrategy [input_of 1 50] (snd sample_allocated) = Inr (rs, db2)"
    by (auto split: sum.splits)
  have lines: "distinct (map (\<lambda>ol. line_id (snd ol)) (placed_lines sample_stock))"
    "(100, sample_line 1 1000 5) \<in> set (placed_lines sample_stock)"
    "line_id (sample_line 1 1000 5) = 1"
    "allocations_of 1 sample_stock = []"
    by (simp_all add: sample_stock_def sample_line_def allocations_of_def)
  have "stock_levels db2 = stock_levels sample_stock"
    by (rule allocate_release_roundtrip
          [OF wf_sample_stock lines(1,2), of sample_ctx 50 "fst sample_allocated" "snd sample_allocated" rs])
      (use release sample_allocated_run lines in \<open>simp_all add: input_of_def\<close>)
  then show ?thesis using release by auto
qed

theorem locations_follow_allocations_witness:
  "summate (getLocationsBasedOnAllocations [1, 2] (sample_line 1 1000 5) 4 (snd sample_multi)) snd = 4"
proof -
  have "list_all (\<lambda>a. 0 \<le> mv_quantity a) (allocations_of 1 (snd sample_multi))"
    "sum_list (map mv_quantity (allocations_of 1 (snd sample_multi))) = 8"
    by code_simp+
  then show ?thesis
    using locations_follow_allocations [of "sample_line 1 1000 5" "snd sample_multi" 4 "[1, 2]"]
    by (simp add: list_all_iff sample_line_def)
qed

theorem adjustment_refines_stock_map_witness:
  "ledger 2 (fst (adjustProductVariantStock 1 (Inr [(2, 4), (2, 7)]) 1 sample_stock)) = -3"
proof -
  obtain adjs db' where run: "adjustProductVariantStock 1 (Inr [(2, 4), (2, 7)]) 1 sample_stock = (adjs, db')"
    by fastforce
  have old: "stock_at sample_stock (1, 2) = Some (10, 0)" by code_simp
  have "onHand_at db' 1 2 = 7" "onHand_at sample_stock 1 2 = 10"
    using adjustment_refines_stock_map [OF wf_sample_stock run] old by (auto simp: onHand_at_def set_stock_def)
  then show ?thesis
    using adjustment_refines_stock_map [OF wf_sample_stock run, of 2] run by simp
qed

section \<open>Where the strategies fall short\<close>

text \<open>
  The multi-channel strategy allocates too much when one location does not suffice: each further
  location is asked for the whole quantity, not for what is left. Of a line of five units with three
  at the first location, three and five are allocated, no shortfall is reported, and selling the five
  sells three and two and leaves three units at the second location allocated to no order; the sales
  it records are of five units at each location.
\<close>

theorem multi_channel_overallocates:
  "taken (Inr sample_multi) = [(Some 1, 3), (Some 2, 5)] \<and>
   (let sold = createSalesForOrder MultiChannelStockLocationStrategy [input_of 1 5] (snd sample_multi)
    in taken sold = [(Some 1, -5), (Some 2, -5)] \<and>
       stock_at (tables sample_stock sold) (1, 1) = Some (0, 0) \<and>
       stock_at (tables sample_stock sold) (1, 2) = Some (8, 3))"
  by code_simp

text \<open>
  A line whose variant has been soft-deleted cannot be allocated: the service loads the variant
  with its deleted rows included, but both strategies load it again without them, so the whole batch
  fails with an \<^verbatim>\<open>EntityNotFoundError\<close> and no line of the order is allocated.
\<close>

theorem deleted_variant_not_allocated:
  assumes "lineOrThrow (orderLineId i) db = Inr ol"
    and "List.find (\<lambda>v. variant_id v = productVariantId (snd ol)) (variants db) = Some v"
    and "variant_deletedAt v \<noteq> None"
    and "strategy \<in> {DefaultStockLocationStrategy, MultiChannelStockLocationStrategy}"
  shows "createAllocationsForOrderLines strategy ctx [i] db
           = Inl (EntityNotFoundError ''ProductVariant'' (productVariantId (snd ol)))"
proof -
  obtain lk where lock: "lockStockLevelsForVariants False [productVariantId (snd ol)] db = db\<lparr>lock_log := lk\<rparr>"
    using lock_levels_frame by blast
  have kept: "variantOrThrow True (productVariantId (snd ol)) db = Inr v"
    and lost: "variantOrThrow False (productVariantId (snd ol)) db
                 = Inl (EntityNotFoundError ''ProductVariant'' (productVariantId (snd ol)))"
    using assms(2,3) by (simp_all add: variantOrThrow_def)
  show ?thesis
    using assms(1,4) lock kept lost
    by (auto simp: createAllocationsForOrderLines_def allocate_line_def Let_def split_beta
        DefaultStockLocationStrategy_def MultiChannelStockLocationStrategy_def
        default_forAllocation_def multi_forAllocation_def)
qed

theorem deleted_variant_not_allocated_witness:
  "createAllocationsForOrderLines DefaultStockLocationStrategy sample_ctx [input_of 2 1] sample_stock
     = Inl (EntityNotFoundError ''ProductVariant'' 2)"
proof -
  have "lineOrThrow (orderLineId (input_of 2 1)) sample_stock = Inr (100, sample_line 2 500 1)"
    "List.find (\<lambda>v. variant_id v = productVariantId (snd (100, sample_line 2 500 1))) (variants sample_stock)
       = Some (sample_variant 2 (Some 9))"
    by (simp_all add: lineOrThrow_def run_defs sample_line_def)
  from deleted_variant_not_allocated [OF this, of DefaultStockLocationStrategy sample_ctx] show ?thesis
    by (simp add: sample_variant_def sample_line_def)
qed

end
