(* ===== verification/Payments.thy ===== *)
theory Payments
  imports OrderProcess
begin

text \<open>
  Payments and refunds: \<^verbatim>\<open>service/services/payment.service.ts\<close> and the parts of
  \<^verbatim>\<open>order.service.ts\<close> that add a payment to an order and refund one. The handlers of
  the payment methods and the refund destinations are functions in records, as the configuration
  holds them; a call to a payment gateway is the call of such a function, which may throw. The
  entities carry no metadata.
\<close>

section \<open>Payment methods\<close>

datatype eligibility = Eligible | Not_eligible "string option"

record create_payment_result =
  cp_amount :: int
  cp_state :: payment_state
  cp_transactionId :: "string option"
  cp_errorMessage :: "string option"

datatype settle_result = Settle_success | Settle_failure "payment_state option" "string option"

record create_refund_result =
  cr_state :: refund_state
  cr_transactionId :: "string option"

record refund_target_input =
  rt_amount :: int
  rt_paymentId :: "ID option"
  rt_destination :: "string option"

record refund_order_input =
  ri_lines :: "order_line_input list"
  ri_shipping :: "int option"
  ri_adjustment :: "int option"
  ri_paymentId :: ID
  ri_amount :: "int option"
  ri_reason :: "string option"
  ri_destination :: "string option"
  ri_targets :: "refund_target_input list"

text \<open>A method with its checker and handler, as \<^verbatim>\<open>getMethodAndOperations\<close> finds them.\<close>

record method_operations =
  op_check :: "(order \<Rightarrow> eligibility) option"
  op_createPayment :: "order \<Rightarrow> int \<Rightarrow> create_payment_result result"
  op_settlePayment :: "payment \<Rightarrow> settle_result result"
  op_cancelPayment :: "payment \<Rightarrow> settle_result option result"
  op_createRefund :: "refund_order_input \<Rightarrow> int \<Rightarrow> payment \<Rightarrow> create_refund_result option result"

record refund_destination =
  dest_code :: string
  dest_isAvailable :: "order \<Rightarrow> payment \<Rightarrow> bool"
  dest_createRefund :: "refund_order_input \<Rightarrow> int \<Rightarrow> payment \<Rightarrow> create_refund_result option result"

record payment_config =
  payment_methods :: "(string, method_operations) js_map"
  payment_handlers :: "payment_handler list"
  payment_processes :: "(payment_state, payment) fsm_process list"
  refund_processes :: "(refund_state, refund) fsm_process list"
  refundDestinations :: "refund_destination list"

definition getMethodAndOperations :: "payment_config \<Rightarrow> string \<Rightarrow> method_operations result" where
  "getMethodAndOperations cfg method =
     (case map_get (payment_methods cfg) method of
        None \<Rightarrow> Inl (UserInputError ''error.payment-method-not-found'')
      | Some ops \<Rightarrow> Inr ops)"

section \<open>Creating, settling and cancelling payments\<close>

datatype payment_outcome =
    PaymentCreated payment order
  | IneligiblePaymentMethodError "string option"
  | PaymentStateTransitionError vendure_error payment_state payment_state

text \<open>
  The state transition of a payment with its end callbacks; the machine keeps the state asked for.
  A payment is stored on its order.
\<close>

definition transition_payment :: "payment_config \<Rightarrow> payment \<Rightarrow> payment_state \<Rightarrow> payment result" where
  "transition_payment cfg p state =
     bind_result (paymentStateMachine_transition (payment_handlers cfg) (payment_processes cfg) p state)
       (\<lambda>(p', f). finalize (paymentStateMachine_config (payment_handlers cfg) (payment_processes cfg)) f p')"

definition add_payment :: "order \<Rightarrow> payment \<Rightarrow> order" where
  "add_payment ord p = ord\<lparr>payments := payments ord @ [p]\<rparr>"

definition createPayment :: "payment_config \<Rightarrow> ID \<Rightarrow> order \<Rightarrow> int \<Rightarrow> string \<Rightarrow> payment_outcome result" where
  "createPayment cfg newId ord amount method =
     bind_result (getMethodAndOperations cfg method) (\<lambda>ops.
       case (case op_check ops of None \<Rightarrow> Eligible | Some check \<Rightarrow> check ord) of
         Not_eligible message \<Rightarrow> Inr (IneligiblePaymentMethodError message)
       | Eligible \<Rightarrow>
           bind_result (op_createPayment ops ord amount) (\<lambda>res.
             let p = \<lparr>payment_id = newId, payment_method = method, payment_amount = cp_amount res,
                      payment_state = Payment_Created, payment_errorMessage = cp_errorMessage res,
                      payment_transactionId = cp_transactionId res, refunds = []\<rparr>
             in bind_result (transition_payment cfg p (cp_state res))
                  (\<lambda>p'. Inr (PaymentCreated p' (add_payment ord p')))))"

definition createManualPayment ::
  "payment_config \<Rightarrow> ID \<Rightarrow> order \<Rightarrow> int \<Rightarrow> string \<Rightarrow> string option \<Rightarrow> (payment \<times> order) result" where
  "createManualPayment cfg newId ord amount method transactionId =
     (let p = \<lparr>payment_id = newId, payment_method = method, payment_amount = amount,
               payment_state = Payment_Created, payment_errorMessage = None,
               payment_transactionId = transactionId, refunds = []\<rparr>
      in bind_result (transition_payment cfg p Payment_Settled) (\<lambda>p'. Inr (p', add_payment ord p')))"

definition save_payment :: "payment \<Rightarrow> order \<Rightarrow> order" where
  "save_payment p ord = ord\<lparr>payments := map (\<lambda>q. if payment_id q = payment_id p then p else q) (payments ord)\<rparr>"

definition transitionStateAndSave ::
  "payment_config \<Rightarrow> order \<Rightarrow> payment \<Rightarrow> payment_state \<Rightarrow> payment_state \<Rightarrow> payment_outcome result" where
  "transitionStateAndSave cfg ord p fromState toState =
     (if fromState = toState then Inr (PaymentCreated p (save_payment p ord))
      else
        case paymentStateMachine_transition (payment_handlers cfg) (payment_processes cfg) p toState of
          Inl e \<Rightarrow> Inr (PaymentStateTransitionError e fromState toState)
        | Inr (p', f) \<Rightarrow>
            bind_result (finalize (paymentStateMachine_config (payment_handlers cfg) (payment_processes cfg)) f p')
              (\<lambda>p''. Inr (PaymentCreated p'' (save_payment p'' ord))))"

definition getPaymentInChannelOrThrow :: "ID \<Rightarrow> ID \<Rightarrow> order \<Rightarrow> payment result" where
  "getPaymentInChannelOrThrow channelId paymentId ord =
     (case List.find (\<lambda>p. payment_id p = paymentId) (payments ord) of
        None \<Rightarrow> Inl (EntityNotFoundError ''Payment'' paymentId)
      | Some p \<Rightarrow>
          bind_result (assertOrderIsInChannel channelId (Some ord) ''Payment'' paymentId) (\<lambda>_. Inr p))"

definition after_settle :: "payment_state \<Rightarrow> settle_result \<Rightarrow> payment \<Rightarrow> payment_state \<times> payment" where
  "after_settle successState r p =
     (case r of
        Settle_success \<Rightarrow> (successState, p)
      | Settle_failure state message \<Rightarrow>
          ((case state of None \<Rightarrow> Payment_Error | Some s \<Rightarrow> s), p\<lparr>payment_errorMessage := message\<rparr>))"

definition settlePayment :: "payment_config \<Rightarrow> ID \<Rightarrow> ID \<Rightarrow> order \<Rightarrow> payment_outcome result" where
  "settlePayment cfg channelId paymentId ord =
     bind_result (getPaymentInChannelOrThrow channelId paymentId ord) (\<lambda>p.
       bind_result (getMethodAndOperations cfg (payment_method p)) (\<lambda>ops.
         bind_result (op_settlePayment ops p) (\<lambda>r.
           let (toState, p') = after_settle Payment_Settled r p
           in transitionStateAndSave cfg ord p' (payment_state p) toState)))"

definition cancelPayment :: "payment_config \<Rightarrow> ID \<Rightarrow> ID \<Rightarrow> order \<Rightarrow> payment_outcome result" where
  "cancelPayment cfg channelId paymentId ord =
     bind_result (getPaymentInChannelOrThrow channelId paymentId ord) (\<lambda>p.
       bind_result (getMethodAndOperations cfg (payment_method p)) (\<lambda>ops.
         bind_result (op_cancelPayment ops p) (\<lambda>r.
           let (toState, p') = after_settle Payment_Cancelled (case r of None \<Rightarrow> Settle_success | Some s \<Rightarrow> s) p
           in transitionStateAndSave cfg ord p' (payment_state p) toState)))"

definition payment_transitionToState ::
  "payment_config \<Rightarrow> ID \<Rightarrow> ID \<Rightarrow> payment_state \<Rightarrow> order \<Rightarrow> payment_outcome result" where
  "payment_transitionToState cfg channelId paymentId state ord =
     (if state = Payment_Settled then settlePayment cfg channelId paymentId ord
      else if state = Payment_Cancelled then cancelPayment cfg channelId paymentId ord
      else bind_result (getPaymentInChannelOrThrow channelId paymentId ord)
             (\<lambda>p. transitionStateAndSave cfg ord p (payment_state p) state))"

section \<open>Adding a payment to an order\<close>

text \<open>
  Coupon codes are validated again before an order is paid; the validation and the repricing are
  arguments. A removed code that makes the order dearer stops the payment.
\<close>

datatype add_payment_outcome =
    PaymentAdded order
  | OrderPaymentStateError
  | CouponRemovedDuringCheckoutError "string list" int int
  | PaymentRefused payment_outcome
  | PaymentFailedError string order
  | PaymentDeclinedError string order

definition canAddPaymentToOrder :: "(order_state, order_data) fsm_process list \<Rightarrow> order \<Rightarrow> bool result" where
  "canAddPaymentToOrder processes ord =
     (if order_state ord = ArrangingPayment then Inr True
      else
        bind_result (canTransitionTo (allTransitions processes) (order_state ord) PaymentAuthorized) (\<lambda>a.
          bind_result (canTransitionTo (allTransitions processes) (order_state ord) PaymentSettled) (\<lambda>s.
            Inr (a \<and> s))))"

definition revalidateCouponCodesForOrder ::
  "(string \<Rightarrow> order \<Rightarrow> bool) \<Rightarrow> (order \<Rightarrow> order result) \<Rightarrow> order \<Rightarrow> (string list \<times> order) result" where
  "revalidateCouponCodesForOrder valid reprice ord =
     (let (removed, ord') =
            fold (\<lambda>code (removed, d).
                if valid code d then (removed, d)
                else (removed @ [code], d\<lparr>couponCodes := filter (\<lambda>c. c \<noteq> code) (couponCodes d)\<rparr>))
              (couponCodes ord) ([], ord)
      in if removed = [] then Inr (removed, ord')
         else bind_result (reprice ord') (\<lambda>ord''. Inr (removed, ord'')))"

definition addPaymentToOrder ::
  "payment_config \<Rightarrow> (order_state, order_data) fsm_process list \<Rightarrow> (string \<Rightarrow> order \<Rightarrow> bool) \<Rightarrow> (order \<Rightarrow> order result) \<Rightarrow>
     ID \<Rightarrow> string \<Rightarrow> order \<Rightarrow> add_payment_outcome result" where
  "addPaymentToOrder cfg processes valid reprice newId method ord =
     bind_result (canAddPaymentToOrder processes ord) (\<lambda>ok.
       if \<not> ok then Inr OrderPaymentStateError
       else bind_result (revalidateCouponCodesForOrder valid reprice ord) (\<lambda>(removed, fresh).
         if removed \<noteq> [] \<and> totalWithTax ord < totalWithTax fresh
         then Inr (CouponRemovedDuringCheckoutError removed (totalWithTax ord) (totalWithTax fresh))
         else
           let amountToPay = totalWithTax fresh - totalCoveredByPayments fresh None
           in bind_result (createPayment cfg newId fresh amountToPay method) (\<lambda>outcome.
                case outcome of
                  PaymentCreated p ord' \<Rightarrow>
                    Inr (if payment_state p = Payment_Error
                         then PaymentFailedError (nullish (payment_errorMessage p) []) ord'
                         else if payment_state p = Payment_Declined
                         then PaymentDeclinedError (nullish (payment_errorMessage p) []) ord'
                         else PaymentAdded ord')
                | refused \<Rightarrow> Inr (PaymentRefused refused))))"

section \<open>Refunds: which payment gives how much\<close>

definition getPaymentRefundTotal :: "payment \<Rightarrow> int" where
  "getPaymentRefundTotal p = summate (filter (\<lambda>r. refund_state r \<noteq> Refund_Failed) (refunds p)) refund_total"

definition remainingCapacityOf :: "(ID, int) js_map \<Rightarrow> payment \<Rightarrow> int" where
  "remainingCapacityOf allocatedTo p =
     payment_amount p - getPaymentRefundTotal p -
       nullish (map_get allocatedTo (payment_id p)) 0"

record resolved_target =
  tgt_payment :: payment
  tgt_amount :: int
  tgt_strategy :: "refund_destination option"

datatype refund_error =
    RefundAmountError int
  | RefundDestinationError string
  | RefundStateTransitionError vendure_error refund_state refund_state
  | RefundIncompleteError "refund list" nat vendure_error

definition resolveRefundDestinationStrategy ::
  "payment_config \<Rightarrow> string option \<Rightarrow> refund_error + refund_destination option" where
  "resolveRefundDestinationStrategy cfg destination =
     (case destination of
        None \<Rightarrow> Inr None
      | Some code \<Rightarrow>
          if code = '''' \<or> code = ''default'' then Inr None
          else (case List.find (\<lambda>s. dest_code s = code) (refundDestinations cfg) of
                  None \<Rightarrow> Inl (RefundDestinationError code)
                | Some s \<Rightarrow> Inr (Some s)))"

definition assertPaymentIsSettled :: "payment \<Rightarrow> unit result" where
  "assertPaymentIsSettled p =
     (if payment_state p \<noteq> Payment_Settled then Inl (UserInputError ''error.refund-payment-not-settled'') else Inr ())"

definition find_payment :: "ID \<Rightarrow> order \<Rightarrow> payment option" where
  "find_payment i ord = List.find (\<lambda>p. idsAreEqual (Some (payment_id p)) (Some i)) (payments ord)"

text \<open>Explicit targets are checked one by one against what earlier ones left.\<close>

fun resolve_explicit ::
  "payment_config \<Rightarrow> refund_order_input \<Rightarrow> order \<Rightarrow> (ID, int) js_map \<Rightarrow> refund_target_input list \<Rightarrow>
     (refund_error + resolved_target list) result" where
  "resolve_explicit cfg input ord allocatedTo [] = Inr (Inr [])"
| "resolve_explicit cfg input ord allocatedTo (t # ts) =
     (if rt_amount t \<le> 0 then Inl (UserInputError ''error.refund-target-amount-must-be-positive'')
      else
        (let paymentId = nullish (rt_paymentId t) (ri_paymentId input)
         in case find_payment paymentId ord of
              None \<Rightarrow> Inl (UserInputError ''error.refund-payment-not-on-order'')
            | Some p \<Rightarrow>
                bind_result (assertPaymentIsSettled p) (\<lambda>_.
                  case resolveRefundDestinationStrategy cfg (rt_destination t) of
                    Inl e \<Rightarrow> Inr (Inl e)
                  | Inr strategy \<Rightarrow>
                      if (case strategy of None \<Rightarrow> False | Some s \<Rightarrow> \<not> dest_isAvailable s ord p)
                      then Inr (Inl (RefundDestinationError (case strategy of None \<Rightarrow> '''' | Some s \<Rightarrow> dest_code s)))
                      else
                        let capacity = remainingCapacityOf allocatedTo p
                        in if capacity < rt_amount t then Inr (Inl (RefundAmountError capacity))
                           else bind_result
                                  (resolve_explicit cfg input ord
                                     (map_set (payment_id p)
                                        (nullish (map_get allocatedTo (payment_id p)) 0 + rt_amount t)
                                        allocatedTo) ts)
                                  (\<lambda>rest. Inr (case rest of
                                      Inl e \<Rightarrow> Inl e
                                    | Inr targets \<Rightarrow>
                                        Inr (\<lparr>tgt_payment = p, tgt_amount = rt_amount t, tgt_strategy = strategy\<rparr> # targets))))))"

text \<open>
  Without targets the total is drawn from the selected payment first, then from the others. The loop
  runs at least once and ends because each round uses up a payment.
\<close>

definition next_payment :: "payment list \<Rightarrow> ID \<Rightarrow> ID list \<Rightarrow> payment option" where
  "next_payment refundablePayments selectedId usedPaymentIds =
     (case (if usedPaymentIds = []
            then List.find (\<lambda>p. idsAreEqual (Some (payment_id p)) (Some selectedId)) refundablePayments else None) of
        Some p \<Rightarrow> Some p
      | None \<Rightarrow> List.find (\<lambda>p. payment_id p \<notin> set usedPaymentIds) refundablePayments)"

lemma next_payment_unused:
  "next_payment ps i used = Some p \<Longrightarrow> p \<in> set ps \<and> payment_id p \<notin> set used"
  by (auto simp: next_payment_def split: option.splits if_splits dest: find_Some_in)

lemma unused_mono:
  "length (filter (\<lambda>p. payment_id p \<noteq> i \<and> payment_id p \<notin> set used) ps)
     \<le> length (filter (\<lambda>p. payment_id p \<notin> set used) ps)"
  by (induction ps) auto

lemma unused_decreases:
  "x \<in> set ps \<Longrightarrow> payment_id x \<notin> set used \<Longrightarrow>
   length (filter (\<lambda>p. payment_id p \<noteq> payment_id x \<and> payment_id p \<notin> set used) ps)
     < length (filter (\<lambda>p. payment_id p \<notin> set used) ps)"
  by (induction ps) (auto intro: le_imp_less_Suc unused_mono)

function draw_refund ::
  "payment list \<Rightarrow> ID \<Rightarrow> refund_destination option \<Rightarrow> int \<Rightarrow> int \<Rightarrow> ID list \<Rightarrow> resolved_target list \<Rightarrow>
     resolved_target list result" where
  "draw_refund refundablePayments selectedId strategy tot refundOutstanding usedPaymentIds targets =
     (case next_payment refundablePayments selectedId usedPaymentIds of
        None \<Rightarrow> Inl (InternalServerError ''Could not find a Payment to refund'')
      | Some p \<Rightarrow>
          (let constrainedTotal = min (remainingCapacityOf [] p) refundOutstanding;
               targets' = targets @ [\<lparr>tgt_payment = p, tgt_amount = constrainedTotal, tgt_strategy = strategy\<rparr>];
               outstanding' = tot - summate targets' tgt_amount
           in if 0 < outstanding'
              then draw_refund refundablePayments selectedId strategy tot outstanding'
                     (usedPaymentIds @ [payment_id p]) targets'
              else Inr targets'))"
  by pat_completeness auto

termination
proof (relation "measure (\<lambda>(ps, i, strategy, tot, outstanding, used, targets).
    length (filter (\<lambda>p. payment_id p \<notin> set used) ps))", goal_cases)
  case (2 ps i strategy tot outstanding used targets p)
  then show ?case
    using next_payment_unused [OF 2(1)] unused_decreases [of p ps used]
    by (simp add: conj_commute)
qed simp

declare draw_refund.simps [simp del]

definition is_refundable :: "refund_destination option \<Rightarrow> order \<Rightarrow> payment \<Rightarrow> bool" where
  "is_refundable strategy ord p \<longleftrightarrow>
     getPaymentRefundTotal p < payment_amount p \<and>
     (case strategy of None \<Rightarrow> True
      | Some s \<Rightarrow> payment_state p = Payment_Settled \<and> dest_isAvailable s ord p)"

definition check_strategy :: "refund_destination option \<Rightarrow> ID \<Rightarrow> order \<Rightarrow> (refund_error + unit) result" where
  "check_strategy strategy selectedId ord =
     (case strategy of
        None \<Rightarrow> Inr (Inr ())
      | Some s \<Rightarrow>
          (case find_payment selectedId ord of
             None \<Rightarrow> Inl (InternalServerError ''Could not find a Payment to refund'')
           | Some p \<Rightarrow>
               bind_result (assertPaymentIsSettled p) (\<lambda>_.
                 Inr (if \<not> dest_isAvailable s ord p then Inl (RefundDestinationError (dest_code s)) else Inr ()))))"

definition check_amount :: "int option \<Rightarrow> ID \<Rightarrow> order \<Rightarrow> (refund_error + unit) result" where
  "check_amount amount selectedId ord =
     (case amount of
        None \<Rightarrow> Inr (Inr ())
      | Some n \<Rightarrow>
          if n = 0 then Inr (Inr ())
          else (case find_payment selectedId ord of
                  None \<Rightarrow> Inl (InternalServerError ''Could not find a Payment to refund'')
                | Some p \<Rightarrow>
                    let refundableAmount = remainingCapacityOf [] p
                    in Inr (if refundableAmount < n then Inl (RefundAmountError refundableAmount) else Inr ())))"

definition draw_on_payments ::
  "order \<Rightarrow> ID \<Rightarrow> refund_destination option \<Rightarrow> int \<Rightarrow> (refund_error + resolved_target list) result" where
  "draw_on_payments ord selectedId strategy tot =
     (let refundablePayments = filter (is_refundable strategy ord) (payments ord);
          refundMax = summate refundablePayments (remainingCapacityOf [])
      in if strategy \<noteq> None \<and> refundMax < tot then Inr (Inl (RefundAmountError refundMax))
         else bind_result (draw_refund refundablePayments selectedId strategy tot (min tot refundMax) [] [])
                (\<lambda>targets. Inr (Inr targets)))"

definition resolveRefundTargets ::
  "payment_config \<Rightarrow> refund_order_input \<Rightarrow> order \<Rightarrow> ID \<Rightarrow> int \<Rightarrow> (refund_error + resolved_target list) result" where
  "resolveRefundTargets cfg input ord selectedId tot =
     (if ri_targets input \<noteq> [] then resolve_explicit cfg input ord [] (ri_targets input)
      else
        case resolveRefundDestinationStrategy cfg (ri_destination input) of
          Inl e \<Rightarrow> Inr (Inl e)
        | Inr strategy \<Rightarrow>
            bind_result (check_amount (ri_amount input) selectedId ord) (\<lambda>a.
              case a of Inl e \<Rightarrow> Inr (Inl e)
              | Inr _ \<Rightarrow>
                  bind_result (check_strategy strategy selectedId ord) (\<lambda>c.
                    case c of Inl e \<Rightarrow> Inr (Inl e)
                    | Inr _ \<Rightarrow> draw_on_payments ord selectedId strategy tot)))"

section \<open>Refunds: executing the targets\<close>

definition legacy_refund_amount :: "refund_order_input \<Rightarrow> order_line list \<Rightarrow> int \<times> int" where
  "legacy_refund_amount input orderLines =
     (let refundOrderLinesTotal =
            foldl (\<lambda>tot line.
                case List.find (\<lambda>l. idsAreEqual (Some (line_id l)) (Some (orderLineId line))) orderLines of
                  None \<Rightarrow> tot
                | Some orderLine \<Rightarrow>
                    if 0 < orderPlacedQuantity orderLine
                    then tot + input_quantity line * proratedUnitPriceWithTax orderLine else tot)
              0 (ri_lines input)
      in (refundOrderLinesTotal + nullish (ri_shipping input) 0
            + nullish (ri_adjustment input) 0,
          refundOrderLinesTotal))"

definition getRefundAmount :: "refund_order_input \<Rightarrow> order_line list \<Rightarrow> int \<times> int" where
  "getRefundAmount input orderLines =
     (case ri_amount input of
        None \<Rightarrow> legacy_refund_amount input orderLines
      | Some n \<Rightarrow> if n \<noteq> 0 then (n, 0) else legacy_refund_amount input orderLines)"

definition createRefundViaPaymentMethodHandler ::
  "payment_config \<Rightarrow> refund_order_input \<Rightarrow> int \<Rightarrow> payment \<Rightarrow> create_refund_result option result" where
  "createRefundViaPaymentMethodHandler cfg input amount p =
     (case getMethodAndOperations cfg (payment_method p) of
        Inl e \<Rightarrow> Inr None
      | Inr ops \<Rightarrow> op_createRefund ops input amount p)"

definition transitionRefundState :: "payment_config \<Rightarrow> refund \<Rightarrow> refund_state \<Rightarrow> (refund \<times> refund_error option) result" where
  "transitionRefundState cfg r toState =
     (case refundStateMachine_transition (refund_processes cfg) r toState of
        Inl e \<Rightarrow> Inr (r, Some (RefundStateTransitionError e (refund_state r) toState))
      | Inr (r', f) \<Rightarrow>
          bind_result (finalize (process_config (refund_processes cfg) ''error.cannot-transition-refund-from-to'') f r')
            (\<lambda>r''. Inr (r'', None)))"

text \<open>
  A target that throws has kept its refund, still pending, if it was the end of the transition that
  threw: the transition is a transaction of its own.
\<close>

definition executeRefundTarget ::
  "payment_config \<Rightarrow> refund_order_input \<Rightarrow> int \<Rightarrow> ID \<Rightarrow> nat \<Rightarrow> resolved_target \<Rightarrow>
     vendure_error \<times> refund list + refund \<times> refund_error option" where
  "executeRefundTarget cfg input orderLinesTotal newId index target =
     (let p = tgt_payment target
      in case (case tgt_strategy target of
                 Some s \<Rightarrow> dest_createRefund s input (tgt_amount target) p
               | None \<Rightarrow> createRefundViaPaymentMethodHandler cfg input (tgt_amount target) p) of
           Inl e \<Rightarrow> Inl (e, [])
         | Inr res \<Rightarrow>
             let r = \<lparr>refund_id = newId, refund_items = orderLinesTotal,
                      refund_shipping = nullish (ri_shipping input) 0,
                      refund_adjustment = nullish (ri_adjustment input) 0,
                      refund_total = tgt_amount target, refund_method = payment_method p,
                      refund_reason = ri_reason input, refund_state = Refund_Pending,
                      refund_transactionId = (case res of None \<Rightarrow> None
                        | Some c \<Rightarrow> Some (nullish (cr_transactionId c) [])),
                      refund_lines = (if index = 0 then ri_lines input else []),
                      refund_paymentId = payment_id p\<rparr>
             in case res of
                  None \<Rightarrow> Inr (r, None)
                | Some c \<Rightarrow>
                    (case transitionRefundState cfg r (cr_state c) of
                       Inl e \<Rightarrow> Inl (e, [r])
                     | Inr moved \<Rightarrow> Inr moved))"

text \<open>
  The refunds of a call are created in order. An error of a later explicit target is an incomplete
  refund that keeps the earlier ones; without explicit targets it is thrown, and the transaction undone.
\<close>

datatype create_refund_outcome = RefundCreated refund | RefundRefused refund_error

fun execute_targets ::
  "payment_config \<Rightarrow> refund_order_input \<Rightarrow> int \<Rightarrow> ID \<Rightarrow> bool \<Rightarrow> nat \<Rightarrow> refund list \<Rightarrow> resolved_target list \<Rightarrow>
     (create_refund_outcome \<times> refund list) result" where
  "execute_targets cfg input orderLinesTotal newId useTargets i createdRefunds [] =
     (case createdRefunds of
        [] \<Rightarrow> Inl (JsError ''undefined'')
      | r # rs \<Rightarrow> Inr (RefundCreated r, createdRefunds))"
| "execute_targets cfg input orderLinesTotal newId useTargets i createdRefunds (t # ts) =
     (case executeRefundTarget cfg input orderLinesTotal (newId + i) i t of
        Inl (e, kept) \<Rightarrow>
          if \<not> useTargets \<or> createdRefunds = [] then Inl e
          else Inr (RefundRefused (RefundIncompleteError createdRefunds i e), createdRefunds @ kept)
      | Inr (r, transitionError) \<Rightarrow>
          (let created = createdRefunds @ [r]
           in case transitionError of
                None \<Rightarrow> execute_targets cfg input orderLinesTotal newId useTargets (Suc i) created ts
              | Some err \<Rightarrow>
                  if \<not> useTargets \<or> i = 0 then Inr (RefundRefused err, created)
                  else Inr (RefundRefused (RefundIncompleteError created i
                             (case err of RefundStateTransitionError e a b \<Rightarrow> e | _ \<Rightarrow> JsError [])), created)))"

definition save_refunds :: "refund list \<Rightarrow> order \<Rightarrow> order" where
  "save_refunds rs ord =
     ord\<lparr>payments := map (\<lambda>p. p\<lparr>refunds := refunds p @ filter (\<lambda>r. refund_paymentId r = payment_id p) rs\<rparr>)
                       (payments ord)\<rparr>"

definition createRefund ::
  "payment_config \<Rightarrow> refund_order_input \<Rightarrow> order \<Rightarrow> ID \<Rightarrow> ID \<Rightarrow> (create_refund_outcome \<times> order) result" where
  "createRefund cfg input ord selectedId newId =
     (let useTargets = (ri_targets input \<noteq> []);
          (tot, orderLinesTotal) = (if useTargets then (summate (ri_targets input) rt_amount, 0)
                                    else getRefundAmount input (order_lines ord))
      in bind_result (resolveRefundTargets cfg input ord selectedId tot) (\<lambda>resolved.
           case resolved of
             Inl e \<Rightarrow> Inr (RefundRefused e, ord)
           | Inr targets \<Rightarrow>
               bind_result (execute_targets cfg input orderLinesTotal newId useTargets 0 [] targets)
                 (\<lambda>(outcome, rs). Inr (outcome, save_refunds rs ord))))"

section \<open>OrderService.refundOrder\<close>

datatype refund_order_outcome =
    NothingToRefundError
  | MultipleOrderError
  | PaymentOrderMismatchError
  | RefundOrderStateError order_state
  | RefundResult create_refund_outcome

definition nothing_to_refund :: "refund_order_input \<Rightarrow> bool" where
  "nothing_to_refund input \<longleftrightarrow>
     (ri_lines input = [] \<or> summate (ri_lines input) input_quantity = 0) \<and>
     ri_shipping input = Some 0 \<and> (ri_amount input = None \<or> ri_amount input = Some 0) \<and> ri_targets input = []"

text \<open>\<open>found\<close> is what the repository returns for the lines of the input.\<close>

definition refundOrder ::
  "payment_config \<Rightarrow> ID \<Rightarrow> (order_line \<times> order) list \<Rightarrow> refund_order_input \<Rightarrow> order \<Rightarrow> ID \<Rightarrow>
     (refund_order_outcome \<times> order) result" where
  "refundOrder cfg channelId found input ord newId =
     (if nothing_to_refund input then Inr (NothingToRefundError, ord)
      else
        bind_result (getOrdersFromLines channelId (ri_lines input) found) (\<lambda>orders.
          if 1 < length orders then Inr (MultipleOrderError, ord)
          else bind_result (getPaymentInChannelOrThrow channelId (ri_paymentId input) ord) (\<lambda>p.
            if orders \<noteq> [] \<and> order_id (hd orders) \<noteq> order_id ord then Inr (PaymentOrderMismatchError, ord)
            else if order_state ord \<in> {AddingItems, ArrangingPayment, PaymentAuthorized}
            then Inr (RefundOrderStateError (order_state ord), ord)
            else bind_result (createRefund cfg input ord (payment_id p) newId)
                   (\<lambda>(outcome, ord'). Inr (RefundResult outcome, ord')))))"

end
