(* ===== verification/RefundSafety.thy ===== *)
theory RefundSafety
  imports Payments
begin

text \<open>
  What the refund code promises: the parts of a refund add up to its total, no payment gives more
  than is left of it, a total that cannot be met is an error before any money moves, and creating a
  refund keeps every payment's refunds within its amount. A payment added to an order covers it.
\<close>

section \<open>Drawing on payments\<close>

abbreviation capacity :: "payment \<Rightarrow> int" where
  "capacity p \<equiv> payment_amount p - getPaymentRefundTotal p"

abbreviation target_id :: "resolved_target \<Rightarrow> ID" where
  "target_id t \<equiv> payment_id (tgt_payment t)"

lemma remainingCapacity_none [simp]: "remainingCapacityOf [] p = capacity p"
  by (simp add: remainingCapacityOf_def nullish_def)

definition total_of :: "resolved_target list \<Rightarrow> int" where
  "total_of ts = sum_list (map tgt_amount ts)"

lemma total_of_simps [simp]:
  "total_of [] = 0" "total_of (t # ts) = tgt_amount t + total_of ts" "total_of (ts @ us) = total_of ts + total_of us"
  by (simp_all add: total_of_def)

lemma summate_total [simp]: "summate ts tgt_amount = total_of ts"
  by (simp add: total_simps total_of_def)

text \<open>What holds of the targets drawn so far.\<close>

definition drawn_ok :: "payment list \<Rightarrow> ID list \<Rightarrow> resolved_target list \<Rightarrow> bool" where
  "drawn_ok ps used ts \<longleftrightarrow>
     used = map target_id ts \<and> distinct used \<and>
     (\<forall>t \<in> set ts. tgt_payment t \<in> set ps \<and> tgt_amount t \<le> capacity (tgt_payment t))"

lemma drawn_ok_step:
  assumes "drawn_ok ps used ts" and "next_payment ps i used = Some p"
  shows "drawn_ok ps (used @ [payment_id p])
           (ts @ [\<lparr>tgt_payment = p, tgt_amount = min (capacity p) out, tgt_strategy = strategy\<rparr>])"
  using assms next_payment_unused [OF assms(2)] by (auto simp: drawn_ok_def)

lemma draw_refund_step:
  assumes "next_payment ps i used = Some p"
    and "t = \<lparr>tgt_payment = p, tgt_amount = min (capacity p) out, tgt_strategy = strategy\<rparr>"
  shows "draw_refund ps i strategy tot out used ts =
           (if 0 < tot - total_of (ts @ [t])
            then draw_refund ps i strategy tot (tot - total_of (ts @ [t])) (used @ [payment_id p]) (ts @ [t])
            else Inr (ts @ [t]))"
  by (subst draw_refund.simps) (simp add: assms Let_def del: total_of_simps)

lemma draw_refund_result:
  assumes "draw_refund ps i strategy tot out used ts = Inr ts'"
    and "drawn_ok ps used ts" and "\<forall>p \<in> set ps. 0 < capacity p"
    and "out \<le> tot - total_of ts" and "0 \<le> out \<or> (ts = [] \<and> out = tot)" and "\<forall>t \<in> set ts. 0 \<le> tgt_amount t"
  shows "drawn_ok ps (map target_id ts') ts' \<and> total_of ts' = tot \<and>
         ((\<forall>t \<in> set ts'. 0 \<le> tgt_amount t) \<or> length ts' = 1)"
  using assms
proof (induction ps i strategy tot out used ts rule: draw_refund.induct)
  case (1 ps i strategy tot out used ts)
  obtain p where p: "next_payment ps i used = Some p"
    using "1.prems"(1) by (subst (asm) draw_refund.simps) (auto split: option.splits)
  define t where "t = \<lparr>tgt_payment = p, tgt_amount = min (capacity p) out, tgt_strategy = strategy\<rparr>"
  have cap: "0 < capacity p" using next_payment_unused [OF p] "1.prems"(3) by blast
  have ok: "drawn_ok ps (used @ [payment_id p]) (ts @ [t])"
    unfolding t_def by (rule drawn_ok_step [OF "1.prems"(2) p])
  have res: "(if 0 < tot - total_of (ts @ [t])
               then draw_refund ps i strategy tot (tot - total_of (ts @ [t])) (used @ [payment_id p]) (ts @ [t])
               else Inr (ts @ [t])) = Inr ts'"
    using "1.prems"(1) draw_refund_step [OF p t_def] by simp
  show ?case
  proof (cases "0 < tot - total_of (ts @ [t])")
    case True
    then have "0 \<le> out" using "1.prems"(5) cap by (auto simp: t_def)
    then have nonneg: "\<forall>t \<in> set (ts @ [t]). 0 \<le> tgt_amount t" using "1.prems"(6) cap by (simp add: t_def)
    show ?thesis
      by (rule "1.IH" [OF p refl refl refl]) (use True res ok nonneg "1.prems"(3) in \<open>auto simp: t_def\<close>)
  next
    case False
    then have ts': "ts' = ts @ [t]" using res by simp
    have "total_of ts' = tot" using False "1.prems"(4) by (simp add: ts' t_def)
    moreover have "(\<forall>t \<in> set ts'. 0 \<le> tgt_amount t) \<or> length ts' = 1"
      using "1.prems"(5,6) cap by (auto simp: ts' t_def)
    moreover have "drawn_ok ps (map target_id ts') ts'"
    proof -
      have "used @ [payment_id p] = map target_id ts'" using ok by (simp add: drawn_ok_def ts')
      then show ?thesis using ok by (simp add: ts')
    qed
    ultimately show ?thesis by blast
  qed
qed

lemma next_payment_exists:
  "p \<in> set ps \<Longrightarrow> payment_id p \<notin> set used \<Longrightarrow> \<exists>q. next_payment ps i used = Some q"
  using find_None_all [of "\<lambda>p. payment_id p \<notin> set used" ps]
  by (cases "List.find (\<lambda>p. payment_id p \<notin> set used) ps") (auto simp: next_payment_def split: option.split)

lemma draw_refund_succeeds:
  assumes "drawn_ok ps used ts" and "\<forall>p \<in> set ps. 0 < capacity p" and "distinct (map payment_id ps)"
    and "\<forall>t \<in> set ts. tgt_amount t = capacity (tgt_payment t)"
    and "out = tot - total_of ts" and "tot \<le> sum_list (map capacity ps)"
    and "0 < out \<or> (ts = [] \<and> ps \<noteq> [])"
  shows "\<exists>ts'. draw_refund ps i strategy tot out used ts = Inr ts'"
  using assms
proof (induction ps i strategy tot out used ts rule: draw_refund.induct)
  case (1 ps i strategy tot out used ts)
  have used: "used = map target_id ts" using "1.prems"(1) by (simp add: drawn_ok_def)
  have total_used: "total_of ts = sum_list (map capacity (filter (\<lambda>p. payment_id p \<in> set used) ps))"
  proof -
    have "total_of ts = sum_list (map capacity (map tgt_payment ts))"
      using "1.prems"(4) by (simp add: total_of_def comp_def cong: map_cong)
    also have "\<dots> = sum capacity (set (map tgt_payment ts))"
      using "1.prems"(1)
      by (subst sum_list_distinct_conv_sum_set) (auto simp: drawn_ok_def distinct_map inj_on_def)
    also have "set (map tgt_payment ts) = set (filter (\<lambda>p. payment_id p \<in> set used) ps)"
      using "1.prems"(1,3) by (fastforce simp: drawn_ok_def distinct_map inj_on_def)
    also have "sum capacity \<dots> = sum_list (map capacity (filter (\<lambda>p. payment_id p \<in> set used) ps))"
      using "1.prems"(3) by (subst sum_list_distinct_conv_sum_set) (auto simp: distinct_map)
    finally show ?thesis .
  qed
  have "\<exists>p \<in> set ps. payment_id p \<notin> set used"
  proof (rule ccontr)
    assume "\<not> ?thesis"
    then have "filter (\<lambda>p. payment_id p \<in> set used) ps = ps" by simp
    then show False using total_used "1.prems"(5-7) used by (cases ps) auto
  qed
  then obtain p where p: "next_payment ps i used = Some p"
    using next_payment_exists by blast
  define t where "t = \<lparr>tgt_payment = p, tgt_amount = min (capacity p) out, tgt_strategy = strategy\<rparr>"
  have ok: "drawn_ok ps (used @ [payment_id p]) (ts @ [t])"
    unfolding t_def by (rule drawn_ok_step [OF "1.prems"(1) p])
  show ?case
  proof (cases "0 < tot - total_of (ts @ [t])")
    case True
    then have full: "tgt_amount t = capacity p" using "1.prems"(5) by (auto simp: t_def min_def split: if_splits)
    have "\<exists>ts'. draw_refund ps i strategy tot (tot - total_of (ts @ [t])) (used @ [payment_id p]) (ts @ [t]) = Inr ts'"
      using "1.IH" [OF p refl refl refl] True ok full "1.prems"(2-4,6) by (simp add: t_def)
    then show ?thesis using True draw_refund_step [OF p t_def] by simp
  next
    case False
    then show ?thesis using draw_refund_step [OF p t_def] by simp
  qed
qed

lemma draw_refund_needs:
  assumes "draw_refund ps i strategy tot out [] [] = Inr ts" and "\<forall>p \<in> set ps. 0 < capacity p"
    and "out \<le> tot" and "0 \<le> out \<or> out = tot" and "distinct (map payment_id ps)"
  shows "tot \<le> sum_list (map capacity ps) \<and> ps \<noteq> []"
proof -
  have ok: "drawn_ok ps (map target_id ts) ts" and tot: "total_of ts = tot" and len: "(\<forall>t \<in> set ts. 0 \<le> tgt_amount t) \<or> length ts = 1"
    using draw_refund_result [OF assms(1) _ assms(2)] assms(3,4) by (auto simp: drawn_ok_def)
  have "total_of ts \<le> sum_list (map capacity (map tgt_payment ts))"
    using ok by (auto simp: total_of_def drawn_ok_def comp_def intro!: sum_list_mono)
  also have "\<dots> = sum capacity (set (map tgt_payment ts))"
    using ok by (subst sum_list_distinct_conv_sum_set) (auto simp: drawn_ok_def distinct_map inj_on_def)
  also have "\<dots> \<le> sum capacity (set ps)"
    using ok assms(2) by (intro sum_mono2) (auto simp: drawn_ok_def less_imp_le)
  also have "\<dots> = sum_list (map capacity ps)"
    using assms(5) by (subst sum_list_distinct_conv_sum_set) (auto simp: distinct_map)
  finally have "tot \<le> sum_list (map capacity ps)" by (simp add: tot)
  moreover have "ps \<noteq> []"
  proof
    assume "ps = []"
    then show False using assms(1) by (simp add: draw_refund.simps next_payment_def)
  qed
  ultimately show ?thesis by blast
qed

lemma refundable_capacity: "p \<in> set (filter (is_refundable strategy ord) ps) \<Longrightarrow> 0 < capacity p"
  by (simp add: is_refundable_def)

lemma refundMax_nonneg: "0 \<le> summate (filter (is_refundable strategy ord) ps) (remainingCapacityOf [])"
  using refundable_capacity by (force simp: total_simps intro!: sum_list_nonneg_map)


section \<open>Explicit targets\<close>

definition drawn_on :: "ID \<Rightarrow> resolved_target list \<Rightarrow> int" where
  "drawn_on i ts = total_of (filter (\<lambda>t. target_id t = i) ts)"

lemma drawn_on_simps [simp]:
  "drawn_on i [] = 0"
  "drawn_on i (t # ts) = (if target_id t = i then tgt_amount t else 0) + drawn_on i ts"
  by (simp_all add: drawn_on_def)

lemma find_payment_Some: "find_payment i ord = Some p \<Longrightarrow> p \<in> set (payments ord) \<and> payment_id p = i"
  by (auto simp: find_payment_def dest: find_Some_in)

lemma resolve_explicit_result:
  assumes "resolve_explicit cfg input ord allocatedTo ins = Inr (Inr ts)"
    and "distinct (map payment_id (payments ord))"
  shows "map tgt_amount ts = map rt_amount ins \<and>
         (\<forall>t \<in> set ts. 0 < tgt_amount t \<and> payment_state (tgt_payment t) = Payment_Settled \<and> tgt_payment t \<in> set (payments ord)) \<and>
         (\<forall>p \<in> set (payments ord). (\<exists>t \<in> set ts. target_id t = payment_id p) \<longrightarrow>
            drawn_on (payment_id p) ts \<le> remainingCapacityOf allocatedTo p)"
  using assms(1)
proof (induction ins arbitrary: allocatedTo ts)
  case Nil
  then show ?case by simp
next
  case (Cons i ins)
  let ?id = "nullish (rt_paymentId i) (ri_paymentId input)"
  obtain p where p: "find_payment ?id ord = Some p" "0 < rt_amount i"
    using Cons.prems by (auto simp: Let_def split: option.splits if_splits)
  let ?alloc = "map_set (payment_id p)
        (nullish (map_get allocatedTo (payment_id p)) 0 + rt_amount i) allocatedTo"
  obtain strategy rest where settled: "payment_state p = Payment_Settled"
    and cap: "rt_amount i \<le> remainingCapacityOf allocatedTo p"
    and rest: "resolve_explicit cfg input ord ?alloc ins = Inr (Inr rest)"
    and ts: "ts = \<lparr>tgt_payment = p, tgt_amount = rt_amount i, tgt_strategy = strategy\<rparr> # rest"
    using Cons.prems p
    by (auto simp: Let_def bind_result_Inr assertPaymentIsSettled_def case_sum_Inr
        split: option.splits if_splits sum.splits)
  note IH = Cons.IH [OF rest]
  have p_in: "p \<in> set (payments ord)" using find_payment_Some [OF p(1)] by simp
  have after: "remainingCapacityOf ?alloc q = remainingCapacityOf allocatedTo q - (if payment_id q = payment_id p then rt_amount i else 0)" for q
    by (simp add: remainingCapacityOf_def map_get_set nullish_def)
  have same: "q = p" if "q \<in> set (payments ord)" "payment_id q = payment_id p" for q
    using assms(2) that p_in by (metis distinct_map inj_onD)
  have none: "drawn_on j us = 0" if "\<forall>t \<in> set us. target_id t \<noteq> j" for j us
    using that by (induction us) auto
  show ?case
  proof (intro conjI ballI impI)
    show "map tgt_amount ts = map rt_amount (i # ins)" using IH by (simp add: ts)
  next
    fix t assume "t \<in> set ts"
    then show "0 < tgt_amount t" "payment_state (tgt_payment t) = Payment_Settled" "tgt_payment t \<in> set (payments ord)"
      using IH p(2) settled p_in by (auto simp: ts)
  next
    fix q assume q: "q \<in> set (payments ord)" "\<exists>t \<in> set ts. target_id t = payment_id q"
    show "drawn_on (payment_id q) ts \<le> remainingCapacityOf allocatedTo q"
    proof (cases "\<exists>t \<in> set rest. target_id t = payment_id q")
      case True
      then have "drawn_on (payment_id q) rest \<le> remainingCapacityOf ?alloc q" using IH q(1) by blast
      then show ?thesis by (auto simp: ts after)
    next
      case False
      then have "payment_id q = payment_id p" using q(2) by (auto simp: ts)
      then show ?thesis using False none [of rest "payment_id q"] cap same [OF q(1)] by (auto simp: ts)
    qed
  qed
qed

section \<open>All ways to resolve a refund\<close>

text \<open>Either all amounts are nonnegative or there is just one; no payment is overdrawn.\<close>

definition targets_ok :: "order \<Rightarrow> resolved_target list \<Rightarrow> bool" where
  "targets_ok ord ts \<longleftrightarrow>
     ((\<forall>t \<in> set ts. 0 \<le> tgt_amount t) \<or> length ts = 1) \<and>
     (\<forall>p \<in> set (payments ord). (\<exists>t \<in> set ts. target_id t = payment_id p) \<longrightarrow>
        drawn_on (payment_id p) ts \<le> capacity p)"

lemma drawn_once:
  "distinct (map target_id ts) \<Longrightarrow> t \<in> set ts \<Longrightarrow> drawn_on (target_id t) ts = tgt_amount t"
proof (induction ts)
  case (Cons u ts)
  have none: "drawn_on j us = 0" if "\<forall>t \<in> set us. target_id t \<noteq> j" for j us
    using that by (induction us) auto
  show ?case using Cons none [of ts "target_id u"] by (fastforce simp: image_iff)
qed simp

lemma resolved_targets_ok:
  assumes "resolveRefundTargets cfg input ord selectedId tot = Inr (Inr ts)"
    and "distinct (map payment_id (payments ord))"
    and "ri_targets input \<noteq> [] \<Longrightarrow> tot = summate (ri_targets input) rt_amount"
  shows "total_of ts = tot \<and> targets_ok ord ts"
proof (cases "ri_targets input = []")
  case False
  then have run: "resolve_explicit cfg input ord [] (ri_targets input) = Inr (Inr ts)"
    using assms(1) by (simp add: resolveRefundTargets_def)
  note r = resolve_explicit_result [OF run assms(2)]
  have "total_of ts = tot" using r assms(3) False by (simp add: total_of_def total_simps)
  moreover have "targets_ok ord ts" using r by (auto simp: targets_ok_def less_imp_le)
  ultimately show ?thesis by blast
next
  case True
  then obtain strategy where "draw_on_payments ord selectedId strategy tot = Inr (Inr ts)"
    using assms(1) by (auto simp: resolveRefundTargets_def bind_result_Inr not_Inl_unit split: sum.splits)
  then obtain out where
    run: "draw_refund (filter (is_refundable strategy ord) (payments ord)) selectedId strategy tot out [] [] = Inr ts"
    and out: "out = min tot (summate (filter (is_refundable strategy ord) (payments ord)) (remainingCapacityOf []))"
    by (auto simp: draw_on_payments_def Let_def bind_result_Inr split: if_splits)
  have res: "drawn_ok (filter (is_refundable strategy ord) (payments ord)) (map target_id ts) ts \<and> total_of ts = tot \<and>
         ((\<forall>t \<in> set ts. 0 \<le> tgt_amount t) \<or> length ts = 1)"
    by (rule draw_refund_result [OF run])
      (use refundMax_nonneg refundable_capacity in \<open>auto simp: drawn_ok_def out min_def\<close>)
  have "drawn_on (payment_id p) ts \<le> capacity p"
    if p: "p \<in> set (payments ord)" and t: "t \<in> set ts" "target_id t = payment_id p" for p t
  proof -
    have "tgt_payment t = p"
      using res p t assms(2) by (auto simp: drawn_ok_def distinct_map inj_on_def)
    then show ?thesis using res t drawn_once [of ts t] by (auto simp: drawn_ok_def)
  qed
  then show ?thesis using res by (auto simp: targets_ok_def)
qed

section \<open>Executing the targets\<close>

text \<open>With the default refund process a transition changes the state of a refund and nothing else.\<close>

lemma default_refund_starts: "run_starts [defaultRefundProcess] a b r = Inr (Start_void, r)"
  by (simp add: defaultRefundProcess_def)

lemma default_refund_transition:
  assumes "refundStateMachine_transition [defaultRefundProcess] r s = Inr (r', f)"
  shows "r' = r\<lparr>refund_state := s\<rparr>"
  using assms
  by (auto simp: refundStateMachine_transition_def bind_result_Inr transitionTo_def process_config_def
      default_refund_starts fsm_error_def Let_def simp del: run_starts.simps split: option.splits if_splits)

lemma default_refund_finalize:
  "finalize (process_config [defaultRefundProcess] m) f r = Inr r' \<Longrightarrow> r' = r"
  by (cases f) (auto simp: finalize_def process_config_def defaultRefundProcess_def)

lemma transitionRefundState_default:
  assumes "refund_processes cfg = [defaultRefundProcess]" and "transitionRefundState cfg r s = Inr (r', e)"
  shows "refund_total r' = refund_total r \<and> refund_paymentId r' = refund_paymentId r"
  using assms(2) default_refund_transition default_refund_finalize
  by (fastforce simp: transitionRefundState_def assms(1) bind_result_Inr split: sum.splits)

abbreviation refund_key :: "refund \<Rightarrow> ID \<times> int" where
  "refund_key r \<equiv> (refund_paymentId r, refund_total r)"

abbreviation target_key :: "resolved_target \<Rightarrow> ID \<times> int" where
  "target_key t \<equiv> (target_id t, tgt_amount t)"

lemma executeRefundTarget_default:
  assumes "refund_processes cfg = [defaultRefundProcess]"
  shows "executeRefundTarget cfg input lt i k t = Inr (r, e) \<Longrightarrow> refund_key r = target_key t"
    and "executeRefundTarget cfg input lt i k t = Inl (err, kept) \<Longrightarrow> kept = [] \<or> map refund_key kept = [target_key t]"
  using transitionRefundState_default [OF assms]
  by (fastforce simp: executeRefundTarget_def Let_def split: option.splits sum.splits)+

lemma execute_targets_refunds:
  assumes "refund_processes cfg = [defaultRefundProcess]"
    and "execute_targets cfg input lt u k i created ts = Inr (outcome, rs)"
  shows "\<exists>n. map refund_key rs = map refund_key created @ map target_key (take n ts)"
  using assms
proof (induction cfg input lt u k i created ts rule: execute_targets.induct)
  case (1 cfg input lt u k i created)
  then show ?case by (auto split: list.splits)
next
  case (2 cfg input lt u k i created t ts)
  show ?case
  proof (cases "executeRefundTarget cfg input lt (u + i) i t")
    case (Inl x)
    obtain e kept where x: "x = (e, kept)" by (cases x)
    have rs: "rs = created @ kept" using 2(3) Inl x by (auto split: if_splits)
    from executeRefundTarget_default(2) [OF 2(2) Inl [unfolded x]] show ?thesis
    proof
      assume "kept = []"
      then show ?thesis using rs by (intro exI [of _ 0]) simp
    next
      assume "map refund_key kept = [target_key t]"
      then show ?thesis using rs by (intro exI [of _ 1]) simp
    qed
  next
    case (Inr x)
    obtain r err where x: "x = (r, err)" by (cases x)
    have key: "refund_key r = target_key t"
      using executeRefundTarget_default(1) [OF 2(2)] Inr x by auto
    show ?thesis
    proof (cases err)
      case None
      then obtain n where "map refund_key rs = map refund_key (created @ [r]) @ map target_key (take n ts)"
        using 2(1) [OF Inr x [symmetric] refl None 2(2)] 2(3) Inr x by auto
      then have "map refund_key rs = map refund_key created @ map target_key (take (Suc n) (t # ts))"
        using key by simp
      then show ?thesis by blast
    next
      case (Some e)
      then have "rs = created @ [r]" using 2(3) Inr x by (auto simp: Let_def split: if_splits)
      then show ?thesis using key by (intro exI [of _ 1]) simp
    qed
  qed
qed

section \<open>No payment is refunded beyond its amount\<close>

definition active_refunds :: "ID \<Rightarrow> refund list \<Rightarrow> int" where
  "active_refunds i rs =
     sum_list (map refund_total (filter (\<lambda>r. refund_paymentId r = i \<and> refund_state r \<noteq> Refund_Failed) rs))"

lemma active_refunds_simps [simp]:
  "active_refunds i [] = 0"
  "active_refunds i (r # rs) =
     (if refund_paymentId r = i \<and> refund_state r \<noteq> Refund_Failed then refund_total r else 0) + active_refunds i rs"
  by (simp_all add: active_refunds_def)

text \<open>The refunds of a prefix of the targets take at most what the targets take.\<close>

lemma active_le_drawn:
  "map refund_key rs = map target_key (take n ts) \<Longrightarrow> \<forall>t \<in> set ts. 0 \<le> tgt_amount t \<Longrightarrow>
   active_refunds i rs \<le> drawn_on i ts"
proof (induction ts arbitrary: rs n)
  case (Cons t ts)
  show ?case
  proof (cases n)
    case 0
    have "0 \<le> drawn_on i us" if "\<forall>t \<in> set us. 0 \<le> tgt_amount t" for us
      using that by (induction us) auto
    then show ?thesis using Cons.prems 0 by fastforce
  next
    case (Suc m)
    then obtain r rs' where rs: "rs = r # rs'" using Cons.prems by (cases rs) auto
    have "active_refunds i rs' \<le> drawn_on i ts" using Cons.prems Suc rs by (intro Cons.IH) auto
    then show ?thesis using Cons.prems Suc rs by auto
  qed
qed simp

lemma active_none:
  "map refund_key rs = map target_key (take n ts) \<Longrightarrow> \<forall>t \<in> set ts. target_id t \<noteq> i \<Longrightarrow> active_refunds i rs = 0"
proof (induction rs arbitrary: n ts)
  case (Cons r rs)
  then obtain t us m where ts: "ts = t # us" "n = Suc m" by (cases ts; cases n) auto
  then have "active_refunds i rs = 0" using Cons by (intro Cons.IH [of m us]) auto
  then show ?case using Cons.prems ts by auto
qed simp

lemma targets_ok_active:
  assumes ok: "targets_ok ord ts" and keys: "map refund_key rs = map target_key (take n ts)"
    and p: "p \<in> set (payments ord)" and room: "0 \<le> capacity p"
  shows "active_refunds (payment_id p) rs \<le> capacity p"
proof (cases "\<exists>t \<in> set ts. target_id t = payment_id p")
  case False
  then show ?thesis using active_none [OF keys, of "payment_id p"] room by auto
next
  case True
  then have cap: "drawn_on (payment_id p) ts \<le> capacity p" using ok p by (auto simp: targets_ok_def)
  show ?thesis
  proof (cases "\<forall>t \<in> set ts. 0 \<le> tgt_amount t")
    case True
    then show ?thesis using active_le_drawn [OF keys True, of "payment_id p"] cap by simp
  next
    case False
    then obtain t where ts: "ts = [t]" using ok by (auto simp: targets_ok_def length_Suc_conv)
    then show ?thesis using keys cap room by (cases n; cases rs) (auto split: if_splits)
  qed
qed

lemma refund_total_of_saved:
  "getPaymentRefundTotal (p\<lparr>refunds := refunds p @ filter (\<lambda>r. refund_paymentId r = i) rs\<rparr>) =
     getPaymentRefundTotal p + active_refunds i rs"
  by (simp add: getPaymentRefundTotal_def active_refunds_def total_simps conj_commute)

text \<open>No payment of the order has refunds, failed ones apart, beyond its amount.\<close>

definition refunds_covered :: "order \<Rightarrow> bool" where
  "refunds_covered ord = list_all (\<lambda>p. getPaymentRefundTotal p \<le> payment_amount p) (payments ord)"

lemma createRefund_covered:
  assumes "refund_processes cfg = [defaultRefundProcess]" and "distinct (map payment_id (payments ord))"
    and "createRefund cfg input ord selectedId newId = Inr (outcome, ord')" and "refunds_covered ord"
  shows "refunds_covered ord'"
proof (cases "ord' = ord")
  case False
  then obtain tot lt ts rs where
    tot: "ri_targets input \<noteq> [] \<Longrightarrow> tot = summate (ri_targets input) rt_amount"
    and ts: "resolveRefundTargets cfg input ord selectedId tot = Inr (Inr ts)"
    and run: "execute_targets cfg input lt newId (ri_targets input \<noteq> []) 0 [] ts = Inr (outcome, rs)"
    and ord': "ord' = save_refunds rs ord"
    using assms(3) by (auto simp: createRefund_def bind_result_Inr Let_def not_Inl_iff split: prod.splits sum.splits if_splits)
  obtain n where keys: "map refund_key rs = map target_key (take n ts)"
    using execute_targets_refunds [OF assms(1) run] by auto
  note ok = conjunct2 [OF resolved_targets_ok [OF ts assms(2) tot]]
  show ?thesis
    using targets_ok_active [OF ok keys] assms(4)
    by (fastforce simp: refunds_covered_def list_all_iff ord' save_refunds_def refund_total_of_saved)
qed (simp add: assms(4))

section \<open>Refunding an order\<close>

text \<open>
  C5: Whatever a refund asks for (lines, an amount, explicit targets, a destination) and however far
  it gets (created, refused, incomplete after some of its targets), with the default refund process
  no payment of the order ends with more refunded than was paid by it, given that this held before.
\<close>

theorem refund_within_payments:
  assumes "refund_processes cfg = [defaultRefundProcess]" and "distinct (map payment_id (payments ord))"
    and "refundOrder cfg channelId found input ord newId = Inr (outcome, ord')"
    and "list_all (\<lambda>p. getPaymentRefundTotal p \<le> payment_amount p) (payments ord)"
  shows "list_all (\<lambda>p. getPaymentRefundTotal p \<le> payment_amount p) (payments ord')"
proof -
  have "refunds_covered ord" using assms(4) by (simp add: refunds_covered_def)
  then have "refunds_covered ord'"
    using assms(3) createRefund_covered [OF assms(1,2)]
    by (auto simp: refundOrder_def bind_result_Inr split: if_splits prod.splits)
  then show ?thesis by (simp add: refunds_covered_def)
qed

text \<open>
  C31: The parts of a refund add up. Once the targets of a refund are resolved, whether they were
  given or drawn from the payments, their amounts sum to the total of the refund and no payment
  gives more than it has left. Explicit targets are positive and on settled payments of the order.
\<close>

theorem refund_targets_add_up:
  assumes "distinct (map payment_id (payments ord))"
    and "resolveRefundTargets cfg input ord selectedId tot = Inr (Inr ts)"
    and "ri_targets input \<noteq> [] \<Longrightarrow> tot = summate (ri_targets input) rt_amount"
  shows "sum_list (map tgt_amount ts) = tot \<and>
    (\<forall>p \<in> set (payments ord). (\<exists>t \<in> set ts. payment_id (tgt_payment t) = payment_id p) \<longrightarrow>
       sum_list (map tgt_amount (filter (\<lambda>t. payment_id (tgt_payment t) = payment_id p) ts))
         \<le> payment_amount p - getPaymentRefundTotal p) \<and>
    (ri_targets input \<noteq> [] \<longrightarrow>
       (\<forall>t \<in> set ts. 0 < tgt_amount t \<and> payment_state (tgt_payment t) = Payment_Settled \<and> tgt_payment t \<in> set (payments ord)))"
proof (intro conjI impI)
  note ok = resolved_targets_ok [OF assms(2,1,3)]
  show "sum_list (map tgt_amount ts) = tot" using ok by (simp add: total_of_def)
  show "\<forall>p \<in> set (payments ord). (\<exists>t \<in> set ts. payment_id (tgt_payment t) = payment_id p) \<longrightarrow>
       sum_list (map tgt_amount (filter (\<lambda>t. payment_id (tgt_payment t) = payment_id p) ts))
         \<le> payment_amount p - getPaymentRefundTotal p"
    using ok by (simp add: targets_ok_def drawn_on_def total_of_def)
next
  assume t: "ri_targets input \<noteq> []"
  then have "resolve_explicit cfg input ord [] (ri_targets input) = Inr (Inr ts)"
    using assms(2) by (simp add: resolveRefundTargets_def)
  from resolve_explicit_result [OF this assms(1)]
  show "\<forall>t \<in> set ts. 0 < tgt_amount t \<and> payment_state (tgt_payment t) = Payment_Settled \<and> tgt_payment t \<in> set (payments ord)"
    by blast
qed

section \<open>Adding a payment\<close>

lemma payment_transition_default:
  assumes "payment_processes cfg = [defaultPaymentProcess]" and "transition_payment cfg p s = Inr p'"
  shows "p' = p\<lparr>payment_state := s\<rparr>"
proof -
  have starts: "run_starts [defaultPaymentProcess] a b r = Inr (Start_void, r)" for a b r
    by (simp add: defaultPaymentProcess_def)
  have ends: "run_ends [defaultPaymentProcess] a b r = Inr r" for a b r
    by (simp add: defaultPaymentProcess_def)
  show ?thesis using assms
    by (cases "ask_handlers (payment_handlers cfg) (payment_state p) s p")
      (auto simp: transition_payment_def paymentStateMachine_transition_def bind_result_Inr transitionTo_def
        paymentStateMachine_config_def process_config_def starts ends fsm_error_def finalize_def
        simp del: run_starts.simps run_ends.simps
        split: option.splits if_splits)
qed

lemma covered_by_added:
  "totalCoveredByPayments (add_payment ord p) None =
     totalCoveredByPayments ord None +
       (if counts_as_payment None p then payment_amount p - \<bar>settledRefundTotal p\<bar> else 0)"
  by (simp add: totalCoveredByPayments_def add_payment_def foldl_plus_sum_list)

text \<open>
  C6: A payment pays exactly what is missing. If the payment methods' handlers charge the amount
  they are asked for, then after a payment is accepted the payments of the order (with earlier partial
  payments and the refunds settled on them counted) cover its total to the penny, neither less nor
  more, even if coupon codes were removed and the order repriced on the way.
\<close>

theorem payment_completes_order:
  assumes "payment_processes cfg = [defaultPaymentProcess]"
    and "\<And>m ops d a r. map_get (payment_methods cfg) m = Some ops \<Longrightarrow>
           op_createPayment ops d a = Inr r \<Longrightarrow> cp_amount r = a"
    and "addPaymentToOrder cfg processes valid reprice newId method ord = Inr (PaymentAdded ord')"
  shows "\<exists>fresh p. ord' = add_payment fresh p \<and> payment_state p \<noteq> Payment_Error \<and> payment_state p \<noteq> Payment_Declined \<and>
    (payment_state p \<noteq> Payment_Cancelled \<longrightarrow> totalCoveredByPayments ord' None = totalWithTax ord')"
proof -
  obtain fresh outcome where
    run: "createPayment cfg newId fresh (totalWithTax fresh - totalCoveredByPayments fresh None) method = Inr outcome"
    and added: "(case outcome of
         PaymentCreated p d \<Rightarrow>
           Inr (if payment_state p = Payment_Error then PaymentFailedError (nullish (payment_errorMessage p) []) d
                else if payment_state p = Payment_Declined then PaymentDeclinedError (nullish (payment_errorMessage p) []) d
                else PaymentAdded d)
       | refused \<Rightarrow> Inr (PaymentRefused refused)) = (Inr (PaymentAdded ord') :: add_payment_outcome result)"
    using assms(3)
    by (auto simp: addPaymentToOrder_def bind_result_Inr Let_def split: prod.splits if_splits)
  from added obtain p where outcome: "outcome = PaymentCreated p ord'"
    and state: "payment_state p \<noteq> Payment_Error" "payment_state p \<noteq> Payment_Declined"
    by (cases outcome) (auto split: if_splits)
  note created = run [unfolded outcome]
  let ?due = "totalWithTax fresh - totalCoveredByPayments fresh None"
  let ?new = "\<lambda>res. \<lparr>payment_id = newId, payment_method = method, payment_amount = cp_amount res,
      payment_state = Payment_Created, payment_errorMessage = cp_errorMessage res,
      payment_transactionId = cp_transactionId res, refunds = []\<rparr>"
  obtain ops res where ops: "map_get (payment_methods cfg) method = Some ops"
    and res: "op_createPayment ops fresh ?due = Inr res"
    and moved: "transition_payment cfg (?new res) (cp_state res) = Inr p" and ord': "ord' = add_payment fresh p"
    using created
    by (auto simp: createPayment_def bind_result_Inr getMethodAndOperations_def Let_def
        split: option.splits eligibility.splits)
  have p: "p = (?new res)\<lparr>payment_state := cp_state res\<rparr>" by (rule payment_transition_default [OF assms(1) moved])
  have amount: "cp_amount res = ?due" by (rule assms(2) [OF ops res])
  have "totalWithTax ord' = totalWithTax fresh" by (simp add: ord' add_payment_def totalWithTax_def)
  moreover have "settledRefundTotal p = 0" by (simp add: p settledRefundTotal_def total_simps)
  ultimately have "payment_state p \<noteq> Payment_Cancelled \<Longrightarrow> totalCoveredByPayments ord' None = totalWithTax ord'"
    using state amount by (simp add: ord' covered_by_added counts_as_payment_def) (simp add: p)
  then show ?thesis using ord' state by blast
qed

section \<open>A sample order with two payments\<close>

definition sample_card :: "refund_state \<Rightarrow> method_operations" where
  "sample_card s =
     \<lparr>op_check = None,
      op_createPayment = (\<lambda>ord amount. Inr \<lparr>cp_amount = amount, cp_state = Payment_Settled,
        cp_transactionId = Some ''t1'', cp_errorMessage = None\<rparr>),
      op_settlePayment = (\<lambda>p. Inr Settle_success), op_cancelPayment = (\<lambda>p. Inr None),
      op_createRefund = (\<lambda>input amount p. Inr (Some \<lparr>cr_state = s, cr_transactionId = None\<rparr>))\<rparr>"

definition sample_payment_cfg :: "refund_state \<Rightarrow> payment_config" where
  "sample_payment_cfg s =
     \<lparr>payment_methods = [(''card'', sample_card s)], payment_handlers = [],
      payment_processes = [defaultPaymentProcess], refund_processes = [defaultRefundProcess],
      refundDestinations = []\<rparr>"

definition sample_payment :: "ID \<Rightarrow> int \<Rightarrow> payment_state \<Rightarrow> payment" where
  "sample_payment i n s =
     \<lparr>payment_id = i, payment_method = ''card'', payment_amount = n, payment_state = s,
      payment_errorMessage = None, payment_transactionId = None, refunds = []\<rparr>"

definition sample_paid :: "payment_state \<Rightarrow> order" where
  "sample_paid s =
     (sample_order [])\<lparr>order_state := PaymentSettled, subTotal := 1500, subTotalWithTax := 1500,
        payments := [sample_payment 1 600 s, sample_payment 2 900 Payment_Settled]\<rparr>"

definition refund_of :: "int option \<Rightarrow> refund_target_input list \<Rightarrow> refund_order_input" where
  "refund_of amount targets =
     \<lparr>ri_lines = [], ri_shipping = None, ri_adjustment = None, ri_paymentId = 2, ri_amount = amount,
      ri_reason = None, ri_destination = None, ri_targets = targets\<rparr>"

lemmas refund_run_defs = sample_card_def sample_payment_cfg_def sample_payment_def sample_paid_def refund_of_def

lemma sample_ids_distinct: "distinct (map payment_id (payments (sample_paid s)))"
  by (simp add: sample_paid_def sample_payment_def)


definition sample_refunded :: "(refund_order_outcome \<times> order) result" where
  "sample_refunded =
     refundOrder (sample_payment_cfg Refund_Settled) 1 [] (refund_of None
       [\<lparr>rt_amount = 500, rt_paymentId = Some 1, rt_destination = None\<rparr>,
        \<lparr>rt_amount = 200, rt_paymentId = None, rt_destination = None\<rparr>])
       (sample_paid Payment_Settled) 50"

lemma sample_refunded_totals:
  "(case sample_refunded of Inr (RefundResult (RefundCreated r), d) \<Rightarrow> map getPaymentRefundTotal (payments d) = [500, 200] | _ \<Rightarrow> False)"
  by code_simp

theorem refund_within_payments_witness:
  "\<exists>outcome d. sample_refunded = Inr (outcome, d) \<and>
     map getPaymentRefundTotal (payments d) = [500, 200] \<and>
     list_all (\<lambda>p. getPaymentRefundTotal p \<le> payment_amount p) (payments d)"
proof -
  obtain outcome d where run: "sample_refunded = Inr (outcome, d)"
    and totals: "map getPaymentRefundTotal (payments d) = [500, 200]"
    using sample_refunded_totals
    by (auto split: sum.split_asm prod.split_asm refund_order_outcome.split_asm create_refund_outcome.split_asm)
  have "list_all (\<lambda>p. getPaymentRefundTotal p \<le> payment_amount p) (payments d)"
    by (rule refund_within_payments [OF _ sample_ids_distinct run [unfolded sample_refunded_def]])
      (simp_all add: refund_run_defs getPaymentRefundTotal_def total_simps)
  then show ?thesis using run totals by (intro exI conjI)
qed

theorem refund_targets_add_up_witness:
  "\<exists>ts. resolveRefundTargets (sample_payment_cfg Refund_Settled) (refund_of (Some 800) [])
          (sample_paid Payment_Settled) 2 800 = Inr (Inr ts) \<and>
        sum_list (map tgt_amount ts) = 800"
proof -
  have "(case resolveRefundTargets (sample_payment_cfg Refund_Settled) (refund_of (Some 800) [])
          (sample_paid Payment_Settled) 2 800 of Inr (Inr ts) \<Rightarrow> True | _ \<Rightarrow> False)"
    by code_simp
  then obtain ts where run: "resolveRefundTargets (sample_payment_cfg Refund_Settled) (refund_of (Some 800) [])
          (sample_paid Payment_Settled) 2 800 = Inr (Inr ts)"
    by (auto split: sum.splits)
  from refund_targets_add_up [OF sample_ids_distinct run] run show ?thesis
    by (auto simp: refund_of_def)
qed

definition sample_unpaid :: order where
  "sample_unpaid = (sample_paid Payment_Settled)\<lparr>order_state := ArrangingPayment,
     payments := [sample_payment 1 600 Payment_Settled]\<rparr>"

theorem payment_completes_order_witness:
  "\<exists>d. addPaymentToOrder (sample_payment_cfg Refund_Settled) [] (\<lambda>c d. True) Inr 9 ''card'' sample_unpaid = Inr (PaymentAdded d) \<and>
       map payment_amount (payments d) = [600, 900] \<and> totalCoveredByPayments d None = totalWithTax d"
proof -
  let ?run = "addPaymentToOrder (sample_payment_cfg Refund_Settled) [] (\<lambda>c d. True) Inr 9 ''card'' sample_unpaid"
  have "(case ?run of Inr (PaymentAdded d) \<Rightarrow> map payment_amount (payments d) = [600, 900] \<and>
           map payment_state (payments d) = [Payment_Settled, Payment_Settled] | _ \<Rightarrow> False)"
    by code_simp
  then obtain d where run: "?run = Inr (PaymentAdded d)" and amounts: "map payment_amount (payments d) = [600, 900]"
    and states: "map payment_state (payments d) = [Payment_Settled, Payment_Settled]"
    by (auto split: sum.splits add_payment_outcome.splits)
  have "\<exists>fresh p. d = add_payment fresh p \<and> payment_state p \<noteq> Payment_Error \<and> payment_state p \<noteq> Payment_Declined \<and>
    (payment_state p \<noteq> Payment_Cancelled \<longrightarrow> totalCoveredByPayments d None = totalWithTax d)"
    by (rule payment_completes_order [OF _ _ run]) (auto simp: refund_run_defs split: if_splits)
  then show ?thesis using run amounts states by (auto simp: add_payment_def)
qed

text \<open>
  Two ways the refund code parts with what its checks and docs say. A refund by amount skips
  the check that explicit targets and destinations make: it is drawn on a payment that was declined,
  whose money was never taken. And a handler that answers \<open>Pending\<close>, the state a refund starts
  in, gets a transition error for a refund that was created, since the table has no such transition.
\<close>

theorem unchecked_refund_sources:
  "(case refundOrder (sample_payment_cfg Refund_Settled) 1 [] ((refund_of (Some 300) [])\<lparr>ri_paymentId := 1\<rparr>) (sample_paid Payment_Declined) 50 of
      Inr (RefundResult (RefundCreated r), d) \<Rightarrow> map getPaymentRefundTotal (payments d) = [300, 0] | _ \<Rightarrow> False) \<and>
   (case refundOrder (sample_payment_cfg Refund_Settled) 1 []
       (refund_of None [\<lparr>rt_amount = 300, rt_paymentId = Some 1, rt_destination = None\<rparr>]) (sample_paid Payment_Declined) 50 of
      Inl (UserInputError m) \<Rightarrow> m = ''error.refund-payment-not-settled'' | _ \<Rightarrow> False) \<and>
   (case refundOrder (sample_payment_cfg Refund_Pending) 1 [] (refund_of (Some 300) []) (sample_paid Payment_Settled) 50 of
      Inr (RefundResult (RefundRefused (RefundStateTransitionError e a b)), d) \<Rightarrow>
        a = Refund_Pending \<and> b = Refund_Pending \<and> map getPaymentRefundTotal (payments d) = [0, 300] | _ \<Rightarrow> False)"
proof (intro conjI)
  show "(case refundOrder (sample_payment_cfg Refund_Settled) 1 [] ((refund_of (Some 300) [])\<lparr>ri_paymentId := 1\<rparr>) (sample_paid Payment_Declined) 50 of
      Inr (RefundResult (RefundCreated r), d) \<Rightarrow> map getPaymentRefundTotal (payments d) = [300, 0] | _ \<Rightarrow> False)"
    by code_simp
  show "(case refundOrder (sample_payment_cfg Refund_Settled) 1 []
       (refund_of None [\<lparr>rt_amount = 300, rt_paymentId = Some 1, rt_destination = None\<rparr>]) (sample_paid Payment_Declined) 50 of
      Inl (UserInputError m) \<Rightarrow> m = ''error.refund-payment-not-settled'' | _ \<Rightarrow> False)"
    by code_simp
  show "(case refundOrder (sample_payment_cfg Refund_Pending) 1 [] (refund_of (Some 300) []) (sample_paid Payment_Settled) 50 of
      Inr (RefundResult (RefundRefused (RefundStateTransitionError e a b)), d) \<Rightarrow>
        a = Refund_Pending \<and> b = Refund_Pending \<and> map getPaymentRefundTotal (payments d) = [0, 300] | _ \<Rightarrow> False)"
    by code_simp
qed

end
