(* ===== verification/PromotionService.thy ===== *)
theory PromotionService
  imports Promotions OrderUtils
begin

text \<open>
  \<^verbatim>\<open>service/services/promotion.service.ts\<close>: coupon codes and usage limits, the promotions that
  are exhausted, the side effects of promotions, and creating and updating promotions; with the
  coupon operations of \<^verbatim>\<open>order.service.ts\<close>. The tables are lists of rows.
\<close>

section \<open>Tables\<close>

record promotion_row =
  row_promotion :: promotion
  row_channels :: "ID list"
  row_deletedAt :: "int option"

definition in_channel :: "request_context \<Rightarrow> promotion_row \<Rightarrow> bool" where
  "in_channel ctx r \<longleftrightarrow> ctx_channelId ctx \<in> set (row_channels r)"

definition getActivePromotionsInChannel :: "request_context \<Rightarrow> promotion_row list \<Rightarrow> promotion list" where
  "getActivePromotionsInChannel ctx rows =
     sort_key priorityScore
       (map row_promotion
         (filter (\<lambda>r. in_channel ctx r \<and> row_deletedAt r = None \<and> promotion_enabled (row_promotion r)) rows))"

definition getActivePromotionsOnOrder :: "order list \<Rightarrow> ID \<Rightarrow> promotion list" where
  "getActivePromotionsOnOrder orders orderId =
     (case List.find (\<lambda>d. order_id d = orderId) orders of None \<Rightarrow> [] | Some d \<Rightarrow> promotions d)"

section \<open>Counting the uses of a promotion\<close>

definition has_promotion :: "ID \<Rightarrow> order \<Rightarrow> bool" where
  "has_promotion i d \<longleftrightarrow> i \<in> set (map promotion_id (promotions d))"

text \<open>The query for placed orders: neither cancelled nor draft nor active nor a seller's.\<close>

definition placedOrdersWithPromotion :: "ID \<Rightarrow> order list \<Rightarrow> order list" where
  "placedOrdersWithPromotion i orders =
     filter (\<lambda>d. has_promotion i d \<and> order_state d \<noteq> Cancelled \<and> order_state d \<noteq> Draft \<and>
                 \<not> active d \<and> order_type d \<noteq> Seller) orders"

definition pendingPaymentOrders :: "ID \<Rightarrow> order list \<Rightarrow> order list" where
  "pendingPaymentOrders i orders =
     filter (\<lambda>d. has_promotion i d \<and> order_state d = ArrangingPayment \<and> order_type d \<noteq> Seller) orders"

definition excluding :: "ID option \<Rightarrow> order list \<Rightarrow> order list" where
  "excluding excludeOrderId orders =
     (case excludeOrderId of None \<Rightarrow> orders | Some i \<Rightarrow> filter (\<lambda>d. order_id d \<noteq> i) orders)"

definition of_customer :: "ID \<Rightarrow> order list \<Rightarrow> order list" where
  "of_customer c orders = filter (\<lambda>d. customerId d = Some c) orders"

definition countPromotionUsages :: "order list \<Rightarrow> ID \<Rightarrow> ID option \<Rightarrow> int" where
  "countPromotionUsages orders i excludeOrderId =
     int (length (excluding excludeOrderId (placedOrdersWithPromotion i orders))) +
     int (length (excluding excludeOrderId (pendingPaymentOrders i orders)))"

definition countPromotionUsagesForCustomer :: "order list \<Rightarrow> ID \<Rightarrow> ID \<Rightarrow> ID option \<Rightarrow> int" where
  "countPromotionUsagesForCustomer orders i c excludeOrderId =
     int (length (excluding excludeOrderId (of_customer c (placedOrdersWithPromotion i orders)))) +
     int (length (excluding excludeOrderId (of_customer c (pendingPaymentOrders i orders))))"

text \<open>The counts of several promotions at once, grouped by id: no entry for a count of zero.\<close>

definition getUsageCountsBatch :: "order list \<Rightarrow> ID list \<Rightarrow> ID option \<Rightarrow> (ID, int) js_map" where
  "getUsageCountsBatch orders promotionIds c =
     (let used = (\<lambda>i. placedOrdersWithPromotion i (case c of None \<Rightarrow> orders | Some j \<Rightarrow> of_customer j orders))
      in map (\<lambda>i. (i, int (length (used i)))) (filter (\<lambda>i. used i \<noteq> []) (remdups promotionIds)))"

section \<open>Coupon codes\<close>

datatype coupon_error =
    CouponCodeInvalidError string
  | CouponCodeExpiredError string
  | CouponCodeLimitError string int

definition find_coupon :: "request_context \<Rightarrow> promotion_row list \<Rightarrow> string \<Rightarrow> promotion_row option" where
  "find_coupon ctx rows code =
     List.find (\<lambda>r. (case couponCode (row_promotion r) of None \<Rightarrow> False | Some c \<Rightarrow> couponCodesMatch c code) \<and>
         promotion_enabled (row_promotion r) \<and> row_deletedAt r = None \<and> in_channel ctx r) rows"

definition validateCouponCode ::
  "request_context \<Rightarrow> promotion_row list \<Rightarrow> order list \<Rightarrow> string \<Rightarrow> ID option \<Rightarrow> ID option \<Rightarrow> coupon_error + promotion" where
  "validateCouponCode ctx rows orders code c excludeOrderId =
     (case find_coupon ctx rows code of
        None \<Rightarrow> Inl (CouponCodeInvalidError code)
      | Some r \<Rightarrow>
          (let p = row_promotion r
           in if (case endsAt p of Some t \<Rightarrow> t < ctx_now ctx | None \<Rightarrow> False) then Inl (CouponCodeExpiredError code)
              else if (case (c, perCustomerUsageLimit p) of
                         (Some j, Some n) \<Rightarrow> n \<le> countPromotionUsagesForCustomer orders (promotion_id p) j excludeOrderId
                       | _ \<Rightarrow> False)
              then Inl (CouponCodeLimitError code (nullish (perCustomerUsageLimit p) 0))
              else if (case usageLimit p of
                         Some n \<Rightarrow> n \<le> countPromotionUsages orders (promotion_id p) excludeOrderId | None \<Rightarrow> False)
              then Inl (CouponCodeLimitError code (nullish (usageLimit p) 0))
              else Inr p))"

text \<open>The coupon operations of the order service; repricing is an argument.\<close>

datatype coupon_event = CouponCodeEvent string ID bool

definition applyCouponCode ::
  "request_context \<Rightarrow> promotion_row list \<Rightarrow> order list \<Rightarrow> (order \<Rightarrow> order result) \<Rightarrow> order \<Rightarrow> string \<Rightarrow>
     (coupon_error + order \<times> coupon_event list) result" where
  "applyCouponCode ctx rows orders reprice ord code =
     (if list_ex (\<lambda>cc. couponCodesMatch cc code) (couponCodes ord) then Inr (Inr (ord, []))
      else
        case validateCouponCode ctx rows orders code (customerId ord) None of
          Inl e \<Rightarrow> Inr (Inl e)
        | Inr p \<Rightarrow>
            let canonicalCode = nullish (couponCode p) []
            in bind_result (reprice (ord\<lparr>couponCodes := couponCodes ord @ [canonicalCode]\<rparr>))
                 (\<lambda>ord'. Inr (Inr (ord', [CouponCodeEvent canonicalCode (order_id ord) True]))))"

definition removeCouponCode ::
  "(order \<Rightarrow> order result) \<Rightarrow> order \<Rightarrow> string \<Rightarrow> (order \<times> coupon_event list) result" where
  "removeCouponCode reprice ord code =
     (case List.find (\<lambda>cc. couponCodesMatch cc code) (couponCodes ord) of
        None \<Rightarrow> Inr (ord, [])
      | Some matchedCode \<Rightarrow>
          if matchedCode = [] then Inr (ord, [])
          else bind_result (reprice (ord\<lparr>couponCodes := filter (\<lambda>cc. \<not> couponCodesMatch cc matchedCode) (couponCodes ord)\<rparr>))
                 (\<lambda>ord'. Inr (ord', [CouponCodeEvent matchedCode (order_id ord) False])))"

section \<open>Exhausted promotions\<close>

definition truthy_code :: "string option \<Rightarrow> bool" where
  "truthy_code c \<longleftrightarrow> c \<noteq> None \<and> c \<noteq> Some []"

definition getExhaustedPromotionIds :: "order list \<Rightarrow> promotion list \<Rightarrow> ID option \<Rightarrow> ID list" where
  "getExhaustedPromotionIds orders ps c =
     (let withUsageLimit = filter (\<lambda>p. \<not> truthy_code (couponCode p) \<and> usageLimit p \<noteq> None) ps;
          usageCounts = getUsageCountsBatch orders (map promotion_id withUsageLimit) None;
          exhausted = map promotion_id
            (filter (\<lambda>p. nullish (usageLimit p) 0 \<le> nullish (map_get usageCounts (promotion_id p)) 0) withUsageLimit);
          withPerCustomerLimit = filter (\<lambda>p. \<not> truthy_code (couponCode p) \<and> perCustomerUsageLimit p \<noteq> None \<and>
            promotion_id p \<notin> set exhausted) ps
      in case c of
           None \<Rightarrow> exhausted
         | Some j \<Rightarrow>
             let perCustomerCounts = getUsageCountsBatch orders (map promotion_id withPerCustomerLimit) (Some j)
             in exhausted @ map promotion_id
                  (filter (\<lambda>p. nullish (perCustomerUsageLimit p) 0 \<le> nullish (map_get perCustomerCounts (promotion_id p)) 0)
                    withPerCustomerLimit))"

section \<open>Side effects\<close>

datatype promotion_effect = Deactivate ID | Activate ID

definition runPromotionSideEffects :: "promotion list \<Rightarrow> promotion list \<Rightarrow> promotion_effect list" where
  "runPromotionSideEffects promotionsPre promotionsPost =
     map (\<lambda>p. Deactivate (promotion_id p))
       (filter (\<lambda>p. promotion_id p \<notin> set (map promotion_id promotionsPost)) promotionsPre) @
     map (\<lambda>p. Activate (promotion_id p))
       (filter (\<lambda>p. promotion_id p \<notin> set (map promotion_id promotionsPre)) promotionsPost)"

section \<open>Creating and updating\<close>

text \<open>
  The operations of an input hold the arguments as \<^verbatim>\<open>parseInput\<close> leaves them; an unknown code is
  an error there. A field that was not sent is \<^term>\<open>None\<close> and keeps its value in an update; a
  field sent as \<^verbatim>\<open>null\<close> is \<^term>\<open>Some None\<close> and clears it.
\<close>

record promotion_input =
  pi_name :: "string option"
  pi_enabled :: "bool option"
  pi_couponCode :: "string option option"
  pi_startsAt :: "int option option"
  pi_endsAt :: "int option option"
  pi_perCustomerUsageLimit :: "int option option"
  pi_usageLimit :: "int option option"
  pi_conditions :: "configurable_operation list option"
  pi_actions :: "configurable_operation list option"

definition conditionByCode :: "promotion_options \<Rightarrow> string \<Rightarrow> promotion_condition result" where
  "conditionByCode opts code =
     (case List.find (\<lambda>c. pc_code c = code) (promotionConditions opts) of
        None \<Rightarrow> Inl (UserInputError ''error.no-configurable-operation-def-with-code-found'') | Some c \<Rightarrow> Inr c)"

definition actionByCode :: "promotion_options \<Rightarrow> string \<Rightarrow> promotion_action result" where
  "actionByCode opts code =
     (case List.find (\<lambda>a. pa_code a = code) (promotionActions opts) of
        None \<Rightarrow> Inl (UserInputError ''error.no-configurable-operation-def-with-code-found'') | Some a \<Rightarrow> Inr a)"

fun map_result :: "('a \<Rightarrow> 'e + 'b) \<Rightarrow> 'a list \<Rightarrow> 'e + 'b list" where
  "map_result f [] = Inr []"
| "map_result f (x # xs) = bind_result (f x) (\<lambda>y. bind_result (map_result f xs) (\<lambda>ys. Inr (y # ys)))"

definition calculatePriorityScore :: "promotion_options \<Rightarrow> promotion_input \<Rightarrow> int result" where
  "calculatePriorityScore opts input =
     bind_result (map_result (\<lambda>c. conditionByCode opts (op_code c)) (nullish (pi_conditions input) [])) (\<lambda>cs.
       bind_result (map_result (\<lambda>a. actionByCode opts (op_code a)) (nullish (pi_actions input) [])) (\<lambda>as.
         Inr (sum_list (map pc_priorityValue cs @ map pa_priorityValue as))))"

definition validateRequiredConditions ::
  "promotion_options \<Rightarrow> configurable_operation list \<Rightarrow> configurable_operation list \<Rightarrow> unit result" where
  "validateRequiredConditions opts cs as =
     fold_result (\<lambda>a _. bind_result (actionByCode opts (op_code a)) (\<lambda>def.
         if filter (\<lambda>c. c \<notin> set (map op_code cs)) (nullish (pa_conditions def) []) = [] then Inr ()
         else Inl (UserInputError ''error.conditions-required-for-action'')))
       as ()"

datatype save_outcome = MissingConditionsError | PromotionSaved promotion

definition parse_all :: "promotion_options \<Rightarrow> configurable_operation list option \<Rightarrow> configurable_operation list option \<Rightarrow> unit result" where
  "parse_all opts cs as =
     bind_result (map_result (\<lambda>c. conditionByCode opts (op_code c)) (nullish cs [])) (\<lambda>_.
       bind_result (map_result (\<lambda>a. actionByCode opts (op_code a)) (nullish as [])) (\<lambda>_. Inr ()))"

definition createPromotion ::
  "promotion_options \<Rightarrow> promotion \<Rightarrow> promotion_input \<Rightarrow> save_outcome result" where
  "createPromotion opts blank input =
     (let cs = nullish (pi_conditions input) []; as = nullish (pi_actions input) []
      in bind_result (parse_all opts (Some cs) (Some as)) (\<lambda>_.
           bind_result (validateRequiredConditions opts cs as) (\<lambda>_.
             if cs = [] \<and> \<not> truthy_code (nullish (pi_couponCode input) None) then Inr MissingConditionsError
             else bind_result (calculatePriorityScore opts input) (\<lambda>score.
                    Inr (PromotionSaved (blank\<lparr>promotion_name := nullish (pi_name input) [],
                      promotion_enabled := nullish (pi_enabled input) False,
                      couponCode := nullish (pi_couponCode input) None, startsAt := nullish (pi_startsAt input) None,
                      endsAt := nullish (pi_endsAt input) None,
                      perCustomerUsageLimit := nullish (pi_perCustomerUsageLimit input) None,
                      usageLimit := nullish (pi_usageLimit input) None, conditions := cs, actions := as, priorityScore := score\<rparr>))))))"

definition updatePromotion ::
  "promotion_options \<Rightarrow> promotion \<Rightarrow> promotion_input \<Rightarrow> save_outcome result" where
  "updatePromotion opts p input =
     (let hasConditions = (case pi_conditions input of Some cs \<Rightarrow> cs \<noteq> [] | None \<Rightarrow> conditions p \<noteq> []);
          hasCouponCode = (case nullish (pi_couponCode input) None of
            Some c \<Rightarrow> c \<noteq> [] | None \<Rightarrow> truthy_code (couponCode p))
      in if \<not> hasConditions \<and> \<not> hasCouponCode then Inr MissingConditionsError
         else
           let cs = nullish (pi_conditions input) (conditions p); as = nullish (pi_actions input) (actions p)
           in bind_result (parse_all opts (pi_conditions input) (pi_actions input)) (\<lambda>_.
                bind_result (if pi_conditions input \<noteq> None \<or> pi_actions input \<noteq> None
                             then validateRequiredConditions opts cs as else Inr ()) (\<lambda>_.
                  bind_result (calculatePriorityScore opts input) (\<lambda>score.
                    Inr (PromotionSaved (p\<lparr>promotion_name := nullish (pi_name input) (promotion_name p),
                      promotion_enabled := nullish (pi_enabled input) (promotion_enabled p),
                      couponCode := nullish (pi_couponCode input) (couponCode p),
                      startsAt := nullish (pi_startsAt input) (startsAt p), endsAt := nullish (pi_endsAt input) (endsAt p),
                      perCustomerUsageLimit := nullish (pi_perCustomerUsageLimit input) (perCustomerUsageLimit p),
                      usageLimit := nullish (pi_usageLimit input) (usageLimit p), priorityScore := score, conditions := cs, actions := as\<rparr>))))))"

end
