(* ===== verification/OrderRepricing.thy ===== *)
theory OrderRepricing
  imports OrderPricing PromotionService Stock
begin

text \<open>
  Prices of product variants (\<^verbatim>\<open>helpers/product-price-applicator\<close> and the default price
  strategies under \<^verbatim>\<open>config/catalog/\<close>) and
  \<^verbatim>\<open>OrderService.applyPriceAdjustments\<close>, which brings the list prices of changed lines up
  to date, drops exhausted promotions and runs the order calculator. The request cache is an
  argument: what it holds, if anything, for the tax zone and the exhausted promotions.
\<close>

section \<open>The price of a variant\<close>

definition default_selectPrice :: "request_context \<Rightarrow> product_variant_price list \<Rightarrow> product_variant_price option" where
  "default_selectPrice ctx prices =
     (let pricesInChannel = filter (\<lambda>p. idsAreEqual (Some (price_channelId p)) (Some (ctx_channelId ctx))) prices
      in List.find (\<lambda>p. price_currencyCode p = ctx_currencyCode ctx) pricesInChannel)"

text \<open>A price is the amount and whether it includes tax.\<close>

type_synonym price_result = "int \<times> bool"

definition default_calculatePrice ::
  "tax_rate list \<Rightarrow> request_context \<Rightarrow> int \<Rightarrow> ID \<Rightarrow> ID \<Rightarrow> price_result result" where
  "default_calculatePrice rates ctx inputPrice activeTaxZoneId taxCategory =
     (if pricesIncludeTax ctx
      then (case defaultTaxZoneId ctx of
              None \<Rightarrow> Inl (JsError ''Cannot read properties of null'')
            | Some zone \<Rightarrow>
                if idsAreEqual (Some activeTaxZoneId) (Some zone) then Inr (inputPrice, True)
                else Inr (roundMoney (netPriceOf (of_int inputPrice)
                            (tax_rate_value (getApplicableTaxRate rates zone taxCategory))), False))
      else Inr (inputPrice, False))"

record priced_variant =
  pv_variant :: product_variant
  pv_listPrice :: int
  pv_listPriceIncludesTax :: bool
  pv_taxRateApplied :: tax_rate
  pv_currencyCode :: string

record repricing_config =
  rc_calculator :: calculator_config
  rc_selectPrice :: "request_context \<Rightarrow> product_variant_price list \<Rightarrow> product_variant_price option"
  rc_calculatePrice :: "tax_rate list \<Rightarrow> request_context \<Rightarrow> int \<Rightarrow> ID \<Rightarrow> ID \<Rightarrow> price_result result"
  rc_calculateUnitPrice ::
    "request_context \<Rightarrow> priced_variant \<Rightarrow> (string, json) js_map \<Rightarrow> order \<Rightarrow> int \<Rightarrow> price_result result"
  rc_handlePriceChange :: "request_context \<Rightarrow> price_result \<Rightarrow> order_line \<Rightarrow> order \<Rightarrow> price_result result"
  rc_promotionRows :: "promotion_row list"

definition applyChannelPriceAndTax ::
  "repricing_config \<Rightarrow> request_context \<Rightarrow> ID option \<Rightarrow> bool \<Rightarrow> order option \<Rightarrow> product_variant \<Rightarrow> priced_variant result" where
  "applyChannelPriceAndTax cfg ctx cachedZone throwIfNoPriceFound ord v =
     (let channelPrice = rc_selectPrice cfg ctx (productVariantPrices v);
          calc = rc_calculator cfg
      in if channelPrice = None \<and> throwIfNoPriceFound
         then Inl (InternalServerError ''error.no-price-found-for-channel'')
         else
           case (case cachedZone of Some z \<Rightarrow> Some z | None \<Rightarrow> cfg_determineTaxZone calc ctx (cfg_zones calc) ord) of
             None \<Rightarrow> Inl (InternalServerError ''error.no-active-tax-zone'')
           | Some zone \<Rightarrow>
               let applicableTaxRate = getApplicableTaxRate (cfg_activeTaxRates calc) zone (variant_taxCategoryId v);
                   inputPrice = (case channelPrice of None \<Rightarrow> 0 | Some p \<Rightarrow> price_value p)
               in bind_result
                    (rc_calculatePrice cfg (cfg_activeTaxRates calc) ctx inputPrice zone (variant_taxCategoryId v))
                    (\<lambda>(price, priceIncludesTax).
                      Inr \<lparr>pv_variant = v, pv_listPrice = price, pv_listPriceIncludesTax = priceIncludesTax,
                           pv_taxRateApplied = applicableTaxRate,
                           pv_currencyCode = (case channelPrice of None \<Rightarrow> ctx_currencyCode ctx
                                              | Some p \<Rightarrow> price_currencyCode p)\<rparr>))"

definition default_calculateUnitPrice ::
  "request_context \<Rightarrow> priced_variant \<Rightarrow> (string, json) js_map \<Rightarrow> order \<Rightarrow> int \<Rightarrow> price_result result" where
  "default_calculateUnitPrice ctx v customFields ord q = Inr (pv_listPrice v, pv_listPriceIncludesTax v)"

definition default_handlePriceChange ::
  "request_context \<Rightarrow> price_result \<Rightarrow> order_line \<Rightarrow> order \<Rightarrow> price_result result" where
  "default_handlePriceChange ctx current line ord = Inr current"

section \<open>Prices of changed lines\<close>

definition set_line :: "order_line \<Rightarrow> order \<Rightarrow> order" where
  "set_line l ord = ord\<lparr>order_lines := map (\<lambda>x. if line_id x = line_id l then l else x) (order_lines ord)\<rparr>"

definition find_line :: "ID \<Rightarrow> order \<Rightarrow> order_line option" where
  "find_line i ord = List.find (\<lambda>l. idsAreEqual (Some (line_id l)) (Some i)) (order_lines ord)"

definition unit_price ::
  "repricing_config \<Rightarrow> request_context \<Rightarrow> ID option \<Rightarrow> stock_db \<Rightarrow> order \<Rightarrow> order_line \<Rightarrow> price_result result" where
  "unit_price cfg ctx cachedZone db ord l =
     bind_result (variantOrThrow True (productVariantId l) db) (\<lambda>v.
       bind_result (applyChannelPriceAndTax cfg ctx cachedZone False (Some ord) v) (\<lambda>pv.
         rc_calculateUnitPrice cfg ctx pv (nullish (line_customFields l) []) ord (quantity l)))"

definition update_line_price ::
  "repricing_config \<Rightarrow> request_context \<Rightarrow> ID option \<Rightarrow> stock_db \<Rightarrow> ID \<Rightarrow> order \<Rightarrow> order result" where
  "update_line_price cfg ctx cachedZone db i ord =
     (case find_line i ord of
        None \<Rightarrow> Inr ord
      | Some l \<Rightarrow>
          bind_result (unit_price cfg ctx cachedZone db ord l) (\<lambda>found.
            let initial = nullish (initialListPrice l) (fst found)
            in bind_result
                 (if initial \<noteq> fst found then rc_handlePriceChange cfg ctx found l ord else Inr found)
                 (\<lambda>(price, includesTax).
                   Inr (set_line (l\<lparr>initialListPrice := Some initial, listPrice := price,
                                   listPriceIncludesTax := includesTax\<rparr>) ord))))"

section \<open>OrderService.applyPriceAdjustments\<close>

record request_cache =
  cache_activeTaxZone :: "ID option"
  cache_activeTaxZone_PPA :: "ID option"
  cache_exhaustedPromotions :: "ID list option"

text \<open>What the repositories hold: the orders, and the surcharges of the order at hand.\<close>

record order_tables =
  tab_orders :: "order list"
  tab_surcharges :: "surcharge list"
  tab_stock :: stock_db

definition promotions_for ::
  "repricing_config \<Rightarrow> request_context \<Rightarrow> request_cache \<Rightarrow> order_tables \<Rightarrow> order \<Rightarrow> promotion list" where
  "promotions_for cfg ctx cache tabs ord =
     (let allPromotions = getActivePromotionsInChannel ctx (rc_promotionRows cfg);
          exhaustedIds = (case cache_exhaustedPromotions cache of
            Some ids \<Rightarrow> ids
          | None \<Rightarrow> getExhaustedPromotionIds (tab_orders tabs) allPromotions (customerId ord))
      in filter (\<lambda>p. promotion_id p \<notin> set exhaustedIds) allPromotions)"

definition service_applyPriceAdjustments ::
  "repricing_config \<Rightarrow> request_context \<Rightarrow> request_cache \<Rightarrow> order_tables \<Rightarrow> order \<Rightarrow> ID list \<Rightarrow> price_options \<Rightarrow>
     (order \<times> promotion_effect list) result" where
  "service_applyPriceAdjustments cfg ctx cache tabs ord updatedIds opts =
     (let activePromotionsPre = getActivePromotionsOnOrder (tab_orders tabs) (order_id ord);
          ps = promotions_for cfg ctx cache tabs ord;
          (ord1, ids) = (if ctx_currencyCode ctx \<noteq> currencyCode ord
                         then (ord\<lparr>currencyCode := ctx_currencyCode ctx\<rparr>, map line_id (order_lines ord))
                         else (ord, updatedIds))
      in bind_result
           (fold_result (update_line_price cfg ctx (cache_activeTaxZone_PPA cache) (tab_stock tabs)) ids ord1)
           (\<lambda>ord2.
             bind_result
               (applyPriceAdjustments (rc_calculator cfg) ctx (cache_activeTaxZone cache)
                  (ord2\<lparr>surcharges := tab_surcharges tabs\<rparr>) ps ids opts)
               (\<lambda>updatedOrder.
                 Inr (updatedOrder\<lparr>pricingUpdatedAt := Some (ctx_now ctx)\<rparr>,
                      runPromotionSideEffects activePromotionsPre (promotions updatedOrder)))))"

text \<open>The read path: an active order is priced again when its prices are too old.\<close>

definition ttl_shouldRecalculate :: "int \<Rightarrow> request_context \<Rightarrow> order \<Rightarrow> bool" where
  "ttl_shouldRecalculate ttlMs ctx ord \<longleftrightarrow>
     (case pricingUpdatedAt ord of None \<Rightarrow> True | Some t \<Rightarrow> ttlMs \<le> ctx_now ctx - t)"

text \<open>\<open>lockedOrder\<close> is what the locking read finds, \<open>fullOrder\<close> the order loaded after it.\<close>

definition applyPriceAdjustmentsIfStale ::
  "repricing_config \<Rightarrow> (request_context \<Rightarrow> order \<Rightarrow> bool) \<Rightarrow> request_context \<Rightarrow> request_cache \<Rightarrow> order_tables \<Rightarrow>
     order option \<Rightarrow> order \<Rightarrow> order \<Rightarrow> order result" where
  "applyPriceAdjustmentsIfStale cfg shouldRecalculate ctx cache tabs lockedOrder fullOrder ord =
     (if \<not> active ord \<or> order_state ord \<noteq> AddingItems then Inr ord
      else if \<not> shouldRecalculate ctx ord then Inr ord
      else case lockedOrder of
             None \<Rightarrow> Inr ord
           | Some locked \<Rightarrow>
               if \<not> shouldRecalculate ctx locked then Inr fullOrder
               else bind_result
                      (service_applyPriceAdjustments cfg ctx cache tabs fullOrder (map line_id (order_lines fullOrder))
                         \<lparr>opt_recalculateShipping = Some False, opt_recalculateShippingPromotions = Some True\<rparr>)
                      (\<lambda>(ord', effects). Inr ord'))"

section \<open>What repricing keeps\<close>

text \<open>The lines of an order as the customer sees them: id, variant and quantity.\<close>

definition ordered :: "order_line \<Rightarrow> ID \<times> ID \<times> int" where
  "ordered l = (line_id l, productVariantId l, quantity l)"

lemma same_line_ordered: "list_all2 same_line ls ms \<Longrightarrow> map ordered ms = map ordered ls"
  by (induction rule: list_all2_induct) (simp_all add: ordered_def same_line_def)

lemma set_line_ordered:
  assumes "\<And>x. x \<in> set (order_lines ord) \<Longrightarrow> line_id x = line_id l \<Longrightarrow> ordered x = ordered l"
  shows "map ordered (order_lines (set_line l ord)) = map ordered (order_lines ord)"
  using assms by (auto simp: set_line_def)

lemma set_line_header [simp]: "order_header (set_line l ord) = order_header ord"
  by (simp add: set_line_def order_header_def)

lemma find_line_Some: "find_line i ord = Some l \<Longrightarrow> l \<in> set (order_lines ord) \<and> line_id l = i"
  by (auto simp: find_line_def dest: find_Some_in)

lemma update_line_price_keeps:
  assumes "update_line_price cfg ctx z db i ord = Inr r" and "distinct (map line_id (order_lines ord))"
  shows "map ordered (order_lines r) = map ordered (order_lines ord) \<and> order_header r = order_header ord"
proof (cases "find_line i ord")
  case (Some l)
  note l = find_line_Some [OF Some]
  then obtain n p q where r: "r = set_line (l\<lparr>initialListPrice := n, listPrice := p, listPriceIncludesTax := q\<rparr>) ord"
    using assms(1) Some by (auto simp: update_line_price_def bind_result_Inr Let_def split: if_splits)
  have "x = l" if "x \<in> set (order_lines ord)" "line_id x = line_id l" for x
    using that l assms(2) by (metis distinct_map inj_onD)
  then have "map ordered (order_lines r) = map ordered (order_lines ord)"
    unfolding r by (intro set_line_ordered) (auto simp: ordered_def)
  then show ?thesis by (simp add: r)
qed (use assms in \<open>simp add: update_line_price_def\<close>)

lemma ids_of_ordered: "map ordered ls = map ordered ms \<Longrightarrow> map line_id ls = map line_id ms"
proof -
  assume "map ordered ls = map ordered ms"
  then have "map fst (map ordered ls) = map fst (map ordered ms)" by simp
  then show ?thesis by (simp add: ordered_def comp_def)
qed

lemma update_line_prices_keep:
  assumes "fold_result (update_line_price cfg ctx z db) is ord = Inr r" and "distinct (map line_id (order_lines ord))"
  shows "map ordered (order_lines r) = map ordered (order_lines ord) \<and> order_header r = order_header ord"
  using assms
proof (induction "is" arbitrary: ord)
  case (Cons i "is")
  then obtain d where d: "update_line_price cfg ctx z db i ord = Inr d"
    and rest: "fold_result (update_line_price cfg ctx z db) is d = Inr r"
    by (auto simp: bind_result_Inr)
  note kept = update_line_price_keeps [OF d Cons.prems(2)]
  then have "distinct (map line_id (order_lines d))" using Cons.prems(2) ids_of_ordered by metis
  from Cons.IH [OF rest this] kept show ?case by simp
qed simp

lemma service_keeps:
  assumes "service_applyPriceAdjustments cfg ctx cache tabs ord ids opts = Inr (r, effects)"
    and "distinct (map line_id (order_lines ord))"
  shows "map ordered (order_lines r) = map ordered (order_lines ord) \<and> order_header r = order_header ord \<and>
    (\<forall>p \<in> set (promotions r). coupon_ok p ord \<and> p \<in> set (promotions_for cfg ctx cache tabs ord))"
proof -
  let ?changed = "ctx_currencyCode ctx \<noteq> currencyCode ord"
  define ord1 where "ord1 = (if ?changed then ord\<lparr>currencyCode := ctx_currencyCode ctx\<rparr> else ord)"
  define ids' where "ids' = (if ?changed then map line_id (order_lines ord) else ids)"
  have ord1: "order_lines ord1 = order_lines ord" "order_header ord1 = order_header ord"
    by (simp_all add: ord1_def order_header_def)
  have "bind_result (fold_result (update_line_price cfg ctx (cache_activeTaxZone_PPA cache) (tab_stock tabs)) ids' ord1)
      (\<lambda>ord2. bind_result
         (applyPriceAdjustments (rc_calculator cfg) ctx (cache_activeTaxZone cache)
            (ord2\<lparr>surcharges := tab_surcharges tabs\<rparr>) (promotions_for cfg ctx cache tabs ord) ids' opts)
         (\<lambda>u. Inr (u\<lparr>pricingUpdatedAt := Some (ctx_now ctx)\<rparr>,
           runPromotionSideEffects (getActivePromotionsOnOrder (tab_orders tabs) (order_id ord)) (promotions u)))) = Inr (r, effects)"
    using assms(1) unfolding service_applyPriceAdjustments_def Let_def ord1_def ids'_def by (simp split: if_splits)
  then obtain ord2 u where
    prices: "fold_result (update_line_price cfg ctx (cache_activeTaxZone_PPA cache) (tab_stock tabs)) ids' ord1 = Inr ord2"
    and run: "applyPriceAdjustments (rc_calculator cfg) ctx (cache_activeTaxZone cache)
        (ord2\<lparr>surcharges := tab_surcharges tabs\<rparr>) (promotions_for cfg ctx cache tabs ord) ids' opts = Inr u"
    and r: "r = u\<lparr>pricingUpdatedAt := Some (ctx_now ctx)\<rparr>"
    by (auto simp: bind_result_Inr)
  have kept: "map ordered (order_lines ord2) = map ordered (order_lines ord)" "order_header ord2 = order_header ord"
    using update_line_prices_keep [OF prices] ord1 assms(2) by simp_all
  have "map ordered (order_lines u) = map ordered (order_lines ord2)"
    using same_line_ordered [OF kept_lines_of_result [OF run]] by simp
  moreover have u: "order_header u = order_header ord" 
      "\<forall>p \<in> set (promotions u). coupon_ok p u \<and> p \<in> set (promotions_for cfg ctx cache tabs ord)"
    using coupons_of_result [OF run] kept(2) by (auto simp: coupons_found_def order_header_def)
  moreover have "order_header r = order_header u" by (simp add: r order_header_def)
  ultimately show ?thesis using kept(1) coupon_ok_codes [OF u(1)] by (simp add: r)
qed

end
