(* ===== verification/CouponUsage.thy ===== *)
theory CouponUsage
  imports OrderRepricing Payments
begin

text \<open>
  The limit on how often a coupon is used. Checkouts are steps on the table of orders: a payment is
  one step, as the lock on the promotion makes it, in which
  \<^verbatim>\<open>revalidateCouponCodesForOrder\<close> checks the codes of the order again. Whatever the
  interleaving, no coupon is paid for more often than its limit allows.
\<close>

section \<open>Checkouts as steps\<close>

record shop =
  shop_repricing :: repricing_config
  shop_ctx :: request_context
  shop_cache :: request_cache
  shop_stock :: stock_db

definition shop_reprice :: "shop \<Rightarrow> order list \<Rightarrow> order \<Rightarrow> order result" where
  "shop_reprice sh orders ord =
     bind_result
       (service_applyPriceAdjustments (shop_repricing sh) (shop_ctx sh) (shop_cache sh)
          \<lparr>tab_orders = orders, tab_surcharges = surcharges ord, tab_stock = shop_stock sh\<rparr> ord [] default_price_options)
       (\<lambda>(ord', effects). Inr ord')"

definition shop_rows :: "shop \<Rightarrow> promotion_row list" where
  "shop_rows sh = rc_promotionRows (shop_repricing sh)"

definition code_valid :: "shop \<Rightarrow> order list \<Rightarrow> string \<Rightarrow> order \<Rightarrow> bool" where
  "code_valid sh orders code ord \<longleftrightarrow>
     (case validateCouponCode (shop_ctx sh) (shop_rows sh) orders code (customerId ord) (Some (order_id ord)) of
        Inl e \<Rightarrow> False | Inr p \<Rightarrow> True)"

definition set_order :: "order \<Rightarrow> order list \<Rightarrow> order list" where
  "set_order d orders = map (\<lambda>e. if order_id e = order_id d then d else e) orders"

definition unpaid_state :: "order_state \<Rightarrow> bool" where
  "unpaid_state s \<longleftrightarrow> s \<in> {Created, Draft, AddingItems, ArrangingPayment}"

text \<open>
  An unpaid order is edited, which prices it again, and moved between the stages before payment; an
  order at the payment stage is paid; a paid order goes on, or is cancelled.
\<close>

inductive checkout :: "shop \<Rightarrow> order list \<Rightarrow> order list \<Rightarrow> bool" for sh where
  edit: "d \<in> set orders \<Longrightarrow> unpaid_state (order_state d) \<Longrightarrow> order_id e = order_id d \<Longrightarrow>
         unpaid_state (order_state e) \<Longrightarrow> distinct (map line_id (order_lines e)) \<Longrightarrow>
         shop_reprice sh orders e = Inr d' \<Longrightarrow> checkout sh orders (set_order d' orders)"
| move: "d \<in> set orders \<Longrightarrow> unpaid_state (order_state d) \<Longrightarrow> unpaid_state s \<Longrightarrow>
         checkout sh orders (set_order (d\<lparr>order_state := s\<rparr>) orders)"
| pay: "d \<in> set orders \<Longrightarrow> order_state d = ArrangingPayment \<Longrightarrow> distinct (map line_id (order_lines d)) \<Longrightarrow>
        revalidateCouponCodesForOrder (code_valid sh orders) (shop_reprice sh orders) d = Inr (removed, d') \<Longrightarrow>
        s \<in> {PaymentAuthorized, PaymentSettled} \<Longrightarrow>
        checkout sh orders (set_order (d'\<lparr>order_state := s, active := False\<rparr>) orders)"
| advance: "d \<in> set orders \<Longrightarrow> \<not> unpaid_state (order_state d) \<Longrightarrow> order_state d \<noteq> Cancelled \<Longrightarrow> \<not> unpaid_state s \<Longrightarrow>
        checkout sh orders (set_order (d\<lparr>order_state := s\<rparr>) orders)"

definition paid_with :: "ID \<Rightarrow> order \<Rightarrow> bool" where
  "paid_with i d \<longleftrightarrow> has_promotion i d \<and> \<not> unpaid_state (order_state d) \<and> order_state d \<noteq> Cancelled \<and>
     \<not> active d \<and> order_type d \<noteq> Seller"

definition paid_uses :: "ID \<Rightarrow> order list \<Rightarrow> int" where
  "paid_uses i orders = int (length (filter (paid_with i) orders))"

section \<open>The invariant\<close>

text \<open>
  Before payment an order lists only promotions of the table, each with its code on the order.
\<close>

definition orders_checked :: "shop \<Rightarrow> order list \<Rightarrow> bool" where
  "orders_checked sh orders \<longleftrightarrow> distinct (map order_id orders) \<and>
     (\<forall>d \<in> set orders. unpaid_state (order_state d) \<longrightarrow>
        (\<forall>p \<in> set (promotions d). p \<in> set (getActivePromotionsInChannel (shop_ctx sh) (shop_rows sh)) \<and> coupon_ok p d))"

text \<open>No two rows share an id, and no two that are on offer share a code.\<close>

definition codes_unique :: "shop \<Rightarrow> bool" where
  "codes_unique sh \<longleftrightarrow> distinct (map (\<lambda>r. promotion_id (row_promotion r)) (shop_rows sh)) \<and>
     (\<forall>p \<in> set (getActivePromotionsInChannel (shop_ctx sh) (shop_rows sh)).
      \<forall>q \<in> set (getActivePromotionsInChannel (shop_ctx sh) (shop_rows sh)).
        \<forall>c e. couponCode p = Some c \<longrightarrow> couponCode q = Some e \<longrightarrow> couponCodesMatch c e \<longrightarrow> p = q)"

lemma header_fields:
  "order_header a = order_header b \<Longrightarrow>
     order_id a = order_id b \<and> order_state a = order_state b \<and> customerId a = customerId b \<and>
     couponCodes a = couponCodes b \<and> active a = active b \<and> order_type a = order_type b"
  by (simp add: order_header_def)

lemma shop_reprice_keeps:
  assumes "shop_reprice sh orders e = Inr d" and "distinct (map line_id (order_lines e))"
  shows "order_header d = order_header e \<and>
    (\<forall>p \<in> set (promotions d). p \<in> set (getActivePromotionsInChannel (shop_ctx sh) (shop_rows sh)) \<and> coupon_ok p d)"
proof -
  obtain effects where "service_applyPriceAdjustments (shop_repricing sh) (shop_ctx sh) (shop_cache sh)
          \<lparr>tab_orders = orders, tab_surcharges = surcharges e, tab_stock = shop_stock sh\<rparr> e [] default_price_options = Inr (d, effects)"
    using assms(1) by (auto simp: shop_reprice_def bind_result_Inr)
  note kept = service_keeps [OF this assms(2)]
  then have "coupon_ok p d = coupon_ok p e" for p by (intro coupon_ok_codes) simp
  then show ?thesis using kept by (auto simp: promotions_for_def shop_rows_def Let_def)
qed

lemma set_order_ids [simp]: "map order_id (set_order d orders) = map order_id orders"
  by (simp add: set_order_def comp_def)

lemma set_order_cases: "x \<in> set (set_order d orders) \<Longrightarrow> x = d \<or> x \<in> set orders \<and> order_id x \<noteq> order_id d"
  by (auto simp: set_order_def split: if_splits)

lemma paid_uses_set_order:
  assumes "distinct (map order_id orders)" and "d \<in> set orders" and "order_id d' = order_id d"
  shows "paid_uses i (set_order d' orders) = paid_uses i (filter (\<lambda>e. order_id e \<noteq> order_id d) orders) + (if paid_with i d' then 1 else 0)"
    and "paid_uses i orders = paid_uses i (filter (\<lambda>e. order_id e \<noteq> order_id d) orders) + (if paid_with i d then 1 else 0)"
proof -
  obtain xs ys where split: "orders = xs @ d # ys" using assms(2) by (auto dest: split_list)
  have apart: "\<forall>e \<in> set xs \<union> set ys. order_id e \<noteq> order_id d" using assms(1) split by (force simp: image_iff)
  have other: "filter (\<lambda>e. order_id e \<noteq> order_id d) orders = xs @ ys"
    using apart by (simp add: split filter_id_conv)
  have "map (\<lambda>e. if order_id e = order_id d' then d' else e) zs = zs" if "\<forall>e \<in> set zs. order_id e \<noteq> order_id d" for zs
    using that assms(3) by (intro map_idI) auto
  then have "set_order d' orders = xs @ d' # ys" using apart assms(3) by (simp add: set_order_def split)
  then show "paid_uses i (set_order d' orders) = paid_uses i (filter (\<lambda>e. order_id e \<noteq> order_id d) orders) + (if paid_with i d' then 1 else 0)"
    unfolding other by (simp add: paid_uses_def)
  show "paid_uses i orders = paid_uses i (filter (\<lambda>e. order_id e \<noteq> order_id d) orders) + (if paid_with i d then 1 else 0)"
    unfolding other by (simp add: paid_uses_def split)
qed

text \<open>Paid orders are among those the limit check counts.\<close>

lemma paid_le_counted:
  "paid_uses i (filter (\<lambda>e. order_id e \<noteq> j) orders) \<le> countPromotionUsages orders i (Some j)"
proof -
  have "paid_with i e \<Longrightarrow> has_promotion i e \<and> order_state e \<noteq> Cancelled \<and> order_state e \<noteq> Draft \<and> \<not> active e \<and> order_type e \<noteq> Seller" for e
    by (auto simp: paid_with_def unpaid_state_def)
  then have "length (filter (paid_with i) (filter (\<lambda>e. order_id e \<noteq> j) orders))
      \<le> length (excluding (Some j) (placedOrdersWithPromotion i orders))"
    by (induction orders) (auto simp: excluding_def placedOrdersWithPromotion_def)
  then show ?thesis by (simp add: paid_uses_def countPromotionUsages_def)
qed

section \<open>What revalidation leaves\<close>

abbreviation revalidate_step :: "(string \<Rightarrow> order \<Rightarrow> bool) \<Rightarrow> string \<Rightarrow> string list \<times> order \<Rightarrow> string list \<times> order" where
  "revalidate_step valid \<equiv> \<lambda>code (removed, d).
     if valid code d then (removed, d)
     else (removed @ [code], d\<lparr>couponCodes := filter (\<lambda>c. c \<noteq> code) (couponCodes d)\<rparr>)"

lemma revalidate_loop:
  assumes "fold (revalidate_step valid) codes (rem, d) = (rem', d')"
    and "\<And>c cs. valid c (d\<lparr>couponCodes := cs\<rparr>) = v c"
  shows "\<exists>cs more. d' = d\<lparr>couponCodes := cs\<rparr> \<and> set cs \<subseteq> set (couponCodes d) \<and> (\<forall>c \<in> set cs \<inter> set codes. v c) \<and>
           rem' = rem @ more \<and> (more = [] \<longrightarrow> d' = d)"
  using assms
proof (induction codes arbitrary: rem d)
  case Nil
  then show ?case by (intro exI [of _ "couponCodes d"] exI [of _ "[]"]) simp
next
  case (Cons c codes)
  have v: "valid c d = v c" using Cons.prems(2) [of c "couponCodes d"] by simp
  show ?case
  proof (cases "v c")
    case True
    then have run: "fold (revalidate_step valid) codes (rem, d) = (rem', d')" using Cons.prems(1) v by simp
    from Cons.IH [OF this Cons.prems(2)] obtain cs more where "d' = d\<lparr>couponCodes := cs\<rparr>"
      "set cs \<subseteq> set (couponCodes d)" "\<forall>x \<in> set cs \<inter> set codes. v x" "rem' = rem @ more" "more = [] \<longrightarrow> d' = d" by blast
    then show ?thesis using True by - (rule exI [of _ cs], rule exI [of _ more], auto)
  next
    case False
    let ?d = "d\<lparr>couponCodes := filter (\<lambda>x. x \<noteq> c) (couponCodes d)\<rparr>"
    have run: "fold (revalidate_step valid) codes (rem @ [c], ?d) = (rem', d')" using Cons.prems(1) v False by simp
    have "valid x (?d\<lparr>couponCodes := cs\<rparr>) = v x" for x cs using Cons.prems(2) by simp
    from Cons.IH [OF run this] obtain cs more where "d' = ?d\<lparr>couponCodes := cs\<rparr>"
      "set cs \<subseteq> set (couponCodes ?d)" "\<forall>x \<in> set cs \<inter> set codes. v x" "rem' = (rem @ [c]) @ more" by blast
    then show ?thesis by - (rule exI [of _ cs], rule exI [of _ "c # more"], auto)
  qed
qed

lemma revalidate_keeps:
  assumes "revalidateCouponCodesForOrder (code_valid sh orders) (shop_reprice sh orders) d = Inr (removed, d')"
    and "distinct (map line_id (order_lines d))"
    and "\<forall>p \<in> set (promotions d). p \<in> set (getActivePromotionsInChannel (shop_ctx sh) (shop_rows sh)) \<and> coupon_ok p d"
  shows "order_id d' = order_id d \<and> (\<forall>c \<in> set (couponCodes d'). code_valid sh orders c d) \<and>
    (\<forall>p \<in> set (promotions d'). p \<in> set (getActivePromotionsInChannel (shop_ctx sh) (shop_rows sh)) \<and> coupon_ok p d')"
proof -
  obtain rem e where loop: "fold (revalidate_step (code_valid sh orders)) (couponCodes d) ([], d) = (rem, e)" by fastforce
  have out: "if rem = [] then d' = e else shop_reprice sh orders e = Inr d'"
    using assms(1) loop by (auto simp: revalidateCouponCodesForOrder_def bind_result_Inr)
  have "code_valid sh orders c (d\<lparr>couponCodes := cs\<rparr>) = code_valid sh orders c d" for c cs
    by (simp add: code_valid_def)
  from revalidate_loop [OF loop this] obtain cs where e: "e = d\<lparr>couponCodes := cs\<rparr>"
    and codes: "\<forall>c \<in> set cs. code_valid sh orders c d" and same: "rem = [] \<longrightarrow> e = d" by auto
  have valid: "\<forall>c \<in> set (couponCodes e). code_valid sh orders c d" using codes by (simp add: e)
  show ?thesis
  proof (cases "rem = []")
    case True
    then have "d' = d" "e = d" using out same by simp_all
    then show ?thesis using valid assms(3) by simp
  next
    case False
    then have "shop_reprice sh orders e = Inr d'" using out by simp
    from shop_reprice_keeps [OF this] show ?thesis
      using valid assms(2) header_fields [of d' e] by (simp add: e)
  qed
qed

text \<open>A promotion with a limit that an order keeps at payment was counted below its limit without it.\<close>

lemma kept_below_limit:
  assumes "codes_unique sh" and "p \<in> set (getActivePromotionsInChannel (shop_ctx sh) (shop_rows sh))"
    and "coupon_ok p d'" and "truthy_code (couponCode p)" and "usageLimit p = Some n"
    and "\<forall>c \<in> set (couponCodes d'). code_valid sh orders c d"
  shows "countPromotionUsages orders (promotion_id p) (Some (order_id d)) < n"
proof -
  obtain c cc where c: "couponCode p = Some c" "c \<noteq> []" "cc \<in> set (couponCodes d')" "couponCodesMatch cc c"
    using assms(3,4) by (auto simp: coupon_ok_def truthy_code_def split: option.splits)
  then obtain q where valid: "validateCouponCode (shop_ctx sh) (shop_rows sh) orders cc (customerId d) (Some (order_id d)) = Inr q"
    using bspec [OF assms(6) c(3)] by (cases "validateCouponCode (shop_ctx sh) (shop_rows sh) orders cc (customerId d) (Some (order_id d))")
      (auto simp: code_valid_def)
  then obtain r where r: "find_coupon (shop_ctx sh) (shop_rows sh) cc = Some r" and q: "q = row_promotion r"
    and below: "\<forall>m. usageLimit q = Some m \<longrightarrow> countPromotionUsages orders (promotion_id q) (Some (order_id d)) < m"
    by (auto simp: validateCouponCode_def Let_def split: option.splits if_splits)
  obtain e where e: "couponCode q = Some e" "couponCodesMatch e cc"
    and mem: "q \<in> set (getActivePromotionsInChannel (shop_ctx sh) (shop_rows sh))"
    using find_Some_in [OF r [unfolded find_coupon_def]]
    by (auto simp: q getActivePromotionsInChannel_def split: option.splits)
  have "couponCodesMatch c e" using c(4) e(2) by (simp add: couponCodesMatch_def)
  then have "p = q" using assms(1,2) mem c(1) e(1) by (auto simp: codes_unique_def)
  then show ?thesis using below assms(5) by simp
qed

section \<open>The limit holds\<close>

lemma checked_set_order:
  assumes "orders_checked sh orders"
    and "unpaid_state (order_state d) \<Longrightarrow>
           \<forall>p \<in> set (promotions d). p \<in> set (getActivePromotionsInChannel (shop_ctx sh) (shop_rows sh)) \<and> coupon_ok p d"
  shows "orders_checked sh (set_order d orders)"
  using assms by (auto simp: orders_checked_def dest!: set_order_cases)

lemma coupon_ok_state [simp]: "coupon_ok p (d\<lparr>order_state := s\<rparr>) = coupon_ok p d"
  by (simp add: coupon_ok_def cong: option.case_cong)

lemma checked_step:
  assumes "checkout sh orders orders'" and "orders_checked sh orders"
  shows "orders_checked sh orders'"
  using assms
proof cases
  case (edit d e d')
  then show ?thesis using assms(2) shop_reprice_keeps [of sh orders e d'] by (auto intro: checked_set_order)
next
  case (move d s)
  then have "\<forall>p \<in> set (promotions d). p \<in> set (getActivePromotionsInChannel (shop_ctx sh) (shop_rows sh)) \<and> coupon_ok p d"
    using assms(2) by (auto simp: orders_checked_def)
  then show ?thesis using move(1) assms(2) by (auto intro!: checked_set_order)
next
  case (pay d removed d' s)
  then show ?thesis using assms(2) by (auto intro!: checked_set_order simp: unpaid_state_def)
next
  case (advance d s)
  then show ?thesis using assms(2) by (auto intro!: checked_set_order)
qed

lemma row_ids_unique:
  assumes "codes_unique sh" and "p \<in> set (getActivePromotionsInChannel (shop_ctx sh) (shop_rows sh))"
    and "r \<in> set (shop_rows sh)" and "promotion_id (row_promotion r) = promotion_id p"
  shows "p = row_promotion r"
  using assms by (auto simp: codes_unique_def getActivePromotionsInChannel_def distinct_map inj_on_def)

lemma uses_step:
  assumes step: "checkout sh orders orders'" and checked: "orders_checked sh orders" and unique: "codes_unique sh"
    and r: "r \<in> set (shop_rows sh)" "truthy_code (couponCode (row_promotion r))" "usageLimit (row_promotion r) = Some n"
    and le: "paid_uses (promotion_id (row_promotion r)) orders \<le> n"
  shows "paid_uses (promotion_id (row_promotion r)) orders' \<le> n"
  using step
proof cases
  let ?i = "promotion_id (row_promotion r)"
  have ids: "distinct (map order_id orders)" using checked by (simp add: orders_checked_def)
  have bound: "paid_uses ?i (set_order d' orders) \<le> n"
    if "d \<in> set orders" "order_id d' = order_id d" "paid_with ?i d' \<Longrightarrow> paid_with ?i d" for d d'
    using paid_uses_set_order [OF ids that(1,2), of ?i] that(3) le by (auto split: if_splits)
  {
    case (edit d e d')
    then have "order_id d' = order_id d" "\<not> paid_with ?i d'"
      using shop_reprice_keeps [of sh orders e d'] header_fields [of d' e] by (auto simp: paid_with_def)
    then show ?thesis unfolding edit(1) by (intro bound [OF edit(2)]) auto
  next
    case (move d s)
    have "\<not> paid_with ?i (d\<lparr>order_state := s\<rparr>)" using move by (simp add: paid_with_def)
    then show ?thesis unfolding move(1) by (intro bound [OF move(2)]) auto
  next
    case (advance d s)
    have "paid_with ?i (d\<lparr>order_state := s\<rparr>) \<Longrightarrow> paid_with ?i d"
      using advance by (auto simp: paid_with_def has_promotion_def)
    then show ?thesis unfolding advance(1) by (intro bound [OF advance(2)]) auto
  next
    case (pay d removed d' s)
    have "\<forall>p \<in> set (promotions d). p \<in> set (getActivePromotionsInChannel (shop_ctx sh) (shop_rows sh)) \<and> coupon_ok p d"
      using checked pay(2,3) by (simp add: orders_checked_def unpaid_state_def)
    note kept = revalidate_keeps [OF pay(5,4) this]
    let ?d = "d'\<lparr>order_state := s, active := False\<rparr>"
    show ?thesis
    proof (cases "has_promotion ?i ?d")
      case False
      then show ?thesis unfolding pay(1) using kept by (intro bound [OF pay(2)]) (auto simp: paid_with_def)
    next
      case True
      then obtain p where p: "p \<in> set (promotions d')" "promotion_id p = ?i" by (auto simp: has_promotion_def)
      then have "p = row_promotion r" using kept row_ids_unique [OF unique _ r(1)] by metis
      then have "countPromotionUsages orders ?i (Some (order_id d)) < n"
        using kept_below_limit [OF unique, of p d'] kept p r by auto
      then have "paid_uses ?i (filter (\<lambda>e. order_id e \<noteq> order_id d) orders) < n"
        using paid_le_counted le_less_trans by blast
      then show ?thesis using paid_uses_set_order(1) [OF ids pay(2), of ?d ?i] kept pay(1) by simp
    qed
  }
qed

text \<open>
  C14: A coupon is never paid for more often than its usage limit allows. From any table of orders
  that respects the limit, after any interleaving of shoppers editing orders (each edit prices the
  order again), moving them to the payment stage and back, paying (one step, in which the codes are
  checked again) and paid orders going on to be shipped or cancelled, the paid orders that list the
  promotion are at most its limit. Coupon codes must be unique among the promotions on offer.
\<close>

theorem coupon_limit_respected:
  assumes "(checkout sh)\<^sup>*\<^sup>* orders orders'" and "orders_checked sh orders" and "codes_unique sh"
    and "r \<in> set (shop_rows sh)" and "truthy_code (couponCode (row_promotion r))"
    and "usageLimit (row_promotion r) = Some n" and "paid_uses (promotion_id (row_promotion r)) orders \<le> n"
  shows "paid_uses (promotion_id (row_promotion r)) orders' \<le> n"
proof -
  have "orders_checked sh orders' \<and> paid_uses (promotion_id (row_promotion r)) orders' \<le> n"
    using assms(1)
  proof (induction rule: rtranclp_induct)
    case base
    then show ?case using assms(2,7) by simp
  next
    case (step y z)
    then show ?case using checked_step uses_step [OF step(2) _ assms(3-6)] by blast
  qed
  then show ?thesis by simp
qed

section \<open>A sample shop\<close>

definition sample_coupon :: promotion where
  "sample_coupon = sample_promotion\<lparr>promotion_id := 8, couponCode := Some ''SUMMER'', usageLimit := Some 1\<rparr>"

definition sample_row :: promotion_row where
  "sample_row = \<lparr>row_promotion = sample_coupon, row_channels = [1], row_deletedAt = None\<rparr>"

definition sample_repricing :: repricing_config where
  "sample_repricing =
     \<lparr>rc_calculator = sample_cfg default_calculateOrderTotals, rc_selectPrice = default_selectPrice,
      rc_calculatePrice = default_calculatePrice, rc_calculateUnitPrice = default_calculateUnitPrice,
      rc_handlePriceChange = default_handlePriceChange, rc_promotionRows = [sample_row]\<rparr>"

definition empty_stock :: stock_db where
  "empty_stock =
     \<lparr>stock_levels = [], stock_movements = [], stock_locations = [], variants = [],
      settings = \<lparr>global_trackInventory = False, global_outOfStockThreshold = 0\<rparr>,
      placed_lines = [], next_level_id = 1, lock_log = [], stock_events = []\<rparr>"

definition sample_shop :: shop where
  "sample_shop =
     \<lparr>shop_repricing = sample_repricing, shop_ctx = sample_ctx,
      shop_cache = \<lparr>cache_activeTaxZone = None, cache_activeTaxZone_PPA = None, cache_exhaustedPromotions = None\<rparr>,
      shop_stock = empty_stock\<rparr>"

definition with_coupon :: "ID \<Rightarrow> order_state \<Rightarrow> order" where
  "with_coupon i s = (sample_order [])\<lparr>order_id := i, order_state := s, couponCodes := [''summer''], promotions := [sample_coupon]\<rparr>"

lemma sample_shop_checked: "orders_checked sample_shop [with_coupon 1 ArrangingPayment, with_coupon 2 AddingItems]"
  by (simp add: orders_checked_def sample_shop_def shop_rows_def sample_repricing_def sample_row_def with_coupon_def
      getActivePromotionsInChannel_def in_channel_def sample_ctx_def sample_coupon_def sample_promotion_def coupon_ok_def) code_simp

lemma sample_codes_unique: "codes_unique sample_shop"
  by (simp add: codes_unique_def sample_shop_def shop_rows_def sample_repricing_def getActivePromotionsInChannel_def)

lemma sample_payment_step:
  "checkout sample_shop [with_coupon 1 ArrangingPayment, with_coupon 2 AddingItems]
     [(with_coupon 1 PaymentSettled)\<lparr>active := False\<rparr>, with_coupon 2 AddingItems]"
proof -
  let ?orders = "[with_coupon 1 ArrangingPayment, with_coupon 2 AddingItems]"
  have "code_valid sample_shop ?orders ''summer'' (with_coupon 1 ArrangingPayment)" by code_simp
  then have "revalidateCouponCodesForOrder (code_valid sample_shop ?orders) (shop_reprice sample_shop ?orders)
      (with_coupon 1 ArrangingPayment) = Inr ([], with_coupon 1 ArrangingPayment)"
    by (simp add: revalidateCouponCodesForOrder_def with_coupon_def)
  then have "checkout sample_shop ?orders
      (set_order ((with_coupon 1 ArrangingPayment)\<lparr>order_state := PaymentSettled, active := False\<rparr>) ?orders)"
    by (intro checkout.pay [where removed = "[]" and d = "with_coupon 1 ArrangingPayment"])
      (simp_all add: with_coupon_def sample_order_def)
  then show ?thesis by (simp add: set_order_def with_coupon_def sample_order_def)
qed

theorem coupon_limit_respected_witness:
  "paid_uses 8 [(with_coupon 1 PaymentSettled)\<lparr>active := False\<rparr>, with_coupon 2 AddingItems] = 1 \<and>
   paid_uses 8 [(with_coupon 1 PaymentSettled)\<lparr>active := False\<rparr>, with_coupon 2 AddingItems] \<le> 1"
proof
  show "paid_uses 8 [(with_coupon 1 PaymentSettled)\<lparr>active := False\<rparr>, with_coupon 2 AddingItems] = 1" by code_simp
  have "paid_uses (promotion_id (row_promotion sample_row))
      [(with_coupon 1 PaymentSettled)\<lparr>active := False\<rparr>, with_coupon 2 AddingItems] \<le> 1"
  proof (rule coupon_limit_respected [OF _ sample_shop_checked sample_codes_unique])
    show "(checkout sample_shop)\<^sup>*\<^sup>* [with_coupon 1 ArrangingPayment, with_coupon 2 AddingItems]
        [(with_coupon 1 PaymentSettled)\<lparr>active := False\<rparr>, with_coupon 2 AddingItems]"
      by (rule r_into_rtranclp [where r = "checkout sample_shop", OF sample_payment_step])
    show "sample_row \<in> set (shop_rows sample_shop)"
      by (simp add: shop_rows_def sample_shop_def sample_repricing_def)
    show "truthy_code (couponCode (row_promotion sample_row))" by code_simp
    show "usageLimit (row_promotion sample_row) = Some 1" by (simp add: sample_row_def sample_coupon_def)
    show "paid_uses (promotion_id (row_promotion sample_row)) [with_coupon 1 ArrangingPayment, with_coupon 2 AddingItems] \<le> 1"
      by code_simp
  qed
  then show "paid_uses 8 [(with_coupon 1 PaymentSettled)\<lparr>active := False\<rparr>, with_coupon 2 AddingItems] \<le> 1"
    by (simp add: sample_row_def sample_coupon_def)
qed

section \<open>Where the checks fall short\<close>

text \<open>
  An order made from a draft is not active while it waits for its payment, so the two queries of
  the usage count both find it and it counts twice: with a limit of two, one such order takes the
  coupon away from everybody else although one use is left.
\<close>

theorem draft_counts_twice:
  "countPromotionUsages [(with_coupon 1 ArrangingPayment)\<lparr>active := False\<rparr>] 8 (Some 2) = 2 \<and>
   (let row = sample_row\<lparr>row_promotion := sample_coupon\<lparr>usageLimit := Some 2\<rparr>\<rparr> in
    (case validateCouponCode sample_ctx [row] [(with_coupon 1 ArrangingPayment)\<lparr>active := False\<rparr>] ''SUMMER'' None (Some 2) of
       Inl (CouponCodeLimitError code n) \<Rightarrow> n = 2 | _ \<Rightarrow> False) \<and>
    (case validateCouponCode sample_ctx [row] [with_coupon 1 ArrangingPayment] ''SUMMER'' None (Some 2) of
       Inr p \<Rightarrow> promotion_id p = 8 | _ \<Rightarrow> False))"
  by code_simp

text \<open>
  Two slips of updating a promotion. An update that sends neither conditions nor actions (to
  rename a promotion, say) sets its priority score to zero, whatever its conditions and actions say. And
  an update that clears the coupon code of a promotion without conditions passes the check that a
  promotion must have one or the other, because the check looks at the old code: the promotion then
  applies to every order.
\<close>

theorem promotion_update_slips:
  "pi_conditions input = None \<Longrightarrow> pi_actions input = None \<Longrightarrow> updatePromotion opts p input = Inr (PromotionSaved q) \<Longrightarrow>
     priorityScore q = 0 \<and> conditions q = conditions p \<and> actions q = actions p \<and>
     (pi_couponCode input = Some None \<and> conditions p = [] \<and> startsAt q = None \<and> endsAt q = None \<longrightarrow>
        (\<forall>ord. promotion_test opts ctx q ord = Some []))"
  by (auto simp: updatePromotion_def bind_result_Inr calculatePriorityScore_def parse_all_def promotion_test_def coupon_ok_def
      Let_def split: if_splits)

theorem promotion_update_slips_witness:
  "\<exists>q. updatePromotion (default_promotion_options (\<lambda>i. []) (\<lambda>i. [])) (sample_coupon\<lparr>conditions := []\<rparr>)
          \<lparr>pi_name = None, pi_enabled = None, pi_couponCode = Some None, pi_startsAt = None, pi_endsAt = None,
           pi_perCustomerUsageLimit = None, pi_usageLimit = None, pi_conditions = None, pi_actions = None\<rparr>
        = Inr (PromotionSaved q) \<and> priorityScore q = 0 \<and> couponCode q = None"
proof -
  let ?input = "\<lparr>pi_name = None, pi_enabled = None, pi_couponCode = Some None, pi_startsAt = None, pi_endsAt = None,
           pi_perCustomerUsageLimit = None, pi_usageLimit = None, pi_conditions = None, pi_actions = None\<rparr>"
  let ?opts = "default_promotion_options (\<lambda>i. []) (\<lambda>i. [])"
  let ?p = "sample_coupon\<lparr>conditions := []\<rparr>"
  obtain q where run: "updatePromotion ?opts ?p ?input = Inr (PromotionSaved q)" and code: "couponCode q = None"
    by (auto simp: updatePromotion_def calculatePriorityScore_def parse_all_def truthy_code_def sample_coupon_def)
  have "priorityScore q = 0" using promotion_update_slips [OF _ _ run] by simp
  then show ?thesis using run code by blast
qed

end
