(* ===== verification/CustomFields.thy ===== *)
theory CustomFields
  imports Entities LockOrder
begin

text \<open>
  When two sets of custom field values are the same: \<^verbatim>\<open>customFieldsAreEqual\<close> and
  \<^verbatim>\<open>coerceValue\<close> of \<^verbatim>\<open>order-modifier.ts\<close>. It decides whether an added item goes to
  a line that is there. Values are JSON; an absent key is \<^verbatim>\<open>undefined\<close>; the relations of a
  line, which the code loads for the comparison, are values with an \<^verbatim>\<open>id\<close>.
\<close>

type_synonym custom_fields = "(string, json) js_map"

record custom_field_def =
  cf_name :: string
  cf_type :: string
  cf_list :: bool
  cf_defaultValue :: "json option"

definition is_null :: "json option \<Rightarrow> bool" where
  "is_null v \<longleftrightarrow> v = None \<or> v = Some JNull"

definition json_truthy :: "json option \<Rightarrow> bool" where
  "json_truthy v =
     (case v of None \<Rightarrow> False
      | Some JNull \<Rightarrow> False
      | Some (JBool b) \<Rightarrow> b
      | Some (JNum n) \<Rightarrow> n \<noteq> 0
      | Some (JStr s) \<Rightarrow> s \<noteq> []
      | Some _ \<Rightarrow> True)"

text \<open>\<^verbatim>\<open>===\<close>: values that are not primitive are never the same object here.\<close>

definition strict_equal :: "json option \<Rightarrow> json option \<Rightarrow> bool" where
  "strict_equal a b \<longleftrightarrow> a = b \<and> (case a of Some (JArr xs) \<Rightarrow> False | Some (JObj m) \<Rightarrow> False | _ \<Rightarrow> True)"

definition json_length :: "json option \<Rightarrow> nat option" where
  "json_length v =
     (case v of Some (JArr xs) \<Rightarrow> Some (length xs) | Some (JStr s) \<Rightarrow> Some (length s) | _ \<Rightarrow> None)"

definition coerceValue :: "custom_field_def \<Rightarrow> custom_fields option \<Rightarrow> json option" where
  "coerceValue def existing =
     (let v = (case existing of None \<Rightarrow> None | Some m \<Rightarrow> map_get m (cf_name def))
      in if cf_type def = ''boolean'' then (case v of Some (JNum n) \<Rightarrow> Some (JBool (n \<noteq> 0)) | _ \<Rightarrow> v) else v)"

definition getGraphQlInputName :: "custom_field_def \<Rightarrow> string" where
  "getGraphQlInputName def =
     (if cf_type def = ''relation'' then (if cf_list def then cf_name def @ ''Ids'' else cf_name def @ ''Id'')
      else cf_name def)"

text \<open>Without input values every stored value must be empty or the default.\<close>

definition no_value :: "custom_field_def \<Rightarrow> custom_fields option \<Rightarrow> bool" where
  "no_value def existing \<longleftrightarrow>
     (let v = coerceValue def existing
      in is_null v \<or> (cf_list def \<and> json_length v = Some 0) \<or>
         (\<not> is_null (cf_defaultValue def) \<and> strict_equal v (cf_defaultValue def)))"

definition value_matches :: "custom_field_def \<Rightarrow> custom_fields option \<Rightarrow> custom_fields option \<Rightarrow> bool" where
  "value_matches def input existing \<longleftrightarrow>
     (let given = (case input of None \<Rightarrow> None | Some m \<Rightarrow> map_get m (cf_name def)); v = coerceValue def existing
      in v = None \<or> given = v \<or> (v = Some JNull \<and> given = None) \<or> (given = None \<and> strict_equal (cf_defaultValue def) v))"

text \<open>Lists of ids are sorted by their printed form, the default order of \<^verbatim>\<open>sort\<close>.\<close>

definition printed_id :: "json \<Rightarrow> string" where
  "printed_id v = (case v of JStr s \<Rightarrow> s | JNum n \<Rightarrow> print_nat (nat \<lfloor>n\<rfloor>) | _ \<Rightarrow> [])"

definition sorted_ids :: "json list \<Rightarrow> json list" where
  "sorted_ids = array_sort (\<lambda>a b. if str_less (printed_id a) (printed_id b) then -1
                                    else if str_less (printed_id b) (printed_id a) then 1 else 0)"

definition json_id :: "json \<Rightarrow> json option" where
  "json_id v = (case v of JObj m \<Rightarrow> map_of m ''id'' | _ \<Rightarrow> None)"

definition relation_matches :: "custom_field_def \<Rightarrow> custom_fields option \<Rightarrow> custom_fields option \<Rightarrow> bool" where
  "relation_matches def input existing \<longleftrightarrow>
     (let given = (case input of None \<Rightarrow> None | Some m \<Rightarrow> map_get m (getGraphQlInputName def));
          related = (case existing of None \<Rightarrow> None | Some m \<Rightarrow> map_get m (cf_name def))
      in \<not> json_truthy given \<or>
         (if cf_list def
          then (case (given, related) of
                  (Some (JArr xs), Some (JArr rs)) \<Rightarrow> sorted_ids xs = sorted_ids (map (\<lambda>r. nullish (json_id r) JNull) rs)
                | _ \<Rightarrow> False)
          else (case related of None \<Rightarrow> False | Some r \<Rightarrow> strict_equal given (json_id r))))"

definition customFieldsAreEqual :: "custom_field_def list \<Rightarrow> custom_fields option \<Rightarrow> custom_fields option \<Rightarrow> bool" where
  "customFieldsAreEqual defs input existing \<longleftrightarrow>
     (if input = None \<and> existing \<noteq> None then list_all (\<lambda>def. no_value def existing) defs
      else list_all (\<lambda>def. if cf_type def = ''relation'' then relation_matches def input existing
                           else value_matches def input existing) defs)"

text \<open>A boolean field holds no number, as the API parses it.\<close>

definition booleans_parsed :: "custom_field_def list \<Rightarrow> custom_fields \<Rightarrow> bool" where
  "booleans_parsed defs m \<longleftrightarrow>
     list_all (\<lambda>def. cf_type def = ''boolean'' \<longrightarrow> (case map_get m (cf_name def) of Some (JNum n) \<Rightarrow> False | _ \<Rightarrow> True)) defs"

lemma customFieldsAreEqual_same:
  assumes "list_all (\<lambda>def. cf_type def \<noteq> ''relation'') defs" and "booleans_parsed defs m"
  shows "customFieldsAreEqual defs (Some m) (Some m)"
  using assms
  by (auto simp: customFieldsAreEqual_def list_all_iff booleans_parsed_def value_matches_def coerceValue_def Let_def
      split: option.split json.split)

end
