(* ===== verification/OrderItems.thy ===== *)
theory OrderItems
  imports OrderRepricing StockMovements CustomFields
begin

text \<open>
  The items of an order: \<^verbatim>\<open>addItemsToOrder\<close>, \<^verbatim>\<open>adjustOrderLines\<close>,
  \<^verbatim>\<open>removeItemsFromOrder\<close> and \<^verbatim>\<open>removeAllItemsFromOrder\<close> of
  \<^verbatim>\<open>order.service.ts\<close> with the parts of \<^verbatim>\<open>order-modifier.ts\<close> they use. A call
  works through its items in order on the order, the tables and the errors so far; the order lines of the
  database are the rows \<open>placed_lines\<close> of the stock tables. Events are left out.
\<close>

section \<open>Configuration and errors\<close>

record order_interceptor =
  willAddItemToOrder :: "(order \<Rightarrow> product_variant \<Rightarrow> int \<Rightarrow> custom_fields option \<Rightarrow> string option) option"
  willAdjustOrderLine :: "(order \<Rightarrow> order_line \<Rightarrow> int \<Rightarrow> custom_fields option \<Rightarrow> string option) option"
  willRemoveItemFromOrder :: "(order \<Rightarrow> order_line \<Rightarrow> string option) option"

record items_config =
  orderItemsLimit :: int
  orderLineItemsLimit :: int
  orderInterceptors :: "order_interceptor list"
  ic_customFields :: "custom_field_def list"
  setOrderLineSellerChannel :: "(order_line \<Rightarrow> ID option) option"
  ic_strategy :: stock_location_strategy
  ic_repricing :: repricing_config
  ic_cache :: request_cache

datatype item_error =
    NegativeQuantityError
  | OrderModificationError
  | OrderLimitError int
  | InsufficientStockError int
  | OrderInterceptorError string

definition first_error :: "'e option list \<Rightarrow> 'e option" where
  "first_error es = (case filter (\<lambda>e. e \<noteq> None) es of [] \<Rightarrow> None | e # _ \<Rightarrow> e)"

text \<open>The first interceptor that answers with a message (not the empty one) stops the item.\<close>

definition interceptor_error :: "string option list \<Rightarrow> item_error option" where
  "interceptor_error answers =
     (case filter (\<lambda>a. a \<noteq> None \<and> a \<noteq> Some []) answers of
        Some message # _ \<Rightarrow> Some (OrderInterceptorError message) | _ \<Rightarrow> None)"

section \<open>Checks\<close>

definition assertQuantityIsPositive :: "int \<Rightarrow> item_error option" where
  "assertQuantityIsPositive q = (if q < 0 then Some NegativeQuantityError else None)"

definition assertAddingItemsState :: "order \<Rightarrow> item_error option" where
  "assertAddingItemsState ord =
     (if order_state ord \<noteq> AddingItems \<and> order_state ord \<noteq> Draft then Some OrderModificationError else None)"

definition assertNotOverOrderItemsLimit :: "items_config \<Rightarrow> order \<Rightarrow> int \<Rightarrow> item_error option" where
  "assertNotOverOrderItemsLimit cfg ord quantityToAdd =
     (if orderItemsLimit cfg < summate (order_lines ord) quantity + quantityToAdd
      then Some (OrderLimitError (orderItemsLimit cfg)) else None)"

definition assertNotOverOrderLineItemsLimit :: "items_config \<Rightarrow> order_line option \<Rightarrow> int \<Rightarrow> item_error option" where
  "assertNotOverOrderLineItemsLimit cfg line quantityToAdd =
     (let currentQuantity = (case line of None \<Rightarrow> 0 | Some l \<Rightarrow> quantity l)
      in if orderLineItemsLimit cfg < currentQuantity + quantityToAdd
         then Some (OrderLimitError (orderLineItemsLimit cfg)) else None)"

definition getOrderLineOrThrow :: "order \<Rightarrow> ID \<Rightarrow> order_line result" where
  "getOrderLineOrThrow ord i =
     (case find_line i ord of
        None \<Rightarrow> Inl (UserInputError ''error.order-does-not-contain-line-with-id'') | Some l \<Rightarrow> Inr l)"

section \<open>Order lines\<close>

definition constrainQuantityToSaleable ::
  "stock_location_strategy \<Rightarrow> request_context \<Rightarrow> product_variant \<Rightarrow> int \<Rightarrow> int \<Rightarrow> int \<Rightarrow> bool \<Rightarrow> stock_db \<Rightarrow>
     (int \<times> stock_db) result" where
  "constrainQuantityToSaleable strategy ctx v q existingOrderLineQuantity quantityInOtherOrderLines lockStockLevels db =
     bind_result (getSaleableStockLevel strategy ctx v lockStockLevels db) (\<lambda>(saleableStockLevel, db').
       let correctedQuantity = q + existingOrderLineQuantity
       in Inr (if saleableStockLevel < correctedQuantity + quantityInOtherOrderLines
               then max (saleableStockLevel - existingOrderLineQuantity - quantityInOtherOrderLines) 0
               else correctedQuantity, db'))"

definition getExistingOrderLine :: "items_config \<Rightarrow> order \<Rightarrow> ID \<Rightarrow> custom_fields option \<Rightarrow> order_line option" where
  "getExistingOrderLine cfg ord variantId given =
     List.find (\<lambda>l. idsAreEqual (Some (productVariantId l)) (Some variantId) \<and>
         customFieldsAreEqual (ic_customFields cfg) given (line_customFields l)) (order_lines ord)"

text \<open>A row of the order line table is saved over the one with its id, or added.\<close>

definition save_line_row :: "order \<Rightarrow> order_line \<Rightarrow> stock_db \<Rightarrow> stock_db" where
  "save_line_row ord l db =
     db\<lparr>placed_lines :=
       (if line_id l \<in> set (map (line_id \<circ> snd) (placed_lines db))
        then map (\<lambda>r. if line_id (snd r) = line_id l then (fst r, l) else r) (placed_lines db)
        else placed_lines db @ [(order_id ord, l)])\<rparr>"

definition remove_line_rows :: "ID list \<Rightarrow> stock_db \<Rightarrow> stock_db" where
  "remove_line_rows ids db = db\<lparr>placed_lines := filter (\<lambda>r. line_id (snd r) \<notin> set ids) (placed_lines db)\<rparr>"

definition getProductVariantOrThrow ::
  "items_config \<Rightarrow> request_context \<Rightarrow> ID \<Rightarrow> order \<Rightarrow> stock_db \<Rightarrow> priced_variant result" where
  "getProductVariantOrThrow cfg ctx variantId ord db =
     bind_result (variantOrThrow False variantId db) (\<lambda>v.
       if ctx_channelId ctx \<notin> set (variant_channels v) then Inl (EntityNotFoundError ''ProductVariant'' variantId)
       else applyChannelPriceAndTax (ic_repricing cfg) ctx (cache_activeTaxZone_PPA (ic_cache cfg)) False (Some ord) v)"

definition getOrCreateOrderLine ::
  "items_config \<Rightarrow> request_context \<Rightarrow> ID \<Rightarrow> order \<Rightarrow> ID \<Rightarrow> custom_fields option \<Rightarrow> stock_db \<Rightarrow>
     (order_line \<times> order \<times> stock_db) result" where
  "getOrCreateOrderLine cfg ctx newId ord variantId given db =
     (case getExistingOrderLine cfg ord variantId given of
        Some l \<Rightarrow> Inr (l, ord, db)
      | None \<Rightarrow>
          bind_result (getProductVariantOrThrow cfg ctx variantId ord db) (\<lambda>pv.
            let created = \<lparr>listPrice = pv_listPrice pv, listPriceIncludesTax = pv_listPriceIncludesTax pv,
                  taxLines = [], adjustments = [], line_id = newId, quantity = 0, orderPlacedQuantity = 0,
                  initialListPrice = None, productVariantId = variantId,
                  taxCategoryId = variant_taxCategoryId (pv_variant pv), shippingLineId = None,
                  sellerChannelId = None, line_customFields = given\<rparr>;
                l = (case setOrderLineSellerChannel cfg of None \<Rightarrow> created
                     | Some f \<Rightarrow> created\<lparr>sellerChannelId := f created\<rparr>);
                ord' = ord\<lparr>order_lines := order_lines ord @ [l]\<rparr>
            in Inr (l, ord', save_line_row ord' l db)))"

definition stock_of_quantity_change ::
  "stock_location_strategy \<Rightarrow> request_context \<Rightarrow> order_line \<Rightarrow> int \<Rightarrow> stock_db \<Rightarrow> stock_db result" where
  "stock_of_quantity_change strategy ctx l q db =
     (if quantity l < q
      then bind_result (createAllocationsForOrderLines strategy ctx
             [\<lparr>orderLineId = line_id l, input_quantity = q - quantity l\<rparr>] db) (\<lambda>(ms, db'). Inr db')
      else if q < quantity l
      then bind_result (createCancellationsForOrderLines strategy [\<lparr>orderLineId = line_id l, input_quantity = q\<rparr>] db)
             (\<lambda>(ms, db').
               bind_result (createReleasesForOrderLines strategy [\<lparr>orderLineId = line_id l, input_quantity = q\<rparr>] db')
                 (\<lambda>(ms', db''). Inr db''))
      else Inr db)"

definition updateOrderLineQuantity ::
  "stock_location_strategy \<Rightarrow> request_context \<Rightarrow> order_line \<Rightarrow> int \<Rightarrow> order \<Rightarrow> stock_db \<Rightarrow> (order \<times> stock_db) result" where
  "updateOrderLineQuantity strategy ctx l q ord db =
     bind_result (if \<not> active ord \<and> order_state ord \<noteq> Draft then stock_of_quantity_change strategy ctx l q db else Inr db)
       (\<lambda>db'. let l' = l\<lparr>quantity := q\<rparr> in Inr (set_line l' ord, save_line_row ord l' db'))"

definition quantity_in_other_lines :: "ID \<Rightarrow> ID option \<Rightarrow> order \<Rightarrow> int" where
  "quantity_in_other_lines variantId lineId ord =
     summate (filter (\<lambda>l. idsAreEqual (Some (productVariantId l)) (Some variantId) \<and>
         \<not> idsAreEqual (Some (line_id l)) lineId) (order_lines ord)) quantity"

section \<open>Adding items\<close>

record add_item =
  ai_productVariantId :: ID
  ai_quantity :: int
  ai_customFields :: "custom_fields option"

text \<open>The state of a call: the order, the tables, the errors, the lines updated, the next line id.\<close>

record items_state =
  is_order :: order
  is_stock :: stock_db
  is_errors :: "item_error list"
  is_updated :: "ID list"
  is_nextId :: ID

definition push_error :: "item_error \<Rightarrow> items_state \<Rightarrow> items_state" where
  "push_error e s = s\<lparr>is_errors := is_errors s @ [e]\<rparr>"

definition saleableVariantOrThrow :: "ID \<Rightarrow> stock_db \<Rightarrow> product_variant result" where
  "saleableVariantOrThrow i db =
     bind_result (variantOrThrow False i db) (\<lambda>v.
       if \<not> variant_enabled v \<or> \<not> product_enabled v then Inl (EntityNotFoundError ''ProductVariant'' i) else Inr v)"

definition store_item ::
  "items_config \<Rightarrow> request_context \<Rightarrow> add_item \<Rightarrow> int \<Rightarrow> items_state \<Rightarrow> items_state result" where
  "store_item cfg ctx item correctedQuantity s =
     (let existing = getExistingOrderLine cfg (is_order s) (ai_productVariantId item) (ai_customFields item)
      in bind_result (getOrCreateOrderLine cfg ctx (is_nextId s) (is_order s) (ai_productVariantId item)
             (ai_customFields item) (is_stock s))
           (\<lambda>(l, ord, db).
             let newQuantity = (if correctedQuantity < ai_quantity item
                   then (case existing of None \<Rightarrow> 0 | Some e \<Rightarrow> quantity e) + correctedQuantity
                   else correctedQuantity)
             in bind_result (updateOrderLineQuantity (ic_strategy cfg) ctx l newQuantity ord db)
                  (\<lambda>(ord', db').
                    Inr \<lparr>is_order = ord', is_stock = db',
                      is_errors = is_errors s @ (if correctedQuantity < ai_quantity item
                        then [InsufficientStockError correctedQuantity] else []),
                      is_updated = is_updated s @ [line_id l],
                      is_nextId = (if existing = None then Suc (is_nextId s) else is_nextId s)\<rparr>)))"

definition add_one_item :: "items_config \<Rightarrow> request_context \<Rightarrow> add_item \<Rightarrow> items_state \<Rightarrow> items_state result" where
  "add_one_item cfg ctx item s =
     (let ord = is_order s; q = ai_quantity item; variantId = ai_productVariantId item;
          existing = getExistingOrderLine cfg ord variantId (ai_customFields item)
      in case first_error [assertQuantityIsPositive q, assertAddingItemsState ord,
                           assertNotOverOrderItemsLimit cfg ord q, assertNotOverOrderLineItemsLimit cfg existing q] of
           Some e \<Rightarrow> Inr (push_error e s)
         | None \<Rightarrow>
             bind_result (saleableVariantOrThrow variantId (is_stock s)) (\<lambda>v.
               bind_result (constrainQuantityToSaleable (ic_strategy cfg) ctx v q
                    (case existing of None \<Rightarrow> 0 | Some l \<Rightarrow> quantity l)
                    (quantity_in_other_lines variantId (map_option line_id existing) ord) False (is_stock s))
                 (\<lambda>(correctedQuantity, db).
                   let s' = s\<lparr>is_stock := db\<rparr>
                   in if correctedQuantity = 0 then Inr (push_error (InsufficientStockError 0) s')
                      else case interceptor_error (map (\<lambda>i. case willAddItemToOrder i of None \<Rightarrow> None
                               | Some f \<Rightarrow> f ord v correctedQuantity (ai_customFields item)) (orderInterceptors cfg)) of
                             Some e \<Rightarrow> Inr (push_error e s')
                           | None \<Rightarrow> store_item cfg ctx item correctedQuantity s')))"

text \<open>At the end the order is priced again, and its totals and lines are what the caller gets.\<close>

definition finish_items ::
  "items_config \<Rightarrow> request_context \<Rightarrow> order list \<Rightarrow> items_state \<Rightarrow> (order \<times> stock_db \<times> item_error list) result" where
  "finish_items cfg ctx orders s =
     bind_result (service_applyPriceAdjustments (ic_repricing cfg) ctx (ic_cache cfg)
         \<lparr>tab_orders = orders, tab_surcharges = surcharges (is_order s), tab_stock = is_stock s\<rparr>
         (is_order s) (is_updated s) default_price_options)
       (\<lambda>(ord', effects). Inr (ord', is_stock s, is_errors s))"

definition addItemsToOrder ::
  "items_config \<Rightarrow> request_context \<Rightarrow> order list \<Rightarrow> order \<Rightarrow> stock_db \<Rightarrow> ID \<Rightarrow> add_item list \<Rightarrow>
     (order \<times> stock_db \<times> item_error list) result" where
  "addItemsToOrder cfg ctx orders ord db nextId items =
     bind_result (fold_result (add_one_item cfg ctx) items
         \<lparr>is_order = ord, is_stock = db, is_errors = [], is_updated = [], is_nextId = nextId\<rparr>)
       (finish_items cfg ctx orders)"

section \<open>Adjusting lines\<close>

record adjust_line =
  al_orderLineId :: ID
  al_quantity :: int
  al_customFields :: "custom_fields option"

definition merge_customFields :: "custom_fields option \<Rightarrow> order_line \<Rightarrow> order_line" where
  "merge_customFields given l =
     (case given of None \<Rightarrow> l
      | Some m \<Rightarrow> l\<lparr>line_customFields := Some (fold (\<lambda>(k, v). map_set k v) m (nullish (line_customFields l) []))\<rparr>)"

definition store_adjustment ::
  "items_config \<Rightarrow> request_context \<Rightarrow> order_line \<Rightarrow> int \<Rightarrow> int \<Rightarrow> items_state \<Rightarrow> items_state result" where
  "store_adjustment cfg ctx l q correctedQuantity s =
     (let errors = is_errors s @ (if correctedQuantity < q then [InsufficientStockError correctedQuantity] else [])
      in if correctedQuantity = 0
         then Inr (s\<lparr>is_order := (is_order s)\<lparr>order_lines :=
                       filter (\<lambda>x. \<not> idsAreEqual (Some (line_id x)) (Some (line_id l))) (order_lines (is_order s))\<rparr>,
                     is_stock := remove_line_rows [line_id l] (is_stock s), is_errors := errors\<rparr>)
         else bind_result (updateOrderLineQuantity (ic_strategy cfg) ctx l correctedQuantity (is_order s) (is_stock s))
                (\<lambda>(ord', db'). Inr (s\<lparr>is_order := ord', is_stock := db', is_errors := errors,
                                     is_updated := is_updated s @ [line_id l]\<rparr>)))"

definition adjust_one_line :: "items_config \<Rightarrow> request_context \<Rightarrow> adjust_line \<Rightarrow> items_state \<Rightarrow> items_state result" where
  "adjust_one_line cfg ctx row s =
     (let ord = is_order s; q = al_quantity row
      in bind_result (getOrderLineOrThrow ord (al_orderLineId row)) (\<lambda>line.
           case first_error [assertAddingItemsState ord, assertQuantityIsPositive q,
                             assertNotOverOrderItemsLimit cfg ord (q - quantity line),
                             assertNotOverOrderLineItemsLimit cfg (Some line) (q - quantity line)] of
             Some e \<Rightarrow> Inr (push_error e s)
           | None \<Rightarrow>
               case interceptor_error (map (\<lambda>i. case willAdjustOrderLine i of None \<Rightarrow> None
                       | Some f \<Rightarrow> f ord line q (al_customFields row)) (orderInterceptors cfg)) of
                 Some e \<Rightarrow> Inr (push_error e s)
               | None \<Rightarrow>
                   let l = merge_customFields (al_customFields row) line
                   in bind_result (variantOrThrow True (productVariantId l) (is_stock s)) (\<lambda>v.
                        bind_result (constrainQuantityToSaleable (ic_strategy cfg) ctx v q 0
                            (quantity_in_other_lines (productVariantId l) (Some (al_orderLineId row)) ord) False (is_stock s))
                          (\<lambda>(correctedQuantity, db).
                            store_adjustment cfg ctx l q correctedQuantity
                              (s\<lparr>is_order := set_line l ord, is_stock := db\<rparr>)))))"

definition adjustOrderLines ::
  "items_config \<Rightarrow> request_context \<Rightarrow> order list \<Rightarrow> order \<Rightarrow> stock_db \<Rightarrow> adjust_line list \<Rightarrow>
     (order \<times> stock_db \<times> item_error list) result" where
  "adjustOrderLines cfg ctx orders ord db rows =
     bind_result (fold_result (adjust_one_line cfg ctx) rows
         \<lparr>is_order = ord, is_stock = db, is_errors = [], is_updated = [], is_nextId = 0\<rparr>)
       (finish_items cfg ctx orders)"

section \<open>Removing items\<close>

definition lines_to_delete ::
  "items_config \<Rightarrow> order \<Rightarrow> ID list \<Rightarrow> item_error option result" where
  "lines_to_delete cfg ord ids =
     fold_result (\<lambda>i found.
         if found \<noteq> None then Inr found
         else bind_result (getOrderLineOrThrow ord i) (\<lambda>l.
                Inr (interceptor_error (map (\<lambda>ic. case willRemoveItemFromOrder ic of None \<Rightarrow> None
                      | Some f \<Rightarrow> f ord l) (orderInterceptors cfg))))) ids None"

definition removeItemsFromOrder ::
  "items_config \<Rightarrow> request_context \<Rightarrow> order list \<Rightarrow> order \<Rightarrow> stock_db \<Rightarrow> ID list \<Rightarrow> (item_error + order \<times> stock_db) result" where
  "removeItemsFromOrder cfg ctx orders ord db ids =
     (case assertAddingItemsState ord of
        Some e \<Rightarrow> Inr (Inl e)
      | None \<Rightarrow>
          bind_result (lines_to_delete cfg ord ids) (\<lambda>found.
            case found of
              Some e \<Rightarrow> Inr (Inl e)
            | None \<Rightarrow>
                let ord1 = ord\<lparr>order_lines := filter (\<lambda>l. line_id l \<notin> set ids) (order_lines ord)\<rparr>
                in bind_result (finish_items cfg ctx orders
                       \<lparr>is_order = ord1, is_stock = db, is_errors = [], is_updated = [], is_nextId = 0\<rparr>)
                     (\<lambda>(ord', db', es). Inr (Inr (ord', remove_line_rows ids db')))))"

definition removeAllItemsFromOrder ::
  "items_config \<Rightarrow> request_context \<Rightarrow> order list \<Rightarrow> order \<Rightarrow> stock_db \<Rightarrow> (item_error + order \<times> stock_db) result" where
  "removeAllItemsFromOrder cfg ctx orders ord db =
     (case assertAddingItemsState ord of
        Some e \<Rightarrow> Inr (Inl e)
      | None \<Rightarrow>
          case first_error (map (\<lambda>l. interceptor_error (map (\<lambda>ic. case willRemoveItemFromOrder ic of None \<Rightarrow> None
                      | Some f \<Rightarrow> f ord l) (orderInterceptors cfg))) (order_lines ord)) of
            Some e \<Rightarrow> Inr (Inl e)
          | None \<Rightarrow>
              bind_result (finish_items cfg ctx orders
                  \<lparr>is_order = ord\<lparr>order_lines := []\<rparr>, is_stock = remove_line_rows (map line_id (order_lines ord)) db,
                   is_errors = [], is_updated = [], is_nextId = 0\<rparr>)
                (\<lambda>(ord', db', es). Inr (Inr (ord', db'))))"

end
