(* ===== verification/ItemLimits.thy ===== *)
theory ItemLimits
  imports OrderItems
begin

text \<open>
  What adding and adjusting items promises: the limits on the quantities of an order and of a line
  hold, and no variant is ordered beyond its saleable stock by such a call, however many items it has
  and however they fall on lines.
\<close>

section \<open>Quantities of an order\<close>

definition variant_quantity :: "ID \<Rightarrow> order \<Rightarrow> int" where
  "variant_quantity i ord = sum_list (map quantity (filter (\<lambda>l. productVariantId l = i) (order_lines ord)))"

definition saleable :: "stock_location_strategy \<Rightarrow> request_context \<Rightarrow> stock_db \<Rightarrow> ID \<Rightarrow> int option" where
  "saleable strategy ctx db i =
     (case variantOrThrow True i db of
        Inl e \<Rightarrow> None
      | Inr v \<Rightarrow> (case getSaleableStockLevel strategy ctx v False db of Inl e \<Rightarrow> None | Inr (n, db') \<Rightarrow> Some n))"

lemma total_quantity_sum: "totalQuantity ord = sum_list (map quantity (order_lines ord))"
  by (simp add: totalQuantity_def total_simps)

lemma sum_set_line:
  assumes "distinct (map line_id (order_lines ord))" and "l \<in> set (order_lines ord)"
    and "line_id l' = line_id l" and "P l' = P l"
  shows "sum_list (map quantity (filter P (order_lines (set_line l' ord)))) =
           sum_list (map quantity (filter P (order_lines ord))) - (if P l then quantity l - quantity l' else 0)"
proof -
  obtain xs ys where split: "order_lines ord = xs @ l # ys" using assms(2) by (auto dest: split_list)
  have "map (\<lambda>x. if line_id x = line_id l' then l' else x) zs = zs" if "line_id l \<notin> line_id ` set zs" for zs
    using that assms(3) by (intro map_idI) (metis imageI)
  then have "order_lines (set_line l' ord) = xs @ l' # ys"
    using assms(1,3) by (simp add: set_line_def split)
  then show ?thesis using assms(4) by (simp add: split)
qed

lemma total_set_line:
  "distinct (map line_id (order_lines ord)) \<Longrightarrow> l \<in> set (order_lines ord) \<Longrightarrow> line_id l' = line_id l \<Longrightarrow>
   totalQuantity (set_line l' ord) = totalQuantity ord - quantity l + quantity l'"
  using sum_set_line [of ord l l' "\<lambda>l. True"] by (simp add: total_quantity_sum)

lemma variant_set_line:
  "distinct (map line_id (order_lines ord)) \<Longrightarrow> l \<in> set (order_lines ord) \<Longrightarrow> line_id l' = line_id l \<Longrightarrow>
   productVariantId l' = productVariantId l \<Longrightarrow>
   variant_quantity i (set_line l' ord) =
     variant_quantity i ord + (if productVariantId l = i then quantity l' - quantity l else 0)"
  using sum_set_line [of ord l l' "\<lambda>l. productVariantId l = i"] by (auto simp: variant_quantity_def)

lemma set_line_ids [simp]: "map line_id (order_lines (set_line l ord)) = map line_id (order_lines ord)"
  by (simp add: set_line_def comp_def)

lemma set_line_cases: "x \<in> set (order_lines (set_line l ord)) \<Longrightarrow> x = l \<or> x \<in> set (order_lines ord)"
  by (auto simp: set_line_def split: if_splits)

lemma sum_without_line:
  assumes "distinct (map line_id (order_lines ord))" and "l \<in> set (order_lines ord)"
  shows "sum_list (map quantity (filter (\<lambda>x. P x \<and> line_id x \<noteq> line_id l) (order_lines ord))) =
           sum_list (map quantity (filter P (order_lines ord))) - (if P l then quantity l else 0)"
proof -
  obtain xs ys where split: "order_lines ord = xs @ l # ys" using assms(2) by (auto dest: split_list)
  have "filter (\<lambda>x. P x \<and> line_id x \<noteq> line_id l) zs = filter P zs" if "line_id l \<notin> line_id ` set zs" for zs
    using that by (intro filter_cong) (auto, metis imageI)
  then show ?thesis using assms(1) by (simp add: split)
qed

lemma other_lines_Some:
  "distinct (map line_id (order_lines ord)) \<Longrightarrow> l \<in> set (order_lines ord) \<Longrightarrow> productVariantId l = i \<Longrightarrow>
   quantity_in_other_lines i (Some (line_id l)) ord = variant_quantity i ord - quantity l"
  using sum_without_line [of ord l "\<lambda>l. productVariantId l = i"]
  by (simp add: quantity_in_other_lines_def variant_quantity_def total_simps)

lemma other_lines_None: "quantity_in_other_lines i None ord = variant_quantity i ord"
  by (simp add: quantity_in_other_lines_def variant_quantity_def total_simps)

lemma constrain_Inr:
  "constrainQuantityToSaleable strategy ctx v q e other False db = Inr (c, db') \<Longrightarrow>
   (\<exists>n. getSaleableStockLevel strategy ctx v False db = Inr (n, db') \<and>
      c = (if n < q + e + other then max (n - e - other) 0 else q + e)) \<and> db' = db"
  by (auto simp: constrainQuantityToSaleable_def getSaleableStockLevel_def getAvailableStock_def bind_result_Inr Let_def
      split: if_splits)

section \<open>What each step keeps\<close>

text \<open>
  A strategy that reads the levels and the locations but not the order lines; both shipped ones
  are such.
\<close>

locale level_reader =
  fixes strategy :: stock_location_strategy and ctx :: request_context
  assumes reads_levels: "strategy_getAvailableStock strategy ctx (db\<lparr>placed_lines := rows\<rparr>) = strategy_getAvailableStock strategy ctx db"
begin

lemma saleable_rows: "saleable strategy ctx (db\<lparr>placed_lines := rows\<rparr>) i = saleable strategy ctx db i"
proof -
  have "getSaleableStockLevel strategy ctx v False (db\<lparr>placed_lines := rows\<rparr>) =
      bind_result (getSaleableStockLevel strategy ctx v False db) (\<lambda>(n, db'). Inr (n, db'\<lparr>placed_lines := rows\<rparr>))" for v
  proof -
    have "getVariantStockSettings (db\<lparr>placed_lines := rows\<rparr>) v = getVariantStockSettings db v"
      "batchLoadStockLevels (db\<lparr>placed_lines := rows\<rparr>) ids = batchLoadStockLevels db ids" for ids
      by (simp_all add: getVariantStockSettings_def batchLoadStockLevels_def)
    then show ?thesis
      unfolding getSaleableStockLevel_def getAvailableStock_def if_False Let_def split_conv reads_levels
      by (cases "strategy_getAvailableStock strategy ctx db (hd (batchLoadStockLevels db [variant_id v]))") (auto simp: split_beta)
  qed
  moreover have "variantOrThrow True i (db\<lparr>placed_lines := rows\<rparr>) = variantOrThrow True i db"
    by (simp add: variantOrThrow_def)
  ultimately show ?thesis
    by (auto simp: saleable_def bind_result_Inr split: sum.splits)
qed

lemma ordered_pairs:
  assumes "map ordered xs = map ordered ys"
  shows "map (\<lambda>l. (productVariantId l, quantity l)) xs = map (\<lambda>l. (productVariantId l, quantity l)) ys"
proof -
  have "map snd (map ordered xs) = map snd (map ordered ys)" by (simp only: assms)
  then show ?thesis by (simp add: ordered_def comp_def)
qed

text \<open>What holds of the state of a call that began with \<open>ord0\<close> and \<open>db0\<close>.\<close>

definition items_ok :: "items_config \<Rightarrow> order \<Rightarrow> stock_db \<Rightarrow> items_state \<Rightarrow> bool" where
  "items_ok cfg ord0 db0 s \<longleftrightarrow>
     distinct (map line_id (order_lines (is_order s))) \<and>
     (active (is_order s) \<or> order_state (is_order s) = Draft) \<and>
     (\<exists>rows. is_stock s = db0\<lparr>placed_lines := rows\<rparr>) \<and>
     (\<forall>l \<in> set (order_lines (is_order s)). 0 \<le> quantity l \<and> quantity l \<le> orderLineItemsLimit cfg) \<and>
     totalQuantity (is_order s) \<le> orderItemsLimit cfg \<and>
     (\<forall>i n. saleable strategy ctx db0 i = Some n \<longrightarrow> variant_quantity i (is_order s) \<le> max (variant_quantity i ord0) n)"

definition fresh_ids :: "items_state \<Rightarrow> bool" where
  "fresh_ids s \<longleftrightarrow> (\<forall>l \<in> set (order_lines (is_order s)). line_id l < is_nextId s)"

lemma update_quantity_open:
  "active ord \<or> order_state ord = Draft \<Longrightarrow>
   updateOrderLineQuantity strategy ctx l q ord db = Inr (set_line (l\<lparr>quantity := q\<rparr>) ord, save_line_row ord (l\<lparr>quantity := q\<rparr>) db)"
  by (auto simp: updateOrderLineQuantity_def Let_def)

text \<open>Giving a line a quantity that its variant, the line and the order have room for.\<close>

lemma items_ok_set_line:
  assumes ok: "items_ok cfg ord0 db0 s" and l: "l \<in> set (order_lines (is_order s))"
    and l': "line_id l' = line_id l" "productVariantId l' = productVariantId l"
    and room: "0 \<le> quantity l'" "quantity l' \<le> orderLineItemsLimit cfg"
      "totalQuantity (is_order s) - quantity l + quantity l' \<le> orderItemsLimit cfg"
      "\<And>n. saleable strategy ctx db0 (productVariantId l) = Some n \<Longrightarrow>
         variant_quantity (productVariantId l) (is_order s) - quantity l + quantity l'
           \<le> max (variant_quantity (productVariantId l) ord0) n"
    and t: "is_order t = set_line l' (is_order s)" "\<exists>rows. is_stock t = db0\<lparr>placed_lines := rows\<rparr>"
  shows "items_ok cfg ord0 db0 t"
proof -
  have ids: "distinct (map line_id (order_lines (is_order s)))" using ok by (simp add: items_ok_def)
  have "variant_quantity i (is_order t) \<le> max (variant_quantity i ord0) n" if "saleable strategy ctx db0 i = Some n" for i n
    using that ok room(4) variant_set_line [OF ids l l', of i] by (auto simp: t items_ok_def algebra_simps)
  moreover have "totalQuantity (is_order t) \<le> orderItemsLimit cfg"
    using room(3) total_set_line [OF ids l l'(1)] by (simp add: t)
  moreover have "active (is_order t) = active (is_order s)" "order_state (is_order t) = order_state (is_order s)"
    by (simp_all add: t set_line_def)
  ultimately show ?thesis using ok room(1,2) t(2)
    by (auto simp: items_ok_def t(1) dest!: set_line_cases)
qed

lemma saleable_at:
  assumes "variantOrThrow b i db = Inr v" and "getSaleableStockLevel strategy ctx v False db = Inr (n, db')"
  shows "saleable strategy ctx db i = Some n"
proof -
  have "variantOrThrow True i db = Inr v" using assms(1) by (auto simp: variantOrThrow_def split: option.splits if_splits)
  then show ?thesis using assms(2) by (simp add: saleable_def)
qed

lemma constrained:
  assumes "items_ok cfg ord0 db0 s" and "variantOrThrow b i (is_stock s) = Inr v"
    and "constrainQuantityToSaleable strategy ctx v q e other False (is_stock s) = Inr (c, db')"
  obtains n where "saleable strategy ctx db0 i = Some n" and "db' = is_stock s"
    and "c = (if n < q + e + other then max (n - e - other) 0 else q + e)"
proof -
  obtain n where n: "getSaleableStockLevel strategy ctx v False (is_stock s) = Inr (n, db')"
    "c = (if n < q + e + other then max (n - e - other) 0 else q + e)" "db' = is_stock s"
    using constrain_Inr [OF assms(3)] by blast
  obtain rows where "is_stock s = db0\<lparr>placed_lines := rows\<rparr>" using assms(1) by (auto simp: items_ok_def)
  then have "saleable strategy ctx db0 i = Some n" using saleable_at [OF assms(2) n(1)] saleable_rows by simp
  then show thesis using that n by blast
qed

end

lemma save_rows: "\<exists>rows. save_line_row ord l (db\<lparr>placed_lines := r\<rparr>) = db\<lparr>placed_lines := rows\<rparr>"
  by (rule exI [of _ "placed_lines (save_line_row ord l (db\<lparr>placed_lines := r\<rparr>))"]) (simp add: save_line_row_def)

lemma remove_rows: "\<exists>rows. remove_line_rows ids (db\<lparr>placed_lines := r\<rparr>) = db\<lparr>placed_lines := rows\<rparr>"
  by (rule exI [of _ "placed_lines (remove_line_rows ids (db\<lparr>placed_lines := r\<rparr>))"]) (simp add: remove_line_rows_def)

lemma push_error_fields [simp]:
  "is_order (push_error e s) = is_order s" "is_stock (push_error e s) = is_stock s" "is_nextId (push_error e s) = is_nextId s"
  by (simp_all add: push_error_def)

lemma first_error_None: "first_error es = None \<longleftrightarrow> (\<forall>e \<in> set es. e = None)"
  by (auto simp: first_error_def filter_empty_conv filter_eq_Cons_iff split: list.splits)

context level_reader
begin

lemma items_ok_same:
  "items_ok cfg ord0 db0 s \<Longrightarrow> is_order t = is_order s \<Longrightarrow> is_stock t = is_stock s \<Longrightarrow> items_ok cfg ord0 db0 t"
  by (simp add: items_ok_def)

lemma existing_line:
  "getExistingOrderLine cfg ord i m = Some l \<Longrightarrow> l \<in> set (order_lines ord) \<and> productVariantId l = i"
  by (auto simp: getExistingOrderLine_def dest: find_Some_in)

text \<open>A new line starts empty.\<close>

lemma created_line:
  assumes "getExistingOrderLine cfg (is_order s) i m = None"
    and "getOrCreateOrderLine cfg ctx' (is_nextId s) (is_order s) i m (is_stock s) = Inr (l, ord, db)"
    and ok: "items_ok cfg ord0 db0 s" and fresh: "fresh_ids s" and "0 \<le> orderLineItemsLimit cfg"
  shows "items_ok cfg ord0 db0 (s\<lparr>is_order := ord, is_stock := db\<rparr>) \<and>
    order_lines ord = order_lines (is_order s) @ [l] \<and> quantity l = 0 \<and> productVariantId l = i \<and> line_id l = is_nextId s \<and>
    totalQuantity ord = totalQuantity (is_order s) \<and> variant_quantity i ord = variant_quantity i (is_order s)"
proof -
  obtain rows where rows: "is_stock s = db0\<lparr>placed_lines := rows\<rparr>" using ok by (auto simp: items_ok_def)
  have l: "ord = (is_order s)\<lparr>order_lines := order_lines (is_order s) @ [l]\<rparr>" "quantity l = 0" "productVariantId l = i"
    "line_id l = is_nextId s" "db = save_line_row ord l (is_stock s)"
    using assms(1,2) by (auto simp: getOrCreateOrderLine_def bind_result_Inr Let_def split: option.splits)
  have "\<exists>rows. db = db0\<lparr>placed_lines := rows\<rparr>" using save_rows by (simp add: l(5) rows)
  moreover have "\<forall>x \<in> set (order_lines (is_order s)). line_id x \<noteq> is_nextId s" using fresh by (auto simp: fresh_ids_def)
  moreover have "variant_quantity j ord = variant_quantity j (is_order s)" "totalQuantity ord = totalQuantity (is_order s)" for j
    by (simp_all add: l(1,2) variant_quantity_def total_quantity_sum)
  ultimately show ?thesis using ok l(2-4) assms(5) by (auto simp: items_ok_def l(1))
qed

lemma add_one_item_keeps:
  assumes run: "add_one_item cfg ctx item s = Inr t" and ok: "items_ok cfg ord0 db0 s" and fresh: "fresh_ids s"
    and cfg: "ic_strategy cfg = strategy" "0 \<le> orderLineItemsLimit cfg"
  shows "items_ok cfg ord0 db0 t \<and> fresh_ids t"
proof -
  let ?i = "ai_productVariantId item" and ?q = "ai_quantity item"
  define ex where "ex = getExistingOrderLine cfg (is_order s) ?i (ai_customFields item)"
  define e where "e = (case ex of None \<Rightarrow> 0 | Some l \<Rightarrow> quantity l)"
  let ?other = "quantity_in_other_lines ?i (map_option line_id ex) (is_order s)"
  let ?checks = "[assertQuantityIsPositive ?q, assertAddingItemsState (is_order s),
                  assertNotOverOrderItemsLimit cfg (is_order s) ?q, assertNotOverOrderLineItemsLimit cfg ex ?q]"
  have kept: "items_ok cfg ord0 db0 t \<and> fresh_ids t" if "is_order t = is_order s" "is_stock t = is_stock s" "is_nextId t = is_nextId s"
    using that ok fresh items_ok_same by (simp add: fresh_ids_def)
  show ?thesis
  proof (cases "first_error ?checks")
    case (Some err)
    then have "t = push_error err s" using run by (simp add: add_one_item_def Let_def ex_def)
    then show ?thesis by (intro kept) simp_all
  next
    case None
    then have q: "0 \<le> ?q" "totalQuantity (is_order s) + ?q \<le> orderItemsLimit cfg" "e + ?q \<le> orderLineItemsLimit cfg"
      by (auto simp: first_error_None assertQuantityIsPositive_def assertNotOverOrderItemsLimit_def total_quantity_sum total_simps
          assertNotOverOrderLineItemsLimit_def Let_def e_def split: if_splits option.splits)
    obtain v c db where v: "saleableVariantOrThrow ?i (is_stock s) = Inr v"
      and c: "constrainQuantityToSaleable strategy ctx v ?q e ?other False (is_stock s) = Inr (c, db)"
      and rest: "(if c = 0 then Inr (push_error (InsufficientStockError 0) (s\<lparr>is_stock := db\<rparr>))
        else case interceptor_error (map (\<lambda>i. case willAddItemToOrder i of None \<Rightarrow> None
                               | Some f \<Rightarrow> f (is_order s) v c (ai_customFields item)) (orderInterceptors cfg)) of
               Some e \<Rightarrow> Inr (push_error e (s\<lparr>is_stock := db\<rparr>))
             | None \<Rightarrow> store_item cfg ctx item c (s\<lparr>is_stock := db\<rparr>)) = Inr t"
      using run None
      by (auto simp: add_one_item_def Let_def bind_result_Inr ex_def [symmetric] e_def [symmetric] cfg(1) split: prod.splits)
    have found: "variantOrThrow False ?i (is_stock s) = Inr v"
      using v by (auto simp: saleableVariantOrThrow_def bind_result_Inr split: if_splits)
    from constrained [OF ok found c] obtain n where n: "saleable strategy ctx db0 ?i = Some n" "db = is_stock s"
      "c = (if n < ?q + e + ?other then max (n - e - ?other) 0 else ?q + e)" by blast
    have same: "s\<lparr>is_stock := db\<rparr> = s" by (simp add: n(2))
    show ?thesis
    proof (cases "store_item cfg ctx item c s = Inr t \<and> c \<noteq> 0")
      case False
      then have "is_order t = is_order s \<and> is_stock t = is_stock s \<and> is_nextId t = is_nextId s"
        using rest by (auto simp: same split: if_splits option.splits)
      then show ?thesis using kept by blast
    next
      case True
      obtain l ord1 db1 where get: "getOrCreateOrderLine cfg ctx (is_nextId s) (is_order s) ?i (ai_customFields item) (is_stock s)
          = Inr (l, ord1, db1)"
        using True by (auto simp: store_item_def Let_def bind_result_Inr)
      define s1 where "s1 = s\<lparr>is_order := ord1, is_stock := db1\<rparr>"
      have facts: "items_ok cfg ord0 db0 s1 \<and> l \<in> set (order_lines ord1) \<and> productVariantId l = ?i \<and> quantity l = e \<and>
          totalQuantity ord1 = totalQuantity (is_order s) \<and> variant_quantity ?i ord1 = e + ?other \<and> 0 \<le> e \<and>
          (\<forall>x \<in> set (order_lines ord1). line_id x < (if ex = None then Suc (is_nextId s) else is_nextId s))"
      proof (cases ex)
        case None
        from created_line [OF None [unfolded ex_def] get ok fresh cfg(2)] show ?thesis
          using fresh None by (auto simp: s1_def e_def other_lines_None fresh_ids_def less_Suc_eq)
      next
        case (Some x)
        then have "l = x" "ord1 = is_order s" "db1 = is_stock s"
          using get by (auto simp: getOrCreateOrderLine_def ex_def)
        moreover have "x \<in> set (order_lines (is_order s))" "productVariantId x = ?i"
          using existing_line [OF Some [unfolded ex_def]] by simp_all
        ultimately show ?thesis using ok fresh Some
          by (auto simp: s1_def e_def items_ok_def fresh_ids_def other_lines_Some)
      qed
      define new where "new = (if c < ?q then e + c else c)"
      have new: "(if c < ?q then (case ex of None \<Rightarrow> 0 | Some x \<Rightarrow> quantity x) + c else c) = new"
        by (simp add: e_def new_def split: option.split)
      have open_: "active ord1 \<or> order_state ord1 = Draft" using facts by (auto simp: items_ok_def s1_def)
      have t: "is_order t = set_line (l\<lparr>quantity := new\<rparr>) ord1" "is_stock t = save_line_row ord1 (l\<lparr>quantity := new\<rparr>) db1"
        "is_nextId t = (if ex = None then Suc (is_nextId s) else is_nextId s)"
        using True get update_quantity_open [OF open_, of l new db1]
        by (auto simp: store_item_def Let_def bind_result_Inr ex_def [symmetric] cfg(1) new)
      have bounds: "0 \<le> new" "new \<le> e + ?q" "?other + new \<le> max (variant_quantity ?i ord0) n"
        using n(3) True q(1) facts by (auto simp: new_def max_def split: if_splits)
      have rows: "\<exists>rows. is_stock t = db0\<lparr>placed_lines := rows\<rparr>"
        using facts save_rows by (auto simp: t(2) items_ok_def s1_def)
      have "items_ok cfg ord0 db0 t"
      proof (rule items_ok_set_line [OF _ _ _ _ _ _ _ _ _ rows])
        show "items_ok cfg ord0 db0 s1" using facts by blast
        show "l \<in> set (order_lines (is_order s1))" using facts by (simp add: s1_def)
        show "is_order t = set_line (l\<lparr>quantity := new\<rparr>) (is_order s1)" by (simp add: t s1_def)
        show "totalQuantity (is_order s1) - quantity l + quantity (l\<lparr>quantity := new\<rparr>) \<le> orderItemsLimit cfg"
          using facts bounds(2) q(2) by (simp add: s1_def)
        show "variant_quantity (productVariantId l) (is_order s1) - quantity l + quantity (l\<lparr>quantity := new\<rparr>)
            \<le> max (variant_quantity (productVariantId l) ord0) m" if "saleable strategy ctx db0 (productVariantId l) = Some m" for m
          using that facts bounds(3) n(1) by (simp add: s1_def)
      qed (use bounds q(3) in simp_all)
      moreover have "fresh_ids t"
        using facts by (auto simp: fresh_ids_def t dest!: set_line_cases)
      ultimately show ?thesis by simp
    qed
  qed
qed

lemma getOrderLine_Some: "getOrderLineOrThrow ord i = Inr l \<Longrightarrow> l \<in> set (order_lines ord) \<and> line_id l = i"
  by (auto simp: getOrderLineOrThrow_def split: option.splits dest: find_line_Some)

lemma merge_customFields_frame [simp]:
  "quantity (merge_customFields m l) = quantity l" "line_id (merge_customFields m l) = line_id l"
  "productVariantId (merge_customFields m l) = productVariantId l"
  by (simp_all add: merge_customFields_def split: option.splits)

lemma items_ok_remove_line:
  assumes ok: "items_ok cfg ord0 db0 s" and l: "l \<in> set (order_lines (is_order s))"
    and t: "is_order t = (is_order s)\<lparr>order_lines := filter (\<lambda>x. line_id x \<noteq> line_id l) (order_lines (is_order s))\<rparr>"
      "\<exists>rows. is_stock t = db0\<lparr>placed_lines := rows\<rparr>"
  shows "items_ok cfg ord0 db0 t"
proof -
  have ids: "distinct (map line_id (order_lines (is_order s)))" and pos: "0 \<le> quantity l" using ok l by (auto simp: items_ok_def)
  have "variant_quantity i (is_order t) \<le> variant_quantity i (is_order s)" for i
    using sum_without_line [OF ids l, of "\<lambda>x. productVariantId x = i"] pos
    by (simp add: variant_quantity_def t conj_commute split: if_splits)
  moreover have "totalQuantity (is_order t) \<le> totalQuantity (is_order s)"
    using sum_without_line [OF ids l, of "\<lambda>x. True"] pos by (simp add: total_quantity_sum t)
  ultimately show ?thesis
    using ok t(2) by (fastforce simp: items_ok_def t(1) distinct_map_filter intro: order_trans)
qed

lemma adjust_one_line_keeps:
  assumes run: "adjust_one_line cfg ctx row s = Inr t" and ok: "items_ok cfg ord0 db0 s"
    and cfg: "ic_strategy cfg = strategy"
  shows "items_ok cfg ord0 db0 t"
proof -
  let ?q = "al_quantity row"
  obtain line where line: "getOrderLineOrThrow (is_order s) (al_orderLineId row) = Inr line"
    using run by (auto simp: adjust_one_line_def Let_def bind_result_Inr)
  note in_order = getOrderLine_Some [OF line]
  define l where "l = merge_customFields (al_customFields row) line"
  define s1 where "s1 = s\<lparr>is_order := set_line l (is_order s)\<rparr>"
  let ?other = "quantity_in_other_lines (productVariantId l) (Some (al_orderLineId row)) (is_order s)"
  let ?checks = "[assertAddingItemsState (is_order s), assertQuantityIsPositive ?q,
      assertNotOverOrderItemsLimit cfg (is_order s) (?q - quantity line),
      assertNotOverOrderLineItemsLimit cfg (Some line) (?q - quantity line)]"
  let ?asked = "interceptor_error (map (\<lambda>i. case willAdjustOrderLine i of None \<Rightarrow> None
      | Some f \<Rightarrow> f (is_order s) line ?q (al_customFields row)) (orderInterceptors cfg))"
  show ?thesis
  proof (cases "first_error ?checks = None \<and> ?asked = None")
    case False
    then have "\<exists>e. t = push_error e s"
      using run line by (auto simp: adjust_one_line_def Let_def split: option.splits)
    then show ?thesis using items_ok_same [OF ok] by auto
  next
    case True
    then have q: "0 \<le> ?q" "totalQuantity (is_order s) - quantity line + ?q \<le> orderItemsLimit cfg" "?q \<le> orderLineItemsLimit cfg"
      by (auto simp: first_error_None assertQuantityIsPositive_def assertNotOverOrderItemsLimit_def total_quantity_sum total_simps
          assertNotOverOrderLineItemsLimit_def Let_def split: if_splits)
    have ids: "distinct (map line_id (order_lines (is_order s)))" using ok by (simp add: items_ok_def)
    obtain v c db where v: "variantOrThrow True (productVariantId l) (is_stock s) = Inr v"
      and c: "constrainQuantityToSaleable strategy ctx v ?q 0 ?other False (is_stock s) = Inr (c, db)"
      and rest: "store_adjustment cfg ctx l ?q c (s\<lparr>is_order := set_line l (is_order s), is_stock := db\<rparr>) = Inr t"
      using run True line by (auto simp: adjust_one_line_def Let_def bind_result_Inr l_def [symmetric] cfg split: prod.splits)
    from constrained [OF ok v c] obtain n where n: "saleable strategy ctx db0 (productVariantId l) = Some n" "db = is_stock s"
      "c = (if n < ?q + 0 + ?other then max (n - 0 - ?other) 0 else ?q + 0)" by blast
    have c_bounds: "0 \<le> c" "c \<le> ?q" "?other + c \<le> n \<or> c = 0" using n(3) q(1) by (auto simp: max_def)
    have other: "quantity_in_other_lines (productVariantId line) (Some (al_orderLineId row)) (is_order s) =
        variant_quantity (productVariantId line) (is_order s) - quantity line"
      using other_lines_Some [OF ids conjunct1 [OF in_order] refl] in_order by simp
    have state: "s\<lparr>is_order := set_line l (is_order s), is_stock := db\<rparr> = s1" by (simp add: s1_def n(2))
    have l: "line_id l = line_id line" "productVariantId l = productVariantId line" "quantity l = quantity line" by (simp_all add: l_def)
    have s1: "items_ok cfg ord0 db0 s1"
      by (rule items_ok_set_line [OF ok conjunct1 [OF in_order] l(1,2)]) (use ok in_order l(3) in \<open>auto simp: items_ok_def s1_def l(2)\<close>)
    have mem: "l \<in> set (order_lines (is_order s1))" using in_order by (auto simp: s1_def set_line_def l(1) image_iff)
    have variant: "variant_quantity (productVariantId l) (is_order s1) - quantity l = ?other"
      "totalQuantity (is_order s1) - quantity l + c \<le> orderItemsLimit cfg"
      using variant_set_line [OF ids conjunct1 [OF in_order] l(1,2)] total_set_line [OF ids conjunct1 [OF in_order] l(1)] q(2) c_bounds(2)
      by (simp_all add: s1_def other l)
    show ?thesis
    proof (cases "c = 0")
      case True
      have "\<exists>rows. is_stock t = db0\<lparr>placed_lines := rows\<rparr>"
        using rest True s1 remove_rows by (auto simp: store_adjustment_def Let_def state items_ok_def)
      then show ?thesis
        by (rule items_ok_remove_line [OF s1 mem, rotated]) (use rest True in \<open>auto simp: store_adjustment_def Let_def state\<close>)
    next
      case False
      have open_: "active (is_order s1) \<or> order_state (is_order s1) = Draft" using s1 by (simp add: items_ok_def)
      have t: "is_order t = set_line (l\<lparr>quantity := c\<rparr>) (is_order s1)"
        "is_stock t = save_line_row (is_order s1) (l\<lparr>quantity := c\<rparr>) (is_stock s1)"
        using rest False update_quantity_open [OF open_, of l c "is_stock s1"]
        by (auto simp: store_adjustment_def Let_def state cfg)
      have rows: "\<exists>rows. is_stock t = db0\<lparr>placed_lines := rows\<rparr>" using s1 save_rows by (auto simp: t(2) items_ok_def)
      show ?thesis
      proof (rule items_ok_set_line [OF s1 mem _ _ _ _ _ _ t(1) rows])
        show "variant_quantity (productVariantId l) (is_order s1) - quantity l + quantity (l\<lparr>quantity := c\<rparr>)
            \<le> max (variant_quantity (productVariantId l) ord0) m" if "saleable strategy ctx db0 (productVariantId l) = Some m" for m
          using that variant(1) c_bounds(3) False n(1) by auto
      qed (use c_bounds q(3) variant(2) in simp_all)
    qed
  qed
qed

lemma finish_keeps:
  assumes "finish_items cfg ctx orders s = Inr (ord', db', es)" and ok: "items_ok cfg ord0 db0 s"
  shows "totalQuantity ord' \<le> orderItemsLimit cfg \<and> list_all (\<lambda>l. quantity l \<le> orderLineItemsLimit cfg) (order_lines ord') \<and>
    (\<forall>i n. saleable strategy ctx db0 i = Some n \<longrightarrow> variant_quantity i ord' \<le> max (variant_quantity i ord0) n)"
proof -
  have "map ordered (order_lines ord') = map ordered (order_lines (is_order s))"
    using assms service_keeps by (fastforce simp: finish_items_def bind_result_Inr items_ok_def)
  then have same: "map (\<lambda>l. (productVariantId l, quantity l)) (order_lines ord') =
      map (\<lambda>l. (productVariantId l, quantity l)) (order_lines (is_order s))"
    by (rule ordered_pairs)
  have sums: "sum_list (map quantity (filter (\<lambda>l. P (productVariantId l)) xs)) =
      sum_list (map snd (filter (\<lambda>p. P (fst p)) (map (\<lambda>l. (productVariantId l, quantity l)) xs)))" for P and xs :: "order_line list"
    by (induction xs) auto
  have "variant_quantity i ord' = variant_quantity i (is_order s)" for i
    using sums [of "\<lambda>j. j = i"] same by (simp add: variant_quantity_def)
  moreover have quantities: "map quantity (order_lines ord') = map quantity (order_lines (is_order s))"
    using arg_cong [OF same, of "map snd"] by (simp add: comp_def)
  then have "totalQuantity ord' = totalQuantity (is_order s)" by (simp add: total_quantity_sum)
  moreover from quantities have "list_all (\<lambda>n. n \<le> orderLineItemsLimit cfg) (map quantity (order_lines ord'))"
    using ok by (simp add: items_ok_def list_all_iff)
  ultimately show ?thesis using ok by (simp add: items_ok_def list.pred_map comp_def)
qed

lemma items_ok_start:
  assumes "distinct (map line_id (order_lines ord))" and "active ord \<or> order_state ord = Draft"
    and "list_all (\<lambda>l. 0 \<le> quantity l \<and> quantity l \<le> orderLineItemsLimit cfg) (order_lines ord)"
    and "totalQuantity ord \<le> orderItemsLimit cfg"
  shows "items_ok cfg ord db \<lparr>is_order = ord, is_stock = db, is_errors = [], is_updated = [], is_nextId = k\<rparr>"
  using assms by (auto simp: items_ok_def list_all_iff intro: exI [of _ "placed_lines db"])

lemma add_items_within:
  assumes "addItemsToOrder cfg ctx orders ord db nextId items = Inr (ord', db', es)" and "ic_strategy cfg = strategy"
    and start: "distinct (map line_id (order_lines ord))" "active ord \<or> order_state ord = Draft"
      "list_all (\<lambda>l. 0 \<le> quantity l \<and> quantity l \<le> orderLineItemsLimit cfg) (order_lines ord)"
      "totalQuantity ord \<le> orderItemsLimit cfg"
    and "list_all (\<lambda>l. line_id l < nextId) (order_lines ord)" and "0 \<le> orderLineItemsLimit cfg"
  shows "totalQuantity ord' \<le> orderItemsLimit cfg \<and> list_all (\<lambda>l. quantity l \<le> orderLineItemsLimit cfg) (order_lines ord') \<and>
    (\<forall>i n. saleable strategy ctx db i = Some n \<longrightarrow> variant_quantity i ord' \<le> max (variant_quantity i ord) n)"
proof -
  let ?s0 = "\<lparr>is_order = ord, is_stock = db, is_errors = [], is_updated = [], is_nextId = nextId\<rparr>"
  obtain s where s: "fold_result (add_one_item cfg ctx) items ?s0 = Inr s" "finish_items cfg ctx orders s = Inr (ord', db', es)"
    using assms(1) by (auto simp: addItemsToOrder_def bind_result_Inr)
  have "items_ok cfg ord db s \<and> fresh_ids s"
    by (rule fold_result_invariant [OF s(1), where P = "\<lambda>s. items_ok cfg ord db s \<and> fresh_ids s"])
      (use items_ok_start [OF start] assms(7) add_one_item_keeps assms(2,8) in \<open>auto simp: fresh_ids_def list_all_iff\<close>)
  then show ?thesis using finish_keeps [OF s(2)] by blast
qed

lemma adjust_lines_within:
  assumes "adjustOrderLines cfg ctx orders ord db rows = Inr (ord', db', es)" and "ic_strategy cfg = strategy"
    and start: "distinct (map line_id (order_lines ord))" "active ord \<or> order_state ord = Draft"
      "list_all (\<lambda>l. 0 \<le> quantity l \<and> quantity l \<le> orderLineItemsLimit cfg) (order_lines ord)"
      "totalQuantity ord \<le> orderItemsLimit cfg"
  shows "totalQuantity ord' \<le> orderItemsLimit cfg \<and> list_all (\<lambda>l. quantity l \<le> orderLineItemsLimit cfg) (order_lines ord') \<and>
    (\<forall>i n. saleable strategy ctx db i = Some n \<longrightarrow> variant_quantity i ord' \<le> max (variant_quantity i ord) n)"
proof -
  let ?s0 = "\<lparr>is_order = ord, is_stock = db, is_errors = [], is_updated = [], is_nextId = 0\<rparr>"
  obtain s where s: "fold_result (adjust_one_line cfg ctx) rows ?s0 = Inr s" "finish_items cfg ctx orders s = Inr (ord', db', es)"
    using assms(1) by (auto simp: adjustOrderLines_def bind_result_Inr)
  have "items_ok cfg ord db s"
    by (rule fold_result_invariant [OF s(1), where P = "items_ok cfg ord db"])
      (use items_ok_start [OF start] adjust_one_line_keeps assms(2) in auto)
  then show ?thesis using finish_keeps [OF s(2)] by blast
qed

end

interpretation default_levels: level_reader DefaultStockLocationStrategy ctx for ctx
  by unfold_locales (simp add: DefaultStockLocationStrategy_def)

interpretation multi_levels: level_reader MultiChannelStockLocationStrategy ctx for ctx
proof unfold_locales
  have "stockLevelAppliesToActiveChannel ctx (db\<lparr>placed_lines := rows\<rparr>) = stockLevelAppliesToActiveChannel ctx db" for db rows
    by (rule ext) (simp add: stockLevelAppliesToActiveChannel_def getChannelIdsForStockLocation_def)
  then show "strategy_getAvailableStock MultiChannelStockLocationStrategy ctx (db\<lparr>placed_lines := rows\<rparr>) =
      strategy_getAvailableStock MultiChannelStockLocationStrategy ctx db" for db rows
    by (simp add: MultiChannelStockLocationStrategy_def multi_getAvailableStock_def fun_eq_iff)
qed

section \<open>A sample call\<close>

definition sample_items_config :: items_config where
  "sample_items_config =
     \<lparr>orderItemsLimit = 999, orderLineItemsLimit = 100, orderInterceptors = [], ic_customFields = [],
      setOrderLineSellerChannel = None, ic_strategy = DefaultStockLocationStrategy,
      ic_repricing =
        \<lparr>rc_calculator = sample_cfg default_calculateOrderTotals, rc_selectPrice = default_selectPrice,
         rc_calculatePrice = default_calculatePrice, rc_calculateUnitPrice = default_calculateUnitPrice,
         rc_handlePriceChange = default_handlePriceChange, rc_promotionRows = []\<rparr>,
      ic_cache = \<lparr>cache_activeTaxZone = None, cache_activeTaxZone_PPA = None, cache_exhaustedPromotions = None\<rparr>\<rparr>"

definition sample_stock :: stock_db where
  "sample_stock =
     \<lparr>stock_levels = [\<lparr>stock_level_id = 1, level_variantId = 5, level_locationId = 1, stockOnHand = 10, stockAllocated = 2\<rparr>],
      stock_movements = [], stock_locations = [(1, [1])],
      variants = [\<lparr>variant_id = 5, trackInventory = Flag_TRUE, useGlobalOutOfStockThreshold = True, outOfStockThreshold = 0,
        variant_deletedAt = None, variant_enabled = True, product_enabled = True, variant_taxCategoryId = 1,
        variant_channels = [1], productVariantPrices = [\<lparr>price_channelId = 1, price_currencyCode = ''USD'', price_value = 250\<rparr>]\<rparr>],
      settings = \<lparr>global_trackInventory = True, global_outOfStockThreshold = 0\<rparr>,
      placed_lines = [], next_level_id = 2, lock_log = [], stock_events = []\<rparr>"

definition twelve_wanted :: "add_item list" where
  "twelve_wanted = [\<lparr>ai_productVariantId = 5, ai_quantity = 12, ai_customFields = None\<rparr>]"

definition filled :: "int option \<Rightarrow> order" where
  "filled initial = sample_order [\<lparr>listPrice = 250, listPriceIncludesTax = False, taxLines = [], adjustments = [], line_id = 3,
     quantity = 8, orderPlacedQuantity = 0, initialListPrice = initial, productVariantId = 5, taxCategoryId = 1,
     shippingLineId = None, sellerChannelId = None, line_customFields = None\<rparr>]"

definition filled_state :: items_state where
  "filled_state = \<lparr>is_order = filled None, is_stock = sample_stock\<lparr>placed_lines := [(1, hd (order_lines (filled None)))]\<rparr>,
     is_errors = [InsufficientStockError 8], is_updated = [3], is_nextId = 4\<rparr>"

lemma items_added: "fold_result (add_one_item sample_items_config sample_ctx) twelve_wanted
    \<lparr>is_order = sample_order [], is_stock = sample_stock, is_errors = [], is_updated = [], is_nextId = 3\<rparr> = Inr filled_state"
  by code_simp

definition sample_added :: "(order \<times> stock_db \<times> item_error list) result" where
  "sample_added = addItemsToOrder sample_items_config sample_ctx [] (sample_order []) sample_stock 3 twelve_wanted"

lemma sample_added_succeeds: "\<exists>ord' db' es. sample_added = Inr (ord', db', es) \<and> es = [InsufficientStockError 8]"
proof -
  let ?tabs = "\<lparr>tab_orders = [], tab_surcharges = [], tab_stock = is_stock filled_state\<rparr>"
  have promos: "promotions_for (ic_repricing sample_items_config) sample_ctx (ic_cache sample_items_config) ?tabs (filled None) = []"
    by code_simp
  have prices: "update_line_price (ic_repricing sample_items_config) sample_ctx
      (cache_activeTaxZone_PPA (ic_cache sample_items_config)) (is_stock filled_state) 3 (filled None) = Inr (filled (Some 250))"
    by code_simp
  have currency: "ctx_currencyCode sample_ctx = currencyCode (filled None)" by code_simp
  have "\<not> isl (applyPriceAdjustments (rc_calculator (ic_repricing sample_items_config)) sample_ctx
      (cache_activeTaxZone (ic_cache sample_items_config)) ((filled (Some 250))\<lparr>surcharges := []\<rparr>) [] [3] default_price_options)"
    by code_simp
  then obtain r where applied: "applyPriceAdjustments (rc_calculator (ic_repricing sample_items_config)) sample_ctx
      (cache_activeTaxZone (ic_cache sample_items_config)) ((filled (Some 250))\<lparr>surcharges := []\<rparr>) [] [3] default_price_options = Inr r"
    by (rule that [OF sum.collapse(2) [symmetric]])
  have state: "is_order filled_state = filled None" "is_updated filled_state = [3]" "is_errors filled_state = [InsufficientStockError 8]"
    "surcharges (filled None) = []"
    by (simp_all add: filled_state_def filled_def sample_order_def)
  show ?thesis
    by (simp add: sample_added_def addItemsToOrder_def items_added finish_items_def service_applyPriceAdjustments_def
        state promos prices applied currency)
qed

section \<open>The limits hold\<close>

text \<open>
  C4: Adding and adjusting items respects every limit, under both shipped stock location strategies.
  When a call succeeds, with however many items, some perhaps refused or cut down: the
  order holds no more items than its limit, no line more than the line limit, and no variant
  is ordered beyond its saleable stock, counting all lines with the variant (unless it already
  was, and then not more than before). Repricing at the end is included.
\<close>

theorem item_limits_respected:
  assumes "addItemsToOrder cfg ctx orders ord db nextId items = Inr (ord', db', es) \<or>
           adjustOrderLines cfg ctx orders ord db rows = Inr (ord', db', es)"
    and "ic_strategy cfg \<in> {DefaultStockLocationStrategy, MultiChannelStockLocationStrategy}"
    and "distinct (map line_id (order_lines ord))" and "active ord \<or> order_state ord = Draft"
    and "list_all (\<lambda>l. 0 \<le> quantity l \<and> quantity l \<le> orderLineItemsLimit cfg) (order_lines ord)"
    and "totalQuantity ord \<le> orderItemsLimit cfg"
    and "list_all (\<lambda>l. line_id l < nextId) (order_lines ord)" and "0 \<le> orderLineItemsLimit cfg"
  shows "totalQuantity ord' \<le> orderItemsLimit cfg \<and> list_all (\<lambda>l. quantity l \<le> orderLineItemsLimit cfg) (order_lines ord') \<and>
    (\<forall>i n. saleable (ic_strategy cfg) ctx db i = Some n \<longrightarrow> variant_quantity i ord' \<le> max (variant_quantity i ord) n)"
proof -
  note start = assms(3-6)
  from assms(2) consider (default) "ic_strategy cfg = DefaultStockLocationStrategy"
    | (multi) "ic_strategy cfg = MultiChannelStockLocationStrategy" by blast
  then show ?thesis
  proof cases
    case default
    from assms(1) show ?thesis unfolding default
      by (rule disjE) (rule default_levels.add_items_within [OF _ default start assms(7,8)]
        default_levels.adjust_lines_within [OF _ default start], assumption)+
  next
    case multi
    from assms(1) show ?thesis unfolding multi
      by (rule disjE) (rule multi_levels.add_items_within [OF _ multi start assms(7,8)]
        multi_levels.adjust_lines_within [OF _ multi start], assumption)+
  qed
qed

theorem item_limits_respected_witness:
  "\<exists>ord' db' es. sample_added = Inr (ord', db', es) \<and> es = [InsufficientStockError 8] \<and> variant_quantity 5 ord' \<le> 8"
proof -
  obtain ord' db' es where run: "sample_added = Inr (ord', db', es)" "es = [InsufficientStockError 8]"
    using sample_added_succeeds by blast
  have "saleable (ic_strategy sample_items_config) sample_ctx sample_stock 5 = Some 8"
    "variant_quantity 5 (sample_order []) = 0" by code_simp+
  moreover have "totalQuantity ord' \<le> orderItemsLimit sample_items_config \<and>
      list_all (\<lambda>l. quantity l \<le> orderLineItemsLimit sample_items_config) (order_lines ord') \<and>
      (\<forall>i n. saleable (ic_strategy sample_items_config) sample_ctx sample_stock i = Some n \<longrightarrow>
         variant_quantity i ord' \<le> max (variant_quantity i (sample_order [])) n)"
    by (rule item_limits_respected [OF disjI1 [OF run(1) [unfolded sample_added_def]]])
      (simp_all add: sample_items_config_def sample_order_def totalQuantity_def total_simps)
  ultimately have "variant_quantity 5 ord' \<le> 8" by fastforce
  then show ?thesis using run by blast
qed

end
