(* ===== verification/OrderCancellation.thy ===== *)
theory OrderCancellation
  imports OrderItems OrderProcess
begin

text \<open>
  Cancelling placed orders: \<^verbatim>\<open>cancelOrderByOrderLines\<close> of
  \<^verbatim>\<open>order-modifier.ts\<close> and \<^verbatim>\<open>cancelOrder\<close> with
  \<^verbatim>\<open>cancelOrderById\<close> of \<^verbatim>\<open>order.service.ts\<close>. The tables are the
  orders, each with its lines and fulfillments, and the stock tables, whose \<open>placed_lines\<close> hold the
  rows of the lines once more; a change of a line is written to both. History entries and events are
  left out.
\<close>

section \<open>What a line still has of its stock\<close>

datatype cancel_error =
    EmptyOrderLineSelectionError
  | MultipleOrderError
  | CancelActiveOrderError order_state
  | QuantityTooGreatError

definition movements_of :: "movement_type \<Rightarrow> ID \<Rightarrow> stock_db \<Rightarrow> stock_movement list" where
  "movements_of kind lineId db =
     filter (\<lambda>m. mv_type m = kind \<and> mv_orderLineId m = Some lineId) (stock_movements db)"

definition totalAllocated :: "ID \<Rightarrow> stock_db \<Rightarrow> int" where
  "totalAllocated lineId db =
     summate (movements_of ALLOCATION lineId db) mv_quantity + summate (movements_of SALE lineId db) mv_quantity
       - summate (movements_of RELEASE lineId db) mv_quantity"

text \<open>The fulfillment lines of a line, whatever the state of their fulfillment.\<close>

definition fulfillment_rows :: "order \<Rightarrow> ID \<Rightarrow> order_line_input list" where
  "fulfillment_rows ord lineId = filter (\<lambda>i. orderLineId i = lineId) (concat (map fulfillment_lines (fulfillments ord)))"

definition totalFulfilled :: "order \<Rightarrow> ID \<Rightarrow> stock_db \<Rightarrow> int" where
  "totalFulfilled ord lineId db =
     summate (fulfillment_rows ord lineId) input_quantity - summate (movements_of CANCELLATION lineId db) mv_quantity"

text \<open>The lines to release and the lines to cancel, in the order of the input.\<close>

fun classify_lines ::
  "stock_db \<Rightarrow> order \<Rightarrow> order_line_input list \<Rightarrow> order_line_input list \<times> order_line_input list \<Rightarrow>
     cancel_error + order_line_input list \<times> order_line_input list" where
  "classify_lines db fullOrder [] acc = Inr acc"
| "classify_lines db fullOrder (i # is) (allocatedLines, fulfilledLines) =
     (if (case find_line (orderLineId i) fullOrder of None \<Rightarrow> False | Some l \<Rightarrow> quantity l < input_quantity i)
      then Inl QuantityTooGreatError
      else
        let a = totalAllocated (orderLineId i) db; f = totalFulfilled fullOrder (orderLineId i) db
        in classify_lines db fullOrder is
             (allocatedLines @ (if 0 < a then [i\<lparr>input_quantity := min a (input_quantity i)\<rparr>] else []),
              fulfilledLines @ (if 0 < f then [i\<lparr>input_quantity := min f (input_quantity i)\<rparr>] else [])))"

definition variants_to_lock :: "order \<Rightarrow> order_line_input list \<Rightarrow> ID list" where
  "variants_to_lock fullOrder rows =
     map_present (\<lambda>i. map_option productVariantId (find_line (orderLineId i) fullOrder)) rows"

section \<open>Cancelling lines\<close>

definition cancel_line :: "order_line_input \<Rightarrow> order \<times> stock_db \<Rightarrow> order \<times> stock_db" where
  "cancel_line i state =
     (let (fullOrder, db) = state
      in case find_line (orderLineId i) fullOrder of
           None \<Rightarrow> state
         | Some l \<Rightarrow>
             let l' = setQuantityRescalingAdjustments l (quantity l - input_quantity i)
             in (set_line l' fullOrder, save_line_row fullOrder l' db))"

text \<open>The source of the adjustment is no promotion; it stands as an id that no entity has.\<close>

definition cancel_shipping_line :: "shipping_line \<Rightarrow> shipping_line" where
  "cancel_shipping_line l =
     l\<lparr>adjustments := adjustments l @
        [\<lparr>adj_amount = (if listPriceIncludesTax l then - discountedPriceWithTax l else - discountedPrice l),
          adj_type = OTHER, adjustmentSource = (OTHER, 0), adj_description = ''shipping cancellation'', itemDistribution = []\<rparr>]\<rparr>"

text \<open>The lines the repository finds for the ids of the input, each with its order.\<close>

definition lines_with_orders :: "order list \<Rightarrow> order_line_input list \<Rightarrow> (order_line \<times> order) list" where
  "lines_with_orders orders inputs =
     concat (map (\<lambda>ord. map (\<lambda>l. (l, ord)) (filter (\<lambda>l. line_id l \<in> set (map orderLineId inputs)) (order_lines ord))) orders)"

record cancel_config =
  cc_strategy :: stock_location_strategy
  cc_calculator :: calculator_config

definition finish_cancellation :: "cancel_config \<Rightarrow> bool \<Rightarrow> order \<Rightarrow> order" where
  "finish_cancellation cfg cancelShipping ord =
     calculateOrderTotals (cc_calculator cfg)
       (if cancelShipping then ord\<lparr>shippingLines := map cancel_shipping_line (shippingLines ord)\<rparr> else ord)"

definition cancel_lines_of ::
  "cancel_config \<Rightarrow> bool \<Rightarrow> order_line_input list \<Rightarrow> order \<Rightarrow> stock_db \<Rightarrow>
     (cancel_error + bool \<times> order \<times> stock_db) result" where
  "cancel_lines_of cfg cancelShipping lineInputs fullOrder db =
     (case classify_lines db fullOrder lineInputs ([], []) of
        Inl e \<Rightarrow> Inr (Inl e)
      | Inr (allocatedLines, fulfilledLines) \<Rightarrow>
          bind_result
            (createCancellationsForOrderLines (cc_strategy cfg) fulfilledLines
               (lockStockLevelsForVariants False (variants_to_lock fullOrder (fulfilledLines @ allocatedLines)) db))
            (\<lambda>(cancellations, db2).
              bind_result (createReleasesForOrderLines (cc_strategy cfg) allocatedLines db2) (\<lambda>(releases, db3).
                let (ord, db4) = fold cancel_line lineInputs (fullOrder, db3);
                    orderWithLines = finish_cancellation cfg cancelShipping ord
                in Inr (Inr (orderLinesAreAllCancelled orderWithLines, orderWithLines, db4)))))"

definition cancelOrderByOrderLines ::
  "cancel_config \<Rightarrow> request_context \<Rightarrow> order list \<Rightarrow> ID \<Rightarrow> bool \<Rightarrow> order_line_input list \<Rightarrow> stock_db \<Rightarrow>
     (cancel_error + bool \<times> order \<times> stock_db) result" where
  "cancelOrderByOrderLines cfg ctx orders orderId cancelShipping lineInputs db =
     (if lineInputs = [] \<or> summate lineInputs input_quantity = 0 then Inr (Inl EmptyOrderLineSelectionError)
      else bind_result (getOrdersFromLines (ctx_channelId ctx) lineInputs (lines_with_orders orders lineInputs)) (\<lambda>found.
        case found of
          [] \<Rightarrow> Inl (JsError ''Cannot read properties of undefined (reading id)'')
        | ord # others \<Rightarrow>
            if others \<noteq> [] \<or> order_id ord \<noteq> orderId then Inr (Inl MultipleOrderError)
            else if active ord then Inr (Inl (CancelActiveOrderError (order_state ord)))
            else cancel_lines_of cfg cancelShipping lineInputs ord db))"

section \<open>Cancelling an order\<close>

definition order_in :: "order list \<Rightarrow> ID \<Rightarrow> order option" where
  "order_in orders i = List.find (\<lambda>ord. order_id ord = i) orders"

text \<open>An active order is cancelled without touching its lines; \<open>None\<close> for the lines means all of them.\<close>

definition cancelOrderById ::
  "cancel_config \<Rightarrow> request_context \<Rightarrow> order list \<Rightarrow> ID \<Rightarrow> bool \<Rightarrow> stock_db \<Rightarrow>
     (cancel_error + bool \<times> order \<times> stock_db) result" where
  "cancelOrderById cfg ctx orders orderId cancelShipping db =
     (case order_in orders orderId of
        None \<Rightarrow> Inl (EntityNotFoundError ''Order'' orderId)
      | Some ord \<Rightarrow>
          if active ord then Inr (Inr (True, ord, db))
          else cancelOrderByOrderLines cfg ctx orders orderId cancelShipping
                 (map (\<lambda>l. \<lparr>orderLineId = line_id l, input_quantity = quantity l\<rparr>) (order_lines ord)) db)"

datatype cancel_outcome =
    OrderCancellation order stock_db
  | CancelRefused cancel_error
  | CancelTransitionRefused vendure_error order stock_db

definition cancelOrder ::
  "cancel_config \<Rightarrow> (order_state, order_data) fsm_process list \<Rightarrow> request_context \<Rightarrow> order list \<Rightarrow> ID \<Rightarrow> bool \<Rightarrow>
     order_line_input list option \<Rightarrow> stock_db \<Rightarrow> cancel_outcome result" where
  "cancelOrder cfg processes ctx orders orderId cancelShipping lineInputs db =
     bind_result
       (case lineInputs of
          Some is \<Rightarrow> cancelOrderByOrderLines cfg ctx orders orderId cancelShipping is db
        | None \<Rightarrow> cancelOrderById cfg ctx orders orderId cancelShipping db)
       (\<lambda>r. case r of
          Inl e \<Rightarrow> Inr (CancelRefused e)
        | Inr (allOrderItemsCancelled, ord, db') \<Rightarrow>
            if \<not> allOrderItemsCancelled then Inr (OrderCancellation ord db')
            else bind_result (transitionToState processes \<lparr>data_order = ord, data_effects = []\<rparr> Cancelled) (\<lambda>t.
              case t of
                Transitioned d \<Rightarrow> Inr (OrderCancellation (data_order d) db')
              | OrderStateTransitionError e _ _ _ \<Rightarrow> Inr (CancelTransitionRefused e ord db')))"

end
