(* ===== verification/Fulfillments.thy ===== *)
theory Fulfillments
  imports OrderCancellation
begin

text \<open>
  Fulfillments: \<^verbatim>\<open>createFulfillment\<close> of \<^verbatim>\<open>order.service.ts\<close> with its two
  checks, \<^verbatim>\<open>create\<close> and \<^verbatim>\<open>transitionToState\<close> of
  \<^verbatim>\<open>fulfillment.service.ts\<close>, and the end of a transition with the stock movements and the
  order states it brings. A fulfillment hangs on every order it has lines of; a change of it is
  written to all of them. History entries, events, tracking codes and custom fields are left out.
\<close>

section \<open>Configuration, tables and errors\<close>

text \<open>A handler creates a fulfillment or throws a message, and may refuse a transition.\<close>

record fulfillment_handler =
  fh_code :: string
  fh_createFulfillment :: "order list \<Rightarrow> order_line_input list \<Rightarrow> string option"
  fh_onFulfillmentTransition :: "fulfillment_state \<Rightarrow> fulfillment_state \<Rightarrow> fulfillment \<Rightarrow> start_result"

record fulfillment_config =
  fc_handlers :: "fulfillment_handler list"
  fc_strategy :: stock_location_strategy
  fc_orderProcesses :: "(order_state, order_data) fsm_process list"

record fulfillment_tables =
  ft_orders :: "order list"
  ft_stock :: stock_db
  ft_nextId :: ID

datatype fulfill_error =
    NoLinesSelectedError
  | ItemsAlreadyFulfilledError
  | InsufficientStockOnHandError ID int
  | InvalidFulfillmentHandlerError
  | CreateFulfillmentError string
  | FulfillmentStateTransitionError vendure_error fulfillment_state fulfillment_state

section \<open>Checks\<close>

definition owner_of :: "order list \<Rightarrow> ID \<Rightarrow> (order \<times> order_line) option" where
  "owner_of orders i =
     (case filter (\<lambda>ord. find_line i ord \<noteq> None) orders of
        [] \<Rightarrow> None | ord # _ \<Rightarrow> map_option (Pair ord) (find_line i ord))"

text \<open>The fulfillment lines of a line whose fulfillment was not cancelled.\<close>

definition open_rows :: "order \<Rightarrow> ID \<Rightarrow> order_line_input list" where
  "open_rows ord i = filter (\<lambda>r. idsAreEqual (Some (orderLineId r)) (Some i)) (map snd (getOrderFulfillmentLines ord))"

fun requestedFulfillmentQuantityExceedsLineQuantity :: "order list \<Rightarrow> order_line_input list \<Rightarrow> bool result" where
  "requestedFulfillmentQuantityExceedsLineQuantity orders [] = Inr False"
| "requestedFulfillmentQuantityExceedsLineQuantity orders (i # is) =
     (case owner_of orders (orderLineId i) of
        None \<Rightarrow> Inl (EntityNotFoundError ''OrderLine'' (orderLineId i))
      | Some (ord, l) \<Rightarrow>
          let fulfillmentLinesForOrderLine = open_rows ord (orderLineId i)
          in if fulfillmentLinesForOrderLine \<noteq> []
             then (let unfulfilledQuantity = quantity l - summate fulfillmentLinesForOrderLine input_quantity
                   in if unfulfilledQuantity < input_quantity i then Inr True
                      else requestedFulfillmentQuantityExceedsLineQuantity orders is)
             else if quantity l < input_quantity i then Inr True
             else requestedFulfillmentQuantityExceedsLineQuantity orders is)"

fun first_short_line ::
  "stock_location_strategy \<Rightarrow> request_context \<Rightarrow> stock_db \<Rightarrow> order_line_input list \<Rightarrow> order_line list \<Rightarrow>
     fulfill_error option result" where
  "first_short_line strategy ctx db inputs [] = Inr None"
| "first_short_line strategy ctx db inputs (l # ls) =
     (case List.find (\<lambda>i. idsAreEqual (Some (orderLineId i)) (Some (line_id l))) inputs of
        None \<Rightarrow> Inl (JsError ''Cannot read properties of undefined (reading quantity)'')
      | Some lineInput \<Rightarrow>
          bind_result (variantOrThrow True (productVariantId l) db) (\<lambda>v.
            bind_result (getFulfillableStockLevel strategy ctx v db) (\<lambda>fulfillableStockLevel.
              if fulfillableStockLevel < input_quantity lineInput
              then bind_result (getAvailableStock strategy ctx (variant_id v) False db)
                     (\<lambda>((onHand, alloc), db'). Inr (Some (InsufficientStockOnHandError (variant_id v) onHand)))
              else first_short_line strategy ctx db inputs ls)))"

definition ensureSufficientStockForFulfillment ::
  "stock_location_strategy \<Rightarrow> request_context \<Rightarrow> stock_db \<Rightarrow> order_line_input list \<Rightarrow> fulfill_error option result" where
  "ensureSufficientStockForFulfillment strategy ctx db inputs =
     first_short_line strategy ctx db inputs (find_lines (map orderLineId inputs) db)"

section \<open>Transitions\<close>

definition fulfillment_in :: "order list \<Rightarrow> ID \<Rightarrow> fulfillment option" where
  "fulfillment_in orders i = List.find (\<lambda>f. fulfillment_id f = i) (concat (map fulfillments orders))"

definition set_fulfillment :: "fulfillment \<Rightarrow> order list \<Rightarrow> order list" where
  "set_fulfillment f orders =
     map (\<lambda>ord. ord\<lparr>fulfillments := map (\<lambda>x. if fulfillment_id x = fulfillment_id f then f else x) (fulfillments ord)\<rparr>) orders"

definition owners_of :: "order list \<Rightarrow> fulfillment \<Rightarrow> order list" where
  "owners_of orders f =
     filter (\<lambda>ord. \<exists>l \<in> set (order_lines ord). line_id l \<in> set (map orderLineId (fulfillment_lines f))) orders"

text \<open>The default fulfillment process; what it does at the end is \<open>fulfillment_end\<close>.\<close>

definition fulfillment_process :: "fulfillment_handler list \<Rightarrow> (fulfillment_state, fulfillment) fsm_process" where
  "fulfillment_process handlers =
     \<lparr>proc_transitions = Some defaultFulfillmentTransitions,
      proc_onTransitionStart =
        Some (fulfillment_onTransitionStart (map (\<lambda>h. (fh_code h, fh_onFulfillmentTransition h)) handlers)),
      proc_onTransitionEnd = None\<rparr>"

definition move_stock ::
  "stock_location_strategy \<Rightarrow> request_context \<Rightarrow> stock_request \<Rightarrow> stock_db \<Rightarrow> stock_db result" where
  "move_stock strategy ctx request db =
     bind_result
       (case request of
          CreateCancellations is \<Rightarrow> createCancellationsForOrderLines strategy is db
        | CreateAllocations is \<Rightarrow> createAllocationsForOrderLines strategy ctx is db
        | CreateSales is \<Rightarrow> createSalesForOrder strategy is db)
       (\<lambda>(ms, db'). Inr db')"

definition replace_order :: "order \<Rightarrow> order list \<Rightarrow> order list" where
  "replace_order ord orders = map (\<lambda>x. if order_id x = order_id ord then ord else x) orders"

definition move_order ::
  "fulfillment_config \<Rightarrow> fulfillment_state \<Rightarrow> ID \<Rightarrow> fulfillment_tables \<Rightarrow> fulfillment_tables result" where
  "move_order cfg toState i t =
     (case order_in (ft_orders t) i of
        None \<Rightarrow> Inl (EntityNotFoundError ''Order'' i)
      | Some ord \<Rightarrow>
          (case handleFulfillmentStateTransitByOrder
                  (fsm_getNextStates (allTransitions (fc_orderProcesses cfg)) (order_state ord)) ord toState of
             None \<Rightarrow> Inr t
           | Some s \<Rightarrow>
               bind_result (transitionToState (fc_orderProcesses cfg) \<lparr>data_order = ord, data_effects = []\<rparr> s) (\<lambda>r.
                 case r of
                   Transitioned d \<Rightarrow> Inr (t\<lparr>ft_orders := replace_order (data_order d) (ft_orders t)\<rparr>)
                 | OrderStateTransitionError e _ _ _ \<Rightarrow> Inl (InternalServerError ''ORDER_STATE_TRANSITION_ERROR''))))"

definition fulfillment_end ::
  "fulfillment_config \<Rightarrow> request_context \<Rightarrow> fulfillment_state \<Rightarrow> fulfillment_state \<Rightarrow> fulfillment \<Rightarrow> ID list \<Rightarrow>
     fulfillment_tables \<Rightarrow> fulfillment_tables result" where
  "fulfillment_end cfg ctx fromState toState f orderIds t =
     bind_result (fold_result (move_stock (fc_strategy cfg) ctx) (fulfillment_stock fromState toState f) (ft_stock t))
       (\<lambda>db. fold_result (move_order cfg toState) orderIds (t\<lparr>ft_stock := db\<rparr>))"

type_synonym fulfill_outcome = "(fulfill_error + fulfillment) \<times> fulfillment_tables"

definition fulfillment_transitionToState ::
  "fulfillment_config \<Rightarrow> request_context \<Rightarrow> ID \<Rightarrow> fulfillment_state \<Rightarrow> fulfillment_tables \<Rightarrow> fulfill_outcome result" where
  "fulfillment_transitionToState cfg ctx i state t =
     (case fulfillment_in (ft_orders t) i of
        None \<Rightarrow> Inl (EntityNotFoundError ''Fulfillment'' i)
      | Some f \<Rightarrow>
          let owners = owners_of (ft_orders t) f;
              ownedByActiveChannel = owners \<noteq> [] \<and> list_all (\<lambda>ord. ctx_channelId ctx \<in> set (order_channels ord)) owners
          in if \<not> ownedByActiveChannel then Inl (EntityNotFoundError ''Fulfillment'' i)
             else (case fulfillmentStateMachine_transition [fulfillment_process (fc_handlers cfg)] f state of
                 Inl e \<Rightarrow> Inr (Inl (FulfillmentStateTransitionError e (fulfillment_state f) state), t)
               | Inr (f', fin) \<Rightarrow>
                   let t' = t\<lparr>ft_orders := set_fulfillment f' (ft_orders t)\<rparr>
                   in (case fin of
                         Finalize_noop \<Rightarrow> Inr (Inr f', t')
                       | Finalize_end fromState toState \<Rightarrow>
                           bind_result (fulfillment_end cfg ctx fromState toState f' (map order_id owners) t')
                             (\<lambda>t''. Inr (Inr f', t'')))))"

section \<open>Creating a fulfillment\<close>

definition add_fulfillment :: "fulfillment \<Rightarrow> order list \<Rightarrow> order list \<Rightarrow> order list" where
  "add_fulfillment f found orders =
     map (\<lambda>ord. if order_id ord \<in> set (map order_id found)
                then ord\<lparr>fulfillments := fulfillments ord @ [f]\<rparr> else ord) orders"

definition fulfillment_create ::
  "fulfillment_config \<Rightarrow> string \<Rightarrow> order list \<Rightarrow> order_line_input list \<Rightarrow> fulfillment_tables \<Rightarrow> fulfill_outcome" where
  "fulfillment_create cfg code orders inputs t =
     (case List.find (\<lambda>h. fh_code h = code) (fc_handlers cfg) of
        None \<Rightarrow> (Inl InvalidFulfillmentHandlerError, t)
      | Some h \<Rightarrow>
          (case fh_createFulfillment h orders inputs of
             Some message \<Rightarrow> (Inl (CreateFulfillmentError message), t)
           | None \<Rightarrow>
               let f = \<lparr>fulfillment_id = ft_nextId t, fulfillment_state = Fulfillment_Created,
                        handlerCode = fh_code h, fulfillment_lines = inputs\<rparr>
               in (Inr f, t\<lparr>ft_orders := add_fulfillment f orders (ft_orders t), ft_nextId := Suc (ft_nextId t)\<rparr>)))"

definition createFulfillment ::
  "fulfillment_config \<Rightarrow> request_context \<Rightarrow> string \<Rightarrow> order_line_input list \<Rightarrow> fulfillment_tables \<Rightarrow>
     fulfill_outcome result" where
  "createFulfillment cfg ctx handler inputs t =
     (if inputs = [] \<or> summate inputs input_quantity = 0 then Inr (Inl NoLinesSelectedError, t)
      else bind_result (getOrdersFromLines (ctx_channelId ctx) inputs (lines_with_orders (ft_orders t) inputs)) (\<lambda>orders.
        bind_result (requestedFulfillmentQuantityExceedsLineQuantity (ft_orders t) inputs) (\<lambda>exceeds.
          if exceeds then Inr (Inl ItemsAlreadyFulfilledError, t)
          else bind_result (ensureSufficientStockForFulfillment (fc_strategy cfg) ctx (ft_stock t) inputs) (\<lambda>short.
            case short of
              Some e \<Rightarrow> Inr (Inl e, t)
            | None \<Rightarrow>
                (case fulfillment_create cfg handler orders inputs t of
                   (Inl e, t') \<Rightarrow> Inr (Inl e, t')
                 | (Inr f, t') \<Rightarrow> fulfillment_transitionToState cfg ctx (fulfillment_id f) Fulfillment_Pending t')))))"

end
