(* ===== verification/CancellationLedger.thy ===== *)
theory CancellationLedger
  imports OrderCancellation StockLedger OrderPricing
begin

text \<open>
  What a cancellation does to the lines of the order and to the movements of their stock, and where
  it goes wrong: with several locations, with a line named twice and with a negative quantity.
\<close>

section \<open>What the movements of a batch leave alone\<close>

text \<open>The tables other than levels, movements, locks and events.\<close>

definition side_tables :: "stock_db \<Rightarrow> (ID \<times> order_line) list \<times> (ID, ID list) js_map \<times> product_variant list \<times> global_settings" where
  "side_tables db = (placed_lines db, stock_locations db, variants db, settings db)"

definition kept_tables :: "stock_db \<Rightarrow> stock_db \<Rightarrow> bool" where
  "kept_tables d d' \<longleftrightarrow> side_tables d' = side_tables d \<and> stock_movements d' = stock_movements d"

lemma kept_tables_refl [simp]: "kept_tables d d"
  by (simp add: kept_tables_def)

lemma kept_tables_trans: "kept_tables d e \<Longrightarrow> kept_tables e f \<Longrightarrow> kept_tables d f"
  by (simp add: kept_tables_def)

lemma kept_levels: "kept_tables d (updateStockOnHandForLocation v l n d)" "kept_tables d (release v l n d)"
  by (auto simp: kept_tables_def side_tables_def updateStockOnHandForLocation_def release_def updateStockAllocatedForLocation_def
      incrementStockLevel_def update_rows_def create_level_def clampStockAllocatedAtZero_def Let_def split: option.split)

lemma kept_lock: "kept_tables d (lockStockLevelsForVariants u vs d)"
  using lock_levels_frame [of u vs d] by (auto simp: kept_tables_def side_tables_def)

definition line_movements ::
  "movement_type \<Rightarrow> (ID list \<Rightarrow> order_line \<Rightarrow> int \<Rightarrow> stock_db \<Rightarrow> loc_qty list) \<Rightarrow> order_line_input list \<Rightarrow> stock_db \<Rightarrow>
     order_line \<Rightarrow> stock_movement list" where
  "line_movements kind locations lineInputs db l =
     (case List.find (\<lambda>i. idsAreEqual (Some (orderLineId i)) (Some (line_id l))) lineInputs of
        None \<Rightarrow> []
      | Some i \<Rightarrow> map (\<lambda>(loc, n). \<lparr>mv_type = kind, mv_productVariantId = productVariantId l, mv_locationId = loc,
                          mv_quantity = input_quantity i, mv_orderLineId = Some (line_id l)\<rparr>)
                    (locations (getAllStockLocations db) l (input_quantity i) db))"

text \<open>A choice of locations that reads the movements only, as that of both shipped strategies does.\<close>

locale location_choice =
  fixes locations :: "ID list \<Rightarrow> order_line \<Rightarrow> int \<Rightarrow> stock_db \<Rightarrow> loc_qty list"
    and update :: "ID \<Rightarrow> ID \<Rightarrow> int \<Rightarrow> stock_db \<Rightarrow> stock_db"
  assumes reads_movements: "stock_movements d = stock_movements d' \<Longrightarrow> locations ls l q d = locations ls l q d'"
    and keeps_tables: "kept_tables d (update v loc n d)"
begin

lemma line_movements_cong: "kept_tables d d' \<Longrightarrow> line_movements kind locations is d' l = line_movements kind locations is d l"
  using reads_movements [of d d']
  by (auto simp: line_movements_def kept_tables_def side_tables_def getAllStockLocations_def split: option.split)

lemma restore_line_step:
  assumes "restore_line kind locations update g is l (ms, db) = Inr (ms', db')"
  shows "ms' = ms @ line_movements kind locations is db l \<and> kept_tables db db'"
proof (cases "List.find (\<lambda>i. idsAreEqual (Some (orderLineId i)) (Some (line_id l))) is")
  case None
  then show ?thesis using assms by (simp add: restore_line_def line_movements_def)
next
  case (Some i)
  have kept: "kept_tables db (apply_locations update v ls db)" for v ls
    by (rule apply_locations_invariant [of "kept_tables db" update]) (auto intro: kept_tables_trans keeps_tables)
  obtain track where "move_line kind (\<lambda>n. input_quantity i) track update l
      (locations (getAllStockLocations db) l (input_quantity i) db) (ms, db) = Inr (ms', db')"
    using assms Some by (auto simp: restore_line_def bind_result_Inr)
  from move_line_Inr [OF this] show ?thesis
    using kept Some by (auto simp: line_movements_def)
qed

lemma restore_lines:
  "fold_result (restore_line kind locations update g is) ols (ms, db) = Inr (ms', db') \<Longrightarrow>
   ms' = ms @ concat (map (line_movements kind locations is db) ols) \<and> kept_tables db db'"
proof (induction ols arbitrary: ms db)
  case Nil
  then show ?case by simp
next
  case (Cons l ols)
  obtain ms1 db1 where step: "restore_line kind locations update g is l (ms, db) = Inr (ms1, db1)"
    and rest: "fold_result (restore_line kind locations update g is) ols (ms1, db1) = Inr (ms', db')"
    using Cons.prems by (auto simp: bind_result_Inr)
  have "kept_tables db db1" using restore_line_step [OF step] by blast
  then have "line_movements kind locations is db1 = line_movements kind locations is db"
    by (intro ext) (rule line_movements_cong)
  then show ?case using restore_line_step [OF step] Cons.IH [OF rest] by (auto intro: kept_tables_trans)
qed

lemma restored:
  assumes "bind_result
      (fold_result (restore_line kind locations update (global_trackInventory (settings db)) is)
         (find_lines (map orderLineId is) db) ([], lockStockLevelsForVariants False vs db))
      (\<lambda>s. Inr (fst s, save_movements s)) = Inr (ms, db')"
  shows "ms = concat (map (line_movements kind locations is db) (find_lines (map orderLineId is) db)) \<and>
    stock_movements db' = stock_movements db @ ms \<and> side_tables db' = side_tables db"
proof -
  obtain db1 where run: "fold_result (restore_line kind locations update (global_trackInventory (settings db)) is)
      (find_lines (map orderLineId is) db) ([], lockStockLevelsForVariants False vs db) = Inr (ms, db1)"
    and db': "db' = save_movements (ms, db1)"
    using assms by (auto simp: bind_result_Inr)
  have same: "line_movements kind locations is (lockStockLevelsForVariants False vs db) = line_movements kind locations is db"
    by (intro ext line_movements_cong kept_lock)
  have "ms = concat (map (line_movements kind locations is db) (find_lines (map orderLineId is) db))"
    and "kept_tables db db1"
    using restore_lines [OF run] kept_tables_trans [OF kept_lock] by (auto simp: same)
  then show ?thesis by (auto simp: db' save_movements_def kept_tables_def side_tables_def Let_def)
qed

end

interpretation releases: location_choice getLocationsBasedOnAllocations release
  by unfold_locales (simp_all add: getLocationsBasedOnAllocations_def allocations_of_def kept_levels)

interpretation cancellations: location_choice getLocationsBasedOnAllocations updateStockOnHandForLocation
  by unfold_locales (simp_all add: getLocationsBasedOnAllocations_def allocations_of_def kept_levels)

abbreviation shipped_strategy :: "stock_location_strategy \<Rightarrow> bool" where
  "shipped_strategy s \<equiv> s = DefaultStockLocationStrategy \<or> s = MultiChannelStockLocationStrategy"

lemma shipped_locations:
  assumes "shipped_strategy s"
  shows "strategy_forRelease s = getLocationsBasedOnAllocations" "strategy_forCancellation s = getLocationsBasedOnAllocations"
  using assms by (auto simp: DefaultStockLocationStrategy_def MultiChannelStockLocationStrategy_def)

lemma releases_made:
  "shipped_strategy s \<Longrightarrow> createReleasesForOrderLines s is db = Inr (ms, db') \<Longrightarrow>
   ms = concat (map (line_movements RELEASE getLocationsBasedOnAllocations is db) (find_lines (map orderLineId is) db)) \<and>
   stock_movements db' = stock_movements db @ ms \<and> side_tables db' = side_tables db"
  by (rule releases.restored) (simp_all only: createReleasesForOrderLines_def Let_def shipped_locations)

lemma cancellations_made:
  "shipped_strategy s \<Longrightarrow> createCancellationsForOrderLines s is db = Inr (ms, db') \<Longrightarrow>
   ms = concat (map (line_movements CANCELLATION getLocationsBasedOnAllocations is db) (find_lines (map orderLineId is) db)) \<and>
   stock_movements db' = stock_movements db @ ms \<and> side_tables db' = side_tables db"
  by (rule cancellations.restored) (simp_all only: createCancellationsForOrderLines_def Let_def shipped_locations)

section \<open>The movements of one line\<close>

lemma movements_of_append: "movements_of k i (db\<lparr>stock_movements := xs @ ys\<rparr>) =
    movements_of k i (db\<lparr>stock_movements := xs\<rparr>) @ movements_of k i (db\<lparr>stock_movements := ys\<rparr>)"
  by (simp add: movements_of_def)

lemma line_movements_only:
  "m \<in> set (line_movements kind locs is db l) \<Longrightarrow> mv_type m = kind \<and> mv_orderLineId m = Some (line_id l)"
  by (auto simp: line_movements_def split: option.splits)

lemma movements_of_line:
  assumes "distinct (map line_id ls)" and "l \<in> set ls"
  shows "filter (\<lambda>m. mv_type m = kind \<and> mv_orderLineId m = Some (line_id l))
      (concat (map (line_movements kind locs is db) ls)) = line_movements kind locs is db l"
proof -
  obtain xs ys where split: "ls = xs @ l # ys" using assms(2) by (auto dest: split_list)
  have "filter (\<lambda>m. mv_type m = kind \<and> mv_orderLineId m = Some (line_id l)) (concat (map (line_movements kind locs is db) zs)) = []"
    if "line_id l \<notin> line_id ` set zs" for zs
    using that by (auto simp: filter_empty_conv dest!: line_movements_only)
  moreover have "filter (\<lambda>m. mv_type m = kind \<and> mv_orderLineId m = Some (line_id l)) (line_movements kind locs is db l) =
      line_movements kind locs is db l"
    by (auto simp: filter_id_conv dest: line_movements_only)
  ultimately show ?thesis using assms(1) by (simp add: split)
qed

lemma movements_of_other_kind:
  "kind \<noteq> kind' \<Longrightarrow> filter (\<lambda>m. mv_type m = kind \<and> mv_orderLineId m = Some i)
     (concat (map (line_movements kind' locs is db) ls)) = []"
  by (auto simp: filter_empty_conv dest!: line_movements_only)

lemma spread_one_location:
  assumes "\<forall>a \<in> set as. mv_locationId a = loc" and "\<exists>x. m = [] \<or> m = [(loc, x)]"
  shows "\<exists>x. spread_allocations u m as = m \<or> spread_allocations u m as = [(loc, x)]"
  using assms
proof (induction u m as rule: spread_allocations.induct)
  case (2 u m a as)
  then show ?case by (cases "u \<le> 0") (fastforce simp: Let_def)+
qed simp

lemma one_location:
  assumes "allocations_of (line_id l) db \<noteq> []" and "\<forall>a \<in> set (allocations_of (line_id l) db). mv_locationId a = loc" and "0 < q"
  shows "length (getLocationsBasedOnAllocations locs l q db) = 1"
proof -
  obtain a as where as: "allocations_of (line_id l) db = a # as" using assms(1) by (cases "allocations_of (line_id l) db") auto
  then have loc: "mv_locationId a = loc" using assms(2) by simp
  have "spread_allocations q [] (a # as) = spread_allocations (q - min (mv_quantity a) q) [(loc, min (mv_quantity a) q)] as"
    using assms(3) loc by (simp add: Let_def)
  moreover have "\<exists>x. spread_allocations (q - min (mv_quantity a) q) [(loc, min (mv_quantity a) q)] as = [(loc, x)]"
    using spread_one_location [of as loc "[(loc, min (mv_quantity a) q)]"] assms(2) as by fastforce
  ultimately show ?thesis by (auto simp: getLocationsBasedOnAllocations_def as)
qed

section \<open>The lines of a cancellation\<close>

definition cancelled_of :: "order_line_input list \<Rightarrow> ID \<Rightarrow> int" where
  "cancelled_of inputs i = sum_list (map input_quantity (filter (\<lambda>r. orderLineId r = i) inputs))"

lemma rescaled_frame [simp]:
  "line_id (setQuantityRescalingAdjustments l q) = line_id l" "quantity (setQuantityRescalingAdjustments l q) = q"
  by (simp_all add: setQuantityRescalingAdjustments_def Let_def)

lemma save_line_row_frame [simp]:
  "stock_movements (save_line_row ord l db) = stock_movements db" "stock_levels (save_line_row ord l db) = stock_levels db"
  by (simp_all add: save_line_row_def)

lemma cancel_line_step:
  assumes "cancel_line r (ord, db) = (ord', db')" and ids: "distinct (map line_id (order_lines ord))"
  shows "map line_id (order_lines ord') = map line_id (order_lines ord) \<and> stock_movements db' = stock_movements db \<and>
    map quantity (order_lines ord') =
      map (\<lambda>l. quantity l - (if line_id l = orderLineId r then input_quantity r else 0)) (order_lines ord) \<and>
    order_header ord' = order_header ord \<and> shippingLines ord' = shippingLines ord"
proof (cases "find_line (orderLineId r) ord")
  case None
  then have "\<forall>l \<in> set (order_lines ord). line_id l \<noteq> orderLineId r" by (simp add: find_line_def find_None_all)
  then show ?thesis using assms None by (auto simp: cancel_line_def)
next
  case (Some l)
  have l: "l \<in> set (order_lines ord)" "line_id l = orderLineId r" using find_line_Some [OF Some] by auto
  let ?l = "setQuantityRescalingAdjustments l (quantity l - input_quantity r)"
  have step: "ord' = set_line ?l ord" "db' = save_line_row ord ?l db"
    using assms(1) Some by (simp_all add: cancel_line_def Let_def)
  have same: "x = l" if "x \<in> set (order_lines ord)" "line_id x = orderLineId r" for x
    using that l ids by (metis distinct_map inj_onD)
  have "map quantity (order_lines ord') =
      map (\<lambda>l. quantity l - (if line_id l = orderLineId r then input_quantity r else 0)) (order_lines ord)"
    using same l(2) by (auto simp: step set_line_def)
  then show ?thesis by (simp add: step set_line_def comp_def order_header_def)
qed

lemma cancel_lines:
  "fold cancel_line rs (ord, db) = (ord', db') \<Longrightarrow> distinct (map line_id (order_lines ord)) \<Longrightarrow>
   map line_id (order_lines ord') = map line_id (order_lines ord) \<and> stock_movements db' = stock_movements db \<and>
   map quantity (order_lines ord') = map (\<lambda>l. quantity l - cancelled_of rs (line_id l)) (order_lines ord) \<and>
   order_header ord' = order_header ord"
proof (induction rs arbitrary: ord db)
  case Nil
  then show ?case by (simp add: cancelled_of_def)
next
  case (Cons r rs)
  obtain ord1 db1 where step: "cancel_line r (ord, db) = (ord1, db1)" by fastforce
  note one = cancel_line_step [OF step Cons.prems(2)]
  have rest: "fold cancel_line rs (ord1, db1) = (ord', db')" using Cons.prems(1) step by simp
  note ih = Cons.IH [OF rest]
  have pairs: "map (\<lambda>l. (line_id l, quantity l)) (order_lines ord1) =
      map (\<lambda>l. (line_id l, quantity l - (if line_id l = orderLineId r then input_quantity r else 0))) (order_lines ord)"
    using one by (simp add: list_eq_iff_nth_eq)
  have "map (\<lambda>l. quantity l - cancelled_of rs (line_id l)) (order_lines ord1) =
      map (\<lambda>(i, q). q - cancelled_of rs i) (map (\<lambda>l. (line_id l, quantity l)) (order_lines ord1))"
    by (simp add: comp_def)
  also have "\<dots> = map (\<lambda>l. quantity l - cancelled_of (r # rs) (line_id l)) (order_lines ord)"
    unfolding pairs by (simp add: comp_def cancelled_of_def)
  finally show ?case using ih one Cons.prems(2) by simp
qed

lemma classified:
  "classify_lines db ord rs acc = Inr (as, fs) \<Longrightarrow>
   as = fst acc @ concat (map (\<lambda>i. if 0 < totalAllocated (orderLineId i) db
      then [i\<lparr>input_quantity := min (totalAllocated (orderLineId i) db) (input_quantity i)\<rparr>] else []) rs) \<and>
   (\<forall>i \<in> set rs. \<forall>l. find_line (orderLineId i) ord = Some l \<longrightarrow> input_quantity i \<le> quantity l)"
proof (induction db ord rs acc arbitrary: as fs rule: classify_lines.induct)
  case (2 db ord i "is" as' fs')
  then show ?case by (auto simp: Let_def not_less split: if_splits option.splits)
qed auto

lemma found_orders_loop:
  "getOrdersFromLines_loop ch inputs found m = Inr m' \<Longrightarrow> snd ` set m' \<subseteq> snd ` set m \<union> snd ` set found"
proof (induction ch inputs found m arbitrary: m' rule: getOrdersFromLines_loop.induct)
  case (2 ch inputs line ord found m)
  have sub: "snd ` set (map_set k ord m) \<subseteq> insert ord (snd ` set m)" for k
  proof
    fix e assume "e \<in> snd ` set (map_set k ord m)"
    then obtain i where "(i, e) \<in> set (map_set k ord m)" by auto
    from values_map_set [OF this] show "e \<in> insert ord (snd ` set m)" by force
  qed
  show ?case
  proof (cases "List.find (\<lambda>i. idsAreEqual (Some (orderLineId i)) (Some (line_id line))) inputs = None")
    case True
    then show ?thesis using 2 by auto
  next
    case False
    then have "snd ` set m' \<subseteq> snd ` set (if map_get m (order_id ord) = None then map_set (order_id ord) ord m else m)
        \<union> snd ` set found"
      using 2 by (auto split: if_split_asm)
    then show ?thesis using sub [of "order_id ord"] by (cases "map_get m (order_id ord) = None") auto
  qed
qed simp

lemma found_orders:
  "getOrdersFromLines ch inputs (lines_with_orders orders inputs) = Inr ords \<Longrightarrow> set ords \<subseteq> set orders"
  using found_orders_loop [of ch inputs "lines_with_orders orders inputs" "[]"]
  by (fastforce simp: getOrdersFromLines_def bind_result_Inr lines_with_orders_def)

text \<open>The steps of a cancellation that was not refused.\<close>

lemma cancellation_run:
  assumes "cancelOrderByOrderLines cfg ctx orders orderId cs inputs db = Inr (Inr (all, ord', db'))"
  obtains ord as fs cms rms db2 db3 ord1 where
    "ord \<in> set orders" and "order_id ord = orderId" and "\<not> active ord"
    and "classify_lines db ord inputs ([], []) = Inr (as, fs)"
    and "createCancellationsForOrderLines (cc_strategy cfg) fs
           (lockStockLevelsForVariants False (variants_to_lock ord (fs @ as)) db) = Inr (cms, db2)"
    and "createReleasesForOrderLines (cc_strategy cfg) as db2 = Inr (rms, db3)"
    and "fold cancel_line inputs (ord, db3) = (ord1, db')" and "ord' = finish_cancellation cfg cs ord1"
    and "all = orderLinesAreAllCancelled ord'"
proof -
  obtain ords where found: "getOrdersFromLines (ctx_channelId ctx) inputs (lines_with_orders orders inputs) = Inr ords"
    and rest: "(case ords of
          [] \<Rightarrow> Inl (JsError ''Cannot read properties of undefined (reading id)'')
        | ord # others \<Rightarrow>
            if others \<noteq> [] \<or> order_id ord \<noteq> orderId then Inr (Inl MultipleOrderError)
            else if active ord then Inr (Inl (CancelActiveOrderError (order_state ord)))
            else cancel_lines_of cfg cs inputs ord db) = Inr (Inr (all, ord', db'))"
    using assms by (auto simp: cancelOrderByOrderLines_def bind_result_Inr split: if_splits)
  from rest obtain ord where ord: "ords = [ord]" "order_id ord = orderId" "\<not> active ord"
    and lines: "cancel_lines_of cfg cs inputs ord db = Inr (Inr (all, ord', db'))"
    by (auto split: list.split_asm if_split_asm)
  have "ord \<in> set orders" using found_orders [OF found] by (simp add: ord(1))
  obtain as fs where classes: "classify_lines db ord inputs ([], []) = Inr (as, fs)"
    using lines by (auto simp: cancel_lines_of_def split: sum.split_asm)
  with lines obtain cms db2 rms db3 where moved:
      "createCancellationsForOrderLines (cc_strategy cfg) fs
         (lockStockLevelsForVariants False (variants_to_lock ord (fs @ as)) db) = Inr (cms, db2)"
      "createReleasesForOrderLines (cc_strategy cfg) as db2 = Inr (rms, db3)"
    and rest: "(let (ord1, db4) = fold cancel_line inputs (ord, db3); orderWithLines = finish_cancellation cfg cs ord1
       in Inr (Inr (orderLinesAreAllCancelled orderWithLines, orderWithLines, db4)) :: (cancel_error + bool \<times> order \<times> stock_db) result)
        = Inr (Inr (all, ord', db'))"
    by (auto simp: cancel_lines_of_def bind_result_Inr)
  obtain ord1 db4 where folded: "fold cancel_line inputs (ord, db3) = (ord1, db4)" by fastforce
  then show thesis
    using rest by (intro that [OF \<open>ord \<in> set orders\<close> ord(2,3) classes moved]) (auto simp: Let_def)
qed

lemma finish_cancellation_lines [simp]:
  "order_lines (finish_cancellation cfg b ord) = order_lines ord"
  "order_id (finish_cancellation cfg b ord) = order_id ord"
  by (simp_all add: finish_cancellation_def calculateOrderTotals_def Let_def)

lemma cancelled_of_none: "i \<notin> orderLineId ` set rs \<Longrightarrow> cancelled_of rs i = 0"
proof -
  assume "i \<notin> orderLineId ` set rs"
  then have "filter (\<lambda>r. orderLineId r = i) rs = []" by (auto simp: filter_empty_conv)
  then show ?thesis by (simp add: cancelled_of_def)
qed

lemma cancelled_of_Cons: "cancelled_of (r # rs) i = (if orderLineId r = i then input_quantity r else 0) + cancelled_of rs i"
  by (simp add: cancelled_of_def)

lemma cancelled_of_distinct:
  "distinct (map orderLineId rs) \<Longrightarrow> r \<in> set rs \<Longrightarrow> cancelled_of rs (orderLineId r) = input_quantity r"
  by (induction rs) (auto simp: cancelled_of_Cons cancelled_of_none)

lemma distinct_rows:
  "distinct (map orderLineId rs) \<Longrightarrow>
   distinct (map orderLineId (concat (map (\<lambda>i. if P i then [i\<lparr>input_quantity := f i\<rparr>] else []) rs)))"
  by (induction rs) (auto split: if_splits)

section \<open>Properties\<close>

text \<open>
  C26: A cancellation that is not refused belongs to an order that is no longer active and lowers the
  quantity of each line by exactly what the input asks for it; lines the input does not name keep
  theirs. If the input names no line twice, no quantity drops below zero. The answer, whether the whole
  order is cancelled, is true exactly when no line has anything left.
\<close>

theorem cancellation_exact:
  assumes run: "cancelOrderByOrderLines cfg ctx orders orderId cs inputs db = Inr (Inr (all, ord', db'))"
    and ids: "\<forall>ord \<in> set orders. distinct (map line_id (order_lines ord))"
  shows "\<exists>ord \<in> set orders. order_id ord = orderId \<and> \<not> active ord \<and>
    map line_id (order_lines ord') = map line_id (order_lines ord) \<and>
    map quantity (order_lines ord') = map (\<lambda>l. quantity l - cancelled_of inputs (line_id l)) (order_lines ord) \<and>
    (distinct (map orderLineId inputs) \<and> (\<forall>l \<in> set (order_lines ord). 0 \<le> quantity l) \<longrightarrow>
       (\<forall>q \<in> set (map quantity (order_lines ord')). 0 \<le> q)) \<and>
    all = list_all (\<lambda>l. quantity l = 0) (order_lines ord')"
  using run
proof (rule cancellation_run)
  fix ord as fs cms rms db2 db3 ord1
  assume ord: "ord \<in> set orders" "order_id ord = orderId" "\<not> active ord"
    and classes: "classify_lines db ord inputs ([], []) = Inr (as, fs)"
    and lines: "fold cancel_line inputs (ord, db3) = (ord1, db')"
    and result: "ord' = finish_cancellation cfg cs ord1" "all = orderLinesAreAllCancelled ord'"
  have distinct: "distinct (map line_id (order_lines ord))" using ids ord(1) by blast
  note q = cancel_lines [OF lines distinct]
  have "0 \<le> quantity l - cancelled_of inputs (line_id l)"
    if "distinct (map orderLineId inputs)" "l \<in> set (order_lines ord)" "0 \<le> quantity l" for l
  proof (cases "line_id l \<in> orderLineId ` set inputs")
    case True
    then obtain r where r: "r \<in> set inputs" "orderLineId r = line_id l" by auto
    have "find_line (orderLineId r) ord = Some l"
      using find_distinct_key [OF distinct that(2)] by (simp add: find_line_def r(2))
    then have "input_quantity r \<le> quantity l" using classified [OF classes] r(1) by blast
    then show ?thesis using cancelled_of_distinct [OF that(1) r(1)] by (simp add: r(2))
  qed (use that(3) in \<open>simp add: cancelled_of_none\<close>)
  then show ?thesis
    using ord q by (intro bexI [of _ ord]) (auto simp: result orderLinesAreAllCancelled_def)
qed


section \<open>A sample order\<close>

text \<open>Five units allocated at two locations by two batches, three and then two.\<close>

definition placed_order :: order where
  "placed_order = (sample_order [sample_line 1 1000 5])\<lparr>order_id := 100, active := False, order_state := PaymentSettled\<rparr>"

definition two_batches :: "stock_location_strategy \<Rightarrow> stock_db" where
  "two_batches strategy =
     tables sample_stock (createAllocationsForOrderLines strategy sample_ctx [input_of 1 2]
       (tables sample_stock (createAllocationsForOrderLines strategy sample_ctx [input_of 1 3] sample_stock)))"

definition sample_cancel :: "stock_location_strategy \<Rightarrow> order_line_input list \<Rightarrow> order \<times> stock_db \<Rightarrow>
    (cancel_error + bool \<times> order \<times> stock_db) result" where
  "sample_cancel strategy inputs s =
     cancelOrderByOrderLines \<lparr>cc_strategy = strategy, cc_calculator = sample_cfg default_calculateOrderTotals\<rparr>
       sample_ctx [fst s] 100 False inputs (snd s)"

definition left :: "order \<times> stock_db \<Rightarrow> (cancel_error + bool \<times> order \<times> stock_db) result \<Rightarrow> order \<times> stock_db" where
  "left s r = (case r of Inr (Inr (all, s')) \<Rightarrow> s' | _ \<Rightarrow> s)"

definition cancelled_default :: "bool \<times> order \<times> stock_db" where
  "cancelled_default =
     (case sample_cancel DefaultStockLocationStrategy [input_of 1 2] (placed_order, two_batches DefaultStockLocationStrategy) of
        Inr (Inr r) \<Rightarrow> r | _ \<Rightarrow> (False, placed_order, sample_stock))"

lemma cancelled_default_run:
  "cancelOrderByOrderLines \<lparr>cc_strategy = DefaultStockLocationStrategy, cc_calculator = sample_cfg default_calculateOrderTotals\<rparr>
     sample_ctx [placed_order] 100 False [input_of 1 2] (two_batches DefaultStockLocationStrategy)
   = Inr (Inr (fst cancelled_default, fst (snd cancelled_default), snd (snd cancelled_default)))"
proof -
  let ?r = "sample_cancel DefaultStockLocationStrategy [input_of 1 2] (placed_order, two_batches DefaultStockLocationStrategy)"
  have "case ?r of Inr (Inr r) \<Rightarrow> True | _ \<Rightarrow> False" by code_simp
  then have "?r = Inr (Inr cancelled_default)" by (auto simp: cancelled_default_def split: sum.splits)
  then show ?thesis by (simp add: sample_cancel_def)
qed

theorem cancellation_exact_witness:
  "map quantity (order_lines (fst (snd cancelled_default))) = [3] \<and> \<not> fst cancelled_default"
proof -
  have "\<forall>ord \<in> set [placed_order]. distinct (map line_id (order_lines ord))" by code_simp
  moreover have "map quantity (order_lines placed_order) = [5]" "map line_id (order_lines placed_order) = [1]" by code_simp+
  ultimately show ?thesis
    using cancellation_exact [OF cancelled_default_run]
    by (auto simp: cancelled_of_def input_of_def list_all_iff map_eq_Cons_conv)
qed


section \<open>Where cancellations go wrong\<close>

text \<open>
  The five units are allocated three at the first location and two at the second. Cancelling three and
  then two leaves nothing of the order, but both releases start again at the first allocation, so the
  two units at the second location stay allocated for good. Cancelling four and then one records four
  units released at each location; the second cancellation then finds less than nothing allocated and
  releases none.
\<close>

theorem partial_cancellations_leak:
  "(let start = (placed_order, two_batches MultiChannelStockLocationStrategy);
        cancel = (\<lambda>q s. left s (sample_cancel MultiChannelStockLocationStrategy [input_of 1 q] s));
        (ord, db) = cancel 2 (cancel 3 start);
        (ord', db') = cancel 1 (cancel 4 start)
    in map (\<lambda>m. (mv_locationId m, mv_quantity m)) (movements_of ALLOCATION 1 (snd start)) = [(Some 1, 3), (Some 2, 2)] \<and>
       orderLinesAreAllCancelled ord \<and> stock_at db (1, 1) = Some (3, 0) \<and> stock_at db (1, 2) = Some (10, 2) \<and>
       orderLinesAreAllCancelled ord' \<and> stock_at db' (1, 2) = Some (10, 1) \<and> totalAllocated 1 db' = - 3)"
  by code_simp

text \<open>
  The quantities of a cancellation are checked one row at a time against the order as it was. A line
  that is named twice passes the check twice and ends with a negative quantity, and a negative quantity
  is cancelled by adding units to a paid order, which nobody pays for or allocates.
\<close>

theorem unchecked_cancellations:
  "(case sample_cancel DefaultStockLocationStrategy [input_of 1 5, input_of 1 5] (placed_order, two_batches DefaultStockLocationStrategy) of
      Inr (Inr (all, ord, db)) \<Rightarrow> map quantity (order_lines ord) = [- 5] \<and> \<not> all | _ \<Rightarrow> False) \<and>
   (case sample_cancel DefaultStockLocationStrategy [input_of 1 (- 2)] (placed_order, two_batches DefaultStockLocationStrategy) of
      Inr (Inr (all, ord, db)) \<Rightarrow> map quantity (order_lines ord) = [7] \<and> totalAllocated 1 db = 5 | _ \<Rightarrow> False)"
  by code_simp

end
