(* ===== verification/FulfillmentSafety.thy ===== *)
theory FulfillmentSafety
  imports Fulfillments CancellationLedger OrderLifecycle
begin

text \<open>
  No unit is fulfilled twice: whatever fulfillments are created, moved on or cancelled, the quantities
  of a line in fulfillments that were not cancelled stay within its own, as long as the inputs name
  no line twice and no negative quantity. Both provisos are needed.
\<close>

section \<open>The tables\<close>

definition within_ordered :: "order \<Rightarrow> bool" where
  "within_ordered ord \<longleftrightarrow> (\<forall>l \<in> set (order_lines ord). fulfilledQuantity ord (line_id l) \<le> quantity l)"

definition rows_nonneg :: "order \<Rightarrow> bool" where
  "rows_nonneg ord \<longleftrightarrow> (\<forall>f \<in> set (fulfillments ord). \<forall>r \<in> set (fulfillment_lines f). 0 \<le> input_quantity r)"

text \<open>
  Keys: the ids of the orders, the ids of the lines over all orders, and fulfillments with one id are
  one fulfillment, whose id was given out before.
\<close>

definition fulfillment_keys :: "fulfillment_tables \<Rightarrow> bool" where
  "fulfillment_keys t \<longleftrightarrow>
     distinct (map order_id (ft_orders t)) \<and> distinct (concat (map (\<lambda>ord. map line_id (order_lines ord)) (ft_orders t))) \<and>
     (\<forall>fs \<in> set (map fulfillments (ft_orders t)). distinct (map fulfillment_id fs)) \<and>
     (\<forall>f \<in> set (concat (map fulfillments (ft_orders t))). fulfillment_id f < ft_nextId t \<and>
        (\<forall>g \<in> set (concat (map fulfillments (ft_orders t))). fulfillment_id g = fulfillment_id f \<longrightarrow> g = f))"

definition fulfillment_tables_ok :: "fulfillment_tables \<Rightarrow> bool" where
  "fulfillment_tables_ok t \<longleftrightarrow>
     fulfillment_keys t \<and> (\<forall>ord \<in> set (ft_orders t). within_ordered ord \<and> rows_nonneg ord)"

section \<open>Sums over fulfillments\<close>

definition counts :: "ID \<Rightarrow> fulfillment \<Rightarrow> int" where
  "counts i f = (if fulfillment_state f = Fulfillment_Cancelled then 0
                 else sum_list (map input_quantity (filter (\<lambda>r. orderLineId r = i) (fulfillment_lines f))))"

lemma fulfilledQuantity_sum: "fulfilledQuantity ord i = sum_list (map (counts i) (fulfillments ord))"
proof -
  have "sum_list (map (\<lambda>fl. input_quantity (snd fl)) (filter (\<lambda>fl. orderLineId (snd fl) = i)
      (concat (map (\<lambda>f. map (\<lambda>l. (fulfillment_state f, l)) (fulfillment_lines f))
         (filter (\<lambda>f. fulfillment_state f \<noteq> Fulfillment_Cancelled) fs))))) = sum_list (map (counts i) fs)" for fs
    by (induction fs) (auto simp: counts_def filter_map comp_def)
  then show ?thesis by (simp add: fulfilledQuantity_def getOrderFulfillmentLines_def total_simps)
qed

lemma open_rows_sum: "summate (open_rows ord i) input_quantity = fulfilledQuantity ord i"
  by (simp add: open_rows_def fulfilledQuantity_def total_simps filter_map comp_def)

lemma counts_nonneg: "rows_nonneg ord \<Longrightarrow> f \<in> set (fulfillments ord) \<Longrightarrow> 0 \<le> counts i f"
  by (auto simp: rows_nonneg_def counts_def intro!: sum_list_nonneg_map)

lemma sum_replace:
  assumes "distinct (map k xs)" and "x \<in> set xs" and "k y = k x"
  shows "sum_list (map h (map (\<lambda>z. if k z = k y then y else z) xs)) = sum_list (map h xs) - h x + (h y :: int)"
proof -
  obtain us vs where split: "xs = us @ x # vs" using assms(2) by (auto dest: split_list)
  have "map (\<lambda>z. if k z = k y then y else z) zs = zs" if "k x \<notin> k ` set zs" for zs
    using that assms(3) by (intro map_idI) (metis imageI)
  then show ?thesis using assms(1,3) by (simp add: split)
qed

section \<open>Checked quantities\<close>

lemma owner_of_Some: "owner_of orders i = Some (ord, l) \<Longrightarrow> ord \<in> set orders \<and> l \<in> set (order_lines ord) \<and> line_id l = i"
  by (auto simp: owner_of_def filter_eq_Cons_iff dest: find_line_Some split: list.splits)

lemma not_exceeding:
  "requestedFulfillmentQuantityExceedsLineQuantity orders inputs = Inr False \<Longrightarrow> i \<in> set inputs \<Longrightarrow>
   \<exists>ord l. owner_of orders (orderLineId i) = Some (ord, l) \<and> fulfilledQuantity ord (orderLineId i) + input_quantity i \<le> quantity l"
proof (induction orders inputs rule: requestedFulfillmentQuantityExceedsLineQuantity.induct)
  case (2 orders j js)
  obtain ord l where own: "owner_of orders (orderLineId j) = Some (ord, l)"
    using "2.prems" by (auto split: option.splits)
  have sum: "open_rows ord (orderLineId j) = [] \<Longrightarrow> fulfilledQuantity ord (orderLineId j) = 0"
    using open_rows_sum [of ord "orderLineId j"] by simp
  show ?case
    using 2 own sum by (auto simp: Let_def open_rows_sum split: if_splits)
qed simp

lemma unique_owner:
  assumes "distinct (concat (map (\<lambda>ord. map line_id (order_lines ord)) orders))"
    and "a \<in> set orders" "b \<in> set orders" "l \<in> set (order_lines a)" "m \<in> set (order_lines b)" "line_id l = line_id m"
  shows "a = b \<and> l = m"
  using assms
proof (induction orders)
  case (Cons x xs)
  have rest: "distinct (concat (map (\<lambda>ord. map line_id (order_lines ord)) xs))" using Cons.prems(1) by simp
  have apart: "\<not> (a = x \<and> b \<in> set xs)" "\<not> (b = x \<and> a \<in> set xs)"
    using Cons.prems(1,4,5,6) by (auto simp: disjoint_iff image_iff)
  show ?case
  proof (cases "a = x")
    case True
    then have "b = x" using apart Cons.prems(3) by auto
    then show ?thesis using True Cons.prems(1,4,5,6) by (auto simp: distinct_map dest: inj_onD)
  next
    case False
    then have "a \<in> set xs" "b \<in> set xs" using apart Cons.prems(2,3) by auto
    then show ?thesis using Cons.IH [OF rest] Cons.prems(4,5,6) by blast
  qed
qed simp

section \<open>Steps\<close>

text \<open>What a step may change of an order: not its id, nor the ids and quantities of its lines.\<close>

definition same_lines :: "order \<Rightarrow> order \<Rightarrow> bool" where
  "same_lines ord ord' \<longleftrightarrow> order_id ord' = order_id ord \<and>
     map (\<lambda>l. (line_id l, quantity l)) (order_lines ord') = map (\<lambda>l. (line_id l, quantity l)) (order_lines ord)"

lemma same_lines_refl [simp]: "same_lines ord ord"
  by (simp add: same_lines_def)

lemma within_same_lines:
  assumes "same_lines ord ord'" and "\<And>i. fulfilledQuantity ord' i \<le> fulfilledQuantity ord i" and "within_ordered ord"
  shows "within_ordered ord'"
proof -
  have "\<forall>(i, q) \<in> set (map (\<lambda>l. (line_id l, quantity l)) (order_lines ord)). fulfilledQuantity ord' i \<le> q"
    using assms(2,3) by (auto simp: within_ordered_def intro: order_trans)
  then have "\<forall>(i, q) \<in> set (map (\<lambda>l. (line_id l, quantity l)) (order_lines ord')). fulfilledQuantity ord' i \<le> q"
    using assms(1) by (simp add: same_lines_def)
  then show ?thesis by (auto simp: within_ordered_def)
qed

lemma same_line_ids: "same_lines ord ord' \<Longrightarrow> map line_id (order_lines ord') = map line_id (order_lines ord)"
proof -
  assume "same_lines ord ord'"
  then have "map fst (map (\<lambda>l. (line_id l, quantity l)) (order_lines ord')) = map fst (map (\<lambda>l. (line_id l, quantity l)) (order_lines ord))"
    by (simp only: same_lines_def)
  then show ?thesis by (simp add: comp_def)
qed

definition kept :: "order \<Rightarrow> order \<Rightarrow> bool" where
  "kept ord ord' \<longleftrightarrow> same_lines ord ord' \<and> fulfillments ord' = fulfillments ord"

lemma kept_refl [simp]: "kept ord ord"
  by (simp add: kept_def)

lemma kept_trans: "kept a b \<Longrightarrow> kept b c \<Longrightarrow> kept a c"
  by (simp add: kept_def same_lines_def)

lemma list_all2_map_same: "list_all2 P xs ys \<Longrightarrow> (\<And>x y. P x y \<Longrightarrow> f y = f x) \<Longrightarrow> map f ys = map f xs"
  by (induction rule: list_all2_induct) auto

lemma list_all2_refl: "(\<And>x. P x x) \<Longrightarrow> list_all2 P xs xs"
  by (rule list.rel_refl)

lemma ok_kept:
  assumes "list_all2 kept (ft_orders t) (ft_orders t')" and "ft_nextId t' = ft_nextId t" and ok: "fulfillment_tables_ok t"
  shows "fulfillment_tables_ok t'"
proof -
  have maps: "map order_id (ft_orders t') = map order_id (ft_orders t)"
    "map fulfillments (ft_orders t') = map fulfillments (ft_orders t)"
    by (rule list_all2_map_same [OF assms(1)], simp add: kept_def same_lines_def)+
  have ids: "map (\<lambda>ord. map line_id (order_lines ord)) (ft_orders t') = map (\<lambda>ord. map line_id (order_lines ord)) (ft_orders t)"
    by (rule list_all2_map_same [OF assms(1)]) (auto simp: kept_def intro: same_line_ids)
  have "within_ordered ord' \<and> rows_nonneg ord'" if member: "ord' \<in> set (ft_orders t')" for ord'
  proof -
    obtain i where i: "i < length (ft_orders t')" "ft_orders t' ! i = ord'" using member by (auto simp: in_set_conv_nth)
    define ord where "ord = ft_orders t ! i"
    have ord: "ord \<in> set (ft_orders t)" "kept ord ord'"
      using assms(1) i by (auto simp: ord_def list_all2_conv_all_nth)
    then have "within_ordered ord" "rows_nonneg ord" using ok by (auto simp: fulfillment_tables_ok_def)
    then show ?thesis
      using within_same_lines [of ord ord'] ord(2) by (simp add: kept_def rows_nonneg_def fulfilledQuantity_sum)
  qed
  then show ?thesis using ok by (simp add: fulfillment_tables_ok_def fulfillment_keys_def maps ids assms(2))
qed

lemma order_transition_keeps:
  assumes "transitionToState [defaultOrderProcess opts env] \<lparr>data_order = ord, data_effects = []\<rparr> s = Inr (Transitioned d)"
    and "s \<noteq> ArrangingPayment"
  shows "kept ord (data_order d)"
  using assms(1)
proof (rule transitioned_steps)
  fix d1
  assume start: "order_onTransitionStart opts env (order_state (data_order \<lparr>data_order = ord, data_effects = []\<rparr>)) s
      \<lparr>data_order = ord, data_effects = []\<rparr> = Inr (Start_void, d1)"
    and stop: "order_onTransitionEnd env (order_state (data_order \<lparr>data_order = ord, data_effects = []\<rparr>)) s
      (add_effect (OrderStateTransitionEvent (order_state (data_order \<lparr>data_order = ord, data_effects = []\<rparr>)) s)
        (d1\<lparr>data_order := (data_order d1)\<lparr>order_state := s\<rparr>\<rparr>)) = Inr d"
  have "d1 = \<lparr>data_order = ord, data_effects = []\<rparr>"
    using start assms(2) by (cases rule: onTransitionStart_cases) auto
  then have "order_onTransitionEnd env (order_state ord) s
      (add_effect (OrderStateTransitionEvent (order_state ord) s)
        \<lparr>data_order = ord\<lparr>order_state := s\<rparr>, data_effects = []\<rparr>) = Inr d"
    using stop by simp
  then show ?thesis
    by (auto simp: order_onTransitionEnd_def set_as_placed_def Let_def kept_def same_lines_def comp_def split: if_split_asm)
qed

lemma order_targets: "handleFulfillmentStateTransitByOrder next ord s = Some target \<Longrightarrow> target \<noteq> ArrangingPayment"
  by (auto simp: handleFulfillmentStateTransitByOrder_def Let_def split: if_splits)

lemma move_order_keeps:
  assumes "move_order cfg s i t = Inr t'" and "fc_orderProcesses cfg = [defaultOrderProcess opts env]"
    and ids: "distinct (map order_id (ft_orders t))"
  shows "list_all2 kept (ft_orders t) (ft_orders t') \<and> ft_nextId t' = ft_nextId t"
proof -
  obtain ord where ord: "order_in (ft_orders t) i = Some ord"
    using assms(1) by (auto simp: move_order_def split: option.splits)
  have member: "ord \<in> set (ft_orders t)" using ord by (auto simp: order_in_def dest: find_Some_in)
  consider "t' = t" | target d where "target \<noteq> ArrangingPayment"
      "transitionToState [defaultOrderProcess opts env] \<lparr>data_order = ord, data_effects = []\<rparr> target = Inr (Transitioned d)"
      "t' = t\<lparr>ft_orders := replace_order (data_order d) (ft_orders t)\<rparr>"
  proof (cases "handleFulfillmentStateTransitByOrder
      (fsm_getNextStates (allTransitions (fc_orderProcesses cfg)) (order_state ord)) ord s")
    case None
    then show thesis using that(1) assms(1) ord by (simp add: move_order_def)
  next
    case (Some target)
    obtain r where r: "transitionToState [defaultOrderProcess opts env] \<lparr>data_order = ord, data_effects = []\<rparr> target = Inr r"
      using assms(1) ord Some by (auto simp: move_order_def assms(2) bind_result_Inr)
    show thesis
      using that(2) [OF order_targets [OF Some]] assms(1) ord Some r by (cases r) (auto simp: move_order_def assms(2))
  qed
  then show ?thesis
  proof cases
    case 1
    then show ?thesis by (simp add: list_all2_refl)
  next
    case 2
    have k: "kept ord (data_order d)" by (rule order_transition_keeps [OF 2(2,1)])
    have "x = ord" if "x \<in> set (ft_orders t)" "order_id x = order_id ord" for x
      using that member ids by (metis distinct_map inj_onD)
    then have "list_all2 kept (ft_orders t) (replace_order (data_order d) (ft_orders t))"
      using k by (auto simp: replace_order_def list_all2_map2 kept_def same_lines_def intro!: list.rel_refl_strong)
    then show ?thesis by (simp add: 2(3))
  qed
qed

lemma move_orders_keep:
  assumes "fc_orderProcesses cfg = [defaultOrderProcess opts env]"
  shows "fold_result (move_order cfg s) is t = Inr t' \<Longrightarrow> distinct (map order_id (ft_orders t)) \<Longrightarrow>
    list_all2 kept (ft_orders t) (ft_orders t') \<and> ft_nextId t' = ft_nextId t"
proof (induction "is" arbitrary: t)
  case Nil
  then show ?case by (simp add: list_all2_refl)
next
  case (Cons i "is")
  then obtain u where u: "move_order cfg s i t = Inr u" "fold_result (move_order cfg s) is u = Inr t'"
    by (auto simp: bind_result_Inr)
  note one = move_order_keeps [OF u(1) assms Cons.prems(2)]
  have "map order_id (ft_orders u) = map order_id (ft_orders t)"
    by (rule list_all2_map_same [where P = kept]) (use one in \<open>auto simp: kept_def same_lines_def\<close>)
  then show ?case
    using Cons.IH [OF u(2)] one Cons.prems(2) list_all2_trans [of kept kept kept] kept_trans by fastforce
qed

section \<open>Moving a fulfillment on\<close>

lemma fulfillment_starts:
  "run_starts [fulfillment_process hs] a b f = Inr (r, g) \<Longrightarrow> g = f"
  by (auto simp: fulfillment_process_def fulfillment_onTransitionStart_def
      split: option.split_asm start_result.split_asm)

lemma fulfillment_transition_cases:
  assumes "fulfillmentStateMachine_transition [fulfillment_process hs] f s = Inr (f', fin)"
  shows "\<exists>st. f' = f\<lparr>fulfillment_state := st\<rparr> \<and> fulfillment_state f \<noteq> Fulfillment_Cancelled"
proof -
  let ?cfg = "process_config [fulfillment_process hs] ''error.cannot-transition-fulfillment-from-to''"
  have t: "allTransitions [fulfillment_process hs] = defaultFulfillmentTransitions"
    by (simp add: fulfillment_process_def allTransitions_def mergeTransitionDefinitions_def) code_simp
  obtain st f1 where run: "transitionTo ?cfg (fulfillment_state f) s f = Inr (st, f1, fin)" and f': "f' = f1\<lparr>fulfillment_state := st\<rparr>"
    using assms by (auto simp: fulfillmentStateMachine_transition_def bind_result_Inr)
  have allowed: "canTransitionTo defaultFulfillmentTransitions (fulfillment_state f) s = Inr True"
    using run by (auto simp: transitionTo_def process_config_def t bind_result_Inr fsm_error_def split: if_split_asm)
  then have live: "fulfillment_state f \<noteq> Fulfillment_Cancelled"
    by (auto simp: canTransitionTo_def defaultFulfillmentTransitions_def to_only_def)
  obtain a g where start: "run_starts [fulfillment_process hs] (fulfillment_state f) s f = Inr (a, g)"
    using run allowed by (cases "run_starts [fulfillment_process hs] (fulfillment_state f) s f")
      (auto simp del: run_starts.simps simp: transitionTo_def process_config_def t)
  have "f1 = g"
    using run allowed start
    by (cases a) (simp_all del: run_starts.simps add: transitionTo_def process_config_def t fsm_error_def)
  then have "f1 = f" using fulfillment_starts [OF start] by simp
  then show ?thesis using f' live by blast
qed

lemma fulfillment_in_Some:
  "fulfillment_in orders i = Some f \<Longrightarrow> f \<in> set (concat (map fulfillments orders)) \<and> fulfillment_id f = i"
  by (auto simp: fulfillment_in_def dest: find_Some_in)

lemma ok_set_fulfillment:
  assumes ok: "fulfillment_tables_ok t" and f: "f \<in> set (concat (map fulfillments (ft_orders t)))"
    and live: "fulfillment_state f \<noteq> Fulfillment_Cancelled" and f': "f' = f\<lparr>fulfillment_state := st\<rparr>"
  shows "fulfillment_tables_ok (t\<lparr>ft_orders := set_fulfillment f' (ft_orders t)\<rparr>)"
proof -
  let ?set = "\<lambda>fs. map (\<lambda>x. if fulfillment_id x = fulfillment_id f' then f' else x) fs"
  have one: "g = f" if "g \<in> set (concat (map fulfillments (ft_orders t)))" "fulfillment_id g = fulfillment_id f" for g
    using ok that f by (auto simp: fulfillment_tables_ok_def fulfillment_keys_def)
  have ids: "map (\<lambda>x. fulfillment_id (if fulfillment_id x = fulfillment_id f' then f' else x)) fs = map fulfillment_id fs" for fs
    by (rule map_cong) simp_all
  have "within_ordered (ord\<lparr>fulfillments := ?set (fulfillments ord)\<rparr>) \<and> rows_nonneg (ord\<lparr>fulfillments := ?set (fulfillments ord)\<rparr>)"
    if ord: "ord \<in> set (ft_orders t)" for ord
  proof
    have w: "within_ordered ord" and r: "rows_nonneg ord" and d: "distinct (map fulfillment_id (fulfillments ord))"
      using ok ord by (auto simp: fulfillment_tables_ok_def fulfillment_keys_def)
    have mine: "g = f" if "g \<in> set (fulfillments ord)" "fulfillment_id g = fulfillment_id f" for g
      using one [of g] that ord by auto
    have fewer: "fulfilledQuantity (ord\<lparr>fulfillments := ?set (fulfillments ord)\<rparr>) i \<le> fulfilledQuantity ord i" for i
    proof (cases "f \<in> set (fulfillments ord)")
      case True
      have "counts i f' \<le> counts i f" using counts_nonneg [OF r True, of i] live by (simp add: counts_def f')
      then show ?thesis
        using sum_replace [OF d True, of f' "counts i"] by (simp add: fulfilledQuantity_sum f')
    next
      case False
      then have "?set (fulfillments ord) = fulfillments ord" using mine by (intro map_idI) (auto simp: f')
      then show ?thesis by (simp add: fulfilledQuantity_sum)
    qed
    show "within_ordered (ord\<lparr>fulfillments := ?set (fulfillments ord)\<rparr>)"
      by (rule within_same_lines [OF _ fewer w]) (simp add: same_lines_def)
    show "rows_nonneg (ord\<lparr>fulfillments := ?set (fulfillments ord)\<rparr>)"
      using r mine by (auto simp: rows_nonneg_def f' split: if_split_asm) metis
  qed
  moreover have "fulfillment_keys (t\<lparr>ft_orders := set_fulfillment f' (ft_orders t)\<rparr>)"
  proof -
    have "g = h" if "g \<in> set (concat (map (?set \<circ> fulfillments) (ft_orders t)))"
        "h \<in> set (concat (map (?set \<circ> fulfillments) (ft_orders t)))" "fulfillment_id g = fulfillment_id h" for g h
      using that ok f one by (auto simp: fulfillment_tables_ok_def fulfillment_keys_def f' split: if_split_asm)
    moreover have "fulfillment_id g < ft_nextId t" if "g \<in> set (concat (map (?set \<circ> fulfillments) (ft_orders t)))" for g
      using that ok f by (auto simp: fulfillment_tables_ok_def fulfillment_keys_def f' split: if_split_asm)
    ultimately show ?thesis
      using ok by (auto simp: fulfillment_tables_ok_def fulfillment_keys_def set_fulfillment_def comp_def ids)
  qed
  ultimately show ?thesis using ok by (auto simp: fulfillment_tables_ok_def set_fulfillment_def)
qed

lemma transition_keeps_ok:
  assumes run: "fulfillment_transitionToState cfg ctx i s t = Inr (r, t')" and ok: "fulfillment_tables_ok t"
    and cfg: "fc_orderProcesses cfg = [defaultOrderProcess opts env]"
  shows "fulfillment_tables_ok t'"
proof -
  obtain f where f: "fulfillment_in (ft_orders t) i = Some f" using run
    by (auto simp: fulfillment_transitionToState_def split: option.splits)
  show ?thesis
  proof (cases "fulfillmentStateMachine_transition [fulfillment_process (fc_handlers cfg)] f s")
    case (Inl e)
    then show ?thesis using run f ok by (auto simp: fulfillment_transitionToState_def Let_def split: if_split_asm)
  next
    case (Inr b)
    obtain f' fin where b: "b = (f', fin)" by fastforce
    let ?t = "t\<lparr>ft_orders := set_fulfillment f' (ft_orders t)\<rparr>"
    have ok': "fulfillment_tables_ok ?t"
      using fulfillment_transition_cases [OF Inr [unfolded b]] ok_set_fulfillment [OF ok] fulfillment_in_Some [OF f] by blast
    consider (same) "t' = ?t" | (ended) u v os where "fulfillment_end cfg ctx u v f' os ?t = Inr t'"
      using run f Inr b
      by (cases fin) (auto simp: fulfillment_transitionToState_def Let_def bind_result_Inr split: if_split_asm)
    then show ?thesis
    proof cases
      case same
      then show ?thesis using ok' by simp
    next
      case ended
      then obtain db where "fold_result (move_order cfg v) os (?t\<lparr>ft_stock := db\<rparr>) = Inr t'"
        by (auto simp: fulfillment_end_def bind_result_Inr)
      from move_orders_keep [OF cfg this] have "list_all2 kept (ft_orders ?t) (ft_orders t')" "ft_nextId t' = ft_nextId ?t"
        using ok' by (simp_all add: fulfillment_tables_ok_def fulfillment_keys_def)
      then show ?thesis using ok_kept ok' by blast
    qed
  qed
qed

section \<open>Creating a fulfillment\<close>

lemma set_add_fulfillment:
  "g \<in> set (concat (map fulfillments (add_fulfillment f found os))) \<Longrightarrow> g = f \<or> g \<in> set (concat (map fulfillments os))"
  by (induction os) (auto simp: add_fulfillment_def split: if_split_asm)

lemma add_fulfillment_same:
  "map order_id (add_fulfillment f found os) = map order_id os"
  "map (\<lambda>ord. map line_id (order_lines ord)) (add_fulfillment f found os) = map (\<lambda>ord. map line_id (order_lines ord)) os"
  by (induction os) (simp_all add: add_fulfillment_def)

lemma add_fulfillment_rows:
  "fs \<in> set (map fulfillments (add_fulfillment f found os)) \<Longrightarrow>
     \<exists>gs \<in> set (map fulfillments os). fs = gs \<or> fs = gs @ [f]"
  by (induction os) (auto simp: add_fulfillment_def split: if_split_asm)

lemma keys_add_fulfillment:
  assumes keys: "fulfillment_keys t" and f: "fulfillment_id f = ft_nextId t"
  shows "fulfillment_keys (t\<lparr>ft_orders := add_fulfillment f found (ft_orders t), ft_nextId := Suc (ft_nextId t)\<rparr>)"
proof -
  let ?old = "set (concat (map fulfillments (ft_orders t)))"
  let ?new = "set (concat (map fulfillments (add_fulfillment f found (ft_orders t))))"
  have old: "g \<in> ?old \<Longrightarrow> fulfillment_id g < ft_nextId t" for g
    using keys unfolding fulfillment_keys_def by blast
  have one: "g \<in> ?old \<Longrightarrow> h \<in> ?old \<Longrightarrow> fulfillment_id h = fulfillment_id g \<Longrightarrow> h = g" for g h
    using keys unfolding fulfillment_keys_def by blast
  have bound: "fulfillment_id g < Suc (ft_nextId t)" if g: "g \<in> ?new" for g
    using set_add_fulfillment [OF g] old [of g] f by (elim disjE) simp_all
  have same: "h = g" if g: "g \<in> ?new" and h: "h \<in> ?new" and eq: "fulfillment_id h = fulfillment_id g" for g h
    using set_add_fulfillment [OF g] set_add_fulfillment [OF h] old [of g] old [of h] one [of g h] f eq
    by (elim disjE) simp_all
  have rows: "distinct (map fulfillment_id fs)" if fs: "fs \<in> set (map fulfillments (add_fulfillment f found (ft_orders t)))" for fs
  proof -
    obtain gs where gs: "gs \<in> set (map fulfillments (ft_orders t))" "fs = gs \<or> fs = gs @ [f]"
      using add_fulfillment_rows [OF fs] by blast
    have ids: "distinct (map fulfillment_id gs)" using keys gs(1) unfolding fulfillment_keys_def by blast
    have smaller: "g \<in> set gs \<Longrightarrow> fulfillment_id g < ft_nextId t" for g
      using old [of g] gs(1) by auto
    have "ft_nextId t \<notin> fulfillment_id ` set gs" using smaller by (metis imageE less_irrefl)
    then show ?thesis using gs(2) f ids by (elim disjE) simp_all
  qed
  have "ft_orders u = add_fulfillment f found (ft_orders t) \<Longrightarrow> ft_nextId u = Suc (ft_nextId t) \<Longrightarrow> fulfillment_keys u" for u
    unfolding fulfillment_keys_def using keys bound same rows
    by (metis add_fulfillment_same fulfillment_keys_def)
  then show ?thesis by simp
qed

lemma ok_add_fulfillment:
  assumes ok: "fulfillment_tables_ok t"
    and checked: "requestedFulfillmentQuantityExceedsLineQuantity (ft_orders t) inputs = Inr False"
    and inputs: "distinct (map orderLineId inputs)" "\<forall>i \<in> set inputs. 0 \<le> input_quantity i"
    and f: "fulfillment_id f = ft_nextId t" "fulfillment_state f = Fulfillment_Created" "fulfillment_lines f = inputs"
  shows "fulfillment_tables_ok (t\<lparr>ft_orders := add_fulfillment f found (ft_orders t), ft_nextId := Suc (ft_nextId t)\<rparr>)"
proof -
  have counted: "counts i f = cancelled_of inputs i" for i by (simp add: counts_def f cancelled_of_def)
  have lines_unique: "distinct (concat (map (\<lambda>ord. map line_id (order_lines ord)) (ft_orders t)))"
    using ok by (simp add: fulfillment_tables_ok_def fulfillment_keys_def)
  have "within_ordered (ord\<lparr>fulfillments := fulfillments ord @ [f]\<rparr>)" if ord: "ord \<in> set (ft_orders t)" for ord
  proof -
    have w: "within_ordered ord" using ok ord by (simp add: fulfillment_tables_ok_def)
    have "fulfilledQuantity ord (line_id l) + cancelled_of inputs (line_id l) \<le> quantity l" if l: "l \<in> set (order_lines ord)" for l
    proof (cases "line_id l \<in> orderLineId ` set inputs")
      case True
      then obtain i where i: "i \<in> set inputs" "orderLineId i = line_id l" by auto
      obtain o2 l2 where own: "owner_of (ft_orders t) (orderLineId i) = Some (o2, l2)"
        and le: "fulfilledQuantity o2 (orderLineId i) + input_quantity i \<le> quantity l2"
        using not_exceeding [OF checked i(1)] by blast
      have "o2 = ord \<and> l2 = l"
        using unique_owner [OF lines_unique, of o2 ord l2 l] owner_of_Some [OF own] i(2) ord l by simp
      then show ?thesis using le cancelled_of_distinct [OF inputs(1) i(1)] by (simp add: i(2))
    next
      case False
      then show ?thesis using w l by (simp add: cancelled_of_none within_ordered_def)
    qed
    then show ?thesis by (simp add: within_ordered_def fulfilledQuantity_sum counted)
  qed
  moreover have "rows_nonneg (ord\<lparr>fulfillments := fulfillments ord @ [f]\<rparr>)" if "ord \<in> set (ft_orders t)" for ord
    using ok that inputs(2) by (auto simp: fulfillment_tables_ok_def rows_nonneg_def f)
  ultimately show ?thesis
    using ok keys_add_fulfillment [OF _ f(1)] by (auto simp: fulfillment_tables_ok_def add_fulfillment_def)
qed

lemma create_keeps_ok:
  assumes run: "createFulfillment cfg ctx handler inputs t = Inr (r, t')" and ok: "fulfillment_tables_ok t"
    and cfg: "fc_orderProcesses cfg = [defaultOrderProcess opts env]"
    and inputs: "distinct (map orderLineId inputs)" "\<forall>i \<in> set inputs. 0 \<le> input_quantity i"
  shows "fulfillment_tables_ok t'"
proof (cases "t' = t")
  case False
  then obtain found where checked: "requestedFulfillmentQuantityExceedsLineQuantity (ft_orders t) inputs = Inr False"
    and rest: "(case fulfillment_create cfg handler found inputs t of
                   (Inl e, t1) \<Rightarrow> Inr (Inl e, t1)
                 | (Inr f, t1) \<Rightarrow> fulfillment_transitionToState cfg ctx (fulfillment_id f) Fulfillment_Pending t1) = Inr (r, t')"
    using run by (auto simp: createFulfillment_def bind_result_Inr split: if_split_asm option.split_asm)
  obtain h where "List.find (\<lambda>h. fh_code h = handler) (fc_handlers cfg) = Some h" "fh_createFulfillment h found inputs = None"
    using rest False by (auto simp: fulfillment_create_def split: option.split_asm)
  then have "\<exists>f. fulfillment_create cfg handler found inputs t =
      (Inr f, t\<lparr>ft_orders := add_fulfillment f found (ft_orders t), ft_nextId := Suc (ft_nextId t)\<rparr>) \<and>
      fulfillment_id f = ft_nextId t \<and> fulfillment_state f = Fulfillment_Created \<and> fulfillment_lines f = inputs"
    by (simp add: fulfillment_create_def Let_def)
  then obtain f where made: "fulfillment_create cfg handler found inputs t =
      (Inr f, t\<lparr>ft_orders := add_fulfillment f found (ft_orders t), ft_nextId := Suc (ft_nextId t)\<rparr>)"
    and f: "fulfillment_id f = ft_nextId t" "fulfillment_state f = Fulfillment_Created" "fulfillment_lines f = inputs"
    by blast
  show ?thesis
    using transition_keeps_ok [OF _ ok_add_fulfillment [OF ok checked inputs f] cfg] rest made by simp
qed (use ok in simp)

section \<open>Runs\<close>

text \<open>
  What may happen to the tables: a fulfillment is created, whatever the answer, or one is moved to
  another state.
\<close>

inductive fulfilling :: "fulfillment_config \<Rightarrow> fulfillment_tables \<Rightarrow> fulfillment_tables \<Rightarrow> bool" for cfg where
  create: "createFulfillment cfg ctx handler inputs t = Inr (r, t') \<Longrightarrow> distinct (map orderLineId inputs) \<Longrightarrow>
     \<forall>i \<in> set inputs. 0 \<le> input_quantity i \<Longrightarrow> fulfilling cfg t t'"
| move: "fulfillment_transitionToState cfg ctx i s t = Inr (r, t') \<Longrightarrow> fulfilling cfg t t'"

inductive_cases fulfillingE: "fulfilling cfg t t'"

text \<open>
  C9: However fulfillments are created, moved on and cancelled, the units of a line in fulfillments that
  are not cancelled never exceed its quantity, provided that no input names a line twice or a negative
  quantity. This includes fulfillments whose creation failed half way, and the order states that
  the transitions bring about under the default order process.
\<close>

theorem fulfilled_within_ordered:
  assumes "steps (fulfilling cfg) t t'" and "fc_orderProcesses cfg = [defaultOrderProcess opts env]"
    and "fulfillment_tables_ok t" and "ord \<in> set (ft_orders t')" and "l \<in> set (order_lines ord)"
  shows "fulfilledQuantity ord (line_id l) \<le> quantity l"
proof -
  have "fulfillment_tables_ok t'"
    by (rule steps_invariant [OF assms(1), where P = fulfillment_tables_ok, OF assms(3)])
      (erule fulfillingE, (blast intro: create_keeps_ok transition_keeps_ok assms(2))+)
  then show ?thesis using assms(4,5) by (simp add: fulfillment_tables_ok_def within_ordered_def)
qed

section \<open>A sample order\<close>

definition plain_config :: fulfillment_config where
  "plain_config =
     \<lparr>fc_handlers = [\<lparr>fh_code = ''manual-fulfillment'', fh_createFulfillment = (\<lambda>os is. None),
                       fh_onFulfillmentTransition = (\<lambda>a b f. Start_void)\<rparr>],
      fc_strategy = DefaultStockLocationStrategy, fc_orderProcesses = []\<rparr>"

definition sample_fulfillment_config :: fulfillment_config where
  "sample_fulfillment_config = plain_config\<lparr>fc_orderProcesses := [defaultOrderProcess all_checks sample_env]\<rparr>"

definition to_fulfill :: fulfillment_tables where
  "to_fulfill = \<lparr>ft_orders = [placed_order], ft_stock = two_batches DefaultStockLocationStrategy, ft_nextId = 1\<rparr>"

text \<open>Nothing that happens to an order while a fulfillment is created depends on the order processes.\<close>

lemma move_order_other:
  assumes "toState \<noteq> Fulfillment_Shipped" and "toState \<noteq> Fulfillment_Delivered"
  shows "move_order cfg toState i t =
     (case order_in (ft_orders t) i of None \<Rightarrow> Inl (EntityNotFoundError ''Order'' i) | Some ord \<Rightarrow> Inr t)"
  using assms by (simp add: move_order_def handleFulfillmentStateTransitByOrder_def Let_def split: option.split)

lemma transition_end_target: "transitionTo cfg current target data = Inr (s, d, Finalize_end a b) \<Longrightarrow> b = target"
  by (auto simp: transitionTo_def fsm_error_def bind_result_Inr split: if_split_asm option.split_asm)
    (auto split: start_result.split_asm option.split_asm dest: fsm_error_Inr)

lemma create_processes:
  assumes "fc_handlers c1 = fc_handlers c2" and "fc_strategy c1 = fc_strategy c2"
  shows "createFulfillment c1 ctx handler inputs t = createFulfillment c2 ctx handler inputs t"
proof -
  have moved: "move_order c1 Fulfillment_Pending = move_order c2 Fulfillment_Pending"
    by (intro ext) (simp add: move_order_other)
  have target: "b = Fulfillment_Pending"
    if run: "fulfillmentStateMachine_transition ps f Fulfillment_Pending = Inr (f', Finalize_end a b)" for ps f f' a b
    using run by (auto simp: fulfillmentStateMachine_transition_def bind_result_Inr dest: transition_end_target)
  have "fulfillment_transitionToState c1 ctx i Fulfillment_Pending u = fulfillment_transitionToState c2 ctx i Fulfillment_Pending u" for i u
    using assms moved
    by (auto simp: fulfillment_transitionToState_def fulfillment_end_def Let_def dest: target
        split: option.split sum.split finalize.split)
  moreover have "fulfillment_create c1 handler os inputs t = fulfillment_create c2 handler os inputs t" for os
    by (simp add: fulfillment_create_def assms)
  ultimately show ?thesis
    by (simp add: createFulfillment_def assms cong: if_cong option.case_cong prod.case_cong sum.case_cong)
qed

definition fulfilled :: "order_line_input list \<Rightarrow> fulfillment_tables \<Rightarrow> fulfill_outcome" where
  "fulfilled inputs t =
     (case createFulfillment sample_fulfillment_config sample_ctx ''manual-fulfillment'' inputs t of
        Inr r \<Rightarrow> r | Inl e \<Rightarrow> (Inl NoLinesSelectedError, t))"

lemma to_fulfill_ok: "fulfillment_tables_ok to_fulfill"
  by (simp add: fulfillment_tables_ok_def fulfillment_keys_def to_fulfill_def placed_order_def sample_order_def sample_line_def
      within_ordered_def rows_nonneg_def fulfilledQuantity_sum)

lemma fulfilled_plain:
  "createFulfillment sample_fulfillment_config sample_ctx handler inputs t = createFulfillment plain_config sample_ctx handler inputs t"
  by (rule create_processes) (simp_all add: sample_fulfillment_config_def)

lemma fulfilled_eq:
  "fulfilled inputs t = (case createFulfillment plain_config sample_ctx ''manual-fulfillment'' inputs t of
     Inr r \<Rightarrow> r | Inl e \<Rightarrow> (Inl NoLinesSelectedError, t))"
  by (simp only: fulfilled_def fulfilled_plain)

lemma three_fulfilled: "createFulfillment sample_fulfillment_config sample_ctx ''manual-fulfillment'' [input_of 1 3] to_fulfill
    = Inr (fst (fulfilled [input_of 1 3] to_fulfill), snd (fulfilled [input_of 1 3] to_fulfill))"
proof -
  have "\<not> isl (createFulfillment plain_config sample_ctx ''manual-fulfillment'' [input_of 1 3] to_fulfill)" by code_simp
  then show ?thesis unfolding fulfilled_eq fulfilled_plain by (auto simp: isl_def split: sum.splits)
qed

theorem fulfilled_within_ordered_witness:
  "\<exists>ord l. ft_orders (snd (fulfilled [input_of 1 3] to_fulfill)) = [ord] \<and> order_lines ord = [l] \<and>
     fulfilledQuantity ord (line_id l) = 3 \<and> fulfilledQuantity ord (line_id l) \<le> quantity l"
proof -
  let ?t = "snd (fulfilled [input_of 1 3] to_fulfill)"
  have "steps (fulfilling sample_fulfillment_config) to_fulfill ?t"
    by (rule steps_single, rule fulfilling.create [OF three_fulfilled]) (simp_all add: input_of_def)
  note bound = fulfilled_within_ordered [OF this _ to_fulfill_ok, of all_checks sample_env]
  have "map (\<lambda>ord. map (\<lambda>l. fulfilledQuantity ord (line_id l)) (order_lines ord)) (ft_orders ?t) = [[3]]" unfolding fulfilled_eq by code_simp
  then obtain ord l where "ft_orders ?t = [ord]" "order_lines ord = [l]" "fulfilledQuantity ord (line_id l) = 3"
    by (auto simp: map_eq_Cons_conv)
  then show ?thesis using bound [of ord l] by (auto simp: sample_fulfillment_config_def)
qed

text \<open>
  Both provisos of the bound are needed. A line of five units that is named twice with five units each
  passes the check twice, and ten units are fulfilled; and a fulfillment of minus three units is
  accepted, after which eight more are.
\<close>

theorem unchecked_fulfillments:
  "(let (r, t) = fulfilled [input_of 1 5, input_of 1 5] to_fulfill
    in \<not> isl r \<and> map (\<lambda>ord. fulfilledQuantity ord 1) (ft_orders t) = [10]) \<and>
   (let (r, t) = fulfilled [input_of 1 (- 3)] to_fulfill; (r', t') = fulfilled [input_of 1 8] t
    in \<not> isl r \<and> \<not> isl r' \<and>
       map (\<lambda>ord. map (\<lambda>f. map input_quantity (fulfillment_lines f)) (fulfillments ord)) (ft_orders t') = [[[- 3], [8]]])"
  unfolding fulfilled_eq by code_simp

end
