(* ===== verification/OrderMerging.thy ===== *)
theory OrderMerging
  imports OrderCancellation OrderItems
begin

text \<open>
  Reconciling a guest order with the order a customer already has: the merge strategies of
  \<^verbatim>\<open>config/order\<close>, the plan that \<^verbatim>\<open>order-merger.ts\<close> makes of a
  strategy's answer, and \<^verbatim>\<open>mergeOrders\<close> of \<^verbatim>\<open>order.service.ts\<close>, which
  carries the plan out. Custom fields are compared as the source does, by their JSON text; two values
  have one text when they are equal. Hydration of relation fields and the history note are left out.
\<close>

section \<open>Strategies\<close>

record merged_line =
  ml_orderLineId :: ID
  ml_quantity :: int
  ml_customFields :: "custom_fields option"

type_synonym order_merge_strategy = "order \<Rightarrow> order \<Rightarrow> merged_line list"

definition toMergedOrderLine :: "order_line \<Rightarrow> merged_line" where
  "toMergedOrderLine l = \<lparr>ml_orderLineId = line_id l, ml_quantity = quantity l, ml_customFields = line_customFields l\<rparr>"

definition UseExistingStrategy :: order_merge_strategy where
  "UseExistingStrategy guestOrder existingOrder = map toMergedOrderLine (order_lines existingOrder)"

definition UseGuestStrategy :: order_merge_strategy where
  "UseGuestStrategy guestOrder existingOrder = map toMergedOrderLine (order_lines guestOrder)"

definition UseGuestIfExistingEmptyStrategy :: order_merge_strategy where
  "UseGuestIfExistingEmptyStrategy guestOrder existingOrder =
     (if order_lines existingOrder \<noteq> [] then map toMergedOrderLine (order_lines existingOrder)
      else map toMergedOrderLine (order_lines guestOrder))"

definition findCorrespondingLine :: "order \<Rightarrow> order_line \<Rightarrow> order_line option" where
  "findCorrespondingLine existingOrder guestLine =
     List.find (\<lambda>line. productVariantId line = productVariantId guestLine \<and>
                  line_customFields line = line_customFields guestLine) (order_lines existingOrder)"

text \<open>The first merged line with the id gets the quantity.\<close>

fun set_merged_quantity :: "ID \<Rightarrow> int \<Rightarrow> merged_line list \<Rightarrow> merged_line list" where
  "set_merged_quantity i q [] = []"
| "set_merged_quantity i q (m # ms) =
     (if ml_orderLineId m = i then m\<lparr>ml_quantity := q\<rparr> # ms else m # set_merged_quantity i q ms)"

definition merge_guest_line :: "order \<Rightarrow> order_line \<Rightarrow> merged_line list \<Rightarrow> merged_line list" where
  "merge_guest_line existingOrder guestLine mergedLines =
     (case findCorrespondingLine existingOrder guestLine of
        None \<Rightarrow> toMergedOrderLine guestLine # mergedLines
      | Some existingLine \<Rightarrow> set_merged_quantity (line_id existingLine) (quantity guestLine) mergedLines)"

definition MergeOrdersStrategy :: order_merge_strategy where
  "MergeOrdersStrategy guestOrder existingOrder =
     fold (merge_guest_line existingOrder) (rev (order_lines guestOrder))
       (map toMergedOrderLine (order_lines existingOrder))"

section \<open>The plan\<close>

definition merged_of :: "merged_line list \<Rightarrow> ID \<Rightarrow> merged_line option" where
  "merged_of mergedLines i = List.find (\<lambda>ml. idsAreEqual (Some (ml_orderLineId ml)) (Some i)) mergedLines"

definition getLinesToInsert :: "order \<Rightarrow> order \<Rightarrow> merged_line list \<Rightarrow> add_item list" where
  "getLinesToInsert guestOrder existingOrder mergedLines =
     List.map_filter (\<lambda>guestLine. case merged_of mergedLines (line_id guestLine) of
        None \<Rightarrow> None
      | Some mergedLine \<Rightarrow> Some \<lparr>ai_productVariantId = productVariantId guestLine, ai_quantity = ml_quantity mergedLine,
                                  ai_customFields = ml_customFields mergedLine\<rparr>) (order_lines guestOrder)"

definition getLinesToModify :: "order \<Rightarrow> order \<Rightarrow> merged_line list \<Rightarrow> adjust_line list" where
  "getLinesToModify guestOrder existingOrder mergedLines =
     List.map_filter (\<lambda>existingLine. case merged_of mergedLines (line_id existingLine) of
        None \<Rightarrow> None
      | Some mergedLine \<Rightarrow>
          if ml_quantity mergedLine \<noteq> quantity existingLine \<or> ml_customFields mergedLine \<noteq> line_customFields existingLine
          then Some \<lparr>al_orderLineId = ml_orderLineId mergedLine, al_quantity = ml_quantity mergedLine,
                      al_customFields = ml_customFields mergedLine\<rparr>
          else None) (order_lines existingOrder)"

definition getLinesToDelete :: "order \<Rightarrow> order \<Rightarrow> merged_line list \<Rightarrow> ID list" where
  "getLinesToDelete guestOrder existingOrder mergedLines =
     map line_id (filter (\<lambda>existingLine. merged_of mergedLines (line_id existingLine) = None) (order_lines existingOrder))"

record merge_result =
  mr_order :: "order option"
  linesToInsert :: "add_item list option"
  linesToModify :: "adjust_line list option"
  linesToDelete :: "ID list option"
  orderToDelete :: "order option"

definition orderEmpty :: "order option \<Rightarrow> bool" where
  "orderEmpty ord \<longleftrightarrow> (case ord of None \<Rightarrow> True | Some x \<Rightarrow> order_lines x = [])"

definition order_merger_merge :: "order_merge_strategy \<Rightarrow> order option \<Rightarrow> order option \<Rightarrow> merge_result" where
  "order_merger_merge strategy guestOrder existingOrder =
     (if \<not> orderEmpty guestOrder \<and> \<not> orderEmpty existingOrder
      then let guest = the guestOrder; existing = the existingOrder; mergedLines = strategy guest existing
           in \<lparr>mr_order = existingOrder, linesToInsert = Some (getLinesToInsert guest existing mergedLines),
               linesToModify = Some (getLinesToModify guest existing mergedLines),
               linesToDelete = Some (getLinesToDelete guest existing mergedLines), orderToDelete = guestOrder\<rparr>
      else if \<not> orderEmpty guestOrder
      then \<lparr>mr_order = guestOrder, linesToInsert = None, linesToModify = None, linesToDelete = None,
            orderToDelete = existingOrder\<rparr>
      else \<lparr>mr_order = existingOrder, linesToInsert = None, linesToModify = None, linesToDelete = None,
            orderToDelete = guestOrder\<rparr>)"

section \<open>Carrying the plan out\<close>

text \<open>
  Whether the database refuses to delete an order because rows refer to it depends on its schema:
  it is an argument. Session rows and the order's own line rows go with it.
\<close>

record merge_config =
  mc_strategy :: order_merge_strategy
  mc_items :: items_config
  mc_cancel :: cancel_config
  mc_processes :: "(order_state, order_data) fsm_process list"
  mc_foreignKeyViolation :: "order \<Rightarrow> bool"

record merge_tables =
  mt_orders :: "order list"
  mt_stock :: stock_db
  mt_nextLineId :: ID

definition store_order :: "order \<Rightarrow> merge_tables \<Rightarrow> merge_tables" where
  "store_order ord t = t\<lparr>mt_orders := map (\<lambda>x. if order_id x = order_id ord then ord else x) (mt_orders t)\<rparr>"

definition dispose_order :: "merge_config \<Rightarrow> request_context \<Rightarrow> order option \<Rightarrow> order \<Rightarrow> merge_tables \<Rightarrow> merge_tables result" where
  "dispose_order cfg ctx ord doomed t =
     (if \<not> mc_foreignKeyViolation cfg doomed
      then Inr (t\<lparr>mt_orders := filter (\<lambda>x. order_id x \<noteq> order_id doomed) (mt_orders t),
                  mt_stock := (mt_stock t)\<lparr>placed_lines := filter (\<lambda>r. fst r \<noteq> order_id doomed) (placed_lines (mt_stock t))\<rparr>\<rparr>)
      else if ord = None then Inl (JsError ''Cannot complete order merge: active order not found'')
      else bind_result (cancelOrder (mc_cancel cfg) (mc_processes cfg) ctx (mt_orders t) (order_id doomed) False None (mt_stock t))
             (\<lambda>r. case r of
                OrderCancellation x db \<Rightarrow> Inr (store_order x t\<lparr>mt_stock := db\<rparr>)
              | CancelRefused e \<Rightarrow> Inr t
              | CancelTransitionRefused e x db \<Rightarrow> Inr (store_order x t\<lparr>mt_stock := db\<rparr>)))"

definition removeItemFromOrder ::
  "merge_config \<Rightarrow> request_context \<Rightarrow> ID \<Rightarrow> order \<times> merge_tables \<Rightarrow> (order \<times> merge_tables) result" where
  "removeItemFromOrder cfg ctx i s =
     bind_result (removeItemsFromOrder (mc_items cfg) ctx (mt_orders (snd s)) (fst s) (mt_stock (snd s)) [i]) (\<lambda>r.
       case r of Inl e \<Rightarrow> Inr s | Inr (ord, db) \<Rightarrow> Inr (ord, store_order ord (snd s)\<lparr>mt_stock := db\<rparr>))"

definition insert_lines :: "merge_config \<Rightarrow> request_context \<Rightarrow> add_item list \<Rightarrow> order \<times> merge_tables \<Rightarrow> (order \<times> merge_tables) result" where
  "insert_lines cfg ctx items s =
     bind_result (addItemsToOrder (mc_items cfg) ctx (mt_orders (snd s)) (fst s) (mt_stock (snd s)) (mt_nextLineId (snd s)) items)
       (\<lambda>(ord, db, es). Inr (ord, store_order ord (snd s)
          \<lparr>mt_stock := db, mt_nextLineId := mt_nextLineId (snd s) + length items\<rparr>))"

definition modify_lines :: "merge_config \<Rightarrow> request_context \<Rightarrow> adjust_line list \<Rightarrow> order \<times> merge_tables \<Rightarrow> (order \<times> merge_tables) result" where
  "modify_lines cfg ctx rows s =
     bind_result (adjustOrderLines (mc_items cfg) ctx (mt_orders (snd s)) (fst s) (mt_stock (snd s)) rows)
       (\<lambda>(ord, db, es). Inr (ord, store_order ord (snd s)\<lparr>mt_stock := db\<rparr>))"

text \<open>The lines are removed a second time; what that throws is only logged.\<close>

definition remove_lines_again :: "merge_config \<Rightarrow> request_context \<Rightarrow> ID list \<Rightarrow> order \<times> merge_tables \<Rightarrow> order \<times> merge_tables" where
  "remove_lines_again cfg ctx ids s =
     (case removeItemsFromOrder (mc_items cfg) ctx (mt_orders (snd s)) (fst s) (mt_stock (snd s)) ids of
        Inl e \<Rightarrow> s
      | Inr (Inl e) \<Rightarrow> s
      | Inr (Inr (ord, db)) \<Rightarrow> (ord, store_order ord (snd s)\<lparr>mt_stock := db\<rparr>))"

definition carry_out ::
  "merge_config \<Rightarrow> request_context \<Rightarrow> merge_result \<Rightarrow> merge_tables \<Rightarrow> (order option \<times> merge_tables) result" where
  "carry_out cfg ctx r t =
     bind_result (case orderToDelete r of None \<Rightarrow> Inr t | Some doomed \<Rightarrow> dispose_order cfg ctx (mr_order r) doomed t) (\<lambda>t1.
       case mr_order r of
         None \<Rightarrow> Inr (None, t1)
       | Some ord \<Rightarrow>
           bind_result (case linesToDelete r of None \<Rightarrow> Inr (ord, t1)
               | Some ids \<Rightarrow> fold_result (removeItemFromOrder cfg ctx) ids (ord, t1)) (\<lambda>s1.
           bind_result (case linesToInsert r of None \<Rightarrow> Inr s1 | Some items \<Rightarrow> insert_lines cfg ctx items s1) (\<lambda>s2.
           bind_result (case linesToModify r of None \<Rightarrow> Inr s2 | Some rows \<Rightarrow> modify_lines cfg ctx rows s2) (\<lambda>s3.
             case (case linesToDelete r of None \<Rightarrow> s3 | Some ids \<Rightarrow> remove_lines_again cfg ctx ids s3) of
               (ord', t') \<Rightarrow> Inr (Some ord', t')))))"

text \<open>When anything throws, the transaction is rolled back and the existing order is the answer.\<close>

definition settle_merge ::
  "merge_config \<Rightarrow> request_context \<Rightarrow> ID option \<Rightarrow> order option \<Rightarrow> order option \<Rightarrow> merge_tables \<Rightarrow>
     order option \<times> merge_tables" where
  "settle_merge cfg ctx customer guestOrder existingOrder t =
     (case carry_out cfg ctx (order_merger_merge (mc_strategy cfg) guestOrder existingOrder) t of
        Inl e \<Rightarrow> (existingOrder, t)
      | Inr (None, t') \<Rightarrow> (None, t')
      | Inr (Some ord, t') \<Rightarrow>
          (case customer of
             None \<Rightarrow> (Some ord, t')
           | Some c \<Rightarrow> let ord' = ord\<lparr>customerId := Some c\<rparr> in (Some ord', store_order ord' t')))"

definition mergeOrders ::
  "merge_config \<Rightarrow> request_context \<Rightarrow> ID option \<Rightarrow> order option \<Rightarrow> order option \<Rightarrow> merge_tables \<Rightarrow>
     order option \<times> merge_tables" where
  "mergeOrders cfg ctx customer guestOrder existingOrder t =
     (case guestOrder of
        Some g \<Rightarrow> if customerId g \<noteq> None then (existingOrder, t)
                  else let fresh = order_in (filter (\<lambda>x. ctx_channelId ctx \<in> set (order_channels x)) (mt_orders t)) (order_id g)
                       in if fresh = None then (existingOrder, t) else settle_merge cfg ctx customer fresh existingOrder t
      | None \<Rightarrow> settle_merge cfg ctx customer None existingOrder t)"

end
