(* ===== verification/MergeRefinement.thy ===== *)
theory MergeRefinement
  imports OrderMerging "HOL-Library.Multiset" "HOL-Library.Sublist"
begin

text \<open>
  What the plan of \<^verbatim>\<open>order-merger.ts\<close> makes of the existing order, for any merge strategy
  that answers with lines of the two orders, and what the strategies promise: the merging one
  overrides the contents of the existing order, as a map, with those of the guest order.
\<close>

section \<open>Contents of an order\<close>

type_synonym item = "(ID \<times> custom_fields option) \<times> int"

definition item_key :: "order_line \<Rightarrow> ID \<times> custom_fields option" where
  "item_key l = (productVariantId l, line_customFields l)"

definition line_items :: "order_line list \<Rightarrow> item list" where
  "line_items ls = map (\<lambda>l. (item_key l, quantity l)) ls"

text \<open>The contents of the existing order once the plan is carried out in full.\<close>

definition kept_item :: "adjust_line list \<Rightarrow> order_line \<Rightarrow> item" where
  "kept_item rows l =
     (case List.find (\<lambda>r. al_orderLineId r = line_id l) rows of
        None \<Rightarrow> (item_key l, quantity l)
      | Some r \<Rightarrow> ((productVariantId l, al_customFields r), al_quantity r))"

definition planned :: "merge_result \<Rightarrow> order \<Rightarrow> item list" where
  "planned r existing =
     map (\<lambda>a. ((ai_productVariantId a, ai_customFields a), ai_quantity a)) (nullish (linesToInsert r) []) @
     map (kept_item (nullish (linesToModify r) []))
       (filter (\<lambda>l. line_id l \<notin> set (nullish (linesToDelete r) [])) (order_lines existing))"

definition merged_item :: "order_line list \<Rightarrow> merged_line \<Rightarrow> item" where
  "merged_item ls m =
     ((productVariantId (the (List.find (\<lambda>l. line_id l = ml_orderLineId m) ls)), ml_customFields m), ml_quantity m)"

definition of_merged :: "merged_line list \<Rightarrow> order_line \<Rightarrow> item option" where
  "of_merged ms l = map_option (\<lambda>m. ((productVariantId l, ml_customFields m), ml_quantity m)) (merged_of ms (line_id l))"

section \<open>The plan as a whole\<close>

lemma merged_of_Some: "merged_of ms i = Some m \<Longrightarrow> m \<in> set ms \<and> ml_orderLineId m = i"
  by (auto simp: merged_of_def dest: find_Some_in)

lemma find_remove_other: "k m \<noteq> i \<Longrightarrow> List.find (\<lambda>x. k x = i) (us @ m # vs) = List.find (\<lambda>x. k x = i) (us @ vs)"
  by (induction us) auto

lemma find_unique: "distinct (map k xs) \<Longrightarrow> x \<in> set xs \<Longrightarrow> List.find (\<lambda>y. k y = k x) xs = Some x"
  by (induction xs) force+

lemma map_filter_mset:
  assumes "distinct (map line_id ls)" and "distinct (map ml_orderLineId ms)"
    and "set (map ml_orderLineId ms) \<subseteq> set (map line_id ls)"
  shows "mset (List.map_filter (of_merged ms) ls) = mset (map (merged_item ls) ms)"
  using assms
proof (induction ls arbitrary: ms)
  case Nil
  then show ?case by (simp add: map_filter_simps)
next
  case (Cons l ls)
  have away: "merged_item (l # ls) m = merged_item ls m" if "ml_orderLineId m \<noteq> line_id l" for m
    using that by (simp add: merged_item_def)
  show ?case
  proof (cases "merged_of ms (line_id l)")
    case None
    then have out: "ml_orderLineId m \<noteq> line_id l" if "m \<in> set ms" for m
      using that by (auto simp: merged_of_def find_None_iff)
    then have "set (map ml_orderLineId ms) \<subseteq> set (map line_id ls)" using Cons.prems(3) by auto
    then have rest: "mset (List.map_filter (of_merged ms) ls) = mset (map (merged_item ls) ms)"
      using Cons.IH Cons.prems by simp
    have same: "map (merged_item (l # ls)) ms = map (merged_item ls) ms" using away out by simp
    show ?thesis unfolding same using None rest by (simp add: map_filter_simps of_merged_def [of ms l])
  next
    case (Some m)
    then have m: "m \<in> set ms" "ml_orderLineId m = line_id l"
      by (auto dest: merged_of_Some)
    then obtain us vs where ms: "ms = us @ m # vs" by (auto dest: split_list)
    let ?rest = "us @ vs"
    have other: "ml_orderLineId x \<noteq> line_id l" if "x \<in> set ?rest" for x
      using that Cons.prems(2) m(2) by (auto simp: ms) (metis image_eqI)+
    have ids: "set (map ml_orderLineId ?rest) \<subseteq> set (map line_id ls)"
      using Cons.prems(3) other by (auto simp: ms)
    have "merged_of ms (line_id x) = merged_of ?rest (line_id x)" if "x \<in> set ls" for x
    proof -
      have "ml_orderLineId m \<noteq> line_id x" using that Cons.prems(1) m(2) by auto
      then show ?thesis by (simp add: merged_of_def ms find_remove_other)
    qed
    then have "List.map_filter (of_merged ms) ls = List.map_filter (of_merged ?rest) ls"
      unfolding List.map_filter_def by (intro arg_cong2 [where f = map] filter_cong map_cong)
        (auto simp: of_merged_def)
    moreover have "mset (List.map_filter (of_merged ?rest) ls) = mset (map (merged_item ls) ?rest)"
      using Cons.IH [OF _ _ ids] Cons.prems by (auto simp: ms)
    moreover have "map (merged_item (l # ls)) ?rest = map (merged_item ls) ?rest" using away other by simp
    ultimately have "mset (List.map_filter (of_merged ms) ls) = mset (map (merged_item (l # ls)) ?rest)" by (simp only:)
    moreover have "of_merged ms l = Some (merged_item (l # ls) m)"
      using Some m(2) by (simp add: of_merged_def merged_item_def)
    ultimately show ?thesis by (simp add: map_filter_simps ms)
  qed
qed

lemma find_map_filter_none:
  "\<forall>x \<in> set ls. \<forall>r. f x = Some r \<longrightarrow> kr r = k x \<Longrightarrow> i \<notin> set (map k ls) \<Longrightarrow>
     List.find (\<lambda>r. kr r = i) (List.map_filter f ls) = None"
  by (induction ls) (auto simp: map_filter_simps split: option.split)

lemma find_map_filter:
  "distinct (map k ls) \<Longrightarrow> l \<in> set ls \<Longrightarrow> \<forall>x \<in> set ls. \<forall>r. f x = Some r \<longrightarrow> kr r = k x \<Longrightarrow>
     List.find (\<lambda>r. kr r = k l) (List.map_filter f ls) = f l"
proof (induction ls)
  case (Cons x ls)
  show ?case
  proof (cases "x = l")
    case True
    then show ?thesis using Cons.prems find_map_filter_none [of ls f kr k "k l"]
      by (auto simp: map_filter_simps split: option.split)
  next
    case False
    then have "k x \<noteq> k l" using Cons.prems by auto
    moreover have "kr r = k x" if "f x = Some r" for r using that Cons.prems by simp
    ultimately show ?thesis using False Cons by (auto simp: map_filter_simps split: option.split)
  qed
qed simp

lemma planned_insert:
  "map (\<lambda>a. ((ai_productVariantId a, ai_customFields a), ai_quantity a)) (getLinesToInsert g e ms) =
     List.map_filter (of_merged ms) (order_lines g)"
proof -
  let ?row = "\<lambda>l. case merged_of ms (line_id l) of None \<Rightarrow> None
    | Some m \<Rightarrow> Some \<lparr>ai_productVariantId = productVariantId l, ai_quantity = ml_quantity m, ai_customFields = ml_customFields m\<rparr>"
  have "map (\<lambda>a. ((ai_productVariantId a, ai_customFields a), ai_quantity a)) (List.map_filter ?row ls) =
      List.map_filter (of_merged ms) ls" for ls
    by (induction ls) (auto simp: map_filter_simps of_merged_def split: option.split)
  then show ?thesis by (simp add: getLinesToInsert_def)
qed

lemma planned_keep:
  assumes ids: "distinct (map line_id (order_lines e))"
  shows "map (kept_item (getLinesToModify g e ms)) (filter (\<lambda>l. line_id l \<notin> set (getLinesToDelete g e ms)) (order_lines e)) =
     List.map_filter (of_merged ms) (order_lines e)"
proof -
  have kept: "kept_item (getLinesToModify g e ms) l = the (of_merged ms l)"
    if l: "l \<in> set (order_lines e)" and m: "merged_of ms (line_id l) = Some m" for l m
  proof -
    have "List.find (\<lambda>r. al_orderLineId r = line_id l) (getLinesToModify g e ms) =
        (if ml_quantity m \<noteq> quantity l \<or> ml_customFields m \<noteq> line_customFields l
         then Some \<lparr>al_orderLineId = ml_orderLineId m, al_quantity = ml_quantity m, al_customFields = ml_customFields m\<rparr> else None)"
      unfolding getLinesToModify_def
      by (subst find_map_filter [where k = line_id, OF ids l])
        (auto simp: m split: option.split_asm if_split_asm, auto dest: merged_of_Some)
    then show ?thesis using m by (auto simp: kept_item_def of_merged_def item_key_def)
  qed
  have deleted: "line_id l \<in> set (getLinesToDelete g e ms) \<longleftrightarrow> merged_of ms (line_id l) = None" if "l \<in> set (order_lines e)" for l
    using that ids by (auto simp: getLinesToDelete_def dest: inj_onD simp: distinct_map)
  have "map (kept_item (getLinesToModify g e ms)) (filter (\<lambda>l. line_id l \<notin> set (getLinesToDelete g e ms)) ls) =
      List.map_filter (of_merged ms) ls" if "set ls \<subseteq> set (order_lines e)" for ls
    using that by (induction ls) (auto simp: map_filter_simps deleted kept of_merged_def split: option.split)
  then show ?thesis by simp
qed

text \<open>A strategy answers with lines of the two orders, each at most once.\<close>

locale merge_law =
  fixes merge :: "order \<Rightarrow> order \<Rightarrow> merged_line list"
  assumes answers: "distinct (map line_id (order_lines g @ order_lines e)) \<Longrightarrow>
    distinct (map ml_orderLineId (merge g e)) \<and>
    set (map ml_orderLineId (merge g e)) \<subseteq> set (map line_id (order_lines g @ order_lines e))"
begin

lemma plan_exact:
  assumes ids: "distinct (map line_id (order_lines g @ order_lines e))" and "order_lines g \<noteq> []" and "order_lines e \<noteq> []"
  shows "mset (planned (order_merger_merge merge (Some g) (Some e)) e) =
    mset (map (merged_item (order_lines g @ order_lines e)) (merge g e))"
proof -
  show ?thesis
    using map_filter_mset [OF ids] answers [OF ids] assms planned_insert [of g e] planned_keep [of e g]
    by (simp add: planned_def order_merger_merge_def orderEmpty_def Let_def List.map_filter_def)
qed

end

section \<open>What the strategies answer\<close>

lemma merged_ids [simp]: "ml_orderLineId (toMergedOrderLine l) = line_id l"
  by (simp add: toMergedOrderLine_def)

lemma merged_ids_comp [simp]: "ml_orderLineId \<circ> toMergedOrderLine = line_id"
  by (simp add: comp_def)

lemma set_merged_quantity_ids [simp]: "map ml_orderLineId (set_merged_quantity i q ms) = map ml_orderLineId ms"
  by (induction i q ms rule: set_merged_quantity.induct) simp_all

lemma set_merged_quantity_append:
  "i \<notin> set (map ml_orderLineId us) \<Longrightarrow> set_merged_quantity i q (us @ vs) = us @ set_merged_quantity i q vs"
  by (induction us) auto

text \<open>The quantity that the merged lines give to a line of the existing order.\<close>

definition overridden :: "order_line list \<Rightarrow> order_line \<Rightarrow> merged_line" where
  "overridden gs l = (toMergedOrderLine l)
     \<lparr>ml_quantity := (case map_of (line_items gs) (item_key l) of None \<Rightarrow> quantity l | Some q \<Rightarrow> q)\<rparr>"

definition unmatched :: "order \<Rightarrow> order_line \<Rightarrow> bool" where
  "unmatched e g \<longleftrightarrow> item_key g \<notin> item_key ` set (order_lines e)"

lemma corresponding_None: "findCorrespondingLine e g = None \<longleftrightarrow> unmatched e g"
  by (auto simp: findCorrespondingLine_def find_None_iff unmatched_def item_key_def image_iff)

lemma corresponding_Some:
  "findCorrespondingLine e g = Some l \<Longrightarrow> l \<in> set (order_lines e) \<and> item_key l = item_key g"
  by (auto simp: findCorrespondingLine_def item_key_def dest: find_Some_in)

lemma set_overridden:
  assumes "distinct (map item_key ls)" and "distinct (map line_id ls)" and "l \<in> set ls" and "item_key l = item_key g"
  shows "set_merged_quantity (line_id l) (quantity g) (map (overridden gs) ls) = map (overridden (g # gs)) ls"
  using assms
proof (induction ls)
  case (Cons x ls)
  have same: "overridden (g # gs) y = overridden gs y" if "item_key y \<noteq> item_key g" for y
    using that by (simp add: overridden_def line_items_def)
  show ?case
  proof (cases "x = l")
    case True
    then have "item_key l \<notin> item_key ` set ls" using Cons.prems(1) by simp
    then have "item_key y \<noteq> item_key g" if "y \<in> set ls" for y using that Cons.prems(4) by (metis image_eqI)
    then have "map (overridden (g # gs)) ls = map (overridden gs) ls" using same by simp
    then show ?thesis using True Cons.prems by (simp add: overridden_def line_items_def toMergedOrderLine_def)
  next
    case False
    then have "l \<in> set ls" using Cons.prems(3) by simp
    then have other: "item_key x \<noteq> item_key g" "line_id x \<noteq> line_id l"
      using Cons.prems by (auto simp: image_iff)
    then have "ml_orderLineId (overridden gs x) \<noteq> line_id l" by (simp add: overridden_def)
    then show ?thesis using False Cons same [OF other(1)] by simp
  qed
qed simp

lemma merged_lines:
  assumes ids: "distinct (map line_id (order_lines g @ order_lines e))" and keys: "distinct (map item_key (order_lines e))"
  shows "MergeOrdersStrategy g e =
    map toMergedOrderLine (filter (unmatched e) (order_lines g)) @ map (overridden (order_lines g)) (order_lines e)"
proof -
  have "foldr (merge_guest_line e) gs (map toMergedOrderLine (order_lines e)) =
      map toMergedOrderLine (filter (unmatched e) gs) @ map (overridden gs) (order_lines e)"
    if "set gs \<subseteq> set (order_lines g)" for gs
    using that
  proof (induction gs)
    case Nil
    then show ?case by (simp add: overridden_def line_items_def toMergedOrderLine_def)
  next
    case (Cons x gs)
    show ?case
    proof (cases "findCorrespondingLine e x")
      case None
      then have "unmatched e x" by (simp add: corresponding_None)
      then have "map (overridden (x # gs)) (order_lines e) = map (overridden gs) (order_lines e)"
        by (auto simp: unmatched_def overridden_def line_items_def image_iff)
      then show ?thesis using Cons None \<open>unmatched e x\<close> by (simp add: merge_guest_line_def)
    next
      case (Some l)
      then have l: "l \<in> set (order_lines e)" "item_key l = item_key x" and matched: "\<not> unmatched e x"
        using corresponding_Some [OF Some] corresponding_None [of e x] by simp_all
      have "line_id l \<notin> set (map ml_orderLineId (map toMergedOrderLine (filter (unmatched e) gs)))"
        using l(1) ids Cons.prems by auto
      then show ?thesis
        using Cons Some l matched set_overridden [OF keys _ l, of gs] ids
        by (simp add: merge_guest_line_def set_merged_quantity_append)
    qed
  qed
  then show ?thesis by (simp add: MergeOrdersStrategy_def foldr_conv_fold)
qed

lemma merge_guest_line_ids:
  "map ml_orderLineId (merge_guest_line e g ms) = map ml_orderLineId ms \<or>
   map ml_orderLineId (merge_guest_line e g ms) = line_id g # map ml_orderLineId ms"
  by (auto simp: merge_guest_line_def split: option.split)

lemma merged_ids_of_both:
  assumes "distinct (map line_id (order_lines g @ order_lines e))"
  shows "distinct (map ml_orderLineId (MergeOrdersStrategy g e)) \<and>
    set (map ml_orderLineId (MergeOrdersStrategy g e)) \<subseteq> set (map line_id (order_lines g @ order_lines e))"
proof -
  have shape: "\<exists>us. subseq us (map line_id gs) \<and>
      map ml_orderLineId (foldr (merge_guest_line e) gs ms) = us @ map ml_orderLineId ms" for gs ms
  proof (induction gs)
    case (Cons x gs)
    then obtain us where us: "subseq us (map line_id gs)"
      "map ml_orderLineId (foldr (merge_guest_line e) gs ms) = us @ map ml_orderLineId ms" by blast
    have "subseq us (map line_id (x # gs))" "subseq (line_id x # us) (map line_id (x # gs))"
      using us(1) by (auto intro: list_emb_Cons)
    then show ?case
      using merge_guest_line_ids [of e x "foldr (merge_guest_line e) gs ms"] us(2) by fastforce
  qed simp
  obtain us where us: "subseq us (map line_id (order_lines g))"
    "map ml_orderLineId (MergeOrdersStrategy g e) = us @ map line_id (order_lines e)"
    using shape [of "order_lines g" "map toMergedOrderLine (order_lines e)"]
    unfolding MergeOrdersStrategy_def foldr_conv_fold by auto
  have "distinct us" using us(1) assms by (auto simp: subseq_conv_nths distinct_nthsI)
  moreover have "set us \<subseteq> set (map line_id (order_lines g))"
    using us(1) set_nths_subset unfolding subseq_conv_nths by metis
  ultimately show ?thesis using us(2) assms by auto
qed

interpretation merging: merge_law MergeOrdersStrategy
  by unfold_locales (rule merged_ids_of_both)

interpretation existing_wins: merge_law UseExistingStrategy
  by unfold_locales (auto simp: UseExistingStrategy_def)

interpretation guest_wins: merge_law UseGuestStrategy
  by unfold_locales (auto simp: UseGuestStrategy_def)

interpretation guest_if_empty: merge_law UseGuestIfExistingEmptyStrategy
  by unfold_locales (auto simp: UseGuestIfExistingEmptyStrategy_def)

section \<open>Properties\<close>

lemma merged_item_guest:
  assumes "distinct (map line_id ls)" and "l \<in> set ls" and "ml_orderLineId m = line_id l"
  shows "merged_item ls m = ((productVariantId l, ml_customFields m), ml_quantity m)"
  using find_unique [OF assms(1,2)] assms(3) by (simp add: merged_item_def)

lemma map_of_line_items:
  "map_of (map (\<lambda>l. (item_key l, f l)) ls) k = map_option f (List.find (\<lambda>l. item_key l = k) ls)"
  by (induction ls) auto

lemma same_mset_map_of:
  assumes "mset xs = mset ys" and "distinct (map fst ys)"
  shows "map_of xs = map_of ys \<and> distinct (map fst xs)"
proof -
  have "mset (map fst xs) = mset (map fst ys)" using assms(1) by simp
  then have "distinct (map fst xs)" using assms(2) mset_eq_imp_distinct_iff by blast
  then show ?thesis using assms map_of_inject_set [of xs ys] by (auto dest: mset_eq_setD)
qed

text \<open>The lines of the merged order, as items: the new ones and the overridden ones.\<close>

lemma merged_items:
  assumes ids: "distinct (map line_id (order_lines g @ order_lines e))" and keys: "distinct (map item_key (order_lines e))"
  shows "map (merged_item (order_lines g @ order_lines e)) (MergeOrdersStrategy g e) =
    line_items (filter (unmatched e) (order_lines g)) @
    map (\<lambda>l. (item_key l, nullish (map_of (line_items (order_lines g)) (item_key l)) (quantity l))) (order_lines e)"
proof -
  let ?item = "merged_item (order_lines g @ order_lines e)"
  have "?item (toMergedOrderLine l) = (item_key l, quantity l)" if "l \<in> set (order_lines g)" for l
    using merged_item_guest [OF ids, of l "toMergedOrderLine l"] that by (simp add: toMergedOrderLine_def item_key_def)
  moreover have "?item (overridden (order_lines g) l) =
      (item_key l, nullish (map_of (line_items (order_lines g)) (item_key l)) (quantity l))" if "l \<in> set (order_lines e)" for l
    using merged_item_guest [OF ids, of l "overridden (order_lines g) l"] that
    by (simp add: toMergedOrderLine_def overridden_def item_key_def nullish_def)
  ultimately show ?thesis by (simp add: merged_lines [OF ids keys] line_items_def)
qed

lemma map_of_filter_key:
  "map_of (line_items (filter (\<lambda>l. P (item_key l)) ls)) k = (if P k then map_of (line_items ls) k else None)"
  by (induction ls) (auto simp: line_items_def)

lemma map_of_override:
  "map_of (map (\<lambda>l. (item_key l, nullish (h (item_key l)) (quantity l))) ls) k =
     map_option (nullish (h k)) (map_of (line_items ls) k)"
  by (induction ls) (auto simp: line_items_def)

lemma items_override:
  "map_of (line_items (filter (unmatched e) (order_lines g)) @
      map (\<lambda>l. (item_key l, nullish (map_of (line_items (order_lines g)) (item_key l)) (quantity l))) (order_lines e)) =
    map_of (line_items (order_lines e)) ++ map_of (line_items (order_lines g))"
proof
  fix k
  have "map_of (line_items (order_lines e)) k = None \<longleftrightarrow> k \<notin> item_key ` set (order_lines e)"
    by (simp add: map_of_eq_None_iff line_items_def image_image)
  then show "map_of (line_items (filter (unmatched e) (order_lines g)) @
      map (\<lambda>l. (item_key l, nullish (map_of (line_items (order_lines g)) (item_key l)) (quantity l))) (order_lines e)) k =
    (map_of (line_items (order_lines e)) ++ map_of (line_items (order_lines g))) k"
    using map_of_filter_key [of "\<lambda>k. k \<notin> item_key ` set (order_lines e)" "order_lines g" k]
    by (cases "map_of (line_items (order_lines e)) k"; cases "map_of (line_items (order_lines g)) k")
      (simp_all add: map_add_def map_of_override unmatched_def [abs_def])
qed

text \<open>
  C25: Merging two orders overrides one map with another. Carried out in full, the plan that
  \<^verbatim>\<open>OrderMerger.merge\<close> makes with the merging strategy leaves the existing order with, for
  each variant and custom fields, the quantity of the guest order where it has one and its own
  otherwise, and no two lines for the same; the guest order is the one to delete.
\<close>

theorem merge_plan_refines:
  assumes "distinct (map line_id (order_lines g @ order_lines e))" and "order_lines g \<noteq> []" and "order_lines e \<noteq> []"
    and "distinct (map item_key (order_lines g))" and "distinct (map item_key (order_lines e))"
  shows "(let plan = order_merger_merge MergeOrdersStrategy (Some g) (Some e) in
     map_of (planned plan e) = map_of (line_items (order_lines e)) ++ map_of (line_items (order_lines g)) \<and>
     distinct (map fst (planned plan e)) \<and> mr_order plan = Some e \<and> orderToDelete plan = Some g)"
proof -
  let ?items = "map (merged_item (order_lines g @ order_lines e)) (MergeOrdersStrategy g e)"
  have "distinct (map item_key (filter (unmatched e) (order_lines g)))" using assms(4) by (rule distinct_map_filter)
  moreover have "item_key ` set (filter (unmatched e) (order_lines g)) \<inter> item_key ` set (order_lines e) = {}"
    by (auto simp: unmatched_def image_iff)
  moreover have "map fst ?items = map item_key (filter (unmatched e) (order_lines g)) @ map item_key (order_lines e)"
    by (simp add: merged_items [OF assms(1,5)] line_items_def comp_def)
  ultimately have "distinct (map fst ?items)" using assms(5) by simp
  then have "map_of (planned (order_merger_merge MergeOrdersStrategy (Some g) (Some e)) e) = map_of ?items \<and>
      distinct (map fst (planned (order_merger_merge MergeOrdersStrategy (Some g) (Some e)) e))"
    using same_mset_map_of [OF merging.plan_exact [OF assms(1-3)]] by simp
  then show ?thesis
    using assms(2,3) unfolding merged_items [OF assms(1,5)] items_override
    by (simp add: order_merger_merge_def orderEmpty_def Let_def)
qed

definition guest_sample :: order where
  "guest_sample = sample_order [sample_line 11 1000 3, (sample_line 12 1000 2)\<lparr>productVariantId := 6\<rparr>]"

definition existing_sample :: order where
  "existing_sample = sample_order [(sample_line 1 1000 5)\<lparr>productVariantId := 11\<rparr>, (sample_line 2 1000 1)\<lparr>productVariantId := 7\<rparr>]"

theorem merge_plan_refines_witness:
  "map_of (planned (order_merger_merge MergeOrdersStrategy (Some guest_sample) (Some existing_sample)) existing_sample) (11, Some []) = Some 3"
proof -
  have "let plan = order_merger_merge MergeOrdersStrategy (Some guest_sample) (Some existing_sample) in
     map_of (planned plan existing_sample) = map_of (line_items (order_lines existing_sample)) ++ map_of (line_items (order_lines guest_sample)) \<and>
     distinct (map fst (planned plan existing_sample)) \<and> mr_order plan = Some existing_sample \<and> orderToDelete plan = Some guest_sample"
    by (rule merge_plan_refines; code_simp)
  then show ?thesis
    by (simp add: Let_def guest_sample_def existing_sample_def sample_order_def sample_line_def line_items_def item_key_def)
qed

end
