(* ===== verification/Jobs.thy ===== *)
theory Jobs
  imports LockOrder CustomFields
begin

text \<open>
  A job of the queue (\<^verbatim>\<open>job-queue/job.ts\<close>): its states and the operations that change them,
  and the copy of its data that is stored. Times are milliseconds and are arguments; listeners and log
  messages are left out. Data are the values JavaScript has: an object has an identity, its own
  entries, the answer of its \<^verbatim>\<open>toJSON\<close> where it has one, and, when it is the instance of a class,
  what the getters of its prototype answer.
\<close>

section \<open>Values\<close>

datatype js_value =
    VUndefined
  | VNull
  | VBool bool
  | VNum rat
  | VStr string
  | VDate string
  | VArray nat "js_value list"
  | VObject nat "(string \<times> js_value) list" "js_value option" "(string \<times> js_value) list option"

text \<open>Objects that the program makes, where no identity is compared, have identity 0.\<close>

abbreviation new_object :: "(string \<times> js_value) list \<Rightarrow> js_value" where
  "new_object es \<equiv> VObject 0 es None None"

fun join_path :: "string list \<Rightarrow> string" where
  "join_path [] = []"
| "join_path [p] = p"
| "join_path (p # ps) = p @ ''.'' @ join_path ps"

type_synonym seen_paths = "(nat, string list) js_map"

definition circular :: "seen_paths \<Rightarrow> nat \<Rightarrow> string list \<Rightarrow> bool" where
  "circular seen i path \<longleftrightarrow>
     (case map_get seen i of None \<Rightarrow> False | Some seenData \<Rightarrow> length seenData < length path)"

definition circular_text :: "string list \<Rightarrow> js_value" where
  "circular_text path = VStr (''[circular *'' @ join_path path @ '']'')"

function (sequential)
  ensureDataIsSerializable :: "js_value \<Rightarrow> nat \<Rightarrow> seen_paths \<Rightarrow> string list \<Rightarrow> js_value \<times> seen_paths" and
  serialize_entries :: "(string \<times> js_value) list \<Rightarrow> nat \<Rightarrow> seen_paths \<Rightarrow> string list \<Rightarrow> (string \<times> js_value) list \<times> seen_paths" and
  serialize_items :: "js_value list \<Rightarrow> nat \<Rightarrow> nat \<Rightarrow> seen_paths \<Rightarrow> string list \<Rightarrow> js_value list \<times> seen_paths"
where
  "ensureDataIsSerializable v depth seen path =
     (if 10 < depth then (VStr ''[max depth reached]'', seen)
      else case v of
        VDate s \<Rightarrow> (VStr s, seen)
      | VArray i vs \<Rightarrow>
          if circular seen i path then (circular_text path, seen)
          else (case serialize_items vs 0 (depth + 1) (map_set i path seen) path of (vs', seen') \<Rightarrow> (VArray 0 vs', seen'))
      | VObject i es toJSON getters \<Rightarrow>
          if circular seen i path then (circular_text path, seen)
          else (case toJSON of
              Some answer \<Rightarrow> (answer, map_set i path seen)
            | None \<Rightarrow>
                (case serialize_entries es (depth + 1) (map_set i path seen) path of
                   (es', seen') \<Rightarrow>
                     (new_object (case getters of None \<Rightarrow> es' | Some gs \<Rightarrow> fold (\<lambda>(k, x). map_set k x) gs es'), seen')))
      | _ \<Rightarrow> (v, seen))"
| "serialize_entries [] depth seen path = ([], seen)"
| "serialize_entries ((k, v) # es) depth seen path =
     (case ensureDataIsSerializable v depth seen (path @ [k]) of
        (v', seen') \<Rightarrow> (case serialize_entries es depth seen' path of (es', seen'') \<Rightarrow> ((k, v') # es', seen'')))"
| "serialize_items [] i depth seen path = ([], seen)"
| "serialize_items (v # vs) i depth seen path =
     (case ensureDataIsSerializable v depth seen (path @ [print_nat i]) of
        (v', seen') \<Rightarrow> (case serialize_items vs (Suc i) depth seen' path of (vs', seen'') \<Rightarrow> (v' # vs', seen'')))"
  by pat_completeness auto

termination
  by (relation "measure (\<lambda>x. case x of
       Inl (v, _) \<Rightarrow> size v
     | Inr (Inl (es, _)) \<Rightarrow> size_list (size_prod (\<lambda>_. 0) size) es
     | Inr (Inr (vs, _)) \<Rightarrow> size_list size vs)") auto

section \<open>Jobs\<close>

datatype job_state = Job_CANCELLED | Job_COMPLETED | Job_FAILED | Job_PENDING | Job_RETRYING | Job_RUNNING

record job =
  job_id :: "ID option"
  job_queueName :: string
  job_data :: js_value
  job_retries :: int
  job_attempts :: int
  job_state :: job_state
  job_progress :: int
  job_result :: js_value
  job_error :: "string option"
  job_createdAt :: int
  job_startedAt :: "int option"
  job_settledAt :: "int option"

record job_config =
  jc_queueName :: string
  jc_data :: js_value
  jc_retries :: "int option"
  jc_attempts :: "int option"
  jc_id :: "ID option"
  jc_state :: "job_state option"
  jc_progress :: "int option"
  jc_result :: js_value
  jc_error :: "string option"
  jc_createdAt :: "int option"
  jc_startedAt :: "int option"
  jc_settledAt :: "int option"

text \<open>The id 0 would count as none; ids that are given are not 0.\<close>

definition new_job :: "job_config \<Rightarrow> int \<Rightarrow> job" where
  "new_job config time =
     \<lparr>job_id = (case jc_id config of Some i \<Rightarrow> if i = 0 then None else Some i | None \<Rightarrow> None),
      job_queueName = jc_queueName config,
      job_data = fst (ensureDataIsSerializable (jc_data config) 0 [] []),
      job_retries = nullish (jc_retries config) 0, job_attempts = nullish (jc_attempts config) 0,
      job_state = nullish (jc_state config) Job_PENDING, job_progress = nullish (jc_progress config) 0,
      job_result = jc_result config, job_error = jc_error config,
      job_createdAt = nullish (jc_createdAt config) time,
      job_startedAt = jc_startedAt config, job_settledAt = jc_settledAt config\<rparr>"

definition isSettled :: "job \<Rightarrow> bool" where
  "isSettled j \<longleftrightarrow> job_settledAt j \<noteq> None \<and>
     (job_state j = Job_COMPLETED \<or> job_state j = Job_FAILED \<or> job_state j = Job_CANCELLED)"

definition job_duration :: "job \<Rightarrow> int \<Rightarrow> int" where
  "job_duration j time =
     (if job_state j = Job_PENDING \<or> job_state j = Job_RETRYING then 0
      else let end_time = nullish (job_settledAt j) time in end_time - nullish (job_startedAt j) end_time)"

definition job_start :: "int \<Rightarrow> job \<Rightarrow> job" where
  "job_start time j =
     (if job_state j = Job_PENDING \<or> job_state j = Job_RETRYING
      then j\<lparr>job_state := Job_RUNNING, job_startedAt := Some time, job_attempts := job_attempts j + 1\<rparr> else j)"

definition job_setProgress :: "int \<Rightarrow> job \<Rightarrow> job" where
  "job_setProgress percent j = j\<lparr>job_progress := min percent 100\<rparr>"

definition job_complete :: "js_value \<Rightarrow> int \<Rightarrow> job \<Rightarrow> job" where
  "job_complete r time j =
     j\<lparr>job_result := r, job_progress := 100, job_state := Job_COMPLETED, job_settledAt := Some time\<rparr>"

definition job_fail :: "string \<Rightarrow> int \<Rightarrow> job \<Rightarrow> job" where
  "job_fail err time j =
     (let j1 = j\<lparr>job_error := Some err, job_progress := 0\<rparr>
      in if job_attempts j \<le> job_retries j then j1\<lparr>job_state := Job_RETRYING\<rparr>
         else (if job_state j \<noteq> Job_CANCELLED then j1\<lparr>job_state := Job_FAILED\<rparr> else j1)\<lparr>job_settledAt := Some time\<rparr>)"

definition job_cancel :: "int \<Rightarrow> job \<Rightarrow> job" where
  "job_cancel time j = j\<lparr>job_settledAt := Some time, job_state := Job_CANCELLED\<rparr>"

definition job_defer :: "job \<Rightarrow> job" where
  "job_defer j = (if job_state j = Job_RUNNING then j\<lparr>job_state := Job_PENDING, job_attempts := 0\<rparr> else j)"

end
