(* ===== verification/JobStores.thy ===== *)
theory JobStores
  imports Jobs
begin

text \<open>
  The two stores of the polling job queue: \<^verbatim>\<open>InMemoryJobQueueStrategy\<close> and
  \<^verbatim>\<open>SqlJobQueueStrategy\<close>. The in-memory store keeps references to the jobs that are being
  processed, so live jobs are in a heap and a reference is an index of it; the SQL store keeps rows,
  and each read makes a new job. Random ids, times and the clock are arguments. Sorting of the job
  list and truncation of large data on MySQL are left out.
\<close>

type_synonym job_heap = "job list"
type_synonym backoff = "(string \<Rightarrow> int \<Rightarrow> job \<Rightarrow> int) option"

definition snapshot :: "job \<Rightarrow> int \<Rightarrow> job" where
  "snapshot j time = new_job
     \<lparr>jc_queueName = job_queueName j, jc_data = job_data j, jc_retries = Some (job_retries j),
      jc_attempts = Some (job_attempts j), jc_id = job_id j, jc_state = Some (job_state j),
      jc_progress = Some (job_progress j), jc_result = job_result j, jc_error = job_error j,
      jc_createdAt = Some (job_createdAt j), jc_startedAt = job_startedAt j, jc_settledAt = job_settledAt j\<rparr> time"

section \<open>The in-memory store\<close>

record mem_store =
  ms_jobs :: "(ID, nat) js_map"
  ms_unsettled :: "(string, (nat \<times> int) list) js_map"

type_synonym mem_state = "job_heap \<times> mem_store"

definition mem_add :: "(string \<Rightarrow> job \<Rightarrow> int) \<Rightarrow> ID \<Rightarrow> int \<Rightarrow> job \<Rightarrow> mem_state \<Rightarrow> mem_state" where
  "mem_add setRetries random time j hs =
     (let h = fst hs; s = snd hs;
          j1 = (if job_id j = None then j\<lparr>job_id := Some random\<rparr> else j);
          j2 = j1\<lparr>job_retries := setRetries (job_queueName j1) j1\<rparr>;
          ref = length h;
          queue = nullish (map_get (ms_unsettled s) (job_queueName j2)) []
      in (h @ [j2], s\<lparr>ms_jobs := map_set (the (job_id j2)) ref (ms_jobs s),
                      ms_unsettled := map_set (job_queueName j2) (queue @ [(ref, time)]) (ms_unsettled s)\<rparr>))"

definition mem_findOne :: "ID \<Rightarrow> int \<Rightarrow> mem_state \<Rightarrow> job option" where
  "mem_findOne i time hs =
     (case map_get (ms_jobs (snd hs)) i of None \<Rightarrow> None | Some r \<Rightarrow> Some (snapshot (fst hs ! r) time))"

definition mem_findManyById :: "ID list \<Rightarrow> int \<Rightarrow> mem_state \<Rightarrow> job list" where
  "mem_findManyById ids time hs =
     map (\<lambda>r. snapshot (fst hs ! r) time) (List.map_filter (\<lambda>i. map_get (ms_jobs (snd hs)) i) ids)"

text \<open>The first queued job that is not among the waiting ones, with what is before and after it.\<close>

fun split_next :: "nat list \<Rightarrow> (nat \<times> int) list \<Rightarrow> ((nat \<times> int) list \<times> (nat \<times> int) \<times> (nat \<times> int) list) option" where
  "split_next waitingJobs [] = None"
| "split_next waitingJobs (x # xs) =
     (if fst x \<notin> set waitingJobs then Some ([], x, xs)
      else case split_next waitingJobs xs of None \<Rightarrow> None | Some (us, y, vs) \<Rightarrow> Some (x # us, y, vs))"

definition backing_off :: "backoff \<Rightarrow> string \<Rightarrow> job \<Rightarrow> int \<Rightarrow> int \<Rightarrow> bool" where
  "backing_off backOffStrategy queueName j updatedAt time \<longleftrightarrow>
     job_state j = Job_RETRYING \<and>
     (case backOffStrategy of None \<Rightarrow> False
      | Some f \<Rightarrow> time - updatedAt < f queueName (job_attempts j) j)"

definition mem_next :: "backoff \<Rightarrow> nat list \<Rightarrow> string \<Rightarrow> int \<Rightarrow> mem_state \<Rightarrow> nat option \<times> mem_state" where
  "mem_next backOffStrategy waitingJobs queueName time hs =
     (case map_get (ms_unsettled (snd hs)) queueName of
        None \<Rightarrow> (None, hs)
      | Some queue \<Rightarrow>
          (case split_next waitingJobs queue of
             None \<Rightarrow> (None, hs)
           | Some (us, (r, updatedAt), vs) \<Rightarrow>
               let put = (\<lambda>q. (snd hs)\<lparr>ms_unsettled := map_set queueName q (ms_unsettled (snd hs))\<rparr>)
               in if backing_off backOffStrategy queueName (fst hs ! r) updatedAt time
                  then (None, (fst hs, put (us @ vs @ [(r, updatedAt)])))
                  else (Some r, ((fst hs)[r := job_start time (fst hs ! r)], put (us @ vs)))))"

text \<open>The first queued entry with the id of the job is dropped.\<close>

fun drop_first :: "('a \<Rightarrow> bool) \<Rightarrow> 'a list \<Rightarrow> 'a list" where
  "drop_first P [] = []"
| "drop_first P (x # xs) = (if P x then xs else x # drop_first P xs)"

definition removeFromUnsettled :: "nat \<Rightarrow> mem_state \<Rightarrow> mem_store" where
  "removeFromUnsettled r hs =
     (let h = fst hs; s = snd hs; queueName = job_queueName (h ! r)
      in case map_get (ms_unsettled s) queueName of
           None \<Rightarrow> s
         | Some queued \<Rightarrow>
             s\<lparr>ms_unsettled := map_set queueName (drop_first (\<lambda>item. job_id (h ! fst item) = job_id (h ! r)) queued)
                (ms_unsettled s)\<rparr>)"

definition mem_update :: "nat \<Rightarrow> int \<Rightarrow> mem_state \<Rightarrow> mem_state result" where
  "mem_update r time hs =
     (let j = fst hs ! r; s = removeFromUnsettled r hs;
          store = (\<lambda>s. Inr (fst hs, s\<lparr>ms_jobs := map_set (the (job_id j)) r (ms_jobs s)\<rparr>))
      in if job_state j = Job_RETRYING \<or> job_state j = Job_PENDING
         then (case map_get (ms_unsettled s) (job_queueName j) of
                 None \<Rightarrow> Inl (JsError ''Cannot read properties of undefined (reading unshift)'')
               | Some queue \<Rightarrow>
                   store (s\<lparr>ms_unsettled := map_set (job_queueName j) ((r, time) # queue) (ms_unsettled s)\<rparr>))
         else store s)"

definition mem_cancelJob :: "ID \<Rightarrow> int \<Rightarrow> mem_state \<Rightarrow> (job option \<times> mem_state) result" where
  "mem_cancelJob i time hs =
     (case map_get (ms_jobs (snd hs)) i of
        None \<Rightarrow> Inr (None, hs)
      | Some r \<Rightarrow>
          let h = (fst hs)[r := job_cancel time (fst hs ! r)]
          in bind_result (mem_update r time (h, snd hs)) (\<lambda>hs'. Inr (Some (snapshot (h ! r) time), hs')))"

definition removable :: "string list \<Rightarrow> int option \<Rightarrow> job \<Rightarrow> bool" where
  "removable queueNames olderThan j \<longleftrightarrow>
     (queueNames = [] \<or> job_queueName j \<in> set queueNames) \<and> isSettled j \<and>
     (case olderThan of None \<Rightarrow> True | Some d \<Rightarrow> (case job_settledAt j of None \<Rightarrow> False | Some t \<Rightarrow> t < d))"

definition mem_removeSettledJobs :: "string list \<Rightarrow> int option \<Rightarrow> mem_state \<Rightarrow> nat \<times> mem_state" where
  "mem_removeSettledJobs queueNames olderThan hs =
     (let gone = filter (\<lambda>e. removable queueNames olderThan (fst hs ! snd e)) (ms_jobs (snd hs))
      in (length gone, (fst hs, (snd hs)\<lparr>ms_jobs :=
            fold (\<lambda>e. map_delete (fst e)) gone (ms_jobs (snd hs))\<rparr>)))"

definition evictJobsAfterMs :: int where
  "evictJobsAfterMs = 1000 * 60 * 60 * 2"

definition evictSettledJobs :: "int \<Rightarrow> mem_state \<Rightarrow> mem_state" where
  "evictSettledJobs time hs = snd (mem_removeSettledJobs [] (Some (time - evictJobsAfterMs)) hs)"

section \<open>Filtering the in-memory jobs\<close>

text \<open>
  What the fields of a job are when a filter reads them. A date is an object: it is compared by
  identity, never equal to the date of a filter, and by its time otherwise.
\<close>

datatype job_field = F_num int | F_str string | F_bool bool | F_date int | F_id "ID option" | F_none

datatype job_key = K_attempts | K_createdAt | K_duration | K_id | K_isSettled | K_progress | K_queueName | K_retries
  | K_settledAt | K_startedAt | K_state

definition state_text :: "job_state \<Rightarrow> string" where
  "state_text s = (case s of
     Job_CANCELLED \<Rightarrow> ''CANCELLED'' | Job_COMPLETED \<Rightarrow> ''COMPLETED'' | Job_FAILED \<Rightarrow> ''FAILED''
   | Job_PENDING \<Rightarrow> ''PENDING'' | Job_RETRYING \<Rightarrow> ''RETRYING'' | Job_RUNNING \<Rightarrow> ''RUNNING'')"

definition field_of :: "int \<Rightarrow> job_key \<Rightarrow> job \<Rightarrow> job_field" where
  "field_of time key j = (case key of
     K_attempts \<Rightarrow> F_num (job_attempts j) | K_createdAt \<Rightarrow> F_date (job_createdAt j)
   | K_duration \<Rightarrow> F_num (job_duration j time) | K_id \<Rightarrow> F_id (job_id j) | K_isSettled \<Rightarrow> F_bool (isSettled j)
   | K_progress \<Rightarrow> F_num (job_progress j) | K_queueName \<Rightarrow> F_str (job_queueName j) | K_retries \<Rightarrow> F_num (job_retries j)
   | K_settledAt \<Rightarrow> (case job_settledAt j of None \<Rightarrow> F_none | Some t \<Rightarrow> F_date t)
   | K_startedAt \<Rightarrow> (case job_startedAt j of None \<Rightarrow> F_none | Some t \<Rightarrow> F_date t)
   | K_state \<Rightarrow> F_str (state_text (job_state j)))"

record field_operator =
  op_eq :: "job_field option"
  op_contains :: "string option"
  op_gt :: "int option"
  op_gte :: "int option"
  op_lt :: "int option"
  op_lte :: "int option"
  op_before :: "int option"
  op_after :: "int option"
  op_between :: "(int \<times> int) option"

definition field_number :: "job_field \<Rightarrow> int option" where
  "field_number f = (case f of F_num n \<Rightarrow> Some n | F_date t \<Rightarrow> Some t | _ \<Rightarrow> None)"

definition compares :: "(int \<Rightarrow> int \<Rightarrow> bool) \<Rightarrow> int option \<Rightarrow> job_field \<Rightarrow> bool" where
  "compares cmp bound f =
     (case bound of None \<Rightarrow> True | Some b \<Rightarrow> b = 0 \<or> (case field_number f of None \<Rightarrow> False | Some n \<Rightarrow> cmp n b))"

definition dates_compare :: "(int \<Rightarrow> int \<Rightarrow> bool) \<Rightarrow> int option \<Rightarrow> job_field \<Rightarrow> bool" where
  "dates_compare cmp bound f =
     (case bound of None \<Rightarrow> True | Some b \<Rightarrow> (case field_number f of None \<Rightarrow> False | Some n \<Rightarrow> cmp n b))"

definition field_equals :: "job_field \<Rightarrow> job_field \<Rightarrow> bool" where
  "field_equals value eq \<longleftrightarrow>
     (case (value, eq) of
        (F_id a, F_id b) \<Rightarrow> idsAreEqual a b | (F_date a, F_date b) \<Rightarrow> False | _ \<Rightarrow> value = eq)"

fun contains_text :: "string \<Rightarrow> string \<Rightarrow> bool" where
  "contains_text [] pat = (pat = [])"
| "contains_text (c # cs) pat = (take (length pat) (c # cs) = pat \<or> contains_text cs pat)"

definition passes :: "int \<Rightarrow> job_key \<times> field_operator \<Rightarrow> job \<Rightarrow> bool" where
  "passes time ko j =
     (let f = field_of time (fst ko) j; op = snd ko
      in (case op_eq op of None \<Rightarrow> True | Some e \<Rightarrow> field_equals f e) \<and>
         (case op_contains op of None \<Rightarrow> True
          | Some c \<Rightarrow> c = [] \<or> (case f of F_str s \<Rightarrow> contains_text s c | _ \<Rightarrow> False)) \<and>
         compares (\<lambda>n b. b < n) (op_gt op) f \<and> compares (\<lambda>n b. b \<le> n) (op_gte op) f \<and>
         compares (\<lambda>n b. n < b) (op_lt op) f \<and> compares (\<lambda>n b. n \<le> b) (op_lte op) f \<and>
         dates_compare (\<lambda>n b. n \<le> b) (op_before op) f \<and> dates_compare (\<lambda>n b. b \<le> n) (op_after op) f \<and>
         (case op_between op of None \<Rightarrow> True
          | Some (s, e) \<Rightarrow> (case field_number f of None \<Rightarrow> False | Some n \<Rightarrow> s < n \<and> n < e)))"

definition applyFilters :: "int \<Rightarrow> job list \<Rightarrow> (job_key \<times> field_operator) list \<Rightarrow> job list" where
  "applyFilters time items filters = fold (\<lambda>ko. filter (passes time ko)) filters items"

definition applyPagination :: "'a list \<Rightarrow> nat option \<Rightarrow> nat option \<Rightarrow> 'a list" where
  "applyPagination items skip n =
     (let start = nullish skip 0
      in case n of None \<Rightarrow> drop start items | Some k \<Rightarrow> take (start + k - start) (drop start items))"

definition mem_findMany ::
  "(job_key \<times> field_operator) list \<Rightarrow> nat option \<Rightarrow> nat option \<Rightarrow> int \<Rightarrow> mem_state \<Rightarrow> job list \<times> nat" where
  "mem_findMany filters skip n time hs =
     (let items = applyFilters time (map (\<lambda>e. fst hs ! snd e) (ms_jobs (snd hs))) filters;
          page = (if nullish skip 0 \<noteq> 0 \<or> nullish n 0 \<noteq> 0 then applyPagination items skip n else items)
      in (map (\<lambda>j. snapshot j time) page, length items))"

section \<open>The SQL store\<close>

record job_record =
  rec_job :: job
  rec_isSettled :: bool
  rec_updatedAt :: int

record sql_store =
  sq_rows :: "job_record list"
  sq_nextId :: ID
  sq_available :: bool

type_synonym sql_state = "job_heap \<times> sql_store"

definition row_id :: "job_record \<Rightarrow> ID option" where
  "row_id r = job_id (rec_job r)"

definition unavailable :: "'a result" where
  "unavailable = Inl (JsError ''Connection not available'')"

definition fromRecord :: "job_record \<Rightarrow> int \<Rightarrow> job" where
  "fromRecord r time = snapshot (rec_job r) time"

definition sql_add :: "(string \<Rightarrow> job \<Rightarrow> int) \<Rightarrow> int \<Rightarrow> job \<Rightarrow> sql_store \<Rightarrow> (job \<times> sql_store) result" where
  "sql_add setRetries time j s =
     (if \<not> sq_available s then unavailable
      else let row = \<lparr>rec_job = j\<lparr>job_id := Some (sq_nextId s), job_retries := setRetries (job_queueName j) j,
                                  job_createdAt := time\<rparr>, rec_isSettled = isSettled j, rec_updatedAt = time\<rparr>
           in Inr (fromRecord row time, s\<lparr>sq_rows := sq_rows s @ [row], sq_nextId := Suc (sq_nextId s)\<rparr>))"

definition candidates :: "string \<Rightarrow> ID list \<Rightarrow> sql_store \<Rightarrow> job_record list" where
  "candidates queueName waitingJobIds s =
     filter (\<lambda>r. job_queueName (rec_job r) = queueName \<and>
         (job_state (rec_job r) = Job_PENDING \<or> job_state (rec_job r) = Job_RETRYING) \<and>
         (\<forall>i \<in> set waitingJobIds. row_id r \<noteq> Some i)) (sq_rows s)"

fun oldest :: "job_record list \<Rightarrow> job_record option" where
  "oldest [] = None"
| "oldest (r # rs) =
     (case oldest rs of None \<Rightarrow> Some r
      | Some x \<Rightarrow> if job_createdAt (rec_job r) \<le> job_createdAt (rec_job x) then Some r else Some x)"

definition replace_row :: "job_record \<Rightarrow> sql_store \<Rightarrow> sql_store" where
  "replace_row r s = s\<lparr>sq_rows := map (\<lambda>x. if row_id x = row_id r then r else x) (sq_rows s)\<rparr>"

lemma oldest_member: "oldest rs = Some r \<Longrightarrow> r \<in> set rs"
  by (induction rs arbitrary: r) (auto split: option.split_asm if_split_asm)

text \<open>Each round adds the id of a candidate to the waiting ones; a row without id ends the search.\<close>

function getNextAndSetAsRunning ::
  "backoff \<Rightarrow> string \<Rightarrow> int \<Rightarrow> ID list \<Rightarrow> sql_store \<Rightarrow> job option \<times> sql_store" where
  "getNextAndSetAsRunning backOffStrategy queueName time waitingJobIds s =
     (case oldest (candidates queueName waitingJobIds s) of
        None \<Rightarrow> (None, s)
      | Some r \<Rightarrow>
          let j = fromRecord r time
          in if job_state (rec_job r) = Job_RETRYING \<and> row_id r \<noteq> None \<and>
                (case backOffStrategy of None \<Rightarrow> False
                 | Some f \<Rightarrow> time - rec_updatedAt r < f queueName (job_attempts (rec_job r)) j)
             then getNextAndSetAsRunning backOffStrategy queueName time (waitingJobIds @ [the (row_id r)]) s
             else (Some (job_start time j),
                   replace_row (r\<lparr>rec_job := (rec_job r)\<lparr>job_state := Job_RUNNING\<rparr>, rec_updatedAt := time\<rparr>) s))"
  by pat_completeness auto

lemma candidates_shrink:
  assumes "oldest (candidates q ws s) = Some r" and "row_id r = Some i"
  shows "length (candidates q (ws @ [i]) s) < length (candidates q ws s)"
proof -
  have r: "r \<in> set (candidates q ws s)" by (rule oldest_member [OF assms(1)])
  have "candidates q (ws @ [i]) s = filter (\<lambda>x. row_id x \<noteq> Some i) (candidates q ws s)"
    unfolding candidates_def filter_filter by (rule filter_cong) auto
  then show ?thesis using length_filter_less [OF r, of "\<lambda>x. row_id x \<noteq> Some i"] assms(2) by simp
qed

termination getNextAndSetAsRunning
  by (relation "measure (\<lambda>(b, q, t, ws, s). length (candidates q ws s))") (auto intro!: candidates_shrink)

declare getNextAndSetAsRunning.simps [simp del]

definition sql_next :: "backoff \<Rightarrow> string \<Rightarrow> int \<Rightarrow> sql_state \<Rightarrow> (nat option \<times> sql_state) result" where
  "sql_next backOffStrategy queueName time hs =
     (if \<not> sq_available (snd hs) then unavailable
      else case getNextAndSetAsRunning backOffStrategy queueName time [] (snd hs) of
             (None, s) \<Rightarrow> Inr (None, (fst hs, s))
           | (Some j, s) \<Rightarrow> Inr (Some (length (fst hs)), (fst hs @ [j], s)))"

text \<open>Columns whose new value is undefined keep their old one; a settled row is left alone.\<close>

definition toRecord :: "job \<Rightarrow> job \<Rightarrow> job" where
  "toRecord j old =
     old\<lparr>job_queueName := job_queueName j, job_data := job_data j, job_state := job_state j,
         job_progress := job_progress j, job_retries := job_retries j, job_attempts := job_attempts j,
         job_result := (if job_result j = VUndefined then job_result old else job_result j),
         job_error := (if job_error j = None then job_error old else job_error j),
         job_startedAt := (if job_startedAt j = None then job_startedAt old else job_startedAt j),
         job_settledAt := (if job_settledAt j = None then job_settledAt old else job_settledAt j)\<rparr>"

definition update_row :: "job \<Rightarrow> int \<Rightarrow> job_record \<Rightarrow> job_record" where
  "update_row j time r =
     (if row_id r = job_id j \<and> job_settledAt (rec_job r) = None
      then \<lparr>rec_job = toRecord j (rec_job r), rec_isSettled = isSettled j, rec_updatedAt = time\<rparr> else r)"

definition sql_save :: "job \<Rightarrow> int \<Rightarrow> sql_store \<Rightarrow> sql_store result" where
  "sql_save j time s =
     (if \<not> sq_available s then unavailable else Inr (s\<lparr>sq_rows := map (update_row j time) (sq_rows s)\<rparr>))"

definition sql_update :: "nat \<Rightarrow> int \<Rightarrow> sql_state \<Rightarrow> sql_state result" where
  "sql_update r time hs = bind_result (sql_save (fst hs ! r) time (snd hs)) (\<lambda>s. Inr (fst hs, s))"

definition sql_findOne :: "ID \<Rightarrow> int \<Rightarrow> sql_store \<Rightarrow> job option result" where
  "sql_findOne i time s =
     (if \<not> sq_available s then unavailable
      else Inr (map_option (\<lambda>r. fromRecord r time) (List.find (\<lambda>r. row_id r = Some i) (sq_rows s))))"

definition sql_cancelJob :: "ID \<Rightarrow> int \<Rightarrow> sql_store \<Rightarrow> (job option \<times> sql_store) result" where
  "sql_cancelJob i time s =
     bind_result (sql_findOne i time s) (\<lambda>found.
       case found of
         None \<Rightarrow> Inr (None, s)
       | Some j \<Rightarrow> let j' = job_cancel time j in bind_result (sql_save j' time s) (\<lambda>s'. Inr (Some j', s')))"

definition sql_removeSettledJobs :: "string list \<Rightarrow> int option \<Rightarrow> int \<Rightarrow> sql_store \<Rightarrow> (nat \<times> sql_store) result" where
  "sql_removeSettledJobs queueNames olderThan time s =
     (if \<not> sq_available s then unavailable
      else let gone = (\<lambda>r. (queueNames = [] \<or> job_queueName (rec_job r) \<in> set queueNames) \<and> rec_isSettled r \<and>
                 (case job_settledAt (rec_job r) of None \<Rightarrow> False | Some t \<Rightarrow> t < nullish olderThan time))
           in Inr (length (filter gone (sq_rows s)), s\<lparr>sq_rows := filter (\<lambda>r. \<not> gone r) (sq_rows s)\<rparr>))"

end
