(* ===== verification/JobQueues.thy ===== *)
theory JobQueues
  imports JobStores
begin

text \<open>
  A queue that is being processed: \<^verbatim>\<open>ActiveQueue\<close> of
  \<^verbatim>\<open>polling-job-queue-strategy.ts\<close> over a store, as steps: a poll that fills the free slots,
  a progress report, the poll for cancellation and the end of a process. The store is the parameter
  that the abstract methods \<^verbatim>\<open>next\<close>, \<^verbatim>\<open>update\<close> and \<^verbatim>\<open>findOne\<close> are.
\<close>

section \<open>The worker\<close>

text \<open>Live jobs, the store, and references to the jobs being processed.\<close>

record 's worker =
  wk_heap :: job_heap
  wk_store :: 's
  activeJobs :: "nat list"

record 's polling_store =
  ps_next :: "string \<Rightarrow> int \<Rightarrow> job_heap \<times> 's \<Rightarrow> (nat option \<times> job_heap \<times> 's) result"
  ps_update :: "nat \<Rightarrow> int \<Rightarrow> job_heap \<times> 's \<Rightarrow> (job_heap \<times> 's) result"
  ps_findOne :: "ID \<Rightarrow> int \<Rightarrow> job_heap \<times> 's \<Rightarrow> job option result"

text \<open>The free slots are filled one by one until \<^verbatim>\<open>next\<close> or \<^verbatim>\<open>update\<close> throws.\<close>

fun runNextJobs :: "'s polling_store \<Rightarrow> string \<Rightarrow> int \<Rightarrow> nat \<Rightarrow> 's worker \<Rightarrow> 's worker" where
  "runNextJobs ps queueName time 0 w = w"
| "runNextJobs ps queueName time (Suc slots) w =
     (case ps_next ps queueName time (wk_heap w, wk_store w) of
        Inl e \<Rightarrow> w
      | Inr (None, h, s) \<Rightarrow> runNextJobs ps queueName time slots (w\<lparr>wk_heap := h, wk_store := s\<rparr>)
      | Inr (Some r, h, s) \<Rightarrow>
          (case ps_update ps r time (h, s) of
             Inl e \<Rightarrow> w\<lparr>wk_heap := h, wk_store := s\<rparr>
           | Inr (h', s') \<Rightarrow>
               runNextJobs ps queueName time slots \<lparr>wk_heap = h', wk_store = s', activeJobs = activeJobs w @ [r]\<rparr>))"

definition poll :: "'s polling_store \<Rightarrow> string \<Rightarrow> nat \<Rightarrow> int \<Rightarrow> 's worker \<Rightarrow> 's worker" where
  "poll ps queueName concurrency time w =
     runNextJobs ps queueName time (concurrency - length (activeJobs w)) w"

definition persist :: "'s polling_store \<Rightarrow> nat \<Rightarrow> int \<Rightarrow> 's worker \<Rightarrow> 's worker" where
  "persist ps r time w =
     (case ps_update ps r time (wk_heap w, wk_store w) of
        Inl e \<Rightarrow> w | Inr (h, s) \<Rightarrow> w\<lparr>wk_heap := h, wk_store := s\<rparr>)"

definition change_job :: "nat \<Rightarrow> (job \<Rightarrow> job) \<Rightarrow> 's worker \<Rightarrow> 's worker" where
  "change_job r f w = w\<lparr>wk_heap := (wk_heap w)[r := f (wk_heap w ! r)]\<rparr>"

definition onProgress :: "'s polling_store \<Rightarrow> nat \<Rightarrow> int \<Rightarrow> int \<Rightarrow> 's worker \<Rightarrow> 's worker" where
  "onProgress ps r percent time w = persist ps r time (change_job r (job_setProgress percent) w)"

definition poll_cancellation :: "'s polling_store \<Rightarrow> nat \<Rightarrow> int \<Rightarrow> 's worker \<Rightarrow> 's worker" where
  "poll_cancellation ps r time w =
     (case job_id (wk_heap w ! r) of
        None \<Rightarrow> w
      | Some i \<Rightarrow>
          (case ps_findOne ps i time (wk_heap w, wk_store w) of
             Inr (Some j) \<Rightarrow> if job_state j = Job_CANCELLED then change_job r (job_cancel time) w else w
           | _ \<Rightarrow> w))"

text \<open>How a process ends; its result may be a job that was cancelled.\<close>

datatype process_outcome = Resolved js_value | Resolved_cancelled_job | Rejected string | Stop_signal

definition settle_job :: "process_outcome \<Rightarrow> int \<Rightarrow> job \<Rightarrow> job" where
  "settle_job outcome time j =
     (case outcome of
        Stop_signal \<Rightarrow> job_defer j
      | Resolved_cancelled_job \<Rightarrow> job_cancel time j
      | Resolved r \<Rightarrow> if job_state j = Job_CANCELLED then job_cancel time j else job_complete r time j
      | Rejected e \<Rightarrow> job_fail e time j)"

definition onFailOrComplete :: "'s polling_store \<Rightarrow> nat \<Rightarrow> process_outcome \<Rightarrow> int \<Rightarrow> 's worker \<Rightarrow> 's worker" where
  "onFailOrComplete ps r outcome time w =
     (let w' = persist ps r time (change_job r (settle_job outcome time) w)
      in w'\<lparr>activeJobs := remove1 r (activeJobs w')\<rparr>)"

text \<open>One event of a worker, or a change of the store from outside.\<close>

inductive worker_step ::
  "'s polling_store \<Rightarrow> (nat list \<Rightarrow> job_heap \<times> 's \<Rightarrow> job_heap \<times> 's \<Rightarrow> bool) \<Rightarrow> string \<Rightarrow> nat \<Rightarrow> 's worker \<Rightarrow> 's worker \<Rightarrow> bool"
  for ps outside queueName concurrency where
  polls: "worker_step ps outside queueName concurrency w (poll ps queueName concurrency time w)"
| reports: "r \<in> set (activeJobs w) \<Longrightarrow> worker_step ps outside queueName concurrency w (onProgress ps r percent time w)"
| looks: "r \<in> set (activeJobs w) \<Longrightarrow> worker_step ps outside queueName concurrency w (poll_cancellation ps r time w)"
| ends: "r \<in> set (activeJobs w) \<Longrightarrow> worker_step ps outside queueName concurrency w (onFailOrComplete ps r outcome time w)"
| outer: "outside (activeJobs w) (wk_heap w, wk_store w) (h, s) \<Longrightarrow>
     worker_step ps outside queueName concurrency w (w\<lparr>wk_heap := h, wk_store := s\<rparr>)"

inductive_cases worker_stepE: "worker_step ps outside queueName concurrency w w'"

section \<open>What a store promises\<close>

definition attempts_ok :: "job \<Rightarrow> bool" where
  "attempts_ok j \<longleftrightarrow> 0 \<le> job_retries j \<and> job_attempts j \<le> job_retries j + 1 \<and>
     (job_state j = Job_PENDING \<longrightarrow> job_attempts j = 0) \<and> (job_state j = Job_RETRYING \<longrightarrow> job_attempts j \<le> job_retries j)"

text \<open>Changes of a live job while it is processed, and when its process has ended.\<close>

definition in_process :: "job \<Rightarrow> job \<Rightarrow> bool" where
  "in_process j j' \<longleftrightarrow> (\<exists>p. j' = job_setProgress p j) \<or> (\<exists>t. j' = job_cancel t j)"

definition after_process :: "job \<Rightarrow> job \<Rightarrow> bool" where
  "after_process j j' \<longleftrightarrow> (\<exists>out t. j' = settle_job out t j)"

text \<open>
  \<open>fit h s A\<close>: the store fits the live jobs when the references \<open>A\<close> are being processed.
\<close>

locale job_store =
  fixes ps :: "'s polling_store"
    and outside :: "nat list \<Rightarrow> job_heap \<times> 's \<Rightarrow> job_heap \<times> 's \<Rightarrow> bool"
    and fit :: "job_heap \<Rightarrow> 's \<Rightarrow> nat list \<Rightarrow> bool"
  assumes next_fits: "fit h s A \<Longrightarrow> ps_next ps q t (h, s) = Inr (found, h', s') \<Longrightarrow>
      fit h' s' (A @ (case found of None \<Rightarrow> [] | Some r \<Rightarrow> [r]))"
    and update_fits: "fit h s A \<Longrightarrow> r \<in> set A \<Longrightarrow> ps_update ps r t (h, s) = Inr (h', s') \<Longrightarrow> fit h' s' A"
    and change_fits: "fit h s A \<Longrightarrow> r \<in> set A \<Longrightarrow> in_process (h ! r) j \<Longrightarrow> fit (h[r := j]) s A"
    and end_fits: "fit h s A \<Longrightarrow> r \<in> set A \<Longrightarrow> after_process (h ! r) j \<Longrightarrow>
      ps_update ps r t (h[r := j], s) = Inr (h', s') \<Longrightarrow> fit h' s' (remove1 r A)"
    and drop_fits: "fit h s A \<Longrightarrow> r \<in> set A \<Longrightarrow> after_process (h ! r) j \<Longrightarrow> fit (h[r := j]) s (remove1 r A)"
    and release_fits: "fit h s A \<Longrightarrow> r \<in> set A \<Longrightarrow> fit h s (remove1 r A)"
    and outside_fits: "fit h s A \<Longrightarrow> outside A (h, s) (h', s') \<Longrightarrow> fit h' s' A"
    and fit_jobs: "fit h s A \<Longrightarrow> distinct (map (\<lambda>r. job_id (h ! r)) A) \<and> (\<forall>r \<in> set A. attempts_ok (h ! r))"
begin

definition ready :: "nat \<Rightarrow> 's worker \<Rightarrow> bool" where
  "ready concurrency w \<longleftrightarrow> fit (wk_heap w) (wk_store w) (activeJobs w) \<and> length (activeJobs w) \<le> concurrency"

lemma run_ready:
  "fit (wk_heap w) (wk_store w) (activeJobs w) \<Longrightarrow> length (activeJobs w) + slots \<le> concurrency \<Longrightarrow>
     ready concurrency (runNextJobs ps q t slots w)"
proof (induction slots arbitrary: w)
  case (Suc slots)
  show ?case
  proof (cases "ps_next ps q t (wk_heap w, wk_store w)")
    case (Inl e)
    then show ?thesis using Suc.prems by (simp add: ready_def)
  next
    case (Inr x)
    obtain found h s where x: "x = (found, h, s)" by (cases x)
    have fits: "fit h s (activeJobs w @ (case found of None \<Rightarrow> [] | Some r \<Rightarrow> [r]))"
      using next_fits [OF Suc.prems(1)] Inr x by simp
    show ?thesis
    proof (cases found)
      case None
      then show ?thesis using Suc Inr x fits by simp
    next
      case (Some r)
      then have new: "fit h s (activeJobs w @ [r])" using fits by simp
      then have "r \<notin> set (activeJobs w)" using fit_jobs [OF new] by (auto simp: image_iff)
      then have without: "fit h s (activeJobs w)"
        using release_fits [OF new, of r] by (simp add: remove1_append)
      show ?thesis
      proof (cases "ps_update ps r t (h, s)")
        case (Inl e)
        then show ?thesis using Suc.prems Inr x Some without by (simp add: ready_def)
      next
        case stored: (Inr y)
        then obtain h' s' where y: "ps_update ps r t (h, s) = Inr (h', s')" by (cases y) simp
        then have "fit h' s' (activeJobs w @ [r])" using update_fits [OF new, of r] by simp
        then show ?thesis using Suc Inr x Some y by simp
      qed
    qed
  qed
qed (simp add: ready_def)

lemma poll_ready: "ready concurrency w \<Longrightarrow> ready concurrency (poll ps q concurrency t w)"
  unfolding poll_def by (rule run_ready) (auto simp: ready_def)

lemma persist_ready:
  assumes "ready concurrency w" and "r \<in> set (activeJobs w)"
  shows "ready concurrency (persist ps r t w)"
  using assms update_fits [of "wk_heap w" "wk_store w" "activeJobs w" r t]
  by (auto simp: persist_def ready_def split: sum.split)

lemma change_ready:
  assumes "ready concurrency w" and "r \<in> set (activeJobs w)" and "in_process (wk_heap w ! r) (f (wk_heap w ! r))"
  shows "ready concurrency (change_job r f w)"
  using assms change_fits by (simp add: change_job_def ready_def)

lemma end_ready:
  assumes "ready concurrency w" and r: "r \<in> set (activeJobs w)"
  shows "ready concurrency (onFailOrComplete ps r outcome t w)"
proof -
  let ?j = "settle_job outcome t (wk_heap w ! r)"
  have fits: "fit (wk_heap w) (wk_store w) (activeJobs w)" and len: "length (activeJobs w) \<le> concurrency"
    using assms(1) by (simp_all add: ready_def)
  have after: "after_process (wk_heap w ! r) ?j" by (auto simp: after_process_def)
  have "fit h s (remove1 r (activeJobs w))"
    if "ps_update ps r t ((wk_heap w)[r := ?j], wk_store w) = Inr (h, s)" for h s
    using end_fits [OF fits r after that] .
  moreover have "fit ((wk_heap w)[r := ?j]) (wk_store w) (remove1 r (activeJobs w))"
    by (rule drop_fits [OF fits r after])
  ultimately show ?thesis using len
    by (auto simp: onFailOrComplete_def persist_def change_job_def ready_def Let_def length_remove1 split: sum.split)
qed

lemma step_ready:
  assumes "worker_step ps outside q concurrency w w'" and w: "ready concurrency w"
  shows "ready concurrency w'"
  using assms(1)
proof (cases rule: worker_step.cases)
  case (polls t)
  then show ?thesis using poll_ready [OF w] by simp
next
  case (reports r p t)
  have "ready concurrency (change_job r (job_setProgress p) w)"
    by (rule change_ready [OF w reports(2)]) (auto simp: in_process_def)
  then show ?thesis using reports by (auto simp: onProgress_def change_job_def intro: persist_ready)
next
  case (looks r t)
  have "ready concurrency (change_job r (job_cancel t) w)"
    by (rule change_ready [OF w looks(2)]) (auto simp: in_process_def)
  then show ?thesis using looks w by (auto simp: poll_cancellation_def split: option.split sum.split)
next
  case (ends r out t)
  then show ?thesis using end_ready [OF w] by simp
next
  case (outer h s)
  then show ?thesis using w outside_fits [of "wk_heap w" "wk_store w" "activeJobs w" h s] by (simp add: ready_def)
qed

lemma run_safe:
  assumes "steps (worker_step ps outside q concurrency) w w'" and "ready concurrency w"
  shows "length (activeJobs w') \<le> concurrency \<and> distinct (map (\<lambda>r. job_id (wk_heap w' ! r)) (activeJobs w')) \<and>
    (\<forall>r \<in> set (activeJobs w'). attempts_ok (wk_heap w' ! r))"
proof -
  have "ready concurrency w'"
    by (rule steps_invariant [OF assms(1), where P = "ready concurrency", OF assms(2)]) (rule step_ready)
  then show ?thesis using fit_jobs by (auto simp: ready_def)
qed

end

end
