(* ===== verification/SqlQueueSafety.thy ===== *)
theory SqlQueueSafety
  imports JobQueues
begin

text \<open>
  The SQL store keeps what the worker relies on, with other workers on the same table: no job is
  processed twice at a time and none more often than its retries allow. A row is final once it is
  settled.
\<close>

section \<open>Attempts\<close>

definition waiting :: "job \<Rightarrow> bool" where
  "waiting j \<longleftrightarrow> job_state j = Job_PENDING \<or> job_state j = Job_RETRYING"

definition taken :: "job \<Rightarrow> bool" where
  "taken j \<longleftrightarrow> job_state j = Job_RUNNING \<or> job_state j = Job_CANCELLED"

lemma taken_not_waiting: "taken j \<Longrightarrow> \<not> waiting j"
  by (auto simp: taken_def waiting_def)

lemma start_ok: "waiting j \<Longrightarrow> attempts_ok j \<Longrightarrow> attempts_ok (job_start t j) \<and> job_state (job_start t j) = Job_RUNNING"
  by (auto simp: waiting_def attempts_ok_def job_start_def)

lemma in_process_same:
  "in_process j j' \<Longrightarrow> job_id j' = job_id j \<and> job_queueName j' = job_queueName j \<and>
     (taken j \<longrightarrow> taken j') \<and> (attempts_ok j \<longrightarrow> attempts_ok j')"
  by (auto simp: in_process_def job_setProgress_def job_cancel_def taken_def attempts_ok_def)

lemma after_process_same:
  "after_process j j' \<Longrightarrow> job_id j' = job_id j \<and> job_queueName j' = job_queueName j \<and>
     (taken j \<and> attempts_ok j \<longrightarrow> attempts_ok j')"
  by (auto simp: after_process_def settle_job_def job_fail_def job_cancel_def job_complete_def job_defer_def
      attempts_ok_def taken_def Let_def split: process_outcome.split)

lemma snapshot_fields [simp]:
  "job_state (snapshot j t) = job_state j" "job_attempts (snapshot j t) = job_attempts j"
  "job_retries (snapshot j t) = job_retries j" "job_queueName (snapshot j t) = job_queueName j"
  "job_settledAt (snapshot j t) = job_settledAt j" "job_startedAt (snapshot j t) = job_startedAt j"
  by (simp_all add: snapshot_def new_job_def)

lemma snapshot_id: "job_id j \<noteq> Some 0 \<Longrightarrow> job_id (snapshot j t) = job_id j"
  by (auto simp: snapshot_def new_job_def split: option.split)

lemma attempts_ok_cong:
  "job_state j' = job_state j \<Longrightarrow> job_attempts j' = job_attempts j \<Longrightarrow> job_retries j' = job_retries j \<Longrightarrow>
     attempts_ok j' = attempts_ok j"
  by (simp add: attempts_ok_def)

section \<open>The SQL store\<close>

definition row_ok :: "ID \<Rightarrow> job_record \<Rightarrow> bool" where
  "row_ok n x \<longleftrightarrow> (\<exists>i. row_id x = Some i \<and> 1 \<le> i \<and> i < n) \<and> attempts_ok (rec_job x)"

definition live_ok :: "sql_store \<Rightarrow> job \<Rightarrow> bool" where
  "live_ok s j \<longleftrightarrow> attempts_ok j \<and> taken j \<and> (\<exists>i. job_id j = Some i \<and> i < sq_nextId s) \<and>
     (\<forall>x \<in> set (sq_rows s). row_id x = job_id j \<longrightarrow> \<not> waiting (rec_job x))"

definition sql_fit :: "job_heap \<Rightarrow> sql_store \<Rightarrow> nat list \<Rightarrow> bool" where
  "sql_fit h s A \<longleftrightarrow> 1 \<le> sq_nextId s \<and> (\<forall>x \<in> set (sq_rows s). row_ok (sq_nextId s) x) \<and>
     distinct (map (\<lambda>r. job_id (h ! r)) A) \<and> (\<forall>r \<in> set A. r < length h \<and> live_ok s (h ! r))"

text \<open>Rows that are rewritten in place keep their ids, and none of a live job comes to wait.\<close>

lemma sql_fit_map:
  assumes fit: "sql_fit h s A"
    and f: "\<And>x. x \<in> set (sq_rows s) \<Longrightarrow> row_ok (sq_nextId s) x \<Longrightarrow> row_id (f x) = row_id x \<and> attempts_ok (rec_job (f x)) \<and>
      (waiting (rec_job (f x)) \<longrightarrow> waiting (rec_job x) \<or> row_id x \<notin> (\<lambda>r. job_id (h ! r)) ` set A)"
  shows "sql_fit h (s\<lparr>sq_rows := map f (sq_rows s)\<rparr>) A"
proof -
  have rows: "\<forall>x \<in> set (sq_rows s). row_ok (sq_nextId s) x" using fit by (simp add: sql_fit_def)
  have "live_ok (s\<lparr>sq_rows := map f (sq_rows s)\<rparr>) (h ! r)" if r: "r \<in> set A" for r
  proof -
    have "live_ok s (h ! r)" using fit r by (simp add: sql_fit_def)
    moreover have "\<not> waiting (rec_job (f x))" if x: "x \<in> set (sq_rows s)" and i: "row_id (f x) = job_id (h ! r)" for x
      using f [OF x] rows x i r calculation by (auto simp: live_ok_def image_iff)
    ultimately show ?thesis by (auto simp: live_ok_def)
  qed
  moreover have "row_ok (sq_nextId s) (f x)" if "x \<in> set (sq_rows s)" for x
    using f [OF that] rows that by (auto simp: row_ok_def)
  ultimately show ?thesis using fit by (auto simp: sql_fit_def)
qed

lemma oldest_candidate:
  "oldest (candidates q ws s) = Some r \<Longrightarrow> r \<in> set (sq_rows s) \<and> waiting (rec_job r)"
  by (drule oldest_member) (auto simp: candidates_def waiting_def)

lemma next_row:
  "getNextAndSetAsRunning b q t ws s = (Some j, s') \<Longrightarrow>
     \<exists>x \<in> set (sq_rows s). waiting (rec_job x) \<and> j = job_start t (fromRecord x t) \<and>
       s' = replace_row (x\<lparr>rec_job := (rec_job x)\<lparr>job_state := Job_RUNNING\<rparr>, rec_updatedAt := t\<rparr>) s"
proof (induction b q t ws s rule: getNextAndSetAsRunning.induct)
  case (1 b q t ws s)
  show ?case
  proof (cases "oldest (candidates q ws s)")
    case None
    then show ?thesis using "1.prems" by (simp add: getNextAndSetAsRunning.simps)
  next
    case (Some x)
    show ?thesis
    proof (cases "job_state (rec_job x) = Job_RETRYING \<and> row_id x \<noteq> None \<and>
        (case b of None \<Rightarrow> False | Some f \<Rightarrow> t - rec_updatedAt x < f q (job_attempts (rec_job x)) (fromRecord x t))")
      case True
      then show ?thesis using "1.IH" [OF Some refl True] "1.prems" Some
        by (subst (asm) getNextAndSetAsRunning.simps) simp
    next
      case False
      then show ?thesis using "1.prems" Some oldest_candidate [OF Some]
        by (subst (asm) getNextAndSetAsRunning.simps) auto
    qed
  qed
qed

lemma next_none: "getNextAndSetAsRunning b q t ws s = (None, s') \<Longrightarrow> s' = s"
proof (induction b q t ws s rule: getNextAndSetAsRunning.induct)
  case (1 b q t ws s)
  then show ?case
    by (subst (asm) (2) getNextAndSetAsRunning.simps) (auto simp: Let_def split: option.split_asm if_split_asm)
qed

lemma sql_fit_running:
  assumes fit: "sql_fit h s A" and x: "x \<in> set (sq_rows s)"
  shows "sql_fit h (replace_row (x\<lparr>rec_job := (rec_job x)\<lparr>job_state := Job_RUNNING\<rparr>, rec_updatedAt := t\<rparr>) s) A"
proof -
  have "attempts_ok (rec_job x)" using fit x by (auto simp: sql_fit_def row_ok_def)
  then show ?thesis unfolding replace_row_def
    by (intro sql_fit_map [OF fit]) (auto simp: row_id_def row_ok_def attempts_ok_def waiting_def)
qed

lemma sql_fit_taken:
  assumes fit: "sql_fit h s A" and x: "x \<in> set (sq_rows s)" and w: "waiting (rec_job x)"
  shows "sql_fit (h @ [job_start t (fromRecord x t)])
    (replace_row (x\<lparr>rec_job := (rec_job x)\<lparr>job_state := Job_RUNNING\<rparr>, rec_updatedAt := t\<rparr>) s) (A @ [length h])"
proof -
  let ?s = "replace_row (x\<lparr>rec_job := (rec_job x)\<lparr>job_state := Job_RUNNING\<rparr>, rec_updatedAt := t\<rparr>) s"
  let ?j = "job_start t (fromRecord x t)"
  have fit': "sql_fit h ?s A" by (rule sql_fit_running [OF fit x])
  obtain i where i: "row_id x = Some i" "1 \<le> i" "i < sq_nextId s" and ok: "attempts_ok (rec_job x)"
    using fit x by (auto simp: sql_fit_def row_ok_def)
  have id: "job_id ?j = Some i"
    using i by (simp add: fromRecord_def job_start_def snapshot_id row_id_def)
  have "waiting (fromRecord x t)" "attempts_ok (fromRecord x t)"
    using w ok by (simp_all add: fromRecord_def waiting_def attempts_ok_def)
  then have j: "attempts_ok ?j" "taken ?j" using start_ok by (auto simp: taken_def)
  have live: "live_ok ?s ?j"
    using id i j by (auto simp: live_ok_def replace_row_def waiting_def row_id_def)
  have "Some i \<notin> (\<lambda>r. job_id (h ! r)) ` set A"
    using fit x w i(1) by (auto simp: sql_fit_def live_ok_def)
  moreover have "(h @ [?j]) ! r = h ! r" if "r \<in> set A" for r
    using fit that by (simp add: sql_fit_def nth_append)
  ultimately show ?thesis
    using fit' live id by (auto simp: sql_fit_def nth_append cong: map_cong)
qed

lemma sql_fit_save:
  assumes fit: "sql_fit h s A" and j: "attempts_ok j"
    and w: "waiting j \<Longrightarrow> job_id j \<notin> (\<lambda>r. job_id (h ! r)) ` set A"
  shows "sql_fit h (s\<lparr>sq_rows := map (update_row j t) (sq_rows s)\<rparr>) A"
proof (rule sql_fit_map [OF fit])
  fix x assume x: "x \<in> set (sq_rows s)" "row_ok (sq_nextId s) x"
  have "attempts_ok (toRecord j (rec_job x))" using j by (simp add: attempts_ok_def toRecord_def)
  moreover have "job_state (toRecord j (rec_job x)) = job_state j" "job_id (toRecord j (rec_job x)) = job_id (rec_job x)"
    by (simp_all add: toRecord_def)
  ultimately show "row_id (update_row j t x) = row_id x \<and> attempts_ok (rec_job (update_row j t x)) \<and>
      (waiting (rec_job (update_row j t x)) \<longrightarrow> waiting (rec_job x) \<or> row_id x \<notin> (\<lambda>r. job_id (h ! r)) ` set A)"
    using x(2) w by (auto simp: update_row_def row_id_def row_ok_def waiting_def)
qed

lemma sql_fit_change:
  assumes fit: "sql_fit h s A" and r: "r \<in> set A" and j: "in_process (h ! r) j"
  shows "sql_fit (h[r := j]) s A"
proof -
  have r': "r < length h" "live_ok s (h ! r)" using fit r by (simp_all add: sql_fit_def)
  have "job_id (h[r := j] ! x) = job_id (h ! x)" for x
    using in_process_same [OF j] r'(1) by (simp add: nth_list_update)
  moreover have "live_ok s j" using in_process_same [OF j] r'(2) by (auto simp: live_ok_def)
  ultimately show ?thesis using fit r' by (auto simp: sql_fit_def nth_list_update)
qed

lemma sql_fit_drop:
  assumes fit: "sql_fit h s A" and r: "r \<in> set A"
  shows "sql_fit (h[r := j]) s (remove1 r A)"
proof -
  have d: "distinct A" using fit by (auto simp: sql_fit_def distinct_map)
  then have "h[r := j] ! x = h ! x" if "x \<in> set (remove1 r A)" for x
    using that by (auto simp: nth_list_update)
  moreover have "set (remove1 r A) \<subseteq> set A" by (rule set_remove1_subset)
  moreover have "distinct (map (\<lambda>r. job_id (h ! r)) (remove1 r A))"
    using fit d by (auto simp: sql_fit_def distinct_map intro: inj_on_subset dest: notin_set_remove1)
  ultimately show ?thesis using fit by (auto simp: sql_fit_def subset_iff cong: map_cong)
qed

text \<open>What others do to the table: add, cancel and remove jobs, or take and save them as workers.\<close>

inductive sql_outside :: "nat list \<Rightarrow> job_heap \<times> sql_store \<Rightarrow> job_heap \<times> sql_store \<Rightarrow> bool" where
  add: "sql_add setRetries t j s = Inr (j', s') \<Longrightarrow> job_state j = Job_PENDING \<Longrightarrow> job_attempts j = 0 \<Longrightarrow>
     0 \<le> setRetries (job_queueName j) j \<Longrightarrow> sql_outside A (h, s) (h, s')"
| cancel: "sql_cancelJob i t s = Inr (found, s') \<Longrightarrow> sql_outside A (h, s) (h, s')"
| remove: "sql_removeSettledJobs queueNames olderThan t s = Inr (n, s') \<Longrightarrow> sql_outside A (h, s) (h, s')"
| take: "getNextAndSetAsRunning backOff q t [] s = (found, s') \<Longrightarrow> sql_outside A (h, s) (h, s')"
| save: "sql_save j t s = Inr s' \<Longrightarrow> attempts_ok j \<Longrightarrow> job_id j \<notin> (\<lambda>r. job_id (h ! r)) ` set A \<Longrightarrow>
     sql_outside A (h, s) (h, s')"
| connection: "sql_outside A (h, s) (h, s\<lparr>sq_available := b\<rparr>)"

inductive_cases sql_outsideE: "sql_outside A (h, s) (h', s')"

lemma sql_fit_outside:
  assumes fit: "sql_fit h s A" and out: "sql_outside A (h, s) (h', s')"
  shows "sql_fit h' s' A"
  using out
proof (cases rule: sql_outside.cases)
  case (add setRetries t j j')
  let ?row = "\<lparr>rec_job = j\<lparr>job_id := Some (sq_nextId s), job_retries := setRetries (job_queueName j) j, job_createdAt := t\<rparr>,
      rec_isSettled = isSettled j, rec_updatedAt = t\<rparr>"
  have s': "s' = s\<lparr>sq_rows := sq_rows s @ [?row], sq_nextId := Suc (sq_nextId s)\<rparr>"
    using add(2) by (auto simp: sql_add_def Let_def unavailable_def split: if_split_asm)
  have "row_ok (Suc (sq_nextId s)) ?row"
    using add fit by (auto simp: row_ok_def row_id_def attempts_ok_def sql_fit_def)
  moreover have "row_ok (sq_nextId s) x \<Longrightarrow> row_ok (Suc (sq_nextId s)) x" for x
    by (auto simp: row_ok_def)
  moreover have "live_ok s j \<Longrightarrow> live_ok s' j" for j
    by (auto simp: live_ok_def s' row_id_def)
  ultimately show ?thesis using fit add(1) by (auto simp: sql_fit_def s')
next
  case (cancel i t found)
  then show ?thesis
  proof (cases found)
    case None
    then show ?thesis using cancel fit
      by (auto simp: sql_cancelJob_def sql_findOne_def unavailable_def bind_result_Inr Let_def split: if_split_asm option.split_asm)
  next
    case (Some j)
    then obtain x where x: "x \<in> set (sq_rows s)" "j = job_cancel t (fromRecord x t)"
      and s': "s' = s\<lparr>sq_rows := map (update_row j t) (sq_rows s)\<rparr>"
      using cancel(2)
      by (auto simp: sql_cancelJob_def sql_findOne_def sql_save_def unavailable_def bind_result_Inr Let_def
          split: if_split_asm option.split_asm dest: find_Some_in)
    have "attempts_ok (rec_job x)" using fit x(1) by (auto simp: sql_fit_def row_ok_def)
    then have "attempts_ok j" "\<not> waiting j"
      by (simp_all add: x(2) fromRecord_def job_cancel_def attempts_ok_def waiting_def)
    then show ?thesis using cancel(1) s' by (auto intro: sql_fit_save [OF fit])
  qed
next
  case (remove queueNames olderThan t n)
  then obtain P where "s' = s\<lparr>sq_rows := filter P (sq_rows s)\<rparr>"
    by (auto simp: sql_removeSettledJobs_def unavailable_def Let_def split: if_split_asm)
  then show ?thesis using fit remove(1) by (auto simp: sql_fit_def live_ok_def)
next
  case (take backOff q t found)
  then show ?thesis
  proof (cases found)
    case None
    then show ?thesis using take fit next_none [of backOff q t "[]" s s'] by simp
  next
    case (Some j)
    then show ?thesis using take next_row [of backOff q t "[]" s j s'] sql_fit_running [OF fit] by auto
  qed
next
  case (save j t)
  then have "s' = s\<lparr>sq_rows := map (update_row j t) (sq_rows s)\<rparr>"
    by (auto simp: sql_save_def unavailable_def split: if_split_asm)
  then show ?thesis using sql_fit_save [OF fit save(3)] save by simp
next
  case (connection b)
  have "live_ok s j \<Longrightarrow> live_ok (s\<lparr>sq_available := b\<rparr>) j" for j by (simp add: live_ok_def)
  then show ?thesis using fit connection by (auto simp: sql_fit_def)
qed

definition sql_polling :: "backoff \<Rightarrow> sql_store polling_store" where
  "sql_polling backOff = \<lparr>ps_next = sql_next backOff, ps_update = sql_update,
     ps_findOne = (\<lambda>i t hs. sql_findOne i t (snd hs))\<rparr>"

lemma sql_update_Inr:
  "sql_update r t (h, s) = Inr (h', s') \<longleftrightarrow> sq_available s \<and> h' = h \<and> s' = s\<lparr>sq_rows := map (update_row (h ! r) t) (sq_rows s)\<rparr>"
  by (auto simp: sql_update_def sql_save_def unavailable_def)

interpretation sql: job_store "sql_polling backOff" sql_outside sql_fit for backOff
proof
  fix h s A q t found h' s'
  assume fit: "sql_fit h s A" and "ps_next (sql_polling backOff) q t (h, s) = Inr (found, h', s')"
  then have n: "sql_next backOff q t (h, s) = Inr (found, h', s')" by (simp add: sql_polling_def)
  show "sql_fit h' s' (A @ (case found of None \<Rightarrow> [] | Some r \<Rightarrow> [r]))"
  proof (cases "getNextAndSetAsRunning backOff q t [] s")
    case (Pair j u)
    show ?thesis
    proof (cases j)
      case None
      then show ?thesis using n Pair fit next_none [of backOff q t "[]" s u]
        by (auto simp: sql_next_def unavailable_def split: if_split_asm)
    next
      case (Some k)
      then show ?thesis using n Pair next_row [of backOff q t "[]" s k u] sql_fit_taken [OF fit]
        by (auto simp: sql_next_def unavailable_def split: if_split_asm)
    qed
  qed
next
  fix h s A r t h' s'
  assume fit: "sql_fit h s A" and r: "r \<in> set A" and "ps_update (sql_polling backOff) r t (h, s) = Inr (h', s')"
  then have u: "h' = h \<and> s' = s\<lparr>sq_rows := map (update_row (h ! r) t) (sq_rows s)\<rparr>"
    by (simp add: sql_polling_def sql_update_Inr)
  have "attempts_ok (h ! r)" "\<not> waiting (h ! r)"
    using fit r taken_not_waiting by (auto simp: sql_fit_def live_ok_def)
  then show "sql_fit h' s' A" using u by (auto intro: sql_fit_save [OF fit])
next
  fix h s A r j
  assume "sql_fit h s A" "r \<in> set A" "in_process (h ! r) j"
  then show "sql_fit (h[r := j]) s A" by (rule sql_fit_change)
next
  fix h s A r j t h' s'
  assume fit: "sql_fit h s A" and r: "r \<in> set A" and j: "after_process (h ! r) j"
    and "ps_update (sql_polling backOff) r t (h[r := j], s) = Inr (h', s')"
  have len: "r < length h" and live: "live_ok s (h ! r)" using fit r by (simp_all add: sql_fit_def)
  have u: "h' = h[r := j]" "s' = s\<lparr>sq_rows := map (update_row j t) (sq_rows s)\<rparr>"
    using \<open>ps_update (sql_polling backOff) r t (h[r := j], s) = Inr (h', s')\<close> len
    by (auto simp: sql_polling_def sql_update_Inr)
  have dropped: "sql_fit (h[r := j]) s (remove1 r A)" by (rule sql_fit_drop [OF fit r])
  have "job_id j \<notin> (\<lambda>x. job_id (h[r := j] ! x)) ` set (remove1 r A)"
  proof -
    have "distinct A" "inj_on (\<lambda>r. job_id (h ! r)) (set A)" using fit by (auto simp: sql_fit_def distinct_map)
    then show ?thesis using r len after_process_same [OF j]
      by (auto simp: nth_list_update dest: inj_onD)
  qed
  moreover have "attempts_ok j" using after_process_same [OF j] live by (simp add: live_ok_def)
  ultimately show "sql_fit h' s' (remove1 r A)"
    using sql_fit_save [OF dropped] u by simp
next
  fix h s A r j
  assume "sql_fit h s A" "r \<in> set A"
  then show "sql_fit (h[r := j]) s (remove1 r A)" by (rule sql_fit_drop)
next
  fix h s A r
  assume "sql_fit h s A" "r \<in> set A"
  then show "sql_fit h s (remove1 r A)" using sql_fit_drop [of h s A r "h ! r"] by simp
next
  fix h s A h' s'
  assume "sql_fit h s A" "sql_outside A (h, s) (h', s')"
  then show "sql_fit h' s' A" by (rule sql_fit_outside)
next
  fix h s A
  assume "sql_fit h s A"
  then show "distinct (map (\<lambda>r. job_id (h ! r)) A) \<and> (\<forall>r \<in> set A. attempts_ok (h ! r))"
    by (auto simp: sql_fit_def live_ok_def)
qed

section \<open>Properties\<close>


text \<open>The rows of an id that are settled, and the rows of that id later.\<close>

definition rows_of :: "ID \<Rightarrow> sql_store \<Rightarrow> job_record set" where
  "rows_of i s = {x \<in> set (sq_rows s). row_id x = Some i}"

definition all_settled :: "ID \<Rightarrow> sql_store \<Rightarrow> bool" where
  "all_settled i s \<longleftrightarrow> i < sq_nextId s \<and> (\<forall>x \<in> rows_of i s. job_settledAt (rec_job x) \<noteq> None \<and> \<not> waiting (rec_job x))"

definition stays :: "ID \<Rightarrow> sql_store \<Rightarrow> sql_store \<Rightarrow> bool" where
  "stays i s s' \<longleftrightarrow> rows_of i s' \<subseteq> rows_of i s \<and> sq_nextId s \<le> sq_nextId s'"

lemma stays_refl: "stays i s s" by (simp add: stays_def)

lemma stays_trans: "stays i a b \<Longrightarrow> stays i b c \<Longrightarrow> stays i a c" by (auto simp: stays_def)

lemma stays_settled: "stays i s s' \<Longrightarrow> all_settled i s \<Longrightarrow> all_settled i s'"
  by (auto simp: stays_def all_settled_def)

lemma update_stays: "all_settled i s \<Longrightarrow> stays i s (s\<lparr>sq_rows := map (update_row j t) (sq_rows s)\<rparr>)"
proof -
  assume settled: "all_settled i s"
  have "update_row j t x = x" if "x \<in> set (sq_rows s)" "row_id (update_row j t x) = Some i" for x
  proof -
    have "row_id x = Some i" using that(2) by (auto simp: update_row_def row_id_def toRecord_def split: if_split_asm)
    then show ?thesis using that(1) settled by (auto simp: all_settled_def rows_of_def update_row_def)
  qed
  then show ?thesis by (auto simp: stays_def rows_of_def) metis
qed

lemma running_stays:
  "all_settled i s \<Longrightarrow> x \<in> set (sq_rows s) \<Longrightarrow> waiting (rec_job x) \<Longrightarrow>
     stays i s (replace_row (x\<lparr>rec_job := (rec_job x)\<lparr>job_state := Job_RUNNING\<rparr>, rec_updatedAt := t\<rparr>) s)"
  by (auto simp: stays_def rows_of_def all_settled_def replace_row_def row_id_def split: if_split_asm)

lemma next_stays:
  "all_settled i s \<Longrightarrow> getNextAndSetAsRunning b q t ws s = (found, s') \<Longrightarrow> stays i s s'"
  by (cases found) (auto dest: next_none next_row intro: stays_refl running_stays)

lemma sql_update_stays: "all_settled i s \<Longrightarrow> sql_update r t (h, s) = Inr (h', s') \<Longrightarrow> stays i s s'"
  using update_stays by (auto simp: sql_update_Inr)

lemma outside_stays: "sql_outside A (h, s) (h', s') \<Longrightarrow> all_settled i s \<Longrightarrow> stays i s s'"
proof (erule sql_outsideE, goal_cases)
  case (1 setRetries t j j')
  then show ?case
    by (auto simp: sql_add_def unavailable_def Let_def stays_def rows_of_def all_settled_def row_id_def split: if_split_asm)
next
  case (2 i t found)
  then show ?case
    by (auto simp: sql_cancelJob_def sql_findOne_def sql_save_def unavailable_def bind_result_Inr Let_def
        split: if_split_asm option.split_asm intro: stays_refl update_stays)
next
  case (3 queueNames olderThan t n)
  then show ?case
    by (auto simp: sql_removeSettledJobs_def unavailable_def Let_def stays_def rows_of_def split: if_split_asm)
next
  case (4 backOff q t found)
  then show ?case by (auto intro: next_stays)
next
  case (5 j t)
  then show ?case by (auto simp: sql_save_def unavailable_def split: if_split_asm intro: update_stays)
next
  case (6 b)
  then show ?case by (simp add: stays_def rows_of_def)
qed

lemma run_stays: "all_settled i (wk_store w) \<Longrightarrow> stays i (wk_store w) (wk_store (runNextJobs (sql_polling b) q t n w))"
proof (induction n arbitrary: w)
  case (Suc n)
  show ?case
  proof (cases "sql_next b q t (wk_heap w, wk_store w)")
    case (Inl e)
    then show ?thesis by (simp add: sql_polling_def stays_refl)
  next
    case (Inr x)
    obtain found h s where x: "x = (found, h, s)" by (cases x)
    have first: "stays i (wk_store w) s"
      using Inr x Suc.prems
      by (auto simp: sql_next_def unavailable_def split: if_split_asm prod.split_asm option.split_asm intro: next_stays)
    note settled = stays_settled [OF first Suc.prems]
    show ?thesis
    proof (cases found)
      case None
      then show ?thesis using Inr x Suc.IH [of "w\<lparr>wk_heap := h, wk_store := s\<rparr>"] settled first
        by (auto simp: sql_polling_def intro: stays_trans)
    next
      case (Some r)
      show ?thesis
      proof (cases "sql_update r t (h, s)")
        case (Inl e)
        then show ?thesis using \<open>sql_next b q t (wk_heap w, wk_store w) = Inr x\<close> x Some first by (simp add: sql_polling_def)
      next
        case saved: (Inr y)
        obtain h' s' where y: "y = (h', s')" by (cases y)
        have second: "stays i s s'" using sql_update_stays [OF settled] saved y by simp
        show ?thesis
          using Suc.IH [of "\<lparr>wk_heap = h', wk_store = s', activeJobs = activeJobs w @ [r]\<rparr>"]
            stays_settled [OF second settled] stays_trans [OF first second] Inr x Some saved y
          by (auto simp: sql_polling_def intro: stays_trans)
      qed
    qed
  qed
qed (simp add: stays_refl)

lemma persist_stays: "all_settled i (wk_store w) \<Longrightarrow> stays i (wk_store w) (wk_store (persist (sql_polling b) r t w))"
  by (auto simp: persist_def sql_polling_def intro: stays_refl sql_update_stays split: sum.split)

lemma step_stays:
  assumes step: "worker_step (sql_polling b) sql_outside q c w w'" and settled: "all_settled i (wk_store w)"
  shows "stays i (wk_store w) (wk_store w')"
  using step
proof (cases rule: worker_step.cases)
  case (polls t)
  then show ?thesis using run_stays [OF settled] by (simp add: poll_def)
next
  case (reports r p t)
  then show ?thesis using persist_stays [of i "change_job r (job_setProgress p) w"] settled
    by (simp add: onProgress_def change_job_def)
next
  case (looks r t)
  then show ?thesis by (auto simp: poll_cancellation_def change_job_def stays_refl split: option.split sum.split)
next
  case (ends r out t)
  then show ?thesis using persist_stays [of i "change_job r (settle_job out t) w"] settled
    by (simp add: onFailOrComplete_def change_job_def Let_def)
next
  case (outer h s)
  then show ?thesis using outside_stays [OF outer(2) settled] by simp
qed

text \<open>
  In the SQL job queue a settled job is final. Once the row of a job has a settling time and does not
  wait, no worker and no request changes it any more: whatever happens later, the row is as it was or
  has been removed.
\<close>

theorem settled_row_final:
  assumes "steps (worker_step (sql_polling backOff) sql_outside q concurrency) w w'"
    and "x \<in> set (sq_rows (wk_store w'))" and "row_id x = Some i" and "all_settled i (wk_store w)"
  shows "x \<in> set (sq_rows (wk_store w)) \<and> job_settledAt (rec_job x) \<noteq> None"
proof -
  have "stays i (wk_store w) (wk_store w') \<and> all_settled i (wk_store w')"
    by (rule steps_invariant [OF assms(1), where P = "\<lambda>v. stays i (wk_store w) (wk_store v) \<and> all_settled i (wk_store v)"])
      (auto simp: stays_refl assms(4) intro: stays_trans step_stays stays_settled)
  then show ?thesis using assms(2,3) by (auto simp: stays_def rows_of_def all_settled_def)
qed

section \<open>A sample table\<close>

definition sample_job :: "job_state \<Rightarrow> int \<Rightarrow> int \<Rightarrow> job" where
  "sample_job state attempts retries =
     \<lparr>job_id = None, job_queueName = ''mail'', job_data = VNull, job_retries = retries, job_attempts = attempts,
      job_state = state, job_progress = 0, job_result = VUndefined, job_error = None, job_createdAt = 5,
      job_startedAt = None, job_settledAt = None\<rparr>"

definition sample_table :: sql_store where
  "sample_table = \<lparr>sq_rows =
     [\<lparr>rec_job = (sample_job Job_PENDING 0 2)\<lparr>job_id := Some 3\<rparr>, rec_isSettled = False, rec_updatedAt = 5\<rparr>,
      \<lparr>rec_job = (sample_job Job_CANCELLED 0 2)\<lparr>job_id := Some 4, job_settledAt := Some 9\<rparr>, rec_isSettled = True, rec_updatedAt = 9\<rparr>],
     sq_nextId = 5, sq_available = True\<rparr>"

definition sample_worker :: "sql_store worker" where
  "sample_worker = \<lparr>wk_heap = [], wk_store = sample_table, activeJobs = []\<rparr>"

definition sample_polled :: "sql_store worker" where
  "sample_polled = poll (sql_polling None) ''mail'' 2 20 sample_worker"

lemma sample_polled_steps: "steps (worker_step (sql_polling None) sql_outside ''mail'' 2) sample_worker sample_polled"
  unfolding sample_polled_def by (rule steps_single, rule worker_step.polls)


theorem settled_row_final_witness:
  "sq_rows (wk_store sample_polled) ! 1 \<in> set (sq_rows sample_table) \<and>
   job_settledAt (rec_job (sq_rows (wk_store sample_polled) ! 1)) \<noteq> None"
proof -
  have "row_id (sq_rows (wk_store sample_polled) ! 1) = Some 4" "length (sq_rows (wk_store sample_polled)) = 2" by code_simp+
  moreover have "all_settled 4 (wk_store sample_worker)"
    by (auto simp: all_settled_def rows_of_def sample_worker_def sample_table_def sample_job_def row_id_def waiting_def)
  moreover have "wk_store sample_worker = sample_table" by (simp add: sample_worker_def)
  ultimately show ?thesis
    using settled_row_final [OF sample_polled_steps, of "sq_rows (wk_store sample_polled) ! 1" 4] by simp
qed

end
