(* ===== verification/MemQueueSafety.thy ===== *)
theory MemQueueSafety
  imports SqlQueueSafety
begin

text \<open>
  The in-memory store keeps what the worker relies on as well, with jobs that are shared between its
  map, its queues and the worker: an entry of a queue waits and an active job does not, and jobs with
  one id are one.
\<close>

section \<open>The in-memory store\<close>

definition queue_of :: "mem_store \<Rightarrow> string \<Rightarrow> (nat \<times> int) list" where
  "queue_of s q = nullish (map_get (ms_unsettled s) q) []"

definition held :: "job_heap \<Rightarrow> mem_store \<Rightarrow> nat \<Rightarrow> bool" where
  "held h s r \<longleftrightarrow> r < length h \<and> attempts_ok (h ! r) \<and>
     (\<exists>i. job_id (h ! r) = Some i \<and> (\<forall>x. map_get (ms_jobs s) i = Some x \<longrightarrow> x = r))"

definition known :: "job_heap \<Rightarrow> mem_store \<Rightarrow> nat list \<Rightarrow> nat \<Rightarrow> bool" where
  "known h s A r \<longleftrightarrow> r \<in> set A \<or> r \<in> fst ` set (queue_of s (job_queueName (h ! r)))"

definition mem_fit :: "job_heap \<Rightarrow> mem_store \<Rightarrow> nat list \<Rightarrow> bool" where
  "mem_fit h s A \<longleftrightarrow>
     distinct A \<and> (\<forall>q. distinct (map fst (queue_of s q))) \<and>
     (\<forall>q. \<forall>r \<in> fst ` set (queue_of s q). waiting (h ! r) \<and> job_queueName (h ! r) = q \<and> held h s r) \<and>
     (\<forall>r \<in> set A. taken (h ! r) \<and> map_get (ms_unsettled s) (job_queueName (h ! r)) \<noteq> None \<and> held h s r) \<and>
     (\<forall>a b. known h s A a \<longrightarrow> known h s A b \<longrightarrow> job_id (h ! a) = job_id (h ! b) \<longrightarrow> a = b) \<and>
     (\<forall>i x. map_get (ms_jobs s) i = Some x \<longrightarrow> x < length h \<and> job_id (h ! x) = Some i)"

lemma queue_of_set [simp]:
  "queue_of (s\<lparr>ms_unsettled := map_set q xs (ms_unsettled s)\<rparr>) = (queue_of s)(q := xs)"
  by (auto simp: queue_of_def map_get_set)

lemma queue_of_jobs [simp]: "queue_of (s\<lparr>ms_jobs := m\<rparr>) = queue_of s"
  by (auto simp: queue_of_def)

lemma mem_fitI:
  assumes "distinct A" and "\<And>q. distinct (map fst (queue_of s q))"
    and "\<And>q r. r \<in> fst ` set (queue_of s q) \<Longrightarrow> waiting (h ! r) \<and> job_queueName (h ! r) = q \<and> held h s r"
    and "\<And>r. r \<in> set A \<Longrightarrow> taken (h ! r) \<and> map_get (ms_unsettled s) (job_queueName (h ! r)) \<noteq> None \<and> held h s r"
    and "\<And>a b. known h s A a \<Longrightarrow> known h s A b \<Longrightarrow> job_id (h ! a) = job_id (h ! b) \<Longrightarrow> a = b"
    and "\<And>i x. map_get (ms_jobs s) i = Some x \<Longrightarrow> x < length h \<and> job_id (h ! x) = Some i"
  shows "mem_fit h s A"
  unfolding mem_fit_def using assms by blast

lemma fit_distinct: "mem_fit h s A \<Longrightarrow> distinct A" "mem_fit h s A \<Longrightarrow> distinct (map fst (queue_of s q))"
  unfolding mem_fit_def by blast+

lemma fit_queue:
  "mem_fit h s A \<Longrightarrow> r \<in> fst ` set (queue_of s q) \<Longrightarrow> waiting (h ! r) \<and> job_queueName (h ! r) = q \<and> held h s r"
  unfolding mem_fit_def by blast

lemma fit_active:
  "mem_fit h s A \<Longrightarrow> r \<in> set A \<Longrightarrow>
     taken (h ! r) \<and> map_get (ms_unsettled s) (job_queueName (h ! r)) \<noteq> None \<and> held h s r"
  unfolding mem_fit_def by blast

lemma fit_inj:
  "mem_fit h s A \<Longrightarrow> known h s A a \<Longrightarrow> known h s A b \<Longrightarrow> job_id (h ! a) = job_id (h ! b) \<Longrightarrow> a = b"
  unfolding mem_fit_def by blast

lemma fit_stored: "mem_fit h s A \<Longrightarrow> map_get (ms_jobs s) i = Some x \<Longrightarrow> x < length h \<and> job_id (h ! x) = Some i"
  unfolding mem_fit_def by blast

lemma known_fit: "mem_fit h s A \<Longrightarrow> known h s A r \<Longrightarrow> held h s r"
  unfolding known_def using fit_queue fit_active by blast

lemma active_not_queued: "mem_fit h s A \<Longrightarrow> r \<in> set A \<Longrightarrow> r \<notin> fst ` set (queue_of s q)"
  using fit_queue fit_active taken_not_waiting by blast

lemma split_next_Some:
  "split_next ws xs = Some (us, x, vs) \<Longrightarrow> xs = us @ x # vs"
  by (induction ws xs arbitrary: us rule: split_next.induct) (auto split: if_split_asm option.split_asm)

lemma drop_first_filter:
  "distinct (map fst xs) \<Longrightarrow> (\<And>x. x \<in> set xs \<Longrightarrow> P x \<longleftrightarrow> fst x = r) \<Longrightarrow> drop_first P xs = filter (\<lambda>x. fst x \<noteq> r) xs"
proof (induction xs)
  case (Cons x xs)
  show ?case
  proof (cases "fst x = r")
    case True
    then have "\<forall>y \<in> set xs. fst y \<noteq> r" using Cons.prems(1) by (auto simp: image_iff)
    then show ?thesis using True Cons.prems(2) [of x] by simp
  next
    case False
    then show ?thesis using Cons by simp
  qed
qed simp

text \<open>Only the job itself is dropped from its queue.\<close>

lemma remove_unsettled:
  assumes fit: "mem_fit h s A" and same: "job_id j = job_id (h ! r)" "job_queueName j = job_queueName (h ! r)"
    and len: "r < length h"
    and own: "\<And>x. x \<in> fst ` set (queue_of s (job_queueName (h ! r))) \<Longrightarrow> job_id (h ! x) = job_id (h ! r) \<Longrightarrow> x = r"
  shows "queue_of (removeFromUnsettled r (h[r := j], s)) =
      (queue_of s)(job_queueName (h ! r) := filter (\<lambda>x. fst x \<noteq> r) (queue_of s (job_queueName (h ! r)))) \<and>
    ms_jobs (removeFromUnsettled r (h[r := j], s)) = ms_jobs s \<and>
    (\<forall>q. map_get (ms_unsettled (removeFromUnsettled r (h[r := j], s))) q = None \<longleftrightarrow> map_get (ms_unsettled s) q = None)"
proof (cases "map_get (ms_unsettled s) (job_queueName (h ! r))")
  case None
  then have "queue_of s (job_queueName (h ! r)) = []" by (simp add: queue_of_def)
  then show ?thesis using None same len
    by (auto simp: removeFromUnsettled_def Let_def)
next
  case (Some items)
  then have items: "queue_of s (job_queueName (h ! r)) = items" by (simp add: queue_of_def)
  have "distinct (map fst items)" using fit_distinct(2) [OF fit] items by metis
  moreover have "job_id (h[r := j] ! fst x) = job_id (h[r := j] ! r) \<longleftrightarrow> fst x = r" if "x \<in> set items" for x
    using own [of "fst x"] that items same len by (cases "fst x = r") auto
  ultimately have "drop_first (\<lambda>x. job_id (h[r := j] ! fst x) = job_id (h[r := j] ! r)) items = filter (\<lambda>x. fst x \<noteq> r) items"
    by (rule drop_first_filter)
  then show ?thesis using Some items same len
    by (auto simp: removeFromUnsettled_def Let_def map_get_set)
qed

lemma mem_fit_jobs:
  assumes fit: "mem_fit h s A" and known: "\<And>x. known h s A x \<Longrightarrow> job_id (h ! x) = Some i \<Longrightarrow> x = r"
    and r: "r < length h" "job_id (h ! r) = Some i"
  shows "mem_fit h (s\<lparr>ms_jobs := map_set i r (ms_jobs s)\<rparr>) A"
proof -
  let ?s = "s\<lparr>ms_jobs := map_set i r (ms_jobs s)\<rparr>"
  have same: "known h ?s A x = known h s A x" for x by (simp add: known_def)
  have held: "held h ?s x" if "known h s A x" for x
    using known_fit [OF fit that] known [OF that] by (auto simp: held_def map_get_set)
  show ?thesis
  proof (rule mem_fitI)
    show "distinct A" "\<And>q. distinct (map fst (queue_of ?s q))" using fit_distinct [OF fit] by simp_all
    show "waiting (h ! x) \<and> job_queueName (h ! x) = q \<and> held h ?s x" if "x \<in> fst ` set (queue_of ?s q)" for q x
    proof -
      have "x \<in> fst ` set (queue_of s q)" using that by simp
      then show ?thesis using fit_queue [OF fit] held [of x] by (simp add: known_def)
    qed
    show "taken (h ! x) \<and> map_get (ms_unsettled ?s) (job_queueName (h ! x)) \<noteq> None \<and> held h ?s x" if "x \<in> set A" for x
      using fit_active [OF fit that] held [of x] that by (simp add: known_def)
    show "a = b" if "known h ?s A a" "known h ?s A b" "job_id (h ! a) = job_id (h ! b)" for a b
      using fit_inj [OF fit] that same by blast
    show "x < length h \<and> job_id (h ! x) = Some k" if "map_get (ms_jobs ?s) k = Some x" for k x
      using that r fit_stored [OF fit, of k x] by (auto simp: map_get_set split: if_split_asm)
  qed
qed

lemma fit_cong:
  assumes fit: "mem_fit h s A" and "queue_of s' = queue_of s" and "ms_jobs s' = ms_jobs s"
    and "\<And>q. map_get (ms_unsettled s') q = None \<longleftrightarrow> map_get (ms_unsettled s) q = None"
  shows "mem_fit h s' A"
proof -
  have "held h s' = held h s" "known h s' A = known h s A" using assms(2,3) by (auto simp: held_def known_def fun_eq_iff)
  then show ?thesis using fit by (simp add: mem_fit_def assms(2-4))
qed

lemma fit_release: "mem_fit h s A \<Longrightarrow> mem_fit h s (remove1 r A)"
proof (rule mem_fitI)
  assume fit: "mem_fit h s A"
  have sub: "x \<in> set (remove1 r A) \<Longrightarrow> x \<in> set A" for x using set_remove1_subset by (rule set_mp)
  show "distinct (remove1 r A)" "\<And>q. distinct (map fst (queue_of s q))" using fit_distinct [OF fit] by simp_all
  show "\<And>q x. x \<in> fst ` set (queue_of s q) \<Longrightarrow> waiting (h ! x) \<and> job_queueName (h ! x) = q \<and> held h s x"
    by (rule fit_queue [OF fit])
  show "\<And>x. x \<in> set (remove1 r A) \<Longrightarrow>
      taken (h ! x) \<and> map_get (ms_unsettled s) (job_queueName (h ! x)) \<noteq> None \<and> held h s x"
    by (rule fit_active [OF fit]) (rule sub)
  show "\<And>a b. known h s (remove1 r A) a \<Longrightarrow> known h s (remove1 r A) b \<Longrightarrow> job_id (h ! a) = job_id (h ! b) \<Longrightarrow> a = b"
    by (rule fit_inj [OF fit]) (auto simp: known_def dest: sub)
  show "\<And>i x. map_get (ms_jobs s) i = Some x \<Longrightarrow> x < length h \<and> job_id (h ! x) = Some i"
    by (rule fit_stored [OF fit])
qed

lemma fit_unqueue:
  assumes fit: "mem_fit h s A" and q': "queue_of s' = (queue_of s)(n := filter (\<lambda>x. fst x \<noteq> r) (queue_of s n))"
    and jobs: "ms_jobs s' = ms_jobs s"
    and none: "\<And>q. map_get (ms_unsettled s') q = None \<longleftrightarrow> map_get (ms_unsettled s) q = None"
  shows "mem_fit h s' A"
proof (rule mem_fitI)
  have sub: "x \<in> fst ` set (queue_of s' q) \<Longrightarrow> x \<in> fst ` set (queue_of s q)" for x q
    by (auto simp: q' split: if_split_asm)
  have held: "held h s' = held h s" by (auto simp: held_def jobs fun_eq_iff)
  have known: "known h s' A x \<Longrightarrow> known h s A x" for x using sub by (auto simp: known_def)
  show "distinct A" by (rule fit_distinct [OF fit])
  show "distinct (map fst (queue_of s' q))" for q
    using fit_distinct(2) [OF fit] by (simp add: q' distinct_map_filter)
  show "\<And>q x. x \<in> fst ` set (queue_of s' q) \<Longrightarrow> waiting (h ! x) \<and> job_queueName (h ! x) = q \<and> held h s' x"
    using fit_queue [OF fit sub] by (simp add: held)
  show "\<And>x. x \<in> set A \<Longrightarrow> taken (h ! x) \<and> map_get (ms_unsettled s') (job_queueName (h ! x)) \<noteq> None \<and> held h s' x"
    using fit_active [OF fit] by (simp add: none held)
  show "\<And>a b. known h s' A a \<Longrightarrow> known h s' A b \<Longrightarrow> job_id (h ! a) = job_id (h ! b) \<Longrightarrow> a = b"
    using fit_inj [OF fit] known by blast
  show "\<And>i x. map_get (ms_jobs s') i = Some x \<Longrightarrow> x < length h \<and> job_id (h ! x) = Some i"
    using fit_stored [OF fit] by (simp add: jobs)
qed

lemma held_change: "held h s x \<Longrightarrow> job_id j = job_id (h ! r) \<Longrightarrow> (x = r \<Longrightarrow> attempts_ok j) \<Longrightarrow> held (h[r := j]) s x"
  by (cases "x = r") (auto simp: held_def)

lemma fit_change:
  assumes fit: "mem_fit h s A" and same: "job_id j = job_id (h ! r)" "job_queueName j = job_queueName (h ! r)"
    and out: "\<And>q. r \<notin> fst ` set (queue_of s q)" and act: "r \<in> set A \<Longrightarrow> taken j \<and> attempts_ok j"
  shows "mem_fit (h[r := j]) s A"
proof (rule mem_fitI)
  have list_update_nth: "h[r := j] ! x = (if x = r \<and> r < length h then j else h ! x)" for x
    by (cases "r < length h") (simp_all add: list_update_beyond)
  have names: "job_queueName (h[r := j] ! x) = job_queueName (h ! x)" "job_id (h[r := j] ! x) = job_id (h ! x)" for x
    by (simp_all add: list_update_nth same)
  have known: "known (h[r := j]) s A = known h s A" by (simp add: known_def names fun_eq_iff)
  show "distinct A" "\<And>q. distinct (map fst (queue_of s q))" using fit_distinct [OF fit] by simp_all
  show "waiting (h[r := j] ! x) \<and> job_queueName (h[r := j] ! x) = q \<and> held (h[r := j]) s x"
    if x: "x \<in> fst ` set (queue_of s q)" for q x
  proof -
    have "x \<noteq> r" using x out by blast
    then show ?thesis using fit_queue [OF fit x] same by (auto intro: held_change)
  qed
  show "taken (h[r := j] ! x) \<and> map_get (ms_unsettled s) (job_queueName (h[r := j] ! x)) \<noteq> None \<and> held (h[r := j]) s x"
    if x: "x \<in> set A" for x
  proof -
    have "taken (h[r := j] ! x)" using fit_active [OF fit x] act x by (auto simp: list_update_nth)
    then show ?thesis using fit_active [OF fit x] act x same by (auto simp: names intro: held_change)
  qed
  show "\<And>a b. known (h[r := j]) s A a \<Longrightarrow> known (h[r := j]) s A b \<Longrightarrow> job_id (h[r := j] ! a) = job_id (h[r := j] ! b) \<Longrightarrow> a = b"
    using fit_inj [OF fit] by (simp add: known names)
  show "\<And>i x. map_get (ms_jobs s) i = Some x \<Longrightarrow> x < length (h[r := j]) \<and> job_id (h[r := j] ! x) = Some i"
    using fit_stored [OF fit] by (simp add: names)
qed

lemma fit_push:
  assumes fit: "mem_fit h s A" and r: "held h s r" "waiting (h ! r)" "r \<notin> set A"
    and alone: "\<And>x. known h s A x \<Longrightarrow> job_id (h ! x) = job_id (h ! r) \<Longrightarrow> x = r"
    and xs: "fst ` set xs = insert r (fst ` set (queue_of s (job_queueName (h ! r))))" "distinct (map fst xs)"
  shows "mem_fit h (s\<lparr>ms_unsettled := map_set (job_queueName (h ! r)) xs (ms_unsettled s)\<rparr>) A" (is "mem_fit h ?s A")
proof (rule mem_fitI)
  have held: "held h ?s = held h s" by (simp add: held_def fun_eq_iff)
  have queues: "x \<in> fst ` set (queue_of ?s q) \<longleftrightarrow>
      x \<in> fst ` set (queue_of s q) \<or> x = r \<and> q = job_queueName (h ! r)" for x q
    using xs(1) by auto
  have known: "known h ?s A x \<longleftrightarrow> known h s A x \<or> x = r" for x
    unfolding known_def queues by blast
  show "distinct A" by (rule fit_distinct [OF fit])
  show "distinct (map fst (queue_of ?s q))" for q
    using fit_distinct(2) [OF fit, of q] xs(2) by simp
  show "waiting (h ! x) \<and> job_queueName (h ! x) = q \<and> held h ?s x" if "x \<in> fst ` set (queue_of ?s q)" for q x
    using that fit_queue [OF fit, of x q] r unfolding queues held by blast
  show "taken (h ! x) \<and> map_get (ms_unsettled ?s) (job_queueName (h ! x)) \<noteq> None \<and> held h ?s x" if "x \<in> set A" for x
    using fit_active [OF fit that] by (simp add: held map_get_set)
  show "a = b" if "known h ?s A a" "known h ?s A b" "job_id (h ! a) = job_id (h ! b)" for a b
    using that(1,2) fit_inj [OF fit _ _ that(3)] alone [of a] alone [of b] that(3) unfolding known by metis
  show "\<And>i x. map_get (ms_jobs ?s) i = Some x \<Longrightarrow> x < length h \<and> job_id (h ! x) = Some i"
    using fit_stored [OF fit] by simp
qed

lemma fit_activate:
  assumes fit: "mem_fit h s A" and r: "held h s r" "taken (h ! r)" "r \<notin> set A"
      "map_get (ms_unsettled s) (job_queueName (h ! r)) \<noteq> None"
    and alone: "\<And>x. known h s A x \<Longrightarrow> job_id (h ! x) = job_id (h ! r) \<Longrightarrow> x = r"
  shows "mem_fit h s (A @ [r])"
proof (rule mem_fitI)
  have known: "known h s (A @ [r]) x \<longleftrightarrow> known h s A x \<or> x = r" for x by (auto simp: known_def)
  show "distinct (A @ [r])" "\<And>q. distinct (map fst (queue_of s q))" using fit_distinct [OF fit] r(3) by simp_all
  show "\<And>q x. x \<in> fst ` set (queue_of s q) \<Longrightarrow> waiting (h ! x) \<and> job_queueName (h ! x) = q \<and> held h s x"
    by (rule fit_queue [OF fit])
  show "taken (h ! x) \<and> map_get (ms_unsettled s) (job_queueName (h ! x)) \<noteq> None \<and> held h s x" if "x \<in> set (A @ [r])" for x
    using that fit_active [OF fit, of x] r by auto
  show "a = b" if "known h s (A @ [r]) a" "known h s (A @ [r]) b" "job_id (h ! a) = job_id (h ! b)" for a b
    using that(1,2) fit_inj [OF fit _ _ that(3)] alone [of a] alone [of b] that(3) unfolding known by metis
  show "\<And>i x. map_get (ms_jobs s) i = Some x \<Longrightarrow> x < length h \<and> job_id (h ! x) = Some i"
    by (rule fit_stored [OF fit])
qed

lemma fit_extend:
  assumes fit: "mem_fit h s A"
  shows "mem_fit (h @ [j]) s A"
proof (rule mem_fitI)
  have old: "(h @ [j]) ! x = h ! x" if "held h s x" for x using that by (simp add: held_def nth_append)
  have held: "held (h @ [j]) s x" if "held h s x" for x using that old [OF that] by (auto simp: held_def)
  have known: "known h s A x" if "known (h @ [j]) s A x" for x
    using that fit_queue [OF fit] fit_active [OF fit] old unfolding known_def by metis
  show "distinct A" "\<And>q. distinct (map fst (queue_of s q))" using fit_distinct [OF fit] by simp_all
  show "waiting ((h @ [j]) ! x) \<and> job_queueName ((h @ [j]) ! x) = q \<and> held (h @ [j]) s x"
    if "x \<in> fst ` set (queue_of s q)" for q x
    using fit_queue [OF fit that] old held by metis
  show "taken ((h @ [j]) ! x) \<and> map_get (ms_unsettled s) (job_queueName ((h @ [j]) ! x)) \<noteq> None \<and> held (h @ [j]) s x"
    if "x \<in> set A" for x
    using fit_active [OF fit that] old held by metis
  show "a = b" if "known (h @ [j]) s A a" "known (h @ [j]) s A b" "job_id ((h @ [j]) ! a) = job_id ((h @ [j]) ! b)" for a b
    using fit_inj [OF fit known [OF that(1)] known [OF that(2)]] that(3)
      old [OF known_fit [OF fit known [OF that(1)]]] old [OF known_fit [OF fit known [OF that(2)]]] by simp
  show "x < length (h @ [j]) \<and> job_id ((h @ [j]) ! x) = Some i" if "map_get (ms_jobs s) i = Some x" for i x
    using fit_stored [OF fit that] by (simp add: nth_append)
qed

section \<open>The operations of the in-memory store\<close>

lemma mem_update_Inr:
  assumes "mem_update r t (h, s) = Inr (h', s')"
  shows "h' = h \<and> (let s1 = removeFromUnsettled r (h, s); n = job_queueName (h ! r);
      s2 = (if waiting (h ! r) then s1\<lparr>ms_unsettled := map_set n ((r, t) # queue_of s1 n) (ms_unsettled s1)\<rparr> else s1)
    in s' = s2\<lparr>ms_jobs := map_set (the (job_id (h ! r))) r (ms_jobs s2)\<rparr>)"
  using assms by (auto simp: mem_update_def Let_def waiting_def queue_of_def split: if_split_asm option.split_asm)

lemma alone_active:
  "mem_fit h s A \<Longrightarrow> known h s A r \<Longrightarrow> known h s A x \<Longrightarrow> job_id (h ! x) = job_id (h ! r) \<Longrightarrow> x = r"
  by (rule fit_inj)

text \<open>An update of a job that is not queued, with no other known job of its id.\<close>

lemma fit_update:
  assumes fit: "mem_fit h s A" and run: "mem_update r t (h, s) = Inr (h', s')" and r: "held h s r"
    and out: "\<And>q. r \<notin> fst ` set (queue_of s q)" and idle: "waiting (h ! r) \<Longrightarrow> r \<notin> set A"
    and alone: "\<And>x. known h s A x \<Longrightarrow> job_id (h ! x) = job_id (h ! r) \<Longrightarrow> x = r"
  shows "mem_fit h' s' A"
proof -
  let ?n = "job_queueName (h ! r)"
  let ?s1 = "removeFromUnsettled r (h, s)"
  have len: "r < length h" using r by (simp add: held_def)
  have own: "x = r" if x: "x \<in> fst ` set (queue_of s ?n)" and id: "job_id (h ! x) = job_id (h ! r)" for x
    using alone [of x] fit_queue [OF fit x] x id by (simp add: known_def)
  have none: "filter (\<lambda>x. fst x \<noteq> r) (queue_of s ?n) = queue_of s ?n"
    using out [of ?n] by (intro filter_True) auto
  have s1: "queue_of ?s1 = queue_of s" "ms_jobs ?s1 = ms_jobs s"
    "\<And>q. map_get (ms_unsettled ?s1) q = None \<longleftrightarrow> map_get (ms_unsettled s) q = None"
    using remove_unsettled [OF fit refl refl len own] by (auto simp: none)
  have fit1: "mem_fit h ?s1 A" by (rule fit_cong [OF fit s1])
  have held1: "held h ?s1 r" using r by (simp add: held_def s1)
  have alone1: "x = r" if "known h ?s1 A x" "job_id (h ! x) = job_id (h ! r)" for x
    using alone that by (simp add: known_def s1)
  define s2 where "s2 = (if waiting (h ! r) then ?s1\<lparr>ms_unsettled := map_set ?n ((r, t) # queue_of ?s1 ?n) (ms_unsettled ?s1)\<rparr> else ?s1)"
  have fit2: "mem_fit h s2 A"
  proof (cases "waiting (h ! r)")
    case True
    have "distinct (map fst ((r, t) # queue_of ?s1 ?n))" using fit_distinct(2) [OF fit1] out by (simp add: s1)
    then show ?thesis using True fit_push [OF fit1 held1 True idle [OF True] alone1] by (simp add: s2_def)
  qed (simp add: s2_def fit1)
  have alone2: "x = r" if "known h s2 A x" "job_id (h ! x) = job_id (h ! r)" for x
  proof -
    have "known h ?s1 A x \<or> x = r" using that(1) by (fastforce simp: s2_def known_def split: if_split_asm)
    then show ?thesis using alone1 that(2) by blast
  qed
  obtain i where i: "job_id (h ! r) = Some i" using r by (auto simp: held_def)
  have "h' = h \<and> s' = s2\<lparr>ms_jobs := map_set i r (ms_jobs s2)\<rparr>"
    using mem_update_Inr [OF run] i by (simp add: s2_def Let_def)
  then show ?thesis using mem_fit_jobs [OF fit2, of i r] alone2 i len by auto
qed

definition mem_polling :: "backoff \<Rightarrow> mem_store polling_store" where
  "mem_polling backOff = \<lparr>ps_next = (\<lambda>q t hs. Inr (mem_next backOff [] q t hs)), ps_update = mem_update,
     ps_findOne = (\<lambda>i t hs. Inr (mem_findOne i t hs))\<rparr>"

text \<open>Others add new jobs under a new id, cancel jobs and have settled ones removed.\<close>

inductive mem_outside :: "nat list \<Rightarrow> mem_state \<Rightarrow> mem_state \<Rightarrow> bool" where
  add: "hs' = mem_add setRetries random t j (h, s) \<Longrightarrow> job_id j = None \<Longrightarrow> Some random \<notin> job_id ` set h \<Longrightarrow>
     job_state j = Job_PENDING \<Longrightarrow> job_attempts j = 0 \<Longrightarrow> (\<And>q j. 0 \<le> setRetries q j) \<Longrightarrow> mem_outside A (h, s) hs'"
| cancel: "mem_cancelJob i t (h, s) = Inr (found, hs') \<Longrightarrow> mem_outside A (h, s) hs'"
| remove: "hs' = snd (mem_removeSettledJobs queueNames olderThan (h, s)) \<Longrightarrow> mem_outside A (h, s) hs'"

lemma mem_fit_add:
  assumes fit: "mem_fit h s A" and j: "job_id j = None" "job_state j = Job_PENDING" "job_attempts j = 0"
    and fresh: "Some random \<notin> job_id ` set h" and retries: "\<And>q j. 0 \<le> setRetries q j"
    and run: "mem_add setRetries random t j (h, s) = (h', s')"
  shows "mem_fit h' s' A"
proof -
  define j2 where "j2 = j\<lparr>job_id := Some random, job_retries := setRetries (job_queueName j) (j\<lparr>job_id := Some random\<rparr>)\<rparr>"
  let ?r = "length h" and ?n = "job_queueName j"
  have h': "h' = h @ [j2]" and s': "s' = s\<lparr>ms_jobs := map_set random ?r (ms_jobs s),
      ms_unsettled := map_set ?n (queue_of s ?n @ [(?r, t)]) (ms_unsettled s)\<rparr>"
    using run j(1) by (simp_all add: mem_add_def Let_def j2_def queue_of_def)
  have at: "(h @ [j2]) ! ?r = j2" by simp
  have id2: "job_id j2 = Some random" "job_queueName j2 = ?n" by (simp_all add: j2_def)
  have fit1: "mem_fit (h @ [j2]) s A" by (rule fit_extend [OF fit])
  have other: "x = ?r" if "known (h @ [j2]) s A x" "job_id ((h @ [j2]) ! x) = Some random" for x
  proof (rule ccontr)
    assume "x \<noteq> ?r"
    moreover have "x < length (h @ [j2])" using known_fit [OF fit1 that(1)] by (simp add: held_def)
    ultimately have "x < length h" by simp
    then have "job_id (h ! x) = Some random" "h ! x \<in> set h" using that(2) by (simp_all add: nth_append)
    then have "Some random \<in> job_id ` set h" by (metis image_eqI)
    then show False using fresh by simp
  qed
  have fit2: "mem_fit (h @ [j2]) (s\<lparr>ms_jobs := map_set random ?r (ms_jobs s)\<rparr>) A" (is "mem_fit _ ?s2 A")
    by (rule mem_fit_jobs [OF fit1 other]) (simp_all add: id2)
  have "held (h @ [j2]) ?s2 ?r"
    using retries j by (simp add: held_def id2 map_get_set) (simp add: j2_def attempts_ok_def)
  moreover have "waiting ((h @ [j2]) ! ?r)" using j by (simp add: waiting_def j2_def)
  moreover have away: "?r \<notin> set A" "?r \<notin> fst ` set (queue_of s ?n)"
    using known_fit [OF fit] fit_queue [OF fit] fit_active [OF fit] by (auto simp: held_def) (metis fst_conv image_eqI less_irrefl)
  moreover have "distinct (map fst (queue_of s ?n @ [(?r, t)]))" using fit_distinct(2) [OF fit] away by simp
  moreover have "x = ?r" if "known (h @ [j2]) ?s2 A x" "job_id ((h @ [j2]) ! x) = job_id ((h @ [j2]) ! ?r)" for x
    using other [of x] that by (simp add: known_def id2)
  ultimately have "mem_fit (h @ [j2]) (?s2\<lparr>ms_unsettled := map_set (job_queueName ((h @ [j2]) ! ?r)) (queue_of s ?n @ [(?r, t)]) (ms_unsettled ?s2)\<rparr>) A"
    by (intro fit_push [OF fit2]) (auto simp: id2)
  then show ?thesis by (simp add: h' s' id2)
qed

lemma mem_fit_cancel:
  assumes fit: "mem_fit h s A" and run: "mem_cancelJob i t (h, s) = Inr (found, h', s')"
  shows "mem_fit h' s' A"
proof (cases "map_get (ms_jobs s) i")
  case None
  then show ?thesis using run fit by (simp add: mem_cancelJob_def)
next
  case (Some r)
  let ?j = "job_cancel t (h ! r)" and ?n = "job_queueName (h ! r)"
  have upd: "mem_update r t (h[r := ?j], s) = Inr (h', s')"
    using run Some by (auto simp: mem_cancelJob_def bind_result_Inr Let_def)
  have len: "r < length h" and id: "job_id (h ! r) = Some i" using fit_stored [OF fit Some] by simp_all
  have own: "x = r" if k: "known h s A x" and x: "job_id (h ! x) = job_id (h ! r)" for x
    using known_fit [OF fit k] x id Some by (auto simp: held_def)
  have own_queue: "x = r" if "x \<in> fst ` set (queue_of s ?n)" "job_id (h ! x) = job_id (h ! r)" for x
    using own [of x] that fit_queue [OF fit that(1)] by (simp add: known_def)
  have same: "job_id ?j = job_id (h ! r)" "job_queueName ?j = ?n" by (simp_all add: job_cancel_def)
  define s1 where "s1 = removeFromUnsettled r (h[r := ?j], s)"
  have s1: "queue_of s1 = (queue_of s)(?n := filter (\<lambda>x. fst x \<noteq> r) (queue_of s ?n))" "ms_jobs s1 = ms_jobs s"
    "\<And>q. map_get (ms_unsettled s1) q = None \<longleftrightarrow> map_get (ms_unsettled s) q = None"
    using remove_unsettled [OF fit same len own_queue] unfolding s1_def by blast+
  have fit1: "mem_fit h s1 A" by (rule fit_unqueue [OF fit s1])
  have out: "r \<notin> fst ` set (queue_of s1 q)" for q
  proof (cases "q = ?n")
    case False
    then show ?thesis using fit_queue [OF fit, of r q] unfolding s1(1) by auto
  qed (simp add: s1(1) image_iff)
  have fit2: "mem_fit (h[r := ?j]) s1 A"
  proof (rule fit_change [OF fit1 same out])
    assume "r \<in> set A"
    then show "taken ?j \<and> attempts_ok ?j"
      using fit_active [OF fit] by (auto simp: taken_def attempts_ok_def job_cancel_def held_def)
  qed
  have "h' = h[r := ?j] \<and> s' = s1\<lparr>ms_jobs := map_set i r (ms_jobs s1)\<rparr>"
    using mem_update_Inr [OF upd] len id by (simp add: s1_def waiting_def job_cancel_def Let_def)
  moreover have "x = r" if "known (h[r := ?j]) s1 A x" "job_id (h[r := ?j] ! x) = Some i" for x
    using known_fit [OF fit2 that(1)] that(2) Some by (auto simp: held_def s1)
  ultimately show ?thesis
    using mem_fit_jobs [OF fit2, of i r] len id by (auto simp: job_cancel_def)
qed

lemma mem_fit_remove:
  assumes fit: "mem_fit h s A" and run: "snd (mem_removeSettledJobs queueNames olderThan (h, s)) = (h', s')"
  shows "mem_fit h' s' A"
proof -
  obtain ks where s': "h' = h" "s' = s\<lparr>ms_jobs := fold map_delete ks (ms_jobs s)\<rparr>"
    using run by (auto simp: mem_removeSettledJobs_def Let_def fold_map [symmetric, unfolded comp_def])
  have sub: "map_get (fold map_delete ks m) i = Some x \<Longrightarrow> map_get m i = Some x" for m :: "(ID, nat) js_map" and i x
    by (induction ks arbitrary: m) (force simp: map_get_delete split: if_split_asm)+
  have kept: "map_get (ms_jobs s) i = Some y" if "map_get (ms_jobs s') i = Some y" for i y
    using sub [of "ms_jobs s" i y] that by (simp add: s'(2))
  have held: "held h s' x" if old: "held h s x" for x
  proof -
    obtain i where i: "job_id (h ! x) = Some i" "\<forall>y. map_get (ms_jobs s) i = Some y \<longrightarrow> y = x"
      using old unfolding held_def by blast
    then have "\<forall>y. map_get (ms_jobs s') i = Some y \<longrightarrow> y = x" using kept by blast
    then show ?thesis using old i(1) by (simp add: held_def)
  qed
  show ?thesis unfolding s'(1)
  proof (rule mem_fitI)
    have known: "known h s' A x = known h s A x" for x by (simp add: known_def s')
    show "distinct A" "\<And>q. distinct (map fst (queue_of s' q))" using fit_distinct [OF fit] by (simp_all add: s')
    show "waiting (h ! x) \<and> job_queueName (h ! x) = q \<and> held h s' x" if "x \<in> fst ` set (queue_of s' q)" for q x
      using fit_queue [OF fit, of x q] that held by (simp add: s')
    show "taken (h ! x) \<and> map_get (ms_unsettled s') (job_queueName (h ! x)) \<noteq> None \<and> held h s' x" if "x \<in> set A" for x
      using fit_active [OF fit that] held by (simp add: s')
    show "\<And>a b. known h s' A a \<Longrightarrow> known h s' A b \<Longrightarrow> job_id (h ! a) = job_id (h ! b) \<Longrightarrow> a = b"
      using fit_inj [OF fit] known by simp
    show "x < length h \<and> job_id (h ! x) = Some i" if "map_get (ms_jobs s') i = Some x" for i x
      by (rule fit_stored [OF fit kept [OF that]])
  qed
qed

lemma mem_fit_next:
  assumes fit: "mem_fit h s A" and run: "mem_next backOff [] q t (h, s) = (found, h', s')"
  shows "mem_fit h' s' (A @ (case found of None \<Rightarrow> [] | Some r \<Rightarrow> [r]))"
proof (cases "map_get (ms_unsettled s) q")
  case None
  then show ?thesis using fit run by (simp add: mem_next_def)
next
  case (Some items)
  then have items: "queue_of s q = items" by (simp add: queue_of_def)
  show ?thesis
  proof (cases "split_next [] items")
    case None
    then show ?thesis using fit run Some by (simp add: mem_next_def)
  next
    case parts: (Some p)
    obtain us r u vs where p: "p = (us, (r, u), vs)" by (cases p) auto
    have split: "items = us @ (r, u) # vs" using split_next_Some parts p by blast
    have r: "r \<in> fst ` set (queue_of s q)" by (simp add: items split)
    note own = fit_queue [OF fit r]
    have d: "distinct (map fst items)" using fit_distinct(2) [OF fit, of q] items by simp
    have rest: "us @ vs = filter (\<lambda>x. fst x \<noteq> r) items"
    proof -
      have "\<forall>x \<in> set us. fst x \<noteq> r" "\<forall>x \<in> set vs. fst x \<noteq> r" using d by (auto simp: split image_iff)
      then have "filter (\<lambda>x. fst x \<noteq> r) us = us" "filter (\<lambda>x. fst x \<noteq> r) vs = vs" by (simp_all add: filter_id_conv)
      then show ?thesis by (simp add: split)
    qed
    define s1 where "s1 = s\<lparr>ms_unsettled := map_set q (us @ vs) (ms_unsettled s)\<rparr>"
    have s1: "queue_of s1 = (queue_of s)(q := filter (\<lambda>x. fst x \<noteq> r) (queue_of s q))" "ms_jobs s1 = ms_jobs s"
      "\<And>n. map_get (ms_unsettled s1) n = None \<longleftrightarrow> map_get (ms_unsettled s) n = None"
      using Some by (auto simp: s1_def rest items map_get_set)
    have fit1: "mem_fit h s1 A" by (rule fit_unqueue [OF fit s1])
    have held1: "held h s1 r" using own by (simp add: held_def s1(2))
    have idle: "r \<notin> set A" using active_not_queued [OF fit] r by blast
    have alone: "x = r" if k: "known h s1 A x" and x: "job_id (h ! x) = job_id (h ! r)" for x
    proof -
      have "known h s A x" using k by (auto simp: known_def s1(1) split: if_split_asm)
      moreover have "known h s A r" using r own by (simp add: known_def)
      ultimately show ?thesis using fit_inj [OF fit] x by blast
    qed
    show ?thesis
    proof (cases "backing_off backOff q (h ! r) u t")
      case True
      then have res: "found = None" "h' = h" "s' = s\<lparr>ms_unsettled := map_set q (us @ vs @ [(r, u)]) (ms_unsettled s)\<rparr>"
        using run Some parts p by (simp_all add: mem_next_def Let_def)
      have "mem_fit h (s1\<lparr>ms_unsettled := map_set q (us @ vs @ [(r, u)]) (ms_unsettled s1)\<rparr>) A"
      proof -
        have n: "job_queueName (h ! r) = q" and w: "waiting (h ! r)" using own by blast+
        have "queue_of s1 q = us @ vs" by (simp add: s1_def)
        then have "fst ` set (us @ vs @ [(r, u)]) = insert r (fst ` set (queue_of s1 (job_queueName (h ! r))))" by (simp add: n)
        moreover have "distinct (map fst (us @ vs @ [(r, u)]))" using d by (auto simp: split)
        ultimately show ?thesis using fit_push [OF fit1 held1 w idle alone, of "us @ vs @ [(r, u)]"] unfolding n by blast
      qed
      moreover have "map_set q xs (map_set q ys m) = map_set q xs m" for xs ys :: "(nat \<times> int) list" and m
        by (induction m) auto
      ultimately show ?thesis using res by (simp add: s1_def)
    next
      case False
      let ?j = "job_start t (h ! r)"
      have res: "found = Some r" "h' = h[r := ?j]" "s' = s1"
        using False run Some parts p by (simp_all add: mem_next_def Let_def s1_def)
      have same: "job_id ?j = job_id (h ! r)" "job_queueName ?j = job_queueName (h ! r)" by (simp_all add: job_start_def)
      have out: "r \<notin> fst ` set (queue_of s1 n)" for n
      proof (cases "n = q")
        case False
        then show ?thesis using fit_queue [OF fit, of r n] own unfolding s1(1) by auto
      qed (simp add: s1(1) image_iff)
      have fit2: "mem_fit (h[r := ?j]) s1 A" by (rule fit_change [OF fit1 same out]) (simp add: idle)
      have len: "r < length h" using own by (simp add: held_def)
      have j: "attempts_ok ?j" "taken ?j" using start_ok [of "h ! r" t] own by (auto simp: held_def taken_def)
      have "mem_fit (h[r := ?j]) s1 (A @ [r])"
      proof (rule fit_activate [OF fit2 _ _ idle])
        show "held (h[r := ?j]) s1 r" by (rule held_change [OF held1 same(1)]) (rule j)
        show "taken (h[r := ?j] ! r)" using j len by simp
        show "map_get (ms_unsettled s1) (job_queueName (h[r := ?j] ! r)) \<noteq> None"
          using own len same Some by (simp add: s1(3))
        show "x = r" if k: "known (h[r := ?j]) s1 A x" and x: "job_id (h[r := ?j] ! x) = job_id (h[r := ?j] ! r)" for x
        proof -
          have "job_id (h[r := ?j] ! x) = job_id (h ! x)" "job_queueName (h[r := ?j] ! x) = job_queueName (h ! x)"
            using same len by (cases "x = r"; simp)+
          then show ?thesis using alone [of x] k x same len by (simp add: known_def)
        qed
      qed
      then show ?thesis by (simp add: res)
    qed
  qed
qed

interpretation mem: job_store "mem_polling backOff" mem_outside mem_fit for backOff
proof
  fix h s A q t found h' s'
  assume "mem_fit h s A" and "ps_next (mem_polling backOff) q t (h, s) = Inr (found, h', s')"
  then show "mem_fit h' s' (A @ (case found of None \<Rightarrow> [] | Some r \<Rightarrow> [r]))"
    by (intro mem_fit_next) (simp_all add: mem_polling_def)
next
  fix h s A r t h' s'
  assume fit: "mem_fit h s A" and r: "r \<in> set A" and "ps_update (mem_polling backOff) r t (h, s) = Inr (h', s')"
  then have run: "mem_update r t (h, s) = Inr (h', s')" by (simp add: mem_polling_def)
  have k: "known h s A r" using r by (simp add: known_def)
  show "mem_fit h' s' A"
    by (rule fit_update [OF fit run known_fit [OF fit k] active_not_queued [OF fit r] _ alone_active [OF fit k]])
      (use fit_active [OF fit r] taken_not_waiting in auto)
next
  fix h s A r j
  assume fit: "mem_fit h s A" and r: "r \<in> set A" and j: "in_process (h ! r) j"
  then show "mem_fit (h[r := j]) s A"
    using in_process_same [OF j] fit_active [OF fit r]
    by (intro fit_change [OF fit _ _ active_not_queued [OF fit r]]) (auto simp: held_def)
next
  fix h s A r j t h' s'
  assume fit: "mem_fit h s A" and r: "r \<in> set A" and j: "after_process (h ! r) j"
    and "ps_update (mem_polling backOff) r t (h[r := j], s) = Inr (h', s')"
  then have run: "mem_update r t (h[r := j], s) = Inr (h', s')" by (simp add: mem_polling_def)
  note fit1 = fit_release [OF fit, of r]
  have idle: "r \<notin> set (remove1 r A)" using fit_distinct(1) [OF fit] by simp
  have out: "r \<notin> fst ` set (queue_of s q)" for q by (rule active_not_queued [OF fit r])
  have held: "held h s r" using fit_active [OF fit r] by simp
  have same: "job_id j = job_id (h ! r)" "job_queueName j = job_queueName (h ! r)" "attempts_ok j"
    using after_process_same [OF j] fit_active [OF fit r] by (auto simp: held_def)
  have len: "r < length h" using held by (simp add: held_def)
  have fit2: "mem_fit (h[r := j]) s (remove1 r A)"
    by (rule fit_change [OF fit1 same(1,2) out]) (simp add: idle)
  show "mem_fit h' s' (remove1 r A)"
  proof (rule fit_update [OF fit2 run])
    show "held (h[r := j]) s r" by (rule held_change [OF held same(1)]) (rule same(3))
    show "x = r" if k: "known (h[r := j]) s (remove1 r A) x" and x: "job_id (h[r := j] ! x) = job_id (h[r := j] ! r)" for x
    proof (rule fit_inj [OF fit])
      have names: "job_id (h[r := j] ! x) = job_id (h ! x)" "job_queueName (h[r := j] ! x) = job_queueName (h ! x)"
        using same len by (cases "x = r"; simp)+
      show "known h s A x" using k set_remove1_subset [of r A] by (auto simp: known_def names)
      show "known h s A r" using r by (simp add: known_def)
      show "job_id (h ! x) = job_id (h ! r)" using x names same len by simp
    qed
  qed (use out idle in auto)
next
  fix h s A r j
  assume fit: "mem_fit h s A" and r: "r \<in> set A" and j: "after_process (h ! r) j"
  show "mem_fit (h[r := j]) s (remove1 r A)"
    using after_process_same [OF j] fit_distinct(1) [OF fit]
    by (intro fit_change [OF fit_release [OF fit] _ _ active_not_queued [OF fit r]]) auto
next
  fix h s A r
  assume "mem_fit h s A" "r \<in> set A"
  then show "mem_fit h s (remove1 r A)" by (intro fit_release)
next
  fix h s A h' s'
  assume fit: "mem_fit h s A" and "mem_outside A (h, s) (h', s')"
  from this(2) show "mem_fit h' s' A"
    by (cases rule: mem_outside.cases)
      (metis mem_fit_add [OF fit], metis mem_fit_cancel [OF fit], metis mem_fit_remove [OF fit])
next
  fix h s A
  assume fit: "mem_fit h s A"
  then have "inj_on (\<lambda>r. job_id (h ! r)) (set A)"
    by (intro inj_onI) (auto intro: fit_inj [OF fit] simp: known_def)
  then show "distinct (map (\<lambda>r. job_id (h ! r)) A) \<and> (\<forall>r \<in> set A. attempts_ok (h ! r))"
    using fit_distinct(1) [OF fit] fit_active [OF fit] by (auto simp: distinct_map held_def)
qed

section \<open>Properties\<close>

definition empty_worker :: "mem_store worker" where
  "empty_worker = \<lparr>wk_heap = [], wk_store = \<lparr>ms_jobs = [], ms_unsettled = []\<rparr>, activeJobs = []\<rparr>"


section \<open>A process that always fails\<close>

text \<open>One round: the queue is polled, and the process of the job that was taken, if any, is rejected.\<close>

definition failing_round :: "string \<Rightarrow> string \<Rightarrow> int \<Rightarrow> mem_store worker \<Rightarrow> mem_store worker" where
  "failing_round q e t w =
     (let w1 = poll (mem_polling None) q 1 t w
      in case activeJobs w1 of [] \<Rightarrow> w1 | r # rs \<Rightarrow> onFailOrComplete (mem_polling None) r (Rejected e) t w1)"

text \<open>A queue whose only job it is.\<close>

definition lone :: "job \<Rightarrow> ID \<Rightarrow> int \<Rightarrow> mem_store worker" where
  "lone j i u = \<lparr>wk_heap = [j],
     wk_store = \<lparr>ms_jobs = [(i, 0)], ms_unsettled = [(job_queueName j, if waiting j then [(0, u)] else [])]\<rparr>,
     activeJobs = []\<rparr>"

lemma lone_round:
  assumes "job_id j = Some i" and "waiting j"
  shows "failing_round (job_queueName j) e t (lone j i u) = lone (job_fail e t (job_start t j)) i t"
  using assms
  by (simp add: failing_round_def poll_def lone_def mem_polling_def mem_next_def backing_off_def mem_update_def
      removeFromUnsettled_def onFailOrComplete_def persist_def change_job_def settle_job_def Let_def
      job_start_def job_fail_def waiting_def split: if_split)

lemma lone_stop:
  assumes "\<not> waiting j"
  shows "failing_round (job_queueName j) e t (lone j i u) = lone j i u"
  using assms by (simp add: failing_round_def poll_def lone_def mem_polling_def mem_next_def Let_def)

lemma lone_rounds:
  assumes "job_id j = Some i" and "attempts_ok j" and "waiting j \<or> job_state j = Job_FAILED \<and> job_settledAt j \<noteq> None"
    and "job_state j = Job_FAILED \<longrightarrow> job_attempts j = job_retries j + 1"
  shows "\<exists>j' u'. fold (failing_round (job_queueName j) e) ts (lone j i u) = lone j' i u' \<and>
    job_attempts j' = min (job_attempts j + int (length ts)) (job_retries j + 1) \<and>
    (job_retries j < job_attempts j + int (length ts) \<longrightarrow> isSettled j' \<and> job_state j' = Job_FAILED) \<and>
    (job_attempts j + int (length ts) \<le> job_retries j \<longrightarrow> waiting j')"
  using assms
proof (induction ts arbitrary: j u)
  case Nil
  then show ?case by (auto simp: attempts_ok_def waiting_def isSettled_def intro!: exI)
next
  case (Cons t ts)
  show ?case
  proof (cases "waiting j")
    case True
    let ?j = "job_fail e t (job_start t j)"
    have ok: "attempts_ok (job_start t j)" "job_state (job_start t j) = Job_RUNNING" using start_ok [OF True Cons.prems(2)] by simp_all
    have after: "job_id ?j = Some i" "job_queueName ?j = job_queueName j" "job_retries ?j = job_retries j"
      "job_attempts ?j = job_attempts j + 1"
      using True Cons.prems(1) by (auto simp: job_fail_def job_start_def waiting_def Let_def)
    have state: "waiting ?j \<or> job_state ?j = Job_FAILED \<and> job_settledAt ?j \<noteq> None"
      "job_state ?j = Job_FAILED \<longrightarrow> job_attempts ?j = job_retries ?j + 1" "attempts_ok ?j"
      using ok by (auto simp: job_fail_def Let_def waiting_def attempts_ok_def)
    show ?thesis
      using Cons.IH [OF after(1) state(3,1,2), of t] lone_round [OF Cons.prems(1) True] after by (simp add: add.assoc)
  next
    case False
    then have failed: "job_state j = Job_FAILED" using Cons.prems(3) by blast
    then have "job_attempts j = job_retries j + 1" using Cons.prems(4) by blast
    then show ?thesis
      using Cons.IH [OF Cons.prems, of u] lone_stop [OF False] by auto
  qed
qed

text \<open>
  C34: A job whose process always fails is given up in the end, and not before: with \<open>n\<close> retries it is run
  exactly \<open>n + 1\<close> times, waits after each but the last, is then settled as failed, and further polls
  leave it alone.
\<close>

theorem failing_job_given_up:
  assumes "job_id j = Some i" and "job_state j = Job_PENDING" and "job_attempts j = 0" and "job_retries j = int n"
  shows "\<exists>j' u'. fold (failing_round (job_queueName j) e) ts (lone j i u) = lone j' i u' \<and>
    job_attempts j' = int (min (length ts) (n + 1)) \<and>
    (if n < length ts then isSettled j' \<and> job_state j' = Job_FAILED else waiting j')"
  using lone_rounds [OF assms(1), of e ts u] assms by (force simp: attempts_ok_def waiting_def)

text \<open>
  A job that was cancelled while it was processed and whose process then fails is not cancelled any more: with
  retries left it goes back to the queue, still with the time it was settled at.
\<close>

lemma cancelled_job_is_retried:
  "(let j = sample_job Job_PENDING 0 2;
        w0 = \<lparr>wk_heap = [], wk_store = \<lparr>ms_jobs = [], ms_unsettled = []\<rparr>, activeJobs = []\<rparr>;
        (h, s) = mem_add (\<lambda>q j. job_retries j) 7 5 j (wk_heap w0, wk_store w0);
        w1 = poll (mem_polling None) ''mail'' 1 10 (w0\<lparr>wk_heap := h, wk_store := s\<rparr>);
        (h', s') = (case mem_cancelJob 7 20 (wk_heap w1, wk_store w1) of Inr (found, hs) \<Rightarrow> hs | Inl e \<Rightarrow> (h, s));
        w2 = onFailOrComplete (mem_polling None) 0 (Rejected ''aborted'') 30 (w1\<lparr>wk_heap := h', wk_store := s'\<rparr>);
        w3 = poll (mem_polling None) ''mail'' 1 40 w2
    in job_state (h' ! 0) = Job_CANCELLED \<and> job_state (wk_heap w2 ! 0) = Job_RETRYING \<and>
       job_settledAt (wk_heap w2 ! 0) = Some 20 \<and> activeJobs w3 = [0] \<and> job_state (wk_heap w3 ! 0) = Job_RUNNING)"
  by code_simp

section \<open>Runs of the sample job\<close>

definition sample_added :: "mem_store worker" where
  "sample_added = (let (h, s) = mem_add (\<lambda>q j. 2) 7 5 (sample_job Job_PENDING 0 2) ([], wk_store empty_worker)
     in empty_worker\<lparr>wk_heap := h, wk_store := s\<rparr>)"


theorem failing_job_given_up_witness:
  "\<exists>j' u'. fold (failing_round ''mail'' ''down'') [10, 20, 30, 40] (lone ((sample_job Job_PENDING 0 2)\<lparr>job_id := Some 7\<rparr>) 7 5) = lone j' 7 u' \<and>
    job_attempts j' = 3 \<and> job_state j' = Job_FAILED"
  using failing_job_given_up [of "(sample_job Job_PENDING 0 2)\<lparr>job_id := Some 7\<rparr>" 7 2 "''down''" "[10, 20, 30, 40]" 5]
  by (auto simp: sample_job_def)

end
