(* ===== verification/JobBuffers.thy ===== *)
theory JobBuffers
  imports Jobs
begin

text \<open>
  Buffering of jobs before they reach the queue: both storage strategies,
  \<^verbatim>\<open>JobBufferService\<close>, and what \<^verbatim>\<open>JobQueue.add\<close> and
  \<^verbatim>\<open>JobQueueService\<close> make of them. A buffer says which jobs it collects and how it reduces
  them; reducing may throw. Every job that is added is a new instance, so a set of jobs is a list.
\<close>

section \<open>Storage\<close>

type_synonym buffer_storage = "(string, job list) js_map"

definition mem_buffer_add :: "string \<Rightarrow> job \<Rightarrow> buffer_storage \<Rightarrow> buffer_storage" where
  "mem_buffer_add bufferId j st = map_set bufferId (nullish (map_get st bufferId) [] @ [j]) st"

definition mem_bufferSize :: "string list option \<Rightarrow> buffer_storage \<Rightarrow> (string, nat) js_map" where
  "mem_bufferSize bufferIds st =
     fold (\<lambda>i. map_set i (case map_get st i of None \<Rightarrow> 0 | Some js \<Rightarrow> length js)) (nullish bufferIds (map fst st)) []"

definition mem_flush_one :: "string \<Rightarrow> (string, job list) js_map \<times> buffer_storage \<Rightarrow> (string, job list) js_map \<times> buffer_storage" where
  "mem_flush_one i rs =
     (map_set i (nullish (map_get (snd rs) i) []) (fst rs),
      if map_get (snd rs) i = None then snd rs else map_set i [] (snd rs))"

definition mem_flush :: "string list option \<Rightarrow> buffer_storage \<Rightarrow> (string, job list) js_map \<times> buffer_storage" where
  "mem_flush bufferIds st = fold mem_flush_one (nullish bufferIds (map fst st)) ([], st)"

text \<open>The SQL storage has a row for every buffered job; an empty list of ids selects all rows.\<close>

type_synonym buffer_rows = "(string \<times> job) list"

definition selected :: "string list option \<Rightarrow> string \<Rightarrow> bool" where
  "selected bufferIds i \<longleftrightarrow> (case bufferIds of None \<Rightarrow> True | Some is \<Rightarrow> is = [] \<or> i \<in> set is)"

definition sql_buffer_add :: "string \<Rightarrow> job \<Rightarrow> buffer_rows \<Rightarrow> buffer_rows" where
  "sql_buffer_add bufferId j rows = rows @ [(bufferId, j)]"

definition sql_bufferSize :: "string list option \<Rightarrow> buffer_rows \<Rightarrow> (string, nat) js_map" where
  "sql_bufferSize bufferIds rows =
     (let counted = filter (selected bufferIds) (remdups (map fst rows))
      in if bufferIds = None then []
         else fold (\<lambda>i. map_set i (length (filter (\<lambda>r. fst r = i) rows))) counted [])"

definition sql_flush :: "string list option \<Rightarrow> buffer_rows \<Rightarrow> (string, job list) js_map \<times> buffer_rows" where
  "sql_flush bufferIds rows =
     (fold (\<lambda>r m. map_set (fst r) (nullish (map_get m (fst r)) [] @ [snd r]) m) (filter (\<lambda>r. selected bufferIds (fst r)) rows) [],
      filter (\<lambda>r. \<not> selected bufferIds (fst r)) rows)"

section \<open>The buffer service\<close>

record job_buffer =
  buf_id :: string
  buf_collect :: "job \<Rightarrow> bool"
  buf_reduce :: "job list \<Rightarrow> job list option"

record 'st buffer_strategy =
  bs_add :: "string \<Rightarrow> job \<Rightarrow> 'st \<Rightarrow> 'st"
  bs_size :: "string list option \<Rightarrow> 'st \<Rightarrow> (string, nat) js_map"
  bs_flush :: "string list option \<Rightarrow> 'st \<Rightarrow> (string, job list) js_map \<times> 'st"

definition mem_buffers :: "buffer_storage buffer_strategy" where
  "mem_buffers = \<lparr>bs_add = mem_buffer_add, bs_size = mem_bufferSize, bs_flush = mem_flush\<rparr>"

definition sql_buffers :: "buffer_rows buffer_strategy" where
  "sql_buffers = \<lparr>bs_add = sql_buffer_add, bs_size = sql_bufferSize, bs_flush = sql_flush\<rparr>"

definition addBuffer :: "job_buffer \<Rightarrow> job_buffer list \<Rightarrow> job_buffer list result" where
  "addBuffer buffer buffers =
     (if List.find (\<lambda>p. buf_id p = buf_id buffer) buffers \<noteq> None
      then Inl (InternalServerError ''There is already a JobBufferProcessor with the id'')
      else Inr (buffers @ [buffer]))"

text \<open>Buffers are removed by identity; their ids are unique.\<close>

definition removeBuffer :: "job_buffer \<Rightarrow> job_buffer list \<Rightarrow> job_buffer list" where
  "removeBuffer buffer buffers = filter (\<lambda>p. buf_id p \<noteq> buf_id buffer) buffers"

definition buffer_add :: "'st buffer_strategy \<Rightarrow> job_buffer list \<Rightarrow> job \<Rightarrow> 'st \<Rightarrow> bool \<times> 'st" where
  "buffer_add strategy buffers j st =
     fold (\<lambda>b (collected, st). if buf_collect b j then (True, bs_add strategy (buf_id b) j st) else (collected, st))
       buffers (False, st)"

definition service_bufferSize :: "'st buffer_strategy \<Rightarrow> job_buffer list \<Rightarrow> string list option \<Rightarrow> 'st \<Rightarrow> (string, nat) js_map" where
  "service_bufferSize strategy buffers forBuffers st =
     bs_size strategy (Some (nullish forBuffers (map buf_id buffers))) st"

text \<open>What a buffer hands to the queue; when reducing throws, its jobs as they are.\<close>

definition jobs_to_add :: "(string, job list) js_map \<Rightarrow> job_buffer \<Rightarrow> job list" where
  "jobs_to_add flushResult b =
     (case map_get flushResult (buf_id b) of
        None \<Rightarrow> [] | Some [] \<Rightarrow> [] | Some js \<Rightarrow> nullish (buf_reduce b js) js)"

definition service_flush :: "'st buffer_strategy \<Rightarrow> job_buffer list \<Rightarrow> string list option \<Rightarrow> 'st \<Rightarrow> job list \<times> 'st" where
  "service_flush strategy buffers forBuffers st =
     (case bs_flush strategy (Some (nullish forBuffers (map buf_id buffers))) st of
        (flushResult, st') \<Rightarrow> (concat (map (jobs_to_add flushResult) buffers), st'))"

section \<open>The queue and the queue service\<close>

text \<open>A job goes to the buffers that collect it, or to the queue when none does.\<close>

definition job_queue_add ::
  "'st buffer_strategy \<Rightarrow> job_buffer list \<Rightarrow> (job \<Rightarrow> 'q \<Rightarrow> 'q) \<Rightarrow> string \<Rightarrow> js_value \<Rightarrow> int option \<Rightarrow> int \<Rightarrow>
     'st \<times> 'q \<Rightarrow> 'st \<times> 'q" where
  "job_queue_add strategy buffers enqueue name data retries time s =
     (let j = new_job \<lparr>jc_queueName = name, jc_data = data, jc_retries = Some (nullish retries 0), jc_attempts = None,
            jc_id = None, jc_state = None, jc_progress = None, jc_result = VUndefined, jc_error = None,
            jc_createdAt = None, jc_startedAt = None, jc_settledAt = None\<rparr> time
      in case buffer_add strategy buffers j (fst s) of
           (isBuffered, st) \<Rightarrow> (st, if isBuffered then snd s else enqueue j (snd s)))"

text \<open>The arguments of the service are variadic: no argument is an empty list.\<close>

definition jobQueueService_bufferSize :: "'st buffer_strategy \<Rightarrow> job_buffer list \<Rightarrow> string list \<Rightarrow> 'st \<Rightarrow> (string, nat) js_map" where
  "jobQueueService_bufferSize strategy buffers forBuffers = service_bufferSize strategy buffers (Some forBuffers)"

definition jobQueueService_flush :: "'st buffer_strategy \<Rightarrow> job_buffer list \<Rightarrow> string list \<Rightarrow> 'st \<Rightarrow> job list \<times> 'st" where
  "jobQueueService_flush strategy buffers forBuffers = service_flush strategy buffers (Some forBuffers)"

definition shouldStartQueue :: "string list \<Rightarrow> string \<Rightarrow> bool" where
  "shouldStartQueue activeQueues queueName \<longleftrightarrow> \<not> (0 < length activeQueues \<and> queueName \<notin> set activeQueues)"

section \<open>What a storage promises\<close>

definition no_duplicates :: "job_buffer list \<Rightarrow> bool" where
  "no_duplicates buffers \<longleftrightarrow> distinct (map buf_id buffers)"

text \<open>Read as the jobs of every buffer, adding appends to one buffer, and flushing takes the named ones out.\<close>

locale buffer_store =
  fixes strategy :: "'st buffer_strategy"
    and contents :: "'st \<Rightarrow> string \<Rightarrow> job list"
  assumes add_contents: "contents (bs_add strategy i j st) = (contents st)(i := contents st i @ [j])"
    and flush_result: "ids \<noteq> [] \<Longrightarrow> distinct ids \<Longrightarrow> i \<in> set ids \<Longrightarrow>
      nullish (map_get (fst (bs_flush strategy (Some ids) st)) i) [] = contents st i"
    and flush_rest: "ids \<noteq> [] \<Longrightarrow> distinct ids \<Longrightarrow> i \<notin> set ids \<Longrightarrow>
      nullish (map_get (fst (bs_flush strategy (Some ids) st)) i) [] = []"
    and flush_left: "ids \<noteq> [] \<Longrightarrow> distinct ids \<Longrightarrow>
      contents (snd (bs_flush strategy (Some ids) st)) i = (if i \<in> set ids then [] else contents st i)"
begin

lemma flush_exact:
  assumes "ids \<noteq> []" and "distinct ids" and "\<And>b. b \<in> set buffers \<Longrightarrow> buf_id b \<in> set ids \<Longrightarrow> buf_reduce b [] = Some []"
  shows "fst (service_flush strategy buffers (Some ids) st) =
      concat (map (\<lambda>b. if buf_id b \<in> set ids then nullish (buf_reduce b (contents st (buf_id b))) (contents st (buf_id b)) else []) buffers)
    \<and> contents (snd (service_flush strategy buffers (Some ids) st)) i = (if i \<in> set ids then [] else contents st i)"
proof -
  obtain r st' where run: "bs_flush strategy (Some ids) st = (r, st')" by (cases "bs_flush strategy (Some ids) st")
  have "jobs_to_add r b = (if buf_id b \<in> set ids then nullish (buf_reduce b (contents st (buf_id b))) (contents st (buf_id b)) else [])"
    if b: "b \<in> set buffers" for b
  proof -
    have "nullish (map_get r (buf_id b)) [] = (if buf_id b \<in> set ids then contents st (buf_id b) else [])"
      using flush_result [OF assms(1,2), of "buf_id b" st] flush_rest [OF assms(1,2), of "buf_id b" st] run by simp
    then show ?thesis using assms(3) [OF b]
      by (cases "map_get r (buf_id b)") (auto simp: jobs_to_add_def split: list.split)
  qed
  then show ?thesis using flush_left [OF assms(1,2), of st i] run by (simp add: service_flush_def cong: map_cong)
qed

end

lemma mem_flush_fold:
  "distinct ids \<Longrightarrow>
     (case fold mem_flush_one ids (r, st) of (r', st') \<Rightarrow>
        (\<forall>i. nullish (map_get r' i) [] = (if i \<in> set ids then nullish (map_get st i) [] else nullish (map_get r i) [])) \<and>
        (\<forall>i. nullish (map_get st' i) [] = (if i \<in> set ids then [] else nullish (map_get st i) [])))"
proof (induction ids arbitrary: r st)
  case (Cons k ids)
  obtain r1 st1 where one: "mem_flush_one k (r, st) = (r1, st1)" by (cases "mem_flush_one k (r, st)")
  have r1: "nullish (map_get r1 i) [] = (if i = k then nullish (map_get st k) [] else nullish (map_get r i) [])"
    and st1: "nullish (map_get st1 i) [] = (if i = k then [] else nullish (map_get st i) [])" for i
    using one by (auto simp: mem_flush_one_def map_get_set split: if_split_asm)
  show ?case
    using Cons.IH [of st1 r1] Cons.prems one r1 st1 by (auto split: prod.split prod.split_asm)
qed simp

interpretation mem_buffer: buffer_store mem_buffers "\<lambda>st i. nullish (map_get st i) []"
proof
  show "(\<lambda>k. nullish (map_get (bs_add mem_buffers i j st) k) []) =
      (\<lambda>k. nullish (map_get st k) [])(i := nullish (map_get st i) [] @ [j])" for i j st
    by (auto simp: mem_buffers_def mem_buffer_add_def map_get_set fun_eq_iff)
  fix ids :: "string list" and st i
  assume "distinct ids"
  note all = mem_flush_fold [OF this, of st "[]"]
  show "nullish (map_get (fst (bs_flush mem_buffers (Some ids) st)) i) [] = nullish (map_get st i) []" if "i \<in> set ids"
    using all that by (auto simp: mem_buffers_def mem_flush_def split: prod.split prod.split_asm)
  show "nullish (map_get (fst (bs_flush mem_buffers (Some ids) st)) i) [] = []" if "i \<notin> set ids"
    using all that by (auto simp: mem_buffers_def mem_flush_def split: prod.split prod.split_asm)
  show "nullish (map_get (snd (bs_flush mem_buffers (Some ids) st)) i) [] = (if i \<in> set ids then [] else nullish (map_get st i) [])"
    using all by (auto simp: mem_buffers_def mem_flush_def split: prod.split prod.split_asm)
qed

lemma sql_flush_fold:
  "nullish (map_get (fold (\<lambda>r m. map_set (fst r) (nullish (map_get m (fst r)) [] @ [snd r]) m) rows m) i) [] =
     nullish (map_get m i) [] @ map snd (filter (\<lambda>r. fst r = i) rows)"
  by (induction rows arbitrary: m) (auto simp: map_get_set)

interpretation sql_buffer: buffer_store sql_buffers "\<lambda>rows i. map snd (filter (\<lambda>r. fst r = i) rows)"
proof
  show "(\<lambda>k. map snd (filter (\<lambda>r. fst r = k) (bs_add sql_buffers i j st))) =
      (\<lambda>k. map snd (filter (\<lambda>r. fst r = k) st))(i := map snd (filter (\<lambda>r. fst r = i) st) @ [j])" for i j and st :: buffer_rows
    by (auto simp: sql_buffers_def sql_buffer_add_def fun_eq_iff)
  fix ids :: "string list" and st :: buffer_rows and i
  assume "ids \<noteq> []"
  then have sel: "selected (Some ids) k \<longleftrightarrow> k \<in> set ids" for k by (simp add: selected_def)
  have rows: "filter (\<lambda>r. fst r \<in> set ids \<and> fst r = i) st = (if i \<in> set ids then filter (\<lambda>r. fst r = i) st else [])"
    "filter (\<lambda>r. fst r \<notin> set ids \<and> fst r = i) st = (if i \<in> set ids then [] else filter (\<lambda>r. fst r = i) st)"
    by (auto intro!: filter_cong simp: filter_empty_conv)
  show "nullish (map_get (fst (bs_flush sql_buffers (Some ids) st)) i) [] = map snd (filter (\<lambda>r. fst r = i) st)" if "i \<in> set ids"
    using that rows by (simp add: sql_buffers_def sql_flush_def sql_flush_fold sel)
  show "nullish (map_get (fst (bs_flush sql_buffers (Some ids) st)) i) [] = []" if "i \<notin> set ids"
    using that rows by (simp add: sql_buffers_def sql_flush_def sql_flush_fold sel)
  show "map snd (filter (\<lambda>r. fst r = i) (snd (bs_flush sql_buffers (Some ids) st))) =
      (if i \<in> set ids then [] else map snd (filter (\<lambda>r. fst r = i) st))"
    using rows by (simp add: sql_buffers_def sql_flush_def sel)
qed

section \<open>What the buffers lose\<close>

text \<open>
  A flush of the service without arguments is documented to flush all buffers. It names none, so the in-memory
  storage flushes nothing and its sizes are empty, while the SQL storage flushes every row.
\<close>

lemma flush_without_arguments:
  "jobQueueService_flush mem_buffers buffers [] st = ([], st)" "jobQueueService_bufferSize mem_buffers buffers [] st = []"
  "snd (jobQueueService_flush sql_buffers buffers [] rows) = []"
proof -
  have "concat (map (jobs_to_add []) buffers) = []" by (induction buffers) (simp_all add: jobs_to_add_def)
  then show "jobQueueService_flush mem_buffers buffers [] st = ([], st)"
    by (simp add: jobQueueService_flush_def service_flush_def mem_buffers_def mem_flush_def)
  show "jobQueueService_bufferSize mem_buffers buffers [] st = []"
    by (simp add: jobQueueService_bufferSize_def service_bufferSize_def mem_buffers_def mem_bufferSize_def)
  show "snd (jobQueueService_flush sql_buffers buffers [] rows) = []"
    by (simp add: jobQueueService_flush_def service_flush_def sql_buffers_def sql_flush_def selected_def)
qed

text \<open>A buffer that is named twice loses its jobs in memory: the second turn finds it cleared.\<close>

lemma flush_twice_named_loses:
  "map_get st i = Some js \<Longrightarrow> fst (mem_flush (Some [i, i]) st) = [(i, [])] \<and> map_get (snd (mem_flush (Some [i, i]) st)) i = Some []"
  by (simp add: mem_flush_def mem_flush_one_def map_get_set)

end
