(* ===== verification/JobRedaction.thy ===== *)
theory JobRedaction
  imports Jobs Texts
begin

text \<open>
  What the Admin API shows of the data of a job (\<^verbatim>\<open>job-queue/redact-job-data.ts\<close>), with
  \<^verbatim>\<open>pick\<close> and \<^verbatim>\<open>omit\<close> of the common package, and the proof that no value of a sensitive
  key is left in it. Values are finite, so only the depth and the identities on the current path matter.
\<close>

section \<open>Objects\<close>

definition js_isObject :: "js_value \<Rightarrow> bool" where
  "js_isObject v \<longleftrightarrow> (case v of VObject i es t g \<Rightarrow> True | VDate s \<Rightarrow> True | _ \<Rightarrow> False)"

definition js_get :: "string \<Rightarrow> js_value \<Rightarrow> js_value" where
  "js_get k v = (case v of VObject i es t g \<Rightarrow> nullish (map_get es k) VUndefined | _ \<Rightarrow> VUndefined)"

definition js_pick :: "string list \<Rightarrow> js_value \<Rightarrow> js_value" where
  "js_pick props v = new_object (map (\<lambda>p. (p, js_get p v)) props)"

definition js_omit :: "string list \<Rightarrow> (string \<times> js_value) list \<Rightarrow> (string \<times> js_value) list" where
  "js_omit keysToOmit es = filter (\<lambda>e. fst e \<notin> set keysToOmit) es"

section \<open>Redaction\<close>

definition REDACTED_JOB_DATA_VALUE :: js_value where
  "REDACTED_JOB_DATA_VALUE = VStr ''[redacted]''"

definition SENSITIVE_KEYS :: "string list" where
  "SENSITIVE_KEYS = map toLowerCase
     [''passwordResetToken'', ''verificationToken'', ''identifierChangeToken'', ''passwordHash'', ''password'',
      ''newPassword'', ''currentPassword'', ''accessToken'', ''refreshToken'', ''apiKey'', ''secret'',
      ''clientSecret'', ''authorization'', ''cookie'']"

definition sensitive :: "string \<Rightarrow> bool" where
  "sensitive key \<longleftrightarrow> toLowerCase key \<in> set SENSITIVE_KEYS"

definition MAX_DEPTH :: nat where
  "MAX_DEPTH = 10"

text \<open>A value with a \<^verbatim>\<open>toJSON\<close> is first replaced by its answer; a date answers with text.\<close>

definition converted :: "js_value \<Rightarrow> js_value" where
  "converted v = (case v of VDate s \<Rightarrow> VStr s | VObject i es (Some answer) g \<Rightarrow> answer | _ \<Rightarrow> v)"

definition withoutRequestCredentials :: "js_value \<Rightarrow> js_value" where
  "withoutRequestCredentials v =
     (case v of
        VObject i es t g \<Rightarrow>
          if map_get es ''_apiType'' = None \<or> map_get es ''_channel'' = None \<or> map_get es ''_languageCode'' = None then v
          else let rest = js_omit [''_req''] es
               in case map_get rest ''_session'' of
                    Some (VObject j ses t' g') \<Rightarrow> new_object (map_set ''_session'' (new_object (js_omit [''token''] ses)) rest)
                  | _ \<Rightarrow> new_object rest
      | _ \<Rightarrow> v)"

definition redacted_keys :: "js_value \<Rightarrow> js_value" where
  "redacted_keys v =
     (case v of VObject i es t g \<Rightarrow> new_object (map (\<lambda>e. (fst e, REDACTED_JOB_DATA_VALUE)) es) | _ \<Rightarrow> new_object [])"

text \<open>The identities are those of the objects on the path; 0 is a new object, found nowhere else.\<close>

definition too_far :: "nat \<Rightarrow> nat \<Rightarrow> nat list \<Rightarrow> bool" where
  "too_far i depth ancestors \<longleftrightarrow> MAX_DEPTH < depth \<or> i \<noteq> 0 \<and> i \<in> set ancestors"

text \<open>Every call goes one level deeper, so the depth bounds the recursion.\<close>

function redact :: "js_value \<Rightarrow> nat \<Rightarrow> nat list \<Rightarrow> js_value" where
  "redact v depth ancestors =
     (case withoutRequestCredentials (converted v) of
        VArray i vs \<Rightarrow>
          if too_far i depth ancestors then REDACTED_JOB_DATA_VALUE
          else VArray 0 (map (\<lambda>x. redact x (depth + 1) (i # ancestors)) vs)
      | VDate s \<Rightarrow> if MAX_DEPTH < depth then REDACTED_JOB_DATA_VALUE else new_object []
      | VObject i es t g \<Rightarrow>
          if too_far i depth ancestors then REDACTED_JOB_DATA_VALUE
          else let isEmailData = (case map_get es ''templateVars'' of None \<Rightarrow> False | Some x \<Rightarrow> js_isObject x)
               in new_object (map (\<lambda>e. (fst e,
                    if sensitive (fst e) then REDACTED_JOB_DATA_VALUE
                    else if isEmailData \<and> fst e = ''templateVars'' then redacted_keys (snd e)
                    else case snd e of
                        VArray j items \<Rightarrow>
                          if isEmailData \<and> fst e = ''attachments''
                          then VArray 0 (map (\<lambda>a. if js_isObject a
                                 then redact (js_pick [''filename'', ''contentType''] a) (depth + 2) (i # ancestors)
                                 else REDACTED_JOB_DATA_VALUE) items)
                          else redact (snd e) (depth + 1) (i # ancestors)
                      | _ \<Rightarrow> redact (snd e) (depth + 1) (i # ancestors))) es)
      | value \<Rightarrow> value)"
  by pat_completeness auto

termination
  by (relation "measure (\<lambda>(v, depth, ancestors). MAX_DEPTH + 1 - depth)") (auto simp: too_far_def)

declare redact.simps [simp del]

definition redactJobData :: "js_value \<Rightarrow> js_value" where
  "redactJobData v = redact v 0 []"

section \<open>Nothing sensitive is left\<close>

lemma entry_smaller [termination_simp]: "e \<in> set es \<Longrightarrow> size (snd e) < Suc (size_list (size_prod (\<lambda>_. 0) size) es + k)"
  by (induction es) auto

text \<open>At every depth, a sensitive key has the value that stands for a redacted one.\<close>

fun nothing_sensitive :: "js_value \<Rightarrow> bool" where
  "nothing_sensitive (VArray i vs) \<longleftrightarrow> (\<forall>x \<in> set vs. nothing_sensitive x)"
| "nothing_sensitive (VObject i es t g) \<longleftrightarrow>
     t = None \<and> g = None \<and>
     (\<forall>e \<in> set es. (sensitive (fst e) \<longrightarrow> snd e = REDACTED_JOB_DATA_VALUE) \<and> nothing_sensitive (snd e))"
| "nothing_sensitive v \<longleftrightarrow> True"

lemma redacted_clean [simp]: "nothing_sensitive REDACTED_JOB_DATA_VALUE"
  by (simp add: REDACTED_JOB_DATA_VALUE_def)

lemma redacted_keys_clean [simp]: "nothing_sensitive (redacted_keys v)"
  by (auto simp: redacted_keys_def split: js_value.split)

lemma redact_clean: "nothing_sensitive (redact v depth ancestors)"
proof (induction "MAX_DEPTH + 1 - depth" arbitrary: v depth ancestors rule: less_induct)
  case less
  have deeper: "nothing_sensitive (redact w (depth + k) as)" if "\<not> MAX_DEPTH < depth" "0 < k" for w k as
    by (rule less) (use that in simp)
  then have "nothing_sensitive (redact w (Suc depth) as)" "nothing_sensitive (redact w (Suc (Suc depth)) as)"
    if "\<not> MAX_DEPTH < depth" for w as
    using deeper [OF that, of 1 w as] deeper [OF that, of 2 w as] by simp_all
  then show ?case
    by (subst redact.simps) (auto simp: Let_def too_far_def split: js_value.split)
qed

text \<open>
  C35: What the Admin API shows of the data, the result and the error of a job holds no secret. Whatever the
  value and however deep, in what \<^verbatim>\<open>redactJobData\<close> returns every key that spells a sensitive
  one, in any case of letters, has the value \<^verbatim>\<open>[redacted]\<close>; it ends on every value.
\<close>

theorem redaction_leaves_nothing_sensitive: "nothing_sensitive (redactJobData v)"
  unfolding redactJobData_def by (rule redact_clean)

end
