(* ===== verification/JobSerialization.thy ===== *)
theory JobSerialization
  imports Jobs
begin

text \<open>
  What storing a job does to its data: plain JSON within ten levels, in which no object occurs twice, is
  stored as it is. An object that occurs twice may be taken for a circular one.
\<close>

section \<open>Plain data\<close>

text \<open>Values up to the identities of their objects.\<close>

fun content :: "js_value \<Rightarrow> js_value" where
  "content (VArray i vs) = VArray 0 (map content vs)"
| "content (VObject i es t g) = VObject 0 (map (\<lambda>e. (fst e, content (snd e))) es) t g"
| "content v = v"

fun plain :: "js_value \<Rightarrow> bool" where
  "plain (VArray i vs) \<longleftrightarrow> (\<forall>x \<in> set vs. plain x)"
| "plain (VObject i es t g) \<longleftrightarrow> t = None \<and> g = None \<and> (\<forall>e \<in> set es. plain (snd e))"
| "plain (VDate s) \<longleftrightarrow> False"
| "plain v \<longleftrightarrow> True"

fun within_depth :: "nat \<Rightarrow> js_value \<Rightarrow> bool" where
  "within_depth n (VArray i vs) \<longleftrightarrow> (\<forall>x \<in> set vs. 0 < n \<and> within_depth (n - 1) x)"
| "within_depth n (VObject i es t g) \<longleftrightarrow> (\<forall>e \<in> set es. 0 < n \<and> within_depth (n - 1) (snd e))"
| "within_depth n v \<longleftrightarrow> True"

fun identities :: "js_value \<Rightarrow> nat list" where
  "identities (VArray i vs) = i # concat (map identities vs)"
| "identities (VObject i es t g) = i # concat (map (\<lambda>e. identities (snd e)) es)"
| "identities v = []"

section \<open>Storing\<close>

definition unseen :: "seen_paths \<Rightarrow> nat list \<Rightarrow> bool" where
  "unseen seen is \<longleftrightarrow> (\<forall>i \<in> set is. map_get seen i = None)"

definition adds :: "nat list \<Rightarrow> seen_paths \<Rightarrow> seen_paths \<Rightarrow> bool" where
  "adds is seen seen' \<longleftrightarrow> (\<forall>i. i \<notin> set is \<longrightarrow> map_get seen' i = map_get seen i)"

lemma unseen_after: "unseen seen js \<Longrightarrow> adds is seen seen' \<Longrightarrow> set is \<inter> set js = {} \<Longrightarrow> unseen seen' js"
  by (auto simp: unseen_def adds_def)

lemma adds_both: "adds is a b \<Longrightarrow> adds js b c \<Longrightarrow> adds (is @ js) a c"
  by (auto simp: adds_def)

lemma serialize_plain:
  "plain v \<Longrightarrow> distinct (identities v) \<Longrightarrow> unseen seen (identities v) \<Longrightarrow> depth \<le> 10 \<Longrightarrow> within_depth (10 - depth) v \<Longrightarrow>
     content (fst (ensureDataIsSerializable v depth seen path)) = content v \<and>
     adds (identities v) seen (snd (ensureDataIsSerializable v depth seen path))"
  "\<forall>e \<in> set es. plain (snd e) \<Longrightarrow> distinct (concat (map (\<lambda>e. identities (snd e)) es)) \<Longrightarrow>
     unseen seen (concat (map (\<lambda>e. identities (snd e)) es)) \<Longrightarrow> es = [] \<or> depth \<le> 10 \<Longrightarrow>
     \<forall>e \<in> set es. within_depth (10 - depth) (snd e) \<Longrightarrow>
     map (\<lambda>e. (fst e, content (snd e))) (fst (serialize_entries es depth seen path)) = map (\<lambda>e. (fst e, content (snd e))) es \<and>
     adds (concat (map (\<lambda>e. identities (snd e)) es)) seen (snd (serialize_entries es depth seen path))"
  "\<forall>x \<in> set vs. plain x \<Longrightarrow> distinct (concat (map identities vs)) \<Longrightarrow>
     unseen seen (concat (map identities vs)) \<Longrightarrow> vs = [] \<or> depth \<le> 10 \<Longrightarrow>
     \<forall>x \<in> set vs. within_depth (10 - depth) x \<Longrightarrow>
     map content (fst (serialize_items vs k depth seen path)) = map content vs \<and>
     adds (concat (map identities vs)) seen (snd (serialize_items vs k depth seen path))"
proof (induction v depth seen path and es depth seen path and vs k depth seen path
    rule: ensureDataIsSerializable_serialize_entries_serialize_items.induct)
  case (1 v depth seen path)
  show ?case
  proof (cases v)
    case (VArray i vs)
    have fresh: "\<not> circular seen i path" using 1 VArray by (simp add: unseen_def circular_def)
    have "unseen (map_set i path seen) (concat (map identities vs))"
      using 1 VArray by (auto simp: unseen_def map_get_set)
    moreover have "vs = [] \<or> depth + 1 \<le> 10" "\<forall>x \<in> set vs. within_depth (10 - (depth + 1)) x"
      using 1 VArray by (cases vs; auto)+
    ultimately show ?thesis
      using "1.IH"(1) [OF _ VArray fresh] 1 VArray fresh by (auto simp: adds_def map_get_set split: prod.split)
  next
    case (VObject i es t g)
    have fresh: "\<not> circular seen i path" using 1 VObject by (simp add: unseen_def circular_def)
    have "unseen (map_set i path seen) (concat (map (\<lambda>e. identities (snd e)) es))"
      using 1 VObject by (auto simp: unseen_def map_get_set)
    moreover have "es = [] \<or> depth + 1 \<le> 10" "\<forall>e \<in> set es. within_depth (10 - (depth + 1)) (snd e)"
      using 1 VObject by (cases es; auto)+
    ultimately show ?thesis
      using "1.IH"(2) [OF _ VObject fresh] 1 VObject fresh by (auto simp: adds_def map_get_set split: prod.split)
  qed (use 1 in \<open>simp_all add: adds_def\<close>)
next
  case (3 p v es depth seen path)
  obtain v' seen1 where one: "ensureDataIsSerializable v depth seen (path @ [p]) = (v', seen1)"
    by (cases "ensureDataIsSerializable v depth seen (path @ [p])")
  have head: "content v' = content v" "adds (identities v) seen seen1"
    using "3.IH"(1) "3.prems" one by (auto simp: unseen_def)
  have "unseen seen1 (concat (map (\<lambda>e. identities (snd e)) es))"
    using "3.prems" by (intro unseen_after [OF _ head(2)]) (auto simp: unseen_def)
  then show ?case
    using "3.IH"(2) [OF one [symmetric]] "3.prems" one head adds_both [OF head(2)] by (auto split: prod.split)
next
  case (5 v vs k depth seen path)
  obtain v' seen1 where one: "ensureDataIsSerializable v depth seen (path @ [print_nat k]) = (v', seen1)"
    by (cases "ensureDataIsSerializable v depth seen (path @ [print_nat k])")
  have head: "content v' = content v" "adds (identities v) seen seen1"
    using "5.IH"(1) "5.prems" one by (auto simp: unseen_def)
  have "unseen seen1 (concat (map identities vs))"
    using "5.prems" by (intro unseen_after [OF _ head(2)]) (auto simp: unseen_def)
  then show ?case
    using "5.IH"(2) [OF one [symmetric]] "5.prems" one head adds_both [OF head(2)] by (auto split: prod.split)
qed (simp_all add: adds_def)

text \<open>
  The data of a job survive being stored. Plain JSON, nested at most ten levels deep, in which no object
  or array occurs twice, is copied by \<^verbatim>\<open>ensureDataIsSerializable\<close> value for value.
\<close>

theorem plain_data_stored_as_is:
  assumes "plain v" and "within_depth 10 v" and "distinct (identities v)"
  shows "content (fst (ensureDataIsSerializable v 0 [] [])) = content v"
  using serialize_plain(1) [of v "[]" 0 "[]"] assms by (simp add: unseen_def)

definition sample_data :: js_value where
  "sample_data = VObject 1 [(''productIds'', VArray 2 [VNum 4, VNum 5]), (''ctx'', VObject 3 [(''channel'', VStr ''a'')] None None)] None None"

theorem plain_data_stored_as_is_witness:
  "content (fst (ensureDataIsSerializable sample_data 0 [] [])) = content sample_data \<and> sample_data \<noteq> VNull"
  using plain_data_stored_as_is [of sample_data] by (simp add: sample_data_def)

text \<open>
  The object that is shared here is no ancestor of itself, yet its second, deeper occurrence is replaced by a
  text that says so.
\<close>

lemma shared_object_taken_for_circular:
  "(let shared = VObject 2 [(''id'', VNum 4)] None None
    in fst (ensureDataIsSerializable (new_object [(''a'', shared), (''b'', VObject 3 [(''c'', shared)] None None)]) 0 [] []) =
       new_object [(''a'', new_object [(''id'', VNum 4)]), (''b'', new_object [(''c'', VStr ''[circular *b.c]'')])])"
  by code_simp

end
