(* ===== verification/Permissions.thy ===== *)
theory Permissions
  imports Prelude
begin

text \<open>
  Permissions: the definitions in \<^verbatim>\<open>common/permission-definition.ts\<close> and
  \<^verbatim>\<open>common/constants.ts\<close>, roles and their channels, the permissions a user has on each
  channel, the session as it is cached, and the checks of a \<^verbatim>\<open>RequestContext\<close>. A
  permission is its name; the texts describing permissions are left out.
\<close>

section \<open>Definitions of permissions\<close>

type_synonym permission = string

datatype permission_definition =
    PermissionDefinition string "bool option" "bool option"
  | CrudPermissionDefinition string
  | RwPermissionDefinition string

record permission_metadata =
  pm_name :: string
  pm_assignable :: bool
  pm_internal :: bool

fun getMetadata :: "permission_definition \<Rightarrow> permission_metadata list" where
  "getMetadata (PermissionDefinition name assignable internal) =
     [\<lparr>pm_name = name, pm_assignable = nullish assignable True, pm_internal = nullish internal False\<rparr>]"
| "getMetadata (CrudPermissionDefinition name) =
     map (\<lambda>operation. \<lparr>pm_name = operation @ name, pm_assignable = True, pm_internal = False\<rparr>)
       [''Create'', ''Read'', ''Update'', ''Delete'']"
| "getMetadata (RwPermissionDefinition name) =
     map (\<lambda>operation. \<lparr>pm_name = operation @ name, pm_assignable = True, pm_internal = False\<rparr>) [''Read'', ''Write'']"

definition DEFAULT_PERMISSIONS :: "permission_definition list" where
  "DEFAULT_PERMISSIONS =
     [PermissionDefinition ''Authenticated'' (Some True) (Some True),
      PermissionDefinition ''SuperAdmin'' (Some True) (Some True),
      PermissionDefinition ''Owner'' (Some False) (Some True),
      PermissionDefinition ''Public'' (Some False) (Some True),
      PermissionDefinition ''UpdateGlobalSettings'' (Some True) (Some False),
      PermissionDefinition ''ReadSecret'' (Some True) (Some False)] @
     map CrudPermissionDefinition
       [''Catalog'', ''Settings'', ''Administrator'', ''ApiKey'', ''Asset'', ''Channel'', ''Collection'',
        ''Country'', ''Customer'', ''CustomerGroup'', ''Facet'', ''Order'', ''PaymentMethod'', ''Product'',
        ''Promotion'', ''ShippingMethod'', ''Tag'', ''TaxCategory'', ''TaxRate'', ''Seller'', ''StockLocation'',
        ''System'', ''Zone'']"

definition getAllPermissionsMetadata :: "permission_definition list \<Rightarrow> permission_metadata list" where
  "getAllPermissionsMetadata customPermissions = foldl (\<lambda>all d. all @ getMetadata d) [] (DEFAULT_PERMISSIONS @ customPermissions)"

definition getAllAssignablePermissions :: "permission_definition list \<Rightarrow> permission list" where
  "getAllAssignablePermissions customPermissions = map pm_name (filter pm_assignable (getAllPermissionsMetadata customPermissions))"

lemma foldl_append: "foldl (\<lambda>all d. all @ f d) xs ds = xs @ concat (map f ds)"
  by (induction ds arbitrary: xs) auto

lemma getAllPermissionsMetadata_concat:
  "getAllPermissionsMetadata custom = concat (map getMetadata (DEFAULT_PERMISSIONS @ custom))"
  by (simp only: getAllPermissionsMetadata_def foldl_append append_Nil)

section \<open>Roles, users and the permissions on each channel\<close>

record channel =
  channel_id :: ID
  channel_token :: string
  channel_code :: string

record role =
  role_id :: ID
  role_code :: string
  role_description :: string
  role_permissions :: "permission list"
  role_channels :: "channel list"

record user =
  user_id :: ID
  user_identifier :: string
  user_verified :: bool
  user_roles :: "role list"

record channel_permissions =
  cp_id :: ID
  cp_token :: string
  cp_code :: string
  cp_permissions :: "permission list"

definition add_role_channel :: "permission list \<Rightarrow> channel \<Rightarrow> (string, channel_permissions) js_map \<Rightarrow>
    (string, channel_permissions) js_map" where
  "add_role_channel permissions c channelsMap =
     (let known = nullish (map_get channelsMap (channel_code c))
                    \<lparr>cp_id = channel_id c, cp_token = channel_token c, cp_code = channel_code c, cp_permissions = []\<rparr>
      in map_set (channel_code c) (known\<lparr>cp_permissions := unique (cp_permissions known @ permissions)\<rparr>) channelsMap)"

definition channels_map :: "role list \<Rightarrow> (string, channel_permissions) js_map" where
  "channels_map roles = fold (\<lambda>r. fold (add_role_channel (role_permissions r)) (role_channels r)) roles []"

definition getChannelPermissions :: "role list \<Rightarrow> channel_permissions list" where
  "getChannelPermissions roles = sort_key cp_id (map snd (channels_map roles))"

definition getUserChannelsPermissions :: "user \<Rightarrow> channel_permissions list" where
  "getUserChannelsPermissions u = getChannelPermissions (user_roles u)"

text \<open>Channels are rows of one table, with an id and a code that are unique.\<close>

definition channels_consistent :: "role list \<Rightarrow> bool" where
  "channels_consistent roles \<longleftrightarrow>
     (\<forall>r \<in> set roles. \<forall>c \<in> set (role_channels r). \<forall>r' \<in> set roles. \<forall>c' \<in> set (role_channels r').
        channel_id c = channel_id c' \<longleftrightarrow> channel_code c = channel_code c')"

definition grants :: "role list \<Rightarrow> ID \<Rightarrow> permission \<Rightarrow> bool" where
  "grants roles i p \<longleftrightarrow> (\<exists>r \<in> set roles. p \<in> set (role_permissions r) \<and> i \<in> channel_id ` set (role_channels r))"

definition permissions_on :: "ID \<Rightarrow> channel_permissions list \<Rightarrow> permission list" where
  "permissions_on i cps = (case List.find (\<lambda>c. idsAreEqual (Some (cp_id c)) (Some i)) cps of None \<Rightarrow> [] | Some c \<Rightarrow> cp_permissions c)"

section \<open>Cached sessions and request contexts\<close>

datatype api_type = Api_admin | Api_shop | Api_custom

record cached_user =
  cu_id :: ID
  cu_identifier :: string
  cu_verified :: bool
  cu_channelPermissions :: "channel_permissions list"

record cached_session =
  cacheExpiry :: rat
  session_id :: ID
  session_token :: string
  session_expires :: int
  session_activeOrderId :: "ID option"
  session_strategy :: "string option"
  session_user :: "cached_user option"
  session_activeChannelId :: "ID option"
  session_apiType :: "api_type option"

record auth_context =
  ac_hasRequest :: bool
  ac_apiType :: api_type
  ac_channel :: channel
  ac_session :: "cached_session option"
  ac_isAuthorized :: bool
  ac_authorizedAsOwnerOnly :: bool

definition activeUserId :: "auth_context \<Rightarrow> ID option" where
  "activeUserId ctx = (case ac_session ctx of None \<Rightarrow> None | Some s \<Rightarrow> map_option cu_id (session_user s))"

definition getUserPermissionsOnChannel :: "ID \<Rightarrow> auth_context \<Rightarrow> permission list option" where
  "getUserPermissionsOnChannel channelId ctx =
     (case ac_session ctx of None \<Rightarrow> None
      | Some s \<Rightarrow> (case session_user s of None \<Rightarrow> None
          | Some u \<Rightarrow> map_option cp_permissions
              (List.find (\<lambda>c. idsAreEqual (Some (cp_id c)) (Some channelId)) (cu_channelPermissions u))))"

definition arraysIntersect :: "'a list \<Rightarrow> 'a list \<Rightarrow> bool" where
  "arraysIntersect arr1 arr2 = foldl (\<lambda>intersects x. intersects \<or> x \<in> set arr2) False arr1"

definition userHasPermissions :: "permission list \<Rightarrow> ID \<Rightarrow> auth_context \<Rightarrow> bool" where
  "userHasPermissions permissions channelId ctx =
     (case getUserPermissionsOnChannel channelId ctx of None \<Rightarrow> False | Some ps \<Rightarrow> arraysIntersect ps permissions)"

definition userHasAllPermissions :: "permission list \<Rightarrow> ID \<Rightarrow> auth_context \<Rightarrow> bool" where
  "userHasAllPermissions permissions channelId ctx =
     (case getUserPermissionsOnChannel channelId ctx of None \<Rightarrow> False | Some ps \<Rightarrow> \<forall>p \<in> set permissions. p \<in> set ps)"

definition userHasRequiredPermissionsOnChannel :: "permission list option \<Rightarrow> channel \<Rightarrow> cached_user option \<Rightarrow> bool" where
  "userHasRequiredPermissionsOnChannel permissions c u =
     (case u of None \<Rightarrow> False
      | Some x \<Rightarrow>
          (case List.find (\<lambda>cp. idsAreEqual (Some (cp_id cp)) (Some (channel_id c))) (cu_channelPermissions x) of
             None \<Rightarrow> False | Some cp \<Rightarrow> arraysIntersect (cp_permissions cp) (nullish permissions [])))"

text \<open>
  The context of a request. The channel is the one the token of the request stands for; language,
  currency and translations are left out.
\<close>

definition fromRequest :: "channel \<Rightarrow> api_type \<Rightarrow> permission list option \<Rightarrow> cached_session option \<Rightarrow> auth_context" where
  "fromRequest c apiType requiredPermissions s =
     (let hasOwnerPermission = (case requiredPermissions of None \<Rightarrow> False | Some ps \<Rightarrow> ''Owner'' \<in> set ps);
          isAuthorized = userHasRequiredPermissionsOnChannel requiredPermissions c
                           (case s of None \<Rightarrow> None | Some x \<Rightarrow> session_user x)
      in \<lparr>ac_hasRequest = True, ac_apiType = apiType, ac_channel = c, ac_session = s, ac_isAuthorized = isAuthorized,
          ac_authorizedAsOwnerOnly = (\<not> isAuthorized \<and> hasOwnerPermission)\<rparr>)"

text \<open>The context made for a user outside a request; its session is a dummy.\<close>

definition year_ms :: int where
  "year_ms = 31557600000"

definition create_context :: "bool \<Rightarrow> api_type \<Rightarrow> channel \<Rightarrow> user option \<Rightarrow> ID option \<Rightarrow> ID \<Rightarrow> int \<Rightarrow> auth_context" where
  "create_context hasRequest apiType c u activeOrderId dummyId now =
     \<lparr>ac_hasRequest = hasRequest, ac_apiType = apiType, ac_channel = c,
      ac_session = map_option (\<lambda>x.
        \<lparr>cacheExpiry = of_int year_ms, session_id = dummyId, session_token = ''__dummy_session_token__'',
         session_expires = now + year_ms, session_activeOrderId = activeOrderId, session_strategy = None,
         session_user = Some \<lparr>cu_id = user_id x, cu_identifier = user_identifier x, cu_verified = user_verified x,
                               cu_channelPermissions = getUserChannelsPermissions x\<rparr>,
         session_activeChannelId = None, session_apiType = None\<rparr>) u,
      ac_isAuthorized = True, ac_authorizedAsOwnerOnly = False\<rparr>"

definition canAccess :: "auth_context \<Rightarrow> permission list \<Rightarrow> bool" where
  "canAccess ctx permissions =
     (if permissions = [] then True
      else if ''Public'' \<in> set permissions then True
      else userHasPermissions permissions (channel_id (ac_channel ctx)) ctx \<or> ac_authorizedAsOwnerOnly ctx)"

section \<open>What the map of channels holds\<close>

lemma arraysIntersect_iff: "arraysIntersect xs ys \<longleftrightarrow> set xs \<inter> set ys \<noteq> {}"
proof -
  have "foldl (\<lambda>i x. i \<or> x \<in> set ys) b xs \<longleftrightarrow> b \<or> set xs \<inter> set ys \<noteq> {}" for b
    by (induction xs arbitrary: b) auto
  then show ?thesis by (simp add: arraysIntersect_def)
qed

lemma filter_id_find:
  "List.find (\<lambda>c. idsAreEqual (Some (cp_id c)) (Some i)) cps = List.find (\<lambda>c. cp_id c = i) cps"
  by simp

text \<open>The pairs of a channel and the permissions a role gives on it, in the order of the loops.\<close>

definition role_entries :: "role list \<Rightarrow> (channel \<times> permission list) list" where
  "role_entries roles = concat (map (\<lambda>r. map (\<lambda>c. (c, role_permissions r)) (role_channels r)) roles)"

lemma role_entries_member:
  "e \<in> set (role_entries roles) \<longleftrightarrow> (\<exists>r \<in> set roles. fst e \<in> set (role_channels r) \<and> snd e = role_permissions r)"
  by (cases e) (auto simp: role_entries_def)

lemma channels_map_entries:
  "channels_map roles = fold (\<lambda>e. add_role_channel (snd e) (fst e)) (role_entries roles) []"
proof -
  have one: "fold (add_role_channel ps) cs m = fold (\<lambda>e. add_role_channel (snd e) (fst e)) (map (\<lambda>c. (c, ps)) cs) m"
    for ps cs m by (induction cs arbitrary: m) auto
  have "fold (\<lambda>r. fold (add_role_channel (role_permissions r)) (role_channels r)) roles m =
      fold (\<lambda>e. add_role_channel (snd e) (fst e)) (role_entries roles) m" for m
    by (induction roles arbitrary: m) (auto simp: role_entries_def one)
  then show ?thesis by (simp add: channels_map_def)
qed

lemma role_entries_grants:
  "(\<exists>e \<in> set (role_entries roles). channel_id (fst e) = i \<and> p \<in> set (snd e)) \<longleftrightarrow> grants roles i p"
  by (auto simp: role_entries_def grants_def image_iff)

text \<open>After the entries \<open>es\<close>, a code has the id of its channels and the union of their permissions.\<close>

definition map_of_entries :: "(channel \<times> permission list) list \<Rightarrow> (string, channel_permissions) js_map \<Rightarrow> bool" where
  "map_of_entries es m \<longleftrightarrow> map_wf m \<and> fst ` set m = (\<lambda>e. channel_code (fst e)) ` set es \<and>
     (\<forall>k cp. map_get m k = Some cp \<longrightarrow>
        (\<exists>e \<in> set es. channel_code (fst e) = k \<and> channel_id (fst e) = cp_id cp) \<and>
        set (cp_permissions cp) = \<Union> (set ` snd ` {e \<in> set es. channel_code (fst e) = k}))"

lemma add_role_channel_entries:
  assumes "map_of_entries es m"
  shows "map_of_entries (es @ [(c, ps)]) (add_role_channel ps c m)"
proof -
  let ?new = "\<lparr>cp_id = channel_id c, cp_token = channel_token c, cp_code = channel_code c, cp_permissions = []\<rparr>"
  define known where "known = nullish (map_get m (channel_code c)) ?new"
  define cp where "cp = known\<lparr>cp_permissions := unique (cp_permissions known @ ps)\<rparr>"
  have m': "add_role_channel ps c m = map_set (channel_code c) cp m"
    by (simp add: add_role_channel_def known_def cp_def Let_def)
  have wf: "map_wf m" and dom: "fst ` set m = (\<lambda>e. channel_code (fst e)) ` set es"
    and vals: "\<And>k cp. map_get m k = Some cp \<Longrightarrow>
        (\<exists>e \<in> set es. channel_code (fst e) = k \<and> channel_id (fst e) = cp_id cp) \<and>
        set (cp_permissions cp) = \<Union> (set ` snd ` {e \<in> set es. channel_code (fst e) = k})"
    using assms by (auto simp: map_of_entries_def)
  have known: "(\<exists>e \<in> set (es @ [(c, ps)]). channel_code (fst e) = channel_code c \<and> channel_id (fst e) = cp_id known) \<and>
      set (cp_permissions known) = \<Union> (set ` snd ` {e \<in> set es. channel_code (fst e) = channel_code c})"
  proof (cases "map_get m (channel_code c)")
    case None
    then have "channel_code c \<notin> (\<lambda>e. channel_code (fst e)) ` set es" using dom by (simp add: map_get_None_iff)
    then have none: "{e \<in> set es. channel_code (fst e) = channel_code c} = {}" by (auto simp: image_iff)
    show ?thesis using None unfolding none by (simp add: known_def)
  next
    case (Some x)
    then show ?thesis using vals [OF Some] by (auto simp: known_def)
  qed
  have "(\<exists>e \<in> set (es @ [(c, ps)]). channel_code (fst e) = k \<and> channel_id (fst e) = cp_id x) \<and>
        set (cp_permissions x) = \<Union> (set ` snd ` {e \<in> set (es @ [(c, ps)]). channel_code (fst e) = k})"
    if x: "map_get (map_set (channel_code c) cp m) k = Some x" for k x
  proof (cases "k = channel_code c")
    case True
    then have "x = cp" using x by (simp add: map_get_set)
    moreover have "{e \<in> set (es @ [(c, ps)]). channel_code (fst e) = k} =
        insert (c, ps) {e \<in> set es. channel_code (fst e) = channel_code c}" using True by auto
    ultimately show ?thesis using known True by (auto simp: cp_def)
  next
    case False
    then have "map_get m k = Some x" using x by (simp add: map_get_set)
    moreover have "{e \<in> set (es @ [(c, ps)]). channel_code (fst e) = k} = {e \<in> set es. channel_code (fst e) = k}"
      using False by auto
    ultimately show ?thesis using vals [of k x] by auto
  qed
  then show ?thesis unfolding m' map_of_entries_def
    using wf dom by (auto simp: map_wf_set keys_map_set)
qed

lemma channels_map_exact: "map_of_entries (role_entries roles) (channels_map roles)"
proof -
  have "map_of_entries (ds @ es) (fold (\<lambda>e. add_role_channel (snd e) (fst e)) es m)"
    if "map_of_entries ds m" for ds es m
    using that
  proof (induction es arbitrary: ds m)
    case (Cons e es)
    then show ?case using add_role_channel_entries [OF Cons.prems, of "fst e" "snd e"] Cons.IH by fastforce
  qed simp
  from this [of "[]" "[]" "role_entries roles"] show ?thesis
    by (simp add: channels_map_entries map_of_entries_def map_wf_def)
qed

lemma entry_channels:
  assumes "channels_consistent roles" and "e \<in> set (role_entries roles)" and "e' \<in> set (role_entries roles)"
  shows "channel_id (fst e) = channel_id (fst e') \<longleftrightarrow> channel_code (fst e) = channel_code (fst e')"
  using assms by (fastforce simp: role_entries_def channels_consistent_def)

text \<open>Every entry of the result is a channel of the roles, once, with the union of the permissions given on it.\<close>

lemma getChannelPermissions_entry:
  assumes ok: "channels_consistent roles" and x: "x \<in> set (getChannelPermissions roles)"
  shows "set (cp_permissions x) = {p. grants roles (cp_id x) p}"
    and "\<exists>r \<in> set roles. cp_id x \<in> channel_id ` set (role_channels r)"
proof -
  note m = channels_map_exact [of roles, unfolded map_of_entries_def]
  obtain k where k: "map_get (channels_map roles) k = Some x"
    using x m by (auto simp: getChannelPermissions_def map_get_Some_in)
  then obtain e where e: "e \<in> set (role_entries roles)" "channel_code (fst e) = k" "channel_id (fst e) = cp_id x"
    using m by blast
  have same: "channel_code (fst d) = k \<longleftrightarrow> channel_id (fst d) = cp_id x" if "d \<in> set (role_entries roles)" for d
    using entry_channels [OF ok that e(1)] e(2,3) by auto
  have "set (cp_permissions x) = \<Union> (set ` snd ` {d \<in> set (role_entries roles). channel_code (fst d) = k})"
    using m k by blast
  also have "\<dots> = {p. \<exists>d \<in> set (role_entries roles). channel_id (fst d) = cp_id x \<and> p \<in> set (snd d)}"
    using same by blast
  finally show "set (cp_permissions x) = {p. grants roles (cp_id x) p}" by (simp add: role_entries_grants)
  show "\<exists>r \<in> set roles. cp_id x \<in> channel_id ` set (role_channels r)"
    using e by (auto simp: role_entries_member intro!: image_eqI [of _ _ "fst e"])
qed

lemma getChannelPermissions_covers:
  assumes ok: "channels_consistent roles" and "r \<in> set roles" and "c \<in> set (role_channels r)"
  shows "\<exists>x \<in> set (getChannelPermissions roles). cp_id x = channel_id c"
proof -
  note m = channels_map_exact [of roles, unfolded map_of_entries_def]
  have e: "(c, role_permissions r) \<in> set (role_entries roles)" using assms by (auto simp: role_entries_member)
  have "fst ` set (channels_map roles) = (\<lambda>e. channel_code (fst e)) ` set (role_entries roles)" using m by blast
  then have "channel_code c \<in> fst ` set (channels_map roles)" using e by (simp add: rev_image_eqI)
  then obtain x where x: "map_get (channels_map roles) (channel_code c) = Some x"
    by (metis map_get_None_iff not_None_eq)
  then obtain e' where e': "e' \<in> set (role_entries roles)" "channel_code (fst e') = channel_code c" "channel_id (fst e') = cp_id x"
    using m by blast
  have "cp_id x = channel_id c" using entry_channels [OF ok e'(1) e] e'(2,3) by simp
  moreover have "x \<in> set (getChannelPermissions roles)"
    using x m by (force simp: getChannelPermissions_def map_get_Some_in)
  ultimately show ?thesis by blast
qed

lemma channel_permissions_pattern:
  assumes "channels_consistent roles"
  shows "p \<in> set (permissions_on i (getChannelPermissions roles)) \<longleftrightarrow> grants roles i p"
proof (cases "List.find (\<lambda>c. cp_id c = i) (getChannelPermissions roles)")
  case None
  then have none: "\<forall>x \<in> set (getChannelPermissions roles). cp_id x \<noteq> i" by (simp add: find_None_all)
  have "\<not> grants roles i p"
    using getChannelPermissions_covers [OF assms] none by (fastforce simp: grants_def)
  then show ?thesis using None by (simp add: permissions_on_def)
next
  case (Some x)
  then have "x \<in> set (getChannelPermissions roles)" "cp_id x = i" using find_Some_in [OF Some] by auto
  then show ?thesis using Some getChannelPermissions_entry(1) [OF assms, of x] by (simp add: permissions_on_def)
qed

text \<open>
  \<^verbatim>\<open>getChannelPermissions\<close> and the lookup by channel id that every check makes are exact: the
  permissions found for a channel are those of the roles assigned to it, whatever the order of the
  roles; a channel without a role gives none.
\<close>

theorem channel_permissions_exact:
  assumes "channels_consistent roles"
  shows "p \<in> set (permissions_on i (getChannelPermissions roles)) \<longleftrightarrow> grants roles i p"
  by (rule channel_permissions_pattern [OF assms])

definition two_roles :: "role list" where
  "two_roles =
     [\<lparr>role_id = 1, role_code = ''editor'', role_description = '''', role_permissions = [''Authenticated'', ''UpdateOrder''],
       role_channels = [\<lparr>channel_id = 2, channel_token = ''b'', channel_code = ''B''\<rparr>,
                        \<lparr>channel_id = 1, channel_token = ''a'', channel_code = ''A''\<rparr>]\<rparr>,
      \<lparr>role_id = 2, role_code = ''reader'', role_description = '''', role_permissions = [''ReadOrder''],
       role_channels = [\<lparr>channel_id = 1, channel_token = ''a'', channel_code = ''A''\<rparr>]\<rparr>]"

lemma channel_permissions_exact_witness:
  "''ReadOrder'' \<in> set (permissions_on 1 (getChannelPermissions two_roles)) \<and>
   ''ReadOrder'' \<notin> set (permissions_on 2 (getChannelPermissions two_roles))"
proof -
  have ok: "channels_consistent two_roles" by (simp add: two_roles_def channels_consistent_def)
  show ?thesis
    using channel_permissions_exact [OF ok, of "''ReadOrder''" 1] channel_permissions_exact [OF ok, of "''ReadOrder''" 2]
    by (simp add: two_roles_def grants_def)
qed

end
