(* ===== verification/Roles.thy ===== *)
theory Roles
  imports Permissions
begin

text \<open>
  \<^verbatim>\<open>RoleService\<close>: reading, creating, changing and deleting roles. The tables hold channels,
  roles, users with the ids of their roles, and administrators. The permissions of the active user are
  read once per request, as the request cache has it, and are an argument of the checks; custom fields,
  relations and events are left out.
\<close>

section \<open>Tables\<close>

record user_row =
  ur_id :: ID
  ur_identifier :: string
  ur_verified :: bool
  ur_deleted :: bool
  ur_roleIds :: "ID list"

record admin_row =
  ar_id :: ID
  ar_firstName :: string
  ar_lastName :: string
  ar_emailAddress :: string
  ar_deleted :: bool
  ar_userId :: ID

record access_db =
  acc_channels :: "channel list"
  acc_roles :: "role list"
  acc_users :: "user_row list"
  acc_admins :: "admin_row list"
  acc_nextId :: ID

definition roles_of :: "access_db \<Rightarrow> user_row \<Rightarrow> role list" where
  "roles_of db u = filter (\<lambda>r. role_id r \<in> set (ur_roleIds u)) (acc_roles db)"

definition user_of :: "access_db \<Rightarrow> user_row \<Rightarrow> user" where
  "user_of db u = \<lparr>user_id = ur_id u, user_identifier = ur_identifier u, user_verified = ur_verified u, user_roles = roles_of db u\<rparr>"

definition find_user :: "access_db \<Rightarrow> ID \<Rightarrow> user result" where
  "find_user db i =
     (case List.find (\<lambda>u. ur_id u = i) (acc_users db) of
        None \<Rightarrow> Inl (EntityNotFoundError ''User'' i)
      | Some u \<Rightarrow> if ur_deleted u then Inl (EntityNotFoundError ''User'' i) else Inr (user_of db u))"

definition find_channel :: "access_db \<Rightarrow> ID \<Rightarrow> channel result" where
  "find_channel db i =
     (case List.find (\<lambda>c. channel_id c = i) (acc_channels db) of
        None \<Rightarrow> Inl (EntityNotFoundError ''Channel'' i) | Some c \<Rightarrow> Inr c)"

section \<open>Checks\<close>

type_synonym held = "channel_permissions list result"

definition active_channels :: "auth_context \<Rightarrow> access_db \<Rightarrow> held" where
  "active_channels ctx db =
     (case activeUserId ctx of None \<Rightarrow> Inr []
      | Some i \<Rightarrow> bind_result (find_user db i) (\<lambda>u. Inr (getUserChannelsPermissions u)))"

definition userHasAnyPermissionsOnChannel :: "held \<Rightarrow> ID \<Rightarrow> permission list \<Rightarrow> bool result" where
  "userHasAnyPermissionsOnChannel held channelId permissions =
     bind_result held (\<lambda>cps. Inr (\<exists>p \<in> set permissions. p \<in> set (permissions_on channelId cps)))"

definition userHasPermissionOnChannel :: "held \<Rightarrow> ID \<Rightarrow> permission \<Rightarrow> bool result" where
  "userHasPermissionOnChannel held channelId permission = userHasAnyPermissionsOnChannel held channelId [permission]"

definition userHasAllPermissionsOnChannel :: "held \<Rightarrow> ID \<Rightarrow> permission list \<Rightarrow> bool result" where
  "userHasAllPermissionsOnChannel held channelId permissions =
     bind_result held (\<lambda>cps. Inr (\<forall>p \<in> set permissions. p \<in> set (permissions_on channelId cps)))"

fun holds_required :: "held \<Rightarrow> channel_permissions list \<Rightarrow> bool result" where
  "holds_required held [] = Inr True"
| "holds_required held (cp # cps) =
     bind_result (userHasAllPermissionsOnChannel held (cp_id cp) (cp_permissions cp)) (\<lambda>ok.
       if ok then holds_required held cps else Inr False)"

definition activeUserHasPermissionsOnChannelsOf :: "held \<Rightarrow> role list \<Rightarrow> bool result" where
  "activeUserHasPermissionsOnChannelsOf held roles = holds_required held (getChannelPermissions roles)"

definition activeUserHasPermissionsOfRoles :: "held \<Rightarrow> access_db \<Rightarrow> ID list \<Rightarrow> bool result" where
  "activeUserHasPermissionsOfRoles held db roleIds =
     (if roleIds = [] then Inr True
      else activeUserHasPermissionsOnChannelsOf held (filter (\<lambda>r. role_id r \<in> set roleIds) (acc_roles db)))"

definition role_findOne :: "held \<Rightarrow> access_db \<Rightarrow> ID \<Rightarrow> role option result" where
  "role_findOne held db roleId =
     (case List.find (\<lambda>r. role_id r = roleId) (acc_roles db) of
        None \<Rightarrow> Inr None
      | Some r \<Rightarrow> bind_result (activeUserHasPermissionsOnChannelsOf held [r]) (\<lambda>ok. Inr (if ok then Some r else None)))"

definition getChannelsForRole :: "held \<Rightarrow> access_db \<Rightarrow> ID \<Rightarrow> channel list result" where
  "getChannelsForRole held db roleId =
     bind_result (role_findOne held db roleId) (\<lambda>r. Inr (case r of None \<Rightarrow> [] | Some x \<Rightarrow> role_channels x))"

text \<open>Roles a list may show; \<open>cachedRoles\<close> is what the cache of all roles holds.\<close>

fun visible_among :: "held \<Rightarrow> role list \<Rightarrow> ID list result" where
  "visible_among held [] = Inr []"
| "visible_among held (r # rs) =
     bind_result (activeUserHasPermissionsOnChannelsOf held [r]) (\<lambda>ok.
       bind_result (visible_among held rs) (\<lambda>is. Inr (if ok then role_id r # is else is)))"

definition getVisibleRoleIds :: "auth_context \<Rightarrow> held \<Rightarrow> role list \<Rightarrow> access_db \<Rightarrow> ID list result" where
  "getVisibleRoleIds ctx held cachedRoles db =
     (if userHasPermissions [''SuperAdmin''] (channel_id (ac_channel ctx)) ctx then Inr (map role_id (acc_roles db))
      else visible_among held cachedRoles)"

fun checkPermissionsAreValid :: "permission_definition list \<Rightarrow> permission list option \<Rightarrow> unit result" where
  "checkPermissionsAreValid customPermissions None = Inr ()"
| "checkPermissionsAreValid customPermissions (Some permissions) =
     (if \<exists>p \<in> set permissions. p \<notin> set (getAllAssignablePermissions customPermissions) \<or> p = ''SuperAdmin''
      then Inl (UserInputError ''error.permission-invalid'') else Inr ())"

fun getPermittedChannels :: "held \<Rightarrow> access_db \<Rightarrow> ID list \<Rightarrow> channel list result" where
  "getPermittedChannels held db [] = Inr []"
| "getPermittedChannels held db (i # is) =
     bind_result (find_channel db i) (\<lambda>c.
     bind_result (userHasPermissionOnChannel held i ''CreateAdministrator'') (\<lambda>ok.
       if \<not> ok then Inl ForbiddenError
       else bind_result (getPermittedChannels held db is) (\<lambda>cs. Inr (c # cs))))"

definition new_role :: "ID \<Rightarrow> string \<Rightarrow> string \<Rightarrow> permission list \<Rightarrow> channel list \<Rightarrow> role" where
  "new_role i code description permissions channels =
     \<lparr>role_id = i, role_code = code, role_description = description,
      role_permissions = unique (''Authenticated'' # permissions), role_channels = channels\<rparr>"

definition insufficient :: vendure_error where
  "insufficient = UserInputError ''error.active-user-does-not-have-sufficient-permissions''"

definition checkActiveUserHasSufficientPermissions :: "held \<Rightarrow> channel list \<Rightarrow> permission list \<Rightarrow> unit result" where
  "checkActiveUserHasSufficientPermissions held targetChannels permissions =
     bind_result (activeUserHasPermissionsOnChannelsOf held [new_role 0 '''' '''' permissions targetChannels]) (\<lambda>ok.
       if ok then Inr () else Inl insufficient)"

section \<open>Operations\<close>

record create_role_input =
  cri_code :: string
  cri_description :: string
  cri_permissions :: "permission list"
  cri_channelIds :: "ID list option"

record update_role_input =
  uri_id :: ID
  uri_code :: "string option"
  uri_description :: "string option"
  uri_permissions :: "permission list option"
  uri_channelIds :: "ID list option"

definition createRoleForChannels :: "string \<Rightarrow> string \<Rightarrow> permission list \<Rightarrow> channel list \<Rightarrow> access_db \<Rightarrow> access_db" where
  "createRoleForChannels code description permissions channels db =
     db\<lparr>acc_roles := acc_roles db @ [new_role (acc_nextId db) code description permissions channels],
        acc_nextId := Suc (acc_nextId db)\<rparr>"

definition role_create :: "permission_definition list \<Rightarrow> auth_context \<Rightarrow> create_role_input \<Rightarrow> access_db \<Rightarrow> access_db result" where
  "role_create customPermissions ctx inp db =
     (let held = active_channels ctx db in
      bind_result (checkPermissionsAreValid customPermissions (Some (cri_permissions inp))) (\<lambda>_.
      bind_result (case cri_channelIds inp of Some is \<Rightarrow> getPermittedChannels held db is | None \<Rightarrow> Inr [ac_channel ctx]) (\<lambda>targetChannels.
      bind_result (checkActiveUserHasSufficientPermissions held targetChannels (cri_permissions inp)) (\<lambda>_.
        Inr (createRoleForChannels (cri_code inp) (cri_description inp) (cri_permissions inp) targetChannels db)))))"

definition protected_role :: "role \<Rightarrow> bool" where
  "protected_role r \<longleftrightarrow> role_code r = ''__super_admin_role__'' \<or> role_code r = ''__customer_role__''"

definition save_role :: "role \<Rightarrow> access_db \<Rightarrow> access_db" where
  "save_role r db = db\<lparr>acc_roles := map (\<lambda>x. if role_id x = role_id r then r else x) (acc_roles db)\<rparr>"

definition patched_role :: "update_role_input \<Rightarrow> channel list option \<Rightarrow> role \<Rightarrow> role" where
  "patched_role inp targetChannels r =
     r\<lparr>role_code := nullish (uri_code inp) (role_code r),
       role_description := nullish (uri_description inp) (role_description r),
       role_permissions := (case uri_permissions inp of None \<Rightarrow> role_permissions r | Some ps \<Rightarrow> unique (''Authenticated'' # ps)),
       role_channels := nullish targetChannels (role_channels r)\<rparr>"

definition role_update :: "permission_definition list \<Rightarrow> auth_context \<Rightarrow> update_role_input \<Rightarrow> access_db \<Rightarrow> access_db result" where
  "role_update customPermissions ctx inp db =
     (let held = active_channels ctx db in
      bind_result (checkPermissionsAreValid customPermissions (uri_permissions inp)) (\<lambda>_.
      bind_result (role_findOne held db (uri_id inp)) (\<lambda>found.
      case found of
        None \<Rightarrow> Inl (EntityNotFoundError ''Role'' (uri_id inp))
      | Some r \<Rightarrow>
          if protected_role r then Inl (InternalServerError ''error.cannot-modify-role'')
          else
            bind_result (case uri_channelIds inp of Some is \<Rightarrow> bind_result (getPermittedChannels held db is) (\<lambda>cs. Inr (Some cs))
                         | None \<Rightarrow> Inr None) (\<lambda>targetChannels.
            bind_result (case uri_permissions inp of None \<Rightarrow> Inr ()
                         | Some ps \<Rightarrow> checkActiveUserHasSufficientPermissions held (nullish targetChannels (role_channels r)) ps) (\<lambda>_.
              Inr (save_role (patched_role inp targetChannels r) db))))))"

text \<open>Deleting a role removes its rows in the join table of users.\<close>

definition role_delete :: "auth_context \<Rightarrow> ID \<Rightarrow> access_db \<Rightarrow> access_db result" where
  "role_delete ctx i db =
     bind_result (role_findOne (active_channels ctx db) db i) (\<lambda>found.
       case found of
         None \<Rightarrow> Inl (EntityNotFoundError ''Role'' i)
       | Some r \<Rightarrow>
           if protected_role r then Inl (InternalServerError ''error.cannot-delete-role'')
           else Inr (db\<lparr>acc_roles := filter (\<lambda>x. role_id x \<noteq> i) (acc_roles db),
                        acc_users := map (\<lambda>u. u\<lparr>ur_roleIds := filter (\<lambda>x. x \<noteq> i) (ur_roleIds u)\<rparr>) (acc_users db)\<rparr>))"

definition ensureRolesHaveValidPermissions :: "permission_definition list \<Rightarrow> access_db \<Rightarrow> access_db" where
  "ensureRolesHaveValidPermissions customPermissions db =
     (let assignable = getAllAssignablePermissions customPermissions
      in db\<lparr>acc_roles := map (\<lambda>r.
              if filter (\<lambda>p. p \<notin> set assignable) (role_permissions r) \<noteq> []
              then r\<lparr>role_permissions := filter (\<lambda>p. p \<in> set assignable) (role_permissions r)\<rparr> else r) (acc_roles db)\<rparr>)"

definition getRoleByCode :: "string \<Rightarrow> access_db \<Rightarrow> role option" where
  "getRoleByCode code db = List.find (\<lambda>r. role_code r = code) (acc_roles db)"

definition getSuperAdminRole :: "access_db \<Rightarrow> role result" where
  "getSuperAdminRole db =
     (case getRoleByCode ''__super_admin_role__'' db of
        None \<Rightarrow> Inl (InternalServerError ''error.super-admin-role-not-found'') | Some r \<Rightarrow> Inr r)"

definition ensureSuperAdminRoleExists :: "permission_definition list \<Rightarrow> channel \<Rightarrow> access_db \<Rightarrow> access_db" where
  "ensureSuperAdminRoleExists customPermissions defaultChannel db =
     (let assignable = getAllAssignablePermissions customPermissions
      in case getSuperAdminRole db of
           Inr r \<Rightarrow> save_role (r\<lparr>role_permissions := assignable\<rparr>) db
         | Inl e \<Rightarrow> createRoleForChannels ''__super_admin_role__'' ''SuperAdmin'' assignable [defaultChannel] db)"

definition ensureCustomerRoleExists :: "channel \<Rightarrow> access_db \<Rightarrow> access_db" where
  "ensureCustomerRoleExists defaultChannel db =
     (case getRoleByCode ''__customer_role__'' db of
        Some r \<Rightarrow> db
      | None \<Rightarrow> createRoleForChannels ''__customer_role__'' ''Customer'' [''Authenticated''] [defaultChannel] db)"

definition initRoles :: "permission_definition list \<Rightarrow> channel \<Rightarrow> access_db \<Rightarrow> access_db" where
  "initRoles customPermissions defaultChannel db =
     ensureRolesHaveValidPermissions customPermissions
       (ensureCustomerRoleExists defaultChannel (ensureSuperAdminRoleExists customPermissions defaultChannel db))"

end
