(* ===== verification/Administrators.thy ===== *)
theory Administrators
  imports Roles Texts
begin

text \<open>
  \<^verbatim>\<open>AdministratorService\<close>: which administrators are visible, creating and changing them,
  assigning roles and soft deletion, with the one super administrator that must remain. Passwords,
  avatars, custom fields, sessions and events are left out. An operation that throws leaves the tables
  as they were, since the resolvers run in a transaction.
\<close>

section \<open>Reading\<close>

definition user_row_of :: "access_db \<Rightarrow> admin_row \<Rightarrow> user_row option" where
  "user_row_of db a = List.find (\<lambda>u. ur_id u = ar_userId a) (acc_users db)"

definition admin_roles :: "access_db \<Rightarrow> admin_row \<Rightarrow> role list" where
  "admin_roles db a = (case user_row_of db a of None \<Rightarrow> [] | Some u \<Rightarrow> roles_of db u)"

definition find_admin :: "access_db \<Rightarrow> ID \<Rightarrow> admin_row option" where
  "find_admin db i = List.find (\<lambda>a. ar_id a = i \<and> \<not> ar_deleted a) (acc_admins db)"

definition admin_findOne :: "held \<Rightarrow> access_db \<Rightarrow> ID \<Rightarrow> admin_row option result" where
  "admin_findOne held db i =
     (case find_admin db i of None \<Rightarrow> Inr None
      | Some a \<Rightarrow> bind_result (activeUserHasPermissionsOfRoles held db (map role_id (admin_roles db a))) (\<lambda>visible.
          Inr (if visible then Some a else None)))"

definition admin_findOneByUserId :: "access_db \<Rightarrow> ID \<Rightarrow> admin_row option" where
  "admin_findOneByUserId db userId = List.find (\<lambda>a. ar_userId a = userId \<and> \<not> ar_deleted a) (acc_admins db)"

definition restrictToVisibleAdministrators :: "auth_context \<Rightarrow> held \<Rightarrow> role list \<Rightarrow> access_db \<Rightarrow> admin_row list \<Rightarrow> admin_row list result" where
  "restrictToVisibleAdministrators ctx held cachedRoles db as =
     (if userHasPermissions [''SuperAdmin''] (channel_id (ac_channel ctx)) ctx then Inr as
      else bind_result (getVisibleRoleIds ctx held cachedRoles db) (\<lambda>visibleRoleIds.
        Inr (filter (\<lambda>a. \<not> (\<exists>r \<in> set (admin_roles db a). role_id r \<notin> set visibleRoleIds)) as)))"

definition admin_findAll :: "auth_context \<Rightarrow> role list \<Rightarrow> access_db \<Rightarrow> admin_row list result" where
  "admin_findAll ctx cachedRoles db =
     restrictToVisibleAdministrators ctx (active_channels ctx db) cachedRoles db
       (filter (\<lambda>a. \<not> ar_deleted a) (acc_admins db))"

definition checkActiveUserCanGrantRoles :: "held \<Rightarrow> access_db \<Rightarrow> ID list \<Rightarrow> unit result" where
  "checkActiveUserCanGrantRoles held db roleIds =
     bind_result (activeUserHasPermissionsOfRoles held db roleIds) (\<lambda>ok. if ok then Inr () else Inl insufficient)"

definition checkForDuplicateEmailAddress :: "access_db \<Rightarrow> string \<Rightarrow> ID option \<Rightarrow> unit result" where
  "checkForDuplicateEmailAddress db emailAddress excludeId =
     (case List.find (\<lambda>a. ar_emailAddress a = emailAddress \<and> \<not> ar_deleted a) (acc_admins db) of
        None \<Rightarrow> Inr ()
      | Some a \<Rightarrow> if excludeId = None \<or> \<not> idsAreEqual (Some (ar_id a)) excludeId
                  then Inl (UserInputError ''error.email-address-already-exists-for-administrator'') else Inr ())"

definition superadmins :: "access_db \<Rightarrow> role \<Rightarrow> admin_row list" where
  "superadmins db superAdminRole =
     filter (\<lambda>a. \<not> ar_deleted a \<and> List.find (\<lambda>r. idsAreEqual (Some (role_id r)) (Some (role_id superAdminRole))) (admin_roles db a) \<noteq> None)
       (acc_admins db)"

definition isSoleSuperadmin :: "access_db \<Rightarrow> ID \<Rightarrow> bool result" where
  "isSoleSuperadmin db i =
     bind_result (getSuperAdminRole db) (\<lambda>superAdminRole.
       Inr (case superadmins db superAdminRole of
              [] \<Rightarrow> False
            | [a] \<Rightarrow> idsAreEqual (Some (ar_id a)) (Some i)
            | _ \<Rightarrow> False))"

section \<open>Operations\<close>

definition set_roles :: "ID \<Rightarrow> (ID list \<Rightarrow> ID list) \<Rightarrow> access_db \<Rightarrow> access_db" where
  "set_roles userId f db =
     db\<lparr>acc_users := map (\<lambda>u. if ur_id u = userId then u\<lparr>ur_roleIds := f (ur_roleIds u)\<rparr> else u) (acc_users db)\<rparr>"

definition assign_role :: "held \<Rightarrow> ID \<Rightarrow> ID \<Rightarrow> access_db \<Rightarrow> access_db result" where
  "assign_role held administratorId roleId db =
     bind_result (admin_findOne held db administratorId) (\<lambda>administrator.
       case administrator of
         None \<Rightarrow> Inl (EntityNotFoundError ''Administrator'' administratorId)
       | Some a \<Rightarrow>
           bind_result (role_findOne held db roleId) (\<lambda>r.
             case r of
               None \<Rightarrow> Inl (EntityNotFoundError ''Role'' roleId)
             | Some x \<Rightarrow> Inr (set_roles (ar_userId a) (\<lambda>ids. if roleId \<in> set ids then ids else ids @ [roleId]) db)))"

record create_admin_input =
  cai_firstName :: string
  cai_lastName :: string
  cai_emailAddress :: string
  cai_roleIds :: "ID list"

record update_admin_input =
  uai_id :: ID
  uai_firstName :: "string option"
  uai_lastName :: "string option"
  uai_emailAddress :: "string option"
  uai_roleIds :: "ID list option"

definition createAdminUser :: "string \<Rightarrow> access_db \<Rightarrow> (ID \<times> access_db) result" where
  "createAdminUser ident db =
     bind_result (normalizeEmailAddress ident) (\<lambda>normalized.
       Inr (acc_nextId db,
            db\<lparr>acc_users := acc_users db @ [\<lparr>ur_id = acc_nextId db, ur_identifier = normalized, ur_verified = True,
                                             ur_deleted = False, ur_roleIds = []\<rparr>],
               acc_nextId := Suc (acc_nextId db)\<rparr>))"

definition insert_admin :: "create_admin_input \<Rightarrow> string \<Rightarrow> ID \<Rightarrow> access_db \<Rightarrow> access_db" where
  "insert_admin inp email userId db =
     db\<lparr>acc_admins := acc_admins db @ [\<lparr>ar_id = acc_nextId db, ar_firstName = cai_firstName inp, ar_lastName = cai_lastName inp,
                                        ar_emailAddress = email, ar_deleted = False, ar_userId = userId\<rparr>],
        acc_nextId := Suc (acc_nextId db)\<rparr>"

definition admin_create :: "auth_context \<Rightarrow> create_admin_input \<Rightarrow> access_db \<Rightarrow> access_db result" where
  "admin_create ctx inp db =
     (let held = active_channels ctx db in
      bind_result (checkActiveUserCanGrantRoles held db (cai_roleIds inp)) (\<lambda>_.
      bind_result (normalizeEmailAddress (cai_emailAddress inp)) (\<lambda>normalizedEmail.
      bind_result (checkForDuplicateEmailAddress db normalizedEmail None) (\<lambda>_.
      bind_result (createAdminUser (cai_emailAddress inp) db) (\<lambda>(userId, db1).
        fold_result (assign_role held (acc_nextId db1)) (cai_roleIds inp) (insert_admin inp normalizedEmail userId db1))))))"

text \<open>The new email address of an update: \<^term>\<open>Some\<close> of it when the input has one that is not empty.\<close>

definition email_update :: "access_db \<Rightarrow> update_admin_input \<Rightarrow> string option result" where
  "email_update db inp =
     (case uai_emailAddress inp of
        None \<Rightarrow> Inr None
      | Some e \<Rightarrow>
          if e = [] then Inr None
          else bind_result (normalizeEmailAddress e) (\<lambda>normalized.
               bind_result (checkForDuplicateEmailAddress db normalized (Some (uai_id inp))) (\<lambda>_. Inr (Some normalized))))"

definition patch_admin :: "update_admin_input \<Rightarrow> string option \<Rightarrow> admin_row \<Rightarrow> access_db \<Rightarrow> access_db" where
  "patch_admin inp email a db =
     db\<lparr>acc_admins := map (\<lambda>x. if ar_id x = ar_id a
          then x\<lparr>ar_firstName := nullish (uai_firstName inp) (ar_firstName x),
                 ar_lastName := nullish (uai_lastName inp) (ar_lastName x),
                 ar_emailAddress := nullish email (nullish (uai_emailAddress inp) (ar_emailAddress x))\<rparr> else x) (acc_admins db),
        acc_users := (case email of None \<Rightarrow> acc_users db
          | Some e \<Rightarrow> map (\<lambda>u. if ur_id u = ar_userId a then u\<lparr>ur_identifier := e\<rparr> else u) (acc_users db))\<rparr>"

definition replace_roles :: "held \<Rightarrow> admin_row \<Rightarrow> ID list \<Rightarrow> access_db \<Rightarrow> access_db result" where
  "replace_roles held a roleIds db =
     bind_result (isSoleSuperadmin db (ar_id a)) (\<lambda>sole.
     bind_result (if sole then
                    bind_result (getSuperAdminRole db) (\<lambda>superAdminRole.
                      if List.find (\<lambda>i. idsAreEqual (Some i) (Some (role_id superAdminRole))) roleIds = None
                      then Inl (InternalServerError ''error.superadmin-must-have-superadmin-role'') else Inr ())
                  else Inr ()) (\<lambda>_.
       fold_result (assign_role held (ar_id a)) roleIds (set_roles (ar_userId a) (\<lambda>ids. []) db)))"

definition admin_update :: "auth_context \<Rightarrow> update_admin_input \<Rightarrow> access_db \<Rightarrow> access_db result" where
  "admin_update ctx inp db =
     (let held = active_channels ctx db in
      bind_result (admin_findOne held db (uai_id inp)) (\<lambda>administrator.
        case administrator of
          None \<Rightarrow> Inl (EntityNotFoundError ''Administrator'' (uai_id inp))
        | Some a \<Rightarrow>
            bind_result (case uai_roleIds inp of None \<Rightarrow> Inr () | Some is \<Rightarrow> checkActiveUserCanGrantRoles held db is) (\<lambda>_.
            bind_result (email_update db inp) (\<lambda>email.
              let db1 = patch_admin inp email a db
              in case uai_roleIds inp of None \<Rightarrow> Inr db1 | Some is \<Rightarrow> replace_roles held a is db1))))"

definition admin_assignRole :: "auth_context \<Rightarrow> ID \<Rightarrow> ID \<Rightarrow> access_db \<Rightarrow> access_db result" where
  "admin_assignRole ctx administratorId roleId db = assign_role (active_channels ctx db) administratorId roleId db"

text \<open>Soft deletion reads and checks first, then writes; the two parts are named, since other requests run between them.\<close>

definition softDelete_check :: "auth_context \<Rightarrow> ID \<Rightarrow> access_db \<Rightarrow> admin_row result" where
  "softDelete_check ctx i db =
     bind_result (admin_findOne (active_channels ctx db) db i) (\<lambda>administrator.
       case administrator of
         None \<Rightarrow> Inl (EntityNotFoundError ''Administrator'' i)
       | Some a \<Rightarrow> bind_result (isSoleSuperadmin db i) (\<lambda>sole.
           if sole then Inl (InternalServerError ''error.cannot-delete-sole-superadmin'') else Inr a))"

definition softDelete_write :: "admin_row \<Rightarrow> access_db \<Rightarrow> access_db result" where
  "softDelete_write a db =
     (let db1 = db\<lparr>acc_admins := map (\<lambda>x. if ar_id x = ar_id a then x\<lparr>ar_deleted := True\<rparr> else x) (acc_admins db)\<rparr>
      in bind_result (find_user db1 (ar_userId a)) (\<lambda>_.
           Inr (db1\<lparr>acc_users := map (\<lambda>u. if ur_id u = ar_userId a then u\<lparr>ur_deleted := True\<rparr> else u) (acc_users db1)\<rparr>)))"

definition admin_softDelete :: "auth_context \<Rightarrow> ID \<Rightarrow> access_db \<Rightarrow> access_db result" where
  "admin_softDelete ctx i db = bind_result (softDelete_check ctx i db) (\<lambda>a. softDelete_write a db)"

text \<open>
  \<^verbatim>\<open>deleteAdministrators\<close> starts one deletion per id and waits for all of them; each gets to its
  next query before another goes on, so the checks of all are made before the first write.
\<close>

fun check_all :: "auth_context \<Rightarrow> ID list \<Rightarrow> access_db \<Rightarrow> admin_row list result" where
  "check_all ctx [] db = Inr []"
| "check_all ctx (i # is) db =
     bind_result (softDelete_check ctx i db) (\<lambda>a. bind_result (check_all ctx is db) (\<lambda>as. Inr (a # as)))"

definition deleteAdministrators :: "auth_context \<Rightarrow> ID list \<Rightarrow> access_db \<Rightarrow> access_db result" where
  "deleteAdministrators ctx is db = bind_result (check_all ctx is db) (\<lambda>as. fold_result softDelete_write as db)"

text \<open>At startup the configured super administrator is created, or restored when it was deleted.\<close>

definition ensureSuperAdminExists :: "string \<Rightarrow> access_db \<Rightarrow> access_db result" where
  "ensureSuperAdminExists credentials db =
     (case List.find (\<lambda>u. ur_identifier u = credentials) (acc_users db) of
        None \<Rightarrow>
          bind_result (getSuperAdminRole db) (\<lambda>superAdminRole.
          bind_result (createAdminUser credentials db) (\<lambda>(userId, db1).
            Inr (set_roles userId (\<lambda>ids. ids @ [role_id superAdminRole])
              (insert_admin \<lparr>cai_firstName = ''Super'', cai_lastName = ''Admin'', cai_emailAddress = credentials, cai_roleIds = []\<rparr>
                 credentials userId db1))))
      | Some u \<Rightarrow>
          let db1 = (case List.find (\<lambda>a. ar_userId a = ur_id u) (acc_admins db) of
                       None \<Rightarrow> insert_admin \<lparr>cai_firstName = ''Super'', cai_lastName = ''Admin'', cai_emailAddress = credentials,
                                               cai_roleIds = []\<rparr> credentials (ur_id u) db
                     | Some a \<Rightarrow> db\<lparr>acc_admins := map (\<lambda>x. if ar_id x = ar_id a then x\<lparr>ar_deleted := False\<rparr> else x) (acc_admins db)\<rparr>)
          in Inr (db1\<lparr>acc_users := map (\<lambda>x. if ur_id x = ur_id u then x\<lparr>ur_deleted := False\<rparr> else x) (acc_users db1)\<rparr>))"

end
