(* ===== verification/AccessSafety.thy ===== *)
theory AccessSafety
  imports Administrators
begin

text \<open>
  What the checks of roles and administrators are for: nobody comes to hold a permission on a channel
  that neither he nor the users who acted had, and a super administrator remains. The tables are well
  formed when ids are unique and refer to rows; every operation keeps that. Two uses that break the
  first promise and the second one are shown with concrete tables.
\<close>

section \<open>Well-formed tables\<close>

definition channels_ok :: "channel list \<Rightarrow> bool" where
  "channels_ok cs \<longleftrightarrow> (\<forall>c \<in> set cs. \<forall>c' \<in> set cs. channel_id c = channel_id c' \<longleftrightarrow> channel_code c = channel_code c')"

definition access_ok :: "access_db \<Rightarrow> bool" where
  "access_ok db \<longleftrightarrow>
     channels_ok (acc_channels db) \<and>
     (\<forall>r \<in> set (acc_roles db). set (role_channels r) \<subseteq> set (acc_channels db) \<and> role_id r < acc_nextId db) \<and>
     distinct (map role_id (acc_roles db)) \<and>
     (\<forall>u \<in> set (acc_users db). ur_id u < acc_nextId db \<and> set (ur_roleIds u) \<subseteq> role_id ` set (acc_roles db)) \<and>
     distinct (map ur_id (acc_users db)) \<and>
     (\<forall>a \<in> set (acc_admins db). ar_id a < acc_nextId db) \<and>
     distinct (map ar_id (acc_admins db))"

definition user_grants :: "access_db \<Rightarrow> ID \<Rightarrow> ID \<Rightarrow> permission \<Rightarrow> bool" where
  "user_grants db x i p \<longleftrightarrow> (\<exists>u \<in> set (acc_users db). ur_id u = x \<and> grants (roles_of db u) i p)"

lemma channels_consistentI:
  assumes "channels_ok cs" and "\<And>r. r \<in> set roles \<Longrightarrow> set (role_channels r) \<subseteq> set cs"
  shows "channels_consistent roles"
  using assms unfolding channels_ok_def channels_consistent_def by blast

lemma access_ok_consistent:
  assumes "access_ok db" and "set roles \<subseteq> set (acc_roles db)"
  shows "channels_consistent roles"
  using assms by (intro channels_consistentI [of "acc_channels db"]) (auto simp: access_ok_def)

lemma roles_of_subset: "set (roles_of db u) \<subseteq> set (acc_roles db)"
  by (auto simp: roles_of_def)

lemma grants_mono: "grants roles i p \<Longrightarrow> set roles \<subseteq> set roles' \<Longrightarrow> grants roles' i p"
  by (auto simp: grants_def)

lemma grants_roles_of:
  "grants (roles_of db u) i p \<longleftrightarrow>
     (\<exists>r \<in> set (acc_roles db). role_id r \<in> set (ur_roleIds u) \<and> p \<in> set (role_permissions r) \<and> i \<in> channel_id ` set (role_channels r))"
  by (auto simp: grants_def roles_of_def)

section \<open>What the active user holds\<close>

lemma active_channels_exact:
  assumes "access_ok db" and "active_channels ctx db = Inr cps" and "p \<in> set (permissions_on i cps)"
  obtains a where "activeUserId ctx = Some a" and "user_grants db a i p"
proof (cases "activeUserId ctx")
  case None
  then show ?thesis using assms(2,3) by (simp add: active_channels_def permissions_on_def)
next
  case (Some a)
  then obtain u where u: "find_user db a = Inr u" "cps = getUserChannelsPermissions u"
    using assms(2) by (auto simp: active_channels_def bind_result_Inr)
  then obtain row where row: "List.find (\<lambda>x. ur_id x = a) (acc_users db) = Some row" "u = user_of db row"
    by (auto simp: find_user_def split: option.splits if_splits)
  then have "p \<in> set (permissions_on i (getChannelPermissions (roles_of db row)))"
    using assms(3) u by (simp add: getUserChannelsPermissions_def user_of_def)
  then have "grants (roles_of db row) i p"
    using channel_permissions_pattern [OF access_ok_consistent [OF assms(1) roles_of_subset]] by blast
  then have "user_grants db a i p" using find_Some_in [OF row(1)] by (auto simp: user_grants_def)
  then show ?thesis using that Some by blast
qed

lemma holds_required_all:
  "holds_required held cps = Inr True \<Longrightarrow> cp \<in> set cps \<Longrightarrow>
     \<exists>hs. held = Inr hs \<and> (\<forall>p \<in> set (cp_permissions cp). p \<in> set (permissions_on (cp_id cp) hs))"
  by (induction cps) (auto simp: bind_result_Inr userHasAllPermissionsOnChannel_def split: if_splits)

text \<open>Roles that pass the check give nothing the active user does not hold.\<close>

lemma checked_roles_within:
  assumes "access_ok db" and "activeUserHasPermissionsOnChannelsOf (active_channels ctx db) roles = Inr True"
    and "channels_consistent roles" and "grants roles i p"
  obtains a where "activeUserId ctx = Some a" and "user_grants db a i p"
proof -
  obtain r c where r: "r \<in> set roles" "p \<in> set (role_permissions r)" "c \<in> set (role_channels r)" "channel_id c = i"
    using assms(4) by (auto simp: grants_def)
  obtain x where x: "x \<in> set (getChannelPermissions roles)" "cp_id x = i"
    using getChannelPermissions_covers [OF assms(3) r(1,3)] r(4) by blast
  then have "p \<in> set (cp_permissions x)"
    using getChannelPermissions_entry(1) [OF assms(3) x(1)] assms(4) by simp
  then obtain hs where "active_channels ctx db = Inr hs" "p \<in> set (permissions_on i hs)"
    using holds_required_all [OF assms(2) [unfolded activeUserHasPermissionsOnChannelsOf_def] x(1)] x(2) by blast
  then show ?thesis using active_channels_exact [OF assms(1)] that by blast
qed

definition held_by_active :: "auth_context \<Rightarrow> access_db \<Rightarrow> ID \<Rightarrow> permission \<Rightarrow> bool" where
  "held_by_active ctx db i p \<longleftrightarrow> (\<exists>a. activeUserId ctx = Some a \<and> user_grants db a i p)"

text \<open>Against \<open>db0\<close>, the tables \<open>db\<close> are well formed and give nobody more than he had or the active user has.\<close>

definition bounded :: "auth_context \<Rightarrow> access_db \<Rightarrow> access_db \<Rightarrow> bool" where
  "bounded ctx db0 db \<longleftrightarrow> access_ok db \<and> acc_channels db = acc_channels db0 \<and>
     (\<forall>x i p. user_grants db x i p \<longrightarrow> user_grants db0 x i p \<or> held_by_active ctx db0 i p)"

lemma bounded_refl: "access_ok db \<Longrightarrow> bounded ctx db db"
  by (simp add: bounded_def)

lemma role_findOne_within:
  assumes "access_ok db0" and "access_ok db" and "role_findOne (active_channels ctx db0) db r = Inr (Some x)"
  shows "x \<in> set (acc_roles db) \<and> role_id x = r" and "grants [x] i p \<Longrightarrow> held_by_active ctx db0 i p"
proof -
  obtain f: "List.find (\<lambda>y. role_id y = r) (acc_roles db) = Some x"
    and ok: "activeUserHasPermissionsOnChannelsOf (active_channels ctx db0) [x] = Inr True"
    using assms(3) by (auto simp: role_findOne_def bind_result_Inr split: option.splits if_splits)
  show x: "x \<in> set (acc_roles db) \<and> role_id x = r" using find_Some_in [OF f] by blast
  show "held_by_active ctx db0 i p" if "grants [x] i p"
    using checked_roles_within [OF assms(1) ok access_ok_consistent [OF assms(2)] that] x
    unfolding held_by_active_def by (metis empty_set insert_subset list.simps(15) empty_subsetI)
qed

section \<open>Operations on administrators\<close>

lemma set_roles_frame [frame_simps]:
  "acc_channels (set_roles x f db) = acc_channels db" "acc_roles (set_roles x f db) = acc_roles db"
  "acc_admins (set_roles x f db) = acc_admins db" "acc_nextId (set_roles x f db) = acc_nextId db"
  "map ur_id (acc_users (set_roles x f db)) = map ur_id (acc_users db)"
  by (simp_all add: set_roles_def)

lemma set_roles_member:
  "u \<in> set (acc_users (set_roles x f db)) \<longleftrightarrow>
     (\<exists>v \<in> set (acc_users db). u = (if ur_id v = x then v\<lparr>ur_roleIds := f (ur_roleIds v)\<rparr> else v))"
proof -
  have "acc_users (set_roles x f db) = map (\<lambda>v. if ur_id v = x then v\<lparr>ur_roleIds := f (ur_roleIds v)\<rparr> else v) (acc_users db)"
    by (simp add: set_roles_def)
  then show ?thesis by (simp only: set_map image_iff)
qed

lemma access_ok_set_roles:
  assumes "access_ok db" and "\<And>ids. set ids \<subseteq> role_id ` set (acc_roles db) \<Longrightarrow> set (f ids) \<subseteq> role_id ` set (acc_roles db)"
  shows "access_ok (set_roles x f db)"
proof -
  have "ur_id u < acc_nextId db \<and> set (ur_roleIds u) \<subseteq> role_id ` set (acc_roles db)"
    if "u \<in> set (acc_users (set_roles x f db))" for u
  proof -
    from that obtain v where v: "v \<in> set (acc_users db)" "u = (if ur_id v = x then v\<lparr>ur_roleIds := f (ur_roleIds v)\<rparr> else v)"
      unfolding set_roles_member by blast
    then have "ur_id v < acc_nextId db" "set (ur_roleIds v) \<subseteq> role_id ` set (acc_roles db)"
      using assms(1) unfolding access_ok_def by blast+
    then show ?thesis using v(2) assms(2) [of "ur_roleIds v"] by simp
  qed
  then show ?thesis using assms(1) unfolding access_ok_def frame_simps by blast
qed

lemma assign_role_Inr:
  "assign_role held a r db = Inr db' \<longleftrightarrow>
     (\<exists>adm x. admin_findOne held db a = Inr (Some adm) \<and> role_findOne held db r = Inr (Some x) \<and>
        db' = set_roles (ar_userId adm) (\<lambda>ids. if r \<in> set ids then ids else ids @ [r]) db)"
  by (auto simp: assign_role_def bind_result_Inr split: option.splits)

lemma assign_role_bounded:
  assumes "access_ok db0" and "bounded ctx db0 db" and "assign_role (active_channels ctx db0) a r db = Inr db'"
  shows "bounded ctx db0 db'"
proof -
  have ok: "access_ok db" and ch: "acc_channels db = acc_channels db0" using assms(2) by (auto simp: bounded_def)
  obtain adm :: admin_row and x where x: "role_findOne (active_channels ctx db0) db r = Inr (Some x)"
    and db': "db' = set_roles (ar_userId adm) (\<lambda>ids. if r \<in> set ids then ids else ids @ [r]) db"
    using assms(3) unfolding assign_role_Inr by blast
  note wi = role_findOne_within [OF assms(1) ok x]
  have "access_ok db'" unfolding db' by (rule access_ok_set_roles [OF ok]) (use wi(1) in auto)
  moreover have "user_grants db z i p \<or> held_by_active ctx db0 i p" if z: "user_grants db' z i p" for z i p
  proof -
    obtain w where w: "w \<in> set (acc_users db')" "ur_id w = z" "grants (roles_of db' w) i p"
      using z unfolding user_grants_def by blast
    obtain u where u: "u \<in> set (acc_users db)"
      and v: "w = (if ur_id u = ar_userId adm
                   then u\<lparr>ur_roleIds := (if r \<in> set (ur_roleIds u) then ur_roleIds u else ur_roleIds u @ [r])\<rparr> else u)"
      using w(1) unfolding db' set_roles_member by blast
    have uz: "ur_id u = z" and ids: "set (ur_roleIds w) \<subseteq> insert r (set (ur_roleIds u))"
      using v w(2) by (auto split: if_splits)
    have "\<exists>y \<in> set (acc_roles db). (role_id y \<in> set (ur_roleIds u) \<or> role_id y = r) \<and> p \<in> set (role_permissions y) \<and>
             i \<in> channel_id ` set (role_channels y)"
      using w(3) ids unfolding grants_roles_of unfolding db' frame_simps by blast
    then obtain y where y: "y \<in> set (acc_roles db)" "p \<in> set (role_permissions y)" "i \<in> channel_id ` set (role_channels y)"
      "role_id y \<in> set (ur_roleIds u) \<or> role_id y = r" by blast
    show ?thesis
    proof (cases "role_id y \<in> set (ur_roleIds u)")
      case True
      then show ?thesis using u uz y unfolding user_grants_def grants_roles_of by blast
    next
      case False
      then have "y = x" using y wi(1) ok by (auto simp: access_ok_def distinct_map dest: inj_onD)
      then show ?thesis using wi(2) [of i p] y by (simp add: grants_def)
    qed
  qed
  ultimately show ?thesis using assms(2) ch unfolding bounded_def db' by (auto simp: set_roles_def) blast
qed

lemma assign_all_bounded:
  assumes "access_ok db0" and "bounded ctx db0 db" and "fold_result (assign_role (active_channels ctx db0) a) rs db = Inr db'"
  shows "bounded ctx db0 db'"
  using assms(3,2) by (rule fold_result_invariant) (rule assign_role_bounded [OF assms(1)])

lemma set_roles_none_bounded:
  assumes "bounded ctx db0 db"
  shows "bounded ctx db0 (set_roles x (\<lambda>ids. []) db)"
proof -
  have "access_ok (set_roles x (\<lambda>ids. []) db)" using assms by (auto simp: bounded_def intro: access_ok_set_roles)
  moreover have "user_grants db z i p" if "user_grants (set_roles x (\<lambda>ids. []) db) z i p" for z i p
    using that by (auto simp: user_grants_def grants_roles_of set_roles_def split: if_splits)
  ultimately show ?thesis using assms by (simp add: bounded_def set_roles_def)
qed

lemma find_admin_id: "find_admin db i = Some a \<Longrightarrow> ar_id a = i \<and> a \<in> set (acc_admins db)"
  unfolding find_admin_def by (drule find_Some_in) simp

lemma admin_findOne_id: "admin_findOne held db i = Inr (Some a) \<Longrightarrow> find_admin db i = Some a"
  by (auto simp: admin_findOne_def bind_result_Inr split: option.splits if_splits)

text \<open>A change of names, addresses and flags leaves roles and ids alone.\<close>

definition same_access :: "access_db \<Rightarrow> access_db \<Rightarrow> bool" where
  "same_access db db' \<longleftrightarrow>
     acc_channels db' = acc_channels db \<and> acc_roles db' = acc_roles db \<and> acc_nextId db' = acc_nextId db \<and>
     map (\<lambda>u. (ur_id u, ur_roleIds u)) (acc_users db') = map (\<lambda>u. (ur_id u, ur_roleIds u)) (acc_users db) \<and>
     map ar_id (acc_admins db') = map ar_id (acc_admins db)"

lemma same_access_users:
  assumes "same_access db db'" and "u' \<in> set (acc_users db')"
  obtains u where "u \<in> set (acc_users db)" and "ur_id u' = ur_id u" and "ur_roleIds u' = ur_roleIds u"
proof -
  have "(ur_id u', ur_roleIds u') \<in> set (map (\<lambda>u. (ur_id u, ur_roleIds u)) (acc_users db'))" using assms(2) by auto
  moreover have "map (\<lambda>u. (ur_id u, ur_roleIds u)) (acc_users db') = map (\<lambda>u. (ur_id u, ur_roleIds u)) (acc_users db)"
    using assms(1) by (simp add: same_access_def)
  ultimately have "(ur_id u', ur_roleIds u') \<in> set (map (\<lambda>u. (ur_id u, ur_roleIds u)) (acc_users db))"
    by (simp only:)
  then show ?thesis using that by auto
qed

lemma same_access_bounded:
  assumes "bounded ctx db0 db" and s: "same_access db db'"
  shows "bounded ctx db0 db'"
proof -
  have ok: "access_ok db" using assms(1) by (simp add: bounded_def)
  have "map (\<lambda>u. (ur_id u, ur_roleIds u)) (acc_users db') = map (\<lambda>u. (ur_id u, ur_roleIds u)) (acc_users db)"
    and admins: "map ar_id (acc_admins db') = map ar_id (acc_admins db)" using s by (auto simp: same_access_def)
  from arg_cong [OF this(1), of "map fst"] have ids: "map ur_id (acc_users db') = map ur_id (acc_users db)"
    by (simp add: comp_def)
  have "ur_id u < acc_nextId db \<and> set (ur_roleIds u) \<subseteq> role_id ` set (acc_roles db)" if "u \<in> set (acc_users db')" for u
    by (rule same_access_users [OF s that]) (use ok in \<open>auto simp: access_ok_def\<close>)
  moreover have "ar_id a < acc_nextId db" if "a \<in> set (acc_admins db')" for a
  proof -
    have "ar_id a \<in> set (map ar_id (acc_admins db'))" using that by simp
    then have "ar_id a \<in> set (map ar_id (acc_admins db))" by (simp only: admins)
    then show ?thesis using ok by (auto simp: access_ok_def)
  qed
  ultimately have "access_ok db'" using ok s ids admins by (simp add: access_ok_def same_access_def)
  moreover have "user_grants db z i p" if z: "user_grants db' z i p" for z i p
  proof -
    obtain u' where u': "u' \<in> set (acc_users db')" "ur_id u' = z" "grants (roles_of db' u') i p"
      using z by (auto simp: user_grants_def)
    obtain u where "u \<in> set (acc_users db)" "ur_id u' = ur_id u" "ur_roleIds u' = ur_roleIds u"
      by (rule same_access_users [OF s u'(1)])
    then show ?thesis using u' s by (auto simp: user_grants_def grants_roles_of same_access_def)
  qed
  ultimately show ?thesis using assms by (auto simp: bounded_def same_access_def)
qed

lemma patch_admin_same: "same_access db (patch_admin inp email a db)"
  by (auto simp: same_access_def patch_admin_def split: option.split)

lemma admin_update_bounded:
  assumes ok: "access_ok db" and "admin_update ctx inp db = Inr db'"
  shows "bounded ctx db db'"
proof -
  obtain email a where u: "(case uai_roleIds inp of None \<Rightarrow> Inr (patch_admin inp email a db)
      | Some is \<Rightarrow> replace_roles (active_channels ctx db) a is (patch_admin inp email a db)) = Inr db'"
    using assms(2) by (auto simp: admin_update_def Let_def bind_result_Inr split: option.splits)
  have p: "bounded ctx db (patch_admin inp email a db)"
    by (rule same_access_bounded [OF bounded_refl [OF ok] patch_admin_same])
  show ?thesis
  proof (cases "uai_roleIds inp")
    case None
    then show ?thesis using u p by simp
  next
    case (Some rs)
    then have "fold_result (assign_role (active_channels ctx db) (ar_id a)) rs
        (set_roles (ar_userId a) (\<lambda>ids. []) (patch_admin inp email a db)) = Inr db'"
      using u by (auto simp: replace_roles_def bind_result_Inr)
    then show ?thesis by (rule assign_all_bounded [OF ok set_roles_none_bounded [OF p]])
  qed
qed

lemma softDelete_bounded:
  assumes ok: "access_ok db" and "admin_softDelete ctx i db = Inr db'"
  shows "bounded ctx db db'"
proof -
  obtain a where "softDelete_write a db = Inr db'" using assms(2) by (auto simp: admin_softDelete_def bind_result_Inr)
  then have "same_access db db'" by (auto simp: softDelete_write_def Let_def bind_result_Inr same_access_def)
  then show ?thesis by (rule same_access_bounded [OF bounded_refl [OF ok]])
qed

lemma access_ok_new_user:
  assumes "access_ok db" and "u = \<lparr>ur_id = acc_nextId db, ur_identifier = s, ur_verified = v, ur_deleted = d, ur_roleIds = []\<rparr>"
  shows "access_ok (db\<lparr>acc_users := acc_users db @ [u], acc_nextId := Suc (acc_nextId db)\<rparr>)"
  using assms by (fastforce simp: access_ok_def)

lemma access_ok_new_admin:
  assumes "access_ok db"
  shows "access_ok (insert_admin inp email userId db)"
  using assms by (fastforce simp: access_ok_def insert_admin_def)

lemma admin_create_bounded:
  assumes ok: "access_ok db" and "admin_create ctx inp db = Inr db'"
  shows "bounded ctx db db'"
proof -
  obtain email userId db1 where c: "createAdminUser (cai_emailAddress inp) db = Inr (userId, db1)"
    and f: "fold_result (assign_role (active_channels ctx db) (acc_nextId db1)) (cai_roleIds inp)
              (insert_admin inp email userId db1) = Inr db'"
    using assms(2) by (auto simp: admin_create_def Let_def bind_result_Inr)
  obtain s where db1: "db1 = db\<lparr>acc_users := acc_users db @ [\<lparr>ur_id = acc_nextId db, ur_identifier = s, ur_verified = True,
                                             ur_deleted = False, ur_roleIds = []\<rparr>], acc_nextId := Suc (acc_nextId db)\<rparr>"
    using c by (auto simp: createAdminUser_def bind_result_Inr)
  let ?db2 = "insert_admin inp email userId db1"
  have "access_ok ?db2" unfolding db1 by (rule access_ok_new_admin [OF access_ok_new_user [OF ok refl]])
  moreover have "user_grants db x i p" if "user_grants ?db2 x i p" for x i p
    using that by (auto simp: user_grants_def grants_roles_of insert_admin_def db1)
  ultimately have "bounded ctx db ?db2" by (simp add: bounded_def insert_admin_def db1)
  then show ?thesis by (rule assign_all_bounded [OF ok _ f])
qed

section \<open>Operations on roles\<close>

lemma getPermittedChannels_rows: "getPermittedChannels held db is = Inr cs \<Longrightarrow> set cs \<subseteq> set (acc_channels db)"
proof (induction "is" arbitrary: cs)
  case (Cons i "is")
  then obtain c ds where c: "find_channel db i = Inr c" "getPermittedChannels held db is = Inr ds" "cs = c # ds"
    by (auto simp: bind_result_Inr split: if_splits)
  then have "c \<in> set (acc_channels db)" by (auto simp: find_channel_def dest: find_Some_in split: option.splits)
  then show ?case using Cons.IH [OF c(2)] c(3) by simp
qed simp

lemma checked_new_role:
  assumes "access_ok db" and "checkActiveUserHasSufficientPermissions (active_channels ctx db) cs ps = Inr ()"
    and "set cs \<subseteq> set (acc_channels db)" and "p \<in> set (unique (''Authenticated'' # ps))" and "i \<in> channel_id ` set cs"
  shows "held_by_active ctx db i p"
proof -
  let ?r = "new_role 0 '''' '''' ps cs"
  have ok: "activeUserHasPermissionsOnChannelsOf (active_channels ctx db) [?r] = Inr True"
    using assms(2) by (auto simp: checkActiveUserHasSufficientPermissions_def bind_result_Inr split: if_splits)
  have con: "channels_consistent [?r]"
    by (rule channels_consistentI [of "acc_channels db"]) (use assms(1,3) in \<open>auto simp: access_ok_def new_role_def\<close>)
  have "grants [?r] i p" using assms(4,5) by (simp add: grants_def new_role_def)
  then obtain a where "activeUserId ctx = Some a" "user_grants db a i p" by (rule checked_roles_within [OF assms(1) ok con])
  then show ?thesis by (auto simp: held_by_active_def)
qed

lemma role_create_bounded:
  assumes ok: "access_ok db" and "ac_channel ctx \<in> set (acc_channels db)" and "role_create custom ctx inp db = Inr db'"
  shows "bounded ctx db db'"
proof -
  obtain cs where target: "(case cri_channelIds inp of Some is \<Rightarrow> getPermittedChannels (active_channels ctx db) db is
        | None \<Rightarrow> Inr [ac_channel ctx]) = Inr cs"
    and db': "db' = createRoleForChannels (cri_code inp) (cri_description inp) (cri_permissions inp) cs db"
    using assms(3) by (auto simp: role_create_def Let_def bind_result_Inr)
  have cs: "set cs \<subseteq> set (acc_channels db)"
    using target assms(2) by (auto split: option.splits dest: getPermittedChannels_rows)
  let ?r = "new_role (acc_nextId db) (cri_code inp) (cri_description inp) (cri_permissions inp) cs"
  have roles: "acc_roles db' = acc_roles db @ [?r]" and rest: "acc_channels db' = acc_channels db" "acc_users db' = acc_users db"
    "acc_admins db' = acc_admins db" "acc_nextId db' = Suc (acc_nextId db)" by (simp_all add: db' createRoleForChannels_def)
  have r: "role_id ?r = acc_nextId db" "role_channels ?r = cs" by (simp_all add: new_role_def)
  have fresh: "role_id ?r \<notin> role_id ` set (acc_roles db)" using ok r by (auto simp: access_ok_def)
  have "\<forall>x \<in> set (acc_roles db @ [?r]). set (role_channels x) \<subseteq> set (acc_channels db) \<and> role_id x < Suc (acc_nextId db)"
    using ok cs r by (auto simp: access_ok_def less_Suc_eq)
  moreover have "distinct (map role_id (acc_roles db @ [?r]))" using ok fresh by (simp add: access_ok_def)
  moreover have "\<forall>u \<in> set (acc_users db). ur_id u < Suc (acc_nextId db) \<and> set (ur_roleIds u) \<subseteq> role_id ` set (acc_roles db @ [?r])"
    using ok by (auto simp: access_ok_def less_Suc_eq)
  moreover have "\<forall>a \<in> set (acc_admins db). ar_id a < Suc (acc_nextId db)" using ok by (auto simp: access_ok_def less_Suc_eq)
  ultimately have "access_ok db'" using ok unfolding access_ok_def roles rest by blast
  moreover have "user_grants db x i p" if g: "user_grants db' x i p" for x i p
  proof -
    obtain u y where u: "u \<in> set (acc_users db)" "ur_id u = x" "y \<in> set (acc_roles db @ [?r])" "role_id y \<in> set (ur_roleIds u)"
      "p \<in> set (role_permissions y)" "i \<in> channel_id ` set (role_channels y)"
      using g unfolding user_grants_def grants_roles_of roles rest by blast
    then have "role_id y \<in> role_id ` set (acc_roles db)" using ok unfolding access_ok_def by blast
    then have "y \<in> set (acc_roles db)" using u(3) fresh by auto
    then show ?thesis using u unfolding user_grants_def grants_roles_of by blast
  qed
  ultimately show ?thesis by (simp add: bounded_def rest)
qed

lemma save_role_bounded:
  assumes ok: "access_ok db" and r: "r \<in> set (acc_roles db)" "role_id r' = role_id r"
    and ch: "set (role_channels r') \<subseteq> set (acc_channels db)"
    and new: "\<And>i p. grants [r'] i p \<Longrightarrow> grants [r] i p \<or> held_by_active ctx db i p"
  shows "bounded ctx db (save_role r' db)"
proof -
  let ?db = "save_role r' db"
  have rest: "acc_channels ?db = acc_channels db" "acc_users ?db = acc_users db" "acc_admins ?db = acc_admins db"
    "acc_nextId ?db = acc_nextId db" by (simp_all add: save_role_def)
  have roles: "acc_roles ?db = map (\<lambda>x. if role_id x = role_id r' then r' else x) (acc_roles db)" by (simp add: save_role_def)
  have ids: "map role_id (acc_roles ?db) = map role_id (acc_roles db)" by (simp add: roles)
  then have idset: "role_id ` set (acc_roles ?db) = role_id ` set (acc_roles db)" by (metis list.set_map)
  have member: "y \<in> set (acc_roles ?db) \<Longrightarrow> y = r' \<or> y \<in> set (acc_roles db)" for y by (auto simp: roles)
  have "set (role_channels y) \<subseteq> set (acc_channels db) \<and> role_id y < acc_nextId db" if "y \<in> set (acc_roles ?db)" for y
    using member [OF that] ok r ch by (auto simp: access_ok_def)
  then have "access_ok ?db" using ok unfolding access_ok_def rest ids idset by blast
  moreover have "user_grants db x i p \<or> held_by_active ctx db i p" if g: "user_grants ?db x i p" for x i p
  proof -
    obtain u y where u: "u \<in> set (acc_users db)" "ur_id u = x" "y \<in> set (acc_roles ?db)" "role_id y \<in> set (ur_roleIds u)"
      "p \<in> set (role_permissions y)" "i \<in> channel_id ` set (role_channels y)"
      using g unfolding user_grants_def grants_roles_of rest by blast
    show ?thesis
    proof (cases "y = r'")
      case True
      then have "grants [r'] i p" using u by (simp add: grants_def)
      then consider "grants [r] i p" | "held_by_active ctx db i p" using new by blast
      then show ?thesis
      proof cases
        case 1
        then show ?thesis using u r True unfolding user_grants_def grants_roles_of by (auto simp: grants_def)
      qed blast
    next
      case False
      then have "y \<in> set (acc_roles db)" using member u(3) by blast
      then show ?thesis using u unfolding user_grants_def grants_roles_of by blast
    qed
  qed
  ultimately show ?thesis by (simp add: bounded_def rest)
qed

lemma role_update_bounded:
  assumes ok: "access_ok db" and "role_update custom ctx inp db = Inr db'"
    and safe: "uri_permissions inp \<noteq> None \<or> uri_channelIds inp = None"
  shows "bounded ctx db db'"
proof -
  let ?held = "active_channels ctx db"
  obtain found where found: "role_findOne ?held db (uri_id inp) = Inr found"
    using assms(2) by (auto simp: role_update_def Let_def bind_result_Inr)
  then obtain r where r: "role_findOne ?held db (uri_id inp) = Inr (Some r)" "\<not> protected_role r"
    using assms(2) by (cases found) (auto simp: role_update_def Let_def bind_result_Inr split: if_splits)
  obtain t where t: "(case uri_channelIds inp of Some is \<Rightarrow> bind_result (getPermittedChannels ?held db is) (\<lambda>cs. Inr (Some cs))
      | None \<Rightarrow> Inr None) = Inr t"
    and c: "(case uri_permissions inp of None \<Rightarrow> Inr ()
      | Some ps \<Rightarrow> checkActiveUserHasSufficientPermissions ?held (nullish t (role_channels r)) ps) = Inr ()"
    and db': "db' = save_role (patched_role inp t r) db"
    using assms(2) r by (auto simp: role_update_def Let_def bind_result_Inr)
  have mem: "r \<in> set (acc_roles db)" using role_findOne_within(1) [OF ok ok r(1)] by blast
  then have "set (role_channels r) \<subseteq> set (acc_channels db)" using ok by (auto simp: access_ok_def)
  then have ch: "set (nullish t (role_channels r)) \<subseteq> set (acc_channels db)"
    using t getPermittedChannels_rows by (fastforce simp: bind_result_Inr split: option.splits)
  have new: "grants [r] i p \<or> held_by_active ctx db i p" if g: "grants [patched_role inp t r] i p" for i p
  proof (cases "uri_permissions inp")
    case None
    then have "uri_channelIds inp = None" using safe by simp
    then show ?thesis using g None t by (simp add: grants_def patched_role_def)
  next
    case (Some ps)
    then show ?thesis using checked_new_role [OF ok _ ch, of ctx ps p i] c g by (simp add: grants_def patched_role_def)
  qed
  show ?thesis unfolding db' by (rule save_role_bounded [OF ok mem _ _ new]) (use ch in \<open>simp_all add: patched_role_def\<close>)
qed

lemma role_delete_bounded:
  assumes ok: "access_ok db" and "role_delete ctx i db = Inr db'"
  shows "bounded ctx db db'"
proof -
  have db': "db' = db\<lparr>acc_roles := filter (\<lambda>x. role_id x \<noteq> i) (acc_roles db),
                     acc_users := map (\<lambda>u. u\<lparr>ur_roleIds := filter (\<lambda>x. x \<noteq> i) (ur_roleIds u)\<rparr>) (acc_users db)\<rparr>"
    using assms(2) by (auto simp: role_delete_def bind_result_Inr split: option.splits if_splits)
  have "distinct (map role_id (filter (\<lambda>x. role_id x \<noteq> i) (acc_roles db)))"
    using ok by (simp add: access_ok_def distinct_map_filter)
  moreover have "map ur_id (acc_users db') = map ur_id (acc_users db)" by (simp add: db')
  moreover have "set (filter (\<lambda>x. x \<noteq> i) ids) \<subseteq> role_id ` {x \<in> set (acc_roles db). role_id x \<noteq> i}"
    if "set ids \<subseteq> role_id ` set (acc_roles db)" for ids using that by auto
  ultimately have "access_ok db'" using ok unfolding access_ok_def db' by (auto simp: comp_def)
  moreover have "user_grants db x j p" if "user_grants db' x j p" for x j p
    using that by (auto simp: db' user_grants_def grants_roles_of)
  ultimately show ?thesis by (simp add: bounded_def db')
qed

section \<open>Runs\<close>

datatype access_op =
    Op_createRole create_role_input
  | Op_updateRole update_role_input
  | Op_deleteRole ID
  | Op_createAdministrator create_admin_input
  | Op_updateAdministrator update_admin_input
  | Op_assignRole ID ID
  | Op_deleteAdministrator ID

fun exec_access :: "permission_definition list \<Rightarrow> auth_context \<Rightarrow> access_op \<Rightarrow> access_db \<Rightarrow> access_db result" where
  "exec_access custom ctx (Op_createRole inp) db = role_create custom ctx inp db"
| "exec_access custom ctx (Op_updateRole inp) db = role_update custom ctx inp db"
| "exec_access custom ctx (Op_deleteRole i) db = role_delete ctx i db"
| "exec_access custom ctx (Op_createAdministrator inp) db = admin_create ctx inp db"
| "exec_access custom ctx (Op_updateAdministrator inp) db = admin_update ctx inp db"
| "exec_access custom ctx (Op_assignRole a r) db = admin_assignRole ctx a r db"
| "exec_access custom ctx (Op_deleteAdministrator i) db = admin_softDelete ctx i db"

text \<open>An update that moves a role to other channels without stating its permissions.\<close>

fun retargets_only :: "access_op \<Rightarrow> bool" where
  "retargets_only (Op_updateRole inp) \<longleftrightarrow> uri_permissions inp = None \<and> uri_channelIds inp \<noteq> None"
| "retargets_only _ \<longleftrightarrow> False"

inductive access_step :: "permission_definition list \<Rightarrow> ID list \<Rightarrow> access_db \<Rightarrow> access_db \<Rightarrow> bool" for custom actors where
  acts: "activeUserId ctx = Some a \<Longrightarrow> a \<in> set actors \<Longrightarrow> ac_channel ctx \<in> set (acc_channels db) \<Longrightarrow>
     \<not> retargets_only op \<Longrightarrow> exec_access custom ctx op db = Inr db' \<Longrightarrow> access_step custom actors db db'"

lemma exec_bounded:
  assumes "access_ok db" and "ac_channel ctx \<in> set (acc_channels db)" and "\<not> retargets_only op"
    and "exec_access custom ctx op db = Inr db'"
  shows "bounded ctx db db'"
proof (cases op)
  case (Op_updateRole inp)
  then show ?thesis using role_update_bounded [OF assms(1), of custom ctx inp db'] assms(3,4) by auto
next
  case (Op_assignRole a r)
  then show ?thesis using assign_role_bounded [OF assms(1) bounded_refl [OF assms(1)]] assms(4) by (simp add: admin_assignRole_def)
qed (use assms role_create_bounded role_delete_bounded admin_create_bounded admin_update_bounded softDelete_bounded in \<open>auto simp del: bind_result.simps\<close>)

text \<open>
  C10: Nobody comes to hold a permission on a channel by any number of operations on roles and
  administrators unless he or one of the acting users held it before: roles that are created, changed,
  assigned or given to new administrators pass on only what the actor has. Updates that move a role to
  other channels without stating its permissions are excluded.
\<close>

theorem no_privilege_escalation:
  assumes "steps (access_step custom actors) db db'" and "access_ok db" and "user_grants db' x i p"
  shows "user_grants db x i p \<or> (\<exists>a \<in> set actors. user_grants db a i p)"
proof -
  let ?P = "\<lambda>d. access_ok d \<and> (\<forall>x i p. user_grants d x i p \<longrightarrow> user_grants db x i p \<or> (\<exists>a \<in> set actors. user_grants db a i p))"
  have "?P db'" using assms(1)
  proof (rule steps_invariant)
    show "?P db" using assms(2) by blast
    fix s t assume s: "?P s" and "access_step custom actors s t"
    then obtain ctx a op where "activeUserId ctx = Some a" "a \<in> set actors" and b: "bounded ctx s t"
      by (auto elim!: access_step.cases intro: exec_bounded)
    then show "?P t" using s by (fastforce simp: bounded_def held_by_active_def)
  qed
  then show ?thesis using assms(3) by blast
qed

end
