(* ===== verification/AccessUses.thy ===== *)
theory AccessUses
  imports AccessSafety
begin

text \<open>
  Concrete tables for the rules of roles and administrators: a manager of channel A who may also
  create administrators on channel B. He creates a role and an administrator within what he holds; he
  moves his own role to channel B and gains its permissions there. Then the super administrators: one
  remains after every operation, but not when two are deleted by one request.
\<close>

definition chan_a :: channel where "chan_a = \<lparr>channel_id = 1, channel_token = ''ta'', channel_code = ''A''\<rparr>"
definition chan_b :: channel where "chan_b = \<lparr>channel_id = 2, channel_token = ''tb'', channel_code = ''B''\<rparr>"

definition shop_access :: access_db where
  "shop_access =
     \<lparr>acc_channels = [chan_a, chan_b],
      acc_roles =
        [new_role 1 ''__super_admin_role__'' '''' [''SuperAdmin'', ''UpdateOrder'', ''CreateAdministrator'', ''UpdateAdministrator''] [chan_a, chan_b],
         new_role 2 ''manager'' '''' [''CreateAdministrator'', ''UpdateAdministrator'', ''UpdateOrder''] [chan_a],
         new_role 3 ''inviter'' '''' [''CreateAdministrator''] [chan_b]],
      acc_users =
        [\<lparr>ur_id = 1, ur_identifier = ''root'', ur_verified = True, ur_deleted = False, ur_roleIds = [1]\<rparr>,
         \<lparr>ur_id = 2, ur_identifier = ''ann'', ur_verified = True, ur_deleted = False, ur_roleIds = [2, 3]\<rparr>],
      acc_admins =
        [\<lparr>ar_id = 1, ar_firstName = '''', ar_lastName = '''', ar_emailAddress = ''root'', ar_deleted = False, ar_userId = 1\<rparr>,
         \<lparr>ar_id = 2, ar_firstName = '''', ar_lastName = '''', ar_emailAddress = ''ann'', ar_deleted = False, ar_userId = 2\<rparr>],
      acc_nextId = 10\<rparr>"

definition context_of :: "ID \<Rightarrow> auth_context" where
  "context_of i = fromRequest chan_a Api_admin None
     (Some \<lparr>cacheExpiry = 0, session_id = 1, session_token = '''', session_expires = 0, session_activeOrderId = None,
            session_strategy = None,
            session_user = Some \<lparr>cu_id = i, cu_identifier = '''', cu_verified = True, cu_channelPermissions = []\<rparr>,
            session_activeChannelId = None, session_apiType = Some Api_admin\<rparr>)"

definition clerk_role :: access_op where
  "clerk_role = Op_createRole \<lparr>cri_code = ''clerk'', cri_description = '''', cri_permissions = [''UpdateOrder''], cri_channelIds = Some [1]\<rparr>"

definition hire_clerk :: access_op where
  "hire_clerk = Op_createAdministrator \<lparr>cai_firstName = '''', cai_lastName = '''', cai_emailAddress = '' Bob@shop.com'', cai_roleIds = [10]\<rparr>"

definition after_hiring :: access_db where
  "after_hiring = projr (bind_result (exec_access [] (context_of 2) clerk_role shop_access) (exec_access [] (context_of 2) hire_clerk))"

lemma shop_access_ok: "access_ok shop_access"
  by (simp add: access_ok_def shop_access_def channels_ok_def chan_a_def chan_b_def new_role_def)

lemma clerk_op: "\<not> retargets_only clerk_role" "\<not> retargets_only hire_clerk"
  by (simp_all add: clerk_role_def hire_clerk_def)

lemma hiring_run: "steps (access_step [] [2]) shop_access after_hiring"
proof -
  let ?db = "projr (exec_access [] (context_of 2) clerk_role shop_access)"
  have "exec_access [] (context_of 2) clerk_role shop_access = Inr ?db" by code_simp
  moreover have ctx: "activeUserId (context_of 2) = Some 2" by code_simp
  moreover have "ac_channel (context_of 2) \<in> set (acc_channels shop_access)" by code_simp
  ultimately have one: "access_step [] [2] shop_access ?db" by (intro acts [where op = clerk_role and ctx = "context_of 2"]) (simp_all add: clerk_op)
  have "exec_access [] (context_of 2) hire_clerk ?db = Inr after_hiring" by code_simp
  moreover have "ac_channel (context_of 2) \<in> set (acc_channels ?db)" by code_simp
  ultimately have "access_step [] [2] ?db after_hiring" using ctx by (intro acts [where op = hire_clerk and ctx = "context_of 2"]) (simp_all add: clerk_op)
  then show ?thesis using one by (blast intro: steps.intros)
qed

lemma no_privilege_escalation_witness:
  "user_grants after_hiring 11 1 ''UpdateOrder'' \<and> \<not> user_grants shop_access 11 1 ''UpdateOrder'' \<and>
   user_grants shop_access 2 1 ''UpdateOrder''"
proof -
  have g: "user_grants after_hiring 11 1 ''UpdateOrder''" by code_simp
  have n: "\<not> user_grants shop_access 11 1 ''UpdateOrder''" by code_simp
  show ?thesis using no_privilege_escalation [OF hiring_run shop_access_ok g] g n by auto
qed

text \<open>
  \<^verbatim>\<open>RoleService.update\<close> checks the permissions of a role against the active user only when the
  input states permissions: moving a role he holds to a channel where he may create administrators, a
  user gains every permission of the role on that channel.
\<close>

theorem retargeting_escalates:
  "\<exists>db'. exec_access [] (context_of 2)
       (Op_updateRole \<lparr>uri_id = 2, uri_code = None, uri_description = None, uri_permissions = None, uri_channelIds = Some [1, 2]\<rparr>)
       shop_access = Inr db' \<and> user_grants db' 2 2 ''UpdateOrder'' \<and> \<not> user_grants shop_access 2 2 ''UpdateOrder''"
proof -
  let ?r = "exec_access [] (context_of 2)
       (Op_updateRole \<lparr>uri_id = 2, uri_code = None, uri_description = None, uri_permissions = None, uri_channelIds = Some [1, 2]\<rparr>)
       shop_access"
  have "?r = Inr (projr ?r) \<and> user_grants (projr ?r) 2 2 ''UpdateOrder'' \<and> \<not> user_grants shop_access 2 2 ''UpdateOrder''"
    by code_simp
  then show ?thesis by blast
qed

section \<open>Super administrators\<close>

text \<open>Whether a user has the role with a given id; administrators have one user each.\<close>

definition has_role :: "access_db \<Rightarrow> ID \<Rightarrow> ID \<Rightarrow> bool" where
  "has_role db i y = (case List.find (\<lambda>u. ur_id u = y) (acc_users db) of None \<Rightarrow> False | Some u \<Rightarrow> i \<in> set (ur_roleIds u))"

lemma superadmins_iff:
  assumes "r \<in> set (acc_roles db)"
  shows "a \<in> set (superadmins db r) \<longleftrightarrow> a \<in> set (acc_admins db) \<and> \<not> ar_deleted a \<and> has_role db (role_id r) (ar_userId a)"
proof -
  have "List.find (\<lambda>x. role_id x = role_id r) (roles_of db u) \<noteq> None \<longleftrightarrow> role_id r \<in> set (ur_roleIds u)" for u
    using assms by (auto simp: find_None_iff roles_of_def)
  then show ?thesis
    by (auto simp: superadmins_def admin_roles_def user_row_of_def has_role_def split: option.splits)
qed

lemma find_map_pred:
  assumes "\<And>x. P (g x) = P x"
  shows "List.find P (map g xs) = map_option g (List.find P xs)"
  by (induction xs) (simp_all add: assms)

lemma find_user_set_roles:
  "List.find (\<lambda>u. ur_id u = y) (acc_users (set_roles x f db)) =
     map_option (\<lambda>u. if ur_id u = x then u\<lparr>ur_roleIds := f (ur_roleIds u)\<rparr> else u) (List.find (\<lambda>u. ur_id u = y) (acc_users db))"
proof -
  let ?g = "\<lambda>u. if ur_id u = x then u\<lparr>ur_roleIds := f (ur_roleIds u)\<rparr> else u"
  have "acc_users (set_roles x f db) = map ?g (acc_users db)" by (simp add: set_roles_def)
  moreover have "List.find (\<lambda>u. ur_id u = y) (map ?g (acc_users db)) = map_option ?g (List.find (\<lambda>u. ur_id u = y) (acc_users db))"
    by (rule find_map_pred) simp
  ultimately show ?thesis by simp
qed

lemma has_role_set_roles:
  "has_role (set_roles x f db) i y =
     (if x = y then (case List.find (\<lambda>u. ur_id u = y) (acc_users db) of None \<Rightarrow> False | Some u \<Rightarrow> i \<in> set (f (ur_roleIds u)))
      else has_role db i y)"
  unfolding has_role_def find_user_set_roles by (auto split: option.splits dest: find_Some_in)

lemma assign_role_has_role:
  assumes "assign_role held a r db = Inr db'"
  shows "acc_admins db' = acc_admins db" and "acc_roles db' = acc_roles db"
    and "has_role db i y \<Longrightarrow> has_role db' i y"
    and "find_admin db a = Some adm \<Longrightarrow> List.find (\<lambda>u. ur_id u = ar_userId adm) (acc_users db) \<noteq> None \<Longrightarrow> has_role db' r (ar_userId adm)"
proof -
  obtain adm' :: admin_row where a: "admin_findOne held db a = Inr (Some adm')"
    and db': "db' = set_roles (ar_userId adm') (\<lambda>ids. if r \<in> set ids then ids else ids @ [r]) db"
    using assms unfolding assign_role_Inr by blast
  show "acc_admins db' = acc_admins db" "acc_roles db' = acc_roles db" by (simp_all add: db' frame_simps)
  show "has_role db' i y" if "has_role db i y"
    using that unfolding db' has_role_set_roles by (auto simp: has_role_def split: option.splits)
  show "has_role db' r (ar_userId adm)" if "find_admin db a = Some adm" "List.find (\<lambda>u. ur_id u = ar_userId adm) (acc_users db) \<noteq> None"
    using that admin_findOne_id [OF a] unfolding db' has_role_set_roles by (auto split: option.splits)
qed

lemma assign_all_has_role:
  assumes "fold_result (assign_role held a) rs db = Inr db'" and "find_admin db a = Some adm"
    and "List.find (\<lambda>u. ur_id u = ar_userId adm) (acc_users db) \<noteq> None"
  shows "acc_admins db' = acc_admins db \<and> acc_roles db' = acc_roles db \<and> (\<forall>i y. has_role db i y \<longrightarrow> has_role db' i y) \<and>
     (\<forall>r \<in> set rs. has_role db' r (ar_userId adm))"
  using assms
proof (induction rs arbitrary: db)
  case (Cons r rs)
  then obtain d where d: "assign_role held a r db = Inr d" "fold_result (assign_role held a) rs d = Inr db'"
    by (auto simp: bind_result_Inr)
  note one = assign_role_has_role [OF d(1)]
  have "find_admin d a = Some adm" using Cons.prems(2) one(1) by (simp add: find_admin_def)
  moreover have "has_role d r (ar_userId adm)" by (rule one(4) [OF Cons.prems(2,3)])
  moreover from this have "List.find (\<lambda>u. ur_id u = ar_userId adm) (acc_users d) \<noteq> None"
    by (auto simp: has_role_def split: option.splits)
  ultimately show ?case using Cons.IH [OF d(2)] one by auto
qed simp

lemma assign_all_keeps:
  "fold_result (assign_role held a) rs db = Inr db' \<Longrightarrow>
     acc_admins db' = acc_admins db \<and> acc_roles db' = acc_roles db \<and> (\<forall>i y. has_role db i y \<longrightarrow> has_role db' i y)"
proof (induction rs arbitrary: db)
  case (Cons r rs)
  then obtain d where "assign_role held a r db = Inr d" "fold_result (assign_role held a) rs d = Inr db'"
    by (auto simp: bind_result_Inr)
  then show ?case using Cons.IH assign_role_has_role(1-3) by metis
qed simp

text \<open>The ids of the super administrators and of their users.\<close>

definition supers :: "access_db \<Rightarrow> ID \<Rightarrow> (ID \<times> ID) set" where
  "supers db i = {(ar_id a, ar_userId a) | a. a \<in> set (acc_admins db) \<and> \<not> ar_deleted a \<and> has_role db i (ar_userId a)}"

lemma supersI: "a \<in> set (acc_admins db) \<Longrightarrow> \<not> ar_deleted a \<Longrightarrow> has_role db i (ar_userId a) \<Longrightarrow> (ar_id a, ar_userId a) \<in> supers db i"
  by (auto simp: supers_def)

lemma superadmins_supers: "r \<in> set (acc_roles db) \<Longrightarrow> superadmins db r \<noteq> [] \<longleftrightarrow> supers db (role_id r) \<noteq> {}"
  using superadmins_iff [of r db] by (fastforce simp: supers_def neq_Nil_conv)

lemma not_sole:
  assumes "isSoleSuperadmin db i = Inr False" and "getSuperAdminRole db = Inr r" and "r \<in> set (acc_roles db)"
    and "distinct (map ar_id (acc_admins db))" and "supers db (role_id r) \<noteq> {}"
  obtains j y where "(j, y) \<in> supers db (role_id r)" and "j \<noteq> i"
proof -
  have ne: "superadmins db r \<noteq> []" using assms(3,5) superadmins_supers by blast
  have "distinct (map ar_id (superadmins db r))" using assms(4) by (simp add: superadmins_def distinct_map_filter)
  then have "\<exists>b \<in> set (superadmins db r). ar_id b \<noteq> i"
    using ne assms(1,2) by (cases "superadmins db r" rule: remdups_adj.cases) (auto simp: isSoleSuperadmin_def)
  then show ?thesis using that superadmins_iff [OF assms(3)] by (fastforce simp: supers_def)
qed

lemma getSuperAdminRole_mem: "getSuperAdminRole db = Inr r \<Longrightarrow> r \<in> set (acc_roles db)"
  by (auto simp: getSuperAdminRole_def getRoleByCode_def dest: find_Some_in split: option.splits)

lemma getSuperAdminRole_roles: "acc_roles db' = acc_roles db \<Longrightarrow> getSuperAdminRole db' = getSuperAdminRole db"
  by (simp add: getSuperAdminRole_def getRoleByCode_def)

lemma admin_create_supers:
  assumes "access_ok db" and "admin_create ctx inp db = Inr db'"
  shows "acc_roles db' = acc_roles db \<and> supers db i \<subseteq> supers db' i"
proof -
  obtain s email userId db1 where db1: "db1 = db\<lparr>acc_users := acc_users db @ [\<lparr>ur_id = acc_nextId db, ur_identifier = s,
        ur_verified = True, ur_deleted = False, ur_roleIds = []\<rparr>], acc_nextId := Suc (acc_nextId db)\<rparr>"
    and f: "fold_result (assign_role (active_channels ctx db) (acc_nextId db1)) (cai_roleIds inp)
              (insert_admin inp email userId db1) = Inr db'"
    using assms(2) by (auto simp: admin_create_def Let_def bind_result_Inr createAdminUser_def)
  have "List.find P (xs @ ys) = (case List.find P xs of None \<Rightarrow> List.find P ys | Some x \<Rightarrow> Some x)" for P :: "user_row \<Rightarrow> bool" and xs ys
    by (induction xs) auto
  then have "has_role (insert_admin inp email userId db1) i y" if "has_role db i y" for i y
    using that by (auto simp: has_role_def insert_admin_def db1 split: option.splits)
  then show ?thesis using assign_all_keeps [OF f] by (auto simp: supers_def insert_admin_def db1)
qed

lemma supers_map:
  assumes "acc_admins db' = map h (acc_admins db)" and "\<And>y. has_role db' i y = has_role db i y"
    and "\<And>x. ar_id (h x) = ar_id x \<and> ar_userId (h x) = ar_userId x \<and> ar_deleted (h x) = ar_deleted x"
  shows "supers db' i = supers db i"
proof -
  have "supers db' i = (\<lambda>a. (ar_id a, ar_userId a)) ` {a \<in> h ` set (acc_admins db). \<not> ar_deleted a \<and> has_role db i (ar_userId a)}"
    using assms(1,2) by (auto simp: supers_def)
  also have "\<dots> = (\<lambda>a. (ar_id (h a), ar_userId (h a))) ` {a \<in> set (acc_admins db). \<not> ar_deleted (h a) \<and> has_role db i (ar_userId (h a))}"
    by blast
  also have "\<dots> = supers db i" using assms(3) by (auto simp: supers_def)
  finally show ?thesis .
qed

lemma patch_admin_supers: "acc_roles (patch_admin inp email a db) = acc_roles db \<and> supers (patch_admin inp email a db) i = supers db i"
proof -
  let ?db = "patch_admin inp email a db"
  have users: "has_role ?db i y = has_role db i y" for i y
  proof (cases email)
    case (Some e)
    let ?g = "\<lambda>u. if ur_id u = ar_userId a then u\<lparr>ur_identifier := e\<rparr> else u"
    have "List.find (\<lambda>u. ur_id u = y) (map ?g (acc_users db)) = map_option ?g (List.find (\<lambda>u. ur_id u = y) (acc_users db))"
      by (rule find_map_pred) simp
    then show ?thesis using Some by (auto simp: has_role_def patch_admin_def split: option.splits)
  qed (simp add: has_role_def patch_admin_def)
  let ?h = "\<lambda>x. if ar_id x = ar_id a then x\<lparr>ar_firstName := nullish (uai_firstName inp) (ar_firstName x),
      ar_lastName := nullish (uai_lastName inp) (ar_lastName x),
      ar_emailAddress := nullish email (nullish (uai_emailAddress inp) (ar_emailAddress x))\<rparr> else x"
  have "supers ?db i = supers db i"
    by (rule supers_map [of ?db ?h, OF _ users]) (simp_all add: patch_admin_def)
  then show ?thesis by (simp add: patch_admin_def)
qed

lemma replace_roles_supers:
  assumes "replace_roles held a rs db = Inr db'" and "getSuperAdminRole db = Inr r" and "distinct (map ar_id (acc_admins db))"
    and "distinct (map ar_userId (acc_admins db))" and "supers db (role_id r) \<noteq> {}" and "find_admin db (ar_id a') = Some a'"
    and "ar_id a' = ar_id a" and "ar_userId a' = ar_userId a"
  shows "acc_roles db' = acc_roles db \<and> supers db' (role_id r) \<noteq> {}"
proof -
  let ?d = "set_roles (ar_userId a) (\<lambda>ids. []) db" and ?i = "role_id r"
  have r: "r \<in> set (acc_roles db)" by (rule getSuperAdminRole_mem [OF assms(2)])
  obtain sole where sole: "isSoleSuperadmin db (ar_id a) = Inr sole"
    and must: "sole \<Longrightarrow> List.find (\<lambda>i. idsAreEqual (Some i) (Some ?i)) rs \<noteq> None"
    and f: "fold_result (assign_role held (ar_id a)) rs ?d = Inr db'"
    using assms(1,2) by (auto simp: replace_roles_def bind_result_Inr split: if_splits)
  have frame: "acc_admins ?d = acc_admins db" "acc_roles ?d = acc_roles db" by (simp_all add: frame_simps)
  note keeps = assign_all_keeps [OF f]
  have "supers db' ?i \<noteq> {}"
  proof (cases sole)
    case True
    then obtain x where x: "superadmins db r = [x]" "ar_id x = ar_id a"
      using sole assms(2) by (auto simp: isSoleSuperadmin_def split: list.splits)
    then have "x \<in> set (acc_admins db)" "\<not> ar_deleted x" "has_role db ?i (ar_userId x)" using superadmins_iff [OF r, of x] by auto
    moreover have "a' \<in> set (acc_admins db)" "\<not> ar_deleted a'" using assms(6) find_Some_in by (fastforce simp: find_admin_def)+
    moreover have "x = a'"
      by (rule inj_onD [of ar_id "set (acc_admins db)"]) (use calculation x(2) assms(3,7) in \<open>simp_all add: distinct_map\<close>)
    ultimately have "has_role db ?i (ar_userId a')" by simp
    then have "List.find (\<lambda>u. ur_id u = ar_userId a') (acc_users ?d) \<noteq> None"
      unfolding find_user_set_roles by (auto simp: has_role_def split: option.splits)
    moreover have "find_admin ?d (ar_id a) = Some a'" using assms(6,7) frame by (simp add: find_admin_def)
    moreover have "?i \<in> set rs" using must [OF True] by (auto dest: find_Some_in)
    ultimately have "has_role db' ?i (ar_userId a')" using assign_all_has_role [OF f] by blast
    then show ?thesis using keeps frame \<open>a' \<in> set (acc_admins db)\<close> \<open>\<not> ar_deleted a'\<close> by (auto simp: supers_def)
  next
    case False
    then have ns: "isSoleSuperadmin db (ar_id a) = Inr False" using sole by simp
    obtain j y where "(j, y) \<in> supers db ?i" "j \<noteq> ar_id a" by (rule not_sole [OF ns assms(2) r assms(3,5)])
    then obtain b where b: "b \<in> set (acc_admins db)" "\<not> ar_deleted b" "has_role db ?i (ar_userId b)" "ar_id b \<noteq> ar_id a"
      by (auto simp: supers_def)
    have "a' \<in> set (acc_admins db)" using assms(6) find_admin_id by blast
    moreover have "b \<noteq> a'" using b(4) assms(7) by auto
    ultimately have "ar_userId b \<noteq> ar_userId a'" using inj_onD [of ar_userId "set (acc_admins db)" b a'] assms(4) b(1)
      by (auto simp: distinct_map)
    then have "ar_userId b \<noteq> ar_userId a" using assms(8) by simp
    then have "has_role ?d ?i (ar_userId b)" using b(3) by (simp add: has_role_set_roles)
    then show ?thesis using keeps frame b by (auto simp: supers_def)
  qed
  then show ?thesis using keeps frame by simp
qed

lemma softDelete_supers:
  assumes "admin_softDelete ctx i db = Inr db'" and "getSuperAdminRole db = Inr r" and "distinct (map ar_id (acc_admins db))"
    and "supers db (role_id r) \<noteq> {}"
  shows "acc_roles db' = acc_roles db \<and> supers db' (role_id r) \<noteq> {}"
proof -
  obtain a where a: "admin_findOne (active_channels ctx db) db i = Inr (Some a)" "isSoleSuperadmin db i = Inr False"
    and w: "softDelete_write a db = Inr db'"
    using assms(1) by (auto simp: admin_softDelete_def softDelete_check_def bind_result_Inr split: option.splits if_splits)
  then have "ar_id a = i" using find_admin_id admin_findOne_id by blast
  obtain j y where "(j, y) \<in> supers db (role_id r)" "j \<noteq> i"
    by (rule not_sole [OF a(2) assms(2) getSuperAdminRole_mem [OF assms(2)] assms(3,4)])
  then obtain b where b: "b \<in> set (acc_admins db)" "\<not> ar_deleted b" "has_role db (role_id r) (ar_userId b)" "ar_id b \<noteq> ar_id a"
    using \<open>ar_id a = i\<close> by (auto simp: supers_def)
  let ?g = "\<lambda>u. if ur_id u = ar_userId a then u\<lparr>ur_deleted := True\<rparr> else u"
  have db': "acc_roles db' = acc_roles db" "acc_users db' = map ?g (acc_users db)"
    "acc_admins db' = map (\<lambda>x. if ar_id x = ar_id a then x\<lparr>ar_deleted := True\<rparr> else x) (acc_admins db)"
    using w by (auto simp: softDelete_write_def Let_def bind_result_Inr)
  have "List.find (\<lambda>u. ur_id u = y) (map ?g (acc_users db)) = map_option ?g (List.find (\<lambda>u. ur_id u = y) (acc_users db))" for y
    by (rule find_map_pred) simp
  then have "has_role db' (role_id r) (ar_userId b)" using b(3) by (auto simp: has_role_def db' split: option.splits)
  moreover have "b \<in> set (acc_admins db')" using b by (force simp: db')
  ultimately show ?thesis using b(2) db'(1) by (auto simp: supers_def)
qed

fun on_administrators :: "access_op \<Rightarrow> bool" where
  "on_administrators (Op_createAdministrator inp) \<longleftrightarrow> True"
| "on_administrators (Op_updateAdministrator inp) \<longleftrightarrow> True"
| "on_administrators (Op_assignRole a r) \<longleftrightarrow> True"
| "on_administrators (Op_deleteAdministrator i) \<longleftrightarrow> True"
| "on_administrators _ \<longleftrightarrow> False"

lemma admin_update_supers:
  assumes "admin_update ctx inp db = Inr db'" and "getSuperAdminRole db = Inr r" and "distinct (map ar_id (acc_admins db))"
    and "distinct (map ar_userId (acc_admins db))" and "supers db (role_id r) \<noteq> {}"
  shows "acc_roles db' = acc_roles db \<and> supers db' (role_id r) \<noteq> {}"
proof -
  obtain email a where a: "admin_findOne (active_channels ctx db) db (uai_id inp) = Inr (Some a)"
    and u: "(case uai_roleIds inp of None \<Rightarrow> Inr (patch_admin inp email a db)
      | Some is \<Rightarrow> replace_roles (active_channels ctx db) a is (patch_admin inp email a db)) = Inr db'"
    using assms(1) by (auto simp: admin_update_def Let_def bind_result_Inr split: option.splits)
  let ?d = "patch_admin inp email a db"
  have d: "acc_roles ?d = acc_roles db" "supers ?d (role_id r) = supers db (role_id r)" using patch_admin_supers by auto
  show ?thesis
  proof (cases "uai_roleIds inp")
    case None
    then show ?thesis using u d assms(5) by auto
  next
    case (Some rs)
    then have rr: "replace_roles (active_channels ctx db) a rs ?d = Inr db'" using u by simp
    let ?h = "\<lambda>x. if ar_id x = ar_id a then x\<lparr>ar_firstName := nullish (uai_firstName inp) (ar_firstName x),
        ar_lastName := nullish (uai_lastName inp) (ar_lastName x),
        ar_emailAddress := nullish email (nullish (uai_emailAddress inp) (ar_emailAddress x))\<rparr> else x"
    have admins: "acc_admins ?d = map ?h (acc_admins db)" by (simp add: patch_admin_def)
    have "find_admin ?d (ar_id a) = map_option ?h (find_admin db (ar_id a))"
      unfolding find_admin_def admins by (rule find_map_pred) simp
    moreover have "find_admin db (ar_id a) = Some a"
      using admin_findOne_id [OF a] find_admin_id [OF admin_findOne_id [OF a]] by simp
    ultimately have "find_admin ?d (ar_id a) = Some (?h a)" by simp
    then have f: "find_admin ?d (ar_id (?h a)) = Some (?h a)" by simp
    have ids: "map ar_id (acc_admins ?d) = map ar_id (acc_admins db)" "map ar_userId (acc_admins ?d) = map ar_userId (acc_admins db)"
      by (simp_all add: admins)
    have "getSuperAdminRole ?d = Inr r" using assms(2) getSuperAdminRole_roles [OF d(1)] by simp
    then show ?thesis
      using replace_roles_supers [OF rr _ _ _ _ f] assms(3-5) d ids by simp
  qed
qed

text \<open>
  C36: As long as requests run one after the other, a super administrator remains: no creation, change,
  role assignment or deletion of an administrator takes the role from the last one who is not deleted.
\<close>

theorem superadmin_remains:
  assumes "access_ok db" and "distinct (map ar_userId (acc_admins db))" and "getSuperAdminRole db = Inr r"
    and "superadmins db r \<noteq> []" and "on_administrators op" and "exec_access custom ctx op db = Inr db'"
  shows "getSuperAdminRole db' = Inr r \<and> superadmins db' r \<noteq> []"
proof -
  have mem: "r \<in> set (acc_roles db)" by (rule getSuperAdminRole_mem [OF assms(3)])
  have s: "supers db (role_id r) \<noteq> {}" using assms(4) superadmins_supers [OF mem] by simp
  have ids: "distinct (map ar_id (acc_admins db))" using assms(1) by (simp add: access_ok_def)
  have "acc_roles db' = acc_roles db \<and> supers db' (role_id r) \<noteq> {}"
  proof (cases op)
    case (Op_createAdministrator inp)
    then show ?thesis using admin_create_supers [OF assms(1), of ctx inp db' "role_id r"] assms(6) s by auto
  next
    case (Op_updateAdministrator inp)
    then show ?thesis using admin_update_supers [OF _ assms(3) ids assms(2) s] assms(6) by simp
  next
    case (Op_assignRole a x)
    then have "assign_role (active_channels ctx db) a x db = Inr db'" using assms(6) by (simp add: admin_assignRole_def)
    note k = assign_role_has_role(1-3) [OF this]
    then show ?thesis using s by (auto simp: supers_def)
  next
    case (Op_deleteAdministrator i)
    then show ?thesis using softDelete_supers [OF _ assms(3) ids s] assms(6) by simp
  qed (use assms(5) in simp_all)
  then show ?thesis using superadmins_supers [of r db'] mem getSuperAdminRole_roles [of db' db] assms(3) by simp
qed

definition two_supers :: access_db where
  "two_supers = projr (admin_assignRole (context_of 1) 2 1 shop_access)"

lemma superadmin_remains_witness:
  "getSuperAdminRole (projr (exec_access [] (context_of 1) (Op_deleteAdministrator 1) two_supers)) =
     getSuperAdminRole two_supers \<and>
   superadmins (projr (exec_access [] (context_of 1) (Op_deleteAdministrator 1) two_supers)) (projr (getSuperAdminRole two_supers)) \<noteq> []"
proof -
  let ?db = "exec_access [] (context_of 1) (Op_deleteAdministrator 1) two_supers"
  have a: "admin_assignRole (context_of 1) 2 1 shop_access = Inr two_supers" by code_simp
  have ok: "access_ok two_supers"
    using assign_role_bounded [OF shop_access_ok bounded_refl [OF shop_access_ok]] a
    by (auto simp: admin_assignRole_def bounded_def)
  have d: "distinct (map ar_userId (acc_admins two_supers))" by code_simp
  have r: "getSuperAdminRole two_supers = Inr (projr (getSuperAdminRole two_supers))" by code_simp
  have s: "superadmins two_supers (projr (getSuperAdminRole two_supers)) \<noteq> []" by code_simp
  have e: "?db = Inr (projr ?db)" by code_simp
  show ?thesis using superadmin_remains [OF ok d r s _ e] r by simp
qed


end
