(* ===== verification/Caches.thy ===== *)
theory Caches
  imports Prelude
begin

text \<open>
  The caches: what a cache promises (\<open>cache_store\<close>, and \<open>tagged_cache\<close> with invalidation by
  tag) and the in-memory strategy that keeps the promise. The time is an argument; values are kept as
  they are, since JSON text stands for them one to one.
\<close>

section \<open>Interfaces\<close>

record cache_options =
  co_ttl :: "int option"
  co_tags :: "string list option"

definition ttl_of :: "cache_options \<Rightarrow> int option" where
  "ttl_of opts = (case co_ttl opts of None \<Rightarrow> None | Some t \<Rightarrow> if t = 0 then None else Some t)"

text \<open>
  A cache may forget at any time, but what it holds was put there for that key and not removed since.
  \<open>entry\<close> is what is stored, expired or not.
\<close>

locale cache_store =
  fixes entry :: "'s \<Rightarrow> string \<Rightarrow> 'v option"
    and get :: "int \<Rightarrow> string \<Rightarrow> 's \<Rightarrow> 'v option \<times> 's"
    and put :: "int \<Rightarrow> string \<Rightarrow> 'v \<Rightarrow> cache_options \<Rightarrow> 's \<Rightarrow> 's"
    and remove :: "string \<Rightarrow> 's \<Rightarrow> 's"
    and invar :: "'s \<Rightarrow> bool"
  assumes get_value: "invar s \<Longrightarrow> fst (get now k s) = None \<or> fst (get now k s) = entry s k"
    and get_keeps: "invar s \<Longrightarrow> entry (snd (get now k s)) \<subseteq>\<^sub>m entry s"
    and put_entry: "invar s \<Longrightarrow> entry (put now k v opts s) \<subseteq>\<^sub>m (entry s)(k \<mapsto> v)"
    and remove_entry: "invar s \<Longrightarrow> entry (remove k s) \<subseteq>\<^sub>m (entry s)(k := None)"
    and invar_get: "invar s \<Longrightarrow> invar (snd (get now k s))"
    and invar_put: "invar s \<Longrightarrow> invar (put now k v opts s)"
    and invar_remove: "invar s \<Longrightarrow> invar (remove k s)"
begin

lemma removed_not_found: "invar s \<Longrightarrow> fst (get now k (remove k s)) = None"
  using get_value [OF invar_remove, of s now k k] remove_entry [of s k]
  by (auto simp: map_le_def dom_def)

lemma get_entry: "invar s \<Longrightarrow> fst (get now k s) = Some v \<Longrightarrow> entry s k = Some v"
  using get_value [of s now k] by simp

lemma get_of_le: "invar s \<Longrightarrow> entry s \<subseteq>\<^sub>m m \<Longrightarrow> fst (get now k s) = Some v \<Longrightarrow> m k = Some v"
  using get_entry by (auto simp: map_le_def dom_def)

lemma put_le: "invar s \<Longrightarrow> entry s \<subseteq>\<^sub>m m \<Longrightarrow> entry (put now k v opts s) \<subseteq>\<^sub>m m(k \<mapsto> v)"
  by (rule map_le_trans [OF put_entry]) (auto simp: map_le_def)

lemma remove_le: "invar s \<Longrightarrow> entry s \<subseteq>\<^sub>m m \<Longrightarrow> entry (remove k s) \<subseteq>\<^sub>m m(k := None)"
  by (rule map_le_trans [OF remove_entry]) (auto simp: map_le_def split: if_splits)

lemma get_le: "invar s \<Longrightarrow> entry s \<subseteq>\<^sub>m m \<Longrightarrow> entry (snd (get now k s)) \<subseteq>\<^sub>m m"
  by (rule map_le_trans [OF get_keeps])

end

locale tagged_cache = cache_store entry get put remove invar
  for entry :: "'s \<Rightarrow> string \<Rightarrow> 'v option" and get put remove invar +
  fixes invalidate :: "string list \<Rightarrow> 's \<Rightarrow> 's"
    and tagged :: "'s \<Rightarrow> string \<Rightarrow> string set"
  assumes invalidate_entry: "invar s \<Longrightarrow> entry (invalidate ts s) \<subseteq>\<^sub>m entry s"
    and invalidate_gone: "invar s \<Longrightarrow> tagged s k \<inter> set ts \<noteq> {} \<Longrightarrow> entry (invalidate ts s) k = None"
    and invar_invalidate: "invar s \<Longrightarrow> invar (invalidate ts s)"
    and tagged_get: "invar s \<Longrightarrow> tagged s k' \<subseteq> tagged (snd (get now k s)) k'"
    and tagged_put: "invar s \<Longrightarrow> tagged s k' \<union> (if k = k' then set (nullish (co_tags opts) []) else {}) \<subseteq> tagged (put now k v opts s) k'"
    and tagged_remove: "invar s \<Longrightarrow> tagged s k' \<subseteq> tagged (remove k s) k'"
    and tagged_invalidate: "invar s \<Longrightarrow> tagged s k - set ts \<subseteq> tagged (invalidate ts s) k"

text \<open>The calls a client makes, and the map they are meant to maintain.\<close>

datatype 'v cache_call =
    Get int string
  | Put int string 'v cache_options
  | Remove string
  | Invalidate "string list"

fun ideal_call :: "'v cache_call \<Rightarrow> (string \<Rightarrow> ('v \<times> string set) option) \<Rightarrow> string \<Rightarrow> ('v \<times> string set) option" where
  "ideal_call (Get now k) m = m"
| "ideal_call (Put now k v opts) m = m(k \<mapsto> (v, set (nullish (co_tags opts) [])))"
| "ideal_call (Remove k) m = m(k := None)"
| "ideal_call (Invalidate ts) m = (\<lambda>k. case m k of None \<Rightarrow> None | Some (v, tags) \<Rightarrow> if tags \<inter> set ts \<noteq> {} then None else Some (v, tags))"

fun apply_call :: "(int \<Rightarrow> string \<Rightarrow> 's \<Rightarrow> 'v option \<times> 's) \<Rightarrow> (int \<Rightarrow> string \<Rightarrow> 'v \<Rightarrow> cache_options \<Rightarrow> 's \<Rightarrow> 's) \<Rightarrow>
    (string \<Rightarrow> 's \<Rightarrow> 's) \<Rightarrow> (string list \<Rightarrow> 's \<Rightarrow> 's) \<Rightarrow> 'v cache_call \<Rightarrow> 's \<Rightarrow> 's" where
  "apply_call get put remove invalidate (Get now k) s = snd (get now k s)"
| "apply_call get put remove invalidate (Put now k v opts) s = put now k v opts s"
| "apply_call get put remove invalidate (Remove k) s = remove k s"
| "apply_call get put remove invalidate (Invalidate ts) s = invalidate ts s"

context tagged_cache begin

abbreviation call :: "'v cache_call \<Rightarrow> 's \<Rightarrow> 's" where
  "call \<equiv> apply_call get put remove invalidate"

definition refines :: "'s \<Rightarrow> (string \<Rightarrow> ('v \<times> string set) option) \<Rightarrow> bool" where
  "refines s m \<longleftrightarrow> invar s \<and> (\<forall>k v. entry s k = Some v \<longrightarrow> (\<exists>tags. m k = Some (v, tags) \<and> tags \<subseteq> tagged s k))"

lemma map_le_Some: "m \<subseteq>\<^sub>m m' \<Longrightarrow> m k = Some v \<Longrightarrow> m' k = Some v"
  by (auto simp: map_le_def dom_def)

lemma refines_less:
  assumes "refines s m" and "invar t" and "entry t \<subseteq>\<^sub>m entry s" and "\<And>k. tagged s k \<subseteq> tagged t k"
  shows "refines t m"
  using assms map_le_Some [OF assms(3)] unfolding refines_def by (meson order_trans)

lemma call_refines:
  assumes r: "refines s m"
  shows "refines (call c s) (ideal_call c m)"
proof -
  have inv: "invar s" and ideal: "\<And>k v. entry s k = Some v \<Longrightarrow> \<exists>tags. m k = Some (v, tags) \<and> tags \<subseteq> tagged s k"
    using r by (auto simp: refines_def)
  show ?thesis
  proof (cases c)
    case (Get now k)
    then show ?thesis using refines_less [OF r invar_get [OF inv] get_keeps [OF inv] tagged_get [OF inv]] by simp
  next
    case (Put now k v opts)
    let ?t = "put now k v opts s"
    have tags: "tagged s k' \<union> (if k = k' then set (nullish (co_tags opts) []) else {}) \<subseteq> tagged ?t k'" for k'
      by (rule tagged_put [OF inv])
    have "\<exists>tags. (m(k \<mapsto> (v, set (nullish (co_tags opts) [])))) k' = Some (w, tags) \<and> tags \<subseteq> tagged ?t k'"
      if w: "entry ?t k' = Some w" for k' w
    proof (cases "k' = k")
      case True
      then have "w = v" using map_le_Some [OF put_entry [OF inv] w] by simp
      then show ?thesis using True tags [of k] by simp
    next
      case False
      then have "entry s k' = Some w" using map_le_Some [OF put_entry [OF inv] w] by simp
      then show ?thesis using ideal [of k' w] False tags [of k'] by (simp split: if_splits) blast
    qed
    then show ?thesis using Put inv by (simp add: refines_def invar_put)
  next
    case (Remove k)
    let ?t = "remove k s"
    have "\<exists>tags. (m(k := None)) k' = Some (w, tags) \<and> tags \<subseteq> tagged ?t k'" if w: "entry ?t k' = Some w" for k' w
    proof -
      have "k' \<noteq> k \<and> entry s k' = Some w" using map_le_Some [OF remove_entry [OF inv] w] by (simp split: if_splits)
      then show ?thesis using ideal [of k' w] tagged_remove [OF inv, of k' k] by auto
    qed
    then show ?thesis using Remove inv by (simp add: refines_def invar_remove)
  next
    case (Invalidate ts)
    let ?t = "invalidate ts s"
    have "\<exists>tags. ideal_call c m k' = Some (w, tags) \<and> tags \<subseteq> tagged ?t k'" if w: "entry ?t k' = Some w" for k' w
    proof -
      have free: "tagged s k' \<inter> set ts = {}" using invalidate_gone [OF inv, of k' ts] w by auto
      have "entry s k' = Some w" by (rule map_le_Some [OF invalidate_entry [OF inv] w])
      then obtain tags where m: "m k' = Some (w, tags)" "tags \<subseteq> tagged s k'" using ideal by blast
      then have "tags \<inter> set ts = {}" "tags \<subseteq> tagged ?t k'" using free tagged_invalidate [OF inv, of k' ts] by blast+
      then show ?thesis using m(1) Invalidate by simp
    qed
    then show ?thesis using Invalidate inv by (simp add: refines_def invar_invalidate)
  qed
qed

lemma calls_refine: "refines s m \<Longrightarrow> refines (fold call cs s) (fold ideal_call cs m)"
  by (induction cs arbitrary: s m) (auto intro: call_refines)

lemma found_is_ideal:
  assumes "refines s m" and "fst (get now k s) = Some v"
  shows "\<exists>tags. m k = Some (v, tags)"
  using assms get_entry [of s now k v] unfolding refines_def by blast

end

section \<open>The in-memory strategy\<close>

record 'v cache_item =
  ci_value :: 'v
  ci_expires :: "int option"

record 'v mem_cache =
  mc_items :: "(string, 'v cache_item) js_map"
  mc_tags :: "(string, string list) js_map"
  mc_size :: nat

definition live :: "int \<Rightarrow> 'v cache_item \<Rightarrow> bool" where
  "live now hit \<longleftrightarrow> (case ci_expires hit of None \<Rightarrow> True | Some e \<Rightarrow> e = 0 \<or> now < e)"

definition mem_cache_get :: "int \<Rightarrow> string \<Rightarrow> 'v mem_cache \<Rightarrow> 'v option \<times> 'v mem_cache" where
  "mem_cache_get now key c =
     (case map_get (mc_items c) key of
        None \<Rightarrow> (None, c)
      | Some hit \<Rightarrow> if live now hit then (Some (ci_value hit), c)
                    else (None, c\<lparr>mc_items := map_delete key (mc_items c)\<rparr>))"

definition cache_first :: "('k \<times> 'x) list \<Rightarrow> 'k option" where
  "cache_first m = (case m of [] \<Rightarrow> None | e # es \<Rightarrow> Some (fst e))"

text \<open>Making room: a key is put to the end again; otherwise the oldest goes, unless its key is falsy.\<close>

definition make_room :: "('k \<Rightarrow> bool) \<Rightarrow> nat \<Rightarrow> 'k \<Rightarrow> ('k, 'x) js_map \<Rightarrow> ('k, 'x) js_map" where
  "make_room falsy n key m =
     (if map_get m key \<noteq> None then map_delete key m
      else if length m = n then
        (case cache_first m of None \<Rightarrow> m | Some oldest \<Rightarrow> if falsy oldest then m else map_delete oldest m)
      else m)"

definition tag_key :: "string \<Rightarrow> string \<Rightarrow> (string, string list) js_map \<Rightarrow> (string, string list) js_map" where
  "tag_key key tag m =
     (let keys = nullish (map_get m tag) [] in map_set tag (if key \<in> set keys then keys else keys @ [key]) m)"

definition mem_cache_set :: "int \<Rightarrow> string \<Rightarrow> 'v \<Rightarrow> cache_options \<Rightarrow> 'v mem_cache \<Rightarrow> 'v mem_cache" where
  "mem_cache_set now key v opts c =
     c\<lparr>mc_items := map_set key \<lparr>ci_value = v, ci_expires = map_option (\<lambda>t. now + t) (ttl_of opts)\<rparr>
         (make_room (\<lambda>k. k = []) (mc_size c) key (mc_items c)),
       mc_tags := fold (tag_key key) (nullish (co_tags opts) []) (mc_tags c)\<rparr>"

definition mem_cache_delete :: "string \<Rightarrow> 'v mem_cache \<Rightarrow> 'v mem_cache" where
  "mem_cache_delete key c = c\<lparr>mc_items := map_delete key (mc_items c)\<rparr>"

definition mem_invalidate_tag :: "string \<Rightarrow> 'v mem_cache \<Rightarrow> 'v mem_cache" where
  "mem_invalidate_tag tag c =
     (case map_get (mc_tags c) tag of None \<Rightarrow> c
      | Some keys \<Rightarrow> c\<lparr>mc_items := fold map_delete keys (mc_items c), mc_tags := map_delete tag (mc_tags c)\<rparr>)"

definition mem_invalidateTags :: "string list \<Rightarrow> 'v mem_cache \<Rightarrow> 'v mem_cache" where
  "mem_invalidateTags tags c = fold mem_invalidate_tag tags c"

definition mem_entry :: "'v mem_cache \<Rightarrow> string \<Rightarrow> 'v option" where
  "mem_entry c k = map_option ci_value (map_get (mc_items c) k)"

definition mem_tagged :: "'v mem_cache \<Rightarrow> string \<Rightarrow> string set" where
  "mem_tagged c k = {t. k \<in> set (nullish (map_get (mc_tags c) t) [])}"

definition mem_invar :: "'v mem_cache \<Rightarrow> bool" where
  "mem_invar c \<longleftrightarrow> map_wf (mc_items c)"

lemma map_get_fold_delete: "map_get (fold map_delete ks m) k = (if k \<in> set ks then None else map_get m k)"
  by (induction ks arbitrary: m) (auto simp: map_get_delete)

lemma map_wf_fold_delete: "map_wf m \<Longrightarrow> map_wf (fold map_delete ks m)"
  by (induction ks arbitrary: m) (auto simp: map_wf_delete)

lemma make_room_get: "map_get (make_room falsy n key m) k = None \<or> map_get (make_room falsy n key m) k = map_get m k"
  by (auto simp: make_room_def map_get_delete split: option.split)

lemma map_wf_make_room: "map_wf m \<Longrightarrow> map_wf (make_room falsy n key m)"
  by (auto simp: make_room_def map_wf_delete split: option.split)

lemma tag_keys:
  "set (nullish (map_get (fold (tag_key key) tags m) t) []) =
     set (nullish (map_get m t) []) \<union> (if t \<in> set tags then {key} else {})"
  by (induction tags arbitrary: m) (auto simp: tag_key_def Let_def map_get_set)

lemma mem_invalidate_get:
  "map_get (mc_items (mem_invalidateTags ts c)) k =
     (if mem_tagged c k \<inter> set ts \<noteq> {} then None else map_get (mc_items c) k) \<and>
   map_get (mc_tags (mem_invalidateTags ts c)) t = (if t \<in> set ts then None else map_get (mc_tags c) t)"
proof (induction ts arbitrary: c)
  case Nil
  then show ?case by (simp add: mem_invalidateTags_def)
next
  case (Cons t' ts)
  let ?d = "mem_invalidate_tag t' c"
  have step: "mem_invalidateTags (t' # ts) c = mem_invalidateTags ts ?d" by (simp add: mem_invalidateTags_def)
  have items: "map_get (mc_items ?d) k = (if t' \<in> mem_tagged c k then None else map_get (mc_items c) k)"
    by (auto simp: mem_invalidate_tag_def mem_tagged_def map_get_fold_delete split: option.split)
  have tags: "map_get (mc_tags ?d) x = (if x = t' then None else map_get (mc_tags c) x)" for x
    by (auto simp: mem_invalidate_tag_def map_get_delete split: option.split)
  have "mem_tagged ?d k = mem_tagged c k - {t'}" by (auto simp: mem_tagged_def tags)
  then have "mem_tagged ?d k \<inter> set ts = mem_tagged c k \<inter> (set ts - {t'})" by blast
  then have "(mem_tagged ?d k \<inter> set ts \<noteq> {} \<or> t' \<in> mem_tagged c k) \<longleftrightarrow> mem_tagged c k \<inter> set (t' # ts) \<noteq> {}" by auto
  then show ?case unfolding step using Cons.IH [of ?d] items tags [of t] by (simp split: if_splits)
qed

lemma map_wf_mem_invalidate: "map_wf (mc_items c) \<Longrightarrow> map_wf (mc_items (mem_invalidateTags ts c))"
proof (induction ts arbitrary: c)
  case (Cons t ts)
  have "map_wf (mc_items (mem_invalidate_tag t c))"
    using Cons.prems by (auto simp: mem_invalidate_tag_def map_wf_fold_delete split: option.split)
  then show ?case using Cons.IH by (simp add: mem_invalidateTags_def)
qed (simp add: mem_invalidateTags_def)

lemma map_le_pointwise: "(\<And>x. f x = None \<or> f x = g x) \<Longrightarrow> f \<subseteq>\<^sub>m g"
  unfolding map_le_def by (metis domIff)

interpretation mem_cache: tagged_cache mem_entry mem_cache_get mem_cache_set mem_cache_delete mem_invar
  mem_invalidateTags mem_tagged
proof unfold_locales
  fix s :: "'a mem_cache" and now k k' v opts ts
  show "fst (mem_cache_get now k s) = None \<or> fst (mem_cache_get now k s) = mem_entry s k"
    by (auto simp: mem_cache_get_def mem_entry_def split: option.split)
  show "mem_entry (snd (mem_cache_get now k s)) \<subseteq>\<^sub>m mem_entry s"
    by (auto simp: mem_cache_get_def mem_entry_def map_le_def map_get_delete dom_def split: option.split if_splits)
  show "mem_entry (mem_cache_set now k v opts s) \<subseteq>\<^sub>m (mem_entry s)(k \<mapsto> v)"
  proof -
    have "mem_entry (mem_cache_set now k v opts s) x = None \<or> mem_entry (mem_cache_set now k v opts s) x = ((mem_entry s)(k \<mapsto> v)) x" for x
      using make_room_get [of "\<lambda>k. k = []" "mc_size s" k "mc_items s" x]
      by (auto simp: mem_cache_set_def mem_entry_def map_get_set)
    then show ?thesis by (rule map_le_pointwise)
  qed
  show "mem_entry (mem_cache_delete k s) \<subseteq>\<^sub>m (mem_entry s)(k := None)"
    by (auto simp: mem_cache_delete_def mem_entry_def map_le_def map_get_delete)
  show "mem_entry (mem_invalidateTags ts s) \<subseteq>\<^sub>m mem_entry s"
    using mem_invalidate_get [of ts s] by (auto simp: mem_entry_def map_le_def split: if_splits)
  show "mem_tagged s k \<inter> set ts \<noteq> {} \<Longrightarrow> mem_entry (mem_invalidateTags ts s) k = None"
    using mem_invalidate_get [of ts s k] by (simp add: mem_entry_def)
  show "mem_tagged s k' \<subseteq> mem_tagged (snd (mem_cache_get now k s)) k'"
    by (auto simp: mem_cache_get_def mem_tagged_def split: option.split)
  show "mem_tagged s k' \<union> (if k = k' then set (nullish (co_tags opts) []) else {}) \<subseteq> mem_tagged (mem_cache_set now k v opts s) k'"
    by (auto simp: mem_cache_set_def mem_tagged_def tag_keys)
  show "mem_tagged s k' \<subseteq> mem_tagged (mem_cache_delete k s) k'" by (simp add: mem_cache_delete_def mem_tagged_def)
  show "mem_tagged s k - set ts \<subseteq> mem_tagged (mem_invalidateTags ts s) k"
    using mem_invalidate_get [of ts s k] by (auto simp: mem_tagged_def)
  assume inv: "mem_invar s"
  show "mem_invar (snd (mem_cache_get now k s))"
    using inv by (auto simp: mem_cache_get_def mem_invar_def map_wf_delete split: option.split)
  show "mem_invar (mem_cache_set now k v opts s)"
    using inv by (simp add: mem_cache_set_def mem_invar_def map_wf_set map_wf_make_room)
  show "mem_invar (mem_cache_delete k s)" using inv by (simp add: mem_cache_delete_def mem_invar_def map_wf_delete)
  show "mem_invar (mem_invalidateTags ts s)" using inv by (simp add: mem_invar_def map_wf_mem_invalidate)
qed

definition empty_mem_cache :: "nat \<Rightarrow> 'v mem_cache" where
  "empty_mem_cache n = \<lparr>mc_items = [], mc_tags = [], mc_size = n\<rparr>"

definition mem_calls :: "'v cache_call list \<Rightarrow> 'v mem_cache \<Rightarrow> 'v mem_cache" where
  "mem_calls cs c = fold (apply_call mem_cache_get mem_cache_set mem_cache_delete mem_invalidateTags) cs c"

text \<open>
  C23: Whatever is set, read, deleted and invalidated, in any order, the in-memory strategy answers with
  the value set last under that key, provided it was neither deleted nor invalidated by one of its tags
  since, or with nothing: it refines a map from keys to values and tags.
\<close>

theorem mem_cache_refines_map:
  fixes v :: 'v
  assumes "fst (mem_cache_get now k (mem_calls cs (empty_mem_cache n))) = Some v"
  shows "\<exists>tags. fold ideal_call cs Map.empty k = Some (v, tags)"
proof -
  have "mem_cache.refines (empty_mem_cache n :: 'v mem_cache) Map.empty"
    by (simp add: mem_cache.refines_def empty_mem_cache_def mem_invar_def map_wf_def mem_entry_def)
  from mem_cache.found_is_ideal [OF mem_cache.calls_refine [OF this]] show ?thesis
    using assms unfolding mem_calls_def by blast
qed

lemma mem_cache_refines_map_witness:
  "fold ideal_call [Put 0 ''a'' (1 :: int) \<lparr>co_ttl = Some 10, co_tags = Some [''t'']\<rparr>, Put 1 ''b'' 2 \<lparr>co_ttl = None, co_tags = None\<rparr>,
       Invalidate [''u'']] Map.empty ''a'' = Some (1, {''t''})"
proof -
  let ?cs = "[Put 0 ''a'' (1 :: int) \<lparr>co_ttl = Some 10, co_tags = Some [''t'']\<rparr>, Put 1 ''b'' 2 \<lparr>co_ttl = None, co_tags = None\<rparr>,
       Invalidate [''u'']]"
  have "fst (mem_cache_get 5 ''a'' (mem_calls ?cs (empty_mem_cache 100))) = Some 1" by code_simp
  from mem_cache_refines_map [OF this] show ?thesis by simp
qed

section \<open>Bounds and expiry\<close>

lemma length_map_delete: "map_wf m \<Longrightarrow> map_get m k \<noteq> None \<Longrightarrow> Suc (length (map_delete k m)) = length m"
proof (induction m)
  case (Cons e m)
  show ?case
  proof (cases "fst e = k")
    case True
    then have "map_delete k m = m"
      unfolding map_delete_def by (intro filter_True) (use Cons.prems(1) in \<open>force simp: map_wf_def image_iff\<close>)
    then show ?thesis using True by (simp add: map_delete_def)
  next
    case False
    then have "map_get m k \<noteq> None" using Cons.prems(2) by (cases e) auto
    then show ?thesis using Cons.IH Cons.prems(1) False by (simp add: map_delete_def map_wf_def)
  qed
qed simp

lemma length_map_set: "length (map_set k v m) = (if map_get m k = None then Suc (length m) else length m)"
  by (induction m) (auto split: if_split_asm)

lemma length_delete_le: "length (map_delete k m) \<le> length m"
  by (simp add: map_delete_def)

text \<open>Room is made for a new key as long as no key is falsy.\<close>

lemma make_room_bound:
  assumes "map_wf m" and "\<forall>k \<in> fst ` set m. \<not> falsy k" and "0 < n" and "length m \<le> n"
  shows "length (map_set key v (make_room falsy n key m)) \<le> n"
proof (cases "map_get m key = None")
  case False
  then have "Suc (length (map_delete key m)) = length m" by (rule length_map_delete [OF assms(1)])
  then show ?thesis using False assms(4) by (simp add: make_room_def length_map_set map_get_delete)
next
  case True
  show ?thesis
  proof (cases "length m = n")
    case full: True
    then obtain e es where m: "m = e # es" using assms(3) by (cases m) auto
    then have "\<not> falsy (fst e)" using assms(2) by simp
    then have "make_room falsy n key m = map_delete (fst e) m" using True full m by (simp add: make_room_def cache_first_def)
    moreover have "Suc (length (map_delete (fst e) m)) = length m"
      by (rule length_map_delete [OF assms(1)]) (simp add: m map_get_def split: prod.split)
    ultimately show ?thesis using full by (simp add: length_map_set)
  next
    case False
    then show ?thesis using True assms(4) by (simp add: make_room_def length_map_set)
  qed
qed

fun call_key_ok :: "'v cache_call \<Rightarrow> bool" where
  "call_key_ok (Put now k v opts) \<longleftrightarrow> k \<noteq> []"
| "call_key_ok _ \<longleftrightarrow> True"

definition mem_bounded :: "'v mem_cache \<Rightarrow> bool" where
  "mem_bounded c \<longleftrightarrow> map_wf (mc_items c) \<and> [] \<notin> fst ` set (mc_items c) \<and> 0 < mc_size c \<and> length (mc_items c) \<le> mc_size c"

lemma keys_delete: "fst ` set (map_delete k m) \<subseteq> fst ` set m"
  by (auto simp: map_delete_def)

lemma keys_make_room: "fst ` set (make_room falsy n key m) \<subseteq> fst ` set m"
  using keys_delete [of _ m] unfolding make_room_def by (simp split: option.split)

lemma mem_bounded_delete: "mem_bounded c \<Longrightarrow> mem_bounded (c\<lparr>mc_items := map_delete k (mc_items c), mc_tags := tags\<rparr>)"
  using keys_delete [of k "mc_items c"] length_delete_le [of k "mc_items c"]
  unfolding mem_bounded_def by (simp add: map_wf_delete subset_iff) (meson order_trans)

lemma mem_bounded_deletes:
  "mem_bounded c \<Longrightarrow> mem_bounded (c\<lparr>mc_items := fold map_delete ks (mc_items c), mc_tags := tags\<rparr>)"
proof (induction ks arbitrary: c)
  case (Cons k ks)
  show ?case using Cons.IH [OF mem_bounded_delete [OF Cons.prems, where k = k and tags = tags]] by simp
qed (simp add: mem_bounded_def)

lemma mem_bounded_call:
  assumes "mem_bounded c" and "call_key_ok op"
  shows "mem_bounded (apply_call mem_cache_get mem_cache_set mem_cache_delete mem_invalidateTags op c)"
proof (cases op)
  case (Get now k)
  then show ?thesis using assms(1) mem_bounded_delete [OF assms(1), where k = k and tags = "mc_tags c"]
    by (auto simp: mem_cache_get_def split: option.split)
next
  case (Put now k v opts)
  let ?room = "make_room (\<lambda>k. k = []) (mc_size c) k (mc_items c)"
  have "length (map_set k x ?room) \<le> mc_size c" for x
    by (rule make_room_bound) (use assms(1) in \<open>auto simp: mem_bounded_def image_iff\<close>)
  moreover have "[] \<notin> fst ` set (map_set k x ?room)" for x
    using keys_make_room [of "\<lambda>k. k = []" "mc_size c" k "mc_items c"] assms Put by (auto simp: keys_map_set mem_bounded_def)
  ultimately show ?thesis using Put assms(1)
    by (simp add: mem_bounded_def mem_cache_set_def map_wf_set map_wf_make_room)
next
  case (Remove k)
  then show ?thesis using mem_bounded_delete [OF assms(1), where k = k and tags = "mc_tags c"] by (simp add: mem_cache_delete_def)
next
  case (Invalidate ts)
  have "mem_bounded (mem_invalidate_tag t c)" if "mem_bounded c" for t and c :: "'a mem_cache"
    using mem_bounded_deletes [OF that] that by (auto simp: mem_invalidate_tag_def split: option.split)
  then have "mem_bounded (fold mem_invalidate_tag ts c)" using assms(1) by (induction ts arbitrary: c) auto
  then show ?thesis using Invalidate by (simp add: mem_invalidateTags_def)
qed

text \<open>
  The in-memory strategy never holds more items than its size, as long as nobody sets the empty
  key. Once that key is the oldest it is never evicted, and the number of items passes the size, after
  which the test for a full cache fails for good.
\<close>

theorem mem_cache_bounded:
  assumes "0 < n" and "list_all call_key_ok cs"
  shows "length (mc_items (mem_calls cs (empty_mem_cache n))) \<le> n"
proof -
  have "mem_bounded (mem_calls cs c) \<and> mc_size (mem_calls cs c) = mc_size c" if "mem_bounded c" for c :: "'a mem_cache"
    using assms(2) that
  proof (induction cs arbitrary: c)
    case (Cons op cs)
    let ?d = "apply_call mem_cache_get mem_cache_set mem_cache_delete mem_invalidateTags op c"
    have sz: "mc_size (fold mem_invalidate_tag ts c) = mc_size c" for ts and c :: "'a mem_cache"
      by (induction ts arbitrary: c) (auto simp: mem_invalidate_tag_def split: option.split)
    have "mc_size ?d = mc_size c"
      by (cases op) (auto simp: mem_cache_get_def mem_cache_set_def mem_cache_delete_def mem_invalidateTags_def sz split: option.split)
    then show ?case using Cons.IH [of ?d] mem_bounded_call [of c op] Cons.prems by (simp add: mem_calls_def)
  qed (simp add: mem_calls_def)
  from this [of "empty_mem_cache n"] show ?thesis
    using assms(1) by (simp add: mem_bounded_def empty_mem_cache_def map_wf_def)
qed

definition three_puts :: "string \<Rightarrow> int cache_call list" where
  "three_puts k = map (\<lambda>x. Put 0 x 1 \<lparr>co_ttl = None, co_tags = None\<rparr>) [k, ''b'', ''c'', ''d'']"

lemma mem_cache_bounded_witness:
  "length (mc_items (mem_calls (three_puts ''a'') (empty_mem_cache 2))) \<le> 2 \<and>
   length (mc_items (mem_calls (three_puts '''') (empty_mem_cache 2))) = 4"
proof -
  have "list_all call_key_ok (three_puts ''a'')" by (simp add: three_puts_def)
  from mem_cache_bounded [OF _ this, of 2] show ?thesis by (simp, code_simp)
qed

text \<open>A value that was just set is found until its time to live is over.\<close>

lemma mem_cache_set_get:
  assumes "case ttl_of opts of None \<Rightarrow> True | Some t \<Rightarrow> now' < now + t"
  shows "fst (mem_cache_get now' k (mem_cache_set now k v opts c)) = Some v"
  using assms by (auto simp: mem_cache_get_def mem_cache_set_def map_get_set live_def split: option.splits)

end
