(* ===== verification/CacheClients.thy ===== *)
theory CacheClients
  imports Caches
begin

text \<open>
  What is built on the caches: \<^verbatim>\<open>CacheService\<close>, which turns a failing strategy into a miss,
  \<^verbatim>\<open>Cache\<close> with its value function, the cache of a request, \<^verbatim>\<open>TtlCache\<close> and the
  self-refreshing cache with its memo table. \<open>truthy\<close> is JavaScript's test of a value; a pending
  promise is represented by what it resolves to.
\<close>

section \<open>The cache service and caches with a value function\<close>

record ('v, 's) cache_strategy =
  strategy_get :: "string \<Rightarrow> 's \<Rightarrow> ('v option \<times> 's) result"
  strategy_set :: "string \<Rightarrow> 'v \<Rightarrow> cache_options \<Rightarrow> 's \<Rightarrow> 's result"
  strategy_delete :: "string \<Rightarrow> 's \<Rightarrow> 's result"
  strategy_invalidate :: "string list \<Rightarrow> 's \<Rightarrow> 's result"

definition caught :: "'a \<Rightarrow> 'a result \<Rightarrow> 'a" where
  "caught d r = (case r of Inl e \<Rightarrow> d | Inr x \<Rightarrow> x)"

definition service_get :: "('v, 's) cache_strategy \<Rightarrow> string \<Rightarrow> 's \<Rightarrow> 'v option \<times> 's" where
  "service_get st key s = caught (None, s) (strategy_get st key s)"

definition service_set :: "('v, 's) cache_strategy \<Rightarrow> string \<Rightarrow> 'v \<Rightarrow> cache_options \<Rightarrow> 's \<Rightarrow> 's" where
  "service_set st key v opts s = caught s (strategy_set st key v opts s)"

definition service_delete :: "('v, 's) cache_strategy \<Rightarrow> string \<Rightarrow> 's \<Rightarrow> 's" where
  "service_delete st key s = caught s (strategy_delete st key s)"

definition service_invalidateTags :: "('v, 's) cache_strategy \<Rightarrow> string list \<Rightarrow> 's \<Rightarrow> 's" where
  "service_invalidateTags st tags s = caught s (strategy_invalidate st tags s)"

record 'i cache_config =
  getKey :: "'i \<Rightarrow> string"
  config_options :: cache_options

text \<open>A cached value that is falsy counts as none and is computed again.\<close>

definition cache_get :: "('v \<Rightarrow> bool) \<Rightarrow> ('v, 's) cache_strategy \<Rightarrow> 'i cache_config \<Rightarrow> 'i \<Rightarrow> 'v result \<Rightarrow> 's \<Rightarrow> ('v \<times> 's) result" where
  "cache_get truthy st cfg i computed s =
     (case service_get st (getKey cfg i) s of
        (found, t) \<Rightarrow>
          if (case found of None \<Rightarrow> False | Some v \<Rightarrow> truthy v) then Inr (the found, t)
          else bind_result computed (\<lambda>v. Inr (v, service_set st (getKey cfg i) v (config_options cfg) t)))"

definition cache_delete :: "('v, 's) cache_strategy \<Rightarrow> 'i cache_config \<Rightarrow> 'i list \<Rightarrow> 's \<Rightarrow> 's" where
  "cache_delete st cfg ids s = fold (\<lambda>i. service_delete st (getKey cfg i)) ids s"

definition cache_invalidateTags :: "('v, 's) cache_strategy \<Rightarrow> string list \<Rightarrow> 's \<Rightarrow> 's" where
  "cache_invalidateTags st tags s = service_invalidateTags st tags s"

definition mem_strategy :: "int \<Rightarrow> ('v, 'v mem_cache) cache_strategy" where
  "mem_strategy now =
     \<lparr>strategy_get = (\<lambda>k s. Inr (mem_cache_get now k s)), strategy_set = (\<lambda>k v opts s. Inr (mem_cache_set now k v opts s)),
      strategy_delete = (\<lambda>k s. Inr (mem_cache_delete k s)), strategy_invalidate = (\<lambda>ts s. Inr (mem_invalidateTags ts s))\<rparr>"

text \<open>What \<^verbatim>\<open>Cache.get\<close> answers twice in a row: a truthy value is computed once, a falsy one each time.\<close>

lemma cache_get_twice:
  assumes "cache_get truthy (mem_strategy now) cfg i (Inr v) s = Inr (x, t)"
    and "mem_entry s (getKey cfg i) = None"
    and "case ttl_of (config_options cfg) of None \<Rightarrow> True | Some d \<Rightarrow> now' < now + d"
  shows "x = v" and "truthy v \<Longrightarrow> cache_get truthy (mem_strategy now') cfg i (Inl e) t = Inr (v, snd (mem_cache_get now' (getKey cfg i) t))"
    and "\<not> truthy v \<Longrightarrow> cache_get truthy (mem_strategy now') cfg i (Inl e) t = Inl e"
proof -
  have miss: "fst (mem_cache_get now (getKey cfg i) s) = None"
    using assms(2) by (auto simp: mem_cache_get_def mem_entry_def split: option.split)
  then have t: "x = v" "t = mem_cache_set now (getKey cfg i) v (config_options cfg) (snd (mem_cache_get now (getKey cfg i) s))"
    using assms(1) by (auto simp: cache_get_def service_get_def service_set_def mem_strategy_def caught_def split: prod.splits)
  show "x = v" by (rule t(1))
  have hit: "fst (mem_cache_get now' (getKey cfg i) t) = Some v" unfolding t(2) by (rule mem_cache_set_get [OF assms(3)])
  show "cache_get truthy (mem_strategy now') cfg i (Inl e) t = Inr (v, snd (mem_cache_get now' (getKey cfg i) t))" if "truthy v"
    using that hit
    by (cases "mem_cache_get now' (getKey cfg i) t") (simp add: cache_get_def service_get_def mem_strategy_def caught_def)
  show "cache_get truthy (mem_strategy now') cfg i (Inl e) t = Inl e" if "\<not> truthy v"
    using that hit
    by (cases "mem_cache_get now' (getKey cfg i) t") (simp add: cache_get_def service_get_def mem_strategy_def caught_def)
qed

section \<open>The cache of a request\<close>

type_synonym ('k, 'v) context_caches = "(nat, ('k, 'v) js_map) js_map"

definition getContextCache :: "nat \<Rightarrow> ('k, 'v) context_caches \<Rightarrow> ('k, 'v) js_map" where
  "getContextCache ctx caches = nullish (map_get caches ctx) []"

definition context_set :: "nat \<Rightarrow> 'k \<Rightarrow> 'v \<Rightarrow> ('k, 'v) context_caches \<Rightarrow> ('k, 'v) context_caches" where
  "context_set ctx key v caches = map_set ctx (map_set key v (getContextCache ctx caches)) caches"

definition context_get :: "('v \<Rightarrow> bool) \<Rightarrow> nat \<Rightarrow> 'k \<Rightarrow> 'v option \<Rightarrow> ('k, 'v) context_caches \<Rightarrow> 'v option \<times> ('k, 'v) context_caches" where
  "context_get truthy ctx key getDefault caches =
     (let caches1 = map_set ctx (getContextCache ctx caches) caches;
          found = map_get (getContextCache ctx caches) key
      in if (case found of None \<Rightarrow> False | Some v \<Rightarrow> truthy v) then (found, caches1)
         else case getDefault of
                Some v \<Rightarrow> (Some v, context_set ctx key v caches1)
              | None \<Rightarrow> (None, caches1))"

text \<open>Requests do not see each other's entries.\<close>

lemma context_get_other:
  assumes "ctx' \<noteq> ctx"
  shows "fst (context_get truthy ctx' key' None (snd (context_get truthy ctx key d caches))) = fst (context_get truthy ctx' key' None caches)"
  using assms by (auto simp: context_get_def context_set_def getContextCache_def map_get_set Let_def split: option.split)

section \<open>TtlCache\<close>

record ('k, 'v) ttl_cache =
  tc_items :: "('k, 'v \<times> int) js_map"
  tc_ttl :: int
  tc_size :: nat

definition ttl_cache_new :: "int option \<Rightarrow> nat option \<Rightarrow> ('k, 'v) ttl_cache" where
  "ttl_cache_new ttl n =
     \<lparr>tc_items = [], tc_ttl = (case ttl of None \<Rightarrow> 30 * 1000 | Some t \<Rightarrow> if t = 0 then 30 * 1000 else t),
      tc_size = (case n of None \<Rightarrow> 1000 | Some m \<Rightarrow> if m = 0 then 1000 else m)\<rparr>"

definition ttl_cache_get :: "int \<Rightarrow> 'k \<Rightarrow> ('k, 'v) ttl_cache \<Rightarrow> 'v option \<times> ('k, 'v) ttl_cache" where
  "ttl_cache_get now key c =
     (case map_get (tc_items c) key of
        None \<Rightarrow> (None, c)
      | Some hit \<Rightarrow> if now < snd hit then (Some (fst hit), c) else (None, c\<lparr>tc_items := map_delete key (tc_items c)\<rparr>))"

definition ttl_cache_set :: "('k \<Rightarrow> bool) \<Rightarrow> int \<Rightarrow> 'k \<Rightarrow> 'v \<Rightarrow> ('k, 'v) ttl_cache \<Rightarrow> ('k, 'v) ttl_cache" where
  "ttl_cache_set falsy now key v c =
     c\<lparr>tc_items := map_set key (v, now + tc_ttl c) (make_room falsy (tc_size c) key (tc_items c))\<rparr>"

definition ttl_cache_delete :: "'k \<Rightarrow> ('k, 'v) ttl_cache \<Rightarrow> ('k, 'v) ttl_cache" where
  "ttl_cache_delete key c = c\<lparr>tc_items := map_delete key (tc_items c)\<rparr>"

lemma ttl_cache_set_get:
  "fst (ttl_cache_get now' k (ttl_cache_set falsy now k v c)) = (if now' < now + tc_ttl c then Some v else None)"
  by (simp add: ttl_cache_get_def ttl_cache_set_def map_get_set)

lemma ttl_cache_bounded:
  assumes "map_wf (tc_items c)" and "\<forall>k \<in> fst ` set (tc_items c). \<not> falsy k" and "0 < tc_size c" and "length (tc_items c) \<le> tc_size c"
  shows "length (tc_items (ttl_cache_set falsy now k v c)) \<le> tc_size c"
  using make_room_bound [OF assms] by (simp add: ttl_cache_set_def)

section \<open>The self-refreshing cache\<close>

text \<open>
  \<open>fetched\<close> is what the refresh function gives when it is called: a new value, or nothing when its
  promise is rejected, and then the old value is used on.
\<close>

record ('v, 'r) refreshing =
  srf_value :: 'v
  srf_expires :: int
  srf_memo :: "(string, int \<times> 'r) js_map"

definition createSelfRefreshingCache :: "int \<Rightarrow> int \<Rightarrow> 'v \<Rightarrow> ('v, 'r) refreshing" where
  "createSelfRefreshingCache ttl now initialValue = \<lparr>srf_value = initialValue, srf_expires = now + ttl, srf_memo = []\<rparr>"

definition refreshValue :: "int \<Rightarrow> bool \<Rightarrow> int \<Rightarrow> 'v option \<Rightarrow> ('v, 'r) refreshing \<Rightarrow> 'v \<times> ('v, 'r) refreshing" where
  "refreshValue ttl resetMemoCache now fetched s =
     (case fetched of
        None \<Rightarrow> (srf_value s, s)
      | Some v \<Rightarrow> (v, s\<lparr>srf_value := v, srf_expires := now + ttl, srf_memo := (if resetMemoCache then [] else srf_memo s)\<rparr>))"

definition srf_getValue :: "int \<Rightarrow> bool \<Rightarrow> int \<Rightarrow> 'v option \<Rightarrow> ('v, 'r) refreshing \<Rightarrow> 'v \<times> ('v, 'r) refreshing" where
  "srf_getValue ttl resetMemoCache now fetched s =
     (if srf_expires s < now then refreshValue ttl resetMemoCache now fetched s else (srf_value s, s))"

definition memoize :: "int \<Rightarrow> int \<Rightarrow> string \<Rightarrow> 'v option \<Rightarrow> ('v \<Rightarrow> 'r) \<Rightarrow> ('v, 'r) refreshing \<Rightarrow> 'r \<times> ('v, 'r) refreshing" where
  "memoize ttl now key fetched f s =
     (let compute = (case srf_getValue ttl False now fetched s of
            (v, t) \<Rightarrow> (f v, t\<lparr>srf_memo := map_set key (now + ttl, f v) (srf_memo t)\<rparr>))
      in case map_get (srf_memo s) key of
           Some cached \<Rightarrow> if now < fst cached then (snd cached, s) else compute
         | None \<Rightarrow> compute)"

text \<open>Values carry the time they were fetched at, and the function of a key is fixed.\<close>

datatype srf_call = Srf_value int | Srf_refresh int | Srf_memoize int string

fun srf_step :: "int \<Rightarrow> (int \<Rightarrow> 'a) \<Rightarrow> (string \<Rightarrow> 'a \<times> int \<Rightarrow> 'r) \<Rightarrow> srf_call \<Rightarrow> ('a \<times> int, 'r) refreshing \<Rightarrow> ('a \<times> int, 'r) refreshing" where
  "srf_step ttl source f (Srf_value now) s = snd (srf_getValue ttl True now (Some (source now, now)) s)"
| "srf_step ttl source f (Srf_refresh now) s = snd (refreshValue ttl True now (Some (source now, now)) s)"
| "srf_step ttl source f (Srf_memoize now key) s = snd (memoize ttl now key (Some (source now, now)) (f key) s)"

definition srf_inv :: "int \<Rightarrow> (string \<Rightarrow> 'a \<times> int \<Rightarrow> 'r) \<Rightarrow> ('a \<times> int, 'r) refreshing \<Rightarrow> bool" where
  "srf_inv ttl f s \<longleftrightarrow> srf_expires s = snd (srf_value s) + ttl \<and>
     (\<forall>key e r. map_get (srf_memo s) key = Some (e, r) \<longrightarrow> (\<exists>x t. r = f key (x, t) \<and> e \<le> t + 2 * ttl))"

lemma srf_inv_step:
  assumes "0 \<le> ttl" and "srf_inv ttl f s"
  shows "srf_inv ttl f (srf_step ttl source f c s)"
proof (cases c)
  case (Srf_memoize now key)
  obtain v t where g: "srf_getValue ttl False now (Some (source now, now)) s = (v, t)" by (cases "srf_getValue ttl False now (Some (source now, now)) s")
  then have t: "srf_inv ttl f t" "v = srf_value t" "now + ttl \<le> snd v + 2 * ttl"
    using assms by (auto simp: srf_getValue_def refreshValue_def srf_inv_def split: if_splits)
  then have "srf_inv ttl f (t\<lparr>srf_memo := map_set key (now + ttl, f key v) (srf_memo t)\<rparr>)"
    unfolding srf_inv_def by (auto simp: map_get_set) (metis prod.collapse)
  then show ?thesis using Srf_memoize g assms(2) by (auto simp: memoize_def Let_def split: option.split)
qed (use assms in \<open>auto simp: srf_getValue_def refreshValue_def srf_inv_def\<close>)

text \<open>
  What \<^verbatim>\<open>memoize\<close> of a self-refreshing cache answers was computed from a value fetched at most two
  times the time to live ago, when refreshing does not fail: a result may be computed at the end of the
  life of the value and then lives as long again. The bound is reached but for a millisecond.
\<close>

theorem memo_age_bound:
  assumes "0 \<le> ttl"
    and "fst (memoize ttl now key (Some (source now, now)) (f key)
           (fold (srf_step ttl source f) cs (createSelfRefreshingCache ttl start (source start, start)))) = r"
  shows "\<exists>x t. r = f key (x, t) \<and> now - t \<le> 2 * ttl"
proof -
  let ?s = "fold (srf_step ttl source f) cs (createSelfRefreshingCache ttl start (source start, start))"
  have "srf_inv ttl f (createSelfRefreshingCache ttl start (source start, start))"
    by (simp add: srf_inv_def createSelfRefreshingCache_def)
  then have inv: "srf_inv ttl f ?s" by (induction cs rule: rev_induct) (auto intro: srf_inv_step [OF assms(1)])
  obtain v t where g: "srf_getValue ttl False now (Some (source now, now)) ?s = (v, t)"
    by (cases "srf_getValue ttl False now (Some (source now, now)) ?s")
  then have v: "now - snd v \<le> 2 * ttl"
    using assms(1) inv by (auto simp: srf_getValue_def refreshValue_def srf_inv_def split: if_splits)
  show ?thesis
  proof (cases "map_get (srf_memo ?s) key")
    case None
    then have "r = f key v" using assms(2) g by (simp add: memoize_def)
    then show ?thesis using v by (metis prod.collapse)
  next
    case (Some cached)
    show ?thesis
    proof (cases "now < fst cached")
      case True
      then have "r = snd cached" using assms(2) Some by (simp add: memoize_def)
      moreover obtain x u where "snd cached = f key (x, u)" "fst cached \<le> u + 2 * ttl"
        using inv Some unfolding srf_inv_def by (metis prod.collapse)
      ultimately show ?thesis using True by (intro exI [of _ x] exI [of _ u]) auto
    next
      case False
      then have "r = f key v" using assms(2) g Some by (simp add: memoize_def)
      then show ?thesis using v by (metis prod.collapse)
    qed
  qed
qed

lemma memo_age_bound_witness:
  "(\<exists>x t. (0 :: int, 0 :: int) = (x, t) \<and> 199 - t \<le> 2 * 100) \<and>
   fst (memoize 100 199 ''k'' (Some (199, 199)) (\<lambda>v. v)
      (fold (srf_step 100 (\<lambda>t. t) (\<lambda>k v. v)) [Srf_memoize 100 ''k''] (createSelfRefreshingCache 100 0 (0, 0)))) = (0, 0)"
proof -
  have r: "fst (memoize 100 199 ''k'' (Some (199, 199)) (\<lambda>v. v)
      (fold (srf_step 100 (\<lambda>t. t) (\<lambda>k v. v)) [Srf_memoize 100 ''k''] (createSelfRefreshingCache 100 0 (0, 0)))) = (0, 0)"
    by code_simp
  show ?thesis
    using memo_age_bound [of 100 199 "''k''" "\<lambda>t. t" "\<lambda>k v. v" "[Srf_memoize 100 ''k'']" 0 "(0, 0)"] r by simp
qed

end
