(* ===== verification/SqlCache.thy ===== *)
theory SqlCache
  imports Caches "HOL-Library.Multiset"
begin

text \<open>
  \<^verbatim>\<open>SqlCacheStrategy\<close> of the default cache plugin: rows of items with a unique key, rows of tags that
  refer to items and go with them. An upsert keeps a column whose new value is undefined. The laws of a
  cache hold; invalidation by tag removes the items of the first batch only.
\<close>

record 'v cache_row =
  cr_id :: nat
  cr_key :: string
  cr_insertedAt :: int
  cr_value :: 'v
  cr_expiresAt :: "int option"

record 'v sql_cache =
  sc_items :: "'v cache_row list"
  sc_tags :: "(string \<times> nat) list"
  sc_nextId :: nat
  sc_size :: nat

text \<open>Deleting items also deletes their tags.\<close>

definition delete_items :: "('v cache_row \<Rightarrow> bool) \<Rightarrow> 'v sql_cache \<Rightarrow> 'v sql_cache" where
  "delete_items P c =
     (let gone = map cr_id (filter P (sc_items c))
      in c\<lparr>sc_items := filter (\<lambda>r. \<not> P r) (sc_items c), sc_tags := filter (\<lambda>t. snd t \<notin> set gone) (sc_tags c)\<rparr>)"

definition row_live :: "int \<Rightarrow> 'v cache_row \<Rightarrow> bool" where
  "row_live now r \<longleftrightarrow> (case cr_expiresAt r of None \<Rightarrow> True | Some e \<Rightarrow> now < e)"

definition sql_cache_get :: "int \<Rightarrow> string \<Rightarrow> 'v sql_cache \<Rightarrow> 'v option \<times> 'v sql_cache" where
  "sql_cache_get now key c =
     (case List.find (\<lambda>r. cr_key r = key) (sc_items c) of
        None \<Rightarrow> (None, c)
      | Some hit \<Rightarrow> if row_live now hit then (Some (cr_value hit), c) else (None, delete_items (\<lambda>r. cr_key r = key) c))"

definition prune :: "'v sql_cache \<Rightarrow> 'v sql_cache" where
  "prune c =
     (if sc_size c \<le> length (sc_items c)
      then let old = map cr_id (take 1000 (drop (max (sc_size c - 1) 1) (sort_key (\<lambda>r. - cr_insertedAt r) (sc_items c))))
           in delete_items (\<lambda>r. cr_id r \<in> set old) c
      else c)"

definition upsert :: "int \<Rightarrow> string \<Rightarrow> 'v \<Rightarrow> int option \<Rightarrow> 'v sql_cache \<Rightarrow> nat \<times> 'v sql_cache" where
  "upsert now key v expires c =
     (case List.find (\<lambda>r. cr_key r = key) (sc_items c) of
        Some r \<Rightarrow> (cr_id r, c\<lparr>sc_items := map (\<lambda>x. if cr_key x = key
            then x\<lparr>cr_insertedAt := now, cr_value := v, cr_expiresAt := (case expires of None \<Rightarrow> cr_expiresAt x | Some e \<Rightarrow> Some e)\<rparr>
            else x) (sc_items c)\<rparr>)
      | None \<Rightarrow> (sc_nextId c, c\<lparr>sc_items := sc_items c @ [\<lparr>cr_id = sc_nextId c, cr_key = key, cr_insertedAt = now, cr_value = v,
                                                             cr_expiresAt = expires\<rparr>], sc_nextId := Suc (sc_nextId c)\<rparr>))"

definition upsert_tag :: "nat \<Rightarrow> string \<Rightarrow> 'v sql_cache \<Rightarrow> 'v sql_cache" where
  "upsert_tag i tag c = (if (tag, i) \<in> set (sc_tags c) then c else c\<lparr>sc_tags := sc_tags c @ [(tag, i)]\<rparr>)"

definition sql_cache_set :: "int \<Rightarrow> string \<Rightarrow> 'v \<Rightarrow> cache_options \<Rightarrow> 'v sql_cache \<Rightarrow> 'v sql_cache" where
  "sql_cache_set now key v opts c =
     (case upsert now key v (map_option (\<lambda>t. now + t) (ttl_of opts)) (prune c) of
        (i, d) \<Rightarrow> fold (upsert_tag i) (nullish (co_tags opts) []) d)"

definition sql_cache_delete :: "string \<Rightarrow> 'v sql_cache \<Rightarrow> 'v sql_cache" where
  "sql_cache_delete key c = delete_items (\<lambda>r. cr_key r = key) c"

text \<open>
  The batches of ids: at offset \<open>i\<close> the code takes \<^verbatim>\<open>ids.slice(i, batchSize)\<close>, which ends at position
  \<open>batchSize\<close>; deleting an empty batch throws, is logged and changes nothing.
\<close>

definition slice :: "nat \<Rightarrow> nat \<Rightarrow> 'a list \<Rightarrow> 'a list" where
  "slice from to xs = drop from (take to xs)"

definition batch_offsets :: "nat \<Rightarrow> nat \<Rightarrow> nat list" where
  "batch_offsets batchSize n = map (\<lambda>j. j * batchSize) [0..<(n + batchSize - 1) div batchSize]"

definition sql_invalidateTags :: "string list \<Rightarrow> 'v sql_cache \<Rightarrow> 'v sql_cache" where
  "sql_invalidateTags tags c =
     (let ids = map snd (filter (\<lambda>t. fst t \<in> set tags) (sc_tags c));
          d = c\<lparr>sc_tags := filter (\<lambda>t. fst t \<notin> set tags) (sc_tags c)\<rparr>
      in fold (\<lambda>i. delete_items (\<lambda>r. cr_id r \<in> set (slice i 1000 ids))) (batch_offsets 1000 (length ids)) d)"

section \<open>The laws of a cache\<close>

definition sql_entry :: "'v sql_cache \<Rightarrow> string \<Rightarrow> 'v option" where
  "sql_entry c k = map_option cr_value (List.find (\<lambda>r. cr_key r = k) (sc_items c))"

definition sql_invar :: "'v sql_cache \<Rightarrow> bool" where
  "sql_invar c \<longleftrightarrow> distinct (map cr_key (sc_items c)) \<and> distinct (map cr_id (sc_items c)) \<and>
     (\<forall>r \<in> set (sc_items c). cr_id r < sc_nextId c)"

lemma find_filter_or:
  assumes "distinct (map k xs)"
  shows "List.find (\<lambda>x. k x = y) (filter P xs) =
    (case List.find (\<lambda>x. k x = y) xs of None \<Rightarrow> None | Some x \<Rightarrow> if P x then Some x else None)"
  using assms
proof (induction xs)
  case (Cons a xs)
  show ?case
  proof (cases "k a = y")
    case True
    then have "\<forall>x \<in> set xs. k x \<noteq> y" using Cons.prems by (force simp: image_iff)
    then have "List.find (\<lambda>x. k x = y) (filter P xs) = None" by (simp add: find_None_all)
    then show ?thesis using True by simp
  qed (use Cons in simp)
qed simp

lemma sql_entry_delete:
  assumes "sql_invar c"
  shows "sql_entry (delete_items P c) k = None \<or> sql_entry (delete_items P c) k = sql_entry c k"
    and "(\<And>r. cr_key r = k \<Longrightarrow> P r) \<Longrightarrow> sql_entry (delete_items P c) k = None"
proof -
  have e: "sql_entry (delete_items P c) k =
    (case List.find (\<lambda>r. cr_key r = k) (sc_items c) of None \<Rightarrow> None | Some r \<Rightarrow> if P r then None else Some (cr_value r))"
    using assms by (auto simp: sql_entry_def delete_items_def Let_def sql_invar_def find_filter_or split: option.split)
  show "sql_entry (delete_items P c) k = None \<or> sql_entry (delete_items P c) k = sql_entry c k"
    unfolding e by (simp add: sql_entry_def split: option.split)
  show "sql_entry (delete_items P c) k = None" if "\<And>r. cr_key r = k \<Longrightarrow> P r"
    unfolding e using that by (auto split: option.split dest: find_Some_in)
qed

lemma sql_invar_delete: "sql_invar c \<Longrightarrow> sql_invar (delete_items P c)"
  by (simp add: sql_invar_def delete_items_def Let_def distinct_map_filter)

lemma sql_invar_prune: "sql_invar c \<Longrightarrow> sql_invar (prune c)"
  by (simp add: prune_def sql_invar_delete Let_def)

lemma sql_entry_prune: "sql_invar c \<Longrightarrow> sql_entry (prune c) k = None \<or> sql_entry (prune c) k = sql_entry c k"
  by (simp add: prune_def sql_entry_delete Let_def)

lemma sql_entry_tags: "sql_entry (fold (upsert_tag i) tags c) = sql_entry c"
  by (induction tags arbitrary: c) (auto simp: upsert_tag_def sql_entry_def fun_eq_iff)

lemma sql_invar_tags: "sql_invar (fold (upsert_tag i) tags c) = sql_invar c"
  by (induction tags arbitrary: c) (auto simp: upsert_tag_def sql_invar_def)

lemma sql_invar_upsert:
  assumes "sql_invar c"
  shows "sql_invar (snd (upsert now key v e c))"
proof (cases "List.find (\<lambda>r. cr_key r = key) (sc_items c)")
  case None
  then have "key \<notin> cr_key ` set (sc_items c)" by (auto simp: find_None_all)
  then show ?thesis using assms None by (auto simp: upsert_def sql_invar_def less_Suc_eq)
next
  case (Some r)
  let ?g = "\<lambda>x :: 'a cache_row. if cr_key x = key then x\<lparr>cr_insertedAt := now, cr_value := v,
      cr_expiresAt := (case e of None \<Rightarrow> cr_expiresAt x | Some y \<Rightarrow> Some y)\<rparr> else x"
  have "map cr_key (map ?g xs) = map cr_key xs" "map cr_id (map ?g xs) = map cr_id xs" for xs by simp_all
  then show ?thesis using Some assms unfolding upsert_def sql_invar_def by (auto simp del: map_map)
qed

lemma sql_entry_upsert: "sql_entry (snd (upsert now key v e c)) = (sql_entry c)(key \<mapsto> v)"
proof -
  have app: "List.find P (xs @ ys) = (case List.find P xs of None \<Rightarrow> List.find P ys | Some x \<Rightarrow> Some x)" for P and xs ys :: "'a cache_row list"
    by (induction xs) auto
  show ?thesis
  proof (cases "List.find (\<lambda>r. cr_key r = key) (sc_items c)")
    case None
    then show ?thesis by (auto simp: upsert_def sql_entry_def fun_eq_iff app split: option.split)
  next
    case (Some r)
    let ?g = "\<lambda>x :: 'a cache_row. if cr_key x = key then x\<lparr>cr_insertedAt := now, cr_value := v,
        cr_expiresAt := (case e of None \<Rightarrow> cr_expiresAt x | Some y \<Rightarrow> Some y)\<rparr> else x"
    have "List.find (\<lambda>r. cr_key r = k) (map ?g xs) = map_option ?g (List.find (\<lambda>r. cr_key r = k) xs)" for k xs
      by (induction xs) auto
    moreover have "sc_items (snd (upsert now key v e c)) = map ?g (sc_items c)" using Some by (simp add: upsert_def)
    ultimately have "sql_entry (snd (upsert now key v e c)) k =
        (case List.find (\<lambda>r. cr_key r = k) (sc_items c) of None \<Rightarrow> None | Some x \<Rightarrow> Some (cr_value (?g x)))" for k
      by (simp add: sql_entry_def split: option.split)
    then show ?thesis using Some by (auto simp: sql_entry_def fun_eq_iff dest!: find_Some_in split: option.split)
  qed
qed

interpretation sql_cache: cache_store sql_entry sql_cache_get sql_cache_set sql_cache_delete sql_invar
proof unfold_locales
  fix s :: "'a sql_cache" and now k v opts
  assume inv: "sql_invar s"
  show "fst (sql_cache_get now k s) = None \<or> fst (sql_cache_get now k s) = sql_entry s k"
    by (auto simp: sql_cache_get_def sql_entry_def split: option.split)
  show "sql_entry (snd (sql_cache_get now k s)) \<subseteq>\<^sub>m sql_entry s"
    by (rule map_le_pointwise) (auto simp: sql_cache_get_def sql_entry_delete(1) [OF inv] split: option.split)
  have set: "sql_cache_set now k v opts s =
      fold (upsert_tag (fst (upsert now k v (map_option (\<lambda>t. now + t) (ttl_of opts)) (prune s)))) (nullish (co_tags opts) [])
        (snd (upsert now k v (map_option (\<lambda>t. now + t) (ttl_of opts)) (prune s)))"
    by (simp add: sql_cache_set_def split: prod.split)
  show "sql_entry (sql_cache_set now k v opts s) \<subseteq>\<^sub>m (sql_entry s)(k \<mapsto> v)"
    by (rule map_le_pointwise) (use sql_entry_prune [OF inv] in \<open>auto simp: set sql_entry_tags sql_entry_upsert\<close>)
  show "sql_entry (sql_cache_delete k s) \<subseteq>\<^sub>m (sql_entry s)(k := None)"
    by (rule map_le_pointwise) (use sql_entry_delete [OF inv] in \<open>auto simp: sql_cache_delete_def\<close>)
  show "sql_invar (snd (sql_cache_get now k s))"
    using inv by (auto simp: sql_cache_get_def sql_invar_delete split: option.split)
  show "sql_invar (sql_cache_set now k v opts s)"
    using inv by (simp add: set sql_invar_tags sql_invar_upsert sql_invar_prune)
  show "sql_invar (sql_cache_delete k s)" using inv by (simp add: sql_cache_delete_def sql_invar_delete)
qed

section \<open>Invalidation\<close>

definition tagged_ids :: "string list \<Rightarrow> 'v sql_cache \<Rightarrow> nat list" where
  "tagged_ids tags c = map snd (filter (\<lambda>t. fst t \<in> set tags) (sc_tags c))"

lemma delete_no_items: "delete_items (\<lambda>r. False) c = c"
  by (simp add: delete_items_def Let_def)

lemma slice_first: "slice 0 n xs = take n xs"
  by (simp add: slice_def)

lemma slice_later: "0 < j \<Longrightarrow> slice (j * n) n xs = []"
  by (cases j) (simp_all add: slice_def min.coboundedI2)

lemma batches:
  assumes "0 < n"
  shows "batch_offsets n 0 = []" and "0 < m \<Longrightarrow> \<exists>js. batch_offsets n m = 0 # map (\<lambda>j. j * n) js \<and> (\<forall>j \<in> set js. 0 < j)"
proof -
  show "batch_offsets n 0 = []" using assms by (simp add: batch_offsets_def)
  assume "0 < m"
  then have "n div n \<le> (m + n - 1) div n" by (intro div_le_mono) linarith
  then obtain q where "(m + n - 1) div n = Suc q" using assms by (cases "(m + n - 1) div n") auto
  then have "batch_offsets n m = 0 # map (\<lambda>j. j * n) [Suc 0..<Suc q]"
    by (simp add: batch_offsets_def upt_conv_Cons del: upt_Suc)
  moreover have "\<forall>j \<in> set [Suc 0..<Suc q]. 0 < j" by auto
  ultimately show "\<exists>js. batch_offsets n m = 0 # map (\<lambda>j. j * n) js \<and> (\<forall>j \<in> set js. 0 < j)" by blast
qed

lemma invalidate_batches:
  "fold (\<lambda>i. delete_items (\<lambda>r. cr_id r \<in> set (slice i 1000 ids))) (batch_offsets 1000 (length ids)) d =
     delete_items (\<lambda>r. cr_id r \<in> set (take 1000 ids)) d"
proof (cases "ids = []")
  case True
  then show ?thesis using batches(1) [of 1000] delete_no_items [of d] by simp
next
  case False
  obtain js where js: "batch_offsets 1000 (length ids) = 0 # map (\<lambda>j. j * 1000) js" "\<forall>j \<in> set js. 0 < j"
    using batches(2) [of 1000 "length ids"] False by auto
  have "fold (\<lambda>i. delete_items (\<lambda>r. cr_id r \<in> set (slice i 1000 ids))) (map (\<lambda>j. j * 1000) js) e = e" for e :: "'a sql_cache"
    using js(2) by (induction js arbitrary: e) (simp_all add: slice_later delete_no_items)
  then show ?thesis unfolding js(1) by (simp add: slice_first)
qed

lemma sql_invalidation_first_batch_items:
  "sc_items (sql_invalidateTags tags c) = filter (\<lambda>r. cr_id r \<notin> set (take 1000 (tagged_ids tags c))) (sc_items c)"
  "tagged_ids tags (sql_invalidateTags tags c) = []"
proof -
  have "sql_invalidateTags tags c = delete_items (\<lambda>r. cr_id r \<in> set (take 1000 (tagged_ids tags c)))
      (c\<lparr>sc_tags := filter (\<lambda>t. fst t \<notin> set tags) (sc_tags c)\<rparr>)"
    by (simp add: sql_invalidateTags_def tagged_ids_def Let_def invalidate_batches)
  then show "sc_items (sql_invalidateTags tags c) = filter (\<lambda>r. cr_id r \<notin> set (take 1000 (tagged_ids tags c))) (sc_items c)"
    "tagged_ids tags (sql_invalidateTags tags c) = []"
    by (auto simp: delete_items_def Let_def tagged_ids_def filter_empty_conv)
qed

text \<open>
  \<^verbatim>\<open>SqlCacheStrategy.invalidateTags\<close> removes exactly the items of the first thousand rows that
  have one of the tags; what more rows refer to stays in the cache, and its tags are gone, so that no
  later invalidation reaches it.
\<close>

theorem sql_invalidation_first_batch:
  "sc_items (sql_invalidateTags tags c) = filter (\<lambda>r. cr_id r \<notin> set (take 1000 (tagged_ids tags c))) (sc_items c) \<and>
   tagged_ids tags (sql_invalidateTags tags c) = []"
  using sql_invalidation_first_batch_items by blast

text \<open>With 1001 tagged items, the last one is still found.\<close>

definition big_cache :: "nat \<Rightarrow> int sql_cache" where
  "big_cache n = \<lparr>sc_items = map (\<lambda>i. \<lparr>cr_id = i, cr_key = replicate i CHR ''k'', cr_insertedAt = 0, cr_value = 1, cr_expiresAt = None\<rparr>) [0..<n],
     sc_tags = map (\<lambda>i. (''t'', i)) [0..<n], sc_nextId = n, sc_size = 10000\<rparr>"

lemma stale_after_invalidation: "sql_entry (sql_invalidateTags [''t''] (big_cache 1001)) (replicate 1000 CHR ''k'') = Some 1"
proof -
  let ?g = "\<lambda>i. \<lparr>cr_id = i, cr_key = replicate i CHR ''k'', cr_insertedAt = 0, cr_value = 1 :: int, cr_expiresAt = None\<rparr>"
  have ids: "take 1000 (tagged_ids [''t''] (big_cache 1001)) = [0..<1000]"
    by (simp add: tagged_ids_def big_cache_def comp_def take_map [symmetric] del: upt_rec_numeral)
  have "sc_items (sql_invalidateTags [''t''] (big_cache 1001)) = filter (\<lambda>r. cr_id r \<notin> set [0..<1000]) (sc_items (big_cache 1001))"
    using sql_invalidation_first_batch_items [of "[''t'']" "big_cache 1001"] unfolding ids by blast
  also have "\<dots> = map ?g (filter (\<lambda>i. 1000 \<le> i) [0..<1001])"
    by (simp add: big_cache_def filter_map comp_def not_less del: upt_rec_numeral)
  also have "filter (\<lambda>i. 1000 \<le> i) [0..<1001] = [1000 :: nat]"
  proof -
    have "[0..<1001] = [0..<1000] @ [1000 :: nat]" using upt_Suc_append [of 0 1000] by simp
    moreover have "filter (\<lambda>i. 1000 \<le> i) [0..<1000] = ([] :: nat list)" by (simp add: filter_empty_conv del: upt_rec_numeral)
    ultimately show ?thesis by simp
  qed
  finally show ?thesis by (simp add: sql_entry_def)
qed

end
