(* ===== verification/Sessions.thy ===== *)
theory Sessions
  imports SqlCache Roles
begin

text \<open>
  Sessions: the two session cache strategies behind one interface, the in-memory one and the default one,
  which stores sessions under a prefix in whatever cache is configured. Times are milliseconds and
  arguments.
\<close>

section \<open>Session caches\<close>

record 's session_cache_ops =
  sco_get :: "int \<Rightarrow> string \<Rightarrow> 's \<Rightarrow> cached_session option \<times> 's"
  sco_set :: "int \<Rightarrow> cached_session \<Rightarrow> 's \<Rightarrow> 's"
  sco_delete :: "string \<Rightarrow> 's \<Rightarrow> 's"
  sco_clear :: "'s \<Rightarrow> 's"

locale session_cache =
  fixes ops :: "'s session_cache_ops"
    and entry :: "'s \<Rightarrow> string \<Rightarrow> cached_session option"
    and invar :: "'s \<Rightarrow> bool"
  assumes get_entry: "invar s \<Longrightarrow> fst (sco_get ops now t s) = Some c \<Longrightarrow> entry s t = Some c"
    and get_keeps: "invar s \<Longrightarrow> entry (snd (sco_get ops now t s)) \<subseteq>\<^sub>m entry s"
    and set_entry: "invar s \<Longrightarrow> entry (sco_set ops now c s) \<subseteq>\<^sub>m (entry s)(session_token c \<mapsto> c)"
    and delete_entry: "invar s \<Longrightarrow> entry (sco_delete ops t s) \<subseteq>\<^sub>m (entry s)(t := None)"
    and clear_entry: "invar s \<Longrightarrow> entry (sco_clear ops s) \<subseteq>\<^sub>m entry s"
    and invar_ops: "invar s \<Longrightarrow> invar (snd (sco_get ops now t s))" "invar s \<Longrightarrow> invar (sco_set ops now c s)"
      "invar s \<Longrightarrow> invar (sco_delete ops t s)" "invar s \<Longrightarrow> invar (sco_clear ops s)"

text \<open>
  \<^verbatim>\<open>InMemorySessionCacheStrategy\<close>: reading refreshes the place of a key. \<^verbatim>\<open>set\<close> stores the session
  before it asks whether the key is there, so the branch that evicts is never taken.
\<close>

type_synonym session_map = "(string, cached_session) js_map"

definition mem_session_get :: "string \<Rightarrow> session_map \<Rightarrow> cached_session option \<times> session_map" where
  "mem_session_get token m =
     (case map_get m token of None \<Rightarrow> (None, m) | Some item \<Rightarrow> (Some item, map_set token item (map_delete token m)))"

definition mem_session_set :: "nat \<Rightarrow> cached_session \<Rightarrow> session_map \<Rightarrow> session_map" where
  "mem_session_set cacheSize session m =
     (let stored = map_set (session_token session) session m;
          roomy = (if map_get stored (session_token session) \<noteq> None then map_delete (session_token session) stored
                   else if length stored = cacheSize then
                     (case cache_first stored of None \<Rightarrow> stored | Some oldest \<Rightarrow> if oldest = [] then stored else map_delete oldest stored)
                   else stored)
      in map_set (session_token session) session roomy)"

definition mem_sessions :: "nat \<Rightarrow> session_map session_cache_ops" where
  "mem_sessions cacheSize =
     \<lparr>sco_get = (\<lambda>now. mem_session_get), sco_set = (\<lambda>now. mem_session_set cacheSize), sco_delete = map_delete, sco_clear = (\<lambda>m. [])\<rparr>"

lemma mem_session_set_eq: "mem_session_set n c m = map_set (session_token c) c (map_delete (session_token c) m)"
proof -
  have "map_delete k (map_set k v m) = map_delete k m" for k :: string and v :: cached_session
    by (induction m) (auto simp: map_delete_def)
  then show ?thesis by (simp add: mem_session_set_def Let_def map_get_set)
qed

text \<open>So the cache grows with every new session, whatever its size.\<close>

lemma mem_session_unbounded:
  assumes "distinct (map session_token cs)"
  shows "length (fold (mem_session_set n) cs []) = length cs"
proof -
  have "length (fold (mem_session_set n) cs m) = length m + length cs"
    if "distinct (map session_token cs)" "\<forall>c \<in> set cs. map_get m (session_token c) = None" for m
    using that
  proof (induction cs arbitrary: m)
    case (Cons c cs)
    have "map_delete (session_token c) m = m"
      unfolding map_delete_def using Cons.prems(2) by (intro filter_True) (force simp: map_get_None_iff image_iff)
    then have "length (mem_session_set n c m) = Suc (length m)"
      using Cons.prems(2) by (simp add: mem_session_set_eq length_map_set)
    moreover have "\<forall>d \<in> set cs. map_get (mem_session_set n c m) (session_token d) = None"
    proof
      fix d assume d: "d \<in> set cs"
      then have "session_token d \<noteq> session_token c" using Cons.prems(1) by (auto simp: image_iff)
      then show "map_get (mem_session_set n c m) (session_token d) = None"
        using d Cons.prems(2) by (simp add: mem_session_set_eq map_get_set map_get_delete)
    qed
    ultimately show ?case using Cons.IH [of "mem_session_set n c m"] Cons.prems(1) by simp
  qed simp
  from this [of "[]"] show ?thesis using assms by simp
qed

interpretation mem_sessions: session_cache "mem_sessions n" map_get "\<lambda>m. True"
  by unfold_locales
    (auto simp: mem_sessions_def mem_session_get_def mem_session_set_eq map_get_set map_get_delete map_le_def split: option.split_asm option.split if_splits)

text \<open>\<^verbatim>\<open>DefaultSessionCacheStrategy\<close> keeps the sessions in any cache, under prefixed keys.\<close>

definition getCacheKey :: "string \<Rightarrow> string \<Rightarrow> string" where
  "getCacheKey cachePrefix sessionToken = cachePrefix @ '':'' @ sessionToken"

definition session_options :: "int \<Rightarrow> cache_options" where
  "session_options ttl = \<lparr>co_ttl = Some ttl, co_tags = Some [''DefaultSessionCacheStrategy'']\<rparr>"

definition default_sessions :: "string \<Rightarrow> int \<Rightarrow> (int \<Rightarrow> string \<Rightarrow> 's \<Rightarrow> cached_session option \<times> 's) \<Rightarrow>
    (int \<Rightarrow> string \<Rightarrow> cached_session \<Rightarrow> cache_options \<Rightarrow> 's \<Rightarrow> 's) \<Rightarrow> (string \<Rightarrow> 's \<Rightarrow> 's) \<Rightarrow> (string list \<Rightarrow> 's \<Rightarrow> 's) \<Rightarrow>
    's session_cache_ops" where
  "default_sessions cachePrefix ttl get put remove invalidate =
     \<lparr>sco_get = (\<lambda>now t. get now (getCacheKey cachePrefix t)),
      sco_set = (\<lambda>now c. put now (getCacheKey cachePrefix (session_token c)) c (session_options ttl)),
      sco_delete = (\<lambda>t. remove (getCacheKey cachePrefix t)),
      sco_clear = invalidate [''DefaultSessionCacheStrategy'']\<rparr>"

locale prefixed_cache = cache_store entry get put remove invar
  for entry :: "'s \<Rightarrow> string \<Rightarrow> cached_session option" and get put remove invar +
  fixes cachePrefix :: string and ttl :: int and invalidate :: "string list \<Rightarrow> 's \<Rightarrow> 's"
  assumes invalidate_le: "invar s \<Longrightarrow> entry (invalidate ts s) \<subseteq>\<^sub>m entry s"
    and invalidate_invar: "invar s \<Longrightarrow> invar (invalidate ts s)"

sublocale prefixed_cache < sessions: session_cache "default_sessions cachePrefix ttl get put remove invalidate"
  "\<lambda>s t. entry s (getCacheKey cachePrefix t)" invar
proof -
  have key: "(\<lambda>t. f (getCacheKey cachePrefix t)) \<subseteq>\<^sub>m (\<lambda>t. g (getCacheKey cachePrefix t))" if "f \<subseteq>\<^sub>m g"
    for f g :: "string \<Rightarrow> cached_session option" using that by (auto simp: map_le_def dom_def)
  have upd: "(\<lambda>t. f (getCacheKey cachePrefix t)) \<subseteq>\<^sub>m (\<lambda>t. g (getCacheKey cachePrefix t))(u := x)"
    if le: "f \<subseteq>\<^sub>m g(getCacheKey cachePrefix u := x)" for f g :: "string \<Rightarrow> cached_session option" and u x
  proof -
    have "(\<lambda>t. (g(getCacheKey cachePrefix u := x)) (getCacheKey cachePrefix t)) = (\<lambda>t. g (getCacheKey cachePrefix t))(u := x)"
      by (auto simp: getCacheKey_def)
    then show ?thesis using key [OF le] by (simp only:)
  qed
  show "session_cache (default_sessions cachePrefix ttl get put remove invalidate) (\<lambda>s t. entry s (getCacheKey cachePrefix t)) invar"
  proof
    fix s now t c assume inv: "invar s"
    let ?ops = "default_sessions cachePrefix ttl get put remove invalidate"
    show "fst (sco_get ?ops now t s) = Some c \<Longrightarrow> entry s (getCacheKey cachePrefix t) = Some c"
      using get_entry [OF inv] by (simp add: default_sessions_def)
    show "(\<lambda>t'. entry (snd (sco_get ?ops now t s)) (getCacheKey cachePrefix t')) \<subseteq>\<^sub>m (\<lambda>t. entry s (getCacheKey cachePrefix t))"
      using key [OF get_keeps [OF inv]] by (simp add: default_sessions_def)
    show "(\<lambda>t. entry (sco_set ?ops now c s) (getCacheKey cachePrefix t)) \<subseteq>\<^sub>m (\<lambda>t. entry s (getCacheKey cachePrefix t))(session_token c \<mapsto> c)"
      using upd [OF put_entry [OF inv]] by (simp add: default_sessions_def)
    show "(\<lambda>t'. entry (sco_delete ?ops t s) (getCacheKey cachePrefix t')) \<subseteq>\<^sub>m (\<lambda>t. entry s (getCacheKey cachePrefix t))(t := None)"
      using upd [OF remove_entry [OF inv]] by (simp add: default_sessions_def)
    show "(\<lambda>t. entry (sco_clear ?ops s) (getCacheKey cachePrefix t)) \<subseteq>\<^sub>m (\<lambda>t. entry s (getCacheKey cachePrefix t))"
      using key [OF invalidate_le [OF inv]] by (simp add: default_sessions_def)
    show "invar (snd (sco_get ?ops now t s))" "invar (sco_set ?ops now c s)" "invar (sco_delete ?ops t s)" "invar (sco_clear ?ops s)"
      using inv by (simp_all add: default_sessions_def invar_get invar_put invar_remove invalidate_invar)
  qed
qed

definition default_prefix :: string where
  "default_prefix = ''vendure-session-cache''"

definition day_ms :: int where
  "day_ms = 24 * 60 * 60 * 1000"

lemma sql_invalidate_laws:
  assumes "sql_invar s"
  shows "sql_entry (sql_invalidateTags ts s) \<subseteq>\<^sub>m sql_entry s" and "sql_invar (sql_invalidateTags ts s)"
proof -
  let ?d = "s\<lparr>sc_tags := filter (\<lambda>t. fst t \<notin> set ts) (sc_tags s)\<rparr>"
  have d: "sql_invar ?d" "sql_entry ?d = sql_entry s" using assms by (auto simp: sql_invar_def sql_entry_def fun_eq_iff)
  have e: "sql_invalidateTags ts s = delete_items (\<lambda>r. cr_id r \<in> set (take 1000 (tagged_ids ts s))) ?d"
    by (simp add: sql_invalidateTags_def tagged_ids_def Let_def invalidate_batches)
  show "sql_entry (sql_invalidateTags ts s) \<subseteq>\<^sub>m sql_entry s"
    by (rule map_le_pointwise) (use sql_entry_delete(1) [OF d(1)] d(2) in \<open>auto simp: e\<close>)
  show "sql_invar (sql_invalidateTags ts s)" unfolding e by (rule sql_invar_delete [OF d(1)])
qed

interpretation mem_default: prefixed_cache mem_entry mem_cache_get mem_cache_set mem_cache_delete mem_invar
  default_prefix day_ms mem_invalidateTags
  by unfold_locales (simp_all add: mem_cache.invalidate_entry mem_cache.invar_invalidate)

interpretation sql_default: prefixed_cache sql_entry sql_cache_get sql_cache_set sql_cache_delete sql_invar
  default_prefix day_ms sql_invalidateTags
  by unfold_locales (simp_all add: sql_invalidate_laws)

end
