(* ===== verification/SessionService.thy ===== *)
theory SessionService
  imports Sessions
begin

text \<open>
  \<^verbatim>\<open>SessionService\<close>: creating, finding, changing and deleting sessions. A row holds the id of its
  user; the user and his roles are read from the tables of the access control when a session is
  serialized. Tokens of new sessions are arguments, as is the order a login makes active.
\<close>

section \<open>State\<close>

record session_row =
  sr_id :: ID
  sr_token :: string
  sr_expires :: int
  sr_invalidated :: bool
  sr_updatedAt :: int
  sr_activeOrderId :: "ID option"
  sr_activeChannelId :: "ID option"
  sr_userId :: "ID option"
  sr_strategy :: "string option"
  sr_apiType :: "api_type option"

record 's session_db =
  sd_rows :: "session_row list"
  sd_cache :: 's
  sd_access :: access_db
  sd_nextId :: ID

record session_config =
  sessionDurationInMs :: int
  sessionCacheTTLSeconds :: rat

definition api_key_strategy :: string where
  "api_key_strategy = ''apikey''"

definition API_KEY_AUTH_STRATEGY_DEFAULT_DURATION_MS :: int where
  "API_KEY_AUTH_STRATEGY_DEFAULT_DURATION_MS = 100 * 31557600000"

section \<open>Serialization\<close>

definition session_user_of :: "access_db \<Rightarrow> session_row \<Rightarrow> user option" where
  "session_user_of adb r =
     (case sr_userId r of None \<Rightarrow> None | Some u \<Rightarrow> map_option (user_of adb) (List.find (\<lambda>x. ur_id x = u) (acc_users adb)))"

definition serializeSession :: "session_config \<Rightarrow> int \<Rightarrow> access_db \<Rightarrow> session_row \<Rightarrow> cached_session" where
  "serializeSession cfg now adb r =
     (let u = session_user_of adb r
      in \<lparr>cacheExpiry = of_int now / 1000 + sessionCacheTTLSeconds cfg, session_id = sr_id r, session_token = sr_token r,
          session_expires = sr_expires r, session_activeOrderId = sr_activeOrderId r,
          session_strategy = (if u = None then None else sr_strategy r),
          session_user = map_option (\<lambda>x. \<lparr>cu_id = user_id x, cu_identifier = user_identifier x, cu_verified = user_verified x,
                                           cu_channelPermissions = getUserChannelsPermissions x\<rparr>) u,
          session_activeChannelId = sr_activeChannelId r,
          session_apiType = (if u = None then None else sr_apiType r)\<rparr>)"

definition cache_session :: "'s session_cache_ops \<Rightarrow> session_config \<Rightarrow> int \<Rightarrow> session_row \<Rightarrow> 's session_db \<Rightarrow> cached_session \<times> 's session_db" where
  "cache_session ops cfg now r st =
     (let c = serializeSession cfg now (sd_access st) r in (c, st\<lparr>sd_cache := sco_set ops now c (sd_cache st)\<rparr>))"

definition replace_session :: "session_row \<Rightarrow> 's session_db \<Rightarrow> 's session_db" where
  "replace_session r st = st\<lparr>sd_rows := map (\<lambda>x. if sr_id x = sr_id r then r else x) (sd_rows st)\<rparr>"

section \<open>Creating\<close>

definition insert_session :: "session_row \<Rightarrow> 's session_db \<Rightarrow> 's session_db result" where
  "insert_session r st =
     (if sr_token r \<in> sr_token ` set (sd_rows st) then Inl (JsError ''duplicate key value'')
      else Inr (st\<lparr>sd_rows := sd_rows st @ [r], sd_nextId := Suc (sd_nextId st)\<rparr>))"

definition createNewAuthenticatedSession :: "'s session_cache_ops \<Rightarrow> session_config \<Rightarrow> int \<Rightarrow> auth_context \<Rightarrow> ID \<Rightarrow> string \<Rightarrow>
    string option \<Rightarrow> string \<Rightarrow> api_type option \<Rightarrow> ID option \<Rightarrow> 's session_db \<Rightarrow> (session_row \<times> 's session_db) result" where
  "createNewAuthenticatedSession ops cfg now ctx userId authenticationStrategyName sessionToken generated apiType activeOrder st =
     (let sessionApiType = (if ac_hasRequest ctx then ac_apiType ctx else Api_shop);
          duration = (if authenticationStrategyName = api_key_strategy then API_KEY_AUTH_STRATEGY_DEFAULT_DURATION_MS
                      else sessionDurationInMs cfg);
          r = \<lparr>sr_id = sd_nextId st, sr_token = nullish sessionToken generated, sr_expires = now + duration,
               sr_invalidated = False, sr_updatedAt = now, sr_activeOrderId = activeOrder, sr_activeChannelId = None,
               sr_userId = Some userId, sr_strategy = Some authenticationStrategyName,
               sr_apiType = Some (nullish apiType sessionApiType)\<rparr>
      in bind_result (insert_session r st) (\<lambda>st1. Inr (r, snd (cache_session ops cfg now r st1))))"

definition createAnonymousSession :: "'s session_cache_ops \<Rightarrow> session_config \<Rightarrow> int \<Rightarrow> string \<Rightarrow> 's session_db \<Rightarrow> (cached_session \<times> 's session_db) result" where
  "createAnonymousSession ops cfg now generated st =
     (let r = \<lparr>sr_id = sd_nextId st, sr_token = generated, sr_expires = now + sessionDurationInMs cfg, sr_invalidated = False,
               sr_updatedAt = now, sr_activeOrderId = None, sr_activeChannelId = None, sr_userId = None, sr_strategy = None,
               sr_apiType = None\<rparr>
      in bind_result (insert_session r st) (\<lambda>st1. Inr (cache_session ops cfg now r st1)))"

section \<open>Finding\<close>

text \<open>Past half of its life, a session that is used lives on.\<close>

definition updateSessionExpiry :: "session_config \<Rightarrow> int \<Rightarrow> session_row \<Rightarrow> 's session_db \<Rightarrow> session_row \<times> 's session_db" where
  "updateSessionExpiry cfg now r st =
     (let isApiKeySession = (session_user_of (sd_access st) r \<noteq> None \<and> sr_strategy r = Some api_key_strategy);
          ttlMs = (if isApiKeySession then API_KEY_AUTH_STRATEGY_DEFAULT_DURATION_MS else sessionDurationInMs cfg)
      in if 2 * (sr_expires r - now) < ttlMs
         then let r' = r\<lparr>sr_expires := now + ttlMs, sr_updatedAt := now\<rparr> in (r', replace_session r' st)
         else (r, st))"

definition findSessionByToken :: "session_config \<Rightarrow> int \<Rightarrow> string \<Rightarrow> 's session_db \<Rightarrow> session_row option \<times> 's session_db" where
  "findSessionByToken cfg now token st =
     (case List.find (\<lambda>r. sr_token r = token \<and> \<not> sr_invalidated r) (sd_rows st) of
        None \<Rightarrow> (None, st)
      | Some r \<Rightarrow> if now < sr_expires r then (case updateSessionExpiry cfg now r st of (r', st') \<Rightarrow> (Some r', st')) else (None, st))"

definition getSessionFromToken :: "'s session_cache_ops \<Rightarrow> session_config \<Rightarrow> bool \<Rightarrow> int \<Rightarrow> string \<Rightarrow> 's session_db \<Rightarrow>
    cached_session option \<times> 's session_db" where
  "getSessionFromToken ops cfg slow now sessionToken st =
     (let found = sco_get ops now sessionToken (sd_cache st);
          st1 = st\<lparr>sd_cache := snd found\<rparr>;
          serializedSession = (if slow then None else fst found)
      in if (case serializedSession of None \<Rightarrow> True
             | Some c \<Rightarrow> cacheExpiry c < of_int now / 1000 \<or> session_expires c < now)
         then (case findSessionByToken cfg now sessionToken st1 of
                 (None, st2) \<Rightarrow> (None, st2)
               | (Some r, st2) \<Rightarrow> (case cache_session ops cfg now r st2 of (c, st3) \<Rightarrow> (Some c, st3)))
         else (serializedSession, st1))"

section \<open>Changing\<close>

definition change_session :: "'s session_cache_ops \<Rightarrow> session_config \<Rightarrow> int \<Rightarrow> ID \<Rightarrow> (session_row \<Rightarrow> session_row) \<Rightarrow> cached_session \<Rightarrow>
    's session_db \<Rightarrow> cached_session \<times> 's session_db" where
  "change_session ops cfg now i f serializedSession st =
     (case List.find (\<lambda>r. sr_id r = i) (sd_rows st) of
        None \<Rightarrow> (serializedSession, st)
      | Some r \<Rightarrow> let r' = (if f r = r then r else (f r)\<lparr>sr_updatedAt := now\<rparr>)
                 in cache_session ops cfg now r' (replace_session r' st))"

definition setActiveOrder :: "'s session_cache_ops \<Rightarrow> session_config \<Rightarrow> int \<Rightarrow> cached_session \<Rightarrow> ID \<Rightarrow> 's session_db \<Rightarrow> cached_session \<times> 's session_db" where
  "setActiveOrder ops cfg now serializedSession orderId st =
     change_session ops cfg now (session_id serializedSession) (\<lambda>r. r\<lparr>sr_activeOrderId := Some orderId\<rparr>) serializedSession st"

definition unsetActiveOrder :: "'s session_cache_ops \<Rightarrow> session_config \<Rightarrow> int \<Rightarrow> cached_session \<Rightarrow> 's session_db \<Rightarrow> cached_session \<times> 's session_db" where
  "unsetActiveOrder ops cfg now serializedSession st =
     (if session_activeOrderId serializedSession \<noteq> None
      then change_session ops cfg now (session_id serializedSession) (\<lambda>r. r\<lparr>sr_activeOrderId := None\<rparr>) serializedSession st
      else (serializedSession, st))"

definition setActiveChannel :: "'s session_cache_ops \<Rightarrow> session_config \<Rightarrow> int \<Rightarrow> cached_session \<Rightarrow> ID \<Rightarrow> 's session_db \<Rightarrow> cached_session \<times> 's session_db" where
  "setActiveChannel ops cfg now serializedSession channelId st =
     change_session ops cfg now (session_id serializedSession) (\<lambda>r. r\<lparr>sr_activeChannelId := Some channelId\<rparr>) serializedSession st"

section \<open>Deleting\<close>

definition remove_sessions :: "'s session_cache_ops \<Rightarrow> session_row list \<Rightarrow> 's session_db \<Rightarrow> 's session_db" where
  "remove_sessions ops rs st =
     st\<lparr>sd_rows := filter (\<lambda>r. sr_id r \<notin> sr_id ` set rs) (sd_rows st),
        sd_cache := fold (\<lambda>r. sco_delete ops (sr_token r)) rs (sd_cache st)\<rparr>"

definition deleteSessionsByUser :: "'s session_cache_ops \<Rightarrow> ID \<Rightarrow> 's session_db \<Rightarrow> 's session_db" where
  "deleteSessionsByUser ops userId st = remove_sessions ops (filter (\<lambda>r. sr_userId r = Some userId) (sd_rows st)) st"

definition deleteApiKeySession :: "'s session_cache_ops \<Rightarrow> string \<Rightarrow> ID \<Rightarrow> 's session_db \<Rightarrow> 's session_db" where
  "deleteApiKeySession ops apiKeyHash userId st =
     st\<lparr>sd_rows := filter (\<lambda>r. \<not> (sr_token r = apiKeyHash \<and> sr_userId r = Some userId \<and> sr_strategy r = Some api_key_strategy)) (sd_rows st),
        sd_cache := sco_delete ops apiKeyHash (sd_cache st)\<rparr>"

definition deleteSessionsByActiveOrderId :: "'s session_cache_ops \<Rightarrow> ID \<Rightarrow> 's session_db \<Rightarrow> 's session_db" where
  "deleteSessionsByActiveOrderId ops activeOrderId st =
     remove_sessions ops (filter (\<lambda>r. sr_activeOrderId r = Some activeOrderId \<and> sr_strategy r \<noteq> Some api_key_strategy) (sd_rows st)) st"

definition week_ms :: int where
  "week_ms = 7 * 24 * 60 * 60 * 1000"

definition cleanExpiredSessions :: "'s session_cache_ops \<Rightarrow> int \<Rightarrow> nat \<Rightarrow> 's session_db \<Rightarrow> nat \<times> 's session_db" where
  "cleanExpiredSessions ops now batchSize st =
     (let rs = take batchSize (filter (\<lambda>r. sr_expires r < now \<or>
                 (sr_userId r = None \<and> sr_activeOrderId r = None \<and> sr_updatedAt r < now - week_ms)) (sd_rows st))
      in (length rs, remove_sessions ops rs st))"

text \<open>A change of a channel or a role clears the whole cache.\<close>

definition clearSessionCacheOnDataChange :: "'s session_cache_ops \<Rightarrow> bool \<Rightarrow> 's session_db \<Rightarrow> 's session_db" where
  "clearSessionCacheOnDataChange ops channelOrRole st =
     (if channelOrRole then st\<lparr>sd_cache := sco_clear ops (sd_cache st)\<rparr> else st)"

section \<open>Operations as calls\<close>

datatype session_call =
    Login int auth_context ID string "string option" string "api_type option" "ID option"
  | Visit int string
  | Lookup bool int string
  | Set_order int cached_session ID
  | Unset_order int cached_session
  | Set_channel int cached_session ID
  | Logout_user ID
  | Drop_api_key string ID
  | Drop_order ID
  | Clean int nat
  | Data_change bool access_db

text \<open>A call that throws changes nothing.\<close>

fun session_step :: "'s session_cache_ops \<Rightarrow> session_config \<Rightarrow> session_call \<Rightarrow> 's session_db \<Rightarrow> 's session_db" where
  "session_step ops cfg (Login now ctx u name tok gen api ord) st =
     (case createNewAuthenticatedSession ops cfg now ctx u name tok gen api ord st of Inl e \<Rightarrow> st | Inr (r, st') \<Rightarrow> st')"
| "session_step ops cfg (Visit now gen) st = (case createAnonymousSession ops cfg now gen st of Inl e \<Rightarrow> st | Inr (c, st') \<Rightarrow> st')"
| "session_step ops cfg (Lookup slow now tok) st = snd (getSessionFromToken ops cfg slow now tok st)"
| "session_step ops cfg (Set_order now c i) st = snd (setActiveOrder ops cfg now c i st)"
| "session_step ops cfg (Unset_order now c) st = snd (unsetActiveOrder ops cfg now c st)"
| "session_step ops cfg (Set_channel now c i) st = snd (setActiveChannel ops cfg now c i st)"
| "session_step ops cfg (Logout_user u) st = deleteSessionsByUser ops u st"
| "session_step ops cfg (Drop_api_key h u) st = deleteApiKeySession ops h u st"
| "session_step ops cfg (Drop_order i) st = deleteSessionsByActiveOrderId ops i st"
| "session_step ops cfg (Clean now n) st = snd (cleanExpiredSessions ops now n st)"
| "session_step ops cfg (Data_change b adb) st = clearSessionCacheOnDataChange ops b (st\<lparr>sd_access := adb\<rparr>)"

end
