(* ===== verification/SessionSafety.thy ===== *)
theory SessionSafety
  imports SessionService
begin

text \<open>
  What holds of sessions whatever the cache: every cached session has a row with its token, id,
  user, strategy and API, so a session that is deleted cannot be used again, and a session that is
  found belongs to its token and has not expired. The lemmas are proved for any session cache that keeps
  its contract and used for the default strategy over both cache strategies and for the in-memory one.
\<close>

definition backs :: "session_row \<Rightarrow> cached_session \<Rightarrow> bool" where
  "backs r c \<longleftrightarrow> sr_token r = session_token c \<and> sr_id r = session_id c \<and>
     (case session_user c of None \<Rightarrow> True
      | Some u \<Rightarrow> sr_userId r = Some (cu_id u) \<and> sr_strategy r = session_strategy c \<and> sr_apiType r = session_apiType c)"

definition rows_ok :: "'s session_db \<Rightarrow> bool" where
  "rows_ok st \<longleftrightarrow> distinct (map sr_id (sd_rows st)) \<and> distinct (map sr_token (sd_rows st)) \<and>
     (\<forall>r \<in> set (sd_rows st). sr_id r < sd_nextId st)"

definition same_row :: "session_row \<Rightarrow> session_row \<Rightarrow> bool" where
  "same_row r r' \<longleftrightarrow> sr_id r' = sr_id r \<and> sr_token r' = sr_token r \<and> sr_userId r' = sr_userId r \<and>
     sr_strategy r' = sr_strategy r \<and> sr_apiType r' = sr_apiType r"

lemma same_row_backs: "same_row r r' \<Longrightarrow> backs r' c = backs r c"
  by (simp add: same_row_def backs_def split: option.split)

lemma serialize_backed: "backs r (serializeSession cfg now adb r)"
  by (auto simp: backs_def serializeSession_def session_user_of_def user_of_def Let_def dest: find_Some_in split: option.split)

lemma serialize_token [simp]: "session_token (serializeSession cfg now adb r) = sr_token r"
  "session_expires (serializeSession cfg now adb r) = sr_expires r"
  "cacheExpiry (serializeSession cfg now adb r) = of_int now / 1000 + sessionCacheTTLSeconds cfg"
  by (simp_all add: serializeSession_def Let_def)

lemma replace_session_rows:
  assumes "rows_ok st" and "r \<in> set (sd_rows st)" and "same_row r r'"
  shows "rows_ok (replace_session r' st)" and "sd_cache (replace_session r' st) = sd_cache st"
    and "sd_access (replace_session r' st) = sd_access st"
    and "r' \<in> set (sd_rows (replace_session r' st))"
    and "x \<in> set (sd_rows st) \<Longrightarrow> \<exists>y \<in> set (sd_rows (replace_session r' st)). same_row x y"
proof -
  let ?g = "\<lambda>x. if sr_id x = sr_id r' then r' else x"
  have rows: "sd_rows (replace_session r' st) = map ?g (sd_rows st)" by (simp add: replace_session_def)
  have same: "same_row x (?g x)" if "x \<in> set (sd_rows st)" for x
  proof (cases "sr_id x = sr_id r'")
    case True
    then have "x = r" using assms that by (auto simp: rows_ok_def same_row_def distinct_map dest: inj_onD)
    then show ?thesis using assms(3) by (simp add: same_row_def)
  qed (simp add: same_row_def)
  have ids: "map sr_id (map ?g (sd_rows st)) = map sr_id (sd_rows st)" and toks: "map sr_token (map ?g (sd_rows st)) = map sr_token (sd_rows st)"
    using same by (auto simp: same_row_def)
  have bound: "\<forall>y \<in> set (map ?g (sd_rows st)). sr_id y < sd_nextId st" using assms(1) same by (auto simp: rows_ok_def same_row_def)
  have nextId: "sd_nextId (replace_session r' st) = sd_nextId st" by (simp add: replace_session_def)
  show "rows_ok (replace_session r' st)"
    unfolding rows_ok_def rows nextId ids toks using assms(1) [unfolded rows_ok_def] bound by blast
  show "sd_cache (replace_session r' st) = sd_cache st" "sd_access (replace_session r' st) = sd_access st"
    by (simp_all add: replace_session_def)
  show "r' \<in> set (sd_rows (replace_session r' st))" using assms(2,3) unfolding rows same_row_def by force
  show "\<exists>y \<in> set (sd_rows (replace_session r' st)). same_row x y" if "x \<in> set (sd_rows st)"
    unfolding rows set_map by (rule bexI [where x = "?g x"]) (use same [OF that] that in \<open>blast+\<close>)
qed

lemma updateSessionExpiry_cases:
  assumes "updateSessionExpiry cfg now r0 st = (r, st')" and "now < sr_expires r0"
  shows "same_row r0 r \<and> (st' = st \<and> r = r0 \<or> st' = replace_session r st) \<and> (0 \<le> sessionDurationInMs cfg \<longrightarrow> now \<le> sr_expires r)"
  using assms by (auto simp: updateSessionExpiry_def Let_def same_row_def API_KEY_AUTH_STRATEGY_DEFAULT_DURATION_MS_def split: if_splits)

context session_cache
begin

definition cache_ok :: "'s session_db \<Rightarrow> bool" where
  "cache_ok st \<longleftrightarrow> invar (sd_cache st) \<and> rows_ok st \<and>
     (\<forall>t c. entry (sd_cache st) t = Some c \<longrightarrow> session_token c = t \<and> (\<exists>r \<in> set (sd_rows st). backs r c))"

lemma cache_okD:
  "cache_ok st \<Longrightarrow> entry (sd_cache st) t = Some c \<Longrightarrow> session_token c = t \<and> (\<exists>r \<in> set (sd_rows st). backs r c)"
  by (simp add: cache_ok_def)

lemma entry_le: "m \<subseteq>\<^sub>m m' \<Longrightarrow> m k = Some v \<Longrightarrow> m' k = Some v"
  by (auto simp: map_le_def dom_def)

lemma cache_ok_less:
  assumes "cache_ok st" and "rows_ok st'" and "invar (sd_cache st')" and "entry (sd_cache st') \<subseteq>\<^sub>m entry (sd_cache st)"
    and "\<And>r. r \<in> set (sd_rows st) \<Longrightarrow> \<exists>r' \<in> set (sd_rows st'). same_row r r'"
  shows "cache_ok st'"
proof -
  have "session_token c = t \<and> (\<exists>r \<in> set (sd_rows st'). backs r c)" if "entry (sd_cache st') t = Some c" for t c
    using cache_okD [OF assms(1) entry_le [OF assms(4) that]] assms(5) same_row_backs by blast
  then show ?thesis using assms(2,3) by (simp add: cache_ok_def)
qed

lemma cache_session_ok:
  assumes "cache_ok st" and "r \<in> set (sd_rows st)"
  shows "cache_ok (snd (cache_session ops cfg now r st))"
proof -
  let ?c = "serializeSession cfg now (sd_access st) r"
  have inv: "invar (sd_cache st)" using assms(1) by (simp add: cache_ok_def)
  have "session_token c = t \<and> (\<exists>r \<in> set (sd_rows st). backs r c)" if e: "entry (sco_set ops now ?c (sd_cache st)) t = Some c" for t c
  proof (cases "t = sr_token r")
    case True
    then have "c = ?c" using entry_le [OF set_entry [OF inv] e] by simp
    then show ?thesis using assms(2) serialize_backed True by fastforce
  next
    case False
    then have "entry (sd_cache st) t = Some c" using entry_le [OF set_entry [OF inv] e] by simp
    then show ?thesis by (rule cache_okD [OF assms(1)])
  qed
  then show ?thesis using assms(1) invar_ops(2) [OF inv] by (simp add: cache_ok_def cache_session_def Let_def rows_ok_def)
qed

lemma replace_session_ok:
  assumes "cache_ok st" and "r \<in> set (sd_rows st)" and "same_row r r'"
  shows "cache_ok (replace_session r' st)"
proof -
  have rows: "rows_ok st" using assms(1) by (simp add: cache_ok_def)
  note rs = replace_session_rows [OF rows assms(2,3)]
  show ?thesis by (rule cache_ok_less [OF assms(1) rs(1)]) (use assms(1) rs(2,5) in \<open>auto simp: cache_ok_def\<close>)
qed

lemma insert_session_ok:
  assumes "cache_ok st" and "insert_session r st = Inr st'" and "sr_id r = sd_nextId st"
  shows "cache_ok st'" and "r \<in> set (sd_rows st')"
proof -
  have st': "st' = st\<lparr>sd_rows := sd_rows st @ [r], sd_nextId := Suc (sd_nextId st)\<rparr>" and new: "sr_token r \<notin> sr_token ` set (sd_rows st)"
    using assms(2) by (auto simp: insert_session_def split: if_splits)
  have "rows_ok st'" using assms(1,3) new by (auto simp: st' cache_ok_def rows_ok_def less_Suc_eq)
  then show "cache_ok st'"
    by (rule cache_ok_less [OF assms(1)]) (use assms(1) in \<open>auto simp: st' cache_ok_def same_row_def\<close>)
  show "r \<in> set (sd_rows st')" by (simp add: st')
qed

lemma find_session_ok:
  assumes "cache_ok st" and "findSessionByToken cfg now token st = (x, st')"
  shows "cache_ok st'" and "sd_access st' = sd_access st"
    and "x = Some r \<Longrightarrow> r \<in> set (sd_rows st') \<and> sr_token r = token \<and> (0 \<le> sessionDurationInMs cfg \<longrightarrow> now \<le> sr_expires r)"
    and "x = Some r \<Longrightarrow> \<exists>r0 \<in> set (sd_rows st). same_row r0 r \<and> \<not> sr_invalidated r0 \<and> now < sr_expires r0"
proof -
  let ?f = "List.find (\<lambda>r. sr_token r = token \<and> \<not> sr_invalidated r) (sd_rows st)"
  have "cache_ok st' \<and> sd_access st' = sd_access st \<and>
     (\<forall>r. x = Some r \<longrightarrow> (r \<in> set (sd_rows st') \<and> sr_token r = token \<and> (0 \<le> sessionDurationInMs cfg \<longrightarrow> now \<le> sr_expires r)) \<and>
        (\<exists>r0 \<in> set (sd_rows st). same_row r0 r \<and> \<not> sr_invalidated r0 \<and> now < sr_expires r0))"
  proof (cases "\<exists>r0. ?f = Some r0 \<and> now < sr_expires r0")
    case False
    then have "x = None \<and> st' = st" using assms(2) by (auto simp: findSessionByToken_def split: option.splits if_splits)
    then show ?thesis using assms(1) by simp
  next
    case True
    then obtain r0 where r0: "?f = Some r0" "now < sr_expires r0" by blast
    then have mem: "r0 \<in> set (sd_rows st)" "sr_token r0 = token" "\<not> sr_invalidated r0" using find_Some_in [OF r0(1)] by auto
    obtain r where x: "x = Some r" and u: "updateSessionExpiry cfg now r0 st = (r, st')"
      using assms(2) r0 by (auto simp: findSessionByToken_def split: prod.splits)
    note cases = updateSessionExpiry_cases [OF u r0(2)]
    have rows: "rows_ok st" using assms(1) by (simp add: cache_ok_def)
    have "cache_ok st' \<and> sd_access st' = sd_access st \<and> r \<in> set (sd_rows st')"
      using cases replace_session_rows(3,4) [OF rows mem(1)] replace_session_ok [OF assms(1) mem(1)] assms(1) mem(1) by auto
    moreover have "sr_token r = token" using cases mem(2) by (simp add: same_row_def)
    ultimately show ?thesis using cases mem(1,3) r0(2) x by blast
  qed
  then show "cache_ok st'" "sd_access st' = sd_access st"
    "x = Some r \<Longrightarrow> r \<in> set (sd_rows st') \<and> sr_token r = token \<and> (0 \<le> sessionDurationInMs cfg \<longrightarrow> now \<le> sr_expires r)"
    "x = Some r \<Longrightarrow> \<exists>r0 \<in> set (sd_rows st). same_row r0 r \<and> \<not> sr_invalidated r0 \<and> now < sr_expires r0"
    by blast+
qed

lemma get_ok:
  assumes "cache_ok st"
  shows "cache_ok (st\<lparr>sd_cache := snd (sco_get ops now tok (sd_cache st))\<rparr>)"
  by (rule cache_ok_less [OF assms])
    (use assms in \<open>auto simp: cache_ok_def rows_ok_def same_row_def invar_ops get_keeps\<close>)

lemma lookup_ok:
  assumes "cache_ok st"
  shows "cache_ok (snd (getSessionFromToken ops cfg slow now tok st))"
proof -
  let ?st1 = "st\<lparr>sd_cache := snd (sco_get ops now tok (sd_cache st))\<rparr>"
  obtain x st2 where f: "findSessionByToken cfg now tok ?st1 = (x, st2)" by (cases "findSessionByToken cfg now tok ?st1")
  note found = find_session_ok [OF get_ok [OF assms] f]
  have "cache_ok (snd (cache_session ops cfg now r st2))" if "x = Some r" for r
    using cache_session_ok [OF found(1)] found(3) [OF that] by blast
  then show ?thesis using found(1) get_ok [OF assms] f
    by (auto simp: getSessionFromToken_def Let_def split: option.split prod.split)
qed

lemma change_ok:
  assumes "cache_ok st" and "\<And>r. same_row r (f r)"
  shows "cache_ok (snd (change_session ops cfg now i f c st))"
proof (cases "List.find (\<lambda>r. sr_id r = i) (sd_rows st)")
  case (Some r)
  let ?r = "if f r = r then r else (f r)\<lparr>sr_updatedAt := now\<rparr>"
  have r: "r \<in> set (sd_rows st)" using find_Some_in [OF Some] by blast
  have same: "same_row r ?r" using assms(2) [of r] by (simp add: same_row_def)
  have rows: "rows_ok st" using assms(1) by (simp add: cache_ok_def)
  show ?thesis
    using cache_session_ok [OF replace_session_ok [OF assms(1) r same] replace_session_rows(4) [OF rows r same]] Some
    by (simp add: change_session_def Let_def)
qed (use assms(1) in \<open>simp add: change_session_def\<close>)

lemma deleted_entry: "invar s \<Longrightarrow> entry (sco_delete ops k s) t = Some c \<Longrightarrow> t \<noteq> k \<and> entry s t = Some c"
  using entry_le [OF delete_entry, of s k t c] by (simp split: if_splits)

lemma deletes_entry:
  "invar s \<Longrightarrow> entry (fold (\<lambda>r. sco_delete ops (sr_token r)) rs s) t = Some c \<Longrightarrow>
     t \<notin> sr_token ` set rs \<and> entry s t = Some c"
proof (induction rs arbitrary: s)
  case (Cons r rs)
  let ?s = "sco_delete ops (sr_token r) s"
  have "t \<notin> sr_token ` set rs \<and> entry ?s t = Some c" using Cons.IH [of ?s] Cons.prems invar_ops(3) by simp
  then show ?case using deleted_entry [OF Cons.prems(1), of "sr_token r" t c] by auto
qed simp

lemma invar_deletes: "invar s \<Longrightarrow> invar (fold (\<lambda>r. sco_delete ops (sr_token r)) rs s)"
  by (induction rs arbitrary: s) (auto simp: invar_ops(3))

lemma remove_ok:
  assumes "cache_ok st" and "set rs \<subseteq> set (sd_rows st)"
  shows "cache_ok (remove_sessions ops rs st)"
proof -
  have inv: "invar (sd_cache st)" and rows: "rows_ok st" using assms(1) by (auto simp: cache_ok_def)
  let ?st = "remove_sessions ops rs st"
  have "session_token c = t \<and> (\<exists>r \<in> set (sd_rows ?st). backs r c)" if e: "entry (sd_cache ?st) t = Some c" for t c
  proof -
    have t: "t \<notin> sr_token ` set rs" "entry (sd_cache st) t = Some c"
      using deletes_entry [OF inv] e by (auto simp: remove_sessions_def)
    then obtain r where r: "r \<in> set (sd_rows st)" "backs r c" "session_token c = t" using cache_okD [OF assms(1)] by blast
    have "sr_id r \<notin> sr_id ` set rs"
    proof
      assume "sr_id r \<in> sr_id ` set rs"
      then obtain x where x: "x \<in> set rs" "sr_id r = sr_id x" by blast
      then have "x = r" using assms(2) r(1) rows by (auto simp: rows_ok_def distinct_map dest: inj_onD)
      then have "t \<in> sr_token ` set rs" using x(1) r by (metis backs_def imageI)
      then show False using t(1) by blast
    qed
    then show ?thesis using r by (auto simp: remove_sessions_def)
  qed
  moreover have "rows_ok ?st" using rows by (simp add: rows_ok_def remove_sessions_def distinct_map_filter)
  ultimately show ?thesis using invar_deletes [OF inv] by (simp add: cache_ok_def remove_sessions_def)
qed

lemma drop_key_ok:
  assumes "cache_ok st"
  shows "cache_ok (deleteApiKeySession ops h u st)"
proof -
  have inv: "invar (sd_cache st)" and rows: "rows_ok st" using assms by (auto simp: cache_ok_def)
  let ?st = "deleteApiKeySession ops h u st"
  have "session_token c = t \<and> (\<exists>r \<in> set (sd_rows ?st). backs r c)" if e: "entry (sd_cache ?st) t = Some c" for t c
  proof -
    have t: "t \<noteq> h" "entry (sd_cache st) t = Some c"
      using deleted_entry [OF inv, of h t c] e by (auto simp: deleteApiKeySession_def)
    then obtain r where "r \<in> set (sd_rows st)" "backs r c" "session_token c = t" using cache_okD [OF assms] by blast
    then show ?thesis using t(1) by (auto simp: deleteApiKeySession_def backs_def)
  qed
  moreover have "rows_ok ?st" using rows by (simp add: rows_ok_def deleteApiKeySession_def distinct_map_filter)
  ultimately show ?thesis using invar_ops(3) [OF inv] by (simp add: cache_ok_def deleteApiKeySession_def)
qed

lemma create_ok:
  assumes "cache_ok st" and "insert_session r st = Inr st1" and "sr_id r = sd_nextId st"
  shows "cache_ok (snd (cache_session ops cfg now r st1))"
  by (rule cache_session_ok [OF insert_session_ok [OF assms]])

lemma login_inserts:
  assumes "createNewAuthenticatedSession ops cfg now ctx u name tok gen api ord st = Inr (x, st')"
  obtains r st1 where "insert_session r st = Inr st1" and "sr_id r = sd_nextId st" and "st' = snd (cache_session ops cfg now r st1)"
  using assms by (auto simp: createNewAuthenticatedSession_def Let_def bind_result_Inr)

lemma visit_inserts:
  assumes "createAnonymousSession ops cfg now gen st = Inr (c, st')"
  obtains r st1 where "insert_session r st = Inr st1" and "sr_id r = sd_nextId st" and "st' = snd (cache_session ops cfg now r st1)"
proof -
  obtain r st1 where "insert_session r st = Inr st1" "sr_id r = sd_nextId st" "cache_session ops cfg now r st1 = (c, st')"
    using assms by (auto simp: createAnonymousSession_def Let_def bind_result_Inr)
  then show ?thesis using that by (metis snd_conv)
qed

lemma step_ok:
  assumes "cache_ok st"
  shows "cache_ok (session_step ops cfg c st)"
proof (cases c)
  case (Login now ctx u name tok gen api ord)
  then show ?thesis using assms
    by (auto elim!: login_inserts intro!: create_ok [OF assms] split: sum.split)
next
  case (Visit now gen)
  then show ?thesis using assms
    by (auto elim!: visit_inserts intro!: create_ok [OF assms] split: sum.split)
next
  case (Data_change b adb)
  have "cache_ok (st\<lparr>sd_access := adb\<rparr>)" using assms by (simp add: cache_ok_def rows_ok_def)
  moreover from this have "cache_ok ((st\<lparr>sd_access := adb\<rparr>)\<lparr>sd_cache := sco_clear ops (sd_cache st)\<rparr>)"
    by (rule cache_ok_less) (use calculation in \<open>auto simp: cache_ok_def rows_ok_def same_row_def clear_entry invar_ops\<close>)
  ultimately show ?thesis using Data_change by (simp add: clearSessionCacheOnDataChange_def)
next
  case (Clean now n)
  have "set (take n (filter P (sd_rows st))) \<subseteq> set (sd_rows st)" for P by (meson filter_is_subset set_take_subset subset_trans)
  then show ?thesis using Clean remove_ok [OF assms] by (simp add: cleanExpiredSessions_def Let_def)
qed (use assms in \<open>auto simp: lookup_ok drop_key_ok setActiveOrder_def unsetActiveOrder_def setActiveChannel_def
      deleteSessionsByUser_def deleteSessionsByActiveOrderId_def same_row_def intro!: change_ok remove_ok\<close>)

lemma run_ok: "cache_ok st \<Longrightarrow> cache_ok (fold (session_step ops cfg) cs st)"
  by (induction cs arbitrary: st) (auto intro: step_ok)

text \<open>What a lookup returns.\<close>

lemma lookup_valid:
  assumes "cache_ok st" and "0 \<le> sessionDurationInMs cfg" and "0 \<le> sessionCacheTTLSeconds cfg"
    and "fst (getSessionFromToken ops cfg slow now tok st) = Some c"
  shows "session_token c = tok \<and> now \<le> session_expires c \<and> of_int now / 1000 \<le> cacheExpiry c \<and>
    (\<exists>r \<in> set (sd_rows st). backs r c)"
proof -
  let ?g = "sco_get ops now tok (sd_cache st)" and ?st1 = "st\<lparr>sd_cache := snd (sco_get ops now tok (sd_cache st))\<rparr>"
  let ?s = "if slow then None else fst ?g"
  have inv: "invar (sd_cache st)" using assms(1) by (simp add: cache_ok_def)
  show ?thesis
  proof (cases "case ?s of None \<Rightarrow> True | Some c \<Rightarrow> cacheExpiry c < of_int now / 1000 \<or> session_expires c < now")
    case True
    then obtain r st2 where f: "findSessionByToken cfg now tok ?st1 = (Some r, st2)"
      and c: "c = fst (cache_session ops cfg now r st2)"
      using assms(4) by (auto simp: getSessionFromToken_def Let_def split: option.splits prod.splits)
    note found = find_session_ok [OF get_ok [OF assms(1)] f]
    obtain r0 where r0: "r0 \<in> set (sd_rows st)" "same_row r0 r" using found(4) [OF refl] by auto
    have "backs r c" unfolding c by (simp add: cache_session_def Let_def serialize_backed)
    then have "backs r0 c" using same_row_backs [OF r0(2)] by simp
    moreover have "sr_token r = tok \<and> now \<le> sr_expires r" using found(3) [OF refl] assms(2) by blast
    ultimately show ?thesis using r0(1) assms(3) by (auto simp: c cache_session_def Let_def)
  next
    case False
    then have g: "fst ?g = Some c" and fresh: "\<not> cacheExpiry c < of_int now / 1000" "\<not> session_expires c < now"
      using assms(4) by (auto simp: getSessionFromToken_def Let_def split: option.splits if_splits)
    have "entry (sd_cache st) tok = Some c" by (rule get_entry [OF inv g])
    then show ?thesis using cache_okD [OF assms(1)] fresh by auto
  qed
qed

lemma logged_out:
  assumes "cache_ok st" and "0 \<le> sessionDurationInMs cfg" and "0 \<le> sessionCacheTTLSeconds cfg"
    and "fst (getSessionFromToken ops cfg slow now tok (deleteSessionsByUser ops userId st)) = Some c"
  shows "\<forall>u. session_user c = Some u \<longrightarrow> cu_id u \<noteq> userId"
proof -
  let ?st = "deleteSessionsByUser ops userId st"
  have "cache_ok ?st" using step_ok [OF assms(1), of cfg "Logout_user userId"] by simp
  then obtain r where r: "r \<in> set (sd_rows ?st)" "backs r c" using lookup_valid [OF _ assms(2-4)] by blast
  have "sr_userId r \<noteq> Some userId"
  proof
    assume "sr_userId r = Some userId"
    moreover have "r \<in> set (sd_rows st)" using r(1) by (auto simp: deleteSessionsByUser_def remove_sessions_def)
    ultimately show False using r(1) by (auto simp: deleteSessionsByUser_def remove_sessions_def)
  qed
  then show ?thesis using r(2) by (auto simp: backs_def)
qed

end

end
