(* ===== verification/ApiKeys.thy ===== *)
theory ApiKeys
  imports SessionSafety AccessSafety
begin

text \<open>
  API keys: the format of a key in \<^verbatim>\<open>BaseApiKeyStrategy\<close> and \<^verbatim>\<open>ApiKeyService\<close>. A key
  belongs to a user made for it, or to one that is impersonated; its hash is the token of a session of
  that user. Random texts are arguments, as is the password hashing of a strategy, which the code takes
  from a library: \<open>hashing\<close> makes a hash from a salt and a key, \<open>checks\<close> compares.
\<close>

section \<open>The format of a key\<close>

record api_key_strategy =
  aks_delimiter :: string
  aks_lastUsedAtUpdateInterval :: int
  aks_hash :: "string \<Rightarrow> string \<Rightarrow> string"
  aks_check :: "string \<Rightarrow> string \<Rightarrow> bool"

definition constructApiKey :: "api_key_strategy \<Rightarrow> string \<Rightarrow> string \<Rightarrow> string" where
  "constructApiKey s lookupId secret = lookupId @ aks_delimiter s @ secret"

text \<open>The first two pieces of \<^verbatim>\<open>split(delimiter, 2)\<close>.\<close>

fun cut :: "string \<Rightarrow> string \<Rightarrow> string \<times> string option" where
  "cut d [] = ([], None)"
| "cut d (c # cs) =
     (if take (length d) (c # cs) = d then ([], Some (drop (length d) (c # cs)))
      else case cut d cs of (piece, rest) \<Rightarrow> (c # piece, rest))"

definition split_two :: "string \<Rightarrow> string \<Rightarrow> string list" where
  "split_two d s =
     (if d = [] then map (\<lambda>c. [c]) (take 2 s)
      else case cut d s of (piece, None) \<Rightarrow> [piece] | (piece, Some rest) \<Rightarrow> [piece, fst (cut d rest)])"

definition parse_api_key :: "api_key_strategy \<Rightarrow> string \<Rightarrow> (string \<times> string) option" where
  "parse_api_key s token =
     (if token = [] then None
      else case split_two (aks_delimiter s) token of
             [lookupId, apiKey] \<Rightarrow> if lookupId = [] \<or> apiKey = [] then None else Some (lookupId, apiKey)
           | _ \<Rightarrow> None)"

lemma cut_none: "d \<notin> set xs \<Longrightarrow> cut [d] xs = (xs, None)"
  by (induction xs) auto

lemma cut_first: "d \<notin> set xs \<Longrightarrow> cut [d] (xs @ d # ys) = (xs, Some ys)"
  by (induction xs) auto

lemma parse_constructed:
  assumes "aks_delimiter s = [d]" and "d \<notin> set lookupId" and "d \<notin> set secret" and "lookupId \<noteq> []" and "secret \<noteq> []"
  shows "parse_api_key s (constructApiKey s lookupId secret) = Some (lookupId, secret)"
  using assms by (simp add: parse_api_key_def split_two_def constructApiKey_def cut_first cut_none)

section \<open>State\<close>

record api_key =
  ak_id :: ID
  ak_lookupId :: string
  ak_apiKeyHash :: string
  ak_lastUsedAt :: "int option"
  ak_apiType :: "api_type option"
  ak_deleted :: bool
  ak_ownerId :: ID
  ak_userId :: ID
  ak_channels :: "ID list"

record 's key_db =
  kd_sessions :: "'s session_db"
  kd_keys :: "api_key list"
  kd_authMethods :: "ID list"
  kd_nextId :: ID

record key_config =
  kc_sessions :: session_config
  kc_admin :: api_key_strategy
  kc_shop :: api_key_strategy
  kc_defaultChannel :: ID

abbreviation access_of :: "'s key_db \<Rightarrow> access_db" where
  "access_of kd \<equiv> sd_access (kd_sessions kd)"

definition with_access :: "(access_db \<Rightarrow> access_db) \<Rightarrow> 's key_db \<Rightarrow> 's key_db" where
  "with_access f kd = kd\<lparr>kd_sessions := (kd_sessions kd)\<lparr>sd_access := f (access_of kd)\<rparr>\<rparr>"

definition getApiKeyStrategyByApiType :: "key_config \<Rightarrow> api_type \<Rightarrow> api_key_strategy" where
  "getApiKeyStrategyByApiType cfg apiType = (if apiType = Api_admin then kc_admin cfg else kc_shop cfg)"

definition getApiTypeForNewApiKey :: "auth_context \<Rightarrow> api_type" where
  "getApiTypeForNewApiKey ctx = (if ac_hasRequest ctx \<and> ac_apiType ctx = Api_admin then Api_admin else Api_shop)"

section \<open>Checks\<close>

definition assertActiveUserHasPermissionsOfRoles :: "auth_context \<Rightarrow> access_db \<Rightarrow> ID list \<Rightarrow> role list result" where
  "assertActiveUserHasPermissionsOfRoles ctx db roleIds =
     bind_result (activeUserHasPermissionsOfRoles (active_channels ctx db) db roleIds) (\<lambda>ok.
       if \<not> ok then Inl insufficient
       else if roleIds = [] then Inr []
       else Inr (filter (\<lambda>r. role_id r \<in> set roleIds) (acc_roles db)))"

text \<open>The ids of the roles of a key's user; a key always has a row for its user.\<close>

definition roleIds_of_user :: "access_db \<Rightarrow> ID \<Rightarrow> ID list" where
  "roleIds_of_user db userId =
     (case List.find (\<lambda>u. ur_id u = userId) (acc_users db) of None \<Rightarrow> [] | Some u \<Rightarrow> map role_id (roles_of db u))"

definition find_key :: "auth_context \<Rightarrow> ID \<Rightarrow> 's key_db \<Rightarrow> api_key option" where
  "find_key ctx i kd =
     List.find (\<lambda>k. ak_id k = i \<and> \<not> ak_deleted k \<and> channel_id (ac_channel ctx) \<in> set (ak_channels k)) (kd_keys kd)"

definition getManageableApiKeyOrThrow :: "auth_context \<Rightarrow> ID \<Rightarrow> 's key_db \<Rightarrow> api_key result" where
  "getManageableApiKeyOrThrow ctx i kd =
     (case find_key ctx i kd of
        None \<Rightarrow> Inl (EntityNotFoundError ''ApiKey'' i)
      | Some k \<Rightarrow>
          bind_result (activeUserHasPermissionsOfRoles (active_channels ctx (access_of kd)) (access_of kd)
                         (roleIds_of_user (access_of kd) (ak_userId k))) (\<lambda>canManage.
            if canManage then Inr k else Inl (EntityNotFoundError ''ApiKey'' i)))"

section \<open>Operations\<close>

definition generateApiKeyUserIdentifier :: "string \<Rightarrow> string" where
  "generateApiKeyUserIdentifier lookupId = ''apikey-user-'' @ lookupId"

definition createApiKeyUser :: "role list \<Rightarrow> string \<Rightarrow> access_db \<Rightarrow> ID \<times> access_db" where
  "createApiKeyUser roles ident db =
     (acc_nextId db,
      db\<lparr>acc_users := acc_users db @ [\<lparr>ur_id = acc_nextId db, ur_identifier = ident, ur_verified = False, ur_deleted = False,
                                       ur_roleIds = map role_id roles\<rparr>],
         acc_nextId := Suc (acc_nextId db)\<rparr>)"

definition assignToCurrentChannel :: "key_config \<Rightarrow> auth_context \<Rightarrow> ID list" where
  "assignToCurrentChannel cfg ctx = unique [channel_id (ac_channel ctx), kc_defaultChannel cfg]"

definition insert_key :: "api_key \<Rightarrow> 's key_db \<Rightarrow> 's key_db result" where
  "insert_key k kd =
     (if \<exists>x \<in> set (kd_keys kd). ak_lookupId x = ak_lookupId k \<or> ak_apiKeyHash x = ak_apiKeyHash k
      then Inl (JsError ''duplicate key value'')
      else Inr (kd\<lparr>kd_keys := kd_keys kd @ [k], kd_nextId := Suc (kd_nextId kd)\<rparr>))"

text \<open>The session of a key: its token is the hash.\<close>

definition key_session :: "'s session_cache_ops \<Rightarrow> key_config \<Rightarrow> int \<Rightarrow> auth_context \<Rightarrow> ID \<Rightarrow> string \<Rightarrow> api_type \<Rightarrow> 's key_db \<Rightarrow> 's key_db result" where
  "key_session ops cfg now ctx userId hash apiType kd =
     bind_result (createNewAuthenticatedSession ops (kc_sessions cfg) now ctx userId api_key_strategy (Some hash) '''' (Some apiType) None
                    (kd_sessions kd)) (\<lambda>(r, sessions). Inr (kd\<lparr>kd_sessions := sessions\<rparr>))"

text \<open>
  The user of a new key: one made for the roles, or the one named, whose roles are checked like those.
\<close>

definition api_key_user :: "auth_context \<Rightarrow> role list \<Rightarrow> string \<Rightarrow> ID option \<Rightarrow> access_db \<Rightarrow> (ID \<times> access_db) result" where
  "api_key_user ctx roles lookupId userIdApiKeyUser db =
     (case userIdApiKeyUser of
        None \<Rightarrow> Inr (createApiKeyUser roles (generateApiKeyUserIdentifier lookupId) db)
      | Some i \<Rightarrow>
          bind_result (find_user db i) (\<lambda>u.
          bind_result (assertActiveUserHasPermissionsOfRoles ctx db (map role_id (user_roles u))) (\<lambda>_. Inr (i, db))))"

definition api_key_create :: "'s session_cache_ops \<Rightarrow> key_config \<Rightarrow> int \<Rightarrow> auth_context \<Rightarrow> ID list \<Rightarrow> ID \<Rightarrow> ID option \<Rightarrow>
    string \<Rightarrow> string \<Rightarrow> string \<Rightarrow> 's key_db \<Rightarrow> (string \<times> api_key \<times> 's key_db) result" where
  "api_key_create ops cfg now ctx roleIds userIdOwner userIdApiKeyUser lookupId secret salt kd =
     bind_result (assertActiveUserHasPermissionsOfRoles ctx (access_of kd) roleIds) (\<lambda>roles.
     bind_result (find_user (access_of kd) userIdOwner) (\<lambda>owner.
     let apiType = getApiTypeForNewApiKey ctx; strategy = getApiKeyStrategyByApiType cfg apiType in
     bind_result (api_key_user ctx roles lookupId userIdApiKeyUser (access_of kd)) (\<lambda>(userId, db1).
     let apiKey = constructApiKey strategy lookupId secret;
         hash = aks_hash strategy salt apiKey;
         k = \<lparr>ak_id = kd_nextId kd, ak_lookupId = lookupId, ak_apiKeyHash = hash, ak_lastUsedAt = None, ak_apiType = Some apiType,
              ak_deleted = False, ak_ownerId = userIdOwner, ak_userId = userId, ak_channels = assignToCurrentChannel cfg ctx\<rparr> in
     bind_result (insert_key k (with_access (\<lambda>_. db1) kd)) (\<lambda>kd1.
     bind_result (key_session ops cfg now ctx userId hash apiType kd1) (\<lambda>kd2. Inr (apiKey, k, kd2))))))"

definition api_key_update :: "auth_context \<Rightarrow> ID \<Rightarrow> ID list option \<Rightarrow> 's key_db \<Rightarrow> 's key_db result" where
  "api_key_update ctx i roleIds kd =
     bind_result (getManageableApiKeyOrThrow ctx i kd) (\<lambda>k.
       case roleIds of
         None \<Rightarrow> Inr kd
       | Some is \<Rightarrow>
           bind_result (assertActiveUserHasPermissionsOfRoles ctx (access_of kd) is) (\<lambda>roles.
             Inr (with_access (set_roles (ak_userId k) (\<lambda>_. map role_id roles)) kd)))"

definition replace_key :: "api_key \<Rightarrow> 's key_db \<Rightarrow> 's key_db" where
  "replace_key k kd = kd\<lparr>kd_keys := map (\<lambda>x. if ak_id x = ak_id k then k else x) (kd_keys kd)\<rparr>"

definition user_softDelete :: "'s session_cache_ops \<Rightarrow> ID \<Rightarrow> 's key_db \<Rightarrow> 's key_db result" where
  "user_softDelete ops userId kd =
     (let kd1 = kd\<lparr>kd_sessions := deleteSessionsByUser ops userId (kd_sessions kd)\<rparr>
      in bind_result (find_user (access_of kd1) userId) (\<lambda>_.
           Inr (with_access (\<lambda>db. db\<lparr>acc_users := map (\<lambda>u. if ur_id u = userId then u\<lparr>ur_deleted := True\<rparr> else u) (acc_users db)\<rparr>) kd1)))"

definition api_key_softDelete :: "'s session_cache_ops \<Rightarrow> auth_context \<Rightarrow> ID \<Rightarrow> 's key_db \<Rightarrow> 's key_db result" where
  "api_key_softDelete ops ctx i kd =
     bind_result (getManageableApiKeyOrThrow ctx i kd) (\<lambda>k.
     bind_result (if ak_userId k \<in> set (kd_authMethods kd)
                  then Inr (kd\<lparr>kd_sessions := deleteApiKeySession ops (ak_apiKeyHash k) (ak_userId k) (kd_sessions kd)\<rparr>)
                  else user_softDelete ops (ak_userId k) kd) (\<lambda>kd1.
       Inr (replace_key (k\<lparr>ak_deleted := True\<rparr>) kd1)))"

definition api_key_rotate :: "'s session_cache_ops \<Rightarrow> key_config \<Rightarrow> int \<Rightarrow> auth_context \<Rightarrow> ID \<Rightarrow> string \<Rightarrow> string \<Rightarrow> 's key_db \<Rightarrow>
    (string \<times> api_key \<times> 's key_db) result" where
  "api_key_rotate ops cfg now ctx i secret salt kd =
     bind_result (getManageableApiKeyOrThrow ctx i kd) (\<lambda>k.
     let apiType = nullish (ak_apiType k) Api_admin; strategy = getApiKeyStrategyByApiType cfg apiType;
         apiKey = constructApiKey strategy (ak_lookupId k) secret;
         hash = aks_hash strategy salt apiKey;
         kd1 = kd\<lparr>kd_sessions := deleteApiKeySession ops (ak_apiKeyHash k) (ak_userId k) (kd_sessions kd)\<rparr> in
     bind_result (key_session ops cfg now ctx (ak_userId k) hash apiType kd1) (\<lambda>kd2.
       if \<exists>x \<in> set (kd_keys kd). ak_id x \<noteq> ak_id k \<and> ak_apiKeyHash x = hash then Inl (JsError ''duplicate key value'')
       else let k' = k\<lparr>ak_apiType := Some apiType, ak_apiKeyHash := hash\<rparr> in Inr (apiKey, k', replace_key k' kd2)))"

section \<open>Reading\<close>

definition api_key_findOne :: "auth_context \<Rightarrow> ID \<Rightarrow> 's key_db \<Rightarrow> api_key option result" where
  "api_key_findOne ctx i kd =
     (case find_key ctx i kd of
        None \<Rightarrow> Inr None
      | Some k \<Rightarrow>
          bind_result (activeUserHasPermissionsOfRoles (active_channels ctx (access_of kd)) (access_of kd)
                         (roleIds_of_user (access_of kd) (ak_userId k))) (\<lambda>visible. Inr (if visible then Some k else None)))"

definition restrictToVisibleApiKeys :: "auth_context \<Rightarrow> role list \<Rightarrow> 's key_db \<Rightarrow> api_key list \<Rightarrow> api_key list result" where
  "restrictToVisibleApiKeys ctx cachedRoles kd keys =
     (if userHasPermissions [''SuperAdmin''] (channel_id (ac_channel ctx)) ctx then Inr keys
      else bind_result (getVisibleRoleIds ctx (active_channels ctx (access_of kd)) cachedRoles (access_of kd)) (\<lambda>visibleRoleIds.
        Inr (filter (\<lambda>k. \<forall>i \<in> set (roleIds_of_user (access_of kd) (ak_userId k)). i \<in> set visibleRoleIds) keys)))"

definition api_key_findAll :: "auth_context \<Rightarrow> role list \<Rightarrow> 's key_db \<Rightarrow> api_key list result" where
  "api_key_findAll ctx cachedRoles kd =
     restrictToVisibleApiKeys ctx cachedRoles kd
       (filter (\<lambda>k. \<not> ak_deleted k \<and> channel_id (ac_channel ctx) \<in> set (ak_channels k)) (kd_keys kd))"

definition findOneByLookupId :: "auth_context \<Rightarrow> string \<Rightarrow> 's key_db \<Rightarrow> api_key option" where
  "findOneByLookupId ctx lookupId kd =
     List.find (\<lambda>k. ak_lookupId k = lookupId \<and> \<not> ak_deleted k \<and> channel_id (ac_channel ctx) \<in> set (ak_channels k)) (kd_keys kd)"

definition updateLastUsedAtByLookupId :: "int \<Rightarrow> string \<Rightarrow> 's key_db \<Rightarrow> 's key_db" where
  "updateLastUsedAtByLookupId now lookupId kd =
     kd\<lparr>kd_keys := map (\<lambda>k. if ak_lookupId k = lookupId then k\<lparr>ak_lastUsedAt := Some now\<rparr> else k) (kd_keys kd)\<rparr>"

section \<open>Properties\<close>

lemma assert_roles_within:
  assumes ok: "access_ok db" and "assertActiveUserHasPermissionsOfRoles ctx db roleIds = Inr roles"
  shows "roles = filter (\<lambda>r. role_id r \<in> set roleIds) (acc_roles db)" and "grants roles i p \<Longrightarrow> held_by_active ctx db i p"
proof -
  show roles: "roles = filter (\<lambda>r. role_id r \<in> set roleIds) (acc_roles db)"
    using assms(2) by (auto simp: assertActiveUserHasPermissionsOfRoles_def bind_result_Inr split: if_splits)
  assume g: "grants roles i p"
  then have "roleIds \<noteq> []" using roles by (auto simp: grants_def)
  then have "activeUserHasPermissionsOnChannelsOf (active_channels ctx db) roles = Inr True"
    using assms(2) roles by (auto simp: assertActiveUserHasPermissionsOfRoles_def activeUserHasPermissionsOfRoles_def bind_result_Inr split: if_splits)
  then show "held_by_active ctx db i p"
    using checked_roles_within [OF ok _ access_ok_consistent [OF ok] g] roles unfolding held_by_active_def by (metis filter_is_subset)
qed

lemma managed_within:
  assumes ok: "access_ok (access_of kd)" and m: "getManageableApiKeyOrThrow ctx i kd = Inr k"
    and g: "user_grants (access_of kd) (ak_userId k) j p"
  shows "held_by_active ctx (access_of kd) j p"
proof -
  let ?db = "access_of kd"
  obtain u where u: "u \<in> set (acc_users ?db)" "ur_id u = ak_userId k" "grants (roles_of ?db u) j p"
    using g by (auto simp: user_grants_def)
  have "List.find (\<lambda>x. ur_id x = ak_userId k) (acc_users ?db) = Some u"
    using u ok find_distinct_key [of ur_id "acc_users ?db" u] by (simp add: access_ok_def)
  then have ids: "roleIds_of_user ?db (ak_userId k) = map role_id (roles_of ?db u)" by (simp add: roleIds_of_user_def)
  have "roles_of ?db u \<noteq> []" using u(3) by (auto simp: grants_def)
  then have c: "activeUserHasPermissionsOnChannelsOf (active_channels ctx ?db)
      (filter (\<lambda>r. role_id r \<in> set (map role_id (roles_of ?db u))) (acc_roles ?db)) = Inr True"
    using m ids by (auto simp: getManageableApiKeyOrThrow_def activeUserHasPermissionsOfRoles_def bind_result_Inr split: option.splits if_splits)
  have "grants (filter (\<lambda>r. role_id r \<in> set (map role_id (roles_of ?db u))) (acc_roles ?db)) j p"
    using u(3) by (auto simp: grants_def roles_of_def)
  then show ?thesis
    using checked_roles_within [OF ok c access_ok_consistent [OF ok]] unfolding held_by_active_def by (metis filter_is_subset)
qed

lemma key_session_access:
  assumes "key_session ops cfg now ctx userId hash apiType kd = Inr kd'"
  shows "access_of kd' = access_of kd" and "kd_keys kd' = kd_keys kd"
  using assms by (auto simp: key_session_def createNewAuthenticatedSession_def cache_session_def insert_session_def Let_def
      bind_result_Inr split: prod.splits if_splits)

lemma insert_key_access: "insert_key k kd = Inr kd' \<Longrightarrow> access_of kd' = access_of kd \<and> k \<in> set (kd_keys kd')"
  by (auto simp: insert_key_def split: if_splits)

lemma with_access_access: "access_of (with_access f kd) = f (access_of kd)"
  by (simp add: with_access_def)

lemma create_result:
  assumes "api_key_create ops cfg now ctx roleIds owner imp lookupId secret salt kd = Inr (key, k, kd')"
  obtains roles where "assertActiveUserHasPermissionsOfRoles ctx (access_of kd) roleIds = Inr roles"
    and "api_key_user ctx roles lookupId imp (access_of kd) = Inr (ak_userId k, access_of kd')"
proof -
  let ?strategy = "getApiKeyStrategyByApiType cfg (getApiTypeForNewApiKey ctx)"
  obtain roles u db1 kd1 where r: "assertActiveUserHasPermissionsOfRoles ctx (access_of kd) roleIds = Inr roles"
    and a: "api_key_user ctx roles lookupId imp (access_of kd) = Inr (u, db1)"
    and k: "ak_userId k = u" and i: "insert_key k (with_access (\<lambda>_. db1) kd) = Inr kd1"
    and s: "key_session ops cfg now ctx u (ak_apiKeyHash k) (getApiTypeForNewApiKey ctx) kd1 = Inr kd'"
    using assms unfolding api_key_create_def Let_def by (auto simp: bind_result_Inr split: prod.splits)
  have "access_of kd' = db1"
    using key_session_access(1) [OF s] insert_key_access [OF i] with_access_access [of "\<lambda>_. db1" kd] by simp
  then show ?thesis using that r a k by blast
qed

lemma new_key_user:
  assumes ok: "access_ok db" and "assertActiveUserHasPermissionsOfRoles ctx db roleIds = Inr roles"
    and db': "createApiKeyUser roles ident db = (x, db')"
  shows "bounded ctx db db'" and "user_grants db' x i p \<Longrightarrow> held_by_active ctx db i p"
proof -
  note roles = assert_roles_within [OF ok assms(2)]
  let ?u = "\<lparr>ur_id = acc_nextId db, ur_identifier = ident, ur_verified = False, ur_deleted = False, ur_roleIds = map role_id roles\<rparr>"
  have x: "x = acc_nextId db" and db: "db' = db\<lparr>acc_users := acc_users db @ [?u], acc_nextId := Suc (acc_nextId db)\<rparr>"
    using db' by (auto simp: createApiKeyUser_def)
  have fresh: "\<forall>u \<in> set (acc_users db). ur_id u \<noteq> acc_nextId db" using ok by (auto simp: access_ok_def)
  have "access_ok db'" using ok roles(1) unfolding db by (fastforce simp: access_ok_def)
  moreover have new: "grants roles i p" if "grants (roles_of db' ?u) i p" for i p
  proof (rule grants_mono [OF that])
    show "set (roles_of db' ?u) \<subseteq> set roles"
      using ok roles(1) by (auto simp: roles_of_def db access_ok_def distinct_map dest: inj_onD)
  qed
  moreover have "user_grants db y i p \<or> held_by_active ctx db i p" if "user_grants db' y i p" for y i p
    using that new [of i p] roles(2) [of i p] by (auto simp: user_grants_def db roles_of_def)
  ultimately show "bounded ctx db db'" by (simp add: bounded_def db)
  show "held_by_active ctx db i p" if "user_grants db' x i p"
    using that new [of i p] roles(2) [of i p] fresh x by (auto simp: user_grants_def db)
qed

lemma api_key_user_within:
  assumes ok: "access_ok db" and r: "assertActiveUserHasPermissionsOfRoles ctx db roleIds = Inr roles"
    and u: "api_key_user ctx roles lookupId imp db = Inr (x, db')"
  shows "bounded ctx db db'" and "user_grants db' x i p \<Longrightarrow> held_by_active ctx db i p"
proof -
  have "bounded ctx db db' \<and> (user_grants db' x i p \<longrightarrow> held_by_active ctx db i p)"
  proof (cases imp)
    case None
    then show ?thesis using new_key_user [OF ok r] u by (simp add: api_key_user_def)
  next
    case (Some y)
    then obtain usr rs where f: "find_user db y = Inr usr" and xy: "x = y" "db' = db"
      and a: "assertActiveUserHasPermissionsOfRoles ctx db (map role_id (user_roles usr)) = Inr rs"
      using u by (auto simp: api_key_user_def bind_result_Inr)
    obtain row where row: "List.find (\<lambda>v. ur_id v = y) (acc_users db) = Some row" "usr = user_of db row"
      using f by (auto simp: find_user_def split: option.splits if_splits)
    have "held_by_active ctx db i p" if g: "user_grants db y i p"
    proof -
      obtain v where v: "v \<in> set (acc_users db)" "ur_id v = y" "grants (roles_of db v) i p" using g by (auto simp: user_grants_def)
      have "v = row" using find_Some_in [OF row(1)] v ok by (auto simp: access_ok_def distinct_map dest: inj_onD)
      then have "grants rs i p"
        using v(3) assert_roles_within(1) [OF ok a] row(2) by (auto simp: grants_def user_of_def roles_of_def)
      then show ?thesis by (rule assert_roles_within(2) [OF ok a])
    qed
    then show ?thesis using xy bounded_refl [OF ok] by simp
  qed
  then show "bounded ctx db db'" "user_grants db' x i p \<Longrightarrow> held_by_active ctx db i p" by blast+
qed

lemma rotate_result:
  assumes "api_key_rotate ops cfg now ctx j secret salt kd = Inr (key, k, kd')"
  obtains k0 where "getManageableApiKeyOrThrow ctx j kd = Inr k0" and "ak_userId k = ak_userId k0" and "access_of kd' = access_of kd"
proof -
  obtain k0 kd2 hash where m: "getManageableApiKeyOrThrow ctx j kd = Inr k0" "ak_userId k = ak_userId k0" "kd' = replace_key k kd2"
    and s: "key_session ops cfg now ctx (ak_userId k0) hash (nullish (ak_apiType k0) Api_admin)
              (kd\<lparr>kd_sessions := deleteApiKeySession ops (ak_apiKeyHash k0) (ak_userId k0) (kd_sessions kd)\<rparr>) = Inr kd2"
    using assms unfolding api_key_rotate_def Let_def by (auto simp: bind_result_Inr split: if_splits)
  have "access_of kd' = access_of kd"
    using key_session_access(1) [OF s] m(3) by (simp add: replace_key_def deleteApiKeySession_def)
  then show ?thesis using that m by blast
qed

end
