(* ===== verification/AuthGuard.thy ===== *)
theory AuthGuard
  imports ApiKeys
begin

text \<open>
  The guard in front of both APIs, \<^verbatim>\<open>AuthGuard\<close>: it takes a session token from the request,
  finds or creates the session, decides whether the session may be used on this API, makes the context of
  the request and asks the access control. The assignment of a customer to the active channel is left
  out. What the guard reads of a request and writes to it or to the response is the record \<open>http\<close>.
\<close>

section \<open>Requests\<close>

record http =
  hasSession :: bool
  cookieToken :: string
  cookieMaxAge :: "int option"
  authorization :: "string option"
  apiKeyHeader :: "string option"
  headersSent :: bool
  responseToken :: "string option"

datatype token_method = Cookie | Bearer | Api_key_header

datatype token_methods = One token_method | Several "token_method list"

record guard_config =
  gc_keys :: key_config
  disableAuth :: bool
  tokenMethod :: token_methods
  hasApiKeyHeaderKey :: bool

record resolve_info =
  ri_parentType :: string
  ri_queryFields :: "string list option"

definition getApiType :: "resolve_info option \<Rightarrow> api_type" where
  "getApiType info =
     (case info of None \<Rightarrow> Api_custom
      | Some i \<Rightarrow> (case ri_queryFields i of None \<Rightarrow> Api_custom
          | Some names \<Rightarrow> if ''administrators'' \<in> set names then Api_admin else Api_shop))"

definition isFieldResolver :: "resolve_info option \<Rightarrow> bool" where
  "isFieldResolver info =
     (case info of None \<Rightarrow> False | Some i \<Rightarrow> ri_parentType i \<notin> {''Query'', ''Mutation'', ''Subscription''})"

section \<open>The session token\<close>

definition tokenMethodIncludes :: "token_methods \<Rightarrow> token_method \<Rightarrow> bool" where
  "tokenMethodIncludes ms m = (case ms of One x \<Rightarrow> x = m | Several xs \<Rightarrow> m \<in> set xs)"

text \<open>The pattern \<^verbatim>\<open>/^bearer\s(.+)$/i\<close>.\<close>

definition bearer_token :: "string \<Rightarrow> string option" where
  "bearer_token header =
     (case drop 6 header of
        [] \<Rightarrow> None
      | c # token \<Rightarrow>
          if toLowerCase (take 6 header) = ''bearer'' \<and> white c \<and> token \<noteq> [] \<and> CHR 10 \<notin> set token \<and> CHR 13 \<notin> set token
          then Some token else None)"

definition trimmed_header :: "string option \<Rightarrow> string option" where
  "trimmed_header h = (case h of None \<Rightarrow> None | Some x \<Rightarrow> if trim x = [] then None else Some (trim x))"

definition extractSessionToken :: "guard_config \<Rightarrow> http \<Rightarrow> (token_method \<times> string) option" where
  "extractSessionToken cfg rq =
     (if hasSession rq \<and> cookieToken rq \<noteq> [] \<and> tokenMethodIncludes (tokenMethod cfg) Cookie then Some (Cookie, cookieToken rq)
      else case (if tokenMethodIncludes (tokenMethod cfg) Bearer
                 then (case trimmed_header (authorization rq) of None \<Rightarrow> None | Some h \<Rightarrow> bearer_token h) else None) of
        Some token \<Rightarrow> Some (Bearer, token)
      | None \<Rightarrow>
          if \<not> hasApiKeyHeaderKey cfg then None
          else case trimmed_header (apiKeyHeader rq) of
                 None \<Rightarrow> None
               | Some key \<Rightarrow> if tokenMethodIncludes (tokenMethod cfg) Api_key_header then Some (Api_key_header, key) else None)"

definition setSessionToken :: "guard_config \<Rightarrow> string \<Rightarrow> bool \<Rightarrow> http \<Rightarrow> http" where
  "setSessionToken cfg token rememberMe rq =
     (let rq1 = (if tokenMethodIncludes (tokenMethod cfg) Cookie \<and> hasSession rq
                 then rq\<lparr>cookieMaxAge := (if rememberMe then Some year_ms else cookieMaxAge rq), cookieToken := token\<rparr> else rq)
      in if tokenMethodIncludes (tokenMethod cfg) Bearer \<and> \<not> headersSent rq1 then rq1\<lparr>responseToken := Some token\<rparr> else rq1)"

section \<open>Finding the session\<close>

text \<open>What a request brings: the time, its channel, and whether the session cache is slow at each lookup.\<close>

record guard_env =
  ge_now :: int
  ge_info :: "resolve_info option"
  ge_channel :: channel
  ge_slow :: bool
  ge_slowAgain :: bool
  ge_newToken :: string

definition lookup_session :: "'s session_cache_ops \<Rightarrow> guard_config \<Rightarrow> bool \<Rightarrow> int \<Rightarrow> string \<Rightarrow> 's key_db \<Rightarrow> cached_session option \<times> 's key_db" where
  "lookup_session ops cfg slow now token kd =
     (case getSessionFromToken ops (kc_sessions (gc_keys cfg)) slow now token (kd_sessions kd) of
        (s, sessions) \<Rightarrow> (s, kd\<lparr>kd_sessions := sessions\<rparr>))"

definition touch_key :: "api_key_strategy \<Rightarrow> int \<Rightarrow> api_key \<Rightarrow> 's key_db \<Rightarrow> 's key_db" where
  "touch_key strategy now k kd =
     (if case ak_lastUsedAt k of None \<Rightarrow> True | Some t \<Rightarrow> t < now - aks_lastUsedAtUpdateInterval strategy
      then updateLastUsedAtByLookupId now (ak_lookupId k) kd else kd)"

text \<open>The key a token stands for, when its hash matches.\<close>

definition presented_key :: "guard_config \<Rightarrow> guard_env \<Rightarrow> string \<Rightarrow> 's key_db \<Rightarrow> api_key option" where
  "presented_key cfg env token kd =
     (let apiType = getApiType (ge_info env); strategy = getApiKeyStrategyByApiType (gc_keys cfg) apiType
      in case parse_api_key strategy token of
           None \<Rightarrow> None
         | Some (lookupId, _) \<Rightarrow>
             (case findOneByLookupId (fromRequest (ge_channel env) apiType None None) lookupId kd of
                None \<Rightarrow> None
              | Some k \<Rightarrow> if aks_check strategy token (ak_apiKeyHash k) then Some k else None))"

definition session_from_key :: "'s session_cache_ops \<Rightarrow> guard_config \<Rightarrow> guard_env \<Rightarrow> string \<Rightarrow> 's key_db \<Rightarrow>
    cached_session option result \<times> 's key_db" where
  "session_from_key ops cfg env token kd =
     (let apiType = getApiType (ge_info env); ctx = fromRequest (ge_channel env) apiType None None; now = ge_now env
      in case presented_key cfg env token kd of
           None \<Rightarrow> (Inr None, kd)
         | Some k \<Rightarrow>
             (case lookup_session ops cfg (ge_slow env) now (ak_apiKeyHash k)
                     (touch_key (getApiKeyStrategyByApiType (gc_keys cfg) apiType) now k kd) of
                (Some s, kd1) \<Rightarrow> (Inr (Some s), kd1)
              | (None, kd1) \<Rightarrow>
                  (case key_session ops (gc_keys cfg) now ctx (ak_userId k) (ak_apiKeyHash k) (nullish (ak_apiType k) Api_admin) kd1 of
                     Inl e \<Rightarrow> (Inl e, kd1)
                   | Inr kd2 \<Rightarrow> (case lookup_session ops cfg (ge_slowAgain env) now (ak_apiKeyHash k) kd2 of (s, kd3) \<Rightarrow> (Inr s, kd3)))))"

definition guard_getSessionFromToken :: "'s session_cache_ops \<Rightarrow> guard_config \<Rightarrow> guard_env \<Rightarrow> token_method \<Rightarrow> string \<Rightarrow> 's key_db \<Rightarrow>
    cached_session option result \<times> 's key_db" where
  "guard_getSessionFromToken ops cfg env m token kd =
     (if m \<noteq> Api_key_header
      then (case lookup_session ops cfg (ge_slow env) (ge_now env) token kd of (s, kd1) \<Rightarrow> (Inr s, kd1))
      else session_from_key ops cfg env token kd)"

definition anonymous_session :: "'s session_cache_ops \<Rightarrow> guard_config \<Rightarrow> guard_env \<Rightarrow> http \<Rightarrow> 's key_db \<Rightarrow>
    cached_session option result \<times> http \<times> 's key_db" where
  "anonymous_session ops cfg env rq kd =
     (case createAnonymousSession ops (kc_sessions (gc_keys cfg)) (ge_now env) (ge_newToken env) (kd_sessions kd) of
        Inl e \<Rightarrow> (Inl e, rq, kd)
      | Inr (c, sessions) \<Rightarrow> (Inr (Some c), setSessionToken cfg (session_token c) True rq, kd\<lparr>kd_sessions := sessions\<rparr>))"

definition guard_getSession :: "'s session_cache_ops \<Rightarrow> guard_config \<Rightarrow> guard_env \<Rightarrow> bool \<Rightarrow> http \<Rightarrow> 's key_db \<Rightarrow>
    cached_session option result \<times> http \<times> 's key_db" where
  "guard_getSession ops cfg env hasOwnerPermission rq kd =
     (case extractSessionToken cfg rq of
        None \<Rightarrow> if hasOwnerPermission then anonymous_session ops cfg env rq kd else (Inr None, rq, kd)
      | Some (m, token) \<Rightarrow>
          (case guard_getSessionFromToken ops cfg env m token kd of
             (Inl e, kd1) \<Rightarrow> (Inl e, rq, kd1)
           | (Inr (Some s), kd1) \<Rightarrow> (Inr (Some s), rq, kd1)
           | (Inr None, kd1) \<Rightarrow>
               let rq1 = setSessionToken cfg '''' False rq
               in if hasOwnerPermission then anonymous_session ops cfg env rq1 kd1 else (Inr None, rq1, kd1)))"

section \<open>The guard\<close>

definition sessionIsValidForApi :: "guard_config \<Rightarrow> cached_session \<Rightarrow> api_type \<Rightarrow> bool" where
  "sessionIsValidForApi cfg s apiType =
     (if apiType \<noteq> Api_admin \<or> disableAuth cfg then True
      else if session_user s = None then True
      else if session_strategy s = Some api_key_strategy \<and> session_apiType s = None then True
      else session_apiType s = Some Api_admin)"

definition guard_setActiveChannel :: "'s session_cache_ops \<Rightarrow> guard_config \<Rightarrow> int \<Rightarrow> auth_context \<Rightarrow> cached_session option \<Rightarrow> 's key_db \<Rightarrow>
    bool \<times> 's key_db" where
  "guard_setActiveChannel ops cfg now ctx s kd =
     (case s of
        None \<Rightarrow> (False, kd)
      | Some c \<Rightarrow>
          let channelId = channel_id (ac_channel ctx)
          in if session_activeChannelId c = Some channelId then (False, kd)
             else (True, kd\<lparr>kd_sessions := snd (setActiveChannel ops (kc_sessions (gc_keys cfg)) now c channelId (kd_sessions kd))\<rparr>))"

text \<open>The context of a request that is not for a field: its session, the API rule and the active channel.\<close>

definition request_context :: "'s session_cache_ops \<Rightarrow> guard_config \<Rightarrow> guard_env \<Rightarrow> permission list option \<Rightarrow> http \<Rightarrow> 's key_db \<Rightarrow>
    auth_context result \<times> http \<times> 's key_db" where
  "request_context ops cfg env permissions rq kd =
     (let apiType = getApiType (ge_info env);
          hasOwnerPermission = (case permissions of None \<Rightarrow> False | Some ps \<Rightarrow> ''Owner'' \<in> set ps)
      in case guard_getSession ops cfg env hasOwnerPermission rq kd of
           (Inl e, rq1, kd1) \<Rightarrow> (Inl e, rq1, kd1)
         | (Inr found, rq1, kd1) \<Rightarrow>
             let s = (case found of None \<Rightarrow> None | Some c \<Rightarrow> if sessionIsValidForApi cfg c apiType then Some c else None);
                 ctx = fromRequest (ge_channel env) apiType permissions s
             in case guard_setActiveChannel ops cfg (ge_now env) ctx s kd1 of
                  (again, kd2) \<Rightarrow> (Inr (if again then fromRequest (ge_channel env) apiType permissions s else ctx), rq1, kd2))"

definition canActivate :: "'s session_cache_ops \<Rightarrow> guard_config \<Rightarrow> guard_env \<Rightarrow> permission list option \<Rightarrow> auth_context \<Rightarrow> http \<Rightarrow> 's key_db \<Rightarrow>
    unit result \<times> auth_context option \<times> http \<times> 's key_db" where
  "canActivate ops cfg env permissions storedContext rq kd =
     (let targetIsFieldResolver = isFieldResolver (ge_info env)
      in if targetIsFieldResolver \<and> permissions = None then (Inr (), None, rq, kd)
         else case (if targetIsFieldResolver then (Inr storedContext, rq, kd) else request_context ops cfg env permissions rq kd) of
                (Inl e, rq1, kd1) \<Rightarrow> (Inl e, None, rq1, kd1)
              | (Inr ctx, rq1, kd1) \<Rightarrow>
                  (if disableAuth cfg \<or> canAccess ctx (nullish permissions []) then Inr () else Inl ForbiddenError, Some ctx, rq1, kd1))"

end
