(* ===== verification/SessionUses.thy ===== *)
theory SessionUses
  imports SessionSafety AccessUses
begin

text \<open>
  The facts about sessions for the configuration the code ships with, the default session cache over the
  in-memory cache, and for the SQL cache: what any run of calls from an empty table leaves, what a lookup
  returns, and that sessions deleted with their user are gone.
\<close>

definition default_mem_sessions :: "cached_session mem_cache session_cache_ops" where
  "default_mem_sessions = default_sessions default_prefix day_ms mem_cache_get mem_cache_set mem_cache_delete mem_invalidateTags"

definition default_sql_sessions :: "cached_session sql_cache session_cache_ops" where
  "default_sql_sessions = default_sessions default_prefix day_ms sql_cache_get sql_cache_set sql_cache_delete sql_invalidateTags"

definition empty_sql_cache :: "nat \<Rightarrow> 'v sql_cache" where
  "empty_sql_cache n = \<lparr>sc_items = [], sc_tags = [], sc_nextId = 0, sc_size = n\<rparr>"

definition no_sessions :: "'s \<Rightarrow> access_db \<Rightarrow> 's session_db" where
  "no_sessions cache adb = \<lparr>sd_rows = [], sd_cache = cache, sd_access = adb, sd_nextId = 1\<rparr>"

definition mem_run :: "session_config \<Rightarrow> nat \<Rightarrow> access_db \<Rightarrow> session_call list \<Rightarrow> cached_session mem_cache session_db" where
  "mem_run cfg n adb cs = fold (session_step default_mem_sessions cfg) cs (no_sessions (empty_mem_cache n) adb)"

definition sql_run :: "session_config \<Rightarrow> nat \<Rightarrow> access_db \<Rightarrow> session_call list \<Rightarrow> cached_session sql_cache session_db" where
  "sql_run cfg n adb cs = fold (session_step default_sql_sessions cfg) cs (no_sessions (empty_sql_cache n) adb)"

lemma mem_run_ok: "mem_default.sessions.cache_ok (mem_run cfg n adb cs)"
proof -
  have "mem_default.sessions.cache_ok (no_sessions (empty_mem_cache n) adb)"
    unfolding mem_default.sessions.cache_ok_def by (simp add: no_sessions_def empty_mem_cache_def mem_invar_def map_wf_def mem_entry_def rows_ok_def)
  then show ?thesis unfolding mem_run_def default_mem_sessions_def by (rule mem_default.sessions.run_ok)
qed

lemma sql_run_ok: "sql_default.sessions.cache_ok (sql_run cfg n adb cs)"
proof -
  have "sql_default.sessions.cache_ok (no_sessions (empty_sql_cache n) adb)"
    unfolding sql_default.sessions.cache_ok_def by (simp add: no_sessions_def empty_sql_cache_def sql_invar_def sql_entry_def rows_ok_def)
  then show ?thesis unfolding sql_run_def default_sql_sessions_def by (rule sql_default.sessions.run_ok)
qed

text \<open>
  After any sequence of calls of the session service the tables are well formed: ids and tokens of
  sessions are unique, and what the cache holds under a token is a session with that token whose row is
  in the database with the same id and user.
\<close>

theorem session_tables_well_formed:
  "rows_ok (mem_run cfg n adb cs) \<and>
   (\<forall>t. case mem_entry (sd_cache (mem_run cfg n adb cs)) (getCacheKey default_prefix t) of
      None \<Rightarrow> True
    | Some c \<Rightarrow> session_token c = t \<and> (\<exists>r \<in> set (sd_rows (mem_run cfg n adb cs)). backs r c))"
  using mem_run_ok [of cfg n adb cs] unfolding mem_default.sessions.cache_ok_def by (auto split: option.split)

text \<open>
  C40: A session found for a token carries that token, has not expired, comes from a copy that is not
  stale or from the database, and has a row with its id and user; that holds after any sequence of calls
  and when the cache is too slow to answer.
\<close>

theorem session_from_token_valid:
  assumes "0 \<le> sessionDurationInMs cfg" and "0 \<le> sessionCacheTTLSeconds cfg"
    and "fst (getSessionFromToken default_mem_sessions cfg slow now tok (mem_run cfg n adb cs)) = Some c"
  shows "session_token c = tok \<and> now \<le> session_expires c \<and> of_int now / 1000 \<le> cacheExpiry c \<and>
    (\<exists>r \<in> set (sd_rows (mem_run cfg n adb cs)). backs r c)"
  using mem_default.sessions.lookup_valid [OF mem_run_ok assms(1,2)] assms(3)
  unfolding default_mem_sessions_def by blast

text \<open>
  C22: Once the sessions of a user are deleted, as happens when an account is deleted, no token leads to a
  session of that user, neither through the cache nor through the database, with the in-memory cache and
  with the SQL cache.
\<close>

theorem deleted_sessions_unusable:
  assumes "0 \<le> sessionDurationInMs cfg" and "0 \<le> sessionCacheTTLSeconds cfg"
  shows "(case fst (getSessionFromToken default_mem_sessions cfg slow now tok (mem_run cfg n adb (cs @ [Logout_user u]))) of
            None \<Rightarrow> True | Some c \<Rightarrow> map_option cu_id (session_user c) \<noteq> Some u) \<and>
         (case fst (getSessionFromToken default_sql_sessions cfg slow now tok (sql_run cfg n adb (cs @ [Logout_user u]))) of
            None \<Rightarrow> True | Some c \<Rightarrow> map_option cu_id (session_user c) \<noteq> Some u)"
  using mem_default.sessions.logged_out [OF mem_run_ok [of cfg n adb cs] assms, where slow = slow and now = now and tok = tok and userId = u]
    sql_default.sessions.logged_out [OF sql_run_ok [of cfg n adb cs] assms, where slow = slow and now = now and tok = tok and userId = u]
  by (auto simp: mem_run_def sql_run_def default_mem_sessions_def default_sql_sessions_def split: option.split)

section \<open>A run\<close>

definition shop_sessions :: session_config where
  "shop_sessions = \<lparr>sessionDurationInMs = 31557600000, sessionCacheTTLSeconds = 300\<rparr>"

definition two_logins :: "session_call list" where
  "two_logins =
     [Login 1000 (context_of 1) 1 ''native'' None ''aa'' None None, Visit 2000 ''bb'', Login 3000 (context_of 2) 2 ''native'' None ''cc'' None (Some 7),
      Lookup False 4000 ''aa'']"

lemma session_from_token_valid_witness:
  "\<exists>c. fst (getSessionFromToken default_mem_sessions shop_sessions False 5000 ''cc'' (mem_run shop_sessions 10 shop_access two_logins)) = Some c \<and>
     session_token c = ''cc'' \<and> 5000 \<le> session_expires c"
proof -
  let ?x = "fst (getSessionFromToken default_mem_sessions shop_sessions False 5000 ''cc'' (mem_run shop_sessions 10 shop_access two_logins))"
  have "?x \<noteq> None" by code_simp
  then obtain c where c: "?x = Some c" by blast
  have "session_token c = ''cc'' \<and> 5000 \<le> session_expires c"
    using session_from_token_valid [OF _ _ c] by (simp add: shop_sessions_def)
  then show ?thesis using c by blast
qed

lemma deleted_sessions_unusable_witness:
  "case fst (getSessionFromToken default_mem_sessions shop_sessions False 5000 ''cc'' (mem_run shop_sessions 10 shop_access (two_logins @ [Logout_user 2]))) of
     None \<Rightarrow> True | Some c \<Rightarrow> map_option cu_id (session_user c) \<noteq> Some 2"
  using deleted_sessions_unusable [where cfg = shop_sessions and slow = False and now = 5000 and tok = "''cc''" and n = 10 and adb = shop_access and cs = two_logins and u = 2] by (simp add: shop_sessions_def)

end
