(* ===== verification/GuardSafety.thy ===== *)
theory GuardSafety
  imports AuthGuard SessionUses
begin

text \<open>
  What the guard and the API keys promise: a key gives nobody more than its maker holds, and a request
  to the Admin API that needs a permission gets through only with a session that was opened on the Admin
  API. Where a session comes from is read off the calls that led to the table of sessions.
\<close>

section \<open>Where sessions come from\<close>

text \<open>The user a call opens a session for, and the API it belongs to.\<close>

fun login_of :: "session_call \<Rightarrow> (ID \<times> api_type) option" where
  "login_of (Login now ctx u name tok gen api ord) =
     Some (u, nullish api (if ac_hasRequest ctx then ac_apiType ctx else Api_shop))"
| "login_of _ = None"

definition opened_by :: "session_call list \<Rightarrow> session_row \<Rightarrow> bool" where
  "opened_by cs r \<longleftrightarrow> (case sr_userId r of None \<Rightarrow> True
     | Some u \<Rightarrow> \<exists>a. Some (u, a) \<in> login_of ` set cs \<and> sr_apiType r = Some a)"

lemma same_row_refl [simp]: "same_row r r"
  by (simp add: same_row_def)

lemma opened_by_same: "same_row r r' \<Longrightarrow> opened_by cs r' = opened_by cs r"
  by (simp add: same_row_def opened_by_def split: option.split)

lemma old_row: "x \<in> set rs \<Longrightarrow> \<exists>y \<in> set rs. same_row y x"
  by (rule bexI [where x = x]) simp_all

lemma opened_by_mono: "opened_by cs r \<or> opened_by ds r \<Longrightarrow> opened_by (cs @ ds) r"
  by (auto simp: opened_by_def image_Un split: option.splits)

lemma replaced_rows:
  assumes "x \<in> set (sd_rows (replace_session r' st))" and "r \<in> set (sd_rows st)" and "same_row r r'"
  shows "\<exists>y \<in> set (sd_rows st). same_row y x"
  using assms by (auto simp: replace_session_def intro: bexI [where x = r] old_row split: if_splits)

lemma cache_session_rows: "sd_rows (snd (cache_session ops cfg now r st)) = sd_rows st"
  by (simp add: cache_session_def Let_def)

lemma change_rows:
  assumes "x \<in> set (sd_rows (snd (change_session ops cfg now i f c st)))" and "\<And>r. same_row r (f r)"
  shows "\<exists>y \<in> set (sd_rows st). same_row y x"
proof (cases "List.find (\<lambda>r. sr_id r = i) (sd_rows st)")
  case None
  then show ?thesis using assms(1) by (simp add: change_session_def old_row)
next
  case (Some r)
  let ?r = "if f r = r then r else (f r)\<lparr>sr_updatedAt := now\<rparr>"
  have "same_row r ?r" using assms(2) [of r] by (simp add: same_row_def)
  moreover have "x \<in> set (sd_rows (replace_session ?r st))"
    using assms(1) Some by (simp add: change_session_def Let_def cache_session_rows)
  ultimately show ?thesis using replaced_rows find_Some_in [OF Some] by blast
qed

lemma find_session_rows:
  assumes "findSessionByToken cfg now token st = (found, st')" and "x \<in> set (sd_rows st')"
  shows "\<exists>y \<in> set (sd_rows st). same_row y x"
proof (cases "st' = st")
  case False
  then obtain r0 r where r0: "List.find (\<lambda>r. sr_token r = token \<and> \<not> sr_invalidated r) (sd_rows st) = Some r0" "now < sr_expires r0"
    and u: "updateSessionExpiry cfg now r0 st = (r, st')"
    using assms(1) by (auto simp: findSessionByToken_def split: option.splits if_splits prod.splits)
  note c = updateSessionExpiry_cases [OF u r0(2)]
  then have "x \<in> set (sd_rows (replace_session r st))" using False assms(2) by blast
  then show ?thesis using replaced_rows find_Some_in [OF r0(1)] c by blast
qed (use assms(2) in \<open>simp add: old_row\<close>)

lemma lookup_rows:
  assumes "x \<in> set (sd_rows (snd (getSessionFromToken ops cfg slow now tok st)))"
  shows "\<exists>y \<in> set (sd_rows st). same_row y x"
proof -
  let ?st1 = "st\<lparr>sd_cache := snd (sco_get ops now tok (sd_cache st))\<rparr>"
  obtain found st2 where f: "findSessionByToken cfg now tok ?st1 = (found, st2)" by (cases "findSessionByToken cfg now tok ?st1")
  have "sd_rows (snd (getSessionFromToken ops cfg slow now tok st)) = sd_rows st2 \<or>
        sd_rows (snd (getSessionFromToken ops cfg slow now tok st)) = sd_rows st"
    using f by (auto simp: getSessionFromToken_def Let_def cache_session_def split: option.split prod.split)
  then show ?thesis using assms find_session_rows [OF f] old_row [of x "sd_rows st"] by auto
qed

lemma insert_session_rows: "insert_session r st = Inr st' \<Longrightarrow> sd_rows st' = sd_rows st @ [r]"
  by (auto simp: insert_session_def split: if_splits)

text \<open>A row after a call is an old one, an anonymous one, or the one a login made.\<close>

lemma step_rows:
  assumes "x \<in> set (sd_rows (session_step ops cfg c st))"
  shows "(\<exists>y \<in> set (sd_rows st). same_row y x) \<or> opened_by [c] x"
proof (cases c)
  case (Login now ctx u name tok gen api ord)
  show ?thesis
  proof (cases "createNewAuthenticatedSession ops cfg now ctx u name tok gen api ord st")
    case (Inl e)
    then show ?thesis using assms Login by (simp add: old_row)
  next
    case (Inr p)
    then obtain st1 where st1: "insert_session (fst p) st = Inr st1" "snd p = snd (cache_session ops cfg now (fst p) st1)"
      and r: "sr_userId (fst p) = Some u" "sr_apiType (fst p) = Some (nullish api (if ac_hasRequest ctx then ac_apiType ctx else Api_shop))"
      by (auto simp: createNewAuthenticatedSession_def Let_def bind_result_Inr)
    have "sd_rows (session_step ops cfg c st) = sd_rows st @ [fst p]"
      using Inr Login st1(2) cache_session_rows [of ops cfg now "fst p" st1] insert_session_rows [OF st1(1)] by (auto split: prod.splits)
    then show ?thesis using assms r Login old_row [of x "sd_rows st"] by (auto simp: opened_by_def)
  qed
next
  case (Visit now gen)
  show ?thesis
  proof (cases "createAnonymousSession ops cfg now gen st")
    case (Inl e)
    then show ?thesis using assms Visit by (simp add: old_row)
  next
    case (Inr p)
    obtain r st1 where r: "insert_session r st = Inr st1" "sr_userId r = None" "cache_session ops cfg now r st1 = p"
      using Inr by (auto simp: createAnonymousSession_def Let_def bind_result_Inr)
    have "sd_rows (session_step ops cfg c st) = sd_rows st @ [r]"
      using Inr Visit r(3) cache_session_rows [of ops cfg now r st1] insert_session_rows [OF r(1)] by (auto split: prod.splits)
    then show ?thesis using assms r(2) old_row [of x "sd_rows st"] by (auto simp: opened_by_def)
  qed
next
  case (Lookup slow now tok)
  then show ?thesis using assms lookup_rows by auto
qed (use assms in \<open>auto simp: setActiveOrder_def unsetActiveOrder_def setActiveChannel_def same_row_def
      deleteSessionsByUser_def deleteSessionsByActiveOrderId_def deleteApiKeySession_def cleanExpiredSessions_def
      remove_sessions_def clearSessionCacheOnDataChange_def Let_def old_row dest!: change_rows split: if_splits\<close>)

lemma run_opened: "\<forall>r \<in> set (sd_rows (mem_run cfg n adb cs)). opened_by cs r"
proof (induction cs rule: rev_induct)
  case Nil
  then show ?case by (simp add: mem_run_def no_sessions_def)
next
  case (snoc c cs)
  have "opened_by (cs @ [c]) x" if x: "x \<in> set (sd_rows (mem_run cfg n adb (cs @ [c])))" for x
  proof -
    have "(\<exists>y \<in> set (sd_rows (mem_run cfg n adb cs)). same_row y x) \<or> opened_by [c] x"
      using step_rows x by (simp add: mem_run_def)
    then have "opened_by cs x \<or> opened_by [c] x" using snoc.IH opened_by_same by blast
    then show ?thesis by (rule opened_by_mono)
  qed
  then show ?case by blast
qed

text \<open>So a session found by its token belongs to a login, for its user and its API.\<close>

lemma found_session_login:
  assumes "0 \<le> sessionDurationInMs cfg" and "0 \<le> sessionCacheTTLSeconds cfg"
    and "fst (getSessionFromToken default_mem_sessions cfg slow now tok (mem_run cfg n adb cs)) = Some s"
    and "session_user s = Some u"
  shows "now \<le> session_expires s" and "\<exists>a. Some (cu_id u, a) \<in> login_of ` set cs \<and> session_apiType s = Some a"
proof -
  have "session_token s = tok \<and> now \<le> session_expires s \<and> of_int now / 1000 \<le> cacheExpiry s \<and>
      (\<exists>r \<in> set (sd_rows (mem_run cfg n adb cs)). backs r s)"
    using mem_default.sessions.lookup_valid [OF mem_run_ok assms(1,2)] assms(3) unfolding default_mem_sessions_def by blast
  then obtain r where r: "now \<le> session_expires s" "r \<in> set (sd_rows (mem_run cfg n adb cs))" "backs r s" by blast
  show "now \<le> session_expires s" by (rule r(1))
  have "opened_by cs r" using run_opened r(2) by blast
  then show "\<exists>a. Some (cu_id u, a) \<in> login_of ` set cs \<and> session_apiType s = Some a"
    using r(3) assms(4) by (auto simp: opened_by_def backs_def)
qed

section \<open>The guard\<close>

lemma parts_of_lookup:
  "lookup_session ops cfg slow now token kd = (s, kd') \<Longrightarrow>
     s = fst (getSessionFromToken ops (kc_sessions (gc_keys cfg)) slow now token (kd_sessions kd)) \<and>
     kd_sessions kd' = session_step ops (kc_sessions (gc_keys cfg)) (Lookup slow now token) (kd_sessions kd) \<and> kd_keys kd' = kd_keys kd"
  by (auto simp: lookup_session_def split: prod.splits)

lemma parts_of_key_session:
  "key_session ops kcfg now ctx u h a kd = Inr kd' \<Longrightarrow>
     kd_sessions kd' = session_step ops (kc_sessions kcfg) (Login now ctx u api_key_strategy (Some h) '''' (Some a) None) (kd_sessions kd)"
  by (auto simp: key_session_def bind_result_Inr split: prod.splits sum.split)

lemma touch_key_sessions: "kd_sessions (touch_key strategy now k kd) = kd_sessions kd"
  by (simp add: touch_key_def updateLastUsedAtByLookupId_def)

lemma presented_key_row:
  "presented_key cfg env token kd = Some k \<Longrightarrow>
     k \<in> set (kd_keys kd) \<and> \<not> ak_deleted k \<and>
     aks_check (getApiKeyStrategyByApiType (gc_keys cfg) (getApiType (ge_info env))) token (ak_apiKeyHash k)"
  by (auto simp: presented_key_def findOneByLookupId_def Let_def dest!: find_Some_in split: option.splits prod.splits if_splits)

lemma run_snoc: "session_step default_mem_sessions cfg c (mem_run cfg n adb cs) = mem_run cfg n adb (cs @ [c])"
  by (simp add: mem_run_def)

text \<open>The session the guard gets: one of a login, or one it opens again for an API key.\<close>

definition opened_on :: "session_call list \<Rightarrow> api_key list \<Rightarrow> cached_session \<Rightarrow> ID \<Rightarrow> bool" where
  "opened_on cs keys s u \<longleftrightarrow>
     (\<exists>a. session_apiType s = Some a \<and>
        (Some (u, a) \<in> login_of ` set cs \<or>
         (\<exists>k \<in> set keys. \<not> ak_deleted k \<and> ak_userId k = u \<and> nullish (ak_apiType k) Api_admin = a)))"

lemma session_from_key_login:
  assumes cfg: "kc_sessions (gc_keys cfg) = scfg" "0 \<le> sessionDurationInMs scfg" "0 \<le> sessionCacheTTLSeconds scfg"
    and kd: "kd_sessions kd = mem_run scfg n adb cs"
    and g: "session_from_key default_mem_sessions cfg env token kd = (Inr (Some s), kd')" and u: "session_user s = Some u"
  shows "ge_now env \<le> session_expires s \<and> opened_on cs (kd_keys kd) s (cu_id u)"
proof -
  let ?now = "ge_now env" and ?strategy = "getApiKeyStrategyByApiType (gc_keys cfg) (getApiType (ge_info env))"
  obtain k where k: "presented_key cfg env token kd = Some k" using g by (auto simp: session_from_key_def Let_def split: option.splits)
  let ?kd0 = "touch_key ?strategy ?now k kd" and ?h = "ak_apiKeyHash k"
  obtain s1 kd1 where l1: "lookup_session default_mem_sessions cfg (ge_slow env) ?now ?h ?kd0 = (s1, kd1)"
    by (cases "lookup_session default_mem_sessions cfg (ge_slow env) ?now ?h ?kd0")
  note p1 = parts_of_lookup [OF l1, unfolded touch_key_sessions kd cfg(1)]
  show ?thesis
  proof (cases s1)
    case (Some x)
    then have "s = x" using g k l1 by (simp add: session_from_key_def)
    then have "fst (getSessionFromToken default_mem_sessions scfg (ge_slow env) ?now ?h (mem_run scfg n adb cs)) = Some s"
      using p1 Some by simp
    then show ?thesis using found_session_login [OF cfg(2,3) _ u] unfolding opened_on_def by blast
  next
    case None
    let ?login = "Login ?now (fromRequest (ge_channel env) (getApiType (ge_info env)) None None) (ak_userId k) api_key_strategy
        (Some ?h) '''' (Some (nullish (ak_apiType k) Api_admin)) None"
    let ?cs = "cs @ [Lookup (ge_slow env) ?now ?h, ?login]"
    obtain kd2 where ks: "key_session default_mem_sessions (gc_keys cfg) ?now (fromRequest (ge_channel env) (getApiType (ge_info env)) None None)
        (ak_userId k) ?h (nullish (ak_apiType k) Api_admin) kd1 = Inr kd2"
      and l2: "lookup_session default_mem_sessions cfg (ge_slowAgain env) ?now ?h kd2 = (Some s, kd')"
      using g k l1 None by (auto simp: session_from_key_def Let_def split: sum.splits prod.splits)
    have "kd_sessions kd2 = mem_run scfg n adb ?cs"
      using parts_of_key_session [OF ks] p1 by (simp add: cfg(1) mem_run_def)
    then have found: "fst (getSessionFromToken default_mem_sessions scfg (ge_slowAgain env) ?now ?h (mem_run scfg n adb ?cs)) = Some s"
      using parts_of_lookup [OF l2] cfg(1) by simp
    obtain a where a: "session_apiType s = Some a" "Some (cu_id u, a) \<in> login_of ` set ?cs"
      using found_session_login(2) [OF cfg(2,3) found u] by blast
    have "k \<in> set (kd_keys kd) \<and> \<not> ak_deleted k" using presented_key_row [OF k] by blast
    moreover have "Some (cu_id u, a) \<in> login_of ` set cs \<or> cu_id u = ak_userId k \<and> a = nullish (ak_apiType k) Api_admin"
      using a(2) by (auto simp: image_Un)
    ultimately show ?thesis using found_session_login(1) [OF cfg(2,3) found u] a(1) unfolding opened_on_def by metis
  qed
qed

lemma guard_session_login:
  assumes cfg: "kc_sessions (gc_keys cfg) = scfg" "0 \<le> sessionDurationInMs scfg" "0 \<le> sessionCacheTTLSeconds scfg"
    and kd: "kd_sessions kd = mem_run scfg n adb cs"
    and g: "guard_getSession default_mem_sessions cfg env False rq kd = (Inr (Some s), rq', kd')" and u: "session_user s = Some u"
  shows "ge_now env \<le> session_expires s \<and> opened_on cs (kd_keys kd) s (cu_id u)"
proof -
  obtain m token where t: "guard_getSessionFromToken default_mem_sessions cfg env m token kd = (Inr (Some s), kd')"
    using g by (auto simp: guard_getSession_def Let_def split: option.splits prod.splits sum.splits)
  show ?thesis
  proof (cases "m = Api_key_header")
    case True
    then show ?thesis using session_from_key_login [OF cfg kd _ u] t by (simp add: guard_getSessionFromToken_def)
  next
    case False
    then have l: "lookup_session default_mem_sessions cfg (ge_slow env) (ge_now env) token kd = (Some s, kd')"
      using t by (auto simp: guard_getSessionFromToken_def split: prod.splits)
    have found: "fst (getSessionFromToken default_mem_sessions scfg (ge_slow env) (ge_now env) token (mem_run scfg n adb cs)) = Some s"
      using parts_of_lookup [OF l] by (simp add: kd cfg(1))
    show ?thesis using found_session_login [OF cfg(2,3) found u] unfolding opened_on_def by blast
  qed
qed

lemma allowed_by_permission:
  assumes "canAccess (fromRequest c a (Some ps) s) ps" and "ps \<noteq> []" and "''Public'' \<notin> set ps" and "''Owner'' \<notin> set ps"
  obtains x u where "s = Some x" and "session_user x = Some u"
    and "\<exists>p \<in> set ps. p \<in> set (permissions_on (channel_id c) (cu_channelPermissions u))"
proof -
  have "userHasPermissions ps (channel_id c) (fromRequest c a (Some ps) s)"
    using assms by (auto simp: canAccess_def fromRequest_def Let_def)
  then obtain x u cp where x: "s = Some x" "session_user x = Some u"
    and cp: "List.find (\<lambda>y. cp_id y = channel_id c) (cu_channelPermissions u) = Some cp" "arraysIntersect (cp_permissions cp) ps"
    by (auto simp: userHasPermissions_def getUserPermissionsOnChannel_def fromRequest_def Let_def split: option.splits)
  have "permissions_on (channel_id c) (cu_channelPermissions u) = cp_permissions cp" using cp(1) by (simp add: permissions_on_def)
  then have "\<exists>p \<in> set ps. p \<in> set (permissions_on (channel_id c) (cu_channelPermissions u))"
    using cp(2) unfolding arraysIntersect_iff by auto
  then show ?thesis by (rule that [OF x])
qed


text \<open>
  C24: Making or rotating an API key returns a secret whose user holds, in the tables after it, only
  permissions that the user who asked holds, an impersonated user included, and gives no user more than
  he had or the active user has.
\<close>

theorem api_key_within_holder:
  assumes "access_ok (access_of kd)"
    and "api_key_create ops cfg now ctx roleIds owner imp lookupId secret salt kd = Inr (key, k, kd') \<or>
         api_key_rotate ops cfg now ctx i secret salt kd = Inr (key, k, kd')"
  shows "bounded ctx (access_of kd) (access_of kd') \<and>
    (\<forall>j p. user_grants (access_of kd') (ak_userId k) j p \<longrightarrow> held_by_active ctx (access_of kd) j p)"
  using assms(2)
proof
  assume "api_key_create ops cfg now ctx roleIds owner imp lookupId secret salt kd = Inr (key, k, kd')"
  then show ?thesis by (elim create_result) (use api_key_user_within [OF assms(1)] in blast)
next
  assume "api_key_rotate ops cfg now ctx i secret salt kd = Inr (key, k, kd')"
  then show ?thesis by (elim rotate_result) (use managed_within [OF assms(1)] bounded_refl [OF assms(1)] in auto)
qed

section \<open>Uses\<close>

definition plain_strategy :: api_key_strategy where
  "plain_strategy = \<lparr>aks_delimiter = '':'', aks_lastUsedAtUpdateInterval = 0, aks_hash = (\<lambda>salt key. ''#'' @ key),
     aks_check = (\<lambda>key hash. hash = ''#'' @ key)\<rparr>"

definition guard_cfg :: guard_config where
  "guard_cfg = \<lparr>gc_keys = \<lparr>kc_sessions = shop_sessions, kc_admin = plain_strategy, kc_shop = plain_strategy, kc_defaultChannel = 1\<rparr>,
     disableAuth = False, tokenMethod = Several [Bearer, Api_key_header], hasApiKeyHeaderKey = True\<rparr>"

definition admin_env :: guard_env where
  "admin_env = \<lparr>ge_now = 5000, ge_info = Some \<lparr>ri_parentType = ''Mutation'', ri_queryFields = Some [''administrators'']\<rparr>,
     ge_channel = chan_a, ge_slow = False, ge_slowAgain = False, ge_newToken = ''zz''\<rparr>"

definition bearing :: "string \<Rightarrow> http" where
  "bearing token = \<lparr>hasSession = False, cookieToken = [], cookieMaxAge = None, authorization = Some (''Bearer '' @ token),
     apiKeyHeader = None, headersSent = False, responseToken = None\<rparr>"

definition presenting :: "string \<Rightarrow> http" where
  "presenting key = (bearing '''')\<lparr>authorization := None, apiKeyHeader := Some key\<rparr>"

definition keys_of :: "session_call list \<Rightarrow> api_key list \<Rightarrow> cached_session mem_cache key_db" where
  "keys_of cs keys = \<lparr>kd_sessions = mem_run shop_sessions 10 shop_access cs, kd_keys = keys, kd_authMethods = [1, 2], kd_nextId = 1\<rparr>"

definition shop_context :: "ID \<Rightarrow> auth_context" where
  "shop_context i = (context_of i)\<lparr>ac_apiType := Api_shop\<rparr>"

text \<open>The same user, logged in on the Shop API, is refused on the Admin API; logged in there he gets through.\<close>

lemma shop_login_refused:
  "fst (canActivate default_mem_sessions guard_cfg admin_env (Some [''UpdateOrder'']) (context_of 2) (bearing ''cc'')
     (keys_of [Login 3000 (shop_context 2) 2 ''native'' None ''cc'' None None] [])) = Inl ForbiddenError"
  by code_simp


lemma api_key_within_holder_witness:
  "\<exists>key k kd'. api_key_create default_mem_sessions (gc_keys guard_cfg) 4000 (context_of 2) [2] 2 None ''look'' ''secret'' '''' (keys_of two_logins []) =
       Inr (key, k, kd') \<and>
     (\<forall>j p. user_grants (access_of kd') (ak_userId k) j p \<longrightarrow> held_by_active (context_of 2) shop_access j p)"
proof -
  let ?kd = "keys_of two_logins []"
  let ?r = "api_key_create default_mem_sessions (gc_keys guard_cfg) 4000 (context_of 2) [2] 2 None ''look'' ''secret'' '''' ?kd"
  have "\<not> isl ?r" by code_simp
  then obtain key k kd' where r: "?r = Inr (key, k, kd')" by (cases ?r) auto
  have db: "access_of ?kd = shop_access" by code_simp
  have "bounded (context_of 2) (access_of ?kd) (access_of kd') \<and>
    (\<forall>j p. user_grants (access_of kd') (ak_userId k) j p \<longrightarrow> held_by_active (context_of 2) (access_of ?kd) j p)"
    by (rule api_key_within_holder) (use shop_access_ok db r in auto)
  then show ?thesis using r db by auto
qed

text \<open>The life of a key: it is accepted, not after it was rotated, the new secret is, and nothing once it is deleted.\<close>

definition accepted :: "string \<Rightarrow> cached_session mem_cache key_db \<Rightarrow> bool" where
  "accepted key kd \<longleftrightarrow> fst (canActivate default_mem_sessions guard_cfg admin_env (Some [''UpdateOrder'']) (context_of 2) (presenting key) kd) = Inr ()"

lemma life_of_a_key:
  "case api_key_create default_mem_sessions (gc_keys guard_cfg) 4000 (context_of 2) [2] 2 None ''look'' ''one'' '''' (keys_of two_logins []) of
     Inl e \<Rightarrow> False
   | Inr (key, k, kd) \<Rightarrow> key = ''look:one'' \<and> accepted key kd \<and>
       (case api_key_rotate default_mem_sessions (gc_keys guard_cfg) 4500 (context_of 2) (ak_id k) ''two'' '''' kd of
          Inl e \<Rightarrow> False
        | Inr (key', k', kd') \<Rightarrow> \<not> accepted key kd' \<and> accepted key' kd' \<and>
            (case api_key_softDelete default_mem_sessions (context_of 2) (ak_id k) kd' of
               Inl e \<Rightarrow> False | Inr kd'' \<Rightarrow> \<not> accepted key kd'' \<and> \<not> accepted key' kd''))"
  by code_simp

end
