(* ===== verification/OrderModification.thy ===== *)
theory OrderModification
  imports OrderCancellation Payments
begin

text \<open>
  Changing a placed order: \<^verbatim>\<open>modifyOrder\<close> and \<^verbatim>\<open>setShippingMethods\<close> of
  \<^verbatim>\<open>order-modifier.ts\<close> with the use \<^verbatim>\<open>order.service.ts\<close> makes of them. The
  steps of a modification work on the order in memory, the tables and the refunds asked for; an error
  result ends it, and the caller rolls everything back. History entries, events and custom fields of the
  order are left out; of an address the engine keeps the country.
\<close>

section \<open>Inputs and results\<close>

record surcharge_input =
  si_sku :: "string option"
  si_description :: string
  si_price :: int
  si_priceIncludesTax :: bool
  si_taxRate :: "rat option"
  si_taxDescription :: "string option"

record admin_refund_input =
  rf_paymentId :: ID
  rf_amount :: "int option"
  rf_reason :: "string option"

text \<open>An address to be merged in is given by its country code, if it has one.\<close>

record modify_input =
  mi_dryRun :: bool
  mi_note :: "string option"
  mi_addItems :: "add_item list"
  mi_adjustOrderLines :: "adjust_line list"
  mi_surcharges :: "surcharge_input list"
  mi_updateShippingAddress :: "string option option"
  mi_updateBillingAddress :: "string option option"
  mi_couponCodes :: "string list option"
  mi_shippingMethodIds :: "ID list option"
  mi_hasCustomFields :: bool
  mi_recalculateShipping :: "bool option"
  mi_refunds :: "admin_refund_input list"

datatype modify_error =
    OrderModificationStateError
  | NoChangesSpecifiedError
  | ItemRefused item_error
  | CouponRefused coupon_error
  | IneligibleShippingMethodError
  | RefundPaymentIdMissingError

record modify_config =
  mc_items :: items_config
  mc_payments :: payment_config
  mc_assign :: "shipping_line \<Rightarrow> order \<Rightarrow> order_line list"
  mc_knownCountry :: "string \<Rightarrow> bool"

text \<open>The state: one counter supplies the ids of everything created.\<close>

record modify_state =
  ms_order :: order
  ms_stock :: stock_db
  ms_count :: int
  ms_updated :: "ID list"
  ms_nextId :: ID
  ms_lines :: "order_line_input list"
  ms_surcharges :: "ID list"
  ms_refunds :: "refund_order_input list"

type_synonym 'a modified = "(modify_error + 'a) result"

definition bind_modified :: "'a modified \<Rightarrow> ('a \<Rightarrow> 'b modified) \<Rightarrow> 'b modified" where
  "bind_modified m f = bind_result m (\<lambda>r. case r of Inl e \<Rightarrow> Inr (Inl e) | Inr x \<Rightarrow> f x)"

fun fold_modified :: "('x \<Rightarrow> 's \<Rightarrow> 's modified) \<Rightarrow> 'x list \<Rightarrow> 's \<Rightarrow> 's modified" where
  "fold_modified f [] s = Inr (Inr s)"
| "fold_modified f (x # xs) s = bind_modified (f x s) (fold_modified f xs)"

lemma bind_modified_Inr: "bind_modified m f = Inr (Inr y) \<longleftrightarrow> (\<exists>x. m = Inr (Inr x) \<and> f x = Inr (Inr y))"
  by (cases m) (auto simp: bind_modified_def bind_result_Inr split: sum.splits)

abbreviation refused :: "modify_error \<Rightarrow> 'a modified" where
  "refused e \<equiv> Inr (Inl e)"

abbreviation done_with :: "'a \<Rightarrow> 'a modified" where
  "done_with x \<equiv> Inr (Inr x)"

definition noChangesSpecified :: "modify_input \<Rightarrow> bool" where
  "noChangesSpecified input \<longleftrightarrow>
     mi_adjustOrderLines input = [] \<and> mi_addItems input = [] \<and> mi_surcharges input = [] \<and>
     mi_updateShippingAddress input = None \<and> mi_updateBillingAddress input = None \<and> mi_couponCodes input = None \<and>
     \<not> mi_hasCustomFields input \<and> nullish (mi_shippingMethodIds input) [] = []"

definition refund_input_of :: "modify_input \<Rightarrow> admin_refund_input \<Rightarrow> refund_order_input" where
  "refund_input_of input r =
     \<lparr>ri_lines = [], ri_shipping = Some 0, ri_adjustment = Some 0, ri_paymentId = rf_paymentId r, ri_amount = rf_amount r,
      ri_reason = (if rf_reason r = None \<or> rf_reason r = Some [] then mi_note input else rf_reason r),
      ri_destination = None, ri_targets = []\<rparr>"

definition lockStockLevelsForModification :: "order \<Rightarrow> modify_input \<Rightarrow> stock_db \<Rightarrow> stock_db" where
  "lockStockLevelsForModification ord input db =
     lockStockLevelsForVariants False
       (map ai_productVariantId (mi_addItems input) @
        map_present (\<lambda>row. map_option productVariantId (find_line (al_orderLineId row) ord)) (mi_adjustOrderLines input)) db"

section \<open>Items\<close>

definition modify_add_item :: "modify_config \<Rightarrow> request_context \<Rightarrow> add_item \<Rightarrow> modify_state \<Rightarrow> modify_state modified" where
  "modify_add_item cfg ctx row s =
     (let items = mc_items cfg; q = ai_quantity row
      in if q < 0 then refused (ItemRefused NegativeQuantityError)
         else bind_result (getOrCreateOrderLine items ctx (ms_nextId s) (ms_order s) (ai_productVariantId row)
                             (Some (nullish (ai_customFields row) [])) (ms_stock s)) (\<lambda>(l, ord, db).
              bind_result (variantOrThrow True (productVariantId l) db) (\<lambda>v.
              bind_result (constrainQuantityToSaleable (ic_strategy items) ctx v q 0 0 True db) (\<lambda>(correctedQuantity, db1).
                if orderItemsLimit items < ms_count s + correctedQuantity
                then refused (ItemRefused (OrderLimitError (orderItemsLimit items)))
                else if correctedQuantity < q then refused (ItemRefused (InsufficientStockError correctedQuantity))
                else bind_result (updateOrderLineQuantity (ic_strategy items) ctx l (quantity l + correctedQuantity) ord db1) (\<lambda>(ord', db2).
                  done_with (s\<lparr>ms_order := ord', ms_stock := db2, ms_count := ms_count s + correctedQuantity,
                    ms_updated := ms_updated s @ [line_id l], ms_nextId := Suc (ms_nextId s),
                    ms_lines := ms_lines s @ [\<lparr>orderLineId = line_id l, input_quantity = q - quantity l\<rparr>]\<rparr>))))))"

text \<open>
  The count grows by the whole quantity of the line, not by its change. Taking units off a line cancels
  them in the database; whatever that call answers is ignored.
\<close>

definition reduce_line :: "modify_config \<Rightarrow> request_context \<Rightarrow> order_line \<Rightarrow> int \<Rightarrow> order \<Rightarrow> stock_db \<Rightarrow> (order \<times> stock_db) result" where
  "reduce_line cfg ctx l q ord db =
     bind_result (cancelOrderByOrderLines \<lparr>cc_strategy = ic_strategy (mc_items cfg), cc_calculator = rc_calculator (ic_repricing (mc_items cfg))\<rparr>
                    ctx [ord] (order_id ord) False [\<lparr>orderLineId = line_id l, input_quantity = quantity l - q\<rparr>] db) (\<lambda>answer.
       Inr (set_line (l\<lparr>quantity := q\<rparr>) ord, case answer of Inl e \<Rightarrow> db | Inr (_, _, db') \<Rightarrow> db'))"

definition adjusted_quantity :: "modify_config \<Rightarrow> request_context \<Rightarrow> int \<Rightarrow> order_line \<Rightarrow> stock_db \<Rightarrow> (int \<times> stock_db) result" where
  "adjusted_quantity cfg ctx q l db =
     (if quantity l < q
      then bind_result (variantOrThrow True (productVariantId l) db) (\<lambda>v.
           bind_result (constrainQuantityToSaleable (ic_strategy (mc_items cfg)) ctx v (q - quantity l) 0 0 True db)
             (\<lambda>(additionalQuantity, db'). Inr (quantity l + additionalQuantity, db')))
      else Inr (q, db))"

definition change_line :: "modify_config \<Rightarrow> request_context \<Rightarrow> order_line \<Rightarrow> int \<Rightarrow> order \<Rightarrow> stock_db \<Rightarrow> (order \<times> stock_db) result" where
  "change_line cfg ctx l q ord db =
     (if q < quantity l then reduce_line cfg ctx l q ord db
      else updateOrderLineQuantity (ic_strategy (mc_items cfg)) ctx l q ord db)"

definition modify_adjust_line :: "modify_config \<Rightarrow> request_context \<Rightarrow> adjust_line \<Rightarrow> modify_state \<Rightarrow> modify_state modified" where
  "modify_adjust_line cfg ctx row s =
     (let items = mc_items cfg; q = al_quantity row; ord = ms_order s
      in if q < 0 then refused (ItemRefused NegativeQuantityError)
         else bind_result (getOrderLineOrThrow ord (al_orderLineId row)) (\<lambda>l.
              bind_result (adjusted_quantity cfg ctx q l (ms_stock s)) (\<lambda>(correctedQuantity, db).
                if orderItemsLimit items < ms_count s + correctedQuantity - quantity l
                then refused (ItemRefused (OrderLimitError (orderItemsLimit items)))
                else if correctedQuantity < q then refused (ItemRefused (InsufficientStockError correctedQuantity))
                else let l' = merge_customFields (al_customFields row) l
                  in bind_result (change_line cfg ctx l' q (set_line l' ord) db) (\<lambda>(ord', db').
                    done_with (s\<lparr>ms_order := ord', ms_stock := db', ms_count := ms_count s + correctedQuantity,
                      ms_updated := ms_updated s @ [line_id l],
                      ms_lines := ms_lines s @ [\<lparr>orderLineId = line_id l, input_quantity = q - quantity l\<rparr>],
                      ms_refunds := (if correctedQuantity < quantity l
                        then map (\<lambda>r. r\<lparr>ri_lines := ri_lines r @ [\<lparr>orderLineId = line_id l, input_quantity = quantity l - correctedQuantity\<rparr>]\<rparr>)
                               (ms_refunds s)
                        else ms_refunds s)\<rparr>)))))"

section \<open>Surcharges, addresses, coupons and shipping\<close>

definition surcharge_of :: "ID \<Rightarrow> surcharge_input \<Rightarrow> surcharge" where
  "surcharge_of newId i =
     \<lparr>listPrice = si_price i, listPriceIncludesTax = si_priceIncludesTax i,
      taxLines = (case si_taxRate i of None \<Rightarrow> []
        | Some r \<Rightarrow> [\<lparr>tl_description = nullish (si_taxDescription i) [], tl_taxRate = r\<rparr>]),
      surcharge_id = newId, surcharge_description = si_description i, surcharge_sku = nullish (si_sku i) []\<rparr>"

definition modify_surcharge :: "surcharge_input \<Rightarrow> modify_state \<Rightarrow> modify_state modified" where
  "modify_surcharge i s =
     (let c = surcharge_of (ms_nextId s) i; ord = ms_order s
      in done_with (s\<lparr>ms_order := ord\<lparr>surcharges := surcharges ord @ [c]\<rparr>, ms_nextId := Suc (ms_nextId s),
           ms_surcharges := ms_surcharges s @ [surcharge_id c],
           ms_refunds := (if surcharge_priceWithTax c < 0
             then map (\<lambda>r. r\<lparr>ri_adjustment := map_option (\<lambda>a. a + \<bar>surcharge_priceWithTax c\<bar>) (ri_adjustment r)\<rparr>) (ms_refunds s)
             else ms_refunds s)\<rparr>))"

definition check_country :: "modify_config \<Rightarrow> string option option \<Rightarrow> unit result" where
  "check_country cfg address =
     (case nullish address None of
        None \<Rightarrow> Inr ()
      | Some code \<Rightarrow> if code = [] \<or> mc_knownCountry cfg code then Inr ()
                     else Inl (UserInputError ''error.country-code-not-valid''))"

definition modify_addresses :: "modify_config \<Rightarrow> modify_input \<Rightarrow> modify_state \<Rightarrow> modify_state modified" where
  "modify_addresses cfg input s =
     bind_result (check_country cfg (mi_updateShippingAddress input)) (\<lambda>_.
     bind_result (check_country cfg (mi_updateBillingAddress input)) (\<lambda>_.
       done_with (case nullish (mi_updateShippingAddress input) None of
         None \<Rightarrow> s | Some code \<Rightarrow> s\<lparr>ms_order := (ms_order s)\<lparr>shippingCountryCode := Some code\<rparr>\<rparr>)))"

definition canonical_code :: "request_context \<Rightarrow> promotion_row list \<Rightarrow> order list \<Rightarrow> order \<Rightarrow> string \<Rightarrow> string list \<Rightarrow> string list modified" where
  "canonical_code ctx rows orders ord code codes =
     (case validateCouponCode ctx rows orders code (customerId ord) None of
        Inl e \<Rightarrow> refused (CouponRefused e)
      | Inr p \<Rightarrow> let canonicalCode = nullish (couponCode p) []
                in done_with (if list_ex (\<lambda>cc. couponCodesMatch cc canonicalCode) codes then codes else codes @ [canonicalCode]))"

definition modify_coupons :: "modify_config \<Rightarrow> request_context \<Rightarrow> order list \<Rightarrow> string list option \<Rightarrow> modify_state \<Rightarrow> modify_state modified" where
  "modify_coupons cfg ctx orders given s =
     (case given of
        None \<Rightarrow> done_with s
      | Some codes \<Rightarrow>
          bind_modified (fold_modified (canonical_code ctx (rc_promotionRows (ic_repricing (mc_items cfg))) orders (ms_order s)) codes [])
            (\<lambda>canonicalCouponCodes. done_with (s\<lparr>ms_order := (ms_order s)\<lparr>couponCodes := canonicalCouponCodes\<rparr>\<rparr>)))"

definition set_shipping_method :: "modify_config \<Rightarrow> request_context \<Rightarrow> nat \<times> ID \<Rightarrow> modify_state \<Rightarrow> modify_state modified" where
  "set_shipping_method cfg ctx entry s =
     (let (i, shippingMethodId) = entry; ord = ms_order s; calc = rc_calculator (ic_repricing (mc_items cfg))
      in case getMethodIfEligible (cfg_shipping calc) ctx (cfg_shippingMethods calc) ord shippingMethodId of
           None \<Rightarrow> refused IneligibleShippingMethodError
         | Some m \<Rightarrow>
             if i < length (shippingLines ord)
             then done_with (s\<lparr>ms_order := ord\<lparr>shippingLines := (shippingLines ord)[i := (shippingLines ord ! i)\<lparr>shippingMethodId := Some (method_id m)\<rparr>]\<rparr>\<rparr>)
             else done_with (s\<lparr>ms_order := ord\<lparr>shippingLines := shippingLines ord @
                    [\<lparr>listPrice = 0, listPriceIncludesTax = pricesIncludeTax ctx, taxLines = [], adjustments = [],
                      shipping_line_id = ms_nextId s, shippingMethodId = Some (method_id m)\<rparr>]\<rparr>, ms_nextId := Suc (ms_nextId s)\<rparr>))"

text \<open>\<^verbatim>\<open>splice(shippingMethodIds.length - 1)\<close>: with no method the start is -1, the last line.\<close>

definition drop_unused_shipping :: "ID list \<Rightarrow> shipping_line list \<Rightarrow> shipping_line list" where
  "drop_unused_shipping shippingMethodIds ls =
     (if length shippingMethodIds < length ls
      then (if shippingMethodIds = [] then butlast ls else take (length shippingMethodIds - 1) ls) else ls)"

definition assign_shipping_line :: "modify_config \<Rightarrow> shipping_line \<Rightarrow> order \<Rightarrow> order" where
  "assign_shipping_line cfg sl ord =
     (let ids = map line_id (mc_assign cfg sl ord)
      in ord\<lparr>order_lines := map (\<lambda>l. if line_id l \<in> set ids then l\<lparr>shippingLineId := Some (shipping_line_id sl)\<rparr> else l) (order_lines ord)\<rparr>)"

definition setShippingMethods :: "modify_config \<Rightarrow> request_context \<Rightarrow> ID list \<Rightarrow> modify_state \<Rightarrow> modify_state modified" where
  "setShippingMethods cfg ctx shippingMethodIds s =
     bind_modified (fold_modified (set_shipping_method cfg ctx) (enumerate 0 shippingMethodIds) s) (\<lambda>s1.
       let ord = (ms_order s1)\<lparr>shippingLines := drop_unused_shipping shippingMethodIds (shippingLines (ms_order s1))\<rparr>
       in done_with (s1\<lparr>ms_order := fold (assign_shipping_line cfg) (shippingLines ord) ord\<rparr>))"

section \<open>Prices and refunds\<close>

text \<open>The list price of a changed line is read again; its initial price and the change strategy are left alone.\<close>

definition refresh_line_price :: "repricing_config \<Rightarrow> request_context \<Rightarrow> ID option \<Rightarrow> stock_db \<Rightarrow> ID \<Rightarrow> order \<Rightarrow> order result" where
  "refresh_line_price cfg ctx zone db i ord =
     (case find_line i ord of
        None \<Rightarrow> Inr ord
      | Some l \<Rightarrow> bind_result (unit_price cfg ctx zone db ord l) (\<lambda>(price, includesTax).
          Inr (set_line (l\<lparr>listPrice := price, listPriceIncludesTax := includesTax\<rparr>) ord)))"

definition reprice_modified :: "modify_config \<Rightarrow> request_context \<Rightarrow> modify_input \<Rightarrow> modify_state \<Rightarrow> order result" where
  "reprice_modified cfg ctx input s =
     (let ord = ms_order s; items = mc_items cfg; rep = ic_repricing items; cache = ic_cache items;
          ids = map line_id (filter (\<lambda>l. line_id l \<in> set (ms_updated s)) (order_lines ord))
      in bind_result (fold_result (refresh_line_price rep ctx (cache_activeTaxZone_PPA cache) (ms_stock s)) ids ord) (\<lambda>ord1.
           applyPriceAdjustments (rc_calculator rep) ctx (cache_activeTaxZone cache) ord1
             (getActivePromotionsInChannel ctx (rc_promotionRows rep)) ids
             \<lparr>opt_recalculateShipping = mi_recalculateShipping input, opt_recalculateShippingPromotions = None\<rparr>))"

text \<open>The first of the largest refunds asked for is the primary one.\<close>

definition primary_index :: "refund_order_input list \<Rightarrow> nat" where
  "primary_index rs = fst (hd (sort_key (\<lambda>(i, r). - nullish (ri_amount r) 0) (enumerate 0 rs)))"

definition calculateRefundAdjustment :: "order \<Rightarrow> int \<Rightarrow> refund_order_input \<Rightarrow> int result" where
  "calculateRefundAdjustment ord delta r =
     bind_result (map_result (\<lambda>i. case find_line (orderLineId i) ord of
            None \<Rightarrow> Inl (EntityNotFoundError ''OrderLine'' (orderLineId i))
          | Some l \<Rightarrow> Inr (proratedUnitPriceWithTax l * input_quantity i)) (ri_lines r)) (\<lambda>amounts.
       let calculatedDelta = sum_list amounts + nullish (ri_shipping r) 0 + nullish (ri_adjustment r) 0
       in Inr (if \<bar>delta\<bar> \<noteq> calculatedDelta then \<bar>delta\<bar> - calculatedDelta else 0))"

definition adjust_primary :: "order \<Rightarrow> int \<Rightarrow> int \<Rightarrow> refund_order_input list \<Rightarrow> refund_order_input list result" where
  "adjust_primary ord delta shippingDelta rs =
     (let i = primary_index rs; r = rs ! i;
          r1 = (if shippingDelta < 0 then r\<lparr>ri_shipping := Some (- shippingDelta)\<rparr> else r)
      in case ri_adjustment r1 of
           None \<Rightarrow> Inr (rs[i := r1])
         | Some a \<Rightarrow> bind_result (calculateRefundAdjustment ord delta r1) (\<lambda>n. Inr (rs[i := r1\<lparr>ri_adjustment := Some (a + n)\<rparr>])))"

fun refund_message :: "refund_error \<Rightarrow> string" where
  "refund_message (RefundAmountError n) = ''REFUND_AMOUNT_ERROR''"
| "refund_message (RefundDestinationError d) = ''REFUND_DESTINATION_ERROR''"
| "refund_message (RefundStateTransitionError e a b) = ''REFUND_STATE_TRANSITION_ERROR''"
| "refund_message (RefundIncompleteError rs i e) = ''REFUND_INCOMPLETE_ERROR''"

text \<open>A refund whose payment is not on the order is passed over.\<close>

definition refund_one ::
  "payment_config \<Rightarrow> ID \<Rightarrow> refund_order_input \<Rightarrow> order \<times> ID \<times> ID option \<Rightarrow> (order \<times> ID \<times> ID option) result" where
  "refund_one cfg primaryPaymentId r state =
     (case state of (ord, newId, refundId) \<Rightarrow>
        case find_payment (ri_paymentId r) ord of
          None \<Rightarrow> Inr state
        | Some p \<Rightarrow>
            bind_result (createRefund cfg r ord (payment_id p) newId) (\<lambda>(outcome, ord').
              case outcome of
                RefundRefused e \<Rightarrow> Inl (InternalServerError (refund_message e))
              | RefundCreated x \<Rightarrow> Inr (ord', newId + Suc (length (payments ord)),
                  if payment_id p = primaryPaymentId then Some (refund_id x) else refundId)))"

definition issue_refunds ::
  "payment_config \<Rightarrow> order \<Rightarrow> int \<Rightarrow> int \<Rightarrow> ID \<Rightarrow> refund_order_input list \<Rightarrow> (order \<times> ID option) modified" where
  "issue_refunds cfg ord delta shippingDelta newId rs =
     (if \<not> delta < 0 then done_with (ord, None)
      else if rs = [] then refused RefundPaymentIdMissingError
      else bind_result (adjust_primary ord delta shippingDelta rs) (\<lambda>rs'.
           bind_result (fold_result (refund_one cfg (ri_paymentId (rs' ! primary_index rs))) rs' (ord, newId, None)) (\<lambda>(ord', newId', refundId).
             done_with (ord', refundId))))"

section \<open>The modification\<close>

definition start_modification :: "modify_input \<Rightarrow> order \<Rightarrow> stock_db \<Rightarrow> ID \<Rightarrow> modify_state" where
  "start_modification input ord db newId =
     \<lparr>ms_order = ord, ms_stock = lockStockLevelsForModification ord input db, ms_count = summate (order_lines ord) quantity,
      ms_updated = [], ms_nextId = newId, ms_lines = [], ms_surcharges = [], ms_refunds = map (refund_input_of input) (mi_refunds input)\<rparr>"

definition apply_changes :: "modify_config \<Rightarrow> request_context \<Rightarrow> order list \<Rightarrow> modify_input \<Rightarrow> modify_state \<Rightarrow> modify_state modified" where
  "apply_changes cfg ctx orders input s =
     bind_modified (fold_modified (modify_add_item cfg ctx) (mi_addItems input) s) (\<lambda>s1.
     bind_modified (fold_modified (modify_adjust_line cfg ctx) (mi_adjustOrderLines input) s1) (\<lambda>s2.
     bind_modified (fold_modified modify_surcharge (mi_surcharges input) s2) (\<lambda>s3.
     bind_modified (modify_addresses cfg input s3) (\<lambda>s4.
     bind_modified (modify_coupons cfg ctx orders (mi_couponCodes input) s4) (\<lambda>s5.
       case mi_shippingMethodIds input of None \<Rightarrow> done_with s5 | Some ids \<Rightarrow> setShippingMethods cfg ctx ids s5)))))"

definition modification_of :: "modify_input \<Rightarrow> modify_state \<Rightarrow> int \<Rightarrow> ID option \<Rightarrow> order_modification" where
  "modification_of input s delta refundId =
     \<lparr>modification_note = nullish (mi_note input) [], priceChange = delta, modification_payment = None, modification_refund = refundId,
      modification_lines = ms_lines s, modification_surcharges = ms_surcharges s\<rparr>"

definition save_lines :: "order \<Rightarrow> stock_db \<Rightarrow> stock_db" where
  "save_lines ord db = fold (save_line_row ord) (order_lines ord) db"

text \<open>The order comes back with the modification among its own, as the order service reads it after.\<close>

definition modifyOrder ::
  "modify_config \<Rightarrow> request_context \<Rightarrow> order list \<Rightarrow> modify_input \<Rightarrow> order \<Rightarrow> stock_db \<Rightarrow> ID \<Rightarrow>
     (order \<times> order_modification \<times> stock_db) modified" where
  "modifyOrder cfg ctx orders input ord db newId =
     (if order_state ord \<noteq> Modifying then refused OrderModificationStateError
      else if noChangesSpecified input then refused NoChangesSpecifiedError
      else bind_modified (apply_changes cfg ctx orders input (start_modification input ord db newId)) (\<lambda>s.
           bind_result (reprice_modified cfg ctx input s) (\<lambda>priced.
             let db' = save_lines priced (ms_stock s); delta = totalWithTax priced - totalWithTax ord
             in if mi_dryRun input then done_with (priced, modification_of input s 0 None, db')
                else bind_modified (issue_refunds (mc_payments cfg) priced delta (shippingWithTax priced - shippingWithTax ord) (ms_nextId s) (ms_refunds s))
                       (\<lambda>(refunded, refundId).
                         let m = modification_of input s delta refundId
                         in done_with (refunded\<lparr>modifications := modifications refunded @ [m]\<rparr>, m, db')))))"

section \<open>Paying for a modification\<close>

datatype manual_payment_outcome = ManualPaymentStateError | ManualPaymentAdded order

definition outstanding_of :: "order \<Rightarrow> int" where
  "outstanding_of ord = summate (filter (\<lambda>m. \<not> isSettled m) (modifications ord)) priceChange"

definition settle_modifications :: "ID \<Rightarrow> order \<Rightarrow> order" where
  "settle_modifications paymentId ord =
     ord\<lparr>modifications := map (\<lambda>m. if isSettled m then m else m\<lparr>modification_payment := Some paymentId\<rparr>) (modifications ord)\<rparr>"

definition addManualPaymentToOrder ::
  "payment_config \<Rightarrow> (string \<Rightarrow> order \<Rightarrow> bool) \<Rightarrow> (order \<Rightarrow> order result) \<Rightarrow> ID \<Rightarrow> string \<Rightarrow> string option \<Rightarrow> order \<Rightarrow>
     manual_payment_outcome result" where
  "addManualPaymentToOrder cfg valid reprice newId method transactionId ord =
     (if order_state ord \<noteq> ArrangingAdditionalPayment \<and> order_state ord \<noteq> ArrangingPayment then Inr ManualPaymentStateError
      else bind_result (revalidateCouponCodesForOrder valid reprice ord) (\<lambda>(removed, fresh).
        let amount = totalWithTax fresh - totalCoveredByPayments fresh None
        in if filter (\<lambda>m. \<not> isSettled m) (modifications fresh) \<noteq> [] \<and> outstanding_of fresh \<noteq> amount
           then Inl (InternalServerError ''The outstanding order amount should equal the unsettled OrderModifications total'')
           else bind_result (createManualPayment cfg newId fresh amount method transactionId) (\<lambda>(p, paid).
                  Inr (ManualPaymentAdded (settle_modifications (payment_id p) paid)))))"

end
