(* ===== verification/ModificationSafety.thy ===== *)
theory ModificationSafety
  imports OrderModification ItemLimits RefundSafety StockLedger
begin

text \<open>
  What a modification of a placed order promises: the limit on the items of an order holds and no line
  becomes negative; a refund asked for without an amount gives back exactly what the order became
  cheaper by; no payment is refunded beyond its amount. The count of items that is compared with the limit
  grows faster than the items do.
\<close>

section \<open>The limit on items\<close>

definition within_count :: "modify_config \<Rightarrow> int \<Rightarrow> modify_state \<Rightarrow> bool" where
  "within_count cfg n s \<longleftrightarrow>
     distinct (map line_id (order_lines (ms_order s))) \<and>
     (\<forall>l \<in> set (order_lines (ms_order s)). 0 \<le> quantity l \<and> line_id l < ms_nextId s) \<and>
     totalQuantity (ms_order s) \<le> ms_count s \<and>
     totalQuantity (ms_order s) \<le> max n (orderItemsLimit (mc_items cfg))"

lemma update_quantity_order:
  "updateOrderLineQuantity strategy ctx l q ord db = Inr (ord', db') \<Longrightarrow> ord' = set_line (l\<lparr>quantity := q\<rparr>) ord"
  by (auto simp: updateOrderLineQuantity_def bind_result_Inr Let_def)

lemma reduce_line_order: "reduce_line cfg ctx l q ord db = Inr (ord', db') \<Longrightarrow> ord' = set_line (l\<lparr>quantity := q\<rparr>) ord"
  by (auto simp: reduce_line_def bind_result_Inr)

lemma change_line_order: "change_line cfg ctx l q ord db = Inr (ord', db') \<Longrightarrow> ord' = set_line (l\<lparr>quantity := q\<rparr>) ord"
  by (auto simp: change_line_def dest: update_quantity_order reduce_line_order split: if_splits)

lemma got_line:
  assumes "getOrCreateOrderLine cfg ctx newId ord i m db = Inr (l, ord', db')"
  shows "l \<in> set (order_lines ord') \<and> (ord' = ord \<or> ord' = ord\<lparr>order_lines := order_lines ord @ [l]\<rparr> \<and> quantity l = 0 \<and> line_id l = newId)"
  using assms by (auto simp: getOrCreateOrderLine_def getExistingOrderLine_def bind_result_Inr Let_def dest: find_Some_in split: option.splits)

lemma constrained_zero:
  "constrainQuantityToSaleable strategy ctx v q 0 0 b db = Inr (n, db') \<Longrightarrow> 0 \<le> q \<Longrightarrow> 0 \<le> n \<and> n \<le> max q 0"
  by (auto simp: constrainQuantityToSaleable_def bind_result_Inr Let_def)

lemma add_item_within:
  assumes s: "within_count cfg n s" and run: "modify_add_item cfg ctx row s = Inr (Inr t)"
  shows "within_count cfg n t"
proof -
  let ?items = "mc_items cfg" and ?q = "ai_quantity row"
  obtain l ord db v c db1 ord' db2 where
    g: "getOrCreateOrderLine ?items ctx (ms_nextId s) (ms_order s) (ai_productVariantId row) (Some (nullish (ai_customFields row) [])) (ms_stock s) = Inr (l, ord, db)"
    and c: "constrainQuantityToSaleable (ic_strategy ?items) ctx v ?q 0 0 True db = Inr (c, db1)"
    and u: "updateOrderLineQuantity (ic_strategy ?items) ctx l (quantity l + c) ord db1 = Inr (ord', db2)"
    and q: "0 \<le> ?q" "ms_count s + c \<le> orderItemsLimit ?items" "?q \<le> c"
    and t: "ms_order t = ord'" "ms_count t = ms_count s + c" "ms_nextId t = Suc (ms_nextId s)"
    using run by (auto simp: modify_add_item_def Let_def bind_result_Inr split: if_splits)
  note l = got_line [OF g] and ord' = update_quantity_order [OF u]
  have fresh: "ms_nextId s \<notin> line_id ` set (order_lines (ms_order s))" using s by (auto simp: within_count_def)
  have ord: "distinct (map line_id (order_lines ord)) \<and> totalQuantity ord = totalQuantity (ms_order s) \<and>
      (\<forall>x \<in> set (order_lines ord). 0 \<le> quantity x \<and> line_id x < Suc (ms_nextId s))"
    using l s fresh by (auto simp: within_count_def total_quantity_sum less_Suc_eq)
  have "totalQuantity ord' = totalQuantity (ms_order s) + c"
    unfolding ord' using total_set_line [of ord l] ord l by simp
  moreover have "0 \<le> quantity x \<and> line_id x < Suc (ms_nextId s)" if "x \<in> set (order_lines ord')" for x
    using that ord l q unfolding ord' by (auto dest!: set_line_cases)
  moreover have "distinct (map line_id (order_lines ord'))" using ord by (simp add: ord')
  ultimately show ?thesis using s q t by (auto simp: within_count_def)
qed

lemma adjusted_quantity_bounds: "adjusted_quantity cfg ctx q l db = Inr (c, db') \<Longrightarrow> c \<le> q"
  by (auto simp: adjusted_quantity_def bind_result_Inr dest!: constrained_zero split: if_splits)

lemma adjusted_line:
  assumes run: "modify_adjust_line cfg ctx row s = Inr (Inr t)" and ids: "distinct (map line_id (order_lines (ms_order s)))"
  obtains l where "find_line (al_orderLineId row) (ms_order s) = Some l" and "0 \<le> al_quantity row"
    and "ms_count s + al_quantity row - quantity l \<le> orderItemsLimit (mc_items cfg)"
    and "ms_count t = ms_count s + al_quantity row" and "ms_nextId t = ms_nextId s"
    and "map line_id (order_lines (ms_order t)) = map line_id (order_lines (ms_order s))"
    and "totalQuantity (ms_order t) = totalQuantity (ms_order s) - quantity l + al_quantity row"
    and "\<And>x. x \<in> set (order_lines (ms_order t)) \<Longrightarrow> line_id x = line_id l \<and> quantity x = al_quantity row \<or>
      line_id x = line_id l \<and> quantity x = quantity l \<or> x \<in> set (order_lines (ms_order s))"
proof -
  let ?items = "mc_items cfg" and ?q = "al_quantity row" and ?ord = "ms_order s"
  obtain l c db1 db ord' db' where l: "getOrderLineOrThrow ?ord (al_orderLineId row) = Inr l"
    and c: "adjusted_quantity cfg ctx ?q l (ms_stock s) = Inr (c, db1)"
    and u: "change_line cfg ctx (merge_customFields (al_customFields row) l) ?q
      (set_line (merge_customFields (al_customFields row) l) ?ord) db = Inr (ord', db')"
    and t: "ms_order t = ord'" "ms_count t = ms_count s + c" "ms_nextId t = ms_nextId s"
    and q: "0 \<le> ?q" "ms_count s + c - quantity l \<le> orderItemsLimit ?items" "?q \<le> c"
    using run unfolding modify_adjust_line_def Let_def bind_result_Inr
    by (clarsimp simp: bind_result_Inr not_less split: if_split_asm; blast)
  let ?l = "merge_customFields (al_customFields row) l"
  note ord' = change_line_order [OF u]
  have cq: "c = ?q" using adjusted_quantity_bounds [OF c] q(3) by simp
  have found: "find_line (al_orderLineId row) ?ord = Some l" using l by (auto simp: getOrderLineOrThrow_def split: option.splits)
  then have l: "l \<in> set (order_lines ?ord)" by (auto dest: find_line_Some)
  have frame: "line_id ?l = line_id l" "quantity ?l = quantity l" by simp_all
  have one: "totalQuantity (set_line ?l ?ord) = totalQuantity ?ord" using total_set_line [of ?ord l ?l] ids l frame by simp
  have mem: "?l \<in> set (order_lines (set_line ?l ?ord))" using l frame by (force simp: set_line_def)
  have "totalQuantity ord' = totalQuantity ?ord - quantity l + ?q"
    unfolding ord' using total_set_line [of "set_line ?l ?ord" ?l "?l\<lparr>quantity := ?q\<rparr>"] ids mem one frame by simp
  moreover have "line_id x = line_id l \<and> quantity x = ?q \<or> line_id x = line_id l \<and> quantity x = quantity l \<or> x \<in> set (order_lines ?ord)"
    if "x \<in> set (order_lines ord')" for x
    using that frame unfolding ord' by (auto dest!: set_line_cases)
  ultimately show ?thesis by (intro that [OF found q(1)]) (use q(2) t cq in \<open>simp_all add: ord'\<close>)
qed

lemma adjust_line_within:
  assumes s: "within_count cfg n s" and run: "modify_adjust_line cfg ctx row s = Inr (Inr t)"
  shows "within_count cfg n t"
proof -
  have "distinct (map line_id (order_lines (ms_order s)))" using s by (simp add: within_count_def)
  from adjusted_line [OF run this] obtain l where l: "find_line (al_orderLineId row) (ms_order s) = Some l"
    and q: "0 \<le> al_quantity row" "ms_count s + al_quantity row - quantity l \<le> orderItemsLimit (mc_items cfg)"
    and t: "ms_count t = ms_count s + al_quantity row" "ms_nextId t = ms_nextId s"
      "map line_id (order_lines (ms_order t)) = map line_id (order_lines (ms_order s))"
      "totalQuantity (ms_order t) = totalQuantity (ms_order s) - quantity l + al_quantity row"
    and lines: "\<And>x. x \<in> set (order_lines (ms_order t)) \<Longrightarrow> line_id x = line_id l \<and> quantity x = al_quantity row \<or>
      line_id x = line_id l \<and> quantity x = quantity l \<or> x \<in> set (order_lines (ms_order s))"
    by blast
  have l: "0 \<le> quantity l" "line_id l < ms_nextId s"
    using find_line_Some [OF l] s by (auto simp: within_count_def)
  have "\<forall>x \<in> set (order_lines (ms_order t)). 0 \<le> quantity x \<and> line_id x < ms_nextId s"
    using lines s l q(1) by (fastforce simp: within_count_def)
  then show ?thesis using s q t l by (simp add: within_count_def le_max_iff_disj)
qed

lemma fold_modified_members:
  assumes "fold_modified f xs s = Inr (Inr t)" and "P s"
    and "\<And>x s t. x \<in> set xs \<Longrightarrow> f x s = Inr (Inr t) \<Longrightarrow> P s \<Longrightarrow> P t"
  shows "P t"
  using assms by (induction xs arbitrary: s) (force simp: bind_modified_Inr)+

lemma fold_modified_invariant:
  assumes "fold_modified f xs s = Inr (Inr t)" and "P s" and "\<And>x s t. f x s = Inr (Inr t) \<Longrightarrow> P s \<Longrightarrow> P t"
  shows "P t"
  by (rule fold_modified_members [where P = P, OF assms(1,2)]) (rule assms(3))

text \<open>The later changes leave the items alone.\<close>

lemma within_count_same:
  assumes "within_count cfg n s" and "map ordered (order_lines (ms_order t)) = map ordered (order_lines (ms_order s))"
    and "ms_count t = ms_count s" and "ms_nextId s \<le> ms_nextId t"
  shows "within_count cfg n t"
proof -
  have f: "map f (map ordered (order_lines (ms_order t))) = map f (map ordered (order_lines (ms_order s)))" for f :: "ID \<times> ID \<times> int \<Rightarrow> 'x"
    by (simp only: assms(2))
  have ids: "map line_id (order_lines (ms_order t)) = map line_id (order_lines (ms_order s))"
    by (rule ids_of_ordered [OF assms(2)])
  have qs: "map quantity (order_lines (ms_order t)) = map quantity (order_lines (ms_order s))"
    using f [of "snd \<circ> snd"] by (simp add: ordered_def comp_def)
  have "set (map (\<lambda>l. (line_id l, quantity l)) (order_lines (ms_order t))) = set (map (\<lambda>l. (line_id l, quantity l)) (order_lines (ms_order s)))"
    using f [of "\<lambda>x. (fst x, snd (snd x))"] by (simp add: ordered_def comp_def)
  then have same: "(\<lambda>l. (line_id l, quantity l)) ` set (order_lines (ms_order t)) = (\<lambda>l. (line_id l, quantity l)) ` set (order_lines (ms_order s))"
    by simp
  have "0 \<le> quantity l \<and> line_id l < ms_nextId t" if l: "l \<in> set (order_lines (ms_order t))" for l
  proof -
    obtain l' where "l' \<in> set (order_lines (ms_order s))" "line_id l' = line_id l" "quantity l' = quantity l"
      using imageI [OF l, of "\<lambda>l. (line_id l, quantity l)"] unfolding same by auto
    then show ?thesis using assms(1,4) unfolding within_count_def by fastforce
  qed
  then show ?thesis using assms ids qs by (simp add: within_count_def total_quantity_sum)
qed

lemma surcharge_within: "modify_surcharge i s = Inr (Inr t) \<Longrightarrow> within_count cfg n s \<Longrightarrow> within_count cfg n t"
  by (rule within_count_same [where s = s]) (auto simp: modify_surcharge_def Let_def)

lemma addresses_within: "modify_addresses cfg' input s = Inr (Inr t) \<Longrightarrow> within_count cfg n s \<Longrightarrow> within_count cfg n t"
  by (rule within_count_same [where s = s]) (auto simp: modify_addresses_def bind_result_Inr split: option.splits)

lemma coupons_within: "modify_coupons cfg' ctx orders given s = Inr (Inr t) \<Longrightarrow> within_count cfg n s \<Longrightarrow> within_count cfg n t"
  by (rule within_count_same [where s = s]) (auto simp: modify_coupons_def bind_modified_Inr split: option.splits)

lemma shipping_method_within:
  "set_shipping_method cfg' ctx e s = Inr (Inr t) \<Longrightarrow> within_count cfg n s \<Longrightarrow> within_count cfg n t"
  by (rule within_count_same [where s = s]) (auto simp: set_shipping_method_def Let_def split: option.splits if_splits prod.splits)

lemma assigned_ordered:
  "map ordered (order_lines (fold (assign_shipping_line cfg) sls ord)) = map ordered (order_lines ord)"
  by (induction sls arbitrary: ord) (auto simp: assign_shipping_line_def ordered_def Let_def)

lemma shipping_within: "setShippingMethods cfg' ctx ids s = Inr (Inr t) \<Longrightarrow> within_count cfg n s \<Longrightarrow> within_count cfg n t"
proof -
  assume run: "setShippingMethods cfg' ctx ids s = Inr (Inr t)" and s: "within_count cfg n s"
  obtain s1 where s1: "fold_modified (set_shipping_method cfg' ctx) (enumerate 0 ids) s = Inr (Inr s1)"
    and t: "ms_count t = ms_count s1" "ms_nextId t = ms_nextId s1"
      "map ordered (order_lines (ms_order t)) = map ordered (order_lines (ms_order s1))"
    using run by (auto simp: setShippingMethods_def bind_modified_Inr Let_def assigned_ordered)
  have "within_count cfg n s1" by (rule fold_modified_invariant [OF s1, of "within_count cfg n", OF s]) (rule shipping_method_within)
  then show ?thesis by (rule within_count_same [where s = s1]) (simp_all add: t)
qed

section \<open>What a modification leaves alone until the refunds\<close>

text \<open>
  The payments, the state of the order and its earlier modifications; and of every refund asked for all
  but its lines and the size of its adjustment.
\<close>

definition refund_base :: "refund_order_input \<Rightarrow> ID \<times> int option \<times> bool \<times> bool" where
  "refund_base r = (ri_paymentId r, ri_amount r, ri_targets r = [], ri_adjustment r = None)"

definition modify_base ::
  "modify_state \<Rightarrow> payment list \<times> order_state \<times> order_modification list \<times> (ID \<times> int option \<times> bool \<times> bool) list" where
  "modify_base s = (payments (ms_order s), order_state (ms_order s), modifications (ms_order s), map refund_base (ms_refunds s))"

lemma set_line_base [simp]:
  "payments (set_line l ord) = payments ord" "order_state (set_line l ord) = order_state ord"
  "modifications (set_line l ord) = modifications ord"
  by (simp_all add: set_line_def)

lemma add_item_base: "modify_add_item cfg ctx row s = Inr (Inr t) \<Longrightarrow> modify_base t = modify_base s"
  by (auto simp: modify_add_item_def Let_def bind_result_Inr modify_base_def split: if_splits
      dest!: got_line update_quantity_order)

lemma adjust_line_base: "modify_adjust_line cfg ctx row s = Inr (Inr t) \<Longrightarrow> modify_base t = modify_base s"
  by (auto simp: modify_adjust_line_def Let_def bind_result_Inr modify_base_def refund_base_def comp_def split: if_splits
      dest!: change_line_order)

lemma surcharge_base: "modify_surcharge i s = Inr (Inr t) \<Longrightarrow> modify_base t = modify_base s"
  by (auto simp: modify_surcharge_def Let_def modify_base_def refund_base_def comp_def)

lemma addresses_base: "modify_addresses cfg input s = Inr (Inr t) \<Longrightarrow> modify_base t = modify_base s"
  by (auto simp: modify_addresses_def bind_result_Inr modify_base_def split: option.splits)

lemma coupons_base: "modify_coupons cfg ctx orders given s = Inr (Inr t) \<Longrightarrow> modify_base t = modify_base s"
  by (auto simp: modify_coupons_def bind_modified_Inr modify_base_def split: option.splits)

lemma shipping_method_base: "set_shipping_method cfg ctx e s = Inr (Inr t) \<Longrightarrow> modify_base t = modify_base s"
  by (auto simp: set_shipping_method_def Let_def modify_base_def split: option.splits if_splits prod.splits)

lemma assigned_base:
  "payments (fold (assign_shipping_line cfg) sls ord) = payments ord \<and>
   order_state (fold (assign_shipping_line cfg) sls ord) = order_state ord \<and>
   modifications (fold (assign_shipping_line cfg) sls ord) = modifications ord"
  by (induction sls arbitrary: ord) (auto simp: assign_shipping_line_def Let_def)

lemma shipping_base: "setShippingMethods cfg ctx ids s = Inr (Inr t) \<Longrightarrow> modify_base t = modify_base s"
  unfolding setShippingMethods_def bind_modified_Inr
proof (elim exE conjE)
  fix s1
  assume s1: "fold_modified (set_shipping_method cfg ctx) (enumerate 0 ids) s = Inr (Inr s1)"
  have "modify_base s1 = modify_base s"
    by (rule fold_modified_invariant [OF s1, of "\<lambda>x. modify_base x = modify_base s"]) (auto dest: shipping_method_base)
  moreover assume "(let ord = (ms_order s1)\<lparr>shippingLines := drop_unused_shipping ids (shippingLines (ms_order s1))\<rparr>
     in done_with (s1\<lparr>ms_order := fold (assign_shipping_line cfg) (shippingLines ord) ord\<rparr>)) = Inr (Inr t)"
  ultimately show ?thesis by (auto simp: Let_def modify_base_def assigned_base)
qed

lemma shipping_refunds: "setShippingMethods cfg ctx ids s = Inr (Inr t) \<Longrightarrow> ms_refunds t = ms_refunds s"
  unfolding setShippingMethods_def bind_modified_Inr
proof (elim exE conjE)
  fix s1
  assume s1: "fold_modified (set_shipping_method cfg ctx) (enumerate 0 ids) s = Inr (Inr s1)"
  have "ms_refunds s1 = ms_refunds s"
    by (rule fold_modified_invariant [OF s1, of "\<lambda>x. ms_refunds x = ms_refunds s"])
      (auto simp: set_shipping_method_def Let_def split: option.splits if_splits prod.splits)
  moreover assume "(let ord = (ms_order s1)\<lparr>shippingLines := drop_unused_shipping ids (shippingLines (ms_order s1))\<rparr>
     in done_with (s1\<lparr>ms_order := fold (assign_shipping_line cfg) (shippingLines ord) ord\<rparr>)) = Inr (Inr t)"
  ultimately show ?thesis by (auto simp: Let_def)
qed

lemma changes_invariant:
  assumes "apply_changes cfg ctx orders input s = Inr (Inr t)" and "P s"
    and "\<And>row s t. modify_add_item cfg ctx row s = Inr (Inr t) \<Longrightarrow> P s \<Longrightarrow> P t"
    and "\<And>row s t. row \<in> set (mi_adjustOrderLines input) \<Longrightarrow> modify_adjust_line cfg ctx row s = Inr (Inr t) \<Longrightarrow> P s \<Longrightarrow> P t"
    and "\<And>i s t. modify_surcharge i s = Inr (Inr t) \<Longrightarrow> P s \<Longrightarrow> P t"
    and "\<And>s t. modify_addresses cfg input s = Inr (Inr t) \<Longrightarrow> P s \<Longrightarrow> P t"
    and "\<And>given s t. modify_coupons cfg ctx orders given s = Inr (Inr t) \<Longrightarrow> P s \<Longrightarrow> P t"
    and "\<And>ids s t. setShippingMethods cfg ctx ids s = Inr (Inr t) \<Longrightarrow> P s \<Longrightarrow> P t"
  shows "P t"
proof -
  obtain s1 s2 s3 s4 s5 where
    s1: "fold_modified (modify_add_item cfg ctx) (mi_addItems input) s = Inr (Inr s1)" and
    s2: "fold_modified (modify_adjust_line cfg ctx) (mi_adjustOrderLines input) s1 = Inr (Inr s2)" and
    s3: "fold_modified modify_surcharge (mi_surcharges input) s2 = Inr (Inr s3)" and
    s4: "modify_addresses cfg input s3 = Inr (Inr s4)" and
    s5: "modify_coupons cfg ctx orders (mi_couponCodes input) s4 = Inr (Inr s5)" and
    t: "(case mi_shippingMethodIds input of None \<Rightarrow> Inr (Inr s5) | Some ids \<Rightarrow> setShippingMethods cfg ctx ids s5) = Inr (Inr t)"
    using assms(1) by (auto simp: apply_changes_def bind_modified_Inr)
  have "P s1" by (rule fold_modified_invariant [OF s1, of P, OF assms(2)]) (rule assms(3))
  then have "P s2" by (rule fold_modified_members [OF s2, of P]) (rule assms(4))
  then have "P s3" by (rule fold_modified_invariant [OF s3, of P]) (rule assms(5))
  then have "P s5" using assms(6) [OF s4] assms(7) [OF s5] by blast
  then show ?thesis using t assms(8) by (auto split: option.splits)
qed

lemma changes_within: "apply_changes cfg ctx orders input s = Inr (Inr t) \<Longrightarrow> within_count cfg n s \<Longrightarrow> within_count cfg n t"
  by (erule changes_invariant)
    (assumption | erule add_item_within adjust_line_within surcharge_within addresses_within coupons_within shipping_within, assumption)+

lemma changes_base: "apply_changes cfg ctx orders input s = Inr (Inr t) \<Longrightarrow> modify_base t = modify_base s"
  by (erule changes_invariant [where P = "\<lambda>x. modify_base x = modify_base s"])
    (simp_all add: add_item_base adjust_line_base surcharge_base addresses_base coupons_base shipping_base)

text \<open>The lines of a refund are those whose quantity the modification adjusts.\<close>

lemma refund_lines_adjusted:
  assumes "apply_changes cfg ctx orders input (start_modification input ord db newId) = Inr (Inr t)"
  shows "\<forall>r \<in> set (ms_refunds t). orderLineId ` set (ri_lines r) \<subseteq> al_orderLineId ` set (mi_adjustOrderLines input)"
proof (rule changes_invariant [OF assms, of "\<lambda>s. \<forall>r \<in> set (ms_refunds s). orderLineId ` set (ri_lines r) \<subseteq> al_orderLineId ` set (mi_adjustOrderLines input)"],
    goal_cases)
  case 1
  then show ?case by (simp add: start_modification_def refund_input_of_def)
next
  case (2 row s t)
  then have "ms_refunds t = ms_refunds s" by (auto simp: modify_add_item_def Let_def bind_result_Inr split: if_splits)
  with 2 show ?case by simp
next
  case (3 row s t)
  then show ?case
    by (fastforce simp: modify_adjust_line_def Let_def bind_result_Inr getOrderLineOrThrow_def split: if_splits option.splits dest: find_line_Some)
next
  case (4 i s t)
  then have "map ri_lines (ms_refunds t) = map ri_lines (ms_refunds s)" by (auto simp: modify_surcharge_def Let_def)
  then have "ri_lines ` set (ms_refunds t) = ri_lines ` set (ms_refunds s)" by (simp only: set_map [symmetric])
  with 4 show ?case by (metis imageI image_iff)
next
  case (5 s t)
  then have "ms_refunds t = ms_refunds s" by (auto simp: modify_addresses_def bind_result_Inr split: option.splits)
  with 5 show ?case by simp
next
  case (6 given s t)
  then have "ms_refunds t = ms_refunds s" by (auto simp: modify_coupons_def bind_modified_Inr split: option.splits)
  with 6 show ?case by simp
next
  case (7 ids s t)
  then have "ms_refunds t = ms_refunds s" by (rule_tac shipping_refunds)
  with 7 show ?case by simp
qed

section \<open>Repricing and refunding a modified order\<close>

lemma refresh_keeps:
  assumes "refresh_line_price cfg ctx z db i ord = Inr r" and "distinct (map line_id (order_lines ord))"
  shows "map ordered (order_lines r) = map ordered (order_lines ord) \<and> order_header r = order_header ord \<and> modifications r = modifications ord"
proof (cases "find_line i ord")
  case (Some l)
  note l = find_line_Some [OF Some]
  then obtain p q where r: "r = set_line (l\<lparr>listPrice := p, listPriceIncludesTax := q\<rparr>) ord"
    using assms(1) Some by (auto simp: refresh_line_price_def bind_result_Inr)
  have "x = l" if "x \<in> set (order_lines ord)" "line_id x = line_id l" for x
    using that l assms(2) by (metis distinct_map inj_onD)
  then have "map ordered (order_lines r) = map ordered (order_lines ord)"
    unfolding r by (intro set_line_ordered) (auto simp: ordered_def)
  then show ?thesis by (simp add: r)
qed (use assms in \<open>simp add: refresh_line_price_def\<close>)

lemma refreshed_keep:
  assumes "fold_result (refresh_line_price cfg ctx z db) is ord = Inr r" and "distinct (map line_id (order_lines ord))"
  shows "map ordered (order_lines r) = map ordered (order_lines ord) \<and> order_header r = order_header ord"
  using assms
proof (induction "is" arbitrary: ord)
  case (Cons i "is")
  then obtain d where d: "refresh_line_price cfg ctx z db i ord = Inr d"
    and rest: "fold_result (refresh_line_price cfg ctx z db) is d = Inr r"
    by (auto simp: bind_result_Inr)
  note kept = refresh_keeps [OF d Cons.prems(2)]
  then have "distinct (map line_id (order_lines d))" using Cons.prems(2) ids_of_ordered by metis
  from Cons.IH [OF rest this] kept show ?case by simp
qed simp

lemma repriced_keeps:
  assumes "reprice_modified cfg ctx input s = Inr r" and "distinct (map line_id (order_lines (ms_order s)))"
  shows "map ordered (order_lines r) = map ordered (order_lines (ms_order s)) \<and> payments r = payments (ms_order s) \<and>
    order_state r = order_state (ms_order s)"
proof -
  let ?items = "mc_items cfg" and ?rep = "ic_repricing (mc_items cfg)" and ?cache = "ic_cache (mc_items cfg)"
  obtain ids ord1 where
    fresh: "fold_result (refresh_line_price ?rep ctx (cache_activeTaxZone_PPA ?cache) (ms_stock s)) ids (ms_order s) = Inr ord1"
    and run: "applyPriceAdjustments (rc_calculator ?rep) ctx (cache_activeTaxZone ?cache) ord1
       (getActivePromotionsInChannel ctx (rc_promotionRows ?rep)) ids
       \<lparr>opt_recalculateShipping = mi_recalculateShipping input, opt_recalculateShippingPromotions = None\<rparr> = Inr r"
    using assms(1) by (auto simp: reprice_modified_def Let_def bind_result_Inr)
  have "map ordered (order_lines r) = map ordered (order_lines ord1)"
    by (rule same_line_ordered [OF kept_lines_of_result [OF run]])
  moreover have "order_header r = order_header ord1" using coupons_of_result [OF run] by (simp add: coupons_found_def)
  ultimately show ?thesis using refreshed_keep [OF fresh assms(2)] by (simp add: order_header_def)
qed

section \<open>The refunds of a modification\<close>

definition recorded_refunds :: "order \<Rightarrow> int" where
  "recorded_refunds ord = sum_list (map (\<lambda>p. sum_list (map refund_total (refunds p))) (payments ord))"

lemma save_refunds_frame [simp]:
  "order_lines (save_refunds rs ord) = order_lines ord" "totalWithTax (save_refunds rs ord) = totalWithTax ord"
  "map payment_id (payments (save_refunds rs ord)) = map payment_id (payments ord)"
  "order_state (save_refunds rs ord) = order_state ord" "modifications (save_refunds rs ord) = modifications ord"
  by (simp_all add: save_refunds_def totalWithTax_def comp_def)

lemma recorded_saved:
  assumes "distinct (map payment_id (payments ord))" and "\<forall>r \<in> set rs. refund_paymentId r \<in> payment_id ` set (payments ord)"
  shows "recorded_refunds (save_refunds rs ord) = recorded_refunds ord + sum_list (map refund_total rs)"
proof -
  have one: "sum_list (map (\<lambda>p. if payment_id p = i then x else 0) ps) = x"
    if "distinct (map payment_id ps)" "i \<in> payment_id ` set ps" for i and x :: int and ps :: "payment list"
    using that
  proof (induction ps)
    case (Cons p ps)
    have "sum_list (map (\<lambda>p. if payment_id p = i then x else 0) ps) = 0" if "i \<notin> payment_id ` set ps"
      using that by (induction ps) auto
    then show ?case using Cons by auto
  qed simp
  have "sum_list (map (\<lambda>p. sum_list (map refund_total (filter (\<lambda>r. refund_paymentId r = payment_id p) rs))) (payments ord)) =
      sum_list (map refund_total rs)"
    using assms(2)
  proof (induction rs)
    case (Cons r rs)
    have one_more: "(\<lambda>p. sum_list (map refund_total (filter (\<lambda>r. refund_paymentId r = payment_id p) (r # rs)))) =
        (\<lambda>p. (if payment_id p = refund_paymentId r then refund_total r else 0) +
        sum_list (map refund_total (filter (\<lambda>r. refund_paymentId r = payment_id p) rs)))"
      by auto
    show ?case unfolding one_more sum_list_addf using Cons one [OF assms(1), of "refund_paymentId r"] by simp
  qed simp
  then show ?thesis by (simp add: recorded_refunds_def save_refunds_def comp_def sum_list_addf)
qed

lemma sum_case_eq: "(case x of Inl e \<Rightarrow> f e | Inr y \<Rightarrow> g y) = v \<longleftrightarrow> (\<exists>e. x = Inl e \<and> f e = v) \<or> (\<exists>y. x = Inr y \<and> g y = v)"
  by (cases x) auto

lemma outcome_case_eq:
  "(case x of RefundCreated r \<Rightarrow> f r | RefundRefused e \<Rightarrow> g e) = v \<longleftrightarrow>
     (\<exists>r. x = RefundCreated r \<and> f r = v) \<or> (\<exists>e. x = RefundRefused e \<and> g e = v)"
  by (cases x) auto

lemma drawn_from:
  "draw_refund ps i strategy tot out used ts = Inr ts' \<Longrightarrow> tgt_payment ` set ts' \<subseteq> tgt_payment ` set ts \<union> set ps"
proof (induction ps i strategy tot out used ts rule: draw_refund.induct)
  case (1 ps i strategy tot out used ts)
  obtain p where p: "next_payment ps i used = Some p"
    using "1.prems" by (subst (asm) draw_refund.simps) (auto split: option.splits)
  show ?case
    using "1.prems" "1.IH" [OF p refl refl refl] next_payment_unused [OF p]
    by (subst (asm) draw_refund.simps) (force simp: p Let_def split: if_splits)
qed

lemma resolved_from:
  assumes "resolveRefundTargets cfg input ord selectedId tot = Inr (Inr ts)" and "ri_targets input = []"
  shows "tgt_payment ` set ts \<subseteq> set (payments ord)"
  using assms
  by (auto simp: resolveRefundTargets_def bind_result_Inr draw_on_payments_def Let_def sum_case_eq split: if_splits dest!: drawn_from)

lemma targets_created:
  assumes "refund_processes cfg = [defaultRefundProcess]"
    and "execute_targets cfg input lt u k i created ts = Inr (RefundCreated r, rs)"
  shows "map refund_key rs = map refund_key created @ map target_key ts"
  using assms
proof (induction cfg input lt u k i created ts rule: execute_targets.induct)
  case (1 cfg input lt u k i created)
  then show ?case by (auto split: list.splits)
next
  case (2 cfg input lt u k i created t ts)
  obtain r' where run: "executeRefundTarget cfg input lt (u + i) i t = Inr (r', None)"
    using 2(3) by (auto simp: Let_def split: sum.splits option.splits if_splits)
  then show ?case
    using 2(1) [OF run refl refl refl 2(2)] 2(3) executeRefundTarget_default(1) [OF 2(2) run] by simp
qed

lemma created_refund_recorded:
  assumes "refund_processes cfg = [defaultRefundProcess]" and "distinct (map payment_id (payments ord))"
    and "createRefund cfg input ord selectedId newId = Inr (RefundCreated r, ord')" and "ri_targets input = []"
  shows "recorded_refunds ord' = recorded_refunds ord + fst (getRefundAmount input (order_lines ord))"
proof -
  obtain tot lt ts rs where tot: "getRefundAmount input (order_lines ord) = (tot, lt)"
    and ts: "resolveRefundTargets cfg input ord selectedId tot = Inr (Inr ts)"
    and run: "execute_targets cfg input lt newId False 0 [] ts = Inr (RefundCreated r, rs)"
    and ord': "ord' = save_refunds rs ord"
    using assms(3,4) by (auto simp: createRefund_def bind_result_Inr Let_def not_Inl_iff split: prod.splits sum.splits if_splits)
  have keys: "map refund_key rs = map target_key ts" using targets_created [OF assms(1) run] by simp
  have "map snd (map refund_key rs) = map snd (map target_key ts)" "set (map fst (map refund_key rs)) = set (map fst (map target_key ts))"
    by (simp_all only: keys)
  then have "sum_list (map refund_total rs) = total_of ts" "refund_paymentId ` set rs = target_id ` set ts"
    by (simp_all add: comp_def total_of_def image_image)
  moreover have "total_of ts = tot" using resolved_targets_ok [OF ts assms(2)] assms(4) by simp
  moreover have "target_id ` set ts \<subseteq> payment_id ` set (payments ord)" using resolved_from [OF ts assms(4)] by auto
  ultimately have "recorded_refunds ord' = recorded_refunds ord + tot"
    unfolding ord' by (subst recorded_saved [OF assms(2)]) auto
  then show ?thesis by (simp add: tot)
qed

lemma createRefund_saves:
  "createRefund cfg input ord selectedId newId = Inr (outcome, ord') \<Longrightarrow> ord' = ord \<or> (\<exists>rs. ord' = save_refunds rs ord)"
  by (auto simp: createRefund_def bind_result_Inr Let_def sum_case_eq split: prod.splits if_splits)

text \<open>Whatever refunds are made, the payments stay covered and the order keeps its lines and total.\<close>

definition refunding :: "order \<Rightarrow> order \<Rightarrow> bool" where
  "refunding ord ord' \<longleftrightarrow>
     order_lines ord' = order_lines ord \<and> totalWithTax ord' = totalWithTax ord \<and> order_state ord' = order_state ord \<and>
     modifications ord' = modifications ord \<and> map payment_id (payments ord') = map payment_id (payments ord) \<and>
     (refunds_covered ord \<longrightarrow> refunds_covered ord')"

lemma refund_one_keeps:
  assumes "refund_processes cfg = [defaultRefundProcess]" and "distinct (map payment_id (payments ord))"
    and "refund_one cfg i r (ord, n, rid) = Inr (ord', n', rid')"
  shows "refunding ord ord'"
proof (cases "find_payment (ri_paymentId r) ord")
  case (Some p)
  then obtain x where run: "createRefund cfg r ord (payment_id p) n = Inr (RefundCreated x, ord')"
    using assms(3) by (auto simp: refund_one_def bind_result_Inr outcome_case_eq)
  show ?thesis
    using createRefund_saves [OF run] createRefund_covered [OF assms(1,2) run] by (auto simp: refunding_def)
qed (use assms(3) in \<open>simp add: refund_one_def refunding_def\<close>)

lemma refunds_keep:
  assumes "refund_processes cfg = [defaultRefundProcess]" and "distinct (map payment_id (payments ord))"
    and "fold_result (refund_one cfg i) rs (ord, n, rid) = Inr (ord', n', rid')"
  shows "refunding ord ord'"
  using assms(2,3)
proof (induction rs arbitrary: ord n rid)
  case (Cons r rs)
  then obtain d n1 rid1 where d: "refund_one cfg i r (ord, n, rid) = Inr (d, n1, rid1)"
    and rest: "fold_result (refund_one cfg i) rs (d, n1, rid1) = Inr (ord', n', rid')"
    by (auto simp: bind_result_Inr)
  note k = refund_one_keeps [OF assms(1) Cons.prems(1) d]
  then have "distinct (map payment_id (payments d))" using Cons.prems(1) by (simp add: refunding_def)
  from Cons.IH [OF this rest] k show ?case by (auto simp: refunding_def)
qed (simp add: refunding_def)

section \<open>The amount of a refund\<close>

text \<open>With all its lines placed, a refund without an amount is what the order became cheaper by.\<close>

lemma legacy_amount:
  assumes "map_result (\<lambda>i. case find_line (orderLineId i) ord of
            None \<Rightarrow> Inl (EntityNotFoundError ''OrderLine'' (orderLineId i))
          | Some l \<Rightarrow> Inr (proratedUnitPriceWithTax l * input_quantity i)) ls = Inr amounts"
    and "\<forall>l \<in> set (order_lines ord). line_id l \<in> orderLineId ` set ls \<longrightarrow> 0 < orderPlacedQuantity l"
  shows "foldl (\<lambda>tot line.
           case List.find (\<lambda>l. idsAreEqual (Some (line_id l)) (Some (orderLineId line))) (order_lines ord) of
             None \<Rightarrow> tot
           | Some orderLine \<Rightarrow>
               if 0 < orderPlacedQuantity orderLine
               then tot + input_quantity line * proratedUnitPriceWithTax orderLine else tot) n ls = n + sum_list amounts"
  using assms
proof (induction ls arbitrary: n amounts)
  case (Cons i ls)
  obtain l where l: "find_line (orderLineId i) ord = Some l"
    using Cons.prems(1) by (auto simp: bind_result_Inr split: option.splits)
  have "0 < orderPlacedQuantity l" using find_line_Some [OF l] Cons.prems(2) by auto
  then show ?case using Cons l by (auto simp: bind_result_Inr find_line_def algebra_simps)
qed simp

lemma adjusted_refund_amount:
  assumes "adjust_primary ord delta sd [r] = Inr rs" and "ri_targets r = []" and "ri_adjustment r \<noteq> None"
    and "ri_amount r = None \<or> ri_amount r = Some 0"
    and "\<forall>l \<in> set (order_lines ord). line_id l \<in> orderLineId ` set (ri_lines r) \<longrightarrow> 0 < orderPlacedQuantity l"
  shows "\<exists>r'. rs = [r'] \<and> ri_targets r' = [] \<and> ri_paymentId r' = ri_paymentId r \<and>
    fst (getRefundAmount r' (order_lines ord)) = \<bar>delta\<bar>"
proof -
  define r1 where "r1 = (if sd < 0 then r\<lparr>ri_shipping := Some (- sd)\<rparr> else r)"
  have r1: "ri_lines r1 = ri_lines r" "ri_amount r1 = ri_amount r" "ri_targets r1 = []" "ri_paymentId r1 = ri_paymentId r"
    "ri_adjustment r1 = ri_adjustment r" using assms(2) by (simp_all add: r1_def)
  obtain a where a: "ri_adjustment r1 = Some a" using assms(3) r1 by auto
  have "primary_index [r] = 0" by (simp add: primary_index_def)
  then have "bind_result (calculateRefundAdjustment ord delta r1) (\<lambda>n. Inr [r1\<lparr>ri_adjustment := Some (a + n)\<rparr>]) = Inr rs"
    using a assms(1) by (simp only: adjust_primary_def Let_def r1_def nth_Cons_0 list_update_code option.case)
  then obtain n where n: "calculateRefundAdjustment ord delta r1 = Inr n" and rs: "rs = [r1\<lparr>ri_adjustment := Some (a + n)\<rparr>]"
    unfolding bind_result_Inr by blast
  then obtain amounts where amounts: "map_result (\<lambda>i. case find_line (orderLineId i) ord of
        None \<Rightarrow> Inl (EntityNotFoundError ''OrderLine'' (orderLineId i))
      | Some l \<Rightarrow> Inr (proratedUnitPriceWithTax l * input_quantity i)) (ri_lines r1) = Inr amounts"
    and sum: "sum_list amounts + nullish (ri_shipping r1) 0 + a + n = \<bar>delta\<bar>"
    by (auto simp: calculateRefundAdjustment_def bind_result_Inr Let_def a nullish_def split: if_splits)
  have placed: "\<forall>l \<in> set (order_lines ord). line_id l \<in> orderLineId ` set (ri_lines r1) \<longrightarrow> 0 < orderPlacedQuantity l"
    using assms(5) r1 by simp
  have "fst (getRefundAmount (r1\<lparr>ri_adjustment := Some (a + n)\<rparr>) (order_lines ord)) = \<bar>delta\<bar>"
    using assms(4) sum by (auto simp: getRefundAmount_def legacy_refund_amount_def legacy_amount [OF amounts placed, simplified r1 idsAreEqual_Some] r1 Let_def nullish_def)
  then show ?thesis using r1 rs by simp
qed

lemma issued_keep:
  assumes "refund_processes cfg = [defaultRefundProcess]" and "distinct (map payment_id (payments ord))"
    and "issue_refunds cfg ord delta sd n rs = Inr (Inr (ord', rid))"
  shows "refunding ord ord'"
  using assms(3) refunds_keep [OF assms(1,2)]
  by (auto simp: issue_refunds_def bind_result_Inr refunding_def split: if_splits)

lemma issued_exact:
  assumes "refund_processes cfg = [defaultRefundProcess]" and "distinct (map payment_id (payments ord))"
    and "issue_refunds cfg ord delta sd n [r] = Inr (Inr (ord', rid))"
    and "ri_targets r = []" and "ri_adjustment r \<noteq> None" and "ri_amount r = None \<or> ri_amount r = Some 0"
    and "ri_paymentId r \<in> payment_id ` set (payments ord)"
    and "\<forall>l \<in> set (order_lines ord). line_id l \<in> orderLineId ` set (ri_lines r) \<longrightarrow> 0 < orderPlacedQuantity l"
  shows "recorded_refunds ord' = recorded_refunds ord + max 0 (- delta)"
proof (cases "delta < 0")
  case True
  then obtain rs i where rs: "adjust_primary ord delta sd [r] = Inr rs"
    and run: "\<exists>n'. fold_result (refund_one cfg i) rs (ord, n, None) = Inr (ord', n', rid)"
    using assms(3) by (auto simp: issue_refunds_def bind_result_Inr)
  from adjusted_refund_amount [OF rs assms(4-6,8)] obtain r' where
    r': "rs = [r']" "ri_targets r' = []" "ri_paymentId r' = ri_paymentId r" "fst (getRefundAmount r' (order_lines ord)) = \<bar>delta\<bar>"
    by blast
  obtain p where "find_payment (ri_paymentId r') ord = Some p"
    using assms(7) r'(3) by (cases "find_payment (ri_paymentId r') ord") (auto simp: find_payment_def find_None_iff)
  then obtain x where "createRefund cfg r' ord (payment_id p) n = Inr (RefundCreated x, ord')"
    using run r'(1) by (auto simp: refund_one_def bind_result_Inr outcome_case_eq)
  from created_refund_recorded [OF assms(1,2) this r'(2)] show ?thesis using r'(4) True by simp
qed (use assms(3) in \<open>simp add: issue_refunds_def\<close>)

section \<open>Modifying an order\<close>

lemma modified_Inr:
  assumes "modifyOrder cfg ctx orders input ord db newId = Inr (Inr (ord', m, db'))"
    and "distinct (map line_id (order_lines ord))" and "list_all (\<lambda>l. 0 \<le> quantity l \<and> line_id l < newId) (order_lines ord)"
  obtains s priced where "apply_changes cfg ctx orders input (start_modification input ord db newId) = Inr (Inr s)"
    and "within_count cfg (totalQuantity ord) s" and "map ordered (order_lines priced) = map ordered (order_lines (ms_order s))"
    and "payments priced = payments ord" and "order_state priced = Modifying" and "order_state ord = Modifying"
    and "map refund_base (ms_refunds s) = map (refund_base \<circ> refund_input_of input) (mi_refunds input)"
    and "mi_dryRun input \<Longrightarrow> ord' = priced"
    and "\<not> mi_dryRun input \<Longrightarrow> \<exists>d rid. issue_refunds (mc_payments cfg) priced (totalWithTax priced - totalWithTax ord)
       (shippingWithTax priced - shippingWithTax ord) (ms_nextId s) (ms_refunds s) = Inr (Inr (d, rid)) \<and>
     ord' = d\<lparr>modifications := modifications d @ [m]\<rparr> \<and> priceChange m = totalWithTax priced - totalWithTax ord"
proof -
  let ?start = "start_modification input ord db newId"
  let ?finish = "\<lambda>s priced. let db' = save_lines priced (ms_stock s); delta = totalWithTax priced - totalWithTax ord
     in if mi_dryRun input then done_with (priced, modification_of input s 0 None, db')
        else bind_modified (issue_refunds (mc_payments cfg) priced delta (shippingWithTax priced - shippingWithTax ord) (ms_nextId s) (ms_refunds s))
               (\<lambda>(refunded, refundId).
                 let m = modification_of input s delta refundId
                 in done_with (refunded\<lparr>modifications := modifications refunded @ [m]\<rparr>, m, db'))"
  have state: "order_state ord = Modifying" using assms(1) by (simp add: modifyOrder_def split: if_splits)
  moreover have "\<not> noChangesSpecified input" using assms(1) state by (simp add: modifyOrder_def split: if_splits)
  ultimately have "bind_modified (apply_changes cfg ctx orders input ?start) (\<lambda>s. bind_result (reprice_modified cfg ctx input s) (?finish s)) =
      Inr (Inr (ord', m, db'))"
    using assms(1) unfolding modifyOrder_def by (simp only: simp_thms if_True if_False)
  then obtain s priced where s: "apply_changes cfg ctx orders input ?start = Inr (Inr s)"
    and priced: "reprice_modified cfg ctx input s = Inr priced" and fin: "?finish s priced = Inr (Inr (ord', m, db'))"
    unfolding bind_modified_Inr bind_result_Inr by blast
  have dry: "ord' = priced" if "mi_dryRun input" using fin that by (simp add: Let_def)
  have wet: "\<exists>d rid. issue_refunds (mc_payments cfg) priced (totalWithTax priced - totalWithTax ord)
       (shippingWithTax priced - shippingWithTax ord) (ms_nextId s) (ms_refunds s) = Inr (Inr (d, rid)) \<and>
     ord' = d\<lparr>modifications := modifications d @ [m]\<rparr> \<and> priceChange m = totalWithTax priced - totalWithTax ord"
    if "\<not> mi_dryRun input"
    using fin that by (auto simp: Let_def bind_modified_Inr modification_of_def)
  have start: "within_count cfg (totalQuantity ord) ?start"
    using assms(2,3) by (auto simp: within_count_def start_modification_def totalQuantity_def list_all_iff)
  have within: "within_count cfg (totalQuantity ord) s" by (rule changes_within [OF s start])
  then have "distinct (map line_id (order_lines (ms_order s)))" by (simp add: within_count_def)
  from repriced_keeps [OF priced this] changes_base [OF s] state
  show ?thesis by (intro that [OF s within]) (use dry wet in \<open>auto simp: modify_base_def start_modification_def\<close>)
qed

lemma within_of_ordered:
  assumes "within_count cfg n s" and "map ordered ls = map ordered (order_lines (ms_order s))"
  shows "sum_list (map quantity ls) \<le> max n (orderItemsLimit (mc_items cfg)) \<and> list_all (\<lambda>l. 0 \<le> quantity l) ls"
proof -
  have "map (snd \<circ> snd) (map ordered ls) = map (snd \<circ> snd) (map ordered (order_lines (ms_order s)))"
    by (simp only: assms(2))
  then have qs: "map quantity ls = map quantity (order_lines (ms_order s))" by (simp add: ordered_def comp_def)
  then have "set (map quantity ls) = set (map quantity (order_lines (ms_order s)))" by (simp only:)
  then have "\<forall>q \<in> set (map quantity ls). 0 \<le> q" using assms(1) by (auto simp: within_count_def)
  then have "\<forall>l \<in> set ls. 0 \<le> quantity l" by simp
  then show ?thesis using assms(1) by (simp add: within_count_def qs total_quantity_sum list_all_iff)
qed

text \<open>
  C8: Modifying a placed order respects the limit on its items. When the call succeeds, a dry run or
  not and whatever it changes, the order was being modified, no line has become negative, and the
  order holds no more items than its limit, or than it held before.
\<close>

theorem modification_limits:
  assumes "refund_processes (mc_payments cfg) = [defaultRefundProcess]"
    and "modifyOrder cfg ctx orders input ord db newId = Inr (Inr (ord', m, db'))"
    and "distinct (map line_id (order_lines ord))" and "list_all (\<lambda>l. 0 \<le> quantity l \<and> line_id l < newId) (order_lines ord)"
    and "distinct (map payment_id (payments ord))"
  shows "order_state ord = Modifying \<and> order_state ord' = Modifying \<and> list_all (\<lambda>l. 0 \<le> quantity l) (order_lines ord') \<and>
    totalQuantity ord' \<le> max (totalQuantity ord) (orderItemsLimit (mc_items cfg))"
proof -
  obtain s priced where s: "within_count cfg (totalQuantity ord) s" "map ordered (order_lines priced) = map ordered (order_lines (ms_order s))"
    "payments priced = payments ord" "order_state priced = Modifying" "order_state ord = Modifying"
    and dry: "mi_dryRun input \<Longrightarrow> ord' = priced"
    and wet: "\<not> mi_dryRun input \<Longrightarrow> \<exists>d rid. issue_refunds (mc_payments cfg) priced (totalWithTax priced - totalWithTax ord)
       (shippingWithTax priced - shippingWithTax ord) (ms_nextId s) (ms_refunds s) = Inr (Inr (d, rid)) \<and>
     ord' = d\<lparr>modifications := modifications d @ [m]\<rparr> \<and> priceChange m = totalWithTax priced - totalWithTax ord"
    by (rule modified_Inr [OF assms(2-4)]) (erule that; assumption)
  have ids: "distinct (map payment_id (payments priced))" using assms(5) s(3) by simp
  have same: "order_lines ord' = order_lines priced \<and> order_state ord' = order_state priced"
    by (cases "mi_dryRun input") (use dry wet issued_keep [OF assms(1) ids] in \<open>fastforce simp: refunding_def\<close>)+
  show ?thesis using within_of_ordered [OF s(1,2)] s(4,5) same by (simp add: total_quantity_sum)
qed

text \<open>
  C7: What a modification refunds is what it takes off the price. With one refund asked for, without
  an amount, on a payment of the order, and the lines it takes units off placed before, a
  modification that is not a dry run records its change of the total with tax, refunds exactly that
  when the order becomes cheaper and nothing when it does not; and no payment is refunded beyond its
  amount if none was.
\<close>

theorem modification_refund_exact:
  assumes "refund_processes (mc_payments cfg) = [defaultRefundProcess]"
    and "modifyOrder cfg ctx orders input ord db newId = Inr (Inr (ord', m, db'))" and "\<not> mi_dryRun input"
    and "distinct (map line_id (order_lines ord))" and "list_all (\<lambda>l. 0 \<le> quantity l \<and> line_id l < newId) (order_lines ord)"
    and "distinct (map payment_id (payments ord))"
    and "mi_refunds input = [r]" and "rf_amount r = None \<or> rf_amount r = Some 0" and "rf_paymentId r \<in> payment_id ` set (payments ord)"
    and "list_all (\<lambda>l. line_id l \<in> al_orderLineId ` set (mi_adjustOrderLines input) \<longrightarrow> 0 < orderPlacedQuantity l) (order_lines ord')"
    and "list_all (\<lambda>p. getPaymentRefundTotal p \<le> payment_amount p) (payments ord)"
  shows "priceChange m = totalWithTax ord' - totalWithTax ord \<and>
    recorded_refunds ord' = recorded_refunds ord + max 0 (totalWithTax ord - totalWithTax ord') \<and>
    list_all (\<lambda>p. getPaymentRefundTotal p \<le> payment_amount p) (payments ord')"
proof -
  obtain s priced where run: "apply_changes cfg ctx orders input (start_modification input ord db newId) = Inr (Inr s)"
    and s: "payments priced = payments ord"
      "map refund_base (ms_refunds s) = map (refund_base \<circ> refund_input_of input) (mi_refunds input)"
    and wet: "\<not> mi_dryRun input \<Longrightarrow> \<exists>d rid. issue_refunds (mc_payments cfg) priced (totalWithTax priced - totalWithTax ord)
       (shippingWithTax priced - shippingWithTax ord) (ms_nextId s) (ms_refunds s) = Inr (Inr (d, rid)) \<and>
     ord' = d\<lparr>modifications := modifications d @ [m]\<rparr> \<and> priceChange m = totalWithTax priced - totalWithTax ord"
    by (rule modified_Inr [OF assms(2,4,5)]) (erule that; assumption)
  then obtain d rid where d: "issue_refunds (mc_payments cfg) priced (totalWithTax priced - totalWithTax ord)
       (shippingWithTax priced - shippingWithTax ord) (ms_nextId s) (ms_refunds s) = Inr (Inr (d, rid))"
    and ord': "ord' = d\<lparr>modifications := modifications d @ [m]\<rparr>" and m: "priceChange m = totalWithTax priced - totalWithTax ord"
    using assms(3) by blast
  obtain x where x: "ms_refunds s = [x]" "refund_base x = refund_base (refund_input_of input r)"
    using s(2) assms(7) by (cases "ms_refunds s") auto
  have base: "ri_targets x = []" "ri_adjustment x \<noteq> None" "ri_amount x = None \<or> ri_amount x = Some 0" "ri_paymentId x = rf_paymentId r"
    using x(2) assms(8) by (auto simp: refund_base_def refund_input_of_def)
  have lines: "orderLineId ` set (ri_lines x) \<subseteq> al_orderLineId ` set (mi_adjustOrderLines input)"
    using refund_lines_adjusted [OF run] x(1) by simp
  have ids: "distinct (map payment_id (payments priced))" using assms(6) s(1) by simp
  note kept = issued_keep [OF assms(1) ids d]
  have placed: "\<forall>l \<in> set (order_lines priced). line_id l \<in> orderLineId ` set (ri_lines x) \<longrightarrow> 0 < orderPlacedQuantity l"
    using assms(10) kept lines by (auto simp: ord' refunding_def list_all_iff)
  have "recorded_refunds d = recorded_refunds priced + max 0 (- (totalWithTax priced - totalWithTax ord))"
    by (rule issued_exact [OF assms(1) ids d [unfolded x(1)] base(1-3)]) (use assms(9) s(1) base(4) placed in simp_all)
  moreover have "recorded_refunds ord' = recorded_refunds d" "recorded_refunds priced = recorded_refunds ord"
    by (simp_all add: recorded_refunds_def ord' s(1))
  moreover have total: "totalWithTax ord' = totalWithTax priced" using kept by (simp add: ord' refunding_def totalWithTax_def)
  moreover have "refunds_covered d" using kept assms(11) s(1) by (simp add: refunding_def refunds_covered_def)
  ultimately show ?thesis using m by (simp add: ord' refunds_covered_def)
qed

text \<open>
  C38: The running count of a modification drifts. Adjusting a line changes the number of items by the
  difference of its quantities, but the count that is compared with the limit grows by the whole new
  quantity, so it runs ahead by what the line held before: lines adjusted later are refused
  although the order would stay within its limit.
\<close>

theorem adjusted_count_drifts:
  assumes "modify_adjust_line cfg ctx row s = Inr (Inr t)" and "distinct (map line_id (order_lines (ms_order s)))"
  shows "\<exists>l. find_line (al_orderLineId row) (ms_order s) = Some l \<and>
    totalQuantity (ms_order t) = totalQuantity (ms_order s) + al_quantity row - quantity l \<and>
    ms_count t - totalQuantity (ms_order t) = ms_count s - totalQuantity (ms_order s) + quantity l"
  by (rule adjusted_line [OF assms]) auto

end
