(* ===== verification/ModificationUses.thy ===== *)
theory ModificationUses
  imports ModificationSafety
begin

text \<open>
  The properties of modifications on a sample: a placed order with three units of a variant on two lines,
  paid in full. One unit is taken off and refunded; and under a limit of four items the lines are
  adjusted to two units each, which the limit allows and the count refuses.
\<close>

definition placed_line :: "ID \<Rightarrow> int \<Rightarrow> int \<Rightarrow> order_line" where
  "placed_line i placed n = \<lparr>listPrice = 250, listPriceIncludesTax = False, taxLines = [\<lparr>tl_description = ''standard'', tl_taxRate = 20\<rparr>],
     adjustments = [], line_id = i, quantity = n, orderPlacedQuantity = placed, initialListPrice = Some 250, productVariantId = 5,
     taxCategoryId = 1, shippingLineId = None, sellerChannelId = None, line_customFields = None\<rparr>"

definition sample_placed :: order where
  "sample_placed = (sample_order [placed_line 3 2 2, placed_line 4 1 1])\<lparr>order_state := Modifying, active := False,
     orderPlacedAt := Some 900, subTotal := 750, subTotalWithTax := 900, payments := [sample_payment 1 900 Payment_Settled]\<rparr>"

definition sample_placed_stock :: stock_db where
  "sample_placed_stock = ItemLimits.sample_stock\<lparr>placed_lines := [(1, placed_line 3 2 2), (1, placed_line 4 1 1)]\<rparr>"

definition sample_modify_config :: "int \<Rightarrow> modify_config" where
  "sample_modify_config limit =
     \<lparr>mc_items = sample_items_config\<lparr>orderItemsLimit := limit\<rparr>, mc_payments = sample_payment_cfg Refund_Settled,
      mc_assign = (\<lambda>sl ord. order_lines ord), mc_knownCountry = (\<lambda>code. code = ''AT'')\<rparr>"

definition adjustments_to :: "(ID \<times> int) list \<Rightarrow> modify_input" where
  "adjustments_to rows =
     \<lparr>mi_dryRun = False, mi_note = None, mi_addItems = [],
      mi_adjustOrderLines = map (\<lambda>(i, q). \<lparr>al_orderLineId = i, al_quantity = q, al_customFields = None\<rparr>) rows,
      mi_surcharges = [], mi_updateShippingAddress = None, mi_updateBillingAddress = None, mi_couponCodes = None,
      mi_shippingMethodIds = None, mi_hasCustomFields = False, mi_recalculateShipping = None,
      mi_refunds = [\<lparr>rf_paymentId = 1, rf_amount = None, rf_reason = None\<rparr>]\<rparr>"

definition sample_modified :: "int \<Rightarrow> (ID \<times> int) list \<Rightarrow> (order \<times> order_modification \<times> stock_db) modified" where
  "sample_modified limit rows =
     modifyOrder (sample_modify_config limit) sample_ctx [] (adjustments_to rows) sample_placed sample_placed_stock 10"

text \<open>One of the two units of line 3 is taken off.\<close>

definition sample_changed :: modify_state where
  "sample_changed = (start_modification (adjustments_to [(3, 1)]) sample_placed sample_placed_stock 10)
     \<lparr>ms_order := sample_placed\<lparr>order_lines := [placed_line 3 2 1, placed_line 4 1 1]\<rparr>,
      ms_stock := sample_placed_stock\<lparr>placed_lines := [(1, placed_line 3 2 1), (1, placed_line 4 1 1)], lock_log := [5]\<rparr>,
      ms_count := 4, ms_updated := [3], ms_lines := [\<lparr>orderLineId = 3, input_quantity = - 1\<rparr>],
      ms_refunds := [\<lparr>ri_lines = [\<lparr>orderLineId = 3, input_quantity = 1\<rparr>], ri_shipping = Some 0, ri_adjustment = Some 0,
        ri_paymentId = 1, ri_amount = None, ri_reason = None, ri_destination = None, ri_targets = []\<rparr>]\<rparr>"

definition sample_repriced :: order where
  "sample_repriced = sample_placed\<lparr>order_lines := [placed_line 3 2 1, placed_line 4 1 1], subTotal := 500, subTotalWithTax := 600\<rparr>"

lemma sample_changes:
  "apply_changes (sample_modify_config 999) sample_ctx [] (adjustments_to [(3, 1)])
     (start_modification (adjustments_to [(3, 1)]) sample_placed sample_placed_stock 10) = Inr (Inr sample_changed)"
  by code_simp

lemma sample_prices:
  "reprice_modified (sample_modify_config 999) sample_ctx (adjustments_to [(3, 1)]) sample_changed = Inr sample_repriced"
proof -
  let ?items = "mc_items (sample_modify_config 999)"
  have cache: "cache_activeTaxZone (ic_cache ?items) = None" "cache_activeTaxZone_PPA (ic_cache ?items) = None"
    by (simp_all add: sample_modify_config_def sample_items_config_def)
  have ids: "map line_id (filter (\<lambda>l. line_id l \<in> set (ms_updated sample_changed)) (order_lines (ms_order sample_changed))) = [3]"
    and promos: "getActivePromotionsInChannel sample_ctx (rc_promotionRows (ic_repricing ?items)) = []"
    and fresh: "fold_result (refresh_line_price (ic_repricing ?items) sample_ctx None (ms_stock sample_changed)) [3]
      (ms_order sample_changed) = Inr (ms_order sample_changed)"
    and priced: "applyPriceAdjustments (rc_calculator (ic_repricing ?items)) sample_ctx None (ms_order sample_changed) [] [3]
      \<lparr>opt_recalculateShipping = None, opt_recalculateShippingPromotions = None\<rparr> = Inr sample_repriced"
    by code_simp+
  have opt: "mi_recalculateShipping (adjustments_to [(3, 1)]) = None" by (simp add: adjustments_to_def)
  show ?thesis unfolding reprice_modified_def Let_def ids cache promos fresh opt by (simp add: fresh priced del: fold_result.simps)
qed

lemma sample_refunds:
  "case issue_refunds (mc_payments (sample_modify_config 999)) sample_repriced (- 300) 0 10 (ms_refunds sample_changed) of
     Inr (Inr (d, i)) \<Rightarrow> recorded_refunds d = 300 \<and> map quantity (order_lines d) = [1, 1] \<and> totalWithTax d = 600 \<and>
       list_all (\<lambda>l. 0 < orderPlacedQuantity l) (order_lines d) | _ \<Rightarrow> False"
  by code_simp

lemma sample_modified_run:
  "\<exists>ord' m db'. sample_modified 999 [(3, 1)] = Inr (Inr (ord', m, db')) \<and> recorded_refunds ord' = 300 \<and>
     map quantity (order_lines ord') = [1, 1] \<and> totalWithTax ord' = 600 \<and> list_all (\<lambda>l. 0 < orderPlacedQuantity l) (order_lines ord')"
proof -
  obtain d i where d: "issue_refunds (mc_payments (sample_modify_config 999)) sample_repriced (- 300) 0 10 (ms_refunds sample_changed) = Inr (Inr (d, i))"
    and facts: "recorded_refunds d = 300" "map quantity (order_lines d) = [1, 1]" "totalWithTax d = 600"
      "list_all (\<lambda>l. 0 < orderPlacedQuantity l) (order_lines d)"
    using sample_refunds by (auto split: sum.split_asm prod.split_asm)
  have totals: "totalWithTax sample_repriced - totalWithTax sample_placed = - 300" "shippingWithTax sample_repriced - shippingWithTax sample_placed = 0"
    "ms_nextId sample_changed = 10" "\<not> mi_dryRun (adjustments_to [(3, 1)])" "order_state sample_placed = Modifying"
    "\<not> noChangesSpecified (adjustments_to [(3, 1)])"
    by code_simp+
  have "\<exists>m db'. sample_modified 999 [(3, 1)] = Inr (Inr (d\<lparr>modifications := modifications d @ [m]\<rparr>, m, db'))"
    by (simp add: sample_modified_def modifyOrder_def totals sample_changes sample_prices d bind_modified_def Let_def)
  then show ?thesis using facts by (auto simp: recorded_refunds_def totalWithTax_def)
qed

lemma sample_sound:
  "distinct (map line_id (order_lines sample_placed))" "list_all (\<lambda>l. 0 \<le> quantity l \<and> line_id l < 10) (order_lines sample_placed)"
  "distinct (map payment_id (payments sample_placed))" "1 \<in> payment_id ` set (payments sample_placed)"
  "refund_processes (mc_payments (sample_modify_config n)) = [defaultRefundProcess]"
  "list_all (\<lambda>p. getPaymentRefundTotal p \<le> payment_amount p) (payments sample_placed)"
  by (simp_all add: sample_placed_def sample_order_def placed_line_def sample_payment_def sample_modify_config_def sample_payment_cfg_def
      getPaymentRefundTotal_def total_simps)

theorem modification_limits_witness:
  "\<exists>ord' m db'. sample_modified 999 [(3, 1)] = Inr (Inr (ord', m, db')) \<and> order_state ord' = Modifying \<and> totalQuantity ord' \<le> 999"
proof -
  obtain ord' m db' where run: "sample_modified 999 [(3, 1)] = Inr (Inr (ord', m, db'))" using sample_modified_run by blast
  note safe = modification_limits [OF sample_sound(5) run [unfolded sample_modified_def] sample_sound(1-3)]
  have "totalQuantity sample_placed = 3" "orderItemsLimit (mc_items (sample_modify_config 999)) = 999" by code_simp+
  then show ?thesis using safe run by auto
qed

theorem modification_refund_exact_witness:
  "\<exists>ord' m db'. sample_modified 999 [(3, 1)] = Inr (Inr (ord', m, db')) \<and> priceChange m = - 300 \<and> recorded_refunds ord' = 300"
proof -
  obtain ord' m db' where run: "sample_modified 999 [(3, 1)] = Inr (Inr (ord', m, db'))" "totalWithTax ord' = 600"
    "list_all (\<lambda>l. 0 < orderPlacedQuantity l) (order_lines ord')" using sample_modified_run by blast
  have placed: "list_all (\<lambda>l. line_id l \<in> al_orderLineId ` set (mi_adjustOrderLines (adjustments_to [(3, 1)])) \<longrightarrow> 0 < orderPlacedQuantity l)
      (order_lines ord')"
    using run(3) by (auto simp: list_all_iff)
  have refund: "mi_refunds (adjustments_to [(3, 1)]) = [\<lparr>rf_paymentId = 1, rf_amount = None, rf_reason = None\<rparr>]"
    "\<not> mi_dryRun (adjustments_to [(3, 1)])" by (simp_all add: adjustments_to_def)
  have "priceChange m = totalWithTax ord' - totalWithTax sample_placed \<and>
      recorded_refunds ord' = recorded_refunds sample_placed + max 0 (totalWithTax sample_placed - totalWithTax ord') \<and>
      list_all (\<lambda>p. getPaymentRefundTotal p \<le> payment_amount p) (payments ord')"
    by (rule modification_refund_exact [OF sample_sound(5) run(1) [unfolded sample_modified_def] refund(2) sample_sound(1-3) refund(1) _ _ placed sample_sound(6)])
      (simp_all add: sample_sound(4) [simplified])
  moreover have "totalWithTax sample_placed = 900" "recorded_refunds sample_placed = 0" by code_simp+
  ultimately show ?thesis using run(1,2) by auto
qed

text \<open>The first line already holds its two units; the second would bring the order to four.\<close>

definition sample_drifted :: modify_state where
  "sample_drifted = (start_modification (adjustments_to [(3, 2), (4, 2)]) sample_placed sample_placed_stock 10)
     \<lparr>ms_count := 5, ms_updated := [3], ms_lines := [\<lparr>orderLineId = 3, input_quantity = 0\<rparr>]\<rparr>"

lemma sample_drift:
  "modify_adjust_line (sample_modify_config 4) sample_ctx \<lparr>al_orderLineId = 3, al_quantity = 2, al_customFields = None\<rparr>
     (start_modification (adjustments_to [(3, 2), (4, 2)]) sample_placed sample_placed_stock 10) = Inr (Inr sample_drifted)"
  by code_simp

theorem adjusted_count_drifts_witness:
  "totalQuantity (ms_order sample_drifted) = 3 \<and> ms_count sample_drifted = 5 \<and>
   modify_adjust_line (sample_modify_config 4) sample_ctx \<lparr>al_orderLineId = 4, al_quantity = 2, al_customFields = None\<rparr> sample_drifted =
     Inr (Inl (ItemRefused (OrderLimitError 4)))"
proof -
  have ids: "distinct (map line_id (order_lines (ms_order (start_modification (adjustments_to [(3, 2), (4, 2)]) sample_placed sample_placed_stock 10))))"
    by code_simp
  have start: "ms_count (start_modification (adjustments_to [(3, 2), (4, 2)]) sample_placed sample_placed_stock 10) = 3"
    "totalQuantity (ms_order (start_modification (adjustments_to [(3, 2), (4, 2)]) sample_placed sample_placed_stock 10)) = 3"
    "find_line 3 (ms_order (start_modification (adjustments_to [(3, 2), (4, 2)]) sample_placed sample_placed_stock 10)) = Some (placed_line 3 2 2)"
    "quantity (placed_line 3 2 2) = 2"
    by code_simp+
  have "modify_adjust_line (sample_modify_config 4) sample_ctx \<lparr>al_orderLineId = 4, al_quantity = 2, al_customFields = None\<rparr> sample_drifted =
      Inr (Inl (ItemRefused (OrderLimitError 4)))"
    by code_simp
  then show ?thesis using adjusted_count_drifts [OF sample_drift ids] start by auto
qed

end
